(* ===== verification/Prelude.thy ===== *)
theory Prelude
  imports
    Main
    "HOL-Library.Char_ord"
    "HOL-Library.List_Lexorder"
    "HOL-Library.Product_Lexorder"
begin

text \<open>
  Shared vocabulary of the development: the collections of simplification rules, Rust's
  fixed-width integers written out over \<open>int\<close> and \<open>nat\<close>, the string functions of
  the Rust standard library that the sources use, and the list functions (\<open>dedup\<close>,
  \<open>min_by_key\<close>, \<open>find\<close> on association lists) that several components share.

  Strings are \<open>char list\<close>s, one \<open>char\<close> per Rust \<open>char\<close>; the model therefore
  covers text whose characters fit into one byte. The order on strings is the library's
  lexicographic order on character codes, which is Rust's order on such text.
\<close>

named_theorems pool_simps \<open>rewrite rules for the subscription key pool\<close>
named_theorems task_simps \<open>rewrite rules for the remote task cache\<close>
named_theorems cache_simps \<open>rewrite rules for the remote mapping cache\<close>

section \<open>Integers\<close>

type_synonym i64 = int

definition wrap_i64 :: "int \<Rightarrow> i64" where
  "wrap_i64 x = (x + 2 ^ 63) mod 2 ^ 64 - 2 ^ 63"

definition i64_range :: "int \<Rightarrow> bool" where
  "i64_range x \<longleftrightarrow> - (2 ^ 63) \<le> x \<and> x < 2 ^ 63"

definition i64_max :: i64 where
  "i64_max = 2 ^ 63 - 1"

definition saturate_i64 :: "int \<Rightarrow> i64" where
  "saturate_i64 x = (if x < - (2 ^ 63) then - (2 ^ 63) else if 2 ^ 63 \<le> x then 2 ^ 63 - 1 else x)"

definition as_u32 :: "int \<Rightarrow> nat" where
  "as_u32 x = nat (x mod 2 ^ 32)"

lemma wrap_i64_id: "i64_range x \<Longrightarrow> wrap_i64 x = x"
  by (simp add: wrap_i64_def i64_range_def)

lemma wrap_i64_in_range: "i64_range (wrap_i64 x)"
proof -
  have "0 \<le> (x + 2 ^ 63) mod 2 ^ 64" and "(x + 2 ^ 63) mod 2 ^ 64 < (2 ^ 64 :: int)"
    by simp_all
  then show ?thesis by (simp add: wrap_i64_def i64_range_def)
qed

lemma saturate_i64_id: "i64_range x \<Longrightarrow> saturate_i64 x = x"
  by (simp add: saturate_i64_def i64_range_def)

lemma as_u32_id: "0 \<le> x \<Longrightarrow> x < 2 ^ 32 \<Longrightarrow> as_u32 x = nat x"
  by (simp add: as_u32_def)

section \<open>Orderings\<close>

datatype ordering = Less | Equal | Greater

definition cmp :: "'a::linorder \<Rightarrow> 'a \<Rightarrow> ordering" where
  "cmp a b = (if a < b then Less else if a = b then Equal else Greater)"

definition then_with :: "ordering \<Rightarrow> ordering \<Rightarrow> ordering" where
  "then_with o1 o2 = (case o1 of Equal \<Rightarrow> o2 | _ \<Rightarrow> o1)"

lemma cmp_simps [simp]:
  "cmp a b = Less \<longleftrightarrow> a < b"
  "cmp a b = Equal \<longleftrightarrow> a = b"
  "cmp a b = Greater \<longleftrightarrow> b < a"
  by (auto simp: cmp_def)

section \<open>Strings\<close>

fun split_once :: "char \<Rightarrow> string \<Rightarrow> (string \<times> string) option" where
  "split_once c [] = None"
| "split_once c (x # xs) =
     (if x = c then Some ([], xs)
      else map_option (\<lambda>(a, b). (x # a, b)) (split_once c xs))"

fun strip_prefix :: "string \<Rightarrow> string \<Rightarrow> string option" where
  "strip_prefix [] s = Some s"
| "strip_prefix (p # ps) [] = None"
| "strip_prefix (p # ps) (x # xs) = (if p = x then strip_prefix ps xs else None)"

definition starts_with :: "string \<Rightarrow> string \<Rightarrow> bool" where
  "starts_with s p \<longleftrightarrow> strip_prefix p s \<noteq> None"

definition strip_suffix :: "string \<Rightarrow> string \<Rightarrow> string option" where
  "strip_suffix suf s = map_option rev (strip_prefix (rev suf) (rev s))"

lemma split_once_append [simp]:
  "c \<notin> set a \<Longrightarrow> split_once c (a @ c # b) = Some (a, b)"
  by (induction a) auto

lemma split_once_None_iff: "split_once c s = None \<longleftrightarrow> c \<notin> set s"
  by (induction s) auto

lemma split_once_SomeD:
  "split_once c s = Some (a, b) \<Longrightarrow> s = a @ c # b \<and> c \<notin> set a"
  by (induction s arbitrary: a) (auto split: if_splits)

lemma strip_prefix_append [simp]: "strip_prefix p (p @ s) = Some s"
  by (induction p) auto

lemma strip_prefix_Some_iff: "strip_prefix p s = Some r \<longleftrightarrow> s = p @ r"
  by (induction p s rule: strip_prefix.induct) auto

lemma strip_suffix_append [simp]: "strip_suffix suf (s @ suf) = Some s"
  by (simp add: strip_suffix_def)

lemma strip_suffix_Some_iff: "strip_suffix suf s = Some r \<longleftrightarrow> s = r @ suf"
  by (auto simp: strip_suffix_def strip_prefix_Some_iff rev_swap)

fun split_words :: "(char \<Rightarrow> bool) \<Rightarrow> string \<Rightarrow> string \<Rightarrow> string list" where
  "split_words sep word [] = (if word = [] then [] else [rev word])"
| "split_words sep word (c # cs) =
     (if sep c then (if word = [] then split_words sep [] cs else rev word # split_words sep [] cs)
      else split_words sep (c # word) cs)"

lemma split_words_ok:
  "\<forall>c \<in> set acc. \<not> sep c \<Longrightarrow> w \<in> set (split_words sep acc s) \<Longrightarrow> w \<noteq> [] \<and> (\<forall>c \<in> set w. \<not> sep c)"
proof (induction s arbitrary: acc)
  case Nil
  then show ?case by (cases "acc = []") simp_all
next
  case (Cons c s)
  show ?case
  proof (cases "sep c")
    case True
    then have "w = rev acc \<and> acc \<noteq> [] \<or> w \<in> set (split_words sep [] s)"
      using Cons.prems(2) by (cases "acc = []") simp_all
    then show ?thesis
    proof
      assume "w = rev acc \<and> acc \<noteq> []"
      with Cons.prems(1) show ?thesis by simp
    next
      assume "w \<in> set (split_words sep [] s)"
      then show ?thesis by (intro Cons.IH [of "[]"]) simp_all
    qed
  next
    case False
    with Cons.prems show ?thesis by (intro Cons.IH [of "c # acc"]) simp_all
  qed
qed

lemma split_words_append:
  "\<forall>c \<in> set w. \<not> sep c \<Longrightarrow> split_words sep acc (w @ s) = split_words sep (rev w @ acc) s"
  by (induction w arbitrary: acc) auto

section \<open>Decimal numbers\<close>

definition digit_val :: "char \<Rightarrow> nat option" where
  "digit_val c = (let n = of_char c in if 48 \<le> n \<and> n \<le> 57 then Some (n - 48) else None)"

definition is_ascii_digit :: "char \<Rightarrow> bool" where
  "is_ascii_digit c \<longleftrightarrow> digit_val c \<noteq> None"

fun parse_digits :: "nat \<Rightarrow> string \<Rightarrow> nat option" where
  "parse_digits acc [] = Some acc"
| "parse_digits acc (c # cs) =
     (case digit_val c of None \<Rightarrow> None | Some d \<Rightarrow> parse_digits (10 * acc + d) cs)"

definition parse_nat :: "string \<Rightarrow> nat option" where
  "parse_nat s = (if s = [] then None else parse_digits 0 s)"

definition parse_u32 :: "string \<Rightarrow> nat option" where
  "parse_u32 s =
     (let t = (case s of CHR ''+'' # r \<Rightarrow> r | _ \<Rightarrow> s)
      in case parse_nat t of
           None \<Rightarrow> None
         | Some n \<Rightarrow> if n < 2 ^ 32 then Some n else None)"

definition parse_i64 :: "string \<Rightarrow> i64 option" where
  "parse_i64 s =
     (let v = (case s of
                 [] \<Rightarrow> None
               | c # r \<Rightarrow>
                   if c = CHR ''-'' then map_option (\<lambda>n. - int n) (parse_nat r)
                   else if c = CHR ''+'' then map_option int (parse_nat r)
                   else map_option int (parse_nat s))
      in case v of None \<Rightarrow> None | Some x \<Rightarrow> if i64_range x then Some x else None)"

fun show_nat :: "nat \<Rightarrow> string" where
  "show_nat n = (if n < 10 then [char_of (48 + n)]
                 else show_nat (n div 10) @ [char_of (48 + n mod 10)])"

declare show_nat.simps [simp del]

definition show_i64 :: "i64 \<Rightarrow> string" where
  "show_i64 x = (if x < 0 then CHR ''-'' # show_nat (nat (- x)) else show_nat (nat x))"

lemma digit_val_char_of [simp]: "d < 10 \<Longrightarrow> digit_val (char_of (48 + d)) = Some d"
  by (simp add: digit_val_def Let_def)

lemma parse_digits_append:
  "parse_digits acc (xs @ ys) = Option.bind (parse_digits acc xs) (\<lambda>a. parse_digits a ys)"
  by (induction xs arbitrary: acc) (auto split: option.splits)

lemma parse_digits_show: "parse_digits 0 (show_nat n) = Some n"
proof (induction n rule: show_nat.induct)
  case (1 n)
  show ?case
  proof (cases "n < 10")
    case True
    then show ?thesis by (simp add: show_nat.simps [of n])
  next
    case False
    with 1 have "parse_digits 0 (show_nat (n div 10)) = Some (n div 10)" by simp
    with False show ?thesis
      by (simp add: show_nat.simps [of n] parse_digits_append)
  qed
qed

lemma show_nat_not_Nil [simp]: "show_nat n \<noteq> []"
  by (simp add: show_nat.simps [of n])

lemma parse_nat_show [simp]: "parse_nat (show_nat n) = Some n"
  by (simp add: parse_nat_def parse_digits_show)

lemma show_nat_digits: "c \<in> set (show_nat n) \<Longrightarrow> is_ascii_digit c"
proof (induction n rule: show_nat.induct)
  case (1 n)
  then show ?case
    by (cases "n < 10") (auto simp: show_nat.simps [of n] is_ascii_digit_def)
qed

lemma hd_show_nat: "\<exists>c r. show_nat n = c # r \<and> is_ascii_digit c"
  using show_nat_digits [of "hd (show_nat n)" n] by (cases "show_nat n") auto

lemma is_ascii_digit_sign [simp]:
  "\<not> is_ascii_digit (CHR ''-'')" "\<not> is_ascii_digit (CHR ''+'')" "\<not> is_ascii_digit (CHR ''.'')"
  by (simp_all add: is_ascii_digit_def digit_val_def)

lemma parse_i64_show [simp]: "i64_range x \<Longrightarrow> parse_i64 (show_i64 x) = Some x"
proof (cases "x < 0")
  case True
  moreover assume "i64_range x"
  ultimately show ?thesis by (simp add: parse_i64_def show_i64_def)
next
  case False
  moreover assume "i64_range x"
  moreover obtain c r where "show_nat (nat x) = c # r" and "is_ascii_digit c"
    using hd_show_nat [of "nat x"] by blast
  moreover from this(1) have "parse_nat (c # r) = Some (nat x)"
    using parse_nat_show [of "nat x"] by simp
  ultimately show ?thesis
    by (auto simp: parse_i64_def show_i64_def)
qed

section \<open>Lists\<close>

fun dedup_by_key :: "('a \<Rightarrow> 'k) \<Rightarrow> 'a list \<Rightarrow> 'a list" where
  "dedup_by_key f [] = []"
| "dedup_by_key f [x] = [x]"
| "dedup_by_key f (x # y # ys) =
     (if f x = f y then dedup_by_key f (x # ys) else x # dedup_by_key f (y # ys))"

definition dedup :: "'a list \<Rightarrow> 'a list" where
  "dedup = dedup_by_key (\<lambda>x. x)"

fun min_by_key :: "('a \<Rightarrow> 'k::linorder) \<Rightarrow> 'a list \<Rightarrow> 'a option" where
  "min_by_key f [] = None"
| "min_by_key f (x # xs) =
     (case min_by_key f xs of None \<Rightarrow> Some x | Some y \<Rightarrow> Some (if f y < f x then y else x))"

lemma dedup_by_key_hd: "\<exists>ys. dedup_by_key f (x # xs) = x # ys"
  by (induction f "x # xs" arbitrary: xs rule: dedup_by_key.induct) auto

lemma set_dedup_by_key_subset: "set (dedup_by_key f xs) \<subseteq> set xs"
  by (induction f xs rule: dedup_by_key.induct) auto

lemma keys_dedup_by_key: "f ` set (dedup_by_key f xs) = f ` set xs"
  by (induction f xs rule: dedup_by_key.induct) auto

lemma set_dedup [simp]: "set (dedup xs) = set xs"
  using keys_dedup_by_key [of "\<lambda>x. x" xs] by (simp add: dedup_def)

lemma sorted_dedup_by_key:
  "sorted_wrt (\<lambda>a b. g a \<le> g b) xs \<Longrightarrow> sorted_wrt (\<lambda>a b. g a \<le> g b) (dedup_by_key f xs)"
proof (induction f xs rule: dedup_by_key.induct)
  case (3 f x y ys)
  then show ?case
    using set_dedup_by_key_subset [of f "y # ys"] by auto
qed simp_all

lemma min_by_key_None_iff [simp]: "min_by_key f xs = None \<longleftrightarrow> xs = []"
  by (cases xs) (auto split: option.splits)

lemma min_by_key_SomeD:
  "min_by_key f xs = Some x \<Longrightarrow> x \<in> set xs \<and> (\<forall>y \<in> set xs. f x \<le> f y)"
  by (induction xs arbitrary: x) (fastforce split: option.splits if_splits)+

lemma find_SomeD: "List.find P xs = Some x \<Longrightarrow> x \<in> set xs \<and> P x"
  by (induction xs) (auto split: if_splits)

lemma set_map_filter: "y \<in> set (List.map_filter f xs) \<longleftrightarrow> (\<exists>x \<in> set xs. f x = Some y)"
  by (induction xs) (auto simp: List.map_filter_simps split: option.splits)

lemma map_filter_keys:
  assumes "\<And>x y. x \<in> set xs \<Longrightarrow> f x = Some y \<Longrightarrow> g y = h x" and "distinct (map h xs)"
  shows "distinct (map g (List.map_filter f xs))"
  using assms
  by (induction xs) (force simp: List.map_filter_simps set_map_filter split: option.splits)+

section \<open>Results\<close>

definition and_then :: "'e + 'a \<Rightarrow> ('a \<Rightarrow> 'e + 'b) \<Rightarrow> 'e + 'b" where
  "and_then r f = (case r of Inl err \<Rightarrow> Inl err | Inr x \<Rightarrow> f x)"

lemma and_then_simps [simp]: "and_then (Inl err) f = Inl err" "and_then (Inr x) f = f x"
  by (simp_all add: and_then_def)

lemma and_then_Inr_iff: "and_then r f = Inr y \<longleftrightarrow> (\<exists>x. r = Inr x \<and> f x = Inr y)"
  by (cases r) simp_all

section \<open>Sorting with a comparator\<close>

text \<open>
  The stable \<open>sort_by\<close> of the standard library. A comparator that compares keys makes it the
  library's \<open>sort_key\<close>.
\<close>

fun insort_by :: "('a \<Rightarrow> 'a \<Rightarrow> ordering) \<Rightarrow> 'a \<Rightarrow> 'a list \<Rightarrow> 'a list" where
  "insort_by c x [] = [x]"
| "insort_by c x (y # ys) = (if c x y = Greater then y # insort_by c x ys else x # y # ys)"

definition sort_by :: "('a \<Rightarrow> 'a \<Rightarrow> ordering) \<Rightarrow> 'a list \<Rightarrow> 'a list" where
  "sort_by c xs = foldr (insort_by c) xs []"

locale key_comparator =
  fixes c :: "'a \<Rightarrow> 'a \<Rightarrow> ordering"
    and key :: "'a \<Rightarrow> 'k::linorder"
  assumes compare_key: "c x y = cmp (key x) (key y)"
begin

lemma insort_by_key: "insort_by c x xs = insort_key key x xs"
  by (induction xs) (auto simp: compare_key not_less)

lemma sort_by_key: "sort_by c xs = sort_key key xs"
  by (simp add: sort_by_def sort_key_def insort_by_key fun_eq_iff cong: foldr_cong)

lemma set_sort_by [simp]: "set (sort_by c xs) = set xs"
  by (simp add: sort_by_key)

lemma sorted_sort_by: "sorted_wrt (\<lambda>a b. key a \<le> key b) (sort_by c xs)"
  using sorted_sort_key [of key xs] by (simp add: sort_by_key sorted_wrt_map)

lemma sort_by_sorted: "sorted_wrt (\<lambda>a b. key a \<le> key b) xs \<Longrightarrow> sort_by c xs = xs"
  by (simp add: sort_by_key sort_key_id_if_sorted sorted_map)

end

section \<open>Refinement\<close>

fun run_all :: "('op \<Rightarrow> 's \<Rightarrow> 'r \<times> 's) \<Rightarrow> 'op list \<Rightarrow> 's \<Rightarrow> 'r list \<times> 's" where
  "run_all step [] s = ([], s)"
| "run_all step (c # cs) s = (let (r, s) = step c s; (rs, s) = run_all step cs s in (r # rs, s))"

text \<open>
  Refinement of operations that return a result: a concrete step from related states gives the result of
  the abstract step and keeps the states related, and so do sequences of them.
\<close>

locale simulation =
  fixes concrete :: "'op \<Rightarrow> 'c \<Rightarrow> 'r \<times> 'c"
    and abstract :: "'op \<Rightarrow> 'a \<Rightarrow> 'r \<times> 'a"
    and related :: "'c \<Rightarrow> 'a \<Rightarrow> bool"
  assumes sim_result: "related c a \<Longrightarrow> fst (concrete op c) = fst (abstract op a)"
    and sim_step: "related c a \<Longrightarrow> related (snd (concrete op c)) (snd (abstract op a))"
begin

lemma run_refines:
  "related c a \<Longrightarrow>
     fst (run_all concrete ops c) = fst (run_all abstract ops a)
     \<and> related (snd (run_all concrete ops c)) (snd (run_all abstract ops a))"
  by (induction ops arbitrary: c a) (simp_all add: case_prod_beta Let_def sim_result sim_step)

end

section \<open>Invariants of transition systems\<close>

text \<open>
  The contract shared by every component with state: an invariant that holds in the initial
  states and that every step keeps holds in every state a run can reach.
\<close>

locale invariant_system =
  fixes init :: "'s \<Rightarrow> bool"
    and step :: "'s \<Rightarrow> 's \<Rightarrow> bool"
    and inv :: "'s \<Rightarrow> bool"
  assumes init_inv: "init s \<Longrightarrow> inv s"
    and step_inv: "inv s \<Longrightarrow> step s t \<Longrightarrow> inv t"
begin

lemma run_inv: "step\<^sup>*\<^sup>* s t \<Longrightarrow> inv s \<Longrightarrow> inv t"
  by (induction rule: rtranclp_induct) (auto intro: step_inv)

lemma reachable_inv: "init s \<Longrightarrow> step\<^sup>*\<^sup>* s t \<Longrightarrow> inv t"
  using run_inv init_inv by blast

end

end
