(* ===== verification/Section_Config.thy ===== *)
theory Section_Config
  imports Prelude
begin

text \<open>
  The ordered section map behind every configuration file of the server. The sources use it
  through \<open>get\<close>, \<open>get_mut\<close>, \<open>insert\<close>, \<open>remove\<close> and \<open>iter\<close> only
  (\<open>SectionConfigData\<close>); it is represented here by the association list of its sections
  in file order. What the clients rely on is the contract \<open>section_map\<close>; its
  interpretation at the end discharges the laws for the association list, and the pool
  proofs use the interpreted facts.
\<close>

type_synonym 'v section_config = "(string \<times> 'v) list"

definition sc_wf :: "'v section_config \<Rightarrow> bool" where
  "sc_wf cfg \<longleftrightarrow> distinct (map fst cfg)"

definition sc_get :: "'v section_config \<Rightarrow> string \<Rightarrow> 'v option" where
  "sc_get cfg k = map_of cfg k"

fun sc_insert :: "string \<Rightarrow> 'v \<Rightarrow> 'v section_config \<Rightarrow> 'v section_config" where
  "sc_insert k v [] = [(k, v)]"
| "sc_insert k v ((k', v') # cfg) =
     (if k = k' then (k, v) # cfg else (k', v') # sc_insert k v cfg)"

definition sc_remove :: "string \<Rightarrow> 'v section_config \<Rightarrow> 'v section_config" where
  "sc_remove k cfg = filter (\<lambda>(k', v). k' \<noteq> k) cfg"

definition sc_modify :: "string \<Rightarrow> ('v \<Rightarrow> 'v) \<Rightarrow> 'v section_config \<Rightarrow> 'v section_config" where
  "sc_modify k f cfg = map (\<lambda>(k', v). (k', if k' = k then f v else v)) cfg"

locale section_map =
  fixes wf :: "'m \<Rightarrow> bool"
    and get :: "'m \<Rightarrow> 'k \<Rightarrow> 'v option"
    and insert :: "'k \<Rightarrow> 'v \<Rightarrow> 'm \<Rightarrow> 'm"
    and remove :: "'k \<Rightarrow> 'm \<Rightarrow> 'm"
    and modify :: "'k \<Rightarrow> ('v \<Rightarrow> 'v) \<Rightarrow> 'm \<Rightarrow> 'm"
    and iter :: "'m \<Rightarrow> ('k \<times> 'v) list"
  assumes get_iter: "wf m \<Longrightarrow> get m k = Some v \<longleftrightarrow> (k, v) \<in> set (iter m)"
    and get_insert: "get (insert k v m) = (get m)(k \<mapsto> v)"
    and get_remove: "get (remove k m) = (get m)(k := None)"
    and get_modify: "get (modify k f m) = (get m)(k := map_option f (get m k))"
    and wf_insert: "wf m \<Longrightarrow> wf (insert k v m)"
    and wf_remove: "wf m \<Longrightarrow> wf (remove k m)"
    and wf_modify: "wf m \<Longrightarrow> wf (modify k f m)"
begin

lemma iter_all_iff: "wf m \<Longrightarrow> (\<forall>(k, v) \<in> set (iter m). P k v) \<longleftrightarrow> (\<forall>k v. get m k = Some v \<longrightarrow> P k v)"
  by (auto simp: get_iter)

lemma iter_ex_iff: "wf m \<Longrightarrow> (\<exists>(k, v) \<in> set (iter m). P k v) \<longleftrightarrow> (\<exists>k v. get m k = Some v \<and> P k v)"
  by (auto simp: get_iter)

lemma all_insert:
  "wf m \<Longrightarrow> (\<And>k v. get m k = Some v \<Longrightarrow> P k v) \<Longrightarrow> P k0 v0 \<Longrightarrow>
   get (insert k0 v0 m) k = Some v \<Longrightarrow> P k v"
  by (auto simp: get_insert split: if_splits)

lemma find_iter_None:
  "wf m \<Longrightarrow> List.find (\<lambda>(k, v). P k v) (iter m) = None \<longleftrightarrow> (\<forall>k v. get m k = Some v \<longrightarrow> \<not> P k v)"
  by (auto simp: find_None_iff get_iter)

lemma find_iter_Some:
  "wf m \<Longrightarrow> List.find (\<lambda>(k, v). P k v) (iter m) = Some (k, v) \<Longrightarrow> get m k = Some v \<and> P k v"
  by (auto dest!: find_SomeD simp: get_iter)

end

lemma sc_get_insert: "sc_get (sc_insert k v m) = (sc_get m)(k \<mapsto> v)"
  by (induction m) (auto simp: sc_get_def fun_eq_iff)

lemma fst_sc_insert: "set (map fst (sc_insert k v m)) = Set.insert k (set (map fst m))"
proof (induction m)
  case (Cons p m)
  then show ?case by (cases p) auto
qed simp

lemma sc_wf_insert: "sc_wf m \<Longrightarrow> sc_wf (sc_insert k v m)"
proof (induction m)
  case (Cons p m)
  then show ?case
    using fst_sc_insert [of k v m] by (cases p) (auto simp: sc_wf_def)
qed (simp add: sc_wf_def)

lemma sc_get_modify: "sc_get (sc_modify k f m) = (sc_get m)(k := map_option f (sc_get m k))"
  by (induction m) (auto simp: sc_get_def sc_modify_def fun_eq_iff)

lemma sc_get_remove: "sc_get (sc_remove k m) = (sc_get m)(k := None)"
  by (induction m) (auto simp: sc_get_def sc_remove_def fun_eq_iff)

lemma fst_sc_modify [simp]: "map fst (sc_modify k f m) = map fst m"
  by (induction m) (auto simp: sc_modify_def)

interpretation sc: section_map sc_wf sc_get sc_insert sc_remove sc_modify "\<lambda>m. m"
proof unfold_locales
  fix m :: "'a section_config" and k and v
  show "sc_wf m \<Longrightarrow> sc_get m k = Some v \<longleftrightarrow> (k, v) \<in> set m"
    by (simp add: sc_get_def sc_wf_def)
  show "sc_wf m \<Longrightarrow> sc_wf (sc_remove k m)"
    by (simp add: sc_wf_def sc_remove_def distinct_map_filter)
qed (simp_all add: sc_get_insert sc_get_remove sc_get_modify sc_wf_insert, simp add: sc_wf_def)

lemmas sc_laws = sc.get_insert sc.get_remove sc.get_modify sc.wf_insert sc.wf_remove sc.wf_modify

declare sc_laws [pool_simps]

lemma set_sc_modify:
  "(k', v') \<in> set (sc_modify k f m) \<longleftrightarrow>
     (\<exists>v. (k', v) \<in> set m \<and> v' = (if k' = k then f v else v))"
  by (force simp: sc_modify_def image_iff)

lemma sc_modify_id: "sc_get m k = None \<Longrightarrow> sc_modify k f m = m"
  by (induction m) (auto simp: sc_get_def sc_modify_def split: if_splits)

end
