(* ===== verification/Subscription_Types.thy ===== *)
theory Subscription_Types
  imports Section_Config
begin

text \<open>
  Data of the subscription key pool (\<open>lib/pdm-api-types/src/subscription.rs\<close> and the
  parts of \<open>remotes.rs\<close> it uses): subscription levels and their order, product types,
  the key schema with its regular expression as an executable matcher, socket counts and
  the choice of the best covering key, and the pool entry.
\<close>

section \<open>Remotes\<close>

datatype remote_type = Remote_Pve | Remote_Pbs

definition default_port :: "remote_type \<Rightarrow> nat" where
  "default_port ty = (case ty of Remote_Pve \<Rightarrow> 8006 | Remote_Pbs \<Rightarrow> 8007)"

definition remote_type_str :: "remote_type \<Rightarrow> string" where
  "remote_type_str ty = (case ty of Remote_Pve \<Rightarrow> ''pve'' | Remote_Pbs \<Rightarrow> ''pbs'')"

definition remote_type_from_str :: "string \<Rightarrow> remote_type option" where
  "remote_type_from_str s =
     (if s = ''pve'' then Some Remote_Pve else if s = ''pbs'' then Some Remote_Pbs else None)"

record remote =
  r_ty :: remote_type
  r_id :: string
  r_nodes :: "string list"
  r_authid :: string
  r_token :: string
  r_web_url :: "string option"

section \<open>Levels\<close>

datatype subscription_level = Level_None | Level_Unknown | Community | Basic | Standard | Premium

primrec level_rank :: "subscription_level \<Rightarrow> nat" where
  "level_rank Level_None = 0"
| "level_rank Level_Unknown = 1"
| "level_rank Community = 2"
| "level_rank Basic = 3"
| "level_rank Standard = 4"
| "level_rank Premium = 5"

lemma level_rank_inject: "level_rank a = level_rank b \<Longrightarrow> a = b"
  by (cases a; cases b) auto

instantiation subscription_level :: linorder
begin

definition less_eq_subscription_level :: "subscription_level \<Rightarrow> subscription_level \<Rightarrow> bool" where
  "less_eq_subscription_level a b \<longleftrightarrow> level_rank a \<le> level_rank b"

definition less_subscription_level :: "subscription_level \<Rightarrow> subscription_level \<Rightarrow> bool" where
  "less_subscription_level a b \<longleftrightarrow> level_rank a < level_rank b"

instance
  by standard (auto simp: less_eq_subscription_level_def less_subscription_level_def
      intro: level_rank_inject)

end

definition level_from_str :: "string \<Rightarrow> subscription_level" where
  "level_from_str s =
     (if s \<in> {''p'', ''premium'', ''Premium''} then Premium
      else if s \<in> {''s'', ''standard'', ''Standard''} then Standard
      else if s \<in> {''b'', ''basic'', ''Basic''} then Basic
      else if s \<in> {''c'', ''community'', ''Community''} then Community
      else if s \<in> {'''', ''none'', ''None''} then Level_None
      else Level_Unknown)"

definition level_display :: "subscription_level \<Rightarrow> string" where
  "level_display l =
     (case l of Level_None \<Rightarrow> ''None'' | Level_Unknown \<Rightarrow> ''Unknown'' | Community \<Rightarrow> ''Community''
      | Basic \<Rightarrow> ''Basic'' | Standard \<Rightarrow> ''Standard'' | Premium \<Rightarrow> ''Premium'')"

definition level_from_key :: "string option \<Rightarrow> subscription_level" where
  "level_from_key k =
     (case k of
        None \<Rightarrow> Level_None
      | Some key \<Rightarrow>
          if key = [] then Level_None
          else let key_type = (case split_once (CHR ''-'') key of Some (p, _) \<Rightarrow> p | None \<Rightarrow> [])
               in if key_type \<noteq> [] then level_from_str [last key_type] else Level_Unknown)"

section \<open>Products and keys\<close>

datatype product_type = Product_Pve | Product_Pbs | Product_Pmg | Product_Pom

definition as_section_type :: "product_type \<Rightarrow> string" where
  "as_section_type p =
     (case p of Product_Pve \<Rightarrow> ''pve'' | Product_Pbs \<Rightarrow> ''pbs''
      | Product_Pmg \<Rightarrow> ''pmg'' | Product_Pom \<Rightarrow> ''pom'')"

definition product_from_key :: "string \<Rightarrow> product_type option" where
  "product_from_key key =
     (case split_once (CHR ''-'') key of
        None \<Rightarrow> None
      | Some (prefix, _) \<Rightarrow>
          if starts_with prefix ''pve'' then Some Product_Pve
          else if starts_with prefix ''pbs'' then Some Product_Pbs
          else if starts_with prefix ''pmg'' then Some Product_Pmg
          else if starts_with prefix ''pom'' then Some Product_Pom
          else None)"

definition matches_remote_type :: "product_type \<Rightarrow> remote_type \<Rightarrow> bool" where
  "matches_remote_type p ty \<longleftrightarrow>
     (p = Product_Pve \<and> ty = Remote_Pve) \<or> (p = Product_Pbs \<and> ty = Remote_Pbs)"

definition is_hex_lower :: "char \<Rightarrow> bool" where
  "is_hex_lower c \<longleftrightarrow> is_ascii_digit c \<or> c \<in> set ''abcdef''"

text \<open>The regular expression \<open>^(?:pve[0-9]+|pbs)[cbsp]-[0-9a-f]{10}$\<close>.\<close>

definition product_key_regex :: "string \<Rightarrow> bool" where
  "product_key_regex s =
     (case split_once (CHR ''-'') s of
        None \<Rightarrow> False
      | Some (p, secret) \<Rightarrow>
          length secret = 10 \<and> list_all is_hex_lower secret
          \<and> p \<noteq> [] \<and> last p \<in> set ''cbsp''
          \<and> (butlast p = ''pbs''
             \<or> (case strip_prefix ''pve'' (butlast p) of
                  None \<Rightarrow> False
                | Some ds \<Rightarrow> ds \<noteq> [] \<and> list_all is_ascii_digit ds)))"

definition subscription_key_schema :: "string \<Rightarrow> bool" where
  "subscription_key_schema s \<longleftrightarrow> product_key_regex s \<and> 15 \<le> length s \<and> length s \<le> 18"

definition socket_count_from_key :: "string \<Rightarrow> nat option" where
  "socket_count_from_key key =
     (case split_once (CHR ''-'') key of
        None \<Rightarrow> None
      | Some (prefix, _) \<Rightarrow>
          (case strip_prefix ''pve'' prefix of
             None \<Rightarrow> None
           | Some after_pve \<Rightarrow> parse_u32 (takeWhile is_ascii_digit after_pve)))"

definition pick_best_pve_socket_key :: "nat \<Rightarrow> ('k \<times> string) list \<Rightarrow> 'k option" where
  "pick_best_pve_socket_key node_sockets candidates =
     map_option fst
       (min_by_key snd
          (filter (\<lambda>(_, s). node_sockets \<le> s)
             (List.map_filter
                (\<lambda>(i, key). map_option (\<lambda>s. (i, s)) (socket_count_from_key key)) candidates)))"

section \<open>Pool entries and node status\<close>

datatype subscription_status = New | NotFound | Active | Invalid | Expired | Suspended

datatype key_source = Manual | Adopted

record subscription_key_entry =
  e_key :: string
  e_product_type :: product_type
  e_level :: subscription_level
  e_source :: key_source
  e_remote :: "string option"
  e_node :: "string option"
  e_pending_clear :: bool
  e_serverid :: "string option"
  e_status :: subscription_status
  e_next_due_date :: "string option"
  e_product_name :: "string option"
  e_check_time :: "int option"

record subscription_key_shadow =
  sh_key :: string
  sh_product_type :: product_type
  sh_info :: string

record node_subscription_info =
  ni_status :: subscription_status
  ni_sockets :: "int option"
  ni_key :: "string option"
  ni_level :: subscription_level
  ni_serverid :: "string option"
  ni_check_time :: "int option"
  ni_next_due_date :: "string option"

record remote_node_status =
  ns_remote :: string
  ns_ty :: remote_type
  ns_node :: string
  ns_sockets :: "int option"
  ns_status :: subscription_status
  ns_level :: subscription_level
  ns_assigned_key :: "string option"
  ns_current_key :: "string option"
  ns_pending_clear :: bool
  ns_check_time :: "int option"
  ns_next_due_date :: "string option"

record proposed_assignment =
  pa_key :: string
  pa_remote :: string
  pa_node :: string
  pa_key_sockets :: "nat option"
  pa_node_sockets :: "int option"

record serverid_mismatch =
  sm_key :: string
  sm_expected :: string
  sm_actual :: string

definition verify_serverid ::
  "subscription_key_entry \<Rightarrow> string option \<Rightarrow> serverid_mismatch option" where
  "verify_serverid entry remote_serverid =
     (case e_serverid entry of
        None \<Rightarrow> None
      | Some expected \<Rightarrow>
          (case remote_serverid of
             None \<Rightarrow> None
           | Some actual \<Rightarrow>
               if expected = actual then None
               else Some \<lparr>sm_key = e_key entry, sm_expected = expected, sm_actual = actual\<rparr>))"

section \<open>State of a whole remote\<close>

datatype remote_subscription_state = State_None | State_Unknown | State_Mixed | State_Active

definition node_level :: "node_subscription_info option \<Rightarrow> subscription_level" where
  "node_level info =
     (case info of
        Some i \<Rightarrow> (if ni_status i = New \<or> ni_status i = Active then ni_level i else Level_None)
      | None \<Rightarrow> Level_Unknown)"

definition map_node_subscription_list_to_state ::
  "(string \<times> node_subscription_info option) list \<Rightarrow> remote_subscription_state" where
  "map_node_subscription_list_to_state infos =
     (let levels = map (node_level \<circ> snd) infos;
          minimum = (if levels = [] then Level_Unknown else Min (set levels));
          mixed = list_ex (\<lambda>l. l \<noteq> minimum) levels
      in if minimum = Level_None then State_None
         else if minimum = Level_Unknown then (if mixed then State_Active else State_Unknown)
         else if mixed then State_Mixed
         else State_Active)"

section \<open>Facts\<close>

lemma level_display_roundtrip: "level_from_str (level_display l) = l"
  by (cases l) (simp_all add: level_from_str_def level_display_def)

lemma product_from_key_dash:
  "CHR ''-'' \<notin> set p \<Longrightarrow>
   product_from_key (p @ CHR ''-'' # s) =
     (if starts_with p ''pve'' then Some Product_Pve
      else if starts_with p ''pbs'' then Some Product_Pbs
      else if starts_with p ''pmg'' then Some Product_Pmg
      else if starts_with p ''pom'' then Some Product_Pom else None)"
  by (simp add: product_from_key_def)

lemma parse_digits_all:
  "list_all is_ascii_digit ds \<Longrightarrow> \<exists>n. parse_digits acc ds = Some n \<and> n < (acc + 1) * 10 ^ length ds"
proof (induction ds arbitrary: acc)
  case (Cons c ds)
  then have "is_ascii_digit c" and ds: "list_all is_ascii_digit ds" by simp_all
  then obtain d where d: "digit_val c = Some d" by (auto simp: is_ascii_digit_def)
  from d have "d < 10" by (auto simp: digit_val_def Let_def split: if_splits)
  from Cons.IH [OF ds, of "10 * acc + d"] obtain n
    where n: "parse_digits (10 * acc + d) ds = Some n" and "n < (10 * acc + d + 1) * 10 ^ length ds"
    by auto
  moreover have "(10 * acc + d + 1) * 10 ^ length ds \<le> (10 * acc + 10) * 10 ^ length ds"
    using \<open>d < 10\<close> by (intro mult_right_mono) auto
  moreover have "(10 * acc + 10) * 10 ^ length ds = (acc + 1) * 10 ^ length (c # ds)"
    by (simp add: algebra_simps)
  ultimately have "n < (acc + 1) * 10 ^ length (c # ds)" by linarith
  with n d show ?case by simp
qed simp

lemma parse_u32_digits:
  assumes "list_all is_ascii_digit ds" "ds \<noteq> []" "length ds \<le> 3"
  shows "\<exists>n. parse_u32 ds = Some n \<and> n < 1000"
proof -
  obtain n where n: "parse_digits 0 ds = Some n" "n < 10 ^ length ds"
    using parse_digits_all [OF assms(1), of 0] by auto
  have "(10::nat) ^ length ds \<le> 10 ^ 3"
    using assms(3) by (intro power_increasing) auto
  with n have "n < 1000" by simp
  obtain c r where "ds = c # r" "is_ascii_digit c"
    using assms by (cases ds) auto
  then have "(case ds of CHR ''+'' # r \<Rightarrow> r | _ \<Rightarrow> ds) = ds"
    by (auto split: list.splits char.splits bool.splits)
  with n \<open>n < 1000\<close> assms(2) show ?thesis by (simp add: parse_u32_def parse_nat_def)
qed

lemma takeWhile_digits:
  "list_all is_ascii_digit ds \<Longrightarrow> \<not> is_ascii_digit c \<Longrightarrow> takeWhile is_ascii_digit (ds @ [c]) = ds"
  by (induction ds) auto

lemma level_of_suffix:
  "c \<in> set ''cbsp'' \<Longrightarrow> level_from_str [c] \<in> {Community, Basic, Standard, Premium} \<and> \<not> is_ascii_digit c"
  by (auto simp: level_from_str_def is_ascii_digit_def digit_val_def)

lemma key_schema_shape:
  assumes "subscription_key_schema k"
  obtains c secret where "c \<in> set ''cbsp''" "length secret = 10"
    "k = ''pbs'' @ [c] @ CHR ''-'' # secret"
  | c secret ds where "c \<in> set ''cbsp''" "length secret = 10"
    "ds \<noteq> []" "list_all is_ascii_digit ds" "length ds \<le> 3"
    "k = ''pve'' @ ds @ [c] @ CHR ''-'' # secret" "CHR ''-'' \<notin> set ds"
proof -
  obtain p secret where s: "split_once (CHR ''-'') k = Some (p, secret)"
    and len: "length secret = 10" and p: "p \<noteq> []" "last p \<in> set ''cbsp''"
    and alt: "butlast p = ''pbs''
       \<or> (\<exists>ds. strip_prefix ''pve'' (butlast p) = Some ds \<and> ds \<noteq> [] \<and> list_all is_ascii_digit ds)"
    and k: "length k \<le> 18"
    using assms by (auto simp: subscription_key_schema_def product_key_regex_def
        split: option.splits prod.splits)
  from split_once_SomeD [OF s] have kp: "k = p @ CHR ''-'' # secret" and nd: "CHR ''-'' \<notin> set p"
    by auto
  have pl: "p = butlast p @ [last p]" using p by simp
  from alt show ?thesis
  proof
    assume "butlast p = ''pbs''"
    with pl kp have "k = ''pbs'' @ [last p] @ CHR ''-'' # secret" by (metis append_assoc)
    with p len that(1) show ?thesis by blast
  next
    assume "\<exists>ds. strip_prefix ''pve'' (butlast p) = Some ds \<and> ds \<noteq> [] \<and> list_all is_ascii_digit ds"
    then obtain ds where ds: "butlast p = ''pve'' @ ds" "ds \<noteq> []" "list_all is_ascii_digit ds"
      by (auto simp: strip_prefix_Some_iff)
    with pl kp have k': "k = ''pve'' @ ds @ [last p] @ CHR ''-'' # secret" by (metis append_assoc)
    moreover have "length ds \<le> 3" using k k' len by simp
    moreover have "CHR ''-'' \<notin> set ds"
      using ds(3) by (auto simp: list_all_iff)
    ultimately show ?thesis using ds p len that(2) by blast
  qed
qed

text \<open>C7. Every key the schema admits is classified: it is a PBS key without sockets or a
  PVE key with fewer than 1000 sockets, and its level is a real subscription level.\<close>

theorem key_schema_classified:
  assumes "subscription_key_schema k"
  shows "(product_from_key k = Some Product_Pbs \<and> socket_count_from_key k = None
          \<or> product_from_key k = Some Product_Pve \<and> (\<exists>n < 1000. socket_count_from_key k = Some n))
         \<and> level_from_key (Some k) \<in> {Community, Basic, Standard, Premium}"
  using assms
proof (cases rule: key_schema_shape)
  case (1 c secret)
  then have "c \<noteq> CHR ''-''" by auto
  with 1 level_of_suffix [of c] show ?thesis
    by (auto simp: product_from_key_def socket_count_from_key_def level_from_key_def starts_with_def)
next
  case (2 c secret ds)
  then have "c \<noteq> CHR ''-''" by auto
  then have sp: "split_once (CHR ''-'') k = Some (''pve'' @ ds @ [c], secret)"
    using 2 split_once_append [of "CHR ''-''" "''pve'' @ ds @ [c]" secret] by simp
  obtain n where "parse_u32 ds = Some n" "n < 1000"
    using parse_u32_digits 2 by blast
  moreover have "takeWhile is_ascii_digit (ds @ [c]) = ds"
    using takeWhile_digits 2 level_of_suffix by blast
  ultimately have "socket_count_from_key k = Some n"
    using sp strip_prefix_append [of "''pve''" "ds @ [c]"]
    by (simp add: socket_count_from_key_def)
  moreover have "product_from_key k = Some Product_Pve"
    using sp strip_prefix_append [of "''pve''" "ds @ [c]"]
    by (simp add: product_from_key_def starts_with_def)
  moreover have "level_from_key (Some k) = level_from_str [c]"
    using sp 2(6) by (simp add: level_from_key_def)
  ultimately show ?thesis using level_of_suffix 2(1) \<open>n < 1000\<close> by auto
qed

theorem key_schema_classified_witness:
  "subscription_key_schema ''pve4b-0123456789'' \<and> (\<exists>n < 1000. socket_count_from_key ''pve4b-0123456789'' = Some n)"
proof -
  have "subscription_key_schema ''pve4b-0123456789''" by code_simp
  moreover have "product_from_key ''pve4b-0123456789'' = Some Product_Pve" by code_simp
  ultimately show ?thesis using key_schema_classified [of "''pve4b-0123456789''"] by simp
qed

lemma pick_best_candidates:
  "(i, s) \<in> set (filter (\<lambda>(_, s). n \<le> s)
       (List.map_filter (\<lambda>(i, key). map_option (\<lambda>s. (i, s)) (socket_count_from_key key)) cs)) \<longleftrightarrow>
   (\<exists>key. (i, key) \<in> set cs \<and> socket_count_from_key key = Some s \<and> n \<le> s)"
  by (auto simp: List.map_filter_def image_iff split: option.splits) (force split: option.splits)

lemma pick_best_contract:
  "case pick_best_pve_socket_key n cs of
     None \<Rightarrow> \<forall>i key s. (i, key) \<in> set cs \<longrightarrow> socket_count_from_key key = Some s \<longrightarrow> s < n
   | Some i \<Rightarrow> \<exists>key s. (i, key) \<in> set cs \<and> socket_count_from_key key = Some s \<and> n \<le> s
       \<and> (\<forall>i' key' s'. (i', key') \<in> set cs \<longrightarrow> socket_count_from_key key' = Some s' \<longrightarrow> n \<le> s'
            \<longrightarrow> s \<le> s')"
proof -
  define cov where "cov = filter (\<lambda>(_, s). n \<le> s)
       (List.map_filter (\<lambda>(i, key). map_option (\<lambda>s. (i, s)) (socket_count_from_key key)) cs)"
  have mem: "(i, s) \<in> set cov \<longleftrightarrow>
      (\<exists>key. (i, key) \<in> set cs \<and> socket_count_from_key key = Some s \<and> n \<le> s)" for i s
    unfolding cov_def by (rule pick_best_candidates)
  have pick: "pick_best_pve_socket_key n cs = map_option fst (min_by_key snd cov)"
    by (simp add: pick_best_pve_socket_key_def cov_def)
  show ?thesis
  proof (cases "min_by_key snd cov")
    case None
    then have "cov = []" by simp
    with mem have "\<And>i key s. (i, key) \<in> set cs \<Longrightarrow> socket_count_from_key key = Some s \<Longrightarrow> s < n"
      by (metis empty_iff list.set(1) not_le)
    with None pick show ?thesis by simp
  next
    case (Some p)
    obtain i s where p: "p = (i, s)" by (cases p)
    from min_by_key_SomeD [OF Some] p
    have "(i, s) \<in> set cov" and le: "\<And>i' s'. (i', s') \<in> set cov \<Longrightarrow> s \<le> s'"
      by fastforce+
    then obtain key where "(i, key) \<in> set cs" "socket_count_from_key key = Some s" "n \<le> s"
      using mem by blast
    moreover have "s \<le> s'" if "(i', key') \<in> set cs" "socket_count_from_key key' = Some s'" "n \<le> s'"
      for i' key' s'
      using le mem that by blast
    ultimately have "\<exists>key s. (i, key) \<in> set cs \<and> socket_count_from_key key = Some s \<and> n \<le> s
       \<and> (\<forall>i' key' s'. (i', key') \<in> set cs \<longrightarrow> socket_count_from_key key' = Some s' \<longrightarrow> n \<le> s'
            \<longrightarrow> s \<le> s')"
      by blast
    with Some p pick show ?thesis by simp
  qed
qed

text \<open>The chosen PVE key covers the sockets of the node with the least excess, and a key
  is chosen whenever one covers it.\<close>

theorem pick_best_optimal:
  "case pick_best_pve_socket_key n cs of
     None \<Rightarrow> \<forall>i key s. (i, key) \<in> set cs \<longrightarrow> socket_count_from_key key = Some s \<longrightarrow> s < n
   | Some i \<Rightarrow> \<exists>key s. (i, key) \<in> set cs \<and> socket_count_from_key key = Some s \<and> n \<le> s
       \<and> (\<forall>i' key' s'. (i', key') \<in> set cs \<longrightarrow> socket_count_from_key key' = Some s' \<longrightarrow> n \<le> s'
            \<longrightarrow> s \<le> s')"
  by (rule pick_best_contract)

theorem pick_best_optimal_witness:
  "\<exists>key s. (''b'', key) \<in> set [(''a'', ''pve4b-0123456789''), (''b'', ''pve2b-0123456789'')]
     \<and> socket_count_from_key key = Some s \<and> 2 \<le> s"
proof -
  define cs where "cs = [(''a'', ''pve4b-0123456789''), (''b'', ''pve2b-0123456789'')]"
  have "socket_count_from_key ''pve4b-0123456789'' = Some 4" "socket_count_from_key ''pve2b-0123456789'' = Some 2"
    by (simp_all add: socket_count_from_key_def parse_u32_def parse_nat_def digit_val_def is_ascii_digit_def)
  then have b: "pick_best_pve_socket_key 2 cs = Some ''b''"
    by (simp add: pick_best_pve_socket_key_def cs_def List.map_filter_simps)
  have "\<exists>key s. (''b'', key) \<in> set cs \<and> socket_count_from_key key = Some s \<and> 2 \<le> s"
    using pick_best_optimal [where n = 2 and cs = cs, unfolded b option.case] by (elim exE conjE) (intro exI conjI)
  then show ?thesis unfolding cs_def .
qed

lemma level_le_simps [simp]:
  "Level_None \<le> l"
  "l \<le> Level_None \<longleftrightarrow> l = Level_None"
  "l \<le> Level_Unknown \<longleftrightarrow> l = Level_None \<or> l = Level_Unknown"
  by (cases l; simp add: less_eq_subscription_level_def)+

lemma Min_level:
  assumes "finite A" "A \<noteq> {}"
  shows "Min A = Level_None \<longleftrightarrow> Level_None \<in> A"
    and "Min A = Level_Unknown \<longleftrightarrow> Level_None \<notin> A \<and> Level_Unknown \<in> A"
proof -
  have mem: "Min A \<in> A" and le: "\<And>l. l \<in> A \<Longrightarrow> Min A \<le> l" using assms by auto
  show "Min A = Level_None \<longleftrightarrow> Level_None \<in> A"
    using mem le [of Level_None] by auto
  show "Min A = Level_Unknown \<longleftrightarrow> Level_None \<notin> A \<and> Level_Unknown \<in> A"
    using mem le [of Level_None] le [of Level_Unknown] by auto
qed

lemma singleton_iff_all: "m \<in> A \<Longrightarrow> (\<exists>l. A = {l}) \<longleftrightarrow> (\<forall>l \<in> A. l = m)"
  by blast

text \<open>The state of a remote is a function of the set of levels of its nodes: none as soon as
  one node has none, unknown when all are unknown, mixed only when all levels are known and differ.\<close>

theorem map_state_spec:
  "map_node_subscription_list_to_state infos =
    (let L = node_level ` snd ` set infos
     in if Level_None \<in> L then State_None
        else if L \<subseteq> {Level_Unknown} then State_Unknown
        else if Level_Unknown \<in> L \<or> (\<exists>l. L = {l}) then State_Active
        else State_Mixed)"
proof -
  define L where "L = node_level ` snd ` set infos"
  have set_levels: "set (map (node_level \<circ> snd) infos) = L"
    by (simp add: L_def image_comp)
  show ?thesis
  proof (cases "infos = []")
    case True
    then show ?thesis by (simp add: map_node_subscription_list_to_state_def)
  next
    case False
    then have L: "finite L" "L \<noteq> {}" by (simp_all add: L_def)
    have mem: "Min L \<in> L" using L by auto
    have single: "(\<exists>l. L = {l}) \<longleftrightarrow> (\<forall>l \<in> L. l = Min L)"
      using mem by (rule singleton_iff_all)
    have ne: "map (node_level \<circ> snd) infos = [] \<longleftrightarrow> False" using False by simp
    have mixed: "list_ex (\<lambda>l. l \<noteq> Min L) (map (node_level \<circ> snd) infos) \<longleftrightarrow> \<not> (\<exists>l. L = {l})"
      unfolding list_ex_iff set_levels single by simp
    have unk: "L \<subseteq> {Level_Unknown} \<longleftrightarrow> Level_Unknown \<in> L \<and> (\<exists>l. L = {l})" using L by auto
    have "map_node_subscription_list_to_state infos =
      (if Min L = Level_None then State_None
       else if Min L = Level_Unknown then (if \<exists>l. L = {l} then State_Unknown else State_Active)
       else if \<exists>l. L = {l} then State_Active else State_Mixed)"
      unfolding map_node_subscription_list_to_state_def Let_def set_levels ne if_False mixed
      by simp
    then show ?thesis
      unfolding Let_def L_def [symmetric] Min_level [OF L] unk by simp
  qed
qed

end
