(* ===== verification/Subscription_Pool.thy ===== *)
theory Subscription_Pool
  imports Subscription_Types
begin

text \<open>
  The handlers of \<open>server/src/api/subscriptions/mod.rs\<close> that work on single pool entries:
  listing, adding, deleting, assigning, unassigning, queueing and reverting clears and
  adopting a live key. A handler that talks to a remote before it takes the pool lock reads
  the pool twice; the model gives it both readings, \<open>pre\<close> before the lock and
  \<open>locked\<close> under it, so every interleaving with another administrator is covered by
  letting the two differ. The result is an error or the pool that is saved.

  The parts that are not in the repository are arguments: the digest of the serialised pool
  and its comparison (\<open>env_digest\<close>, \<open>env_modified\<close>), the node name schema
  (\<open>env_node_ok\<close>), the default status (\<open>env_default_status\<close>), the caller's
  privileges per remote (\<open>caller\<close>), and the live subscription data of a remote.
\<close>

section \<open>Environment\<close>

type_synonym key_pool = "subscription_key_entry section_config"
type_synonym remotes_config = "remote section_config"
type_synonym live_info = "(string \<times> node_subscription_info option) list"

record 'd subs_env =
  env_digest :: "key_pool \<Rightarrow> 'd"
  env_modified :: "'d \<Rightarrow> 'd option \<Rightarrow> bool"
  env_node_ok :: "string \<Rightarrow> bool"
  env_default_status :: subscription_status

record caller =
  can_audit :: "string \<Rightarrow> bool"
  can_modify :: "string \<Rightarrow> bool"

datatype http_status = BAD_REQUEST | NOT_FOUND | CONFLICT

datatype api_msg =
    NoKeysProvided
  | UnrecognisedKey string
  | KeyExists string
  | KeyNotInPool string
  | BoundLive string
  | RemoteNotFound string
  | TypeMismatch product_type remote_type
  | AlreadyAssigned string string string
  | NoAssignment string string
  | ClearAlreadyQueued string string
  | NoPendingClear string string
  | LiveReadFailed string string
  | NoLiveSubscription string string
  | PoolChanged string string
  | AlreadyManaged string string
  | BoundElsewhere string
  | KeyRejected string
  | NodeStatusChanged

datatype api_error = Http http_status api_msg | ModifiedConfig | PermissionDenied string

definition redact_key :: "string \<Rightarrow> string" where
  "redact_key key =
     (case split_once (CHR ''-'') key of
        None \<Rightarrow> ''<malformed-key>''
      | Some (prefix, secret) \<Rightarrow>
          (case secret of
             [] \<Rightarrow> prefix @ ''-...''
           | first # rest \<Rightarrow>
               if rest = [] then prefix @ ''-'' @ [first] @ ''...''
               else prefix @ ''-'' @ [first] @ ''...'' @ [last rest]))"

definition key_not_found :: "string \<Rightarrow> api_error" where
  "key_not_found key = Http NOT_FOUND (KeyNotInPool key)"

definition opt_zip :: "'a option \<Rightarrow> 'b option \<Rightarrow> ('a \<times> 'b) option" where
  "opt_zip a b = (case (a, b) of (Some x, Some y) \<Rightarrow> Some (x, y) | _ \<Rightarrow> None)"

definition binding :: "subscription_key_entry \<Rightarrow> (string \<times> string) option" where
  "binding e = opt_zip (e_remote e) (e_node e)"

definition bound_to :: "string \<Rightarrow> string \<Rightarrow> subscription_key_entry \<Rightarrow> bool" where
  "bound_to r n e \<longleftrightarrow> e_remote e = Some r \<and> e_node e = Some n"

definition denied :: "caller \<Rightarrow> subscription_key_entry \<Rightarrow> bool" where
  "denied u e = (case e_remote e of None \<Rightarrow> False | Some r \<Rightarrow> \<not> can_modify u r)"

section \<open>Reading the pool\<close>

definition visible :: "caller \<Rightarrow> subscription_key_entry \<Rightarrow> bool" where
  "visible u e = (case e_remote e of None \<Rightarrow> True | Some r \<Rightarrow> can_audit u r)"

definition with_level :: "subscription_key_entry \<Rightarrow> subscription_key_entry" where
  "with_level e = e\<lparr>e_level := level_from_key (Some (e_key e))\<rparr>"

definition list_keys :: "caller \<Rightarrow> key_pool \<Rightarrow> subscription_key_entry list" where
  "list_keys u pool = map (with_level \<circ> snd) (filter (visible u \<circ> snd) pool)"

definition get_key :: "caller \<Rightarrow> string \<Rightarrow> key_pool \<Rightarrow> api_error + subscription_key_entry" where
  "get_key u key pool =
     (case sc_get pool key of
        None \<Rightarrow> Inl (key_not_found key)
      | Some e \<Rightarrow> if visible u e then Inr (with_level e) else Inl (key_not_found key))"

section \<open>Adding keys\<close>

definition fresh_entry ::
  "subscription_status \<Rightarrow> string \<Rightarrow> product_type \<Rightarrow> key_source \<Rightarrow> string option \<Rightarrow> string option \<Rightarrow>
   subscription_key_entry" where
  "fresh_entry st key p src r n =
     \<lparr>e_key = key, e_product_type = p, e_level = level_from_key (Some key), e_source = src,
      e_remote = r, e_node = n, e_pending_clear = False, e_serverid = None, e_status = st,
      e_next_due_date = None, e_product_name = None, e_check_time = None\<rparr>"

fun new_entries ::
  "subscription_status \<Rightarrow> string set \<Rightarrow> string list \<Rightarrow>
   api_error + (subscription_key_entry list \<times> nat)" where
  "new_entries st seen [] = Inr ([], 0)"
| "new_entries st seen (k # ks) =
     (if k \<in> seen then
        (case new_entries st seen ks of
           Inl err \<Rightarrow> Inl err
         | Inr (es, d) \<Rightarrow> Inr (es, d + 1))
      else
        (case product_from_key k of
           None \<Rightarrow> Inl (Http BAD_REQUEST (UnrecognisedKey (redact_key k)))
         | Some p \<Rightarrow>
             (case new_entries st (insert k seen) ks of
                Inl err \<Rightarrow> Inl err
              | Inr (es, d) \<Rightarrow> Inr (fresh_entry st k p Manual None None # es, d))))"

fun insert_entries ::
  "key_pool \<Rightarrow> subscription_key_entry list \<Rightarrow> api_error + key_pool" where
  "insert_entries pool [] = Inr pool"
| "insert_entries pool (e # es) =
     (case sc_get pool (e_key e) of
        Some existing \<Rightarrow> Inl (Http CONFLICT (KeyExists (e_key existing)))
      | None \<Rightarrow> insert_entries (sc_insert (e_key e) e pool) es)"

record add_keys_result =
  akr_added :: nat
  akr_deduplicated :: nat

definition add_keys ::
  "'d subs_env \<Rightarrow> string list \<Rightarrow> 'd option \<Rightarrow> key_pool \<Rightarrow>
   api_error + (add_keys_result \<times> key_pool)" where
  "add_keys env keys digest locked =
     (if keys = [] then Inl (Http BAD_REQUEST NoKeysProvided)
      else case new_entries (env_default_status env) {} keys of
        Inl err \<Rightarrow> Inl err
      | Inr (entries, deduplicated) \<Rightarrow>
          if env_modified env (env_digest env locked) digest then Inl ModifiedConfig
          else (case insert_entries locked entries of
             Inl err \<Rightarrow> Inl err
           | Inr pool \<Rightarrow>
               Inr (\<lparr>akr_added = length entries, akr_deduplicated = deduplicated\<rparr>, pool)))"

section \<open>Unbinding and deleting\<close>

definition check_synced_assignment_for_unassign ::
  "remotes_config \<Rightarrow> (remote \<Rightarrow> live_info option) \<Rightarrow> string \<Rightarrow> (string \<times> string) option \<Rightarrow>
   (string \<times> string) option" where
  "check_synced_assignment_for_unassign remotes live key bnd =
     (case bnd of
        None \<Rightarrow> None
      | Some (prev_remote, prev_node) \<Rightarrow>
          (case sc_get remotes prev_remote of
             None \<Rightarrow> None
           | Some remote_entry \<Rightarrow>
               (case live remote_entry of
                  None \<Rightarrow> None
                | Some infos \<Rightarrow>
                    let synced = (case map_of infos prev_node of
                                    Some (Some info) \<Rightarrow> ni_status info = Active \<and> ni_key info = Some key
                                  | _ \<Rightarrow> False)
                    in if synced then Some (prev_remote, prev_node) else None)))"

definition still_synced :: "(string \<times> string) option \<Rightarrow> subscription_key_entry \<Rightarrow> bool" where
  "still_synced synced_block e =
     (case synced_block of None \<Rightarrow> False | Some (r, n) \<Rightarrow> bound_to r n e)"

definition unbind_refused ::
  "bool \<Rightarrow> bool \<Rightarrow> (string \<times> string) option \<Rightarrow> subscription_key_entry \<Rightarrow> bool" where
  "unbind_refused pre_had_binding raced synced_block e =
     (let bound_post = (e_remote e \<noteq> None);
          appeared_unchecked = (\<not> pre_had_binding \<and> bound_post)
      in still_synced synced_block e \<or> (raced \<and> bound_post) \<or> appeared_unchecked)"

definition delete_key ::
  "'d subs_env \<Rightarrow> caller \<Rightarrow> caller \<Rightarrow> remotes_config \<Rightarrow> (remote \<Rightarrow> live_info option) \<Rightarrow>
   string \<Rightarrow> 'd option \<Rightarrow> key_pool \<Rightarrow> key_pool \<Rightarrow> subscription_key_shadow section_config option \<Rightarrow>
   api_error + (key_pool \<times> subscription_key_shadow section_config option)" where
  "delete_key env u0 u1 remotes live key digest pre locked shadow =
     (case sc_get pre key of
        None \<Rightarrow> Inl (key_not_found key)
      | Some pre_entry \<Rightarrow>
          if denied u0 pre_entry then Inl (PermissionDenied (the (e_remote pre_entry)))
          else
            let pre_binding = binding pre_entry;
                synced_block = check_synced_assignment_for_unassign remotes live key pre_binding
            in if env_modified env (env_digest env locked) digest then Inl ModifiedConfig
               else (case sc_get locked key of
                  None \<Rightarrow> Inl (key_not_found key)
                | Some e \<Rightarrow>
                    if denied u1 e then Inl (PermissionDenied (the (e_remote e)))
                    else if unbind_refused (pre_binding \<noteq> None)
                              (env_digest env locked \<noteq> env_digest env pre) synced_block e
                    then Inl (Http BAD_REQUEST (BoundLive key))
                    else Inr (sc_remove key locked, map_option (sc_remove key) shadow)))"

definition unbind :: "subscription_key_entry \<Rightarrow> subscription_key_entry" where
  "unbind e = e\<lparr>e_remote := None, e_node := None, e_pending_clear := False\<rparr>"

definition clear_assignment ::
  "'d subs_env \<Rightarrow> caller \<Rightarrow> caller \<Rightarrow> remotes_config \<Rightarrow> (remote \<Rightarrow> live_info option) \<Rightarrow>
   string \<Rightarrow> 'd option \<Rightarrow> key_pool \<Rightarrow> key_pool \<Rightarrow> api_error + key_pool" where
  "clear_assignment env u0 u1 remotes live key digest pre locked =
     (let pre_entry = sc_get pre key
      in if (case pre_entry of None \<Rightarrow> False | Some e \<Rightarrow> denied u0 e)
         then Inl (PermissionDenied (the (e_remote (the pre_entry))))
         else
           let pre_binding = Option.bind pre_entry binding;
               synced_block = check_synced_assignment_for_unassign remotes live key pre_binding
           in if env_modified env (env_digest env locked) digest then Inl ModifiedConfig
              else (case sc_get locked key of
                 None \<Rightarrow> Inl (key_not_found key)
               | Some e \<Rightarrow>
                   if denied u1 e then Inl (PermissionDenied (the (e_remote e)))
                   else if unbind_refused (pre_binding \<noteq> None)
                             (env_digest env locked \<noteq> env_digest env pre) synced_block e
                   then Inl (Http BAD_REQUEST (BoundLive key))
                   else Inr (sc_modify key unbind locked)))"

section \<open>Assigning\<close>

definition moves :: "(string \<times> string) option \<Rightarrow> string \<Rightarrow> string \<Rightarrow> bool" where
  "moves bnd r n = (case bnd of None \<Rightarrow> False | Some (r', n') \<Rightarrow> r' \<noteq> r \<or> n' \<noteq> n)"

definition assign_to :: "string \<Rightarrow> string \<Rightarrow> bool \<Rightarrow> subscription_key_entry \<Rightarrow> subscription_key_entry" where
  "assign_to r n post_moves e =
     (let e' = e\<lparr>e_remote := Some r, e_node := Some n\<rparr>
      in if post_moves then e'\<lparr>e_pending_clear := False\<rparr> else e')"

definition rebind_refused ::
  "bool \<Rightarrow> bool \<Rightarrow> (string \<times> string) option \<Rightarrow> bool \<Rightarrow> subscription_key_entry \<Rightarrow> bool" where
  "rebind_refused pre_had_binding raced synced_block post_moves e =
     (let bound_post = (e_remote e \<noteq> None);
          appeared_unchecked = (\<not> pre_had_binding \<and> bound_post \<and> post_moves)
      in (still_synced synced_block e \<and> post_moves) \<or> (raced \<and> bound_post \<and> post_moves)
         \<or> appeared_unchecked)"

definition set_assignment ::
  "'d subs_env \<Rightarrow> caller \<Rightarrow> caller \<Rightarrow> remotes_config \<Rightarrow> (remote \<Rightarrow> live_info option) \<Rightarrow>
   remotes_config \<Rightarrow> string \<Rightarrow> string \<Rightarrow> string \<Rightarrow> 'd option \<Rightarrow> key_pool \<Rightarrow> key_pool \<Rightarrow>
   api_error + key_pool" where
  "set_assignment env u0 u1 remotes0 live remotes key rmt nod digest pre locked =
     (if \<not> can_modify u0 rmt then Inl (PermissionDenied rmt)
      else
        let pre_binding = Option.bind (sc_get pre key) binding;
            rebind_moves_binding = moves pre_binding rmt nod
        in if rebind_moves_binding \<and> \<not> can_modify u0 (fst (the pre_binding))
           then Inl (PermissionDenied (fst (the pre_binding)))
           else
             let synced_block =
                   (if rebind_moves_binding
                    then check_synced_assignment_for_unassign remotes0 live key pre_binding
                    else None)
             in if env_modified env (env_digest env locked) digest then Inl ModifiedConfig
                else (case sc_get locked key of
                   None \<Rightarrow> Inl (key_not_found key)
                 | Some e \<Rightarrow>
                     if e_remote e \<noteq> Some rmt \<and> denied u1 e
                     then Inl (PermissionDenied (the (e_remote e)))
                     else
                       let post_moves = moves (binding e) rmt nod
                       in if rebind_refused (pre_binding \<noteq> None)
                               (env_digest env locked \<noteq> env_digest env pre) synced_block post_moves e
                          then Inl (Http BAD_REQUEST (BoundLive key))
                          else (case sc_get remotes rmt of
                             None \<Rightarrow> Inl (Http NOT_FOUND (RemoteNotFound rmt))
                           | Some remote_entry \<Rightarrow>
                               if \<not> matches_remote_type (e_product_type e) (r_ty remote_entry)
                               then Inl (Http BAD_REQUEST
                                           (TypeMismatch (e_product_type e) (r_ty remote_entry)))
                               else (case List.find (\<lambda>(_, other). e_key other \<noteq> key
                                             \<and> bound_to rmt nod other) locked of
                                  Some (_, other) \<Rightarrow>
                                    Inl (Http CONFLICT (AlreadyAssigned (e_key other) rmt nod))
                                | None \<Rightarrow>
                                    Inr (sc_modify key (assign_to rmt nod post_moves) locked)))))"

section \<open>Queued clears\<close>

definition find_bound :: "string \<Rightarrow> string \<Rightarrow> key_pool \<Rightarrow> (string \<times> subscription_key_entry) option" where
  "find_bound r n pool = List.find (\<lambda>(_, e). bound_to r n e) pool"

definition queue_clear ::
  "'d subs_env \<Rightarrow> caller \<Rightarrow> string \<Rightarrow> string \<Rightarrow> 'd option \<Rightarrow> key_pool \<Rightarrow> api_error + key_pool" where
  "queue_clear env u rmt nod digest locked =
     (if \<not> can_modify u rmt then Inl (PermissionDenied rmt)
      else if env_modified env (env_digest env locked) digest then Inl ModifiedConfig
      else (case find_bound rmt nod locked of
         None \<Rightarrow> Inl (Http BAD_REQUEST (NoAssignment rmt nod))
       | Some (i, e) \<Rightarrow>
           if e_pending_clear e then Inl (Http BAD_REQUEST (ClearAlreadyQueued rmt nod))
           else Inr (sc_modify i (\<lambda>e. e\<lparr>e_pending_clear := True\<rparr>) locked)))"

definition revert_pending_clear ::
  "'d subs_env \<Rightarrow> caller \<Rightarrow> string \<Rightarrow> string \<Rightarrow> 'd option \<Rightarrow> key_pool \<Rightarrow> api_error + key_pool" where
  "revert_pending_clear env u rmt nod digest locked =
     (if \<not> can_modify u rmt then Inl (PermissionDenied rmt)
      else if env_modified env (env_digest env locked) digest then Inl ModifiedConfig
      else (case find_bound rmt nod locked of
         None \<Rightarrow> Inl (Http BAD_REQUEST (NoAssignment rmt nod))
       | Some (i, e) \<Rightarrow>
           if \<not> e_pending_clear e then Inl (Http BAD_REQUEST (NoPendingClear rmt nod))
           else Inr (sc_modify i (\<lambda>e. e\<lparr>e_pending_clear := False\<rparr>) locked)))"

section \<open>Adopting\<close>

definition bind_to :: "string \<Rightarrow> string \<Rightarrow> subscription_key_entry \<Rightarrow> subscription_key_entry" where
  "bind_to r n e = e\<lparr>e_remote := Some r, e_node := Some n\<rparr>"

definition adopt_key ::
  "'d subs_env \<Rightarrow> caller \<Rightarrow> remotes_config \<Rightarrow> (remote \<Rightarrow> live_info option) \<Rightarrow>
   string \<Rightarrow> string \<Rightarrow> 'd option \<Rightarrow> key_pool \<Rightarrow> key_pool \<Rightarrow> api_error + key_pool" where
  "adopt_key env u remotes live rmt nod digest pre locked =
     (if \<not> can_modify u rmt then Inl (PermissionDenied rmt)
      else (case sc_get remotes rmt of
         None \<Rightarrow> Inl (Http NOT_FOUND (RemoteNotFound rmt))
       | Some remote_entry \<Rightarrow>
           (case live remote_entry of
              None \<Rightarrow> Inl (Http BAD_REQUEST (LiveReadFailed rmt nod))
            | Some infos \<Rightarrow>
                (case Option.bind (Option.bind (map_of infos nod) (\<lambda>i. i)) ni_key of
                   None \<Rightarrow> Inl (Http NOT_FOUND (NoLiveSubscription rmt nod))
                 | Some key \<Rightarrow>
                     if env_modified env (env_digest env locked) digest then Inl ModifiedConfig
                     else if env_digest env locked \<noteq> env_digest env pre
                     then Inl (Http CONFLICT (PoolChanged rmt nod))
                     else if list_ex (\<lambda>(_, e). bound_to rmt nod e) locked
                     then Inl (Http BAD_REQUEST (AlreadyManaged rmt nod))
                     else (case sc_get locked key of
                        Some existing \<Rightarrow>
                          if e_remote existing \<noteq> None \<or> e_node existing \<noteq> None
                          then Inl (Http CONFLICT (BoundElsewhere (redact_key key)))
                          else Inr (sc_modify key (bind_to rmt nod) locked)
                      | None \<Rightarrow>
                          if \<not> subscription_key_schema key
                          then Inl (Http BAD_REQUEST (KeyRejected (redact_key key)))
                          else (case product_from_key key of
                             None \<Rightarrow> Inl (Http BAD_REQUEST (UnrecognisedKey (redact_key key)))
                           | Some p \<Rightarrow>
                               Inr (sc_insert key
                                      (fresh_entry (env_default_status env) key p Adopted
                                         (Some rmt) (Some nod)) locked)))))))"

end
