(* ===== verification/Subscription_Plan.thy ===== *)
theory Subscription_Plan
  imports Subscription_Pool
begin

text \<open>
  The bulk handlers of \<open>server/src/api/subscriptions/mod.rs\<close>: the joined node status,
  bulk adoption, the auto-assign proposal with its commit, and the pending changes with their
  discard (\<open>clear_pending\<close>) and their execution (\<open>run_apply_pending\<close>). The network
  calls of the worker act on a state \<open>'w\<close> of the remotes through the record
  \<open>remote_api\<close>; an iteration of the worker gets the pool it reads first and the pool it
  finds under the lock as two arguments.
\<close>

section \<open>Node status\<close>

definition any_privs :: "caller \<Rightarrow> remotes_config \<Rightarrow> remotes_config" where
  "any_privs u remotes = filter (\<lambda>(name, _). can_audit u name) remotes"

definition node_row ::
  "string \<Rightarrow> remote_type \<Rightarrow> string \<Rightarrow> node_subscription_info option \<Rightarrow> string option \<Rightarrow> bool \<Rightarrow>
   remote_node_status" where
  "node_row rmt ty nod info assigned pending =
     (case info of
        Some i \<Rightarrow>
          \<lparr>ns_remote = rmt, ns_ty = ty, ns_node = nod, ns_sockets = ni_sockets i,
           ns_status = ni_status i, ns_level = ni_level i, ns_assigned_key = assigned,
           ns_current_key = ni_key i, ns_pending_clear = pending,
           ns_check_time = ni_check_time i, ns_next_due_date = ni_next_due_date i\<rparr>
      | None \<Rightarrow>
          \<lparr>ns_remote = rmt, ns_ty = ty, ns_node = nod, ns_sockets = None,
           ns_status = NotFound, ns_level = Level_None, ns_assigned_key = assigned,
           ns_current_key = None, ns_pending_clear = pending,
           ns_check_time = None, ns_next_due_date = None\<rparr>)"

definition joined_row ::
  "key_pool \<Rightarrow> string \<Rightarrow> remote_type \<Rightarrow> string \<times> node_subscription_info option \<Rightarrow> remote_node_status" where
  "joined_row pool rmt ty = (\<lambda>(nod, info).
     case find_bound rmt nod pool of
       Some (_, e) \<Rightarrow> node_row rmt ty nod info (Some (e_key e)) (e_pending_clear e)
     | None \<Rightarrow> node_row rmt ty nod info None False)"

definition collect_node_status ::
  "caller \<Rightarrow> remotes_config \<Rightarrow> (remote \<Rightarrow> live_info option) \<Rightarrow> key_pool \<Rightarrow> remote_node_status list" where
  "collect_node_status u remotes live pool =
     sort_key (\<lambda>n. (ns_remote n, ns_node n))
       (concat (map (\<lambda>(name, r). case live r of
                                    None \<Rightarrow> []
                                  | Some infos \<Rightarrow> map (joined_row pool name (r_ty r)) infos)
          (any_privs u remotes)))"

definition collect_status_uncached ::
  "remotes_config \<Rightarrow> (remote \<Rightarrow> live_info option) \<Rightarrow> remote_node_status list" where
  "collect_status_uncached remotes live =
     concat (map (\<lambda>(name, r). case live r of
                                None \<Rightarrow> []
                              | Some infos \<Rightarrow>
                                  map (\<lambda>(nod, info). node_row name (r_ty r) nod info None False) infos)
       remotes)"

section \<open>Bulk adoption\<close>

record adopted_entry =
  ad_remote :: string
  ad_node :: string
  ad_key :: string

definition adopt_candidate ::
  "'d subs_env \<Rightarrow> caller \<Rightarrow> remote_node_status \<Rightarrow> key_pool \<Rightarrow> (adopted_entry \<times> key_pool) option" where
  "adopt_candidate env u n pool =
     (case ns_current_key n of
        None \<Rightarrow> None
      | Some current_key \<Rightarrow>
          if ns_assigned_key n \<noteq> None then None
          else if \<not> can_modify u (ns_remote n) then None
          else if \<not> env_node_ok env (ns_node n) then None
          else if list_ex (\<lambda>(_, e). bound_to (ns_remote n) (ns_node n) e) pool then None
          else
            let ad = \<lparr>ad_remote = ns_remote n, ad_node = ns_node n, ad_key = current_key\<rparr>
            in (case sc_get pool current_key of
                  Some existing \<Rightarrow>
                    if e_remote existing \<noteq> None \<or> e_node existing \<noteq> None then None
                    else Some (ad, sc_modify current_key (bind_to (ns_remote n) (ns_node n)) pool)
                | None \<Rightarrow>
                    if \<not> subscription_key_schema current_key then None
                    else (case product_from_key current_key of
                       None \<Rightarrow> None
                     | Some p \<Rightarrow>
                         Some (ad, sc_insert current_key
                                 (fresh_entry (env_default_status env) current_key p Adopted
                                    (Some (ns_remote n)) (Some (ns_node n))) pool))))"

fun adopt_loop ::
  "'d subs_env \<Rightarrow> caller \<Rightarrow> remote_node_status list \<Rightarrow> key_pool \<Rightarrow> adopted_entry list \<times> key_pool" where
  "adopt_loop env u [] pool = ([], pool)"
| "adopt_loop env u (n # ns) pool =
     (case adopt_candidate env u n pool of
        None \<Rightarrow> adopt_loop env u ns pool
      | Some (ad, pool') \<Rightarrow>
          (let (ads, pool'') = adopt_loop env u ns pool' in (ad # ads, pool'')))"

definition adopt_all ::
  "'d subs_env \<Rightarrow> caller \<Rightarrow> remote_node_status list \<Rightarrow> 'd option \<Rightarrow> key_pool \<Rightarrow>
   api_error + (adopted_entry list \<times> key_pool)" where
  "adopt_all env u statuses digest locked =
     (if env_modified env (env_digest env locked) digest then Inl ModifiedConfig
      else let (adopted, pool) = adopt_loop env u statuses locked
           in Inr (adopted, if adopted = [] then locked else pool))"

section \<open>Proposals\<close>

definition target_nodes :: "remote_node_status list \<Rightarrow> remote_node_status list" where
  "target_nodes statuses =
     sort_key (\<lambda>n. - (case ns_sockets n of None \<Rightarrow> 0 | Some s \<Rightarrow> s))
       (filter (\<lambda>n. ns_assigned_key n = None \<and> ns_status n \<noteq> Active) statuses)"

definition node_sockets_u32 :: "remote_node_status \<Rightarrow> nat" where
  "node_sockets_u32 n = as_u32 (case ns_sockets n of None \<Rightarrow> 1 | Some s \<Rightarrow> s)"

definition candidates :: "key_pool \<Rightarrow> string set \<Rightarrow> remote_type \<Rightarrow> key_pool" where
  "candidates pool taken ty =
     filter (\<lambda>(i, e). e_remote e = None \<and> i \<notin> taken \<and> matches_remote_type (e_product_type e) ty) pool"

definition best_key :: "key_pool \<Rightarrow> string set \<Rightarrow> remote_node_status \<Rightarrow> string option" where
  "best_key pool taken n =
     (let cs = candidates pool taken (ns_ty n)
      in if ns_ty n = Remote_Pve
         then pick_best_pve_socket_key (node_sockets_u32 n) (map (\<lambda>(i, e). (i, e_key e)) cs)
         else (case cs of [] \<Rightarrow> None | (i, _) # _ \<Rightarrow> Some i))"

definition mk_proposal :: "key_pool \<Rightarrow> remote_node_status \<Rightarrow> string \<Rightarrow> proposed_assignment" where
  "mk_proposal pool n key_id =
     \<lparr>pa_key = key_id, pa_remote = ns_remote n, pa_node = ns_node n,
      pa_key_sockets = Option.bind (sc_get pool key_id) (\<lambda>e. socket_count_from_key (e_key e)),
      pa_node_sockets = ns_sockets n\<rparr>"

fun propose :: "key_pool \<Rightarrow> string set \<Rightarrow> remote_node_status list \<Rightarrow> proposed_assignment list" where
  "propose pool taken [] = []"
| "propose pool taken (n # ns) =
     (case best_key pool taken n of
        None \<Rightarrow> propose pool taken ns
      | Some key_id \<Rightarrow> mk_proposal pool n key_id # propose pool (insert key_id taken) ns)"

definition compute_proposals :: "key_pool \<Rightarrow> remote_node_status list \<Rightarrow> proposed_assignment list" where
  "compute_proposals pool statuses = propose pool {} (target_nodes statuses)"

type_synonym status_slice = "string \<times> string \<times> subscription_status \<times> int option \<times> bool"

definition status_slice :: "remote_node_status \<Rightarrow> status_slice" where
  "status_slice n = (ns_remote n, ns_node n, ns_status n, ns_sockets n, ns_assigned_key n \<noteq> None)"

definition hash_node_status :: "(status_slice list \<Rightarrow> 'h) \<Rightarrow> remote_node_status list \<Rightarrow> 'h" where
  "hash_node_status sha statuses =
     sha (sort_key (\<lambda>s. (fst s, fst (snd s))) (map status_slice statuses))"

record ('d, 'h) auto_assign_proposal =
  aap_assignments :: "proposed_assignment list"
  aap_keys_digest :: 'd
  aap_node_status_digest :: 'h

definition auto_assign ::
  "'d subs_env \<Rightarrow> (status_slice list \<Rightarrow> 'h) \<Rightarrow> key_pool \<Rightarrow> remote_node_status list \<Rightarrow>
   ('d, 'h) auto_assign_proposal" where
  "auto_assign env sha pool statuses =
     \<lparr>aap_assignments = compute_proposals pool statuses,
      aap_keys_digest = env_digest env pool,
      aap_node_status_digest = hash_node_status sha statuses\<rparr>"

definition assign_fresh :: "string \<Rightarrow> string \<Rightarrow> subscription_key_entry \<Rightarrow> subscription_key_entry" where
  "assign_fresh r n e = e\<lparr>e_remote := Some r, e_node := Some n, e_pending_clear := False\<rparr>"

definition bulk_accepts ::
  "'d subs_env \<Rightarrow> caller \<Rightarrow> remotes_config \<Rightarrow> key_pool \<Rightarrow> proposed_assignment \<Rightarrow> bool" where
  "bulk_accepts env u remotes pool p \<longleftrightarrow>
     can_modify u (pa_remote p) \<and> env_node_ok env (pa_node p)
     \<and> (case sc_get remotes (pa_remote p) of
          None \<Rightarrow> False
        | Some r \<Rightarrow>
            (case sc_get pool (pa_key p) of
               None \<Rightarrow> False
             | Some e \<Rightarrow>
                 matches_remote_type (e_product_type e) (r_ty r)
                 \<and> \<not> list_ex (\<lambda>(_, e'). e_key e' \<noteq> pa_key p
                                \<and> bound_to (pa_remote p) (pa_node p) e') pool
                 \<and> e_remote e = None))"

fun bulk_loop ::
  "'d subs_env \<Rightarrow> caller \<Rightarrow> remotes_config \<Rightarrow> proposed_assignment list \<Rightarrow> key_pool \<Rightarrow>
   proposed_assignment list \<times> key_pool" where
  "bulk_loop env u remotes [] pool = ([], pool)"
| "bulk_loop env u remotes (p # ps) pool =
     (if bulk_accepts env u remotes pool p
      then (let (applied, pool') =
                  bulk_loop env u remotes ps
                    (sc_modify (pa_key p) (assign_fresh (pa_remote p) (pa_node p)) pool)
            in (p # applied, pool'))
      else bulk_loop env u remotes ps pool)"

definition bulk_assign ::
  "'d subs_env \<Rightarrow> (status_slice list \<Rightarrow> 'h) \<Rightarrow> caller \<Rightarrow> remotes_config \<Rightarrow> remote_node_status list \<Rightarrow>
   ('d, 'h) auto_assign_proposal \<Rightarrow> key_pool \<Rightarrow> api_error + (proposed_assignment list \<times> key_pool)" where
  "bulk_assign env sha u remotes statuses proposal locked =
     (if hash_node_status sha statuses \<noteq> aap_node_status_digest proposal
      then Inl (Http CONFLICT NodeStatusChanged)
      else if env_modified env (env_digest env locked) (Some (aap_keys_digest proposal))
      then Inl ModifiedConfig
      else let (applied, pool) = bulk_loop env u remotes (aap_assignments proposal) locked
           in Inr (applied, if applied = [] then locked else pool))"

section \<open>Pending changes\<close>

datatype pending_op = Push | Clear

record pending_entry =
  pe_key :: string
  pe_remote :: string
  pe_node :: string
  pe_op :: pending_op

definition push_needed :: "remote_node_status list \<Rightarrow> string \<Rightarrow> string \<Rightarrow> string \<Rightarrow> bool" where
  "push_needed statuses rmt nod key =
     (case List.find (\<lambda>n. ns_remote n = rmt \<and> ns_node n = nod) statuses of
        Some n \<Rightarrow> ns_current_key n \<noteq> Some key
      | None \<Rightarrow> True)"

definition pending_of ::
  "caller \<Rightarrow> remote_node_status list \<Rightarrow> subscription_key_entry \<Rightarrow> pending_entry option" where
  "pending_of u statuses e =
     (case (e_remote e, e_node e) of
        (Some rmt, Some nod) \<Rightarrow>
          if \<not> can_modify u rmt then None
          else if e_pending_clear e
          then Some \<lparr>pe_key = e_key e, pe_remote = rmt, pe_node = nod, pe_op = Clear\<rparr>
          else if push_needed statuses rmt nod (e_key e)
          then Some \<lparr>pe_key = e_key e, pe_remote = rmt, pe_node = nod, pe_op = Push\<rparr>
          else None
      | _ \<Rightarrow> None)"

definition compute_pending ::
  "caller \<Rightarrow> key_pool \<Rightarrow> remote_node_status list \<Rightarrow> pending_entry list" where
  "compute_pending u pool statuses = List.map_filter (pending_of u statuses \<circ> snd) pool"

definition pool_assignment_still_valid :: "key_pool \<Rightarrow> pending_entry \<Rightarrow> bool" where
  "pool_assignment_still_valid pool p =
     (case sc_get pool (pe_key p) of
        None \<Rightarrow> False
      | Some stored \<Rightarrow> bound_to (pe_remote p) (pe_node p) stored)"

definition discard_op :: "pending_op \<Rightarrow> subscription_key_entry \<Rightarrow> subscription_key_entry" where
  "discard_op op e = (case op of Clear \<Rightarrow> e\<lparr>e_pending_clear := False\<rparr> | Push \<Rightarrow> unbind e)"

fun clear_loop :: "pending_entry list \<Rightarrow> key_pool \<Rightarrow> nat \<times> key_pool" where
  "clear_loop [] pool = (0, pool)"
| "clear_loop (p # ps) pool =
     (if pool_assignment_still_valid pool p
      then (let (cleared, pool') = clear_loop ps (sc_modify (pe_key p) (discard_op (pe_op p)) pool)
            in (cleared + 1, pool'))
      else clear_loop ps pool)"

definition clear_pending ::
  "'d subs_env \<Rightarrow> caller \<Rightarrow> remote_node_status list \<Rightarrow> 'd option \<Rightarrow> key_pool \<Rightarrow> key_pool \<Rightarrow> key_pool \<Rightarrow>
   api_error + (nat \<times> key_pool)" where
  "clear_pending env u statuses digest pre mid locked =
     (if env_modified env (env_digest env pre) digest then Inl ModifiedConfig
      else let pending = compute_pending u mid statuses
           in if pending = [] then Inr (0, locked)
              else if env_modified env (env_digest env locked) digest then Inl ModifiedConfig
              else let (cleared, pool) = clear_loop pending locked
                   in Inr (cleared, if 0 < cleared then pool else locked))"

section \<open>Executing the pending changes\<close>

record 'w remote_api =
  api_set_pve :: "remote \<Rightarrow> string \<Rightarrow> string \<Rightarrow> 'w \<Rightarrow> string option \<times> 'w"
  api_set_pbs :: "remote \<Rightarrow> string \<Rightarrow> 'w \<Rightarrow> string option \<times> 'w"
  api_delete_pve :: "remote \<Rightarrow> string \<Rightarrow> 'w \<Rightarrow> string option \<times> 'w"
  api_delete_pbs :: "remote \<Rightarrow> 'w \<Rightarrow> string option \<times> 'w"
  api_invalidate :: "string \<Rightarrow> 'w \<Rightarrow> 'w"

datatype push_error = BadKeyFormat string | NoRemoteSupport product_type | RemoteError string

definition lift_remote :: "string option \<times> 'w \<Rightarrow> push_error option \<times> 'w" where
  "lift_remote res = (case res of (err, w) \<Rightarrow> (map_option RemoteError err, w))"

definition push_key_to_remote ::
  "'w remote_api \<Rightarrow> remote \<Rightarrow> string \<Rightarrow> string \<Rightarrow> 'w \<Rightarrow> push_error option \<times> 'w" where
  "push_key_to_remote api rmt key nod w =
     (case product_from_key key of
        None \<Rightarrow> (Some (BadKeyFormat key), w)
      | Some Product_Pve \<Rightarrow> lift_remote (api_set_pve api rmt nod key w)
      | Some Product_Pbs \<Rightarrow> lift_remote (api_set_pbs api rmt key w)
      | Some p \<Rightarrow> (Some (NoRemoteSupport p), w))"

definition delete_subscription_on_remote ::
  "'w remote_api \<Rightarrow> remote \<Rightarrow> product_type \<Rightarrow> string \<Rightarrow> 'w \<Rightarrow> push_error option \<times> 'w" where
  "delete_subscription_on_remote api rmt p nod w =
     (case p of
        Product_Pve \<Rightarrow> lift_remote (api_delete_pve api rmt nod w)
      | Product_Pbs \<Rightarrow> lift_remote (api_delete_pbs api rmt w)
      | _ \<Rightarrow> (Some (NoRemoteSupport p), w))"

datatype apply_failure =
    RemoteVanished string string
  | PushFailed string string push_error
  | ClearBadKey string string
  | ClearFailed string string push_error

datatype apply_outcome = Skipped | Failed apply_failure | Succeeded

definition op_consistent :: "key_pool \<Rightarrow> pending_entry \<Rightarrow> bool" where
  "op_consistent pool p =
     (let current = (case sc_get pool (pe_key p) of None \<Rightarrow> False | Some e \<Rightarrow> e_pending_clear e)
      in case pe_op p of Push \<Rightarrow> \<not> current | Clear \<Rightarrow> current)"

definition drop_binding :: "pending_entry \<Rightarrow> key_pool \<Rightarrow> key_pool" where
  "drop_binding p pool =
     (if pool_assignment_still_valid pool p then sc_modify (pe_key p) unbind pool else pool)"

definition apply_entry ::
  "'w remote_api \<Rightarrow> remotes_config \<Rightarrow> pending_entry \<Rightarrow> key_pool \<Rightarrow> key_pool \<Rightarrow> 'w \<Rightarrow>
   apply_outcome \<times> key_pool \<times> 'w" where
  "apply_entry api remotes p seen locked w =
     (if \<not> pool_assignment_still_valid seen p then (Skipped, locked, w)
      else if \<not> op_consistent seen p then (Skipped, locked, w)
      else (case pe_op p of
        Push \<Rightarrow>
          (case sc_get remotes (pe_remote p) of
             None \<Rightarrow> (Failed (RemoteVanished (pe_remote p) (pe_node p)), locked, w)
           | Some rmt \<Rightarrow>
               (case push_key_to_remote api rmt (pe_key p) (pe_node p) w of
                  (Some err, w') \<Rightarrow>
                    (Failed (PushFailed (pe_remote p) (pe_node p) err), locked, w')
                | (None, w') \<Rightarrow> (Succeeded, locked, api_invalidate api (pe_remote p) w')))
      | Clear \<Rightarrow>
          (case product_from_key (pe_key p) of
             None \<Rightarrow> (Failed (ClearBadKey (pe_remote p) (pe_node p)), locked, w)
           | Some pt \<Rightarrow>
               (case (case sc_get remotes (pe_remote p) of
                        None \<Rightarrow> (None, w)
                      | Some rmt \<Rightarrow> delete_subscription_on_remote api rmt pt (pe_node p) w) of
                  (Some err, w') \<Rightarrow>
                    (Failed (ClearFailed (pe_remote p) (pe_node p) err), locked, w')
                | (None, w') \<Rightarrow>
                    (Succeeded, drop_binding p locked, api_invalidate api (pe_remote p) w')))))"

fun apply_entries ::
  "'w remote_api \<Rightarrow> remotes_config \<Rightarrow> pending_entry list \<Rightarrow> key_pool \<Rightarrow> 'w \<Rightarrow>
   apply_outcome list \<times> key_pool \<times> 'w" where
  "apply_entries api remotes [] pool w = ([], pool, w)"
| "apply_entries api remotes (p # ps) pool w =
     (let (oc, pool', w') = apply_entry api remotes p pool pool w;
          (ocs, pool'', w'') = apply_entries api remotes ps pool' w'
      in (oc # ocs, pool'', w''))"

fun failures_of :: "apply_outcome list \<Rightarrow> apply_failure list" where
  "failures_of [] = []"
| "failures_of (Failed f # ocs) = f # failures_of ocs"
| "failures_of (_ # ocs) = failures_of ocs"

record apply_summary =
  as_ok :: nat
  as_total :: nat
  as_failures :: "apply_failure list"

definition run_apply_pending ::
  "'w remote_api \<Rightarrow> caller \<Rightarrow> remotes_config \<Rightarrow> (remote \<Rightarrow> live_info option) \<Rightarrow> key_pool \<Rightarrow> 'w \<Rightarrow>
   (apply_summary + apply_summary) \<times> key_pool \<times> 'w" where
  "run_apply_pending api u remotes live pool w =
     (let pending = compute_pending u pool (collect_status_uncached remotes live);
          (ocs, pool', w') = apply_entries api remotes pending pool w;
          summary = \<lparr>as_ok = length (filter (\<lambda>oc. oc = Succeeded) ocs),
                     as_total = length pending, as_failures = failures_of ocs\<rparr>
      in (if as_failures summary = [] then Inr summary else Inl summary, pool', w'))"

definition apply_pending ::
  "'d subs_env \<Rightarrow> caller \<Rightarrow> remote_node_status list \<Rightarrow> 'd option \<Rightarrow> key_pool \<Rightarrow> key_pool \<Rightarrow>
   api_error + bool" where
  "apply_pending env u statuses digest pre mid =
     (if env_modified env (env_digest env pre) digest then Inl ModifiedConfig
      else Inr (compute_pending u mid statuses \<noteq> []))"

end
