(* ===== verification/Subscription_Inv.thy ===== *)
theory Subscription_Inv
  imports Subscription_Plan
begin

text \<open>
  The invariant of the subscription key pool and the proof that every handler keeps it, first
  for the three ways a handler writes (insert, modify, remove), then for each handler.
\<close>

section \<open>The invariant\<close>

definition entry_ok :: "string \<Rightarrow> subscription_key_entry \<Rightarrow> bool" where
  "entry_ok k e \<longleftrightarrow>
     e_key e = k \<and> product_from_key k = Some (e_product_type e)
     \<and> (e_remote e = None \<longleftrightarrow> e_node e = None)
     \<and> (e_pending_clear e \<longrightarrow> e_remote e \<noteq> None)"

definition pool_inv :: "key_pool \<Rightarrow> bool" where
  "pool_inv pool \<longleftrightarrow>
     sc_wf pool
     \<and> list_all (\<lambda>(k, e). entry_ok k e) pool
     \<and> list_all (\<lambda>(k, e). list_all (\<lambda>(k', e'). k \<noteq> k' \<longrightarrow> binding e \<noteq> None \<longrightarrow> binding e \<noteq> binding e')
                             pool) pool"

lemma binding_None_iff [simp]: "binding e = None \<longleftrightarrow> e_remote e = None \<or> e_node e = None"
  by (auto simp: binding_def opt_zip_def split: option.splits)

lemma binding_Some_iff [simp]: "binding e = Some (r, n) \<longleftrightarrow> bound_to r n e"
  by (auto simp: binding_def opt_zip_def bound_to_def split: option.splits)

lemma pool_inv_iff:
  "pool_inv pool \<longleftrightarrow>
     sc_wf pool
     \<and> (\<forall>k e. sc_get pool k = Some e \<longrightarrow> entry_ok k e)
     \<and> (\<forall>k e k' e'. sc_get pool k = Some e \<longrightarrow> sc_get pool k' = Some e' \<longrightarrow> k \<noteq> k' \<longrightarrow>
          binding e \<noteq> None \<longrightarrow> binding e \<noteq> binding e')"
proof (cases "sc_wf pool")
  case True
  note it = sc.get_iter [OF True, symmetric]
  show ?thesis
    unfolding pool_inv_def list_all_iff Ball_def split_paired_All prod.case it by meson
qed (simp add: pool_inv_def)

lemma pool_inv_wf: "pool_inv pool \<Longrightarrow> sc_wf pool"
  by (simp add: pool_inv_def)

lemma pool_inv_entry: "pool_inv pool \<Longrightarrow> sc_get pool k = Some e \<Longrightarrow> entry_ok k e"
  by (simp add: pool_inv_iff)

lemma pool_inv_unique:
  assumes "pool_inv pool" "sc_get pool k = Some e" "sc_get pool k' = Some e'"
    and "bound_to r n e" "bound_to r n e'"
  shows "k = k'"
proof (rule ccontr)
  assume "k \<noteq> k'"
  with assms(1-3) have "binding e \<noteq> None \<longrightarrow> binding e \<noteq> binding e'"
    unfolding pool_inv_iff by meson
  moreover have "binding e = Some (r, n)" "binding e' = Some (r, n)" using assms by simp_all
  ultimately show False by simp
qed

lemmas pool_invD = pool_inv_wf pool_inv_entry pool_inv_unique

lemma pool_inv_Nil [simp]: "pool_inv []"
  by (simp add: pool_inv_def sc_wf_def)

lemma pool_inv_insert:
  assumes "pool_inv pool" "sc_get pool k = None" "entry_ok k e"
    and "\<And>k' e' r n. sc_get pool k' = Some e' \<Longrightarrow> bound_to r n e \<Longrightarrow> \<not> bound_to r n e'"
  shows "pool_inv (sc_insert k e pool)"
  unfolding pool_inv_iff
proof (intro conjI allI impI)
  show "sc_wf (sc_insert k e pool)"
    using assms(1) by (simp add: pool_invD sc_laws)
next
  fix k' e' assume "sc_get (sc_insert k e pool) k' = Some e'"
  then show "entry_ok k' e'"
    using pool_inv_entry [OF assms(1)] assms(3) by (auto simp: sc_laws split: if_splits)
next
  fix k1 e1 k2 e2
  assume "sc_get (sc_insert k e pool) k1 = Some e1" "sc_get (sc_insert k e pool) k2 = Some e2"
    "k1 \<noteq> k2" "binding e1 \<noteq> None"
  moreover from this(4) obtain r n where "binding e1 = Some (r, n)" by fastforce
  ultimately show "binding e1 \<noteq> binding e2"
    using assms(4) pool_inv_unique [OF assms(1), of k1 e1 k2 e2 r n]
    by (auto simp: sc_laws split: if_splits) (metis binding_Some_iff)+
qed

lemma pool_inv_modify:
  assumes "pool_inv pool"
    and "\<And>e. sc_get pool k = Some e \<Longrightarrow> entry_ok k (f e)"
    and "\<And>e k' e' r n. sc_get pool k = Some e \<Longrightarrow> sc_get pool k' = Some e' \<Longrightarrow> k' \<noteq> k \<Longrightarrow>
           bound_to r n (f e) \<Longrightarrow> \<not> bound_to r n e'"
  shows "pool_inv (sc_modify k f pool)"
  unfolding pool_inv_iff
proof (intro conjI allI impI)
  show "sc_wf (sc_modify k f pool)"
    using assms(1) by (simp add: pool_invD sc_laws)
next
  fix k' e' assume "sc_get (sc_modify k f pool) k' = Some e'"
  then show "entry_ok k' e'"
    using pool_inv_entry [OF assms(1)] assms(2) by (auto simp: sc_laws split: if_splits)
next
  fix k1 e1 k2 e2
  assume "sc_get (sc_modify k f pool) k1 = Some e1" "sc_get (sc_modify k f pool) k2 = Some e2"
    "k1 \<noteq> k2" "binding e1 \<noteq> None"
  moreover from this(4) obtain r n where "binding e1 = Some (r, n)" by fastforce
  ultimately show "binding e1 \<noteq> binding e2"
    using assms(3) pool_inv_unique [OF assms(1), of k1 e1 k2 e2 r n]
    by (auto simp: sc_laws split: if_splits) (metis binding_Some_iff)+
qed

lemma pool_inv_remove: "pool_inv pool \<Longrightarrow> pool_inv (sc_remove k pool)"
  by (auto simp: pool_inv_iff sc_laws)

lemma pool_inv_modify_same_binding:
  assumes "pool_inv pool"
    and "\<And>e. sc_get pool k = Some e \<Longrightarrow> entry_ok k e \<Longrightarrow> entry_ok k (f e)"
    and "\<And>e. binding (f e) = binding e \<or> binding (f e) = None"
  shows "pool_inv (sc_modify k f pool)"
proof (rule pool_inv_modify [OF assms(1)])
  fix e assume "sc_get pool k = Some e"
  then show "entry_ok k (f e)" using assms(2) pool_inv_entry [OF assms(1)] by blast
next
  fix e k' e' r n
  assume "sc_get pool k = Some e" "sc_get pool k' = Some e'" "k' \<noteq> k" "bound_to r n (f e)"
  moreover from this(4) have "bound_to r n e"
    using assms(3) [of e] by (metis binding_Some_iff option.distinct(1))
  ultimately show "\<not> bound_to r n e'" using pool_inv_unique [OF assms(1)] by blast
qed

section \<open>Single-entry handlers\<close>

lemma bound_to_unbind [simp]: "\<not> bound_to r n (unbind e)"
  by (simp add: bound_to_def unbind_def)

lemma entry_ok_unbind: "entry_ok k e \<Longrightarrow> entry_ok k (unbind e)"
  by (simp add: entry_ok_def unbind_def)

lemma entry_ok_fresh:
  "product_from_key k = Some p \<Longrightarrow> (r = None \<longleftrightarrow> n = None) \<Longrightarrow> entry_ok k (fresh_entry st k p src r n)"
  by (simp add: entry_ok_def fresh_entry_def)

lemma entry_ok_bind_to: "entry_ok k e \<Longrightarrow> entry_ok k (bind_to r n e)"
  by (simp add: entry_ok_def bind_to_def)

lemma entry_ok_assign_to: "entry_ok k e \<Longrightarrow> entry_ok k (assign_to r n m e)"
  by (simp add: entry_ok_def assign_to_def Let_def)

lemma entry_ok_assign_fresh: "entry_ok k e \<Longrightarrow> entry_ok k (assign_fresh r n e)"
  by (simp add: entry_ok_def assign_fresh_def)

lemma bound_to_updates [simp]:
  "bound_to r n (assign_to r' n' m e) \<longleftrightarrow> r = r' \<and> n = n'"
  "bound_to r n (assign_fresh r' n' e) \<longleftrightarrow> r = r' \<and> n = n'"
  "bound_to r n (bind_to r' n' e) \<longleftrightarrow> r = r' \<and> n = n'"
  "bound_to r n (fresh_entry st k p src (Some r') (Some n')) \<longleftrightarrow> r = r' \<and> n = n'"
  "\<not> bound_to r n (fresh_entry st k p src None None)"
  "bound_to r n (e\<lparr>e_pending_clear := b\<rparr>) \<longleftrightarrow> bound_to r n e"
  by (auto simp: bound_to_def assign_to_def assign_fresh_def bind_to_def fresh_entry_def Let_def)

lemma pool_inv_unbind: "pool_inv pool \<Longrightarrow> pool_inv (sc_modify k unbind pool)"
  by (rule pool_inv_modify) (auto intro: entry_ok_unbind pool_inv_entry)

lemma pool_inv_bind:
  assumes "pool_inv pool" "\<And>k' e'. sc_get pool k' = Some e' \<Longrightarrow> k' \<noteq> k \<Longrightarrow> \<not> bound_to r n e'"
    and "\<And>e. entry_ok k e \<Longrightarrow> entry_ok k (f e)" and "\<And>e r' n'. bound_to r' n' (f e) \<longleftrightarrow> r' = r \<and> n' = n"
  shows "pool_inv (sc_modify k f pool)"
  using assms(1)
proof (rule pool_inv_modify)
  show "entry_ok k (f e)" if "sc_get pool k = Some e" for e
    using that assms(3) pool_inv_entry [OF assms(1)] by blast
qed (use assms(2,4) in auto)

lemma pool_inv_insert_bound:
  assumes "pool_inv pool" "sc_get pool k = None" "product_from_key k = Some p"
    and "\<And>k' e'. sc_get pool k' = Some e' \<Longrightarrow> \<not> bound_to r n e'"
  shows "pool_inv (sc_insert k (fresh_entry st k p src (Some r) (Some n)) pool)"
  using assms by (intro pool_inv_insert) (auto intro: entry_ok_fresh)

lemma not_list_ex_bound:
  "pool_inv pool \<Longrightarrow> \<not> list_ex (\<lambda>(_, e). bound_to r n e) pool \<Longrightarrow> sc_get pool k = Some e \<Longrightarrow> \<not> bound_to r n e"
  by (auto simp: list_ex_iff sc.get_iter pool_inv_wf)

lemma insert_entries_inv:
  "insert_entries pool es = Inr pool' \<Longrightarrow> pool_inv pool \<Longrightarrow>
   (\<And>e. e \<in> set es \<Longrightarrow> entry_ok (e_key e) e \<and> binding e = None) \<Longrightarrow> pool_inv pool'"
proof (induction pool es rule: insert_entries.induct)
  case (2 pool e es)
  then have none: "sc_get pool (e_key e) = None"
    and rec: "insert_entries (sc_insert (e_key e) e pool) es = Inr pool'"
    by (auto split: option.splits)
  have "pool_inv (sc_insert (e_key e) e pool)"
    using 2(3) none 2(4) [of e] by (intro pool_inv_insert) (auto simp: bound_to_def)
  with 2(1) [OF none rec] 2(4) show ?case by auto
qed simp

lemma new_entries_ok:
  "new_entries st seen ks = Inr (es, d) \<Longrightarrow> e \<in> set es \<Longrightarrow>
   entry_ok (e_key e) e \<and> binding e = None \<and> e_key e \<in> set ks - seen"
proof (induction st seen ks arbitrary: es d rule: new_entries.induct)
  case (2 st seen k ks)
  show ?case
  proof (cases "k \<in> seen")
    case True
    with 2 show ?thesis by (fastforce split: sum.splits prod.splits)
  next
    case False
    with 2(3) obtain p es' where p: "product_from_key k = Some p"
      and rec: "new_entries st (insert k seen) ks = Inr (es', d)"
      and es: "es = fresh_entry st k p Manual None None # es'"
      by (auto split: option.splits sum.splits prod.splits)
    show ?thesis
    proof (cases "e = fresh_entry st k p Manual None None")
      case True
      with p False show ?thesis by (simp add: entry_ok_def fresh_entry_def)
    next
      case neq: False
      with es 2(4) have "e \<in> set es'" by simp
      with 2(2) [OF False p rec] show ?thesis by auto
    qed
  qed
qed simp

lemma add_keys_inv:
  "add_keys env keys digest locked = Inr (res, pool') \<Longrightarrow> pool_inv locked \<Longrightarrow> pool_inv pool'"
  by (auto simp: add_keys_def split: if_splits sum.splits prod.splits
      dest: new_entries_ok elim!: insert_entries_inv)

lemma delete_key_success:
  "delete_key env u0 u1 remotes live key digest pre locked shadow = Inr (pool', shadow') \<longleftrightarrow>
   (\<exists>pe e. sc_get pre key = Some pe \<and> \<not> denied u0 pe
      \<and> \<not> env_modified env (env_digest env locked) digest
      \<and> sc_get locked key = Some e \<and> \<not> denied u1 e
      \<and> \<not> unbind_refused (binding pe \<noteq> None) (env_digest env locked \<noteq> env_digest env pre)
            (check_synced_assignment_for_unassign remotes live key (binding pe)) e
      \<and> pool' = sc_remove key locked \<and> shadow' = map_option (sc_remove key) shadow)"
  unfolding delete_key_def Let_def
  by (auto simp del: binding_None_iff split: option.splits if_splits)

lemma clear_assignment_success:
  "clear_assignment env u0 u1 remotes live key digest pre locked = Inr pool' \<longleftrightarrow>
   (\<exists>e. (\<forall>pe. sc_get pre key = Some pe \<longrightarrow> \<not> denied u0 pe)
      \<and> \<not> env_modified env (env_digest env locked) digest
      \<and> sc_get locked key = Some e \<and> \<not> denied u1 e
      \<and> \<not> unbind_refused (Option.bind (sc_get pre key) binding \<noteq> None)
            (env_digest env locked \<noteq> env_digest env pre)
            (check_synced_assignment_for_unassign remotes live key (Option.bind (sc_get pre key) binding)) e
      \<and> pool' = sc_modify key unbind locked)"
  unfolding clear_assignment_def Let_def
  by (auto simp del: binding_None_iff bind_eq_None_conv split: option.splits if_splits)

lemma set_assignment_success:
  "set_assignment env u0 u1 remotes0 live remotes key rmt nod digest pre locked = Inr pool' \<longleftrightarrow>
   (\<exists>e r. can_modify u0 rmt
      \<and> \<not> (moves (Option.bind (sc_get pre key) binding) rmt nod
            \<and> \<not> can_modify u0 (fst (the (Option.bind (sc_get pre key) binding))))
      \<and> \<not> env_modified env (env_digest env locked) digest
      \<and> sc_get locked key = Some e \<and> (e_remote e = Some rmt \<or> \<not> denied u1 e)
      \<and> \<not> rebind_refused (Option.bind (sc_get pre key) binding \<noteq> None)
            (env_digest env locked \<noteq> env_digest env pre)
            (if moves (Option.bind (sc_get pre key) binding) rmt nod
             then check_synced_assignment_for_unassign remotes0 live key
                    (Option.bind (sc_get pre key) binding)
             else None)
            (moves (binding e) rmt nod) e
      \<and> sc_get remotes rmt = Some r \<and> matches_remote_type (e_product_type e) (r_ty r)
      \<and> List.find (\<lambda>(_, other). e_key other \<noteq> key \<and> bound_to rmt nod other) locked = None
      \<and> pool' = sc_modify key (assign_to rmt nod (moves (binding e) rmt nod)) locked)"
  unfolding set_assignment_def Let_def
  by (simp del: binding_None_iff bind_eq_None_conv split: option.split prod.split) blast

lemma delete_key_inv:
  "delete_key env u0 u1 remotes live key digest pre locked shadow = Inr (pool', shadow') \<Longrightarrow>
   pool_inv locked \<Longrightarrow> pool_inv pool'"
  by (auto simp: delete_key_success pool_inv_remove)

lemma clear_assignment_inv:
  "clear_assignment env u0 u1 remotes live key digest pre locked = Inr pool' \<Longrightarrow>
   pool_inv locked \<Longrightarrow> pool_inv pool'"
  by (auto simp: clear_assignment_success pool_inv_unbind)

lemma set_assignment_inv:
  assumes "set_assignment env u0 u1 remotes0 live remotes key rmt nod digest pre locked = Inr pool'"
    and inv: "pool_inv locked"
  shows "pool_inv pool'"
proof -
  obtain e where free: "List.find (\<lambda>(_, other). e_key other \<noteq> key \<and> bound_to rmt nod other) locked = None"
    and pool': "pool' = sc_modify key (assign_to rmt nod (moves (binding e) rmt nod)) locked"
    using assms(1) unfolding set_assignment_success by blast
  have "\<not> bound_to rmt nod e'" if "sc_get locked k' = Some e'" "k' \<noteq> key" for k' e'
  proof -
    have "e_key e' \<noteq> key" using that pool_inv_entry [OF inv] by (auto simp: entry_ok_def)
    then show ?thesis
      using that free
        sc.find_iter_None [OF pool_inv_wf [OF inv], of "\<lambda>_ other. e_key other \<noteq> key \<and> bound_to rmt nod other"]
      by auto
  qed
  with inv show ?thesis unfolding pool' by (intro pool_inv_bind) (auto intro: entry_ok_assign_to)
qed

lemma find_bound_SomeD:
  "pool_inv pool \<Longrightarrow> find_bound r n pool = Some (i, e) \<Longrightarrow> sc_get pool i = Some e \<and> bound_to r n e"
  using sc.find_iter_Some [OF pool_inv_wf, of pool "\<lambda>_ e. bound_to r n e" i e]
  by (simp add: find_bound_def)

lemma pool_inv_set_pending:
  assumes "pool_inv pool" "sc_get pool i = Some e" "bound_to r n e"
  shows "pool_inv (sc_modify i (\<lambda>e. e\<lparr>e_pending_clear := b\<rparr>) pool)"
proof (rule pool_inv_modify_same_binding [OF assms(1)])
  fix e' assume "sc_get pool i = Some e'" "entry_ok i e'"
  with assms show "entry_ok i (e'\<lparr>e_pending_clear := b\<rparr>)"
    by (auto simp: entry_ok_def bound_to_def)
qed (simp add: binding_def)

lemma queue_clear_inv:
  "queue_clear env u rmt nod digest locked = Inr pool' \<Longrightarrow> pool_inv locked \<Longrightarrow> pool_inv pool'"
  by (auto simp: queue_clear_def split: if_splits option.splits prod.splits)
    (metis find_bound_SomeD pool_inv_set_pending)

lemma revert_pending_clear_inv:
  "revert_pending_clear env u rmt nod digest locked = Inr pool' \<Longrightarrow> pool_inv locked \<Longrightarrow> pool_inv pool'"
  by (auto simp: revert_pending_clear_def split: if_splits option.splits prod.splits)
    (metis find_bound_SomeD pool_inv_set_pending)

lemma adopt_key_inv:
  assumes "adopt_key env u remotes live rmt nod digest pre locked = Inr pool'" "pool_inv locked"
  shows "pool_inv pool'"
proof -
  from assms(1) have free: "\<not> list_ex (\<lambda>(_, e). bound_to rmt nod e) locked"
    unfolding adopt_key_def by (auto split: if_splits option.splits)
  note nb = not_list_ex_bound [OF assms(2) free]
  from assms(1) consider key where "pool' = sc_modify key (bind_to rmt nod) locked"
    | key p where "sc_get locked key = None" "product_from_key key = Some p"
      "pool' = sc_insert key (fresh_entry (env_default_status env) key p Adopted (Some rmt) (Some nod)) locked"
    unfolding adopt_key_def by (auto split: if_splits option.splits)
  then show ?thesis
  proof cases
    case 1
    with assms(2) nb show ?thesis by (auto intro!: pool_inv_bind entry_ok_bind_to)
  next
    case 2
    with assms(2) nb show ?thesis by (auto intro!: pool_inv_insert_bound)
  qed
qed

section \<open>Bulk handlers\<close>

lemma adopt_candidate_inv:
  assumes "adopt_candidate env u n pool = Some (ad, pool')" "pool_inv pool"
  shows "pool_inv pool'"
proof -
  from assms(1) have free: "\<not> list_ex (\<lambda>(_, e). bound_to (ns_remote n) (ns_node n) e) pool"
    unfolding adopt_candidate_def by (auto split: if_splits option.splits)
  note nb = not_list_ex_bound [OF assms(2) free]
  from assms(1) consider key where "pool' = sc_modify key (bind_to (ns_remote n) (ns_node n)) pool"
    | key p where "sc_get pool key = None" "product_from_key key = Some p"
      "pool' = sc_insert key (fresh_entry (env_default_status env) key p Adopted
                 (Some (ns_remote n)) (Some (ns_node n))) pool"
    unfolding adopt_candidate_def by (auto simp: Let_def split: if_splits option.splits)
  then show ?thesis
  proof cases
    case 1
    with assms(2) nb show ?thesis by (auto intro!: pool_inv_bind entry_ok_bind_to)
  next
    case 2
    with assms(2) nb show ?thesis by (auto intro!: pool_inv_insert_bound)
  qed
qed

lemma adopt_loop_inv: "pool_inv pool \<Longrightarrow> pool_inv (snd (adopt_loop env u ns pool))"
  by (induction env u ns pool rule: adopt_loop.induct)
    (auto split: option.splits prod.splits, blast dest: adopt_candidate_inv)

lemma adopt_all_inv:
  "adopt_all env u statuses digest locked = Inr (ads, pool') \<Longrightarrow> pool_inv locked \<Longrightarrow> pool_inv pool'"
  using adopt_loop_inv [of locked env u statuses]
  by (auto simp: adopt_all_def split: if_splits prod.splits)

lemma bulk_accepts_inv:
  assumes "bulk_accepts env u remotes pool p" "pool_inv pool"
  shows "pool_inv (sc_modify (pa_key p) (assign_fresh (pa_remote p) (pa_node p)) pool)"
proof -
  from assms(1) have ex: "\<not> list_ex (\<lambda>(_, e'). e_key e' \<noteq> pa_key p
        \<and> bound_to (pa_remote p) (pa_node p) e') pool"
    by (auto simp: bulk_accepts_def split: option.splits)
  have "\<not> bound_to (pa_remote p) (pa_node p) e'" if "sc_get pool k' = Some e'" "k' \<noteq> pa_key p" for k' e'
  proof -
    have "e_key e' \<noteq> pa_key p" using that pool_inv_entry [OF assms(2)] by (auto simp: entry_ok_def)
    then show ?thesis
      using ex that sc.get_iter [OF pool_inv_wf [OF assms(2)]] by (auto simp: list_ex_iff)
  qed
  with assms(2) show ?thesis by (auto intro!: pool_inv_bind entry_ok_assign_fresh)
qed

lemma bulk_loop_inv: "pool_inv pool \<Longrightarrow> pool_inv (snd (bulk_loop env u remotes ps pool))"
  by (induction env u remotes ps pool rule: bulk_loop.induct)
    (auto simp: bulk_accepts_inv split: prod.splits)

lemma bulk_assign_inv:
  "bulk_assign env sha u remotes statuses proposal locked = Inr (applied, pool') \<Longrightarrow>
   pool_inv locked \<Longrightarrow> pool_inv pool'"
  using bulk_loop_inv [of locked env u remotes "aap_assignments proposal"]
  by (auto simp: bulk_assign_def split: if_splits prod.splits)

lemma pool_inv_discard: "pool_inv pool \<Longrightarrow> pool_inv (sc_modify k (discard_op op) pool)"
proof (rule pool_inv_modify_same_binding)
  show "entry_ok k (discard_op op e)" if "entry_ok k e" for e
    using that by (cases op) (simp_all add: discard_op_def entry_ok_def unbind_def)
  show "binding (discard_op op e) = binding e \<or> binding (discard_op op e) = None" for e
    by (cases op) (auto simp: discard_op_def unbind_def binding_def opt_zip_def)
qed

lemma clear_loop_inv: "pool_inv pool \<Longrightarrow> pool_inv (snd (clear_loop ps pool))"
  by (induction ps pool rule: clear_loop.induct) (auto simp: pool_inv_discard split: prod.splits)

lemma clear_pending_inv:
  "clear_pending env u statuses digest pre mid locked = Inr (cleared, pool') \<Longrightarrow>
   pool_inv locked \<Longrightarrow> pool_inv pool'"
  using clear_loop_inv [of locked "compute_pending u mid statuses"]
  by (auto simp: clear_pending_def Let_def split: if_splits prod.splits)

lemma drop_binding_inv: "pool_inv pool \<Longrightarrow> pool_inv (drop_binding p pool)"
  by (simp add: drop_binding_def pool_inv_unbind)

lemma apply_entry_pool:
  "fst (snd (apply_entry api remotes p seen locked w)) \<in> {locked, drop_binding p locked}"
  by (auto simp: apply_entry_def split: pending_op.splits option.splits prod.splits)

lemma apply_entry_inv:
  "pool_inv locked \<Longrightarrow> pool_inv (fst (snd (apply_entry api remotes p seen locked w)))"
  using apply_entry_pool [of api remotes p seen locked w] drop_binding_inv by fastforce

lemma apply_entries_inv: "pool_inv pool \<Longrightarrow> pool_inv (fst (snd (apply_entries api remotes ps pool w)))"
proof (induction api remotes ps pool w rule: apply_entries.induct)
  case (2 api remotes p ps pool w)
  obtain oc pool' w' where ap: "apply_entry api remotes p pool pool w = (oc, pool', w')"
    by (cases "apply_entry api remotes p pool pool w") auto
  with apply_entry_inv [OF 2(2), of api remotes p pool w] have "pool_inv pool'" by simp
  with 2(1) ap show ?case by (auto split: prod.splits)
qed simp

section \<open>The pool as a transition system\<close>

inductive pool_step ::
  "'d subs_env \<Rightarrow> (status_slice list \<Rightarrow> 'h) \<Rightarrow> 'w remote_api \<Rightarrow> key_pool \<Rightarrow> key_pool \<Rightarrow> bool"
  for env sha api where
  Add: "add_keys env keys digest locked = Inr (res, pool') \<Longrightarrow> pool_step env sha api locked pool'"
| Delete: "delete_key env u0 u1 remotes live key digest pre locked shadow = Inr (pool', shadow')
     \<Longrightarrow> pool_step env sha api locked pool'"
| Assign: "set_assignment env u0 u1 remotes0 live remotes key rmt nod digest pre locked = Inr pool'
     \<Longrightarrow> pool_step env sha api locked pool'"
| Unassign: "clear_assignment env u0 u1 remotes live key digest pre locked = Inr pool'
     \<Longrightarrow> pool_step env sha api locked pool'"
| Queue: "queue_clear env u rmt nod digest locked = Inr pool' \<Longrightarrow> pool_step env sha api locked pool'"
| Revert: "revert_pending_clear env u rmt nod digest locked = Inr pool' \<Longrightarrow> pool_step env sha api locked pool'"
| Adopt: "adopt_key env u remotes live rmt nod digest pre locked = Inr pool'
     \<Longrightarrow> pool_step env sha api locked pool'"
| Adopt_All: "adopt_all env u statuses digest locked = Inr (ads, pool') \<Longrightarrow> pool_step env sha api locked pool'"
| Bulk: "bulk_assign env sha u remotes statuses proposal locked = Inr (applied, pool')
     \<Longrightarrow> pool_step env sha api locked pool'"
| Discard: "clear_pending env u statuses digest pre mid locked = Inr (cleared, pool')
     \<Longrightarrow> pool_step env sha api locked pool'"
| Worker: "apply_entry api remotes p seen locked w = (oc, pool', w') \<Longrightarrow> pool_step env sha api locked pool'"

lemmas handler_inv = add_keys_inv delete_key_inv set_assignment_inv clear_assignment_inv
  queue_clear_inv revert_pending_clear_inv adopt_key_inv adopt_all_inv bulk_assign_inv
  clear_pending_inv

lemma pool_step_inv: "pool_step env sha api locked pool' \<Longrightarrow> pool_inv locked \<Longrightarrow> pool_inv pool'"
proof (induction rule: pool_step.induct)
  case (Worker remotes p seen locked w oc pool' w')
  then show ?case using apply_entry_inv [of locked api remotes p seen w] by simp
qed (blast intro: handler_inv)+

interpretation pool: invariant_system "\<lambda>p. p = []" "pool_step env sha api" pool_inv
  for env :: "'d subs_env" and sha :: "status_slice list \<Rightarrow> 'h" and api :: "'w remote_api"
  by unfold_locales (auto dest: pool_step_inv)

end
