(* ===== verification/Subscription_Props.thy ===== *)
theory Subscription_Props
  imports Subscription_Inv
begin

text \<open>
  The properties of the single-key handlers and of the auto-assign plan: what a reachable pool
  looks like, that no live key is orphaned, the effect of adding and assigning, optimistic locking,
  what the listing reveals, and that the plan is sound, maximal and committed as a whole. The concrete
  pool, remote and environment at the start serve the instances that follow each property.
\<close>

section \<open>A concrete installation\<close>

definition ex_env :: "key_pool subs_env" where
  "ex_env = \<lparr>env_digest = (\<lambda>p. p),
     env_modified = (\<lambda>current d. case d of None \<Rightarrow> False | Some x \<Rightarrow> x \<noteq> current),
     env_node_ok = (\<lambda>n. n \<noteq> []), env_default_status = NotFound\<rparr>"

definition ex_caller :: caller where
  "ex_caller = \<lparr>can_audit = (\<lambda>_. True), can_modify = (\<lambda>_. True)\<rparr>"

definition ex_remotes :: remotes_config where
  "ex_remotes = [(''r1'', \<lparr>r_ty = Remote_Pbs, r_id = ''r1'', r_nodes = [], r_authid = ''root@pam!t'',
     r_token = [], r_web_url = None\<rparr>)]"

definition ex_info :: node_subscription_info where
  "ex_info = \<lparr>ni_status = Active, ni_sockets = None, ni_key = Some ''pbsc-0123456789'',
     ni_level = Community, ni_serverid = None, ni_check_time = None, ni_next_due_date = None\<rparr>"

definition ex_live :: "node_subscription_info option \<Rightarrow> remote \<Rightarrow> live_info option" where
  "ex_live info r = Some [(''n1'', info)]"

definition ex_pool :: "string option \<Rightarrow> string option \<Rightarrow> bool \<Rightarrow> key_pool" where
  "ex_pool r n pc = [(''pbsc-0123456789'',
     (fresh_entry NotFound ''pbsc-0123456789'' Product_Pbs Manual r n)\<lparr>e_pending_clear := pc\<rparr>)]"

definition ex_api :: "nat remote_api" where
  "ex_api = \<lparr>api_set_pve = (\<lambda>_ _ _ w. (None, w + 1)), api_set_pbs = (\<lambda>_ _ w. (None, w + 1)),
     api_delete_pve = (\<lambda>_ _ w. (None, w + 1)), api_delete_pbs = (\<lambda>_ w. (None, w + 1)),
     api_invalidate = (\<lambda>_ w. w)\<rparr>"

lemma inj_ex_digest: "inj (env_digest ex_env)"
  by (simp add: ex_env_def inj_def)

lemmas ex_defs = ex_env_def ex_caller_def ex_remotes_def ex_info_def ex_live_def ex_pool_def ex_api_def
  fresh_entry_def sc_get_def sc_modify_def sc_remove_def

lemma ex_from_key: "product_from_key ''pbsc-0123456789'' = Some Product_Pbs"
  by code_simp

lemma ex_level: "level_from_key (Some ''pbsc-0123456789'') = Community"
  by code_simp

lemma ex_pool_inv: "pool_inv (ex_pool (Some ''r1'') (Some ''n1'') pc)"
  by (simp add: pool_inv_def ex_defs entry_ok_def ex_from_key sc_wf_def)

lemma ex_pool_free_inv: "pool_inv (ex_pool None None False)"
  by (simp add: pool_inv_def ex_defs entry_ok_def ex_from_key sc_wf_def)

lemma ex_add: "add_keys ex_env [''pbsc-0123456789'', ''pbsc-0123456789''] None [] =
    Inr (\<lparr>akr_added = 1, akr_deduplicated = 1\<rparr>, ex_pool None None False)"
  by (simp add: add_keys_def ex_defs ex_from_key)

section \<open>The single-key handlers\<close>

text \<open>C1. Whatever sequence of handlers and worker iterations ran from the empty pool,
  with whatever interleavings, every stored entry is filed under its own key, carries the product type
  the key text encodes, has a remote exactly when it has a node, has a clear pending only while it is
  bound, and shares its node with no other entry.\<close>

theorem pool_reachable_well_formed:
  assumes "(pool_step env sha api)\<^sup>*\<^sup>* [] pool" and "sc_get pool k = Some e"
  shows "e_key e = k \<and> product_from_key k = Some (e_product_type e)
    \<and> (e_remote e = None \<longleftrightarrow> e_node e = None) \<and> (e_pending_clear e \<longrightarrow> e_remote e \<noteq> None)
    \<and> (\<forall>k' e' r n. sc_get pool k' = Some e' \<longrightarrow> bound_to r n e \<longrightarrow> bound_to r n e' \<longrightarrow> k' = k)"
proof -
  have inv: "pool_inv pool" using assms(1) by (intro pool.reachable_inv) simp_all
  from pool_inv_entry [OF inv assms(2)] pool_inv_unique [OF inv _ assms(2)] show ?thesis
    unfolding entry_ok_def by blast
qed

theorem pool_reachable_witness:
  "e_remote (fresh_entry NotFound ''pbsc-0123456789'' Product_Pbs Manual None None) = None
   \<and> product_from_key ''pbsc-0123456789'' = Some Product_Pbs"
proof -
  have "(pool_step ex_env (\<lambda>_. ()) ex_api)\<^sup>*\<^sup>* [] (ex_pool None None False)"
    using pool_step.Add [OF ex_add] by (rule r_into_rtranclp)
  moreover have "sc_get (ex_pool None None False) ''pbsc-0123456789''
      = Some (fresh_entry NotFound ''pbsc-0123456789'' Product_Pbs Manual None None)"
    by (simp add: ex_defs)
  ultimately show ?thesis
    using pool_reachable_well_formed [of ex_env "\<lambda>_. ()" ex_api "ex_pool None None False" "''pbsc-0123456789''"]
    by (simp add: fresh_entry_def)
qed

lemma check_synced_Some:
  assumes "check_synced_assignment_for_unassign remotes live key (Some (r, n)) = None"
    and "sc_get remotes r = Some rm" "live rm = Some infos" "map_of infos n = Some (Some info)"
  shows "\<not> (ni_status info = Active \<and> ni_key info = Some key)"
  using assms by (auto simp: check_synced_assignment_for_unassign_def Let_def split: if_splits)

lemma check_synced_cases:
  "check_synced_assignment_for_unassign remotes live key bnd \<in> {None, bnd}"
  by (auto simp: check_synced_assignment_for_unassign_def Let_def split: option.splits prod.splits)

lemma unbind_not_refused_bound:
  assumes "\<not> unbind_refused had raced blk e" "bound_to r n e"
  shows "had" "\<not> raced" "blk \<noteq> Some (r, n)"
  using assms by (auto simp: unbind_refused_def Let_def bound_to_def still_synced_def)

lemma delete_key_no_orphan:
  assumes "delete_key env u0 u1 remotes live key digest pre locked shadow = Inr res"
    and "inj (env_digest env)"
    and "sc_get locked key = Some e" "bound_to r n e"
    and "sc_get remotes r = Some rm" "live rm = Some infos" "map_of infos n = Some (Some info)"
  shows "\<not> (ni_status info = Active \<and> ni_key info = Some key)"
proof -
  obtain pool' shadow' where "res = (pool', shadow')" by (cases res)
  with assms(1) have "delete_key env u0 u1 remotes live key digest pre locked shadow = Inr (pool', shadow')"
    by simp
  with assms(3) obtain pe where pe: "sc_get pre key = Some pe"
    and nr: "\<not> unbind_refused (binding pe \<noteq> None) (env_digest env locked \<noteq> env_digest env pre)
            (check_synced_assignment_for_unassign remotes live key (binding pe)) e"
    unfolding delete_key_success by (auto simp del: binding_None_iff)
  note facts = unbind_not_refused_bound [OF nr assms(4)]
  from facts(2) assms(2) have "locked = pre" by (simp add: inj_eq)
  with pe assms(3,4) have "binding pe = Some (r, n)" by simp
  with facts(3) check_synced_cases [of remotes live key "binding pe"]
  have "check_synced_assignment_for_unassign remotes live key (Some (r, n)) = None" by auto
  from check_synced_Some [OF this assms(5-7)] show ?thesis .
qed

lemma clear_assignment_no_orphan:
  assumes "clear_assignment env u0 u1 remotes live key digest pre locked = Inr pool'"
    and "inj (env_digest env)"
    and "sc_get locked key = Some e" "bound_to r n e"
    and "sc_get remotes r = Some rm" "live rm = Some infos" "map_of infos n = Some (Some info)"
  shows "\<not> (ni_status info = Active \<and> ni_key info = Some key)"
proof -
  define bnd where "bnd = Option.bind (sc_get pre key) binding"
  from assms(1,3) have nr: "\<not> unbind_refused (bnd \<noteq> None) (env_digest env locked \<noteq> env_digest env pre)
            (check_synced_assignment_for_unassign remotes live key bnd) e"
    unfolding clear_assignment_success bnd_def by auto
  note facts = unbind_not_refused_bound [OF nr assms(4)]
  from facts(2) assms(2) have "locked = pre" by (simp add: inj_eq)
  with assms(3,4) have "bnd = Some (r, n)" by (simp add: bnd_def)
  with facts(3) check_synced_cases [of remotes live key bnd]
  have "check_synced_assignment_for_unassign remotes live key (Some (r, n)) = None" by auto
  from check_synced_Some [OF this assms(5-7)] show ?thesis .
qed

lemma rebind_not_refused_bound:
  assumes "\<not> rebind_refused had raced blk (moves (binding e) rmt nod) e" "bound_to r n e" "(r, n) \<noteq> (rmt, nod)"
  shows "had" "\<not> raced" "blk \<noteq> Some (r, n)"
proof -
  from assms(2,3) have mv: "moves (binding e) rmt nod"
    by (auto simp: moves_def bound_to_def binding_def opt_zip_def)
  with assms(1,2) show "had" "\<not> raced" "blk \<noteq> Some (r, n)"
    by (auto simp: rebind_refused_def Let_def bound_to_def still_synced_def)
qed

lemma set_assignment_no_orphan:
  assumes "set_assignment env u0 u1 remotes live remotes1 key rmt nod digest pre locked = Inr pool'"
    and "inj (env_digest env)"
    and "sc_get locked key = Some e" "bound_to r n e" "(r, n) \<noteq> (rmt, nod)"
    and "sc_get remotes r = Some rm" "live rm = Some infos" "map_of infos n = Some (Some info)"
  shows "\<not> (ni_status info = Active \<and> ni_key info = Some key)"
proof -
  define bnd where "bnd = Option.bind (sc_get pre key) binding"
  from assms(1,3) have nr: "\<not> rebind_refused (bnd \<noteq> None) (env_digest env locked \<noteq> env_digest env pre)
            (if moves bnd rmt nod then check_synced_assignment_for_unassign remotes live key bnd else None)
            (moves (binding e) rmt nod) e"
    unfolding set_assignment_success bnd_def by auto
  note facts = rebind_not_refused_bound [OF nr assms(4,5)]
  from facts(2) assms(2) have "locked = pre" by (simp add: inj_eq)
  with assms(3,4) have bnd: "bnd = Some (r, n)" by (simp add: bnd_def)
  with assms(5) have "moves bnd rmt nod" by (auto simp: moves_def)
  with bnd facts(3) check_synced_cases [of remotes live key bnd]
  have "check_synced_assignment_for_unassign remotes live key (Some (r, n)) = None" by auto
  from check_synced_Some [OF this assms(6-8)] show ?thesis .
qed

text \<open>C2. A key that its node currently runs (live status active, same key) cannot be
  deleted, unassigned or moved to another node: all three handlers refuse, whatever the pool looked
  like before the lock was taken. The digest is assumed to be injective.\<close>

theorem unassign_no_orphan:
  assumes "inj (env_digest env)" "sc_get locked key = Some e" "bound_to r n e"
    and "sc_get remotes r = Some rm" "live rm = Some infos" "map_of infos n = Some (Some info)"
    and "ni_status info = Active" "ni_key info = Some key"
  shows "(\<forall>res. delete_key env u0 u1 remotes live key digest pre locked shadow \<noteq> Inr res)
    \<and> (\<forall>pool'. clear_assignment env u0 u1 remotes live key digest pre locked \<noteq> Inr pool')
    \<and> (\<forall>rmt nod pool'. (rmt, nod) \<noteq> (r, n) \<longrightarrow>
          set_assignment env u0 u1 remotes live remotes1 key rmt nod digest pre locked \<noteq> Inr pool')"
proof (intro conjI allI impI notI)
  fix res assume "delete_key env u0 u1 remotes live key digest pre locked shadow = Inr res"
  from delete_key_no_orphan [OF this] assms show False by blast
next
  fix pool' assume "clear_assignment env u0 u1 remotes live key digest pre locked = Inr pool'"
  from clear_assignment_no_orphan [OF this] assms show False by blast
next
  fix rmt nod pool'
  assume "set_assignment env u0 u1 remotes live remotes1 key rmt nod digest pre locked = Inr pool'"
    and "(rmt, nod) \<noteq> (r, n)"
  from set_assignment_no_orphan [OF this(1) assms(1-3)] this(2) assms(4-8) show False by blast
qed

theorem unassign_no_orphan_witness:
  "\<forall>res. delete_key ex_env ex_caller ex_caller ex_remotes (ex_live (Some ex_info)) ''pbsc-0123456789'' None
     (ex_pool (Some ''r1'') (Some ''n1'') False) (ex_pool (Some ''r1'') (Some ''n1'') False) None \<noteq> Inr res"
proof -
  have "sc_get (ex_pool (Some ''r1'') (Some ''n1'') False) ''pbsc-0123456789''
      = Some (fresh_entry NotFound ''pbsc-0123456789'' Product_Pbs Manual (Some ''r1'') (Some ''n1''))"
    by (simp add: ex_defs)
  from unassign_no_orphan [OF inj_ex_digest this, of "''r1''" "''n1''" ex_remotes]
  show ?thesis by (auto simp: ex_remotes_def ex_live_def ex_info_def sc_get_def bound_to_def fresh_entry_def)
qed

text \<open>A successful assignment writes exactly the one entry: it is bound to the
  requested node, a queued clear survives only when the binding does not move, the remote exists and
  its type fits the product, and the caller may modify the new and the previous remote.\<close>

theorem set_assignment_effect:
  assumes "set_assignment env u0 u1 remotes0 live remotes key rmt nod digest pre locked = Inr pool'"
    and "sc_get locked key = Some e"
  shows "sc_get pool' = (sc_get locked)(key \<mapsto>
           e\<lparr>e_remote := Some rmt, e_node := Some nod,
             e_pending_clear := (e_pending_clear e \<and> \<not> moves (binding e) rmt nod)\<rparr>)
    \<and> (\<exists>r. sc_get remotes rmt = Some r \<and> matches_remote_type (e_product_type e) (r_ty r))
    \<and> can_modify u0 rmt
    \<and> (\<forall>prev. e_remote e = Some prev \<longrightarrow> prev \<noteq> rmt \<longrightarrow> can_modify u1 prev)"
proof -
  have upd: "assign_to rmt nod m e = e\<lparr>e_remote := Some rmt, e_node := Some nod,
        e_pending_clear := (e_pending_clear e \<and> \<not> m)\<rparr>" for m
    by (simp add: assign_to_def Let_def)
  from assms show ?thesis
    unfolding set_assignment_success by (auto simp: sc_laws upd denied_def)
qed

theorem set_assignment_effect_witness:
  "\<exists>pool'. set_assignment ex_env ex_caller ex_caller ex_remotes (ex_live None) ex_remotes ''pbsc-0123456789''
      ''r1'' ''n2'' None (ex_pool (Some ''r1'') (Some ''n1'') True) (ex_pool (Some ''r1'') (Some ''n1'') True)
      = Inr pool' \<and> pool' = ex_pool (Some ''r1'') (Some ''n2'') False \<and> can_modify ex_caller ''r1''"
proof -
  have run: "set_assignment ex_env ex_caller ex_caller ex_remotes (ex_live None) ex_remotes ''pbsc-0123456789''
      ''r1'' ''n2'' None (ex_pool (Some ''r1'') (Some ''n1'') True) (ex_pool (Some ''r1'') (Some ''n1'') True)
      = Inr (ex_pool (Some ''r1'') (Some ''n2'') False)"
    by (simp add: set_assignment_def ex_defs Let_def moves_def binding_def opt_zip_def denied_def
        check_synced_assignment_for_unassign_def rebind_refused_def still_synced_def bound_to_def
        matches_remote_type_def assign_to_def)
  with set_assignment_effect [OF run] show ?thesis by (simp add: ex_defs)
qed

lemma new_entries_keys:
  "new_entries st seen ks = Inr (es, d) \<Longrightarrow>
     set (map e_key es) = set ks - seen \<and> distinct (map e_key es) \<and> length es + d = length ks"
proof (induction st seen ks arbitrary: es d rule: new_entries.induct)
  case (2 st seen k ks)
  show ?case
  proof (cases "k \<in> seen")
    case True
    with 2 show ?thesis by (fastforce split: sum.splits prod.splits)
  next
    case False
    with 2(3) obtain p es' where p: "product_from_key k = Some p"
      and rec: "new_entries st (insert k seen) ks = Inr (es', d)"
      and es: "es = fresh_entry st k p Manual None None # es'"
      by (auto split: option.splits sum.splits prod.splits)
    from 2(2) [OF False p rec] es False show ?thesis by (auto simp: fresh_entry_def)
  qed
qed simp

lemma insert_entries_get:
  "insert_entries pool es = Inr pool' \<Longrightarrow> distinct (map e_key es) \<Longrightarrow>
     (\<forall>e \<in> set es. sc_get pool (e_key e) = None)
     \<and> sc_get pool' = (\<lambda>k. case map_of (map (\<lambda>e. (e_key e, e)) es) k of
                              Some e \<Rightarrow> Some e | None \<Rightarrow> sc_get pool k)"
proof (induction pool es rule: insert_entries.induct)
  case (2 pool e es)
  then have none: "sc_get pool (e_key e) = None"
    and rec: "insert_entries (sc_insert (e_key e) e pool) es = Inr pool'"
    and dist: "distinct (map e_key es)" "e_key e \<notin> e_key ` set es"
    by (auto split: option.splits)
  have none': "map_of (map (\<lambda>e. (e_key e, e)) es) (e_key e) = None"
    using dist(2) by (auto simp: map_of_eq_None_iff image_image)
  from 2(1) [OF none rec dist(1)] none none' dist(2) show ?case
    by (auto simp: sc_laws fun_eq_iff split: option.splits if_splits)
qed simp

lemma new_entries_fresh:
  "new_entries st seen ks = Inr (es, d) \<Longrightarrow> e \<in> set es \<Longrightarrow>
     \<exists>p. product_from_key (e_key e) = Some p \<and> e = fresh_entry st (e_key e) p Manual None None"
proof (induction st seen ks arbitrary: es d rule: new_entries.induct)
  case (2 st seen k ks)
  show ?case
  proof (cases "k \<in> seen")
    case True
    with 2 show ?thesis by (fastforce split: sum.splits prod.splits)
  next
    case False
    with 2(3) obtain p es' where p: "product_from_key k = Some p"
      and rec: "new_entries st (insert k seen) ks = Inr (es', d)"
      and es: "es = fresh_entry st k p Manual None None # es'"
      by (auto split: option.splits sum.splits prod.splits)
    from 2(2) [OF False p rec] 2(4) es p show ?thesis by (auto simp: fresh_entry_def)
  qed
qed simp

text \<open>A successful bulk add stores every submitted key once as a fresh unassigned
  manual entry, none of them was in the pool before, the counts of added and duplicate keys add up to
  the submitted list, and every other entry is unchanged.\<close>

theorem add_keys_effect:
  assumes "add_keys env keys digest locked = Inr (res, pool')"
  shows "akr_added res = card (set keys) \<and> akr_added res + akr_deduplicated res = length keys
    \<and> (\<forall>k \<in> set keys. sc_get locked k = None
          \<and> (\<exists>p. product_from_key k = Some p
               \<and> sc_get pool' k = Some (fresh_entry (env_default_status env) k p Manual None None)))
    \<and> (\<forall>k. k \<notin> set keys \<longrightarrow> sc_get pool' k = sc_get locked k)"
proof -
  obtain es d where ne: "new_entries (env_default_status env) {} keys = Inr (es, d)"
    and ins: "insert_entries locked es = Inr pool'"
    and res: "res = \<lparr>akr_added = length es, akr_deduplicated = d\<rparr>"
    using assms by (auto simp: add_keys_def split: if_splits sum.splits)
  from new_entries_keys [OF ne]
  have keys: "e_key ` set es = set keys" and dist: "distinct (map e_key es)"
    and len: "length es + d = length keys" by auto
  from dist keys have card: "length es = card (set keys)"
    by (metis distinct_card length_map set_map)
  note get = insert_entries_get [OF ins dist]
  have dist': "distinct (map fst (map (\<lambda>e. (e_key e, e)) es))" using dist by (simp add: comp_def)
  have new: "sc_get locked k = None \<and> (\<exists>p. product_from_key k = Some p
       \<and> sc_get pool' k = Some (fresh_entry (env_default_status env) k p Manual None None))"
    if k: "k \<in> set keys" for k
  proof -
    obtain e where e: "e \<in> set es" "e_key e = k" using k keys by (metis imageE)
    then have "map_of (map (\<lambda>e. (e_key e, e)) es) k = Some e"
      using dist' by (auto intro!: map_of_is_SomeI)
    with get e new_entries_fresh [OF ne e(1)] show ?thesis by auto
  qed
  have old: "sc_get pool' k = sc_get locked k" if "k \<notin> set keys" for k
  proof -
    have "map_of (map (\<lambda>e. (e_key e, e)) es) k = None"
      using that keys by (auto simp: map_of_eq_None_iff image_image)
    with get show ?thesis by simp
  qed
  from new old card len res show ?thesis by simp
qed

theorem add_keys_effect_witness:
  "card {''pbsc-0123456789''} = 1 \<and> product_from_key ''pbsc-0123456789'' \<noteq> None"
  using add_keys_effect [OF ex_add] by auto

text \<open>Optimistic locking: a request that carries a digest other than the one of the
  pool found under the lock changes nothing, in every handler that takes a digest.\<close>

theorem stale_digest_rejected:
  assumes "\<forall>current d'. env_modified env current (Some d') \<longleftrightarrow> d' \<noteq> current"
    and "d \<noteq> env_digest env locked"
  shows "(\<forall>r. add_keys env keys (Some d) locked \<noteq> Inr r)
    \<and> (\<forall>r. delete_key env u0 u1 remotes live key (Some d) pre locked shadow \<noteq> Inr r)
    \<and> (\<forall>r. set_assignment env u0 u1 remotes live remotes' key rmt nod (Some d) pre locked \<noteq> Inr r)
    \<and> (\<forall>r. clear_assignment env u0 u1 remotes live key (Some d) pre locked \<noteq> Inr r)
    \<and> (\<forall>r. queue_clear env u0 rmt nod (Some d) locked \<noteq> Inr r)
    \<and> (\<forall>r. revert_pending_clear env u0 rmt nod (Some d) locked \<noteq> Inr r)
    \<and> (\<forall>r. adopt_key env u0 remotes live rmt nod (Some d) pre locked \<noteq> Inr r)
    \<and> (\<forall>r. adopt_all env u0 statuses (Some d) locked \<noteq> Inr r)"
proof -
  have m: "env_modified env (env_digest env locked) (Some d)" using assms by simp
  show ?thesis
    unfolding set_assignment_success clear_assignment_success
    by (intro conjI allI)
      (auto simp: m add_keys_def delete_key_def queue_clear_def revert_pending_clear_def
        adopt_key_def adopt_all_def Let_def split: sum.splits option.splits prod.splits)
qed

theorem stale_digest_witness:
  "\<forall>r. add_keys ex_env [''pbsc-0123456789''] (Some []) (ex_pool None None False) \<noteq> Inr r"
proof -
  have m: "\<forall>current d'. env_modified ex_env current (Some d') \<longleftrightarrow> d' \<noteq> current"
    by (simp add: ex_env_def)
  have d: "[] \<noteq> env_digest ex_env (ex_pool None None False)"
    by (simp add: ex_env_def ex_pool_def)
  show ?thesis by (rule stale_digest_rejected [OF m d, THEN conjunct1])
qed

lemma get_filter_visible:
  "sc_wf pool \<Longrightarrow> sc_get (filter (visible u \<circ> snd) pool) k =
     (case sc_get pool k of Some e \<Rightarrow> if visible u e then Some e else None | None \<Rightarrow> None)"
  by (induction pool) (auto simp: sc_get_def sc_wf_def map_of_eq_None_iff split: option.splits)

text \<open>Pool entries on remotes the caller may not audit have no influence on what
  listing and looking up keys return: two pools with the same visible part are indistinguishable.\<close>

theorem keys_noninterference:
  assumes "sc_wf p1" "sc_wf p2"
    and "filter (visible u \<circ> snd) p1 = filter (visible u \<circ> snd) p2"
  shows "list_keys u p1 = list_keys u p2 \<and> get_key u key p1 = get_key u key p2"
proof -
  have g: "get_key u key p = (case sc_get (filter (visible u \<circ> snd) p) key of
        None \<Rightarrow> Inl (key_not_found key) | Some e \<Rightarrow> Inr (with_level e))" if "sc_wf p" for p
    using get_filter_visible [OF that, of u key]
    by (auto simp: get_key_def split: option.splits)
  with assms show ?thesis by (simp add: list_keys_def)
qed

theorem keys_noninterference_witness:
  "list_keys (ex_caller\<lparr>can_audit := \<lambda>_. False\<rparr>) (ex_pool (Some ''r1'') (Some ''n1'') False) = []"
  using keys_noninterference [of "ex_pool (Some ''r1'') (Some ''n1'') False" "[]" "ex_caller\<lparr>can_audit := \<lambda>_. False\<rparr>"]
  by (simp add: ex_defs sc_wf_def visible_def list_keys_def)

section \<open>The auto-assign plan\<close>

lemma set_candidates:
  "sc_wf pool \<Longrightarrow> (k, e) \<in> set (candidates pool taken ty) \<longleftrightarrow>
     sc_get pool k = Some e \<and> e_remote e = None \<and> k \<notin> taken \<and> matches_remote_type (e_product_type e) ty"
  by (auto simp: candidates_def sc.get_iter)

definition covers :: "subscription_key_entry \<Rightarrow> remote_node_status \<Rightarrow> bool" where
  "covers e n \<longleftrightarrow>
     matches_remote_type (e_product_type e) (ns_ty n)
     \<and> (ns_ty n = Remote_Pve \<longrightarrow>
          (\<exists>s. socket_count_from_key (e_key e) = Some s \<and> node_sockets_u32 n \<le> s))"

lemma best_key_Some:
  assumes "best_key pool taken n = Some k" "sc_wf pool"
  shows "\<exists>e. sc_get pool k = Some e \<and> e_remote e = None \<and> k \<notin> taken \<and> covers e n"
proof (cases "ns_ty n = Remote_Pve")
  case True
  define cs where "cs = map (\<lambda>(i, e). (i, e_key e)) (candidates pool taken (ns_ty n))"
  from True assms(1) have "pick_best_pve_socket_key (node_sockets_u32 n) cs = Some k"
    by (simp add: best_key_def cs_def)
  with pick_best_contract [where n = "node_sockets_u32 n" and cs = cs]
  obtain key s where "(k, key) \<in> set cs" "socket_count_from_key key = Some s" "node_sockets_u32 n \<le> s"
    by auto
  with True assms(2) show ?thesis by (auto simp: set_candidates covers_def cs_def)
next
  case False
  with assms obtain e where "(k, e) \<in> set (candidates pool taken (ns_ty n))"
    by (auto simp: best_key_def Let_def split: list.splits)
  with False assms(2) show ?thesis by (auto simp: set_candidates covers_def)
qed

lemma best_key_None:
  assumes "best_key pool taken n = None" "sc_wf pool"
    and "sc_get pool k = Some e" "e_remote e = None" "k \<notin> taken"
  shows "\<not> covers e n"
proof
  assume cov: "covers e n"
  with assms have mem: "(k, e) \<in> set (candidates pool taken (ns_ty n))"
    by (simp add: set_candidates covers_def)
  show False
  proof (cases "ns_ty n = Remote_Pve")
    case True
    with cov obtain s where s: "socket_count_from_key (e_key e) = Some s" "node_sockets_u32 n \<le> s"
      by (auto simp: covers_def)
    define cs where "cs = map (\<lambda>(i, e). (i, e_key e)) (candidates pool taken (ns_ty n))"
    from True assms(1) have "pick_best_pve_socket_key (node_sockets_u32 n) cs = None"
      by (simp add: best_key_def cs_def)
    moreover from mem have "(k, e_key e) \<in> set cs" by (force simp: cs_def)
    ultimately show False
      using s pick_best_contract [where n = "node_sockets_u32 n" and cs = cs] by fastforce
  next
    case False
    with mem assms(1) show False by (auto simp: best_key_def Let_def split: list.splits)
  qed
qed

lemma propose_sound:
  assumes "sc_wf pool" "p \<in> set (propose pool taken ns)"
  shows "\<exists>n \<in> set ns. \<exists>e. p = mk_proposal pool n (pa_key p) \<and> sc_get pool (pa_key p) = Some e
    \<and> e_remote e = None \<and> pa_key p \<notin> taken \<and> covers e n"
  using assms
proof (induction pool taken ns rule: propose.induct)
  case (2 pool taken n ns)
  show ?case
  proof (cases "best_key pool taken n")
    case None
    with 2 show ?thesis by auto
  next
    case (Some k)
    show ?thesis
    proof (cases "p = mk_proposal pool n k")
      case True
      with best_key_Some [OF Some 2(3)] show ?thesis by (auto simp: mk_proposal_def)
    next
      case False
      with 2(4) Some have "p \<in> set (propose pool (insert k taken) ns)" by simp
      from 2(2) [OF Some 2(3) this] show ?thesis by auto
    qed
  qed
qed simp

lemma propose_distinct_keys:
  assumes "sc_wf pool"
  shows "distinct (map pa_key (propose pool taken ns))"
  using assms
proof (induction pool taken ns rule: propose.induct)
  case (2 pool taken n ns)
  have "k \<notin> pa_key ` set (propose pool (insert k taken) ns)" for k
    using propose_sound [OF 2(3)] by fastforce
  with 2 show ?case by (auto simp: mk_proposal_def split: option.splits)
qed simp

lemma propose_targets:
  "distinct (map (\<lambda>n. (ns_remote n, ns_node n)) ns) \<Longrightarrow>
     distinct (map (\<lambda>p. (pa_remote p, pa_node p)) (propose pool taken ns))
     \<and> (\<lambda>p. (pa_remote p, pa_node p)) ` set (propose pool taken ns)
        \<subseteq> (\<lambda>n. (ns_remote n, ns_node n)) ` set ns"
  by (induction pool taken ns rule: propose.induct)
    (auto simp: mk_proposal_def image_iff split: option.splits; blast)+

lemma propose_complete:
  assumes "sc_wf pool" "n \<in> set ns" "distinct (map (\<lambda>n. (ns_remote n, ns_node n)) ns)"
    and "\<forall>p \<in> set (propose pool taken ns). (pa_remote p, pa_node p) \<noteq> (ns_remote n, ns_node n)"
    and "sc_get pool k = Some e" "e_remote e = None" "k \<notin> taken"
    and "k \<notin> pa_key ` set (propose pool taken ns)"
  shows "\<not> covers e n"
  using assms
proof (induction pool taken ns rule: propose.induct)
  case (2 pool taken m ns)
  show ?case
  proof (cases "best_key pool taken m")
    case None
    show ?thesis
    proof (cases "n = m")
      case True
      with best_key_None [OF None 2(3)] 2 show ?thesis by blast
    next
      case False
      with 2 None show ?thesis by simp
    qed
  next
    case (Some b)
    with 2(6) have "n \<noteq> m" by (auto simp: mk_proposal_def)
    with 2 Some show ?thesis by (auto simp: mk_proposal_def)
  qed
qed simp

lemma set_target_nodes:
  "set (target_nodes statuses) = {n \<in> set statuses. ns_assigned_key n = None \<and> ns_status n \<noteq> Active}"
  by (auto simp: target_nodes_def)

lemma distinct_target_nodes:
  "distinct (map f statuses) \<Longrightarrow> distinct (map f (target_nodes statuses))"
proof -
  assume "distinct (map f statuses)"
  then have "distinct (map f (filter P statuses))" for P by (rule distinct_map_filter)
  then show ?thesis
    unfolding target_nodes_def by (simp add: distinct_map)
qed

lemma compute_proposals_facts:
  assumes "sc_wf pool" "distinct (map (\<lambda>n. (ns_remote n, ns_node n)) statuses)"
  shows "distinct (map pa_key (compute_proposals pool statuses))
    \<and> distinct (map (\<lambda>p. (pa_remote p, pa_node p)) (compute_proposals pool statuses))
    \<and> (\<forall>p \<in> set (compute_proposals pool statuses). \<exists>n \<in> set statuses. \<exists>e.
          pa_remote p = ns_remote n \<and> pa_node p = ns_node n
          \<and> ns_assigned_key n = None \<and> ns_status n \<noteq> Active
          \<and> sc_get pool (pa_key p) = Some e \<and> e_remote e = None \<and> covers e n)"
proof (intro conjI ballI)
  show "distinct (map pa_key (compute_proposals pool statuses))"
    unfolding compute_proposals_def by (rule propose_distinct_keys [OF assms(1)])
  show "distinct (map (\<lambda>p. (pa_remote p, pa_node p)) (compute_proposals pool statuses))"
    unfolding compute_proposals_def
    using propose_targets [OF distinct_target_nodes [OF assms(2)]] by blast
next
  fix p assume "p \<in> set (compute_proposals pool statuses)"
  then obtain n e where "n \<in> set (target_nodes statuses)" "p = mk_proposal pool n (pa_key p)"
    "sc_get pool (pa_key p) = Some e" "e_remote e = None" "covers e n"
    using propose_sound [OF assms(1)] unfolding compute_proposals_def by blast
  moreover from this(2) have "pa_remote p = ns_remote n" "pa_node p = ns_node n"
    by (metis mk_proposal_def proposed_assignment.select_convs(2,3))+
  ultimately show "\<exists>n \<in> set statuses. \<exists>e. pa_remote p = ns_remote n \<and> pa_node p = ns_node n
          \<and> ns_assigned_key n = None \<and> ns_status n \<noteq> Active
          \<and> sc_get pool (pa_key p) = Some e \<and> e_remote e = None \<and> covers e n"
    by (auto simp: set_target_nodes)
qed

definition ex_row :: "string \<Rightarrow> remote_node_status" where
  "ex_row n = node_row ''r1'' Remote_Pbs n None None False"

lemma ex_proposals: "compute_proposals (ex_pool None None False) [ex_row ''n1'', ex_row ''n2''] =
    [\<lparr>pa_key = ''pbsc-0123456789'', pa_remote = ''r1'', pa_node = ''n1'', pa_key_sockets = None, pa_node_sockets = None\<rparr>]"
  by code_simp

definition ex_pool_pve :: key_pool where
  "ex_pool_pve = ex_pool None None False @ [(''pve1c-0123456789'',
     fresh_entry NotFound ''pve1c-0123456789'' Product_Pve Manual None None)]"

text \<open>C6. The auto-assign plan uses no key and no node twice, and every proposal pairs a
  node that has neither an assigned key nor an active subscription with a free key of the pool whose
  product fits the remote and, for PVE, whose socket count covers the node.\<close>

theorem compute_proposals_sound:
  assumes "sc_wf pool" "distinct (map (\<lambda>n. (ns_remote n, ns_node n)) statuses)"
  shows "distinct (map pa_key (compute_proposals pool statuses))
    \<and> distinct (map (\<lambda>p. (pa_remote p, pa_node p)) (compute_proposals pool statuses))
    \<and> (\<forall>p \<in> set (compute_proposals pool statuses). \<exists>n \<in> set statuses. \<exists>e.
          pa_remote p = ns_remote n \<and> pa_node p = ns_node n
          \<and> ns_assigned_key n = None \<and> ns_status n \<noteq> Active
          \<and> sc_get pool (pa_key p) = Some e \<and> e_remote e = None \<and> covers e n)"
  using assms by (rule compute_proposals_facts)

theorem compute_proposals_sound_witness:
  "\<exists>e. sc_get (ex_pool None None False) ''pbsc-0123456789'' = Some e \<and> (covers e (ex_row ''n1'') \<or> covers e (ex_row ''n2''))"
proof -
  have "distinct (map (\<lambda>n. (ns_remote n, ns_node n)) [ex_row ''n1'', ex_row ''n2''])"
    by (simp add: ex_row_def node_row_def)
  from compute_proposals_sound [OF pool_inv_wf [OF ex_pool_free_inv] this, unfolded ex_proposals]
  show ?thesis by auto
qed

text \<open>The auto-assign plan is maximal: a node that is left without a proposal
  cannot be covered by any free key that is left over.\<close>

theorem compute_proposals_complete:
  assumes "sc_wf pool" "distinct (map (\<lambda>n. (ns_remote n, ns_node n)) statuses)"
    and "n \<in> set statuses" "ns_assigned_key n = None" "ns_status n \<noteq> Active"
    and "(ns_remote n, ns_node n) \<notin> (\<lambda>p. (pa_remote p, pa_node p)) ` set (compute_proposals pool statuses)"
    and "sc_get pool k = Some e" "e_remote e = None"
    and "k \<notin> pa_key ` set (compute_proposals pool statuses)"
  shows "\<not> covers e n"
  using assms unfolding compute_proposals_def
  by (intro propose_complete [of pool n "target_nodes statuses" "{}" k e])
    (auto simp: set_target_nodes image_iff intro: distinct_target_nodes)

theorem compute_proposals_complete_witness:
  "\<not> covers (fresh_entry NotFound ''pve1c-0123456789'' Product_Pve Manual None None) (ex_row ''n2'')"
proof (rule compute_proposals_complete)
  have ps: "compute_proposals ex_pool_pve [ex_row ''n1'', ex_row ''n2''] =
    [\<lparr>pa_key = ''pbsc-0123456789'', pa_remote = ''r1'', pa_node = ''n1'', pa_key_sockets = None, pa_node_sockets = None\<rparr>]"
    by code_simp
  show "sc_wf ex_pool_pve" by (simp add: sc_wf_def ex_pool_pve_def ex_pool_def)
  show "distinct (map (\<lambda>n. (ns_remote n, ns_node n)) [ex_row ''n1'', ex_row ''n2''])"
    by (simp add: ex_row_def node_row_def)
  show "ex_row ''n2'' \<in> set [ex_row ''n1'', ex_row ''n2'']" by simp
  show "(ns_remote (ex_row ''n2''), ns_node (ex_row ''n2'')) \<notin> (\<lambda>p. (pa_remote p, pa_node p)) `
      set (compute_proposals ex_pool_pve [ex_row ''n1'', ex_row ''n2''])"
    unfolding ps by (simp add: ex_row_def node_row_def)
  show "''pve1c-0123456789'' \<notin> pa_key ` set (compute_proposals ex_pool_pve [ex_row ''n1'', ex_row ''n2''])"
    unfolding ps by simp
qed (simp_all add: ex_row_def node_row_def ex_pool_pve_def ex_pool_def sc_get_def fresh_entry_def)

lemma node_row_simps [simp]:
  "ns_remote (node_row r ty n i a pc) = r" "ns_ty (node_row r ty n i a pc) = ty"
  "ns_node (node_row r ty n i a pc) = n" "ns_assigned_key (node_row r ty n i a pc) = a"
  "ns_pending_clear (node_row r ty n i a pc) = pc"
  "ns_current_key (node_row r ty n i a pc) = Option.bind i ni_key"
  by (simp_all add: node_row_def split: option.split)

lemma joined_row_simps [simp]:
  "ns_remote (joined_row pool r ty (n, i)) = r" "ns_ty (joined_row pool r ty (n, i)) = ty"
  "ns_node (joined_row pool r ty (n, i)) = n"
  "ns_assigned_key (joined_row pool r ty (n, i)) = map_option (e_key \<circ> snd) (find_bound r n pool)"
  "ns_current_key (joined_row pool r ty (n, i)) = Option.bind i ni_key"
  by (simp_all add: joined_row_def split: option.split prod.split)

lemma collect_rowE:
  assumes "n \<in> set (collect_node_status u remotes live pool)"
  obtains name r infos nod info where "(name, r) \<in> set remotes" "can_audit u name"
    "live r = Some infos" "(nod, info) \<in> set infos" "n = joined_row pool name (r_ty r) (nod, info)"
  using assms
  by (auto simp: collect_node_status_def any_privs_def split: option.splits) (metis that)

lemma find_bound_None:
  "pool_inv pool \<Longrightarrow> find_bound r n pool = None \<Longrightarrow> sc_get pool k = Some e \<Longrightarrow> \<not> bound_to r n e"
  using sc.find_iter_None [OF pool_inv_wf, of pool "\<lambda>_ e. bound_to r n e"] by (auto simp: find_bound_def)

lemma collect_unassigned_free:
  assumes "n \<in> set (collect_node_status u remotes live pool)" "ns_assigned_key n = None"
    and "pool_inv pool" "sc_get pool k = Some e"
  shows "\<not> bound_to (ns_remote n) (ns_node n) e"
  using assms(1)
proof (rule collect_rowE)
  fix name r infos nod info
  assume n: "n = joined_row pool name (r_ty r) (nod, info)"
  with assms(2) have "find_bound (ns_remote n) (ns_node n) pool = None" by simp
  from find_bound_None [OF assms(3) this assms(4)] show ?thesis .
qed

lemma distinct_concat_tagged:
  "distinct (map fst xs) \<Longrightarrow> (\<And>k v. (k, v) \<in> set xs \<Longrightarrow> distinct (g v)) \<Longrightarrow>
     distinct (concat (map (\<lambda>(k, v). map (Pair k) (g v)) xs))"
proof (induction xs)
  case (Cons x xs)
  obtain k v where x: "x = (k, v)" by (cases x)
  from Cons.prems(2) [of k v] x have "distinct (map (Pair k) (g v))"
    by (simp add: distinct_map inj_on_def)
  moreover have "distinct (concat (map (\<lambda>(k, v). map (Pair k) (g v)) xs))"
    using Cons by auto
  moreover have "set (map (Pair k) (g v)) \<inter> set (concat (map (\<lambda>(k, v). map (Pair k) (g v)) xs)) = {}"
    using Cons.prems(1) x by force
  ultimately show ?case using x by simp
qed simp

lemma collect_distinct:
  assumes "sc_wf remotes" "\<And>name r infos. sc_get remotes name = Some r \<Longrightarrow> live r = Some infos \<Longrightarrow> distinct (map fst infos)"
  shows "distinct (map (\<lambda>n. (ns_remote n, ns_node n)) (collect_node_status u remotes live pool))"
proof -
  define g where "g r = (case live r of None \<Rightarrow> [] | Some infos \<Rightarrow> map fst infos)" for r
  define rows where "rows = concat (map (\<lambda>(name, r). case live r of
        None \<Rightarrow> [] | Some infos \<Rightarrow> map (joined_row pool name (r_ty r)) infos) (any_privs u remotes))"
  have "map (\<lambda>n. (ns_remote n, ns_node n)) rows = concat (map (\<lambda>(name, r). map (Pair name) (g r)) (any_privs u remotes))"
    by (auto simp: rows_def map_concat g_def comp_def intro!: arg_cong [where f = concat] split: option.splits)
  moreover have "distinct (concat (map (\<lambda>(name, r). map (Pair name) (g r)) (any_privs u remotes)))"
  proof (rule distinct_concat_tagged)
    show "distinct (map fst (any_privs u remotes))"
      using assms(1) by (auto simp: any_privs_def sc_wf_def intro: distinct_map_filter)
    show "distinct (g r)" if "(name, r) \<in> set (any_privs u remotes)" for name r
      using that assms(1) assms(2) [of name r]
      by (auto simp: g_def any_privs_def sc.get_iter split: option.splits)
  qed
  ultimately have "distinct (map (\<lambda>n. (ns_remote n, ns_node n)) rows)" by simp
  then show ?thesis
    unfolding collect_node_status_def rows_def [symmetric] by (simp add: distinct_map)
qed

lemma bulk_loop_all:
  assumes "pool_inv pool" "distinct (map pa_key ps)" "distinct (map (\<lambda>p. (pa_remote p, pa_node p)) ps)"
    and "\<And>p. p \<in> set ps \<Longrightarrow> can_modify u (pa_remote p) \<and> env_node_ok env (pa_node p)
        \<and> (\<exists>e r. sc_get pool (pa_key p) = Some e \<and> e_remote e = None \<and> sc_get remotes (pa_remote p) = Some r
              \<and> matches_remote_type (e_product_type e) (r_ty r))
        \<and> (\<forall>k e. sc_get pool k = Some e \<longrightarrow> \<not> bound_to (pa_remote p) (pa_node p) e)"
  shows "\<exists>pool'. bulk_loop env u remotes ps pool = (ps, pool')
    \<and> (\<forall>p \<in> set ps. \<exists>e. sc_get pool' (pa_key p) = Some e \<and> bound_to (pa_remote p) (pa_node p) e)
    \<and> (\<forall>k. k \<notin> pa_key ` set ps \<longrightarrow> sc_get pool' k = sc_get pool k)"
  using assms
proof (induction ps arbitrary: pool)
  case (Cons p ps)
  define pool1 where "pool1 = sc_modify (pa_key p) (assign_fresh (pa_remote p) (pa_node p)) pool"
  have acc: "bulk_accepts env u remotes pool p"
  proof -
    have "\<not> list_ex (\<lambda>(_, e'). e_key e' \<noteq> pa_key p \<and> bound_to (pa_remote p) (pa_node p) e') pool"
      using Cons.prems(4) [of p] sc.get_iter [OF pool_inv_wf [OF Cons.prems(1)]]
      by (auto simp: list_ex_iff)
    with Cons.prems(4) [of p] show ?thesis by (auto simp: bulk_accepts_def)
  qed
  have "\<exists>pool'. bulk_loop env u remotes ps pool1 = (ps, pool')
    \<and> (\<forall>p \<in> set ps. \<exists>e. sc_get pool' (pa_key p) = Some e \<and> bound_to (pa_remote p) (pa_node p) e)
    \<and> (\<forall>k. k \<notin> pa_key ` set ps \<longrightarrow> sc_get pool' k = sc_get pool1 k)"
  proof (rule Cons.IH)
    show "pool_inv pool1" unfolding pool1_def using bulk_accepts_inv [OF acc Cons.prems(1)] .
    fix q assume q: "q \<in> set ps"
    then have "pa_key q \<noteq> pa_key p" "(pa_remote q, pa_node q) \<noteq> (pa_remote p, pa_node p)"
      using Cons.prems(2,3) by (auto simp: image_iff)
    then show "can_modify u (pa_remote q) \<and> env_node_ok env (pa_node q)
        \<and> (\<exists>e r. sc_get pool1 (pa_key q) = Some e \<and> e_remote e = None \<and> sc_get remotes (pa_remote q) = Some r
              \<and> matches_remote_type (e_product_type e) (r_ty r))
        \<and> (\<forall>k e. sc_get pool1 k = Some e \<longrightarrow> \<not> bound_to (pa_remote q) (pa_node q) e)"
      using Cons.prems(4) [of q] q by (auto simp: pool1_def sc_laws)
  qed (use Cons.prems in auto)
  then obtain pool' where rec: "bulk_loop env u remotes ps pool1 = (ps, pool')"
    and new: "\<forall>p \<in> set ps. \<exists>e. sc_get pool' (pa_key p) = Some e \<and> bound_to (pa_remote p) (pa_node p) e"
    and frame: "\<forall>k. k \<notin> pa_key ` set ps \<longrightarrow> sc_get pool' k = sc_get pool1 k"
    by blast
  have "pa_key p \<notin> pa_key ` set ps" using Cons.prems(2) by simp
  then have "\<exists>e. sc_get pool' (pa_key p) = Some e \<and> bound_to (pa_remote p) (pa_node p) e"
    using frame Cons.prems(4) [of p] by (auto simp: pool1_def sc_laws)
  moreover have "sc_get pool' k = sc_get pool k" if "k \<notin> pa_key ` set (p # ps)" for k
    using frame that by (simp add: pool1_def sc_laws)
  moreover have "bulk_loop env u remotes (p # ps) pool = (p # ps, pool')"
    using acc rec by (simp add: pool1_def)
  ultimately show ?case using new by auto
qed simp

text \<open>C5. Committing a fresh plan applies all of it: for a caller who may modify what they
  may audit, a bulk assignment with the digests of the plan accepts every proposal, binds each key to
  its node and leaves every other entry alone. The pool satisfies its invariant, remotes have distinct names and
  report distinct nodes whose names the node schema accepts, the node statuses are those of the pool the plan was made
  for, and a digest compares equal to itself.\<close>

theorem auto_assign_commits:
  assumes inv: "pool_inv pool" and wf: "sc_wf remotes"
    and nodes: "\<forall>name r infos. sc_get remotes name = Some r \<longrightarrow> live r = Some infos \<longrightarrow>
          distinct (map fst infos) \<and> (\<forall>nod \<in> fst ` set infos. env_node_ok env nod)"
    and privs: "\<forall>name. can_audit u name \<longrightarrow> can_modify u name"
    and fresh: "\<forall>d. \<not> env_modified env d (Some d)"
    and st: "statuses = collect_node_status u remotes live pool"
  shows "\<exists>pool'. bulk_assign env sha u remotes statuses (auto_assign env sha pool statuses) pool
                  = Inr (compute_proposals pool statuses, pool')
    \<and> (\<forall>p \<in> set (compute_proposals pool statuses).
          \<exists>e. sc_get pool' (pa_key p) = Some e \<and> bound_to (pa_remote p) (pa_node p) e)
    \<and> (\<forall>k. k \<notin> pa_key ` set (compute_proposals pool statuses) \<longrightarrow> sc_get pool' k = sc_get pool k)"
proof -
  define ps where "ps = compute_proposals pool statuses"
  have "distinct (map (\<lambda>n. (ns_remote n, ns_node n)) statuses)"
    unfolding st using collect_distinct [OF wf] nodes by blast
  note facts = compute_proposals_facts [OF pool_inv_wf [OF inv] this, folded ps_def]
  have "\<exists>pool'. bulk_loop env u remotes ps pool = (ps, pool')
    \<and> (\<forall>p \<in> set ps. \<exists>e. sc_get pool' (pa_key p) = Some e \<and> bound_to (pa_remote p) (pa_node p) e)
    \<and> (\<forall>k. k \<notin> pa_key ` set ps \<longrightarrow> sc_get pool' k = sc_get pool k)"
  proof (rule bulk_loop_all [OF inv])
    fix p assume "p \<in> set ps"
    with facts obtain n e where n: "n \<in> set statuses" "ns_assigned_key n = None"
      "pa_remote p = ns_remote n" "pa_node p = ns_node n"
      and e: "sc_get pool (pa_key p) = Some e" "e_remote e = None" "covers e n"
      by blast
    from n(1) [unfolded st] obtain name r infos nod info where row: "(name, r) \<in> set remotes"
      "can_audit u name" "live r = Some infos" "(nod, info) \<in> set infos"
      "n = joined_row pool name (r_ty r) (nod, info)"
      by (rule collect_rowE)
    have r: "sc_get remotes name = Some r" using row(1) wf by (simp add: sc.get_iter)
    with nodes row(3,4) have "env_node_ok env nod" by force
    moreover have "\<not> bound_to (pa_remote p) (pa_node p) e'" if "sc_get pool k = Some e'" for k e'
      using collect_unassigned_free [OF n(1) [unfolded st] n(2) inv that] n(3,4) by simp
    ultimately show "can_modify u (pa_remote p) \<and> env_node_ok env (pa_node p)
        \<and> (\<exists>e r. sc_get pool (pa_key p) = Some e \<and> e_remote e = None \<and> sc_get remotes (pa_remote p) = Some r
              \<and> matches_remote_type (e_product_type e) (r_ty r))
        \<and> (\<forall>k e. sc_get pool k = Some e \<longrightarrow> \<not> bound_to (pa_remote p) (pa_node p) e)"
      using r row n e privs by (auto simp: covers_def)
  qed (use facts in auto)
  then show ?thesis
    using fresh by (auto simp: bulk_assign_def auto_assign_def ps_def [symmetric])
qed

theorem auto_assign_commits_witness:
  "\<exists>pool'. (\<forall>p \<in> set (compute_proposals (ex_pool None None False) (collect_node_status ex_caller ex_remotes (ex_live None) (ex_pool None None False))).
     \<exists>e. sc_get pool' (pa_key p) = Some e \<and> bound_to (pa_remote p) (pa_node p) e)"
  using auto_assign_commits [OF ex_pool_free_inv, of ex_remotes "ex_live None" ex_env ex_caller _ "\<lambda>_. ()"]
  by (auto simp: ex_remotes_def ex_env_def ex_caller_def ex_live_def sc_wf_def)

definition ex_entry :: "string \<Rightarrow> product_type \<Rightarrow> subscription_key_entry" where
  "ex_entry k p = fresh_entry NotFound k p Manual None None"

text \<open>The node status digest does not cover everything the plan depends on: two
  status lists that differ in the remote type have the same digest and different plans.\<close>

theorem status_hash_ignores_type:
  "\<exists>pool s1 s2. hash_node_status sha s1 = hash_node_status sha s2
     \<and> compute_proposals pool s1 \<noteq> compute_proposals pool s2"
proof -
  define pool where "pool = [(''pbsc-0123456789'', ex_entry ''pbsc-0123456789'' Product_Pbs)]"
  define row where "row ty = node_row ''r1'' ty ''localhost'' None None False" for ty
  have slice: "map status_slice [row Remote_Pbs] = map status_slice [row Remote_Pve]"
    by (simp add: row_def node_row_def status_slice_def)
  have "compute_proposals pool [row Remote_Pbs] \<noteq> []"
    by (simp add: compute_proposals_def target_nodes_def row_def node_row_def best_key_def candidates_def
        pool_def ex_entry_def fresh_entry_def matches_remote_type_def)
  moreover have "compute_proposals pool [row Remote_Pve] = []"
    by (simp add: compute_proposals_def target_nodes_def row_def node_row_def best_key_def candidates_def
        pool_def ex_entry_def fresh_entry_def matches_remote_type_def pick_best_pve_socket_key_def
        List.map_filter_def)
  ultimately show ?thesis
    unfolding hash_node_status_def
    by (intro exI [of _ pool] exI [of _ "[row Remote_Pbs]"] exI [of _ "[row Remote_Pve]"]) (simp add: slice [simplified])
qed

end
