(* ===== verification/Subscription_Apply.thy ===== *)
theory Subscription_Apply
  imports Subscription_Props
begin

text \<open>
  The properties of the pending changes: which entries are pending, what the worker may write
  to the pool, that an undisturbed run without failures completes every entry, and that discarding
  undoes exactly the pending changes.
\<close>

lemma redact_key_hides:
  assumes "CHR ''-'' \<notin> set prefix"
  shows "redact_key (prefix @ ''-'' @ [a] @ middle @ [b]) = prefix @ ''-'' @ [a] @ ''...'' @ [b]"
  using assms split_once_append [of "CHR ''-''" prefix "[a] @ middle @ [b]"]
  by (simp add: redact_key_def)

lemma pending_of_Some_iff:
  "pending_of u statuses e = Some p \<longleftrightarrow>
     bound_to (pe_remote p) (pe_node p) e \<and> pe_key p = e_key e \<and> can_modify u (pe_remote p)
     \<and> (if e_pending_clear e then pe_op p = Clear
        else pe_op p = Push \<and> push_needed statuses (pe_remote p) (pe_node p) (e_key e))"
  by (cases p) (auto simp: pending_of_def bound_to_def split: option.splits)

text \<open>The pending list is exactly the bound entries on remotes the caller may modify
  whose clear is queued, or whose node is not known to run the assigned key.\<close>

theorem compute_pending_exact:
  assumes "sc_wf pool"
  shows "p \<in> set (compute_pending u pool statuses) \<longleftrightarrow>
    (\<exists>k e. sc_get pool k = Some e \<and> bound_to (pe_remote p) (pe_node p) e \<and> pe_key p = e_key e
       \<and> can_modify u (pe_remote p)
       \<and> (if e_pending_clear e then pe_op p = Clear
          else pe_op p = Push
            \<and> (\<forall>n. List.find (\<lambda>n. ns_remote n = pe_remote p \<and> ns_node n = pe_node p) statuses = Some n
                   \<longrightarrow> ns_current_key n \<noteq> Some (pe_key p))))"
proof -
  have "push_needed statuses r n k \<longleftrightarrow>
      (\<forall>m. List.find (\<lambda>m. ns_remote m = r \<and> ns_node m = n) statuses = Some m \<longrightarrow> ns_current_key m \<noteq> Some k)"
    for r n k
    by (auto simp: push_needed_def split: option.splits)
  note pn = this
  have "p \<in> set (compute_pending u pool statuses) \<longleftrightarrow>
      (\<exists>k e. sc_get pool k = Some e \<and> pending_of u statuses e = Some p)"
    unfolding compute_pending_def set_map_filter sc.get_iter [OF assms] by force
  then show ?thesis
    unfolding pending_of_Some_iff pn by (smt (verit, best))
qed

theorem compute_pending_exact_witness:
  "\<lparr>pe_key = ''pbsc-0123456789'', pe_remote = ''r1'', pe_node = ''n1'', pe_op = Clear\<rparr>
     \<in> set (compute_pending ex_caller (ex_pool (Some ''r1'') (Some ''n1'') True) [])"
  unfolding compute_pending_exact [OF pool_inv_wf [OF ex_pool_inv]]
  by (auto simp: ex_defs bound_to_def)

lemma apply_entry_cases:
  assumes "apply_entry api remotes p seen locked w = (oc, pool', w')"
  shows "pool' = locked \<or>
    (oc = Succeeded \<and> pe_op p = Clear \<and> pool' = drop_binding p locked
     \<and> pool_assignment_still_valid seen p \<and> op_consistent seen p
     \<and> (\<forall>rmt. sc_get remotes (pe_remote p) = Some rmt \<longrightarrow>
          (\<exists>pt. product_from_key (pe_key p) = Some pt
             \<and> fst (delete_subscription_on_remote api rmt pt (pe_node p) w) = None)))"
  using assms unfolding apply_entry_def
  by (auto split: if_splits pending_op.splits option.splits prod.splits)

text \<open>C4. The worker changes the pool only by dropping the binding of an entry whose
  clear was queued and whose deletion the remote confirmed (or whose remote is gone from the
  configuration), and only if the entry under the lock is still bound to that node.\<close>

theorem worker_writes_only_cleared:
  assumes "apply_entry api remotes p seen locked w = (oc, pool', w')"
    and "sc_get pool' k \<noteq> sc_get locked k"
  shows "k = pe_key p \<and> oc = Succeeded \<and> pe_op p = Clear
    \<and> (\<exists>e. sc_get seen k = Some e \<and> e_pending_clear e \<and> bound_to (pe_remote p) (pe_node p) e)
    \<and> (\<exists>e. sc_get locked k = Some e \<and> bound_to (pe_remote p) (pe_node p) e
          \<and> sc_get pool' k = Some (e\<lparr>e_remote := None, e_node := None, e_pending_clear := False\<rparr>))
    \<and> (\<forall>rmt. sc_get remotes (pe_remote p) = Some rmt \<longrightarrow>
          (\<exists>pt. product_from_key k = Some pt
             \<and> fst (delete_subscription_on_remote api rmt pt (pe_node p) w) = None))"
proof -
  from assms(2) have "pool' \<noteq> locked" by auto
  with apply_entry_cases [OF assms(1)]
  have c: "oc = Succeeded" "pe_op p = Clear" and pool': "pool' = drop_binding p locked"
    and v: "pool_assignment_still_valid seen p" "op_consistent seen p"
    and del: "\<forall>rmt. sc_get remotes (pe_remote p) = Some rmt \<longrightarrow>
          (\<exists>pt. product_from_key (pe_key p) = Some pt
             \<and> fst (delete_subscription_on_remote api rmt pt (pe_node p) w) = None)"
    by auto
  from assms(2) pool' have k: "k = pe_key p" and valid: "pool_assignment_still_valid locked p"
    by (auto simp: drop_binding_def sc_laws split: if_splits)
  from valid k pool' have "\<exists>e. sc_get locked k = Some e \<and> bound_to (pe_remote p) (pe_node p) e
          \<and> sc_get pool' k = Some (e\<lparr>e_remote := None, e_node := None, e_pending_clear := False\<rparr>)"
    by (auto simp: pool_assignment_still_valid_def drop_binding_def sc_laws unbind_def split: option.splits)
  moreover from v c(2) k
  have "\<exists>e. sc_get seen k = Some e \<and> e_pending_clear e \<and> bound_to (pe_remote p) (pe_node p) e"
    by (auto simp: pool_assignment_still_valid_def op_consistent_def Let_def split: option.splits)
  ultimately show ?thesis using c del k by blast
qed

theorem worker_writes_only_cleared_witness:
  "fst (delete_subscription_on_remote ex_api (snd (hd ex_remotes)) Product_Pbs ''n1'' 0) = None"
proof -
  define p where "p = \<lparr>pe_key = ''pbsc-0123456789'', pe_remote = ''r1'', pe_node = ''n1'', pe_op = Clear\<rparr>"
  let ?pool = "ex_pool (Some ''r1'') (Some ''n1'') True"
  have run: "apply_entry ex_api ex_remotes p ?pool ?pool 0 = (Succeeded, ex_pool None None False, 1)"
    by (simp add: apply_entry_def p_def ex_from_key ex_defs pool_assignment_still_valid_def bound_to_def
        op_consistent_def delete_subscription_on_remote_def lift_remote_def drop_binding_def unbind_def)
  have diff: "sc_get (ex_pool None None False) ''pbsc-0123456789'' \<noteq> sc_get ?pool ''pbsc-0123456789''"
    by (simp add: ex_defs)
  show ?thesis
    using worker_writes_only_cleared [OF run diff] by (auto simp: p_def ex_from_key ex_remotes_def sc_get_def)
qed

definition ready :: "key_pool \<Rightarrow> pending_entry \<Rightarrow> bool" where
  "ready pool p \<longleftrightarrow> pool_assignment_still_valid pool p \<and> op_consistent pool p"

lemma ready_cong: "sc_get pool (pe_key p) = sc_get pool' (pe_key p) \<Longrightarrow> ready pool p = ready pool' p"
  by (simp add: ready_def pool_assignment_still_valid_def op_consistent_def)

lemma apply_entry_ready:
  assumes "ready pool p" "apply_entry api remotes p pool pool w = (oc, pool', w')"
    and "\<forall>f. oc \<noteq> Failed f"
  shows "oc = Succeeded \<and> sc_get pool' = (if pe_op p = Clear
           then (sc_get pool)(pe_key p := map_option unbind (sc_get pool (pe_key p))) else sc_get pool)"
  using assms unfolding apply_entry_def ready_def
  by (auto simp: drop_binding_def sc_laws split: pending_op.splits option.splits prod.splits)

lemma apply_entries_ready:
  assumes "apply_entries api remotes ps pool w = (ocs, pool', w')" "failures_of ocs = []"
    and "distinct (map pe_key ps)" "\<forall>p \<in> set ps. ready pool p"
  shows "ocs = replicate (length ps) Succeeded
    \<and> (\<forall>p \<in> set ps. pe_op p = Clear \<longrightarrow> sc_get pool' (pe_key p) = map_option unbind (sc_get pool (pe_key p)))
    \<and> (\<forall>k. k \<notin> pe_key ` {p \<in> set ps. pe_op p = Clear} \<longrightarrow> sc_get pool' k = sc_get pool k)"
  using assms
proof (induction ps arbitrary: pool w ocs)
  case (Cons p ps)
  obtain oc pool1 w1 where one: "apply_entry api remotes p pool pool w = (oc, pool1, w1)"
    by (cases "apply_entry api remotes p pool pool w") auto
  with Cons.prems(1) obtain ocs1 where rest: "apply_entries api remotes ps pool1 w1 = (ocs1, pool', w')"
    and ocs: "ocs = oc # ocs1"
    by (auto split: prod.splits)
  have nf: "\<forall>f. oc \<noteq> Failed f" "failures_of ocs1 = []"
    using Cons.prems(2) ocs by (cases oc; simp)+
  have "ready pool p" using Cons.prems(4) by simp
  from apply_entry_ready [OF this one nf(1)]
  have oc: "oc = Succeeded" and g: "sc_get pool1 = (if pe_op p = Clear
           then (sc_get pool)(pe_key p := map_option unbind (sc_get pool (pe_key p))) else sc_get pool)"
    by auto
  have same: "sc_get pool1 (pe_key q) = sc_get pool (pe_key q)" if "q \<in> set ps" for q
    using g that Cons.prems(3) by (auto simp: image_iff)
  have "\<forall>q \<in> set ps. ready pool1 q"
    using Cons.prems(4) ready_cong [OF same] by simp
  with Cons.IH [OF rest nf(2)] Cons.prems(3)
  have ih: "ocs1 = replicate (length ps) Succeeded"
    "\<forall>p \<in> set ps. pe_op p = Clear \<longrightarrow> sc_get pool' (pe_key p) = map_option unbind (sc_get pool1 (pe_key p))"
    "\<forall>k. k \<notin> pe_key ` {p \<in> set ps. pe_op p = Clear} \<longrightarrow> sc_get pool' k = sc_get pool1 k"
    by auto
  have "pe_key p \<notin> pe_key ` {p \<in> set ps. pe_op p = Clear}" using Cons.prems(3) by auto
  then have "pe_op p = Clear \<longrightarrow> sc_get pool' (pe_key p) = map_option unbind (sc_get pool (pe_key p))"
    using ih(3) g by simp
  moreover have "sc_get pool' k = sc_get pool k" if "k \<notin> pe_key ` {q \<in> set (p # ps). pe_op q = Clear}" for k
  proof -
    have "k \<notin> pe_key ` {q \<in> set ps. pe_op q = Clear}" using that by auto
    moreover have "pe_op p = Clear \<Longrightarrow> k \<noteq> pe_key p" using that by auto
    ultimately show ?thesis using ih(3) g by auto
  qed
  ultimately show ?case using oc ocs ih(1,2) same by auto
qed simp

lemma compute_pending_ready:
  assumes inv: "pool_inv pool" and p: "p \<in> set (compute_pending u pool statuses)"
  shows "ready pool p"
proof -
  from p obtain k e where e: "(k, e) \<in> set pool" "pending_of u statuses e = Some p"
    unfolding compute_pending_def set_map_filter by auto
  with inv have "sc_get pool (pe_key p) = Some e"
    using pool_inv_entry [OF inv] sc.get_iter [OF pool_inv_wf [OF inv]]
    by (auto simp: pending_of_Some_iff entry_ok_def)
  with e(2) show ?thesis
    by (auto simp: ready_def pool_assignment_still_valid_def op_consistent_def pending_of_Some_iff
        split: if_splits)
qed

lemma compute_pending_distinct:
  assumes inv: "pool_inv pool"
  shows "distinct (map pe_key (compute_pending u pool statuses))"
  unfolding compute_pending_def
proof (rule map_filter_keys [where h = fst])
  show "distinct (map fst pool)" using pool_inv_wf [OF inv] by (simp add: sc_wf_def)
  show "pe_key y = fst x" if "x \<in> set pool" "(pending_of u statuses \<circ> snd) x = Some y" for x y
  proof (cases x)
    case (Pair k e)
    with that(1) have "sc_get pool k = Some e" using sc.get_iter [OF pool_inv_wf [OF inv]] by simp
    with that(2) Pair show ?thesis
      using pool_inv_entry [OF inv] by (auto simp: pending_of_Some_iff entry_ok_def)
  qed
qed

lemma clear_pending_in:
  assumes "pool_inv pool" "sc_get pool k = Some e" "e_pending_clear e" "e_remote e = Some r" "can_modify u r"
  obtains p where "p \<in> set (compute_pending u pool statuses)" "pe_key p = k" "pe_op p = Clear"
proof -
  have k: "e_key e = k" and "e_node e \<noteq> None"
    using pool_inv_entry [OF assms(1,2)] assms(4) by (auto simp: entry_ok_def)
  then obtain n where "e_node e = Some n" by blast
  with assms k have "pending_of u statuses e = Some \<lparr>pe_key = k, pe_remote = r, pe_node = n, pe_op = Clear\<rparr>"
    by (simp add: pending_of_def)
  moreover have "(k, e) \<in> set pool"
    using assms(2) sc.get_iter [OF pool_inv_wf [OF assms(1)]] by simp
  ultimately have "\<lparr>pe_key = k, pe_remote = r, pe_node = n, pe_op = Clear\<rparr> \<in> set (compute_pending u pool statuses)"
    unfolding compute_pending_def set_map_filter by force
  then show thesis by (rule that) simp_all
qed

lemma clear_entries_iff:
  assumes inv: "pool_inv pool" and e: "sc_get pool k = Some e"
  shows "k \<in> pe_key ` {p \<in> set (compute_pending u pool statuses). pe_op p = Clear} \<longleftrightarrow>
    e_pending_clear e \<and> (\<exists>r. e_remote e = Some r \<and> can_modify u r)"
proof
  assume "k \<in> pe_key ` {p \<in> set (compute_pending u pool statuses). pe_op p = Clear}"
  then obtain p k' e' where p: "pe_op p = Clear" "pe_key p = k" "sc_get pool k' = Some e'"
    "pending_of u statuses e' = Some p"
    unfolding compute_pending_def set_map_filter using sc.get_iter [OF pool_inv_wf [OF inv]] by force
  with inv have "k' = k" using pool_inv_entry [OF inv p(3)] by (simp add: pending_of_Some_iff entry_ok_def)
  with p e show "e_pending_clear e \<and> (\<exists>r. e_remote e = Some r \<and> can_modify u r)"
    by (auto simp: pending_of_Some_iff bound_to_def split: if_splits)
next
  assume "e_pending_clear e \<and> (\<exists>r. e_remote e = Some r \<and> can_modify u r)"
  then show "k \<in> pe_key ` {p \<in> set (compute_pending u pool statuses). pe_op p = Clear}"
    using clear_pending_in [OF inv e] by blast
qed

text \<open>C3. When the worker finishes without a failure and nothing interferes, it has
  processed every pending entry, every queued clear of the caller has become an unbound entry and all
  other entries are unchanged.\<close>

theorem apply_pending_success:
  assumes inv: "pool_inv pool"
    and run: "run_apply_pending api u remotes live pool w = (Inr summary, pool', w')"
  shows "as_ok summary = as_total summary \<and> as_failures summary = []
    \<and> (\<forall>k. sc_get pool' k =
         (case sc_get pool k of
            None \<Rightarrow> None
          | Some e \<Rightarrow> if e_pending_clear e \<and> (\<exists>r. e_remote e = Some r \<and> can_modify u r)
                     then Some (e\<lparr>e_remote := None, e_node := None, e_pending_clear := False\<rparr>)
                     else Some e))"
proof -
  define ps where "ps = compute_pending u pool (collect_status_uncached remotes live)"
  obtain ocs where ocs: "apply_entries api remotes ps pool w = (ocs, pool', w')"
    and summary: "summary = \<lparr>as_ok = length (filter (\<lambda>oc. oc = Succeeded) ocs),
      as_total = length ps, as_failures = failures_of ocs\<rparr>" and nf: "failures_of ocs = []"
    using run unfolding run_apply_pending_def ps_def by (auto simp: Let_def split: prod.splits if_splits)
  have "\<forall>p \<in> set ps. ready pool p" unfolding ps_def using compute_pending_ready [OF inv] by blast
  from apply_entries_ready [OF ocs nf _ this]
  have all: "ocs = replicate (length ps) Succeeded"
    and hit: "\<And>k. k \<in> pe_key ` {p \<in> set ps. pe_op p = Clear} \<Longrightarrow> sc_get pool' k = map_option unbind (sc_get pool k)"
    and miss: "\<And>k. k \<notin> pe_key ` {p \<in> set ps. pe_op p = Clear} \<Longrightarrow> sc_get pool' k = sc_get pool k"
    unfolding ps_def using compute_pending_distinct [OF inv] by blast+
  have "sc_get pool' k = None" if "sc_get pool k = None" for k
    using hit [of k] miss [of k] that by (cases "k \<in> pe_key ` {p \<in> set ps. pe_op p = Clear}") auto
  with all summary nf show ?thesis
    using hit miss clear_entries_iff [OF inv, of _ _ u "collect_status_uncached remotes live", folded ps_def]
    by (auto simp: unbind_def split: option.splits)
qed

theorem apply_pending_success_witness:
  "fst (snd (run_apply_pending ex_api ex_caller ex_remotes (ex_live (Some ex_info))
      (ex_pool (Some ''r1'') (Some ''n1'') True) 0)) = ex_pool None None False
   \<and> sc_get (ex_pool None None False) ''pbsc-0123456789'' \<noteq> None"
proof -
  have run: "run_apply_pending ex_api ex_caller ex_remotes (ex_live (Some ex_info))
      (ex_pool (Some ''r1'') (Some ''n1'') True) 0
      = (Inr \<lparr>as_ok = 1, as_total = 1, as_failures = []\<rparr>, ex_pool None None False, 1)"
    by (simp add: run_apply_pending_def compute_pending_def List.map_filter_simps pending_of_def
        apply_entry_def ex_from_key ex_defs pool_assignment_still_valid_def bound_to_def
        op_consistent_def delete_subscription_on_remote_def lift_remote_def drop_binding_def unbind_def)
  from apply_pending_success [OF ex_pool_inv run] run show ?thesis
    by (auto simp: ex_defs)
qed

lemma clear_loop_ready:
  assumes "distinct (map pe_key ps)" "\<forall>p \<in> set ps. pool_assignment_still_valid pool p"
  shows "fst (clear_loop ps pool) = length ps
    \<and> (\<forall>p \<in> set ps. sc_get (snd (clear_loop ps pool)) (pe_key p)
          = map_option (discard_op (pe_op p)) (sc_get pool (pe_key p)))
    \<and> (\<forall>k. k \<notin> pe_key ` set ps \<longrightarrow> sc_get (snd (clear_loop ps pool)) k = sc_get pool k)"
  using assms
proof (induction ps arbitrary: pool)
  case (Cons p ps)
  define pool1 where "pool1 = sc_modify (pe_key p) (discard_op (pe_op p)) pool"
  have same: "sc_get pool1 (pe_key q) = sc_get pool (pe_key q)" if "q \<in> set ps" for q
    using that Cons.prems(1) by (auto simp: pool1_def sc_laws image_iff)
  then have "\<forall>q \<in> set ps. pool_assignment_still_valid pool1 q"
    using Cons.prems(2) by (simp add: pool_assignment_still_valid_def)
  with Cons.IH [of pool1] Cons.prems(1)
  have ih: "fst (clear_loop ps pool1) = length ps"
    "\<forall>p \<in> set ps. sc_get (snd (clear_loop ps pool1)) (pe_key p)
          = map_option (discard_op (pe_op p)) (sc_get pool1 (pe_key p))"
    "\<forall>k. k \<notin> pe_key ` set ps \<longrightarrow> sc_get (snd (clear_loop ps pool1)) k = sc_get pool1 k"
    by auto
  have step: "clear_loop (p # ps) pool = (fst (clear_loop ps pool1) + 1, snd (clear_loop ps pool1))"
    using Cons.prems(2) by (simp add: pool1_def Let_def split: prod.splits)
  have "sc_get (snd (clear_loop ps pool1)) (pe_key p) = map_option (discard_op (pe_op p)) (sc_get pool (pe_key p))"
    using ih(3) Cons.prems(1) by (simp add: pool1_def sc_laws)
  moreover have "sc_get (snd (clear_loop ps pool1)) k = sc_get pool k" if "k \<notin> pe_key ` set (p # ps)" for k
    using ih(3) that by (simp add: pool1_def sc_laws)
  ultimately show ?case using ih(1,2) same step by simp
qed simp

text \<open>Discarding the pending changes undoes exactly them: a queued clear is taken back,
  an assignment that was not pushed is unbound, the reported count is the number of pending entries and
  every other entry is unchanged.\<close>

theorem clear_pending_reverts:
  assumes inv: "pool_inv pool"
    and run: "clear_pending env u statuses digest pool pool pool = Inr (n, pool')"
  shows "n = length (compute_pending u pool statuses)
    \<and> (\<forall>p \<in> set (compute_pending u pool statuses). \<exists>e. sc_get pool (pe_key p) = Some e
          \<and> sc_get pool' (pe_key p) = Some (case pe_op p of
               Clear \<Rightarrow> e\<lparr>e_pending_clear := False\<rparr>
             | Push \<Rightarrow> e\<lparr>e_remote := None, e_node := None, e_pending_clear := False\<rparr>))
    \<and> (\<forall>k. k \<notin> pe_key ` set (compute_pending u pool statuses) \<longrightarrow> sc_get pool' k = sc_get pool k)"
proof -
  define ps where "ps = compute_pending u pool statuses"
  have valid: "\<forall>p \<in> set ps. pool_assignment_still_valid pool p"
    unfolding ps_def using compute_pending_ready [OF inv] by (simp add: ready_def)
  note loop = clear_loop_ready [OF _ valid, unfolded ps_def, OF compute_pending_distinct [OF inv], folded ps_def]
  have "n = length ps \<and> pool' = snd (clear_loop ps pool)"
    using run loop unfolding clear_pending_def ps_def [symmetric]
    by (auto simp: Let_def split: if_splits prod.splits)
  moreover have "\<exists>e. sc_get pool (pe_key p) = Some e \<and> sc_get (snd (clear_loop ps pool)) (pe_key p) = Some (case pe_op p of
               Clear \<Rightarrow> e\<lparr>e_pending_clear := False\<rparr>
             | Push \<Rightarrow> e\<lparr>e_remote := None, e_node := None, e_pending_clear := False\<rparr>)" if p: "p \<in> set ps" for p
  proof -
    from valid p obtain e where "sc_get pool (pe_key p) = Some e"
      by (auto simp: pool_assignment_still_valid_def split: option.splits)
    with loop p show ?thesis by (simp add: discard_op_def unbind_def split: pending_op.splits)
  qed
  ultimately show ?thesis
    using loop unfolding ps_def [symmetric] by simp
qed

theorem clear_pending_reverts_witness:
  "\<exists>pool'. clear_pending ex_env ex_caller [] None (ex_pool (Some ''r1'') (Some ''n1'') False)
     (ex_pool (Some ''r1'') (Some ''n1'') False) (ex_pool (Some ''r1'') (Some ''n1'') False) = Inr (1, pool')
   \<and> length (compute_pending ex_caller (ex_pool (Some ''r1'') (Some ''n1'') False) []) = 1"
proof -
  let ?pool = "ex_pool (Some ''r1'') (Some ''n1'') False"
  have run: "clear_pending ex_env ex_caller [] None ?pool ?pool ?pool = Inr (1, ex_pool None None False)"
    by (simp add: clear_pending_def compute_pending_def List.map_filter_simps pending_of_def push_needed_def
        ex_defs pool_assignment_still_valid_def bound_to_def discard_op_def unbind_def)
  from clear_pending_reverts [OF ex_pool_inv run] run show ?thesis by auto
qed

lemma pending_of_cleared:
  "e_remote e = None \<or> e_node e = None \<or> e_pending_clear e \<Longrightarrow> pending_of u statuses e = pending_of u [] e"
  by (auto simp: pending_of_def split: option.splits)

text \<open>The worker executes queued clears without looking at what the nodes run: in a
  pool whose bound entries all have a clear queued, the outcome of a run, the pool and every call to the
  remotes are the same whatever keys the live data reports.\<close>

theorem queued_clears_ignore_live:
  assumes "\<forall>(k, e) \<in> set pool. e_remote e = None \<or> e_node e = None \<or> e_pending_clear e"
  shows "run_apply_pending api u remotes live pool w = run_apply_pending api u remotes live' pool w"
proof -
  have mf: "(\<And>x. x \<in> set xs \<Longrightarrow> f x = g x) \<Longrightarrow> List.map_filter f xs = List.map_filter g xs"
    for f g :: "string \<times> subscription_key_entry \<Rightarrow> pending_entry option" and xs
    by (induction xs) (auto simp: List.map_filter_simps split: option.splits)
  have nil: "compute_pending u pool statuses = compute_pending u pool []" for statuses
    unfolding compute_pending_def
  proof (rule mf)
    fix x assume "x \<in> set pool"
    with assms have "e_remote (snd x) = None \<or> e_node (snd x) = None \<or> e_pending_clear (snd x)"
      by (cases x) fastforce
    then show "(pending_of u statuses \<circ> snd) x = (pending_of u [] \<circ> snd) x"
      unfolding comp_def by (rule pending_of_cleared)
  qed
  show ?thesis
    unfolding run_apply_pending_def nil [of "collect_status_uncached remotes live"]
      nil [of "collect_status_uncached remotes live'"] ..
qed

theorem queued_clears_ignore_live_witness:
  "run_apply_pending ex_api ex_caller ex_remotes (ex_live (Some ex_info)) (ex_pool (Some ''r1'') (Some ''n1'') True) 0
   = run_apply_pending ex_api ex_caller ex_remotes
       (ex_live (Some (ex_info\<lparr>ni_key := Some ''pbsp-fedcba9876''\<rparr>))) (ex_pool (Some ''r1'') (Some ''n1'') True) 0"
  by (rule queued_clears_ignore_live) (simp add: ex_defs)

end
