(* ===== verification/Remote_Upid.thy ===== *)
theory Remote_Upid
  imports Subscription_Types
begin

text \<open>
  The identifiers of remote tasks, \<open>lib/pdm-api-types/src/remote_upid.rs\<close>. The regular
  expression for safe ids and the parsers of the native PVE and PBS task ids belong to other
  packages and are the record \<open>upid_env\<close>; what the round trip needs of the former is that a
  safe id contains no exclamation mark.
\<close>

section \<open>Identifiers\<close>

record remote_upid =
  ru_remote :: string
  ru_remote_type :: remote_type
  ru_upid :: string

record ('p, 'q) upid_env =
  safe_id :: "string \<Rightarrow> bool"
  parse_pve_upid :: "string \<Rightarrow> 'p option"
  parse_pbs_upid :: "string \<Rightarrow> 'q option"
  pve_upid_node :: "'p \<Rightarrow> string"
  pbs_upid_node :: "'q \<Rightarrow> string"

datatype ('p, 'q) native_upid = PveUpid 'p | PbsUpid 'q

datatype upid_error =
    UpidParse string
  | UnexpectedPbs
  | UnexpectedPve
  | InvalidUpid string
  | BadRemoteId
  | BadRemoteType string
  | MissingSeparator

definition native_node :: "('p, 'q) upid_env \<Rightarrow> ('p, 'q) native_upid \<Rightarrow> string" where
  "native_node env u =
     (case u of PveUpid p \<Rightarrow> pve_upid_node env p | PbsUpid q \<Rightarrow> pbs_upid_node env q)"

definition parse_native :: "('p, 'q) upid_env \<Rightarrow> remote_upid \<Rightarrow> upid_error + ('p, 'q) native_upid" where
  "parse_native env u =
     (case ru_remote_type u of
        Remote_Pve \<Rightarrow>
          (case parse_pve_upid env (ru_upid u) of
             None \<Rightarrow> Inl (UpidParse (ru_upid u)) | Some p \<Rightarrow> Inr (PveUpid p))
      | Remote_Pbs \<Rightarrow>
          (case parse_pbs_upid env (ru_upid u) of
             None \<Rightarrow> Inl (UpidParse (ru_upid u)) | Some q \<Rightarrow> Inr (PbsUpid q)))"

definition pve_upid :: "('p, 'q) upid_env \<Rightarrow> remote_upid \<Rightarrow> upid_error + 'p" where
  "pve_upid env u =
     (case parse_native env u of
        Inl err \<Rightarrow> Inl err
      | Inr (PveUpid p) \<Rightarrow> Inr p
      | Inr (PbsUpid _) \<Rightarrow> Inl UnexpectedPbs)"

definition pbs_upid :: "('p, 'q) upid_env \<Rightarrow> remote_upid \<Rightarrow> upid_error + 'q" where
  "pbs_upid env u =
     (case parse_native env u of
        Inl err \<Rightarrow> Inl err
      | Inr (PveUpid _) \<Rightarrow> Inl UnexpectedPve
      | Inr (PbsUpid q) \<Rightarrow> Inr q)"

definition deduce_type :: "('p, 'q) upid_env \<Rightarrow> string \<Rightarrow> upid_error + remote_type" where
  "deduce_type env raw =
     (if parse_pve_upid env raw \<noteq> None then Inr Remote_Pve
      else if parse_pbs_upid env raw \<noteq> None then Inr Remote_Pbs
      else Inl (InvalidUpid raw))"

definition upid_from_pair :: "('p, 'q) upid_env \<Rightarrow> string \<Rightarrow> string \<Rightarrow> upid_error + remote_upid" where
  "upid_from_pair env rmt upid =
     (if \<not> safe_id env rmt then Inl BadRemoteId
      else case deduce_type env upid of
             Inl err \<Rightarrow> Inl err
           | Inr ty \<Rightarrow> Inr \<lparr>ru_remote = rmt, ru_remote_type = ty, ru_upid = upid\<rparr>)"

definition upid_from_triple ::
  "('p, 'q) upid_env \<Rightarrow> string \<Rightarrow> string \<Rightarrow> string \<Rightarrow> upid_error + remote_upid" where
  "upid_from_triple env ty rmt upid =
     (if \<not> safe_id env rmt then Inl BadRemoteId
      else case remote_type_from_str ty of
             None \<Rightarrow> Inl (BadRemoteType ty)
           | Some t \<Rightarrow> Inr \<lparr>ru_remote = rmt, ru_remote_type = t, ru_upid = upid\<rparr>)"

definition upid_from_str :: "('p, 'q) upid_env \<Rightarrow> string \<Rightarrow> upid_error + remote_upid" where
  "upid_from_str env s =
     (case split_once (CHR ''!'') s of
        None \<Rightarrow> Inl MissingSeparator
      | Some (remote_and_type, upid) \<Rightarrow>
          (case split_once (CHR '':'') remote_and_type of
             Some (ty, rmt) \<Rightarrow> upid_from_triple env ty rmt upid
           | None \<Rightarrow> upid_from_pair env remote_and_type upid))"

definition upid_display :: "remote_upid \<Rightarrow> string" where
  "upid_display u = remote_type_str (ru_remote_type u) @ '':'' @ ru_remote u @ ''!'' @ ru_upid u"

section \<open>Round trips\<close>

definition safe_ids_plain :: "('p, 'q) upid_env \<Rightarrow> bool" where
  "safe_ids_plain env \<longleftrightarrow> (\<forall>s. safe_id env s \<longrightarrow> CHR ''!'' \<notin> set s \<and> CHR '':'' \<notin> set s)"

lemma remote_type_str_plain [simp]:
  "CHR ''!'' \<notin> set (remote_type_str ty)" "CHR '':'' \<notin> set (remote_type_str ty)"
  by (cases ty; simp add: remote_type_str_def)+

lemma remote_type_from_to_str [simp]: "remote_type_from_str (remote_type_str ty) = Some ty"
  by (cases ty) (simp_all add: remote_type_str_def remote_type_from_str_def)

lemma upid_from_str_typed:
  assumes "CHR ''!'' \<notin> set ty" "CHR '':'' \<notin> set ty" "CHR ''!'' \<notin> set rmt"
  shows "upid_from_str env (ty @ '':'' @ rmt @ ''!'' @ upid) = upid_from_triple env ty rmt upid"
proof -
  have "split_once (CHR ''!'') ((ty @ CHR '':'' # rmt) @ CHR ''!'' # upid) = Some (ty @ CHR '':'' # rmt, upid)"
    using assms by (intro split_once_append) simp
  with assms show ?thesis by (simp add: upid_from_str_def)
qed

lemma upid_from_str_untyped:
  assumes "CHR ''!'' \<notin> set rmt" "CHR '':'' \<notin> set rmt"
  shows "upid_from_str env (rmt @ ''!'' @ upid) = upid_from_pair env rmt upid"
  using assms by (simp add: upid_from_str_def split_once_None_iff [THEN iffD2])

lemma upid_from_str_display:
  assumes "safe_ids_plain env" "safe_id env (ru_remote u)"
  shows "upid_from_str env (upid_display u) = Inr u"
  using assms upid_from_str_typed [of "remote_type_str (ru_remote_type u)" "ru_remote u" env "ru_upid u"]
  by (simp add: upid_display_def safe_ids_plain_def upid_from_triple_def)

lemma upid_from_str_safe: "upid_from_str env s = Inr u \<Longrightarrow> safe_id env (ru_remote u)"
  by (auto simp: upid_from_str_def upid_from_triple_def upid_from_pair_def
      split: option.splits sum.splits if_splits)

lemma upid_display_inj:
  assumes "safe_ids_plain env" "safe_id env (ru_remote u)" "safe_id env (ru_remote v)"
    and "upid_display u = upid_display v"
  shows "u = v"
  using upid_from_str_display [OF assms(1,2)] upid_from_str_display [OF assms(1,3)] assms(4)
  by (metis Inr_inject)

text \<open>C8. The textual form of a remote task id is faithful: printing an id with a safe remote name and
  parsing it gives the id back, parsing then printing then parsing is parsing, the parser also takes the
  older form without a type and then deduces it from the task id, and every id it returns has a safe
  remote name.\<close>

theorem remote_upid_roundtrip:
  assumes "safe_ids_plain env"
  shows "(safe_id env (ru_remote u) \<longrightarrow> upid_from_str env (upid_display u) = Inr u)
    \<and> (upid_from_str env s = Inr v \<longrightarrow>
          safe_id env (ru_remote v) \<and> upid_from_str env (upid_display v) = Inr v)
    \<and> (safe_id env (ru_remote u) \<longrightarrow> deduce_type env (ru_upid u) = Inr (ru_remote_type u) \<longrightarrow>
          upid_from_str env (ru_remote u @ ''!'' @ ru_upid u) = Inr u)"
proof (intro conjI impI)
  show "upid_from_str env (upid_display u) = Inr u" if "safe_id env (ru_remote u)"
    using assms that by (rule upid_from_str_display)
  show safe: "safe_id env (ru_remote v)" if "upid_from_str env s = Inr v"
    using that by (rule upid_from_str_safe)
  show "upid_from_str env (upid_display v) = Inr v" if "upid_from_str env s = Inr v"
    using assms safe [OF that] by (rule upid_from_str_display)
  show "upid_from_str env (ru_remote u @ ''!'' @ ru_upid u) = Inr u"
    if "safe_id env (ru_remote u)" "deduce_type env (ru_upid u) = Inr (ru_remote_type u)"
    using assms that upid_from_str_untyped [of "ru_remote u" env "ru_upid u"]
    by (simp add: safe_ids_plain_def upid_from_pair_def)
qed

definition ex_upid_env :: "(string, string) upid_env" where
  "ex_upid_env = \<lparr>safe_id = (\<lambda>s. s \<noteq> [] \<and> CHR ''!'' \<notin> set s \<and> CHR '':'' \<notin> set s),
     parse_pve_upid = (\<lambda>s. map_option fst (split_once CHR '';'' s)),
     parse_pbs_upid = (\<lambda>s. map_option fst (split_once CHR ''#'' s)),
     pve_upid_node = (\<lambda>n. n), pbs_upid_node = (\<lambda>n. n)\<rparr>"

lemma ex_safe_ids_plain: "safe_ids_plain ex_upid_env"
  by (simp add: safe_ids_plain_def ex_upid_env_def)

theorem remote_upid_roundtrip_witness:
  "upid_from_str ex_upid_env (upid_display \<lparr>ru_remote = ''r1'', ru_remote_type = Remote_Pbs, ru_upid = ''n#1''\<rparr>)
     = Inr \<lparr>ru_remote = ''r1'', ru_remote_type = Remote_Pbs, ru_upid = ''n#1''\<rparr>"
  using remote_upid_roundtrip [OF ex_safe_ids_plain,
      of "\<lparr>ru_remote = ''r1'', ru_remote_type = Remote_Pbs, ru_upid = ''n#1''\<rparr>"]
  by (simp add: ex_upid_env_def)

end
