(* ===== verification/Task_Cache.thy ===== *)
theory Task_Cache
  imports Section_Config Remote_Upid
begin

text \<open>
  The cache of remote tasks, \<open>server/src/remote_tasks/task_cache.rs\<close>. A cache is its
  directory (file names with the lines of each file) and the decoded state file. The JSON coding of
  an item is the record \<open>codec\<close>; a line that cannot be read (an I/O or decompression error) is
  \<open>ReadError\<close>. Writing to a temporary file and renaming it is one replacement of the file.
  Failing system calls other than a missing file are not modelled.
\<close>

section \<open>Items and state\<close>

record task_cache_item =
  ti_upid :: remote_upid
  ti_starttime :: i64
  ti_status :: "string option"
  ti_endtime :: "i64 option"

record task_state =
  ts_remote_state :: "string \<rightharpoonup> string \<rightharpoonup> i64"
  ts_tracked_tasks :: "remote_upid set"

definition default_state :: task_state where
  "default_state = \<lparr>ts_remote_state = Map.empty, ts_tracked_tasks = {}\<rparr>"

definition cutoff_timestamp :: "task_state \<Rightarrow> string \<Rightarrow> string \<Rightarrow> i64 option" where
  "cutoff_timestamp st rmt nod = Option.bind (ts_remote_state st rmt) (\<lambda>ns. ns nod)"

definition state_add_tracked_task :: "remote_upid \<Rightarrow> task_state \<Rightarrow> task_state" where
  "state_add_tracked_task u st = st\<lparr>ts_tracked_tasks := insert u (ts_tracked_tasks st)\<rparr>"

definition remove_tracked_task :: "remote_upid \<Rightarrow> task_state \<Rightarrow> task_state" where
  "remove_tracked_task u st = st\<lparr>ts_tracked_tasks := ts_tracked_tasks st - {u}\<rparr>"

definition update_cutoff_timestamp ::
  "string \<Rightarrow> string \<Rightarrow> (i64 option \<Rightarrow> i64) \<Rightarrow> task_state \<Rightarrow> task_state" where
  "update_cutoff_timestamp rmt nod f st =
     (case ts_remote_state st rmt of
        Some ns \<Rightarrow>
          (case ns nod of
             Some cutoff \<Rightarrow>
               st\<lparr>ts_remote_state := (ts_remote_state st)(rmt \<mapsto> ns(nod \<mapsto> f (Some cutoff)))\<rparr>
           | None \<Rightarrow>
               st\<lparr>ts_remote_state := (ts_remote_state st)(rmt \<mapsto> ns(nod \<mapsto> f None))\<rparr>)
      | None \<Rightarrow> st\<lparr>ts_remote_state := (ts_remote_state st)(rmt \<mapsto> [nod \<mapsto> f None])\<rparr>)"

type_synonym node_success_map = "(string \<times> string) \<rightharpoonup> bool"

definition set_node_success :: "string \<Rightarrow> string \<Rightarrow> node_success_map \<Rightarrow> node_success_map" where
  "set_node_success rmt nod m = m((rmt, nod) \<mapsto> True)"

definition node_successful :: "node_success_map \<Rightarrow> string \<Rightarrow> string \<Rightarrow> bool" where
  "node_successful m rmt nod \<longleftrightarrow> m (rmt, nod) = Some True"

definition merge_success :: "node_success_map \<Rightarrow> node_success_map \<Rightarrow> node_success_map" where
  "merge_success m other = m ++ other"

section \<open>Files\<close>

datatype 'l fline = Line 'l | ReadError

record 'l codec =
  enc :: "task_cache_item \<Rightarrow> 'l"
  dec :: "'l \<Rightarrow> task_cache_item option"
  line_size :: "'l \<Rightarrow> nat"

type_synonym 'l directory = "'l fline list section_config"

record 'l cache =
  c_dir :: "'l directory"
  c_state :: "task_state option"

record cache_cfg =
  cfg_max_files :: nat
  cfg_uncompressed_files :: nat
  cfg_rotate_after :: nat
  cfg_journal_max_size :: nat

definition get_cache :: cache_cfg where
  "get_cache = \<lparr>cfg_max_files = 7, cfg_uncompressed_files = 2, cfg_rotate_after = 24 * 3600,
     cfg_journal_max_size = 5 * 1024 * 1024\<rparr>"

datatype cache_error = FileDisappeared string | JournalMetadata

datatype get_tasks_mode = Get_All | Get_Active | Get_Archived

record archive_file =
  af_name :: string
  af_compressed :: bool
  af_starttime :: i64

datatype archive_file_state = Valid | Corrupted

definition journal_name :: string where "journal_name = ''journal''"

definition archive_path :: "i64 \<Rightarrow> bool \<Rightarrow> string" where
  "archive_path starttime compressed =
     ''archive.'' @ show_i64 starttime @ (if compressed then ''.zst'' else [])"

definition active_file :: archive_file where
  "active_file = \<lparr>af_name = ''active'', af_compressed = False, af_starttime = 0\<rparr>"

definition set_compressed :: "bool \<Rightarrow> archive_file \<Rightarrow> archive_file" where
  "set_compressed compressed f =
     f\<lparr>af_compressed := compressed, af_name := archive_path (af_starttime f) compressed\<rparr>"

definition parse_archive_filename :: "string \<Rightarrow> archive_file option" where
  "parse_archive_filename name =
     (case strip_prefix ''archive.'' name of
        None \<Rightarrow> None
      | Some rest \<Rightarrow>
          (case strip_suffix ''.zst'' rest of
             Some stem \<Rightarrow>
               (case parse_i64 stem of
                  None \<Rightarrow> None
                | Some t \<Rightarrow> Some \<lparr>af_name = name, af_compressed = True, af_starttime = t\<rparr>)
           | None \<Rightarrow>
               (case parse_i64 rest of
                  None \<Rightarrow> None
                | Some t \<Rightarrow> Some \<lparr>af_name = name, af_compressed = False, af_starttime = t\<rparr>)))"

definition compare_archive_files :: "archive_file \<Rightarrow> archive_file \<Rightarrow> ordering" where
  "compare_archive_files a b =
     then_with (cmp (af_starttime b) (af_starttime a)) (cmp (af_compressed b) (af_compressed a))"

definition archive_files_with_dupes :: "'l directory \<Rightarrow> archive_file list" where
  "archive_files_with_dupes dir =
     sort_by compare_archive_files (List.map_filter (\<lambda>(name, _). parse_archive_filename name) dir)"

definition archive_files :: "'l directory \<Rightarrow> archive_file list" where
  "archive_files dir = dedup_by_key af_starttime (archive_files_with_dupes dir)"

section \<open>Reading and merging\<close>

fun archive_iter :: "'l codec \<Rightarrow> 'l fline list \<Rightarrow> task_cache_item option list" where
  "archive_iter cd [] = []"
| "archive_iter cd (Line l # ls) = dec cd l # archive_iter cd ls"
| "archive_iter cd (ReadError # ls) = [None]"

definition readable :: "task_cache_item option list \<Rightarrow> task_cache_item list" where
  "readable items = List.map_filter (\<lambda>i. i) items"

definition file_state_of :: "task_cache_item option list \<Rightarrow> archive_file_state" where
  "file_state_of items = (if None \<in> set items then Corrupted else Valid)"

definition compare_tasks :: "task_cache_item \<Rightarrow> task_cache_item \<Rightarrow> ordering" where
  "compare_tasks a b =
     then_with (cmp (ti_starttime a) (ti_starttime b))
       (cmp (upid_display (ti_upid b)) (upid_display (ti_upid a)))"

definition compare_tasks_reverse :: "task_cache_item \<Rightarrow> task_cache_item \<Rightarrow> ordering" where
  "compare_tasks_reverse a b = compare_tasks b a"

fun merge_tasks :: "task_cache_item list \<Rightarrow> task_cache_item list \<Rightarrow> task_cache_item list" where
  "merge_tasks [] [] = []"
| "merge_tasks (l # ls) [] = l # merge_tasks ls []"
| "merge_tasks [] (r # rs) = r # merge_tasks [] rs"
| "merge_tasks (l # ls) (r # rs) =
     (case compare_tasks l r of
        Greater \<Rightarrow> l # merge_tasks ls (r # rs)
      | Less \<Rightarrow> r # merge_tasks (l # ls) rs
      | Equal \<Rightarrow> l # merge_tasks ls rs)"

definition journal_iter :: "'l codec \<Rightarrow> 'l fline list \<Rightarrow> task_cache_item list" where
  "journal_iter cd ls = dedup (sort_by compare_tasks_reverse (readable (archive_iter cd ls)))"

definition file_items :: "'l codec \<Rightarrow> 'l directory \<Rightarrow> archive_file \<Rightarrow> task_cache_item option list" where
  "file_items cd dir f =
     (case sc_get dir (af_name f) of None \<Rightarrow> [] | Some ls \<Rightarrow> archive_iter cd ls)"

definition inner_task_archive_iter ::
  "'l codec \<Rightarrow> 'l directory \<Rightarrow> archive_file list \<Rightarrow> task_cache_item option list \<times> archive_file list" where
  "inner_task_archive_iter cd dir files =
     (concat (map (file_items cd dir) (rev files)),
      concat (map (\<lambda>f. if af_starttime f \<noteq> 0
                       then replicate (count_list (file_items cd dir f) None) f else [])
                (rev files)))"

definition task_archive_iter ::
  "'l codec \<Rightarrow> 'l directory \<Rightarrow> string option \<Rightarrow> archive_file list \<Rightarrow>
   task_cache_item list \<times> archive_file list" where
  "task_archive_iter cd dir journal files =
     (let (items, corrupted) = inner_task_archive_iter cd dir files
      in (case Option.bind journal (sc_get dir) of
            Some ls \<Rightarrow> merge_tasks (journal_iter cd ls) (readable items)
          | None \<Rightarrow> readable items, corrupted))"

definition get_tasks_impl ::
  "'l codec \<Rightarrow> get_tasks_mode \<Rightarrow> 'l directory \<Rightarrow> task_cache_item list \<times> archive_file list" where
  "get_tasks_impl cd mode dir =
     (case mode of
        Get_All \<Rightarrow> task_archive_iter cd dir (Some journal_name) (rev (archive_files dir) @ [active_file])
      | Get_Active \<Rightarrow> task_archive_iter cd dir None [active_file]
      | Get_Archived \<Rightarrow> task_archive_iter cd dir (Some journal_name) (rev (archive_files dir)))"

definition read_state :: "'l cache \<Rightarrow> task_state" where
  "read_state c = (case c_state c of None \<Rightarrow> default_state | Some st \<Rightarrow> st)"

section \<open>Writing\<close>

definition write_state :: "task_state \<Rightarrow> 'l cache \<Rightarrow> 'l cache" where
  "write_state st c = c\<lparr>c_state := Some st\<rparr>"

definition write_file :: "'l codec \<Rightarrow> archive_file \<Rightarrow> task_cache_item list \<Rightarrow> 'l cache \<Rightarrow> 'l cache" where
  "write_file cd f tasks c =
     c\<lparr>c_dir := sc_insert (af_name f) (map (\<lambda>t. Line (enc cd t)) tasks) (c_dir c)\<rparr>"

definition remove_file :: "archive_file \<Rightarrow> 'l cache \<Rightarrow> 'l cache" where
  "remove_file f c = c\<lparr>c_dir := sc_remove (af_name f) (c_dir c)\<rparr>"

definition write_active_tasks :: "'l codec \<Rightarrow> task_cache_item list \<Rightarrow> 'l cache \<Rightarrow> 'l cache" where
  "write_active_tasks cd tasks c = write_file cd active_file tasks c"

definition new_file :: "'l codec \<Rightarrow> i64 \<Rightarrow> bool \<Rightarrow> 'l cache \<Rightarrow> archive_file \<times> 'l cache" where
  "new_file cd now compress c =
     (let file = \<lparr>af_name = archive_path now compress, af_compressed = compress, af_starttime = now\<rparr>
      in (file, write_file cd file [] c))"

fun init_loop :: "'l codec \<Rightarrow> cache_cfg \<Rightarrow> i64 \<Rightarrow> nat list \<Rightarrow> 'l cache \<Rightarrow> 'l cache" where
  "init_loop cd cfg now [] c = c"
| "init_loop cd cfg now (i # is) c =
     init_loop cd cfg now is
       (snd (new_file cd (wrap_i64 (now - wrap_i64 (int (i * cfg_rotate_after cfg))))
               (cfg_uncompressed_files cfg \<le> i) c))"

definition init :: "'l codec \<Rightarrow> cache_cfg \<Rightarrow> i64 \<Rightarrow> 'l cache \<Rightarrow> 'l cache" where
  "init cd cfg now c =
     (if archive_files (c_dir c) = [] then init_loop cd cfg now [0..<cfg_max_files cfg] c else c)"

definition request_repair :: "archive_file list \<Rightarrow> 'l cache \<Rightarrow> 'l cache" where
  "request_repair corrupted c =
     (case corrupted of
        [] \<Rightarrow> c
      | _ \<Rightarrow>
          let reset_cutoff = Min (set (map af_starttime corrupted));
              st = read_state c
          in write_state
               (st\<lparr>ts_remote_state := (\<lambda>rmt. map_option (\<lambda>ns nod. map_option (\<lambda>cut. min cut reset_cutoff) (ns nod))
                                          (ts_remote_state st rmt))\<rparr>) c)"

definition merge_single_archive_file ::
  "'l codec \<Rightarrow> task_cache_item list \<Rightarrow> archive_file \<Rightarrow> 'l cache \<Rightarrow>
   cache_error + (archive_file_state \<times> 'l cache)" where
  "merge_single_archive_file cd tasks f c =
     (if tasks = [] then Inr (Valid, c)
      else (case sc_get (c_dir c) (af_name f) of
         None \<Rightarrow> Inl (FileDisappeared (af_name f))
       | Some ls \<Rightarrow>
           let items = archive_iter cd ls
           in Inr (file_state_of items, write_file cd f (merge_tasks (readable items) tasks) c)))"

definition note_corrupted :: "archive_file_state \<Rightarrow> archive_file \<Rightarrow> archive_file list \<Rightarrow> archive_file list" where
  "note_corrupted st f corrupted = (if st = Corrupted then corrupted @ [f] else corrupted)"

record 'l merge_state =
  ms_current :: "archive_file option"
  ms_files :: "archive_file list"
  ms_tasks :: "task_cache_item list"
  ms_corrupted :: "archive_file list"
  ms_cache :: "'l cache"

function skip_ahead ::
  "'l codec \<Rightarrow> task_cache_item \<Rightarrow> 'l merge_state \<Rightarrow> cache_error + 'l merge_state" where
  "skip_ahead cd t s =
     (case ms_files s of
        [] \<Rightarrow> Inr s
      | f # fs \<Rightarrow>
          (case ms_current s of
             Some cur \<Rightarrow>
               if af_starttime cur \<le> ti_starttime t then Inr s
               else (case merge_single_archive_file cd (ms_tasks s) cur (ms_cache s) of
                  Inl err \<Rightarrow> Inl err
                | Inr (st, c) \<Rightarrow>
                    skip_ahead cd t
                      (s\<lparr>ms_current := Some f, ms_files := fs, ms_tasks := [],
                         ms_corrupted := note_corrupted st cur (ms_corrupted s), ms_cache := c\<rparr>))
           | None \<Rightarrow> skip_ahead cd t (s\<lparr>ms_current := Some f, ms_files := fs\<rparr>)))"
  by pat_completeness auto
termination
  by (relation "measure (\<lambda>(_, _, s). length (ms_files s))") auto

declare skip_ahead.simps [simp del]

definition push_task :: "task_cache_item \<Rightarrow> 'l merge_state \<Rightarrow> 'l merge_state" where
  "push_task t s =
     (case ms_current s of
        Some cur \<Rightarrow> if ti_starttime t < af_starttime cur then s else s\<lparr>ms_tasks := ms_tasks s @ [t]\<rparr>
      | None \<Rightarrow> s\<lparr>ms_tasks := ms_tasks s @ [t]\<rparr>)"

fun merge_loop ::
  "'l codec \<Rightarrow> task_cache_item list \<Rightarrow> 'l merge_state \<Rightarrow> cache_error + 'l merge_state" where
  "merge_loop cd [] s = Inr s"
| "merge_loop cd (t # ts) s = and_then (skip_ahead cd t s) (\<lambda>s. merge_loop cd ts (push_task t s))"

definition merge_tasks_into_archive ::
  "'l codec \<Rightarrow> task_cache_item list \<Rightarrow> 'l cache \<Rightarrow> cache_error + (archive_file list \<times> 'l cache)" where
  "merge_tasks_into_archive cd tasks c =
     (let files = archive_files (c_dir c);
          start = \<lparr>ms_current = (case files of [] \<Rightarrow> None | f # _ \<Rightarrow> Some f), ms_files = tl files,
                   ms_tasks = [], ms_corrupted = [], ms_cache = c\<rparr>
      in and_then (merge_loop cd tasks start)
           (\<lambda>s. case ms_current s of
                   Some cur \<Rightarrow>
                     and_then (merge_single_archive_file cd (ms_tasks s) cur (ms_cache s))
                       (\<lambda>(st, c). Inr (note_corrupted st cur (ms_corrupted s), c))
                 | None \<Rightarrow> Inr (ms_corrupted s, ms_cache s)))"

definition apply_journal :: "'l codec \<Rightarrow> 'l cache \<Rightarrow> cache_error + 'l cache" where
  "apply_journal cd c =
     (case sc_get (c_dir c) journal_name of
        None \<Rightarrow> Inr c
      | Some ls \<Rightarrow>
          let tasks = dedup (sort_by compare_tasks_reverse (readable (archive_iter cd ls)))
          in and_then (merge_tasks_into_archive cd tasks c)
               (\<lambda>(corrupted, c).
                  let c = c\<lparr>c_dir := sc_insert journal_name [] (c_dir c)\<rparr>
                  in Inr (if corrupted \<noteq> [] then request_repair corrupted c else c)))"

fun fline_size :: "'l codec \<Rightarrow> 'l fline \<Rightarrow> nat" where
  "fline_size cd (Line l) = line_size cd l + 1"
| "fline_size cd ReadError = 0"

definition journal_size :: "'l codec \<Rightarrow> 'l cache \<Rightarrow> cache_error + nat" where
  "journal_size cd c =
     (case sc_get (c_dir c) journal_name of
        None \<Rightarrow> Inl JournalMetadata
      | Some ls \<Rightarrow> Inr (sum_list (map (fline_size cd) ls)))"

definition apply_journal_if_too_large :: "'l codec \<Rightarrow> cache_cfg \<Rightarrow> 'l cache \<Rightarrow> cache_error + 'l cache" where
  "apply_journal_if_too_large cd cfg c =
     and_then (journal_size cd c)
       (\<lambda>size. if cfg_journal_max_size cfg < size then apply_journal cd c else Inr c)"

definition compress_archive_file ::
  "'l codec \<Rightarrow> archive_file \<Rightarrow> 'l cache \<Rightarrow> cache_error + (archive_file_state \<times> 'l cache)" where
  "compress_archive_file cd f c =
     (case sc_get (c_dir c) (af_name f) of
        None \<Rightarrow> Inl (FileDisappeared (af_name f))
      | Some ls \<Rightarrow>
          let items = archive_iter cd ls
          in Inr (file_state_of items,
                  remove_file f (write_file cd (set_compressed True f) (readable items) c)))"

section \<open>Rotation\<close>

fun drop_dupes :: "i64 set \<Rightarrow> archive_file list \<Rightarrow> 'l cache \<Rightarrow> archive_file list \<times> 'l cache" where
  "drop_dupes seen [] c = ([], c)"
| "drop_dupes seen (f # fs) c =
     (if af_starttime f \<notin> seen
      then (let (files, c') = drop_dupes (insert (af_starttime f) seen) fs c in (f # files, c'))
      else drop_dupes seen fs (remove_file f c))"

function trim_files :: "nat \<Rightarrow> archive_file list \<Rightarrow> 'l cache \<Rightarrow> archive_file list \<times> 'l cache" where
  "trim_files max_files files c =
     (if max_files < length files
      then trim_files max_files (butlast files) (remove_file (last files) c)
      else (files, c))"
  by pat_completeness auto
termination
  by (relation "measure (\<lambda>(_, files, _). length files)") auto

declare trim_files.simps [simp del]

fun compress_files ::
  "'l codec \<Rightarrow> archive_file list \<Rightarrow> 'l cache \<Rightarrow> cache_error + (archive_file list \<times> 'l cache)" where
  "compress_files cd [] c = Inr ([], c)"
| "compress_files cd (f # fs) c =
     (if af_compressed f then compress_files cd fs c
      else and_then (compress_archive_file cd f c)
             (\<lambda>(st, c). and_then (compress_files cd fs c)
                (\<lambda>(corrupted, c). Inr (if st = Corrupted then f # corrupted else corrupted, c))))"

definition start_new_file ::
  "'l codec \<Rightarrow> cache_cfg \<Rightarrow> i64 \<Rightarrow> archive_file list \<Rightarrow> 'l cache \<Rightarrow>
   cache_error + (archive_file list \<times> 'l cache)" where
  "start_new_file cd cfg now files c =
     (let (file, c) = new_file cd now (cfg_uncompressed_files cfg = 0) c
      in and_then (apply_journal cd c) (\<lambda>c. Inr (file # files, c)))"

definition needs_rotation :: "cache_cfg \<Rightarrow> i64 \<Rightarrow> archive_file list \<Rightarrow> bool" where
  "needs_rotation cfg now files =
     (case files of
        [] \<Rightarrow> True
      | bound # _ \<Rightarrow>
          af_starttime bound < now
          \<and> wrap_i64 (int (cfg_rotate_after cfg)) \<le> wrap_i64 (now - af_starttime bound))"

definition rotate_archive :: "'l codec \<Rightarrow> cache_cfg \<Rightarrow> i64 \<Rightarrow> 'l cache \<Rightarrow> cache_error + (bool \<times> 'l cache)" where
  "rotate_archive cd cfg now c =
     (let (files, c) = drop_dupes {} (archive_files_with_dupes (c_dir c)) c;
          did_rotate = needs_rotation cfg now files
      in and_then (if did_rotate then start_new_file cd cfg now files c else Inr (files, c))
           (\<lambda>(files, c).
              let (files, c) = trim_files (cfg_max_files cfg) files c
              in and_then (compress_files cd (drop (cfg_uncompressed_files cfg) files) c)
                   (\<lambda>(corrupted, c).
                      Inr (did_rotate, if corrupted \<noteq> [] then request_repair corrupted c else c))))"

section \<open>Updates\<close>

type_synonym active_map = "(remote_upid \<times> task_cache_item) list"

fun active_insert :: "task_cache_item \<Rightarrow> active_map \<Rightarrow> active_map" where
  "active_insert t [] = [(ti_upid t, t)]"
| "active_insert t ((u, t') # m) = (if u = ti_upid t then (u, t) # m else (u, t') # active_insert t m)"

definition active_remove :: "remote_upid \<Rightarrow> active_map \<Rightarrow> active_map" where
  "active_remove u m = filter (\<lambda>(u', _). u' \<noteq> u) m"

definition task_node :: "('p, 'q) upid_env \<Rightarrow> task_cache_item \<Rightarrow> string option" where
  "task_node ue t =
     (case parse_native ue (ti_upid t) of
        Inl _ \<Rightarrow> None
      | Inr native \<Rightarrow>
          Some (case ru_remote_type (ti_upid t) of
                  Remote_Pve \<Rightarrow> native_node ue native
                | Remote_Pbs \<Rightarrow> ''localhost''))"

definition bump_cutoff ::
  "(i64 option \<Rightarrow> i64) \<Rightarrow> node_success_map \<Rightarrow> string \<Rightarrow> string \<Rightarrow> task_state \<Rightarrow> task_state" where
  "bump_cutoff f success rmt nod st =
     (if node_successful success rmt nod then update_cutoff_timestamp rmt nod f st else st)"

fun journal_finished ::
  "('p, 'q) upid_env \<Rightarrow> 'l codec \<Rightarrow> node_success_map \<Rightarrow> task_cache_item list \<Rightarrow>
   'l fline list \<times> active_map \<times> task_state \<Rightarrow> 'l fline list \<times> active_map \<times> task_state" where
  "journal_finished ue cd success [] s = s"
| "journal_finished ue cd success (t # ts) (lines, active, st) =
     (let active = active_remove (ti_upid t) active
      in case task_node ue t of
           None \<Rightarrow> journal_finished ue cd success ts (lines, active, st)
         | Some nod \<Rightarrow>
             journal_finished ue cd success ts
               (lines @ [Line (enc cd t)], active,
                bump_cutoff (\<lambda>existing. max (case existing of None \<Rightarrow> 0 | Some x \<Rightarrow> x) (ti_starttime t))
                  success (ru_remote (ti_upid t)) nod st))"

fun lower_cutoffs ::
  "('p, 'q) upid_env \<Rightarrow> node_success_map \<Rightarrow> task_cache_item list \<Rightarrow> task_state \<Rightarrow> task_state" where
  "lower_cutoffs ue success [] st = st"
| "lower_cutoffs ue success (t # ts) st =
     (case task_node ue t of
        None \<Rightarrow> lower_cutoffs ue success ts st
      | Some nod \<Rightarrow>
          lower_cutoffs ue success ts
            (bump_cutoff (\<lambda>existing. min (case existing of None \<Rightarrow> i64_max | Some x \<Rightarrow> x) (ti_starttime t))
               success (ru_remote (ti_upid t)) nod st))"

definition write_tasks_to_journal ::
  "('p, 'q) upid_env \<Rightarrow> 'l codec \<Rightarrow> node_success_map \<Rightarrow> task_cache_item list \<Rightarrow> active_map \<Rightarrow>
   task_state \<Rightarrow> 'l cache \<Rightarrow> active_map \<times> task_state \<times> 'l cache" where
  "write_tasks_to_journal ue cd success finished active st c =
     (let old = (case sc_get (c_dir c) journal_name of None \<Rightarrow> [] | Some ls \<Rightarrow> ls);
          (lines, active, st) = journal_finished ue cd success finished (old, active, st)
      in (active, lower_cutoffs ue success (map snd active) st,
          c\<lparr>c_dir := sc_insert journal_name lines (c_dir c)\<rparr>))"

definition cached_active :: "'l codec \<Rightarrow> 'l cache \<Rightarrow> task_cache_item list" where
  "cached_active cd c = fst (get_tasks_impl cd Get_Active (c_dir c))"

definition update ::
  "('p, 'q) upid_env \<Rightarrow> 'l codec \<Rightarrow> cache_cfg \<Rightarrow> task_cache_item list \<Rightarrow> node_success_map \<Rightarrow>
   remote_upid set \<Rightarrow> 'l cache \<Rightarrow> cache_error + 'l cache" where
  "update ue cd cfg new_tasks success drop_tracked c =
     (let kept = fold active_insert (filter (\<lambda>t. ti_upid t \<notin> drop_tracked) (cached_active cd c)) [];
          active = fold active_insert (filter (\<lambda>t. ti_endtime t = None) new_tasks) kept;
          finished = filter (\<lambda>t. ti_endtime t \<noteq> None) new_tasks;
          st = read_state c;
          st = st\<lparr>ts_tracked_tasks := ts_tracked_tasks st - drop_tracked\<rparr>;
          (active, st, c) = write_tasks_to_journal ue cd success finished active st c;
          c = write_active_tasks cd (sort_by compare_tasks_reverse (map snd active)) c
      in apply_journal_if_too_large cd cfg (write_state st c))"

definition add_tracked_task :: "'l codec \<Rightarrow> task_cache_item \<Rightarrow> 'l cache \<Rightarrow> 'l cache" where
  "add_tracked_task cd t c =
     (let st = read_state c;
          tasks = sort_by compare_tasks_reverse (cached_active cd c @ [t])
      in write_state (state_add_tracked_task (ti_upid t) st) (write_active_tasks cd tasks c))"

end
