(* ===== verification/Task_Merge.thy ===== *)
theory Task_Merge
  imports Task_Cache
begin

text \<open>
  The order of tasks and archive files, the merging iterator, and how the tasks of the journal are
  distributed over the archive files: the loop of \<open>merge_tasks_into_archive\<close> with its look-ahead
  is shown equal to a recursion over the files, and that to a statement per file.
\<close>

section \<open>The order of tasks\<close>

definition task_key :: "task_cache_item \<Rightarrow> int \<times> string" where
  "task_key t = (- ti_starttime t, upid_display (ti_upid t))"

definition file_key :: "archive_file \<Rightarrow> int \<times> bool" where
  "file_key f = (- af_starttime f, \<not> af_compressed f)"

lemma compare_tasks_key: "compare_tasks a b = cmp (task_key b) (task_key a)"
  by (auto simp: compare_tasks_def then_with_def cmp_def task_key_def less_prod_def split: ordering.splits)

interpretation task_order: key_comparator compare_tasks_reverse task_key
  by unfold_locales (simp add: compare_tasks_reverse_def compare_tasks_key)

interpretation file_order: key_comparator compare_archive_files file_key
  by unfold_locales
    (auto simp: compare_archive_files_def then_with_def cmp_def file_key_def less_prod_def split: ordering.splits)

abbreviation tasks_sorted :: "task_cache_item list \<Rightarrow> bool" where
  "tasks_sorted \<equiv> sorted_wrt (\<lambda>a b. task_key a \<le> task_key b)"

abbreviation tasks_strict :: "task_cache_item list \<Rightarrow> bool" where
  "tasks_strict \<equiv> sorted_wrt (\<lambda>a b. task_key a < task_key b)"

section \<open>Merging\<close>

lemma merge_Nil [simp]: "merge_tasks l [] = l" "merge_tasks [] r = r"
proof -
  show "merge_tasks l [] = l" by (induction l) simp_all
  show "merge_tasks [] r = r" by (induction r) simp_all
qed

lemma merge_Cons:
  "merge_tasks (l # ls) (r # rs) =
     (if task_key l < task_key r then l # merge_tasks ls (r # rs)
      else if task_key r < task_key l then r # merge_tasks (l # ls) rs
      else l # merge_tasks ls rs)"
  by (auto simp: compare_tasks_key cmp_def)

declare merge_tasks.simps [simp del]
declare merge_Cons [simp]

lemma merge_induct [case_names Left_Nil Right_Nil Left Right Both]:
  assumes "\<And>r. P [] r" "\<And>l. P l []"
    and "\<And>l ls r rs. task_key l < task_key r \<Longrightarrow> P ls (r # rs) \<Longrightarrow> P (l # ls) (r # rs)"
    and "\<And>l ls r rs. task_key r < task_key l \<Longrightarrow> P (l # ls) rs \<Longrightarrow> P (l # ls) (r # rs)"
    and "\<And>l ls r rs. task_key l = task_key r \<Longrightarrow> P ls rs \<Longrightarrow> P (l # ls) (r # rs)"
  shows "P l r"
proof (induction l r rule: merge_tasks.induct)
  case (4 l ls r rs)
  then show ?case
    using assms(3-5) by (cases "task_key l" "task_key r" rule: linorder_cases) (simp_all add: compare_tasks_key)
qed (use assms in simp_all)

lemma set_merge_left: "set l \<subseteq> set (merge_tasks l r)"
  by (induction l r rule: merge_induct) auto

lemma set_merge_sub: "set (merge_tasks l r) \<subseteq> set l \<union> set r"
  by (induction l r rule: merge_induct) auto

lemma keys_merge: "task_key ` set (merge_tasks l r) = task_key ` set l \<union> task_key ` set r"
  by (induction l r rule: merge_induct) auto

lemma merge_sorted:
  "tasks_sorted l \<Longrightarrow> tasks_sorted r \<Longrightarrow> tasks_sorted (merge_tasks l r)"
proof (induction l r rule: merge_induct)
  case (Left l ls r rs)
  then show ?case using set_merge_sub [of ls "r # rs"] by fastforce
next
  case (Right l ls r rs)
  then show ?case using set_merge_sub [of "l # ls" rs] by fastforce
next
  case (Both l ls r rs)
  then show ?case using set_merge_sub [of ls rs] by fastforce
qed simp_all

lemma merge_strict:
  "tasks_strict l \<Longrightarrow> tasks_strict r \<Longrightarrow> tasks_strict (merge_tasks l r)"
proof (induction l r rule: merge_induct)
  case (Left l ls r rs)
  then show ?case using set_merge_sub [of ls "r # rs"] by fastforce
next
  case (Right l ls r rs)
  then show ?case using set_merge_sub [of "l # ls" rs] by fastforce
next
  case (Both l ls r rs)
  then show ?case using set_merge_sub [of ls rs] by fastforce
qed simp_all

lemma set_merge_strict:
  "tasks_strict l \<Longrightarrow> tasks_strict r \<Longrightarrow>
     set (merge_tasks l r) = set l \<union> {t \<in> set r. task_key t \<notin> task_key ` set l}"
proof (induction l r rule: merge_induct)
  case (Left l ls r rs)
  then have "task_key l \<notin> task_key ` set (r # rs)" by fastforce
  with Left show ?case by auto
next
  case (Right l ls r rs)
  then have "task_key r \<notin> task_key ` set (l # ls)" by fastforce
  with Right show ?case by auto
next
  case (Both l ls r rs)
  then have "task_key l \<notin> task_key ` set rs" by auto
  with Both show ?case by auto
qed auto

lemma strict_unique:
  assumes "tasks_strict xs" "tasks_strict ys" "set xs = set ys"
  shows "xs = ys"
proof -
  have "irreflp (\<lambda>a b. task_key a < task_key b)" by (simp add: irreflp_def)
  moreover have "asymp (\<lambda>a b. task_key a < task_key b)" by (auto intro: asympI)
  ultimately have s: "sorted_wrt (<) (map task_key xs)" "sorted_wrt (<) (map task_key ys)"
    using assms by (simp_all add: sorted_wrt_map)
  then have "map task_key xs = map task_key ys"
    using assms(3) by (metis set_map sorted_list_of_set_nonempty strict_sorted_equal)
  moreover have "inj_on task_key (set xs)"
    using s(1) by (metis distinct_map strict_sorted_iff)
  ultimately show ?thesis using assms(3) by (simp add: inj_on_map_eq_map)
qed

section \<open>Archive files\<close>

lemma show_i64_chars: "c \<in> set (show_i64 t) \<Longrightarrow> is_ascii_digit c \<or> c = CHR ''-''"
  using show_nat_digits by (auto simp: show_i64_def list_all_iff split: if_splits)

lemma strip_suffix_show: "strip_suffix ''.zst'' (show_i64 t) = None"
proof (rule ccontr)
  assume "strip_suffix ''.zst'' (show_i64 t) \<noteq> None"
  then obtain r where "show_i64 t = r @ ''.zst''" by (auto simp: strip_suffix_Some_iff)
  then have "CHR ''t'' \<in> set (show_i64 t)" by simp
  from show_i64_chars [OF this] show False by (auto simp: is_ascii_digit_def digit_val_def)
qed

lemma parse_archive_path:
  assumes "i64_range t"
  shows "parse_archive_filename (archive_path t compressed)
    = Some \<lparr>af_name = archive_path t compressed, af_compressed = compressed, af_starttime = t\<rparr>"
  using assms
  by (cases compressed) (simp_all add: parse_archive_filename_def archive_path_def parse_i64_show strip_suffix_show
    del: append.simps strip_prefix.simps)

lemma parse_archive_name: "parse_archive_filename name = Some f \<Longrightarrow> af_name f = name"
  by (auto simp: parse_archive_filename_def split: option.splits)

lemma parse_archive_other [simp]:
  "parse_archive_filename journal_name = None" "parse_archive_filename ''active'' = None"
  by (simp_all add: parse_archive_filename_def journal_name_def)

lemma set_map_filter_fst:
  "f \<in> set (List.map_filter (\<lambda>(name, _). p name) dir) \<longleftrightarrow> (\<exists>name \<in> fst ` set dir. p name = Some f)"
  by (induction dir) (auto simp: List.map_filter_simps split: option.splits)

lemma set_files_with_dupes:
  "f \<in> set (archive_files_with_dupes dir) \<longleftrightarrow> af_name f \<in> fst ` set dir \<and> parse_archive_filename (af_name f) = Some f"
  unfolding archive_files_with_dupes_def file_order.set_sort_by set_map_filter_fst
  using parse_archive_name by (metis (no_types, lifting))

lemma strictly_dedup_by_key:
  fixes g :: "'a \<Rightarrow> 'k::linorder"
  shows "sorted_wrt (\<lambda>a b. g a \<le> g b) xs \<Longrightarrow> sorted_wrt (\<lambda>a b. g a < g b) (dedup_by_key g xs)"
proof (induction g xs rule: dedup_by_key.induct)
  case (3 f x y ys)
  show ?case
  proof (cases "f x = f y")
    case False
    with 3(3) have "f x < f y" by (simp add: less_le)
    moreover have "f y \<le> f z" if "z \<in> set (dedup_by_key f (y # ys))" for z
      using 3(3) that set_dedup_by_key_subset [of f "y # ys"] by auto
    ultimately show ?thesis using 3 False by force
  qed (use 3 in simp)
qed simp_all

lemma dedup_by_key_cong: "(\<And>x y. f x = f y \<longleftrightarrow> g x = g y) \<Longrightarrow> dedup_by_key f xs = dedup_by_key g xs"
  by (induction f xs rule: dedup_by_key.induct) auto

definition files_desc :: "archive_file list \<Rightarrow> bool" where
  "files_desc fs \<longleftrightarrow> sorted_wrt (\<lambda>a b. af_starttime b < af_starttime a) fs"

lemma archive_files_desc: "files_desc (archive_files dir)"
proof -
  have "sorted_wrt (\<lambda>a b. file_key a \<le> file_key b) (archive_files_with_dupes dir)"
    unfolding archive_files_with_dupes_def by (rule file_order.sorted_sort_by)
  then have "sorted_wrt (\<lambda>a b. - af_starttime a \<le> - af_starttime b) (archive_files_with_dupes dir)"
    by (rule sorted_wrt_mono_rel [rotated]) (auto simp: file_key_def less_eq_prod_def)
  from strictly_dedup_by_key [OF this] show ?thesis
    unfolding files_desc_def archive_files_def
    by (subst dedup_by_key_cong [of af_starttime "\<lambda>f. - af_starttime f"]) simp_all
qed

lemma set_archive_files:
  "f \<in> set (archive_files dir) \<Longrightarrow> af_name f \<in> fst ` set dir \<and> parse_archive_filename (af_name f) = Some f"
  unfolding archive_files_def set_files_with_dupes [symmetric]
  by (rule subsetD [OF set_dedup_by_key_subset])

lemma archive_files_starttimes:
  "af_starttime ` set (archive_files dir) = af_starttime ` set (archive_files_with_dupes dir)"
  unfolding archive_files_def by (rule keys_dedup_by_key)

lemma files_desc_distinct: "files_desc fs \<Longrightarrow> distinct (map af_starttime fs)"
  unfolding files_desc_def by (induction fs) auto

lemma distinct_archive_names: "distinct (map af_name (archive_files dir))"
  using files_desc_distinct [OF archive_files_desc [of dir]] set_archive_files [of _ dir]
  unfolding distinct_map inj_on_def by (metis option.inject)

section \<open>Distributing tasks over the archive files\<close>

fun merge_into ::
  "'l codec \<Rightarrow> archive_file list \<Rightarrow> task_cache_item list \<Rightarrow> 'l cache \<Rightarrow>
   cache_error + (archive_file list \<times> 'l cache)" where
  "merge_into cd [] ts c = Inr ([], c)"
| "merge_into cd (f # fs) ts c =
     and_then (merge_single_archive_file cd (filter (\<lambda>t. af_starttime f \<le> ti_starttime t) ts) f c)
       (\<lambda>(st, c). and_then (merge_into cd fs (filter (\<lambda>t. ti_starttime t < af_starttime f) ts) c)
          (\<lambda>(cor, c). Inr (if st = Corrupted then f # cor else cor, c)))"

definition finish_merge :: "'l codec \<Rightarrow> 'l merge_state \<Rightarrow> cache_error + (archive_file list \<times> 'l cache)" where
  "finish_merge cd s =
     (case ms_current s of
        Some cur \<Rightarrow>
          and_then (merge_single_archive_file cd (ms_tasks s) cur (ms_cache s))
            (\<lambda>(st, c). Inr (note_corrupted st cur (ms_corrupted s), c))
      | None \<Rightarrow> Inr (ms_corrupted s, ms_cache s))"

definition prefix_corrupted :: "archive_file list \<Rightarrow> cache_error + (archive_file list \<times> 'l cache) \<Rightarrow>
   cache_error + (archive_file list \<times> 'l cache)" where
  "prefix_corrupted cor r = and_then r (\<lambda>(cor', c). Inr (cor @ cor', c))"

abbreviation newest_first :: "task_cache_item list \<Rightarrow> bool" where
  "newest_first \<equiv> sorted_wrt (\<lambda>a b. ti_starttime b \<le> ti_starttime a)"

lemma filter_own_closed:
  assumes "newest_first (bucket @ t # ts)" "ti_starttime t < (b::int)" "\<forall>x \<in> set bucket. b \<le> ti_starttime x"
  shows "filter (\<lambda>t. b \<le> ti_starttime t) (bucket @ t # ts) = bucket"
    and "filter (\<lambda>t. ti_starttime t < b) (bucket @ t # ts) = t # ts"
proof -
  have "\<forall>x \<in> set (t # ts). ti_starttime x < b" using assms(1,2) by (fastforce simp: sorted_wrt_append)
  then show "filter (\<lambda>t. b \<le> ti_starttime t) (bucket @ t # ts) = bucket"
    and "filter (\<lambda>t. ti_starttime t < b) (bucket @ t # ts) = t # ts"
    using assms(3) by (auto simp: filter_empty_conv filter_id_conv not_le not_less)
qed

lemma merge_into_no_tasks: "merge_into cd fs [] c = Inr ([], c)"
  by (induction fs arbitrary: c) (simp_all add: merge_single_archive_file_def)

lemma skip_ahead_stay:
  "ms_current s = Some cur \<Longrightarrow> ms_files s = [] \<or> af_starttime cur \<le> ti_starttime t \<Longrightarrow> skip_ahead cd t s = Inr s"
  by (auto simp: skip_ahead.simps split: list.splits)

lemma skip_ahead_move:
  assumes "ms_current s = Some cur" "ms_files s = f # fs" "ti_starttime t < af_starttime cur"
  shows "skip_ahead cd t s =
     and_then (merge_single_archive_file cd (ms_tasks s) cur (ms_cache s))
       (\<lambda>(st, c). skip_ahead cd t (s\<lparr>ms_current := Some f, ms_files := fs, ms_tasks := [],
                         ms_corrupted := note_corrupted st cur (ms_corrupted s), ms_cache := c\<rparr>))"
  using assms
  by (subst skip_ahead.simps) (auto simp: and_then_def split: sum.splits prod.splits)

lemma push_task_own:
  "ms_current s = Some cur \<Longrightarrow> af_starttime cur \<le> ti_starttime t \<Longrightarrow>
     push_task t s = s\<lparr>ms_tasks := ms_tasks s @ [t]\<rparr>"
  by (simp add: push_task_def)

lemma push_task_old: "ms_current s = Some cur \<Longrightarrow> ti_starttime t < af_starttime cur \<Longrightarrow> push_task t s = s"
  by (simp add: push_task_def)

lemma and_then_assoc: "and_then (and_then r f) g = and_then r (\<lambda>x. and_then (f x) g)"
  by (cases r) simp_all

lemma prefix_note_corrupted:
  "prefix_corrupted (note_corrupted st f cor) r =
     prefix_corrupted cor (and_then r (\<lambda>(cor', c). Inr (if st = Corrupted then f # cor' else cor', c)))"
  by (cases r) (auto simp: prefix_corrupted_def note_corrupted_def)

lemma merge_loop_into:
  assumes "newest_first (ms_tasks s @ ts)" "ms_current s = Some cur"
    and "\<forall>x \<in> set (ms_tasks s). af_starttime cur \<le> ti_starttime x"
  shows "and_then (merge_loop cd ts s) (finish_merge cd)
    = prefix_corrupted (ms_corrupted s) (merge_into cd (cur # ms_files s) (ms_tasks s @ ts) (ms_cache s))"
  using assms
proof (induction ts arbitrary: s cur)
  case Nil
  have "filter (\<lambda>t. af_starttime cur \<le> ti_starttime t) (ms_tasks s) = ms_tasks s"
    "filter (\<lambda>t. ti_starttime t < af_starttime cur) (ms_tasks s) = []"
    using Nil(3) by (auto simp: filter_id_conv filter_empty_conv)
  with Nil(2) show ?case
    by (cases "merge_single_archive_file cd (ms_tasks s) cur (ms_cache s)")
      (auto simp: finish_merge_def prefix_corrupted_def merge_into_no_tasks note_corrupted_def)
next
  case (Cons t ts)
  note outer = Cons.IH
  have stay: "and_then (merge_loop cd (t # ts) s) (finish_merge cd)
    = prefix_corrupted (ms_corrupted s) (merge_into cd (cur # ms_files s) (ms_tasks s @ t # ts) (ms_cache s))"
    if own: "af_starttime cur \<le> ti_starttime t" and nf: "newest_first (ms_tasks s @ t # ts)"
      and cur: "ms_current s = Some cur" and b: "\<forall>x \<in> set (ms_tasks s). af_starttime cur \<le> ti_starttime x" for s cur
    using skip_ahead_stay [OF cur] push_task_own [OF cur own] own b nf cur
      outer [of "s\<lparr>ms_tasks := ms_tasks s @ [t]\<rparr>" cur]
    by simp
  from Cons.prems show ?case
  proof (induction "ms_files s" arbitrary: s cur)
    case Nil
    show ?case
    proof (cases "af_starttime cur \<le> ti_starttime t")
      case False
      then have old: "ti_starttime t < af_starttime cur" by simp
      have nf: "newest_first (ms_tasks s @ ts)" using Nil.prems(1) by (simp add: sorted_wrt_append)
      have "merge_into cd [cur] (ms_tasks s @ t # ts) c = merge_into cd [cur] (ms_tasks s @ ts) c" for c
        using old by simp
      with outer [OF nf Nil.prems(2,3)] Nil.hyps old show ?thesis
        using skip_ahead_stay [OF Nil.prems(2)] push_task_old [OF Nil.prems(2) old] by simp
    qed (use stay Nil.prems in blast)
  next
    case (Cons f fs)
    show ?case
    proof (cases "af_starttime cur \<le> ti_starttime t")
      case False
      then have old: "ti_starttime t < af_starttime cur" by simp
      let ?next = "\<lambda>st c. s\<lparr>ms_current := Some f, ms_files := fs, ms_tasks := [],
                         ms_corrupted := note_corrupted st cur (ms_corrupted s), ms_cache := c\<rparr>"
      have ih: "and_then (merge_loop cd (t # ts) (?next st c)) (finish_merge cd) =
         prefix_corrupted (note_corrupted st cur (ms_corrupted s)) (merge_into cd (f # fs) (t # ts) c)" for st c
        using Cons(1) [of "?next st c" f] Cons.prems(1) by (simp add: sorted_wrt_append)
      have own: "filter (\<lambda>t. af_starttime cur \<le> ti_starttime t) (ms_tasks s @ t # ts) = ms_tasks s"
        "filter (\<lambda>t. ti_starttime t < af_starttime cur) (ms_tasks s @ t # ts) = t # ts"
        using filter_own_closed [OF Cons.prems(1) old Cons.prems(3)] by blast+
      show ?thesis
        unfolding merge_loop.simps skip_ahead_move [OF Cons.prems(2) Cons(2) [symmetric] old]
          Cons(2) [symmetric] merge_into.simps(2) [of cd cur] own
        using ih unfolding merge_loop.simps prefix_note_corrupted
        by (cases "merge_single_archive_file cd (ms_tasks s) cur (ms_cache s)")
          (auto simp: prefix_corrupted_def and_then_assoc simp del: merge_into.simps)
    qed (use stay Cons.prems in blast)
  qed
qed

lemma merge_tasks_into_archive_eq:
  assumes "newest_first tasks"
  shows "merge_tasks_into_archive cd tasks c = merge_into cd (archive_files (c_dir c)) tasks c"
proof (cases "archive_files (c_dir c)")
  case Nil
  have "merge_loop cd ts s = Inr (s\<lparr>ms_tasks := ms_tasks s @ ts\<rparr>)"
    if "ms_current s = None" "ms_files s = []" for ts and s :: "'a merge_state"
    using that by (induction ts arbitrary: s) (simp_all add: skip_ahead.simps push_task_def)
  with Nil show ?thesis by (simp add: merge_tasks_into_archive_def)
next
  case (Cons f fs)
  let ?s = "\<lparr>ms_current = Some f, ms_files = fs, ms_tasks = [], ms_corrupted = [], ms_cache = c\<rparr>"
  have "prefix_corrupted [] r = r" for r :: "cache_error + archive_file list \<times> 'a cache"
    by (cases r) (auto simp: prefix_corrupted_def)
  with merge_loop_into [of ?s tasks f cd] assms Cons show ?thesis
    by (simp add: merge_tasks_into_archive_def finish_merge_def [abs_def])
qed

definition file_tasks :: "archive_file list \<Rightarrow> task_cache_item list \<Rightarrow> archive_file \<Rightarrow> task_cache_item list" where
  "file_tasks fs ts f = filter (\<lambda>t. List.find (\<lambda>g. af_starttime g \<le> ti_starttime t) fs = Some f) ts"

lemma file_tasks_hd: "f \<notin> set fs \<Longrightarrow>
   file_tasks (f # fs) ts f = filter (\<lambda>t. af_starttime f \<le> ti_starttime t) ts"
  unfolding file_tasks_def by (rule filter_cong) (auto dest: find_SomeD)

lemma file_tasks_tl: "g \<noteq> f \<Longrightarrow>
   file_tasks (f # fs) ts g = file_tasks fs (filter (\<lambda>t. ti_starttime t < af_starttime f) ts) g"
  unfolding file_tasks_def filter_filter by (rule filter_cong) auto

lemma sc_insert_names: "k \<in> fst ` set d \<Longrightarrow> map fst (sc_insert k v d) = map fst d"
  by (induction k v d rule: sc_insert.induct) auto

lemma sc_get_in: "k \<in> fst ` set d \<longleftrightarrow> sc_get d k \<noteq> None"
  by (simp add: sc_get_def map_of_eq_None_iff)

definition merged_lines :: "'l codec \<Rightarrow> 'l directory \<Rightarrow> archive_file \<Rightarrow> task_cache_item list \<Rightarrow> 'l fline list option" where
  "merged_lines cd dir f own =
     (if own = [] then sc_get dir (af_name f)
      else Some (map (\<lambda>t. Line (enc cd t)) (merge_tasks (readable (file_items cd dir f)) own)))"

lemma merge_single_Inr:
  assumes "af_name f \<in> fst ` set (c_dir c)"
  shows "\<exists>st c'. merge_single_archive_file cd own f c = Inr (st, c') \<and> c_state c' = c_state c
    \<and> map fst (c_dir c') = map fst (c_dir c)
    \<and> sc_get (c_dir c') = (sc_get (c_dir c))(af_name f := merged_lines cd (c_dir c) f own)
    \<and> (st = Corrupted \<longleftrightarrow> own \<noteq> [] \<and> None \<in> set (file_items cd (c_dir c) f))"
  using assms
  by (cases "sc_get (c_dir c) (af_name f)")
    (auto simp: sc_get_in merge_single_archive_file_def merged_lines_def write_file_def sc_laws file_items_def
      file_state_of_def Let_def sc_insert_names)

lemma merge_into_effect:
  assumes "distinct (map af_name fs)" "af_name ` set fs \<subseteq> fst ` set (c_dir c)"
  shows "\<exists>c'. merge_into cd fs ts c =
       Inr (filter (\<lambda>f. file_tasks fs ts f \<noteq> [] \<and> None \<in> set (file_items cd (c_dir c) f)) fs, c')
    \<and> c_state c' = c_state c \<and> map fst (c_dir c') = map fst (c_dir c)
    \<and> (\<forall>f \<in> set fs. sc_get (c_dir c') (af_name f) = merged_lines cd (c_dir c) f (file_tasks fs ts f))
    \<and> (\<forall>k. k \<notin> af_name ` set fs \<longrightarrow> sc_get (c_dir c') k = sc_get (c_dir c) k)"
  using assms
proof (induction fs arbitrary: ts c)
  case (Cons f fs)
  let ?own = "filter (\<lambda>t. af_starttime f \<le> ti_starttime t) ts"
  let ?rest = "filter (\<lambda>t. ti_starttime t < af_starttime f) ts"
  have "af_name f \<in> fst ` set (c_dir c)" using Cons.prems(2) by simp
  then obtain st c1 where one: "merge_single_archive_file cd ?own f c = Inr (st, c1)" "c_state c1 = c_state c"
    "map fst (c_dir c1) = map fst (c_dir c)"
    "sc_get (c_dir c1) = (sc_get (c_dir c))(af_name f := merged_lines cd (c_dir c) f ?own)"
    "st = Corrupted \<longleftrightarrow> ?own \<noteq> [] \<and> None \<in> set (file_items cd (c_dir c) f)"
    using merge_single_Inr [of f c cd ?own] by blast
  have names: "fst ` set (c_dir c1) = fst ` set (c_dir c)" by (metis one(3) set_map)
  have same: "sc_get (c_dir c1) (af_name g) = sc_get (c_dir c) (af_name g)" if "g \<in> set fs" for g
    using one(4) Cons.prems(1) that by (auto simp: image_iff)
  then have items: "file_items cd (c_dir c1) g = file_items cd (c_dir c) g"
    and lines: "merged_lines cd (c_dir c1) g own = merged_lines cd (c_dir c) g own" if "g \<in> set fs" for g own
    using that by (simp_all add: file_items_def merged_lines_def)
  have nf: "f \<notin> set fs" using Cons.prems(1) by auto
  have tl: "file_tasks (f # fs) ts g = file_tasks fs ?rest g" if "g \<in> set fs" for g
    using nf that by (intro file_tasks_tl) auto
  obtain c' where rec: "merge_into cd fs ?rest c1 =
       Inr (filter (\<lambda>f. file_tasks fs ?rest f \<noteq> [] \<and> None \<in> set (file_items cd (c_dir c1) f)) fs, c')"
    "c_state c' = c_state c1" "map fst (c_dir c') = map fst (c_dir c1)"
    "\<forall>f \<in> set fs. sc_get (c_dir c') (af_name f) = merged_lines cd (c_dir c1) f (file_tasks fs ?rest f)"
    "\<forall>k. k \<notin> af_name ` set fs \<longrightarrow> sc_get (c_dir c') k = sc_get (c_dir c1) k"
    using Cons.IH [of c1 ?rest] Cons.prems names by auto
  have "filter (\<lambda>f. file_tasks fs ?rest f \<noteq> [] \<and> None \<in> set (file_items cd (c_dir c1) f)) fs
    = filter (\<lambda>g. file_tasks (f # fs) ts g \<noteq> [] \<and> None \<in> set (file_items cd (c_dir c) g)) fs"
    using tl items by (intro filter_cong) auto
  with one(1,5) rec(1) have "merge_into cd (f # fs) ts c =
       Inr (filter (\<lambda>g. file_tasks (f # fs) ts g \<noteq> [] \<and> None \<in> set (file_items cd (c_dir c) g)) (f # fs), c')"
    by (simp add: file_tasks_hd [OF nf])
  moreover have "sc_get (c_dir c') (af_name g) = merged_lines cd (c_dir c) g (file_tasks (f # fs) ts g)"
    if "g \<in> set (f # fs)" for g
  proof (cases "g = f")
    case True
    then have "af_name g \<notin> af_name ` set fs" using Cons.prems(1) by simp
    with rec(5) one(4) True show ?thesis by (simp add: file_tasks_hd [OF nf])
  next
    case False
    with that have "g \<in> set fs" by simp
    with rec(4) lines tl show ?thesis by simp
  qed
  moreover have "sc_get (c_dir c') k = sc_get (c_dir c) k" if "k \<notin> af_name ` set (f # fs)" for k
    using that rec(5) one(4) by simp
  ultimately show ?case using one(2,3) rec(2,3) by auto
qed simp

end
