(* ===== verification/Task_Journal.thy ===== *)
theory Task_Journal
  imports Task_Merge
begin

text \<open>
  The journal as a write-ahead log: an archive whose files are readable, sorted and hold the tasks
  of their interval keeps that form when the journal is applied, and readers do not notice.
\<close>

section \<open>The journal as a write-ahead log\<close>

definition codec_ok :: "'l codec \<Rightarrow> bool" where
  "codec_ok cd \<longleftrightarrow> (\<forall>t. dec cd (enc cd t) = Some t)"

definition file_list :: "'l codec \<Rightarrow> 'l directory \<Rightarrow> archive_file \<Rightarrow> task_cache_item list" where
  "file_list cd dir f = readable (file_items cd dir f)"

definition archived :: "'l codec \<Rightarrow> 'l directory \<Rightarrow> task_cache_item list" where
  "archived cd dir = concat (map (file_list cd dir) (archive_files dir))"

definition owner_of :: "archive_file list \<Rightarrow> task_cache_item \<Rightarrow> archive_file option" where
  "owner_of fs t = List.find (\<lambda>g. af_starttime g \<le> ti_starttime t) fs"

definition archive_ok :: "'l codec \<Rightarrow> 'l directory \<Rightarrow> bool" where
  "archive_ok cd dir \<longleftrightarrow>
     (\<forall>f \<in> set (archive_files dir). None \<notin> set (file_items cd dir f) \<and> tasks_strict (file_list cd dir f)
        \<and> (\<forall>t \<in> set (file_list cd dir f). owner_of (archive_files dir) t = Some f))"

lemma readable_append [simp]: "readable (xs @ ys) = readable xs @ readable ys"
  by (simp add: readable_def List.map_filter_def)

lemma readable_simps [simp]: "readable [] = []" "readable (None # xs) = readable xs" "readable (Some t # xs) = t # readable xs"
  by (simp_all add: readable_def List.map_filter_simps)

lemma readable_map_Some [simp]: "readable (map Some ts) = ts"
  by (induction ts) simp_all

lemma readable_concat: "readable (concat (map g fs)) = concat (map (\<lambda>f. readable (g f)) fs)"
  by (induction fs) simp_all

lemma archive_iter_enc: "codec_ok cd \<Longrightarrow> archive_iter cd (map (\<lambda>t. Line (enc cd t)) ts) = map Some ts"
  by (induction ts) (simp_all add: codec_ok_def)

lemma map_filter_names:
  "List.map_filter (\<lambda>(name, _). p name) d = List.map_filter p (map fst d)"
  by (induction d) (auto simp: List.map_filter_simps split: option.splits)

lemma archive_files_names: "map fst d = map fst d' \<Longrightarrow> archive_files d = archive_files d'"
  unfolding archive_files_def archive_files_with_dupes_def map_filter_names by simp

lemma get_tasks_archived:
  "fst (get_tasks_impl cd Get_Archived dir) =
     (case sc_get dir journal_name of None \<Rightarrow> archived cd dir | Some ls \<Rightarrow> merge_tasks (journal_iter cd ls) (archived cd dir))"
  by (simp add: get_tasks_impl_def task_archive_iter_def inner_task_archive_iter_def readable_concat archived_def
      file_list_def [abs_def] split: option.splits)

lemma get_tasks_all:
  "fst (get_tasks_impl cd Get_All dir) =
     (let items = readable (file_items cd dir active_file) @ archived cd dir
      in case sc_get dir journal_name of None \<Rightarrow> items | Some ls \<Rightarrow> merge_tasks (journal_iter cd ls) items)"
  by (simp add: get_tasks_impl_def task_archive_iter_def inner_task_archive_iter_def readable_concat archived_def
      file_list_def [abs_def] Let_def split: option.splits)

lemma cached_active_eq: "cached_active cd c = readable (file_items cd (c_dir c) active_file)"
  by (simp add: cached_active_def get_tasks_impl_def task_archive_iter_def inner_task_archive_iter_def)

lemma strict_concat:
  assumes "\<forall>f \<in> set fs. tasks_strict (g f)"
    and "sorted_wrt (\<lambda>f f'. \<forall>a \<in> set (g f). \<forall>b \<in> set (g f'). task_key a < task_key b) fs"
  shows "tasks_strict (concat (map g fs))"
  using assms by (induction fs) (auto simp: sorted_wrt_append)

lemma owner_before:
  assumes "distinct fs" "i < j" "j < length fs" "owner_of fs t = Some (fs ! j)"
  shows "ti_starttime t < af_starttime (fs ! i)"
proof -
  from assms(4) obtain k where "k < length fs" "fs ! k = fs ! j" "\<forall>i < k. \<not> af_starttime (fs ! i) \<le> ti_starttime t"
    unfolding owner_of_def find_Some_iff by metis
  with assms(1-3) show ?thesis by (auto simp: nth_eq_iff_index_eq)
qed

lemma owner_SomeD: "owner_of fs t = Some f \<Longrightarrow> f \<in> set fs \<and> af_starttime f \<le> ti_starttime t"
  unfolding owner_of_def by (auto dest: find_SomeD)

lemma strict_by_owner:
  assumes "distinct fs" "\<And>f. f \<in> set fs \<Longrightarrow> tasks_strict (g f)"
    and own: "\<And>f t. f \<in> set fs \<Longrightarrow> t \<in> set (g f) \<Longrightarrow> owner_of fs t = Some f"
  shows "tasks_strict (concat (map g fs))"
proof (rule strict_concat)
  show "sorted_wrt (\<lambda>f f'. \<forall>a \<in> set (g f). \<forall>b \<in> set (g f'). task_key a < task_key b) fs"
    unfolding sorted_wrt_iff_nth_less
  proof (intro allI impI ballI)
    fix i j a b assume ij: "i < j" "j < length fs" and a: "a \<in> set (g (fs ! i))" and b: "b \<in> set (g (fs ! j))"
    from own [OF _ b] ij have "ti_starttime b < af_starttime (fs ! i)"
      by (intro owner_before [OF assms(1)]) auto
    moreover from own [OF _ a] ij have "af_starttime (fs ! i) \<le> ti_starttime a"
      by (auto dest: owner_SomeD)
    ultimately show "task_key a < task_key b" by (simp add: task_key_def less_prod_def)
  qed
qed (use assms in blast)

lemma distinct_archive_files: "distinct (archive_files dir)"
  using distinct_archive_names distinct_map by blast

lemma archived_strict: "archive_ok cd dir \<Longrightarrow> tasks_strict (archived cd dir)"
  unfolding archived_def archive_ok_def by (rule strict_by_owner [OF distinct_archive_files]) auto

lemma dedup_by_key_cong_set:
  "(\<And>x y. x \<in> set xs \<Longrightarrow> y \<in> set xs \<Longrightarrow> f x = f y \<longleftrightarrow> g x = g y) \<Longrightarrow> dedup_by_key f xs = dedup_by_key g xs"
  by (induction f xs rule: dedup_by_key.induct) auto

lemma journal_iter_strict:
  assumes "inj_on task_key (set (readable (archive_iter cd ls)))"
  shows "tasks_strict (journal_iter cd ls)"
proof -
  let ?s = "sort_by compare_tasks_reverse (readable (archive_iter cd ls))"
  have "dedup ?s = dedup_by_key task_key ?s"
    unfolding dedup_def using assms
    by (intro dedup_by_key_cong_set) (auto simp: inj_on_def)
  with strictly_dedup_by_key [OF task_order.sorted_sort_by] show ?thesis
    by (simp add: journal_iter_def)
qed

lemma set_journal_iter [simp]: "set (journal_iter cd ls) = set (readable (archive_iter cd ls))"
  by (simp add: journal_iter_def)

lemma journal_iter_sorted: "tasks_sorted (journal_iter cd ls)"
  unfolding journal_iter_def dedup_def by (rule sorted_dedup_by_key [OF task_order.sorted_sort_by])

lemma sorted_newest_first: "tasks_sorted ts \<Longrightarrow> newest_first ts"
  by (erule sorted_wrt_mono_rel [rotated]) (auto simp: task_key_def less_eq_prod_def)

lemma archive_names_in: "af_name ` set (archive_files dir) \<subseteq> fst ` set dir"
  using set_archive_files by blast

lemma journal_not_archive: "journal_name \<notin> af_name ` set (archive_files dir)"
proof
  assume "journal_name \<in> af_name ` set (archive_files dir)"
  then obtain f where "f \<in> set (archive_files dir)" "af_name f = journal_name" by auto
  with set_archive_files [of f dir] show False by simp
qed

lemma active_not_archive:
  "af_name active_file \<notin> af_name ` set (archive_files dir) \<and> af_name active_file \<noteq> journal_name"
proof
  show "af_name active_file \<noteq> journal_name" by (simp add: active_file_def journal_name_def)
  show "af_name active_file \<notin> af_name ` set (archive_files dir)"
  proof
    assume "af_name active_file \<in> af_name ` set (archive_files dir)"
    then obtain f where "f \<in> set (archive_files dir)" "af_name f = ''active''" by (auto simp: active_file_def)
    with set_archive_files [of f dir] show False by simp
  qed
qed

lemma apply_journal_effect:
  assumes j: "sc_get (c_dir c) journal_name = Some ls"
  shows "\<exists>c1. apply_journal cd c =
       Inr (let cor = filter (\<lambda>f. file_tasks (archive_files (c_dir c)) (journal_iter cd ls) f \<noteq> []
              \<and> None \<in> set (file_items cd (c_dir c) f)) (archive_files (c_dir c))
            in if cor \<noteq> [] then request_repair cor c1 else c1)
    \<and> c_state c1 = c_state c \<and> map fst (c_dir c1) = map fst (c_dir c)
    \<and> sc_get (c_dir c1) journal_name = Some []
    \<and> (\<forall>f \<in> set (archive_files (c_dir c)). sc_get (c_dir c1) (af_name f) =
           merged_lines cd (c_dir c) f (file_tasks (archive_files (c_dir c)) (journal_iter cd ls) f))
    \<and> (\<forall>k. k \<notin> af_name ` set (archive_files (c_dir c)) \<longrightarrow> k \<noteq> journal_name \<longrightarrow>
           sc_get (c_dir c1) k = sc_get (c_dir c) k)"
proof -
  let ?fs = "archive_files (c_dir c)" and ?ts = "journal_iter cd ls"
  obtain c0 where m: "merge_into cd ?fs ?ts c =
       Inr (filter (\<lambda>f. file_tasks ?fs ?ts f \<noteq> [] \<and> None \<in> set (file_items cd (c_dir c) f)) ?fs, c0)"
    "c_state c0 = c_state c" "map fst (c_dir c0) = map fst (c_dir c)"
    "\<forall>f \<in> set ?fs. sc_get (c_dir c0) (af_name f) = merged_lines cd (c_dir c) f (file_tasks ?fs ?ts f)"
    "\<forall>k. k \<notin> af_name ` set ?fs \<longrightarrow> sc_get (c_dir c0) k = sc_get (c_dir c) k"
    using merge_into_effect [OF distinct_archive_names archive_names_in, of cd c ?ts] by blast
  define c1 where "c1 = c0\<lparr>c_dir := sc_insert journal_name [] (c_dir c0)\<rparr>"
  have "journal_name \<in> fst ` set (c_dir c0)"
    using m(3) j by (metis option.distinct(1) sc_get_in set_map)
  then have "map fst (c_dir c1) = map fst (c_dir c)"
    using m(3) by (simp add: c1_def sc_insert_names)
  moreover have "apply_journal cd c = Inr (let cor = filter (\<lambda>f. file_tasks ?fs ?ts f \<noteq> []
       \<and> None \<in> set (file_items cd (c_dir c) f)) ?fs in if cor \<noteq> [] then request_repair cor c1 else c1)"
    using merge_tasks_into_archive_eq [OF sorted_newest_first [OF journal_iter_sorted [of cd ls]], of cd c] m(1) j
    by (simp add: apply_journal_def journal_iter_def [symmetric] c1_def Let_def)
  moreover have "sc_get (c_dir c1) (af_name f) = merged_lines cd (c_dir c) f (file_tasks ?fs ?ts f)"
    if "f \<in> set ?fs" for f
  proof -
    have "af_name f \<noteq> journal_name" using that journal_not_archive [of "c_dir c"] by (metis imageI)
    with m(4) that show ?thesis by (simp add: c1_def sc_laws)
  qed
  ultimately show ?thesis
    using m(2,5) by (intro exI [of _ c1] conjI ballI allI impI) (assumption | simp add: c1_def sc_laws)+
qed

lemma set_merge_inj:
  assumes "tasks_strict l" "tasks_strict r" "inj_on task_key (set l \<union> set r)"
  shows "set (merge_tasks l r) = set l \<union> set r"
  using assms(3) unfolding set_merge_strict [OF assms(1,2)] by (auto simp: inj_on_def)

lemma file_tasks_owner: "set (file_tasks fs ts f) = {t \<in> set ts. owner_of fs t = Some f}"
  by (auto simp: file_tasks_def owner_of_def)

lemma merged_file_items:
  assumes "codec_ok cd" "None \<notin> set (file_items cd dir f)"
    and "sc_get dir' (af_name f) = merged_lines cd dir f own"
  shows "None \<notin> set (file_items cd dir' f)"
    and "file_list cd dir' f = merge_tasks (file_list cd dir f) own"
  using assms
  by (auto simp: file_items_def file_list_def merged_lines_def archive_iter_enc split: if_splits option.splits)

lemma apply_journal_ok:
  assumes cd: "codec_ok cd" and ok: "archive_ok cd (c_dir c)"
    and j: "sc_get (c_dir c) journal_name = Some ls"
    and inj: "inj_on task_key (set (readable (archive_iter cd ls)) \<union> set (archived cd (c_dir c)))"
    and old: "\<forall>t \<in> set (readable (archive_iter cd ls)). owner_of (archive_files (c_dir c)) t \<noteq> None"
  shows "\<exists>c'. apply_journal cd c = Inr c' \<and> archive_ok cd (c_dir c') \<and> c_state c' = c_state c
    \<and> sc_get (c_dir c') journal_name = Some []
    \<and> archived cd (c_dir c') = merge_tasks (journal_iter cd ls) (archived cd (c_dir c))
    \<and> sc_get (c_dir c') (af_name active_file) = sc_get (c_dir c) (af_name active_file)"
proof -
  let ?fs = "archive_files (c_dir c)" and ?J = "journal_iter cd ls"
  obtain c1 where ap: "apply_journal cd c = Inr c1"
    and st: "c_state c1 = c_state c" and names: "map fst (c_dir c1) = map fst (c_dir c)"
    and j1: "sc_get (c_dir c1) journal_name = Some []"
    and get: "\<forall>f \<in> set ?fs. sc_get (c_dir c1) (af_name f) = merged_lines cd (c_dir c) f (file_tasks ?fs ?J f)"
    and other: "\<forall>k. k \<notin> af_name ` set ?fs \<longrightarrow> k \<noteq> journal_name \<longrightarrow> sc_get (c_dir c1) k = sc_get (c_dir c) k"
    using apply_journal_effect [OF j, of cd] ok unfolding archive_ok_def by fastforce
  have fs: "archive_files (c_dir c1) = ?fs" using names by (rule archive_files_names)
  note items = merged_file_items [OF cd _ get [rule_format]]
  have Js: "tasks_strict ?J" using inj by (intro journal_iter_strict) (auto simp: inj_on_def)
  have strict: "tasks_strict (file_tasks ?fs ?J f)" for f
    unfolding file_tasks_def using Js by (rule sorted_wrt_filter)
  have fl: "file_list cd (c_dir c1) f = merge_tasks (file_list cd (c_dir c) f) (file_tasks ?fs ?J f)"
    if "f \<in> set ?fs" for f
    using items(2) [of f] that ok by (simp add: archive_ok_def)
  have ok1: "archive_ok cd (c_dir c1)"
    unfolding archive_ok_def fs
  proof (intro ballI conjI)
    fix f assume f: "f \<in> set ?fs"
    show "None \<notin> set (file_items cd (c_dir c1) f)" using items(1) [of f] f ok by (simp add: archive_ok_def)
    show "tasks_strict (file_list cd (c_dir c1) f)"
      using f ok strict unfolding fl [OF f] archive_ok_def by (intro merge_strict) auto
    show "owner_of ?fs t = Some f" if "t \<in> set (file_list cd (c_dir c1) f)" for t
      using that set_merge_sub f ok unfolding fl [OF f] archive_ok_def by (fastforce simp: file_tasks_owner)
  qed
  have "archived cd (c_dir c1) = merge_tasks ?J (archived cd (c_dir c))"
  proof (rule strict_unique)
    show "tasks_strict (archived cd (c_dir c1))" using ok1 by (rule archived_strict)
    show "tasks_strict (merge_tasks ?J (archived cd (c_dir c)))"
      using Js archived_strict [OF ok] by (rule merge_strict)
    have sub: "set (file_list cd (c_dir c) f) \<subseteq> set (archived cd (c_dir c))" if "f \<in> set ?fs" for f
      using that by (auto simp: archived_def)
    have "set (merge_tasks (file_list cd (c_dir c) f) (file_tasks ?fs ?J f))
        = set (file_list cd (c_dir c) f) \<union> set (file_tasks ?fs ?J f)" if f: "f \<in> set ?fs" for f
    proof (rule set_merge_inj)
      show "tasks_strict (file_list cd (c_dir c) f)" using ok f by (simp add: archive_ok_def)
      show "inj_on task_key (set (file_list cd (c_dir c) f) \<union> set (file_tasks ?fs ?J f))"
        using sub [OF f] by (intro inj_on_subset [OF inj]) (auto simp: file_tasks_owner)
    qed (rule strict)
    then have "set (archived cd (c_dir c1)) = (\<Union>f \<in> set ?fs. set (file_list cd (c_dir c) f) \<union> set (file_tasks ?fs ?J f))"
      unfolding archived_def fs using fl by simp
    also have "\<dots> = set (archived cd (c_dir c)) \<union> (\<Union>f \<in> set ?fs. set (file_tasks ?fs ?J f))"
      by (auto simp: archived_def)
    also have "(\<Union>f \<in> set ?fs. set (file_tasks ?fs ?J f)) = set ?J"
      using old owner_SomeD by (fastforce simp: file_tasks_owner)
    also have "set (archived cd (c_dir c)) \<union> set ?J = set (merge_tasks ?J (archived cd (c_dir c)))"
      using set_merge_inj [OF Js archived_strict [OF ok]] inj by auto
    finally show "set (archived cd (c_dir c1)) = set (merge_tasks ?J (archived cd (c_dir c)))" .
  qed
  moreover have "sc_get (c_dir c1) (af_name active_file) = sc_get (c_dir c) (af_name active_file)"
    using other active_not_archive [of "c_dir c"] by simp
  ultimately show ?thesis using ap st j1 ok1 by blast
qed

section \<open>Concrete caches\<close>

definition ex_codec :: "task_cache_item codec" where
  "ex_codec = \<lparr>enc = (\<lambda>t. t), dec = Some, line_size = (\<lambda>_. 10)\<rparr>"

lemma ex_codec_ok: "codec_ok ex_codec"
  by (simp add: codec_ok_def ex_codec_def)

definition ex_task :: "string \<Rightarrow> i64 \<Rightarrow> i64 option \<Rightarrow> task_cache_item" where
  "ex_task u start end = \<lparr>ti_upid = \<lparr>ru_remote = ''r1'', ru_remote_type = Remote_Pbs, ru_upid = u\<rparr>,
     ti_starttime = start, ti_status = None, ti_endtime = end\<rparr>"

definition ex_cache :: "task_cache_item list \<Rightarrow> task_cache_item list \<Rightarrow> task_cache_item list \<Rightarrow> task_cache_item cache" where
  "ex_cache active arch journal =
     \<lparr>c_dir = [(''active'', map Line active), (''archive.1'', map Line arch), (''journal'', map Line journal)],
      c_state = None\<rparr>"

lemma ex_archive_files: "archive_files (c_dir (ex_cache active arch journal)) =
    [\<lparr>af_name = ''archive.1'', af_compressed = False, af_starttime = 1\<rparr>]"
proof -
  have "parse_archive_filename ''archive.1'' = Some \<lparr>af_name = ''archive.1'', af_compressed = False, af_starttime = 1\<rparr>"
    by (simp add: parse_archive_filename_def strip_suffix_def parse_i64_def parse_nat_def digit_val_def i64_range_def)
  moreover have "parse_archive_filename ''journal'' = None" "parse_archive_filename ''active'' = None"
    using parse_archive_other by (simp_all add: journal_name_def)
  ultimately show ?thesis
    by (simp add: archive_files_def archive_files_with_dupes_def ex_cache_def List.map_filter_simps sort_by_def)
qed

lemma ex_iter: "archive_iter ex_codec (map Line ts) = map Some ts"
  by (induction ts) (simp_all add: ex_codec_def)

lemma ex_gets:
  "sc_get (c_dir (ex_cache active arch journal)) journal_name = Some (map Line journal)"
  "sc_get (c_dir (ex_cache active arch journal)) ''archive.1'' = Some (map Line arch)"
  "sc_get (c_dir (ex_cache active arch journal)) ''active'' = Some (map Line active)"
  by (simp_all add: ex_cache_def sc_get_def journal_name_def)

lemma ex_archived: "archived ex_codec (c_dir (ex_cache active arch journal)) = arch"
  by (simp add: archived_def ex_archive_files file_list_def file_items_def ex_gets ex_iter)

lemma ex_active: "cached_active ex_codec (ex_cache active arch journal) = active"
  by (simp add: cached_active_eq file_items_def active_file_def ex_gets ex_iter)

lemma ex_archive_ok:
  assumes "tasks_strict arch" "\<forall>t \<in> set arch. 1 \<le> ti_starttime t"
  shows "archive_ok ex_codec (c_dir (ex_cache active arch journal))"
  using assms
  by (auto simp: archive_ok_def ex_archive_files file_list_def file_items_def ex_gets ex_iter owner_of_def)

section \<open>Properties\<close>

text \<open>Merging two sorted task lists gives a sorted list without duplicates that is the left
  list plus the tasks of the right list whose start time and id are new; merging again changes nothing.\<close>

theorem merge_tasks_union:
  assumes "tasks_strict l" "tasks_strict r"
  shows "tasks_strict (merge_tasks l r)
    \<and> set (merge_tasks l r) = set l \<union> {t \<in> set r. task_key t \<notin> task_key ` set l}
    \<and> merge_tasks l (merge_tasks l r) = merge_tasks l r"
proof -
  note set = set_merge_strict [OF assms] and strict = merge_strict [OF assms]
  have "merge_tasks l (merge_tasks l r) = merge_tasks l r"
    by (rule strict_unique [OF merge_strict [OF assms(1) strict] strict])
      (auto simp: set_merge_strict [OF assms(1) strict] set)
  with set strict show ?thesis by blast
qed

theorem merge_tasks_union_witness:
  "merge_tasks [ex_task ''b'' 5 None] (merge_tasks [ex_task ''b'' 5 None] [ex_task ''a'' 3 None])
     = merge_tasks [ex_task ''b'' 5 None] [ex_task ''a'' 3 None]"
  using merge_tasks_union [of "[ex_task ''b'' 5 None]" "[ex_task ''a'' 3 None]"] by simp

text \<open>The name of an archive file determines its start time and compression: parsing the
  constructed name gives them back, for every 64 bit start time.\<close>

theorem archive_name_roundtrip:
  assumes "i64_range t"
  shows "parse_archive_filename (archive_path t compressed)
    = Some \<lparr>af_name = archive_path t compressed, af_compressed = compressed, af_starttime = t\<rparr>"
  using assms by (rule parse_archive_path)

theorem archive_name_roundtrip_witness:
  "parse_archive_filename (archive_path 1234 True)
    = Some \<lparr>af_name = archive_path 1234 True, af_compressed = True, af_starttime = 1234\<rparr>"
  by (rule archive_name_roundtrip) (simp add: i64_range_def)

text \<open>C9. Applying the journal is invisible to readers: with no task running, readable archive
  files in order, no two different tasks with the same start time and id and no journal task older than
  the oldest archive file, the merge succeeds, listing all tasks before and after gives the same
  strictly sorted list, the archive stays in order and the journal is empty.\<close>

theorem apply_journal_transparent:
  assumes "codec_ok cd" "archive_ok cd (c_dir c)" "sc_get (c_dir c) journal_name = Some ls"
    and "inj_on task_key (set (readable (archive_iter cd ls)) \<union> set (archived cd (c_dir c)))"
    and "\<forall>t \<in> set (readable (archive_iter cd ls)). \<exists>f \<in> set (archive_files (c_dir c)). af_starttime f \<le> ti_starttime t"
    and "cached_active cd c = []"
  shows "\<exists>c'. apply_journal cd c = Inr c'
    \<and> fst (get_tasks_impl cd Get_All (c_dir c')) = fst (get_tasks_impl cd Get_All (c_dir c))
    \<and> tasks_strict (fst (get_tasks_impl cd Get_All (c_dir c')))
    \<and> archive_ok cd (c_dir c') \<and> sc_get (c_dir c') journal_name = Some []"
proof -
  have "\<forall>t \<in> set (readable (archive_iter cd ls)). owner_of (archive_files (c_dir c)) t \<noteq> None"
    using assms(5) by (auto simp: owner_of_def find_None_iff)
  from apply_journal_ok [OF assms(1-4) this] obtain c' where c': "apply_journal cd c = Inr c'" "archive_ok cd (c_dir c')"
    "sc_get (c_dir c') journal_name = Some []"
    "archived cd (c_dir c') = merge_tasks (journal_iter cd ls) (archived cd (c_dir c))"
    "sc_get (c_dir c') (af_name active_file) = sc_get (c_dir c) (af_name active_file)"
    by blast
  have act: "readable (file_items cd (c_dir c) active_file) = []"
    using assms(6) by (simp add: cached_active_eq)
  moreover have "readable (file_items cd (c_dir c') active_file) = []"
    using act c'(5) by (simp add: file_items_def)
  moreover have "journal_iter cd [] = []" by (simp add: journal_iter_def dedup_def sort_by_def)
  ultimately have "fst (get_tasks_impl cd Get_All (c_dir c')) = archived cd (c_dir c')"
    "fst (get_tasks_impl cd Get_All (c_dir c)) = archived cd (c_dir c')"
    using c'(3,4) assms(3) by (simp_all add: get_tasks_all)
  with c' archived_strict [OF c'(2)] show ?thesis by auto
qed

theorem apply_journal_transparent_witness:
  "\<exists>c'. apply_journal ex_codec (ex_cache [] [ex_task ''a'' 3 (Some 4)] [ex_task ''b'' 5 (Some 6)]) = Inr c'
    \<and> fst (get_tasks_impl ex_codec Get_All (c_dir c'))
      = fst (get_tasks_impl ex_codec Get_All (c_dir (ex_cache [] [ex_task ''a'' 3 (Some 4)] [ex_task ''b'' 5 (Some 6)])))"
proof -
  let ?c = "ex_cache [] [ex_task ''a'' 3 (Some 4)] [ex_task ''b'' 5 (Some 6)]"
  have "archive_ok ex_codec (c_dir ?c)" by (rule ex_archive_ok) (simp_all add: ex_task_def)
  moreover have "inj_on task_key (set (readable (archive_iter ex_codec (map Line [ex_task ''b'' 5 (Some 6)])))
      \<union> set (archived ex_codec (c_dir ?c)))"
    unfolding ex_archived ex_iter by (simp add: task_key_def ex_task_def)
  moreover have "\<forall>t \<in> set (readable (archive_iter ex_codec (map Line [ex_task ''b'' 5 (Some 6)]))).
      \<exists>f \<in> set (archive_files (c_dir ?c)). af_starttime f \<le> ti_starttime t"
    unfolding ex_archive_files ex_iter by (simp add: ex_task_def)
  ultimately show ?thesis
    using apply_journal_transparent [OF ex_codec_ok, of ?c, OF _ ex_gets(1)] ex_active by blast
qed

text \<open>The listing can contain the same finished task twice: when a task older than it is still
  running and the finished task is both in the archive and, fetched again, in the journal.\<close>

theorem running_task_duplicates:
  "\<exists>c :: task_cache_item cache. \<exists>t. archive_ok ex_codec (c_dir c) \<and> tasks_strict (cached_active ex_codec c)
     \<and> sc_get (c_dir c) journal_name = Some [Line t] \<and> t \<in> set (archived ex_codec (c_dir c))
     \<and> count_list (fst (get_tasks_impl ex_codec Get_All (c_dir c))) t = 2"
proof -
  let ?x = "ex_task ''x'' 2 None" and ?t = "ex_task ''a'' 3 (Some 4)"
  let ?c = "ex_cache [?x] [?t] [?t]"
  have "archive_ok ex_codec (c_dir ?c)" by (rule ex_archive_ok) (simp_all add: ex_task_def)
  moreover have "fst (get_tasks_impl ex_codec Get_All (c_dir ?c)) = [?t, ?x, ?t]"
  proof -
    have "journal_iter ex_codec (map Line [?t]) = [?t]"
      unfolding journal_iter_def ex_iter by (simp add: sort_by_def dedup_def)
    moreover have "task_key ?t < task_key ?x" by (simp add: task_key_def ex_task_def less_prod_def)
    ultimately show ?thesis
      unfolding get_tasks_all ex_gets ex_archived
      using ex_active [of "[?x]" "[?t]" "[?t]"] by (simp add: cached_active_eq)
  qed
  moreover have "?x \<noteq> ?t" by (simp add: ex_task_def)
  ultimately show ?thesis
    by (intro exI [of _ ?c] exI [of _ ?t]) (simp add: ex_active ex_archived ex_gets)
qed

end
