(* ===== verification/Task_Rotate.thy ===== *)
theory Task_Rotate
  imports Task_Journal
begin

text \<open>
  Initialisation and rotation of the archive files. The set of archive files on disk is followed
  through the removal of duplicates, the new file, the removal of the oldest files and compression.
\<close>

section \<open>Rotation\<close>

definition disk :: "'l cache \<Rightarrow> archive_file set" where
  "disk c = set (archive_files_with_dupes (c_dir c))"

lemma disk_iff: "f \<in> disk c \<longleftrightarrow> af_name f \<in> fst ` set (c_dir c) \<and> parse_archive_filename (af_name f) = Some f"
  by (simp add: disk_def set_files_with_dupes)

lemma disk_name_inj: "f \<in> disk c \<Longrightarrow> g \<in> disk c \<Longrightarrow> af_name f = af_name g \<Longrightarrow> f = g"
  by (simp add: disk_iff)

lemma disk_names: "map fst (c_dir c') = map fst (c_dir c) \<Longrightarrow> disk c' = disk c"
  by (auto simp: disk_iff dest: arg_cong [where f = set])

lemma sc_remove_names: "fst ` set (sc_remove k d) = fst ` set d - {k}"
  by (force simp: sc_remove_def)

lemma sc_insert_name_set: "fst ` set (sc_insert k v d) = insert k (fst ` set d)"
  by (induction k v d rule: sc_insert.induct) auto

lemma disk_remove: "f \<in> disk c \<Longrightarrow> disk (remove_file f c) = disk c - {f}"
proof (rule set_eqI)
  fix g assume f: "f \<in> disk c"
  have "g \<in> disk (remove_file f c) \<longleftrightarrow> g \<in> disk c \<and> af_name g \<noteq> af_name f"
    by (simp add: disk_iff remove_file_def sc_remove_names) blast
  then show "g \<in> disk (remove_file f c) \<longleftrightarrow> g \<in> disk c - {f}"
    using disk_name_inj [of g c f] f by blast
qed

lemma disk_write: "parse_archive_filename (af_name f) = Some f \<Longrightarrow> disk (write_file cd f ts c) = insert f (disk c)"
proof (rule set_eqI)
  fix g assume f: "parse_archive_filename (af_name f) = Some f"
  have "g \<in> disk (write_file cd f ts c) \<longleftrightarrow>
      (af_name g = af_name f \<or> af_name g \<in> fst ` set (c_dir c)) \<and> parse_archive_filename (af_name g) = Some g"
    by (simp add: disk_iff write_file_def sc_insert_name_set)
  then show "g \<in> disk (write_file cd f ts c) \<longleftrightarrow> g \<in> insert f (disk c)"
    using f unfolding disk_iff insert_iff by (metis option.inject)
qed

lemma disk_request_repair [simp]: "disk (request_repair cor c) = disk c"
  by (simp add: disk_def request_repair_def write_state_def Let_def split: list.split)

lemma apply_journal_disk: "\<exists>c'. apply_journal cd c = Inr c' \<and> disk c' = disk c"
proof (cases "sc_get (c_dir c) journal_name")
  case None
  then show ?thesis by (simp add: apply_journal_def)
next
  case (Some ls)
  from apply_journal_effect [OF this, of cd] show ?thesis
    by (auto simp: Let_def dest: disk_names)
qed

lemma drop_dupes_props:
  assumes "drop_dupes seen fs c = (fs', c')" "distinct fs" "set fs \<subseteq> disk c"
  shows "set fs' \<subseteq> set fs \<and> distinct (map af_starttime fs') \<and> af_starttime ` set fs' = af_starttime ` set fs - seen
    \<and> disk c' = disk c - (set fs - set fs') \<and> (sorted_wrt R fs \<longrightarrow> sorted_wrt R fs')"
  using assms
proof (induction seen fs c arbitrary: fs' rule: drop_dupes.induct)
  case (2 seen f fs c)
  show ?case
  proof (cases "af_starttime f \<in> seen")
    case True
    have "set fs \<subseteq> disk (remove_file f c)" using 2(4,5) by (auto simp: disk_remove)
    with 2(2) [OF _ _ ] 2(3,4) True have ih: "set fs' \<subseteq> set fs" "distinct (map af_starttime fs')"
      "af_starttime ` set fs' = af_starttime ` set fs - seen"
      "disk c' = disk (remove_file f c) - (set fs - set fs')" "sorted_wrt R fs \<longrightarrow> sorted_wrt R fs'"
      by auto
    moreover have "f \<notin> set fs'" using ih(1) 2(4) by auto
    ultimately show ?thesis using True 2(5) by (auto simp: disk_remove)
  next
    case False
    then obtain gs where gs: "drop_dupes (insert (af_starttime f) seen) fs c = (gs, c')" "fs' = f # gs"
      using 2(3) by (auto split: prod.splits)
    have ih: "set gs \<subseteq> set fs" "distinct (map af_starttime gs)"
      "af_starttime ` set gs = af_starttime ` set fs - insert (af_starttime f) seen"
      "disk c' = disk c - (set fs - set gs)" "sorted_wrt R fs \<longrightarrow> sorted_wrt R gs"
      using 2(1) [OF False gs(1)] 2(4,5) by auto
    then show ?thesis using gs(2) False 2(4) by auto
  qed
qed simp

lemma trim_files_props:
  assumes "set fs \<subseteq> disk c" "distinct fs"
  shows "fst (trim_files n fs c) = take n fs \<and> disk (snd (trim_files n fs c)) = disk c - set (drop n fs)"
  using assms
proof (induction n fs c rule: trim_files.induct)
  case (1 n fs c)
  show ?case
  proof (cases "n < length fs")
    case True
    then obtain gs f where fs: "fs = gs @ [f]" by (cases fs rule: rev_cases) auto
    let ?c = "remove_file f c"
    have "set gs \<subseteq> disk ?c" "distinct gs" using 1(2,3) fs by (auto simp: disk_remove)
    with 1(1) [OF True] fs have ih: "fst (trim_files n gs ?c) = take n gs"
      "disk (snd (trim_files n gs ?c)) = disk ?c - set (drop n gs)"
      by simp_all
    have "trim_files n fs c = trim_files n gs ?c" using True fs by (subst trim_files.simps) simp
    moreover have "f \<in> disk c" using 1(2) fs by simp
    ultimately show ?thesis using True ih fs by (auto simp: disk_remove)
  qed (simp add: trim_files.simps [of n fs c])
qed

lemma parse_archive_range: "parse_archive_filename name = Some f \<Longrightarrow> i64_range (af_starttime f)"
  by (auto simp: parse_archive_filename_def parse_i64_def Let_def split: option.splits if_splits)

lemma parse_set_compressed:
  "i64_range (af_starttime f) \<Longrightarrow>
     parse_archive_filename (af_name (set_compressed True f)) = Some (set_compressed True f)"
  using parse_archive_path [of "af_starttime f" True] by (simp add: set_compressed_def)

lemma compress_archive_disk:
  assumes "f \<in> disk c" "\<not> af_compressed f"
  shows "\<exists>st c'. compress_archive_file cd f c = Inr (st, c') \<and> disk c' = insert (set_compressed True f) (disk c - {f})"
proof -
  have f: "af_name f \<in> fst ` set (c_dir c)" "parse_archive_filename (af_name f) = Some f"
    using assms(1) by (simp_all add: disk_iff)
  then obtain ls where ls: "sc_get (c_dir c) (af_name f) = Some ls" by (auto simp: sc_get_in)
  note p = parse_set_compressed [OF parse_archive_range [OF f(2)]]
  have "af_compressed (set_compressed True f)" by (simp add: set_compressed_def)
  with assms(2) have "set_compressed True f \<noteq> f" by metis
  moreover have "f \<in> disk (write_file cd (set_compressed True f) ts c)" for ts
    using assms(1) by (simp add: disk_write [OF p])
  ultimately show ?thesis
    using ls by (auto simp: compress_archive_file_def Let_def disk_remove disk_write [OF p])
qed

lemma compress_files_disk:
  assumes "set fs \<subseteq> disk c" "distinct fs"
  shows "\<exists>cor c'. compress_files cd fs c = Inr (cor, c')
    \<and> disk c' = (disk c - {f \<in> set fs. \<not> af_compressed f}) \<union> set_compressed True ` {f \<in> set fs. \<not> af_compressed f}"
  using assms
proof (induction fs arbitrary: c)
  case (Cons f fs)
  show ?case
  proof (cases "af_compressed f")
    case True
    then have "{g \<in> set (f # fs). \<not> af_compressed g} = {g \<in> set fs. \<not> af_compressed g}" by auto
    with Cons.IH [of c] Cons.prems True show ?thesis by simp
  next
    case False
    have "f \<in> disk c" using Cons.prems by simp
    from compress_archive_disk [OF this False] obtain st c1 where one: "compress_archive_file cd f c = Inr (st, c1)"
      "disk c1 = insert (set_compressed True f) (disk c - {f})" by blast
    have "set fs \<subseteq> disk c1" using one(2) Cons.prems by auto
    moreover have "distinct fs" using Cons.prems by simp
    ultimately obtain cor c' where rec: "compress_files cd fs c1 = Inr (cor, c')"
      "disk c' = (disk c1 - {f \<in> set fs. \<not> af_compressed f}) \<union> set_compressed True ` {f \<in> set fs. \<not> af_compressed f}"
      using Cons.IH [of c1] by blast
    have "af_compressed (set_compressed True f)" by (simp add: set_compressed_def)
    then have "disk c' = (disk c - {g \<in> set (f # fs). \<not> af_compressed g})
        \<union> set_compressed True ` {g \<in> set (f # fs). \<not> af_compressed g}"
      unfolding rec(2) one(2) using False by auto
    with one(1) rec(1) False show ?thesis by auto
  qed
qed simp

lemma desc_unique:
  fixes xs ys :: "int list"
  assumes "sorted_wrt (>) xs" "sorted_wrt (>) ys" "set xs = set ys"
  shows "xs = ys"
proof -
  have "sorted_wrt (<) (rev xs)" "sorted_wrt (<) (rev ys)" using assms(1,2) by (simp_all add: sorted_wrt_rev)
  with assms(3) have "rev xs = rev ys" by (intro strict_sorted_equal) auto
  then show ?thesis by simp
qed

lemma archive_files_starts_eq:
  assumes "sorted_wrt (>) ts" "set ts = af_starttime ` disk c"
  shows "map af_starttime (archive_files (c_dir c)) = ts"
proof (rule desc_unique)
  show "sorted_wrt (>) (map af_starttime (archive_files (c_dir c)))"
    using archive_files_desc by (simp add: files_desc_def sorted_wrt_map)
  show "set (map af_starttime (archive_files (c_dir c))) = set ts"
    using assms(2) archive_files_starttimes by (simp add: disk_def)
qed (rule assms(1))

lemma distinct_files_with_dupes:
  assumes "sc_wf dir"
  shows "distinct (archive_files_with_dupes dir)"
proof -
  have "distinct (map af_name (List.map_filter parse_archive_filename (map fst dir)))"
    by (rule map_filter_keys [where h = "\<lambda>n. n"]) (use assms parse_archive_name in \<open>auto simp: sc_wf_def\<close>)
  then have "distinct (List.map_filter parse_archive_filename (map fst dir))"
    using distinct_map by blast
  then show ?thesis
    by (simp add: archive_files_with_dupes_def map_filter_names file_order.sort_by_key)
qed

lemma drop_dupes_disk:
  assumes "sc_wf (c_dir c)"
  obtains fs c1 where "drop_dupes {} (archive_files_with_dupes (c_dir c)) c = (fs, c1)" "disk c1 = set fs"
    "map af_starttime fs = map af_starttime (archive_files (c_dir c))"
proof -
  obtain fs c1 where d: "drop_dupes {} (archive_files_with_dupes (c_dir c)) c = (fs, c1)"
    by (cases "drop_dupes {} (archive_files_with_dupes (c_dir c)) c")
  let ?R = "\<lambda>a b. af_starttime b \<le> af_starttime a"
  have "sorted_wrt ?R (archive_files_with_dupes (c_dir c))"
    unfolding archive_files_with_dupes_def
    by (rule sorted_wrt_mono_rel [OF _ file_order.sorted_sort_by]) (auto simp: file_key_def less_eq_prod_def)
  with drop_dupes_props [OF d distinct_files_with_dupes [OF assms], of ?R]
  have p: "set fs \<subseteq> disk c" "distinct (map af_starttime fs)" "af_starttime ` set fs = af_starttime ` disk c"
    "disk c1 = set fs" "sorted_wrt ?R fs"
    by (auto simp: disk_def)
  have "sorted_wrt (>) (map af_starttime fs)"
    using p(2,5) by (induction fs) (auto simp: less_le image_iff)
  with p(3) have "map af_starttime fs = map af_starttime (archive_files (c_dir c))"
    by (intro archive_files_starts_eq [symmetric]) auto
  with d p(4) show thesis by (rule that)
qed

lemma needs_rotation_fresh:
  assumes "needs_rotation cfg now fs" "sorted_wrt (>) (map af_starttime fs)"
  shows "sorted_wrt (>) (now # map af_starttime fs)"
  using assms by (cases fs) (auto simp: needs_rotation_def)

lemma start_new_file_disk:
  assumes "i64_range now"
  shows "\<exists>f c'. start_new_file cd cfg now fs c = Inr (f # fs, c') \<and> af_starttime f = now \<and> disk c' = insert f (disk c)"
proof -
  obtain f c1 where nf: "new_file cd now (cfg_uncompressed_files cfg = 0) c = (f, c1)"
    by (cases "new_file cd now (cfg_uncompressed_files cfg = 0) c")
  then have f: "parse_archive_filename (af_name f) = Some f" "af_starttime f = now" "c1 = write_file cd f [] c"
    using parse_archive_path [OF assms, of "cfg_uncompressed_files cfg = 0"]
    by (auto simp: new_file_def Let_def)
  from apply_journal_disk [of cd c1] obtain c' where "apply_journal cd c1 = Inr c'" "disk c' = disk c1" by blast
  with nf f show ?thesis by (simp add: start_new_file_def disk_write)
qed

lemma c_dir_request_repair [simp]: "c_dir (request_repair cor c) = c_dir c"
  by (simp add: request_repair_def write_state_def Let_def split: list.split)

lemma compressed_suffix:
  assumes desc: "sorted_wrt (>) (map af_starttime hs)"
    and disk: "disk c = (set hs - U) \<union> set_compressed True ` U" and U: "U = {f \<in> set (drop n hs). \<not> af_compressed f}"
  shows "map af_starttime (archive_files (c_dir c)) = map af_starttime hs"
    and "inj_on af_starttime (disk c)"
    and "\<forall>f \<in> set (drop n (archive_files (c_dir c))). af_compressed f"
proof -
  define h where "h f = (if f \<in> U then set_compressed True f else f)" for f
  have start: "af_starttime (h f) = af_starttime f" for f by (simp add: h_def set_compressed_def)
  have "U \<subseteq> set hs" using U by (auto dest: in_set_dropD)
  then have D: "disk c = h ` set hs" unfolding disk h_def by auto
  have inj: "inj_on af_starttime (set hs)"
  proof -
    have "distinct (map af_starttime hs)" using desc by (induction hs) auto
    then show ?thesis by (simp add: distinct_map)
  qed
  show starts: "map af_starttime (archive_files (c_dir c)) = map af_starttime hs"
    by (rule archive_files_starts_eq [OF desc]) (auto simp: D start image_iff)
  show "inj_on af_starttime (disk c)" unfolding D using inj start by (auto simp: inj_on_def)
  show "\<forall>f \<in> set (drop n (archive_files (c_dir c))). af_compressed f"
  proof
    fix f assume f: "f \<in> set (drop n (archive_files (c_dir c)))"
    then have "af_starttime f \<in> set (drop n (map af_starttime hs))"
      unfolding starts [symmetric] by (simp add: drop_map)
    then obtain k where k: "k \<in> set (drop n hs)" "af_starttime k = af_starttime f" by (auto simp: drop_map)
    have "f \<in> disk c" using f set_archive_files by (fastforce simp: disk_iff dest: in_set_dropD)
    then obtain f0 where "f0 \<in> set hs" "f = h f0" using D by auto
    moreover from this have "f0 = k" using k inj start by (metis in_set_dropD inj_onD)
    ultimately show "af_compressed f" using k(1) by (auto simp: h_def U set_compressed_def)
  qed
qed

lemma rotate_files:
  assumes wf: "sc_wf (c_dir c)" and now: "i64_range now"
  shows "\<exists>b c'. rotate_archive cd cfg now c = Inr (b, c')
    \<and> b = needs_rotation cfg now (archive_files (c_dir c))
    \<and> map af_starttime (archive_files (c_dir c')) =
        take (cfg_max_files cfg) ((if b then [now] else []) @ map af_starttime (archive_files (c_dir c)))
    \<and> inj_on af_starttime (disk c')
    \<and> (\<forall>f \<in> set (drop (cfg_uncompressed_files cfg) (archive_files (c_dir c'))). af_compressed f)"
proof -
  obtain fs c1 where d: "drop_dupes {} (archive_files_with_dupes (c_dir c)) c = (fs, c1)" "disk c1 = set fs"
    "map af_starttime fs = map af_starttime (archive_files (c_dir c))"
    using wf by (rule drop_dupes_disk)
  let ?b = "needs_rotation cfg now fs" and ?S = "map af_starttime (archive_files (c_dir c))"
  have b: "?b = needs_rotation cfg now (archive_files (c_dir c))"
    using d(3) by (cases fs; cases "archive_files (c_dir c)") (auto simp: needs_rotation_def)
  have S: "sorted_wrt (>) ?S" using archive_files_desc by (simp add: files_desc_def sorted_wrt_map)
  have "\<exists>gs c2. (if ?b then start_new_file cd cfg now fs c1 else Inr (fs, c1)) = Inr (gs, c2)
      \<and> disk c2 = set gs \<and> map af_starttime gs = (if ?b then [now] else []) @ ?S"
    using start_new_file_disk [OF now, of cd cfg fs c1] d(2,3) by auto
  then obtain gs c2 where g: "(if ?b then start_new_file cd cfg now fs c1 else Inr (fs, c1)) = Inr (gs, c2)"
    "disk c2 = set gs" "map af_starttime gs = (if ?b then [now] else []) @ ?S" by blast
  have desc: "sorted_wrt (>) (map af_starttime gs)"
    using needs_rotation_fresh [of cfg now fs] S d(3) g(3) by (cases ?b) auto
  then have dist: "distinct gs" by (induction gs) auto
  let ?hs = "take (cfg_max_files cfg) gs"
  have trim: "fst (trim_files (cfg_max_files cfg) gs c2) = ?hs"
    "disk (snd (trim_files (cfg_max_files cfg) gs c2)) = set ?hs"
    using trim_files_props [of gs c2 "cfg_max_files cfg"] g(2) dist
    by (auto dest: in_set_dropD in_set_takeD)
      (metis UnE append_take_drop_id set_append, metis append_take_drop_id disjoint_iff distinct_append)
  let ?U = "{f \<in> set (drop (cfg_uncompressed_files cfg) ?hs). \<not> af_compressed f}"
  obtain cor c3 where comp: "compress_files cd (drop (cfg_uncompressed_files cfg) ?hs)
       (snd (trim_files (cfg_max_files cfg) gs c2)) = Inr (cor, c3)"
    "disk c3 = (set ?hs - ?U) \<union> set_compressed True ` ?U"
    using compress_files_disk [of "drop (cfg_uncompressed_files cfg) ?hs" "snd (trim_files (cfg_max_files cfg) gs c2)" cd]
      trim(2) dist by (auto dest: in_set_dropD)
  have "sorted_wrt (>) (map af_starttime ?hs)" using desc by (simp add: take_map [symmetric] sorted_wrt_take)
  note final = compressed_suffix [OF this comp(2) refl]
  have run: "rotate_archive cd cfg now c = Inr (?b, if cor \<noteq> [] then request_repair cor c3 else c3)"
    using d(1) g(1) trim(1) comp(1) by (auto simp: rotate_archive_def Let_def split: prod.splits)
  have "archive_files (c_dir (if cor \<noteq> [] then request_repair cor c3 else c3)) = archive_files (c_dir c3)"
    "disk (if cor \<noteq> [] then request_repair cor c3 else c3) = disk c3"
    by simp_all
  moreover have "map af_starttime ?hs = take (cfg_max_files cfg) ((if ?b then [now] else []) @ ?S)"
    by (simp only: take_map [symmetric] g(3))
  ultimately show ?thesis
    using run final b by (intro exI [of _ ?b] exI [of _ "if cor \<noteq> [] then request_repair cor c3 else c3"]) simp
qed

text \<open>Rotation always succeeds and leaves exactly the newest files: the start times afterwards
  are the first max_files of the old ones with the new one in front if a rotation was due, no
  start time is left in both compressed and plain form, and all but the newest files are compressed.\<close>

theorem rotate_spec:
  assumes "sc_wf (c_dir c)" "i64_range now"
  shows "\<exists>b c'. rotate_archive cd cfg now c = Inr (b, c')
    \<and> b = needs_rotation cfg now (archive_files (c_dir c))
    \<and> map af_starttime (archive_files (c_dir c')) =
        take (cfg_max_files cfg) ((if b then [now] else []) @ map af_starttime (archive_files (c_dir c)))
    \<and> length (archive_files (c_dir c')) \<le> cfg_max_files cfg
    \<and> inj_on af_starttime (set (archive_files_with_dupes (c_dir c')))
    \<and> (\<forall>f \<in> set (drop (cfg_uncompressed_files cfg) (archive_files (c_dir c'))). af_compressed f)"
proof -
  obtain b c' where r: "rotate_archive cd cfg now c = Inr (b, c')"
    "b = needs_rotation cfg now (archive_files (c_dir c))"
    "map af_starttime (archive_files (c_dir c')) =
        take (cfg_max_files cfg) ((if b then [now] else []) @ map af_starttime (archive_files (c_dir c)))"
    "inj_on af_starttime (disk c')"
    "\<forall>f \<in> set (drop (cfg_uncompressed_files cfg) (archive_files (c_dir c'))). af_compressed f"
    using rotate_files [OF assms, of cd cfg] by blast
  from arg_cong [OF r(3), of length] have "length (archive_files (c_dir c')) \<le> cfg_max_files cfg" by simp
  with r show ?thesis unfolding disk_def by blast
qed

theorem rotate_spec_witness:
  "\<exists>c'. rotate_archive ex_codec get_cache 200000 (ex_cache [] [ex_task ''a'' 3 (Some 4)] []) = Inr (True, c')
     \<and> map af_starttime (archive_files (c_dir c')) = [200000, 1]"
proof -
  let ?c = "ex_cache [] [ex_task ''a'' 3 (Some 4)] []"
  have "sc_wf (c_dir ?c)" by (simp add: ex_cache_def sc_wf_def)
  moreover have "i64_range 200000" by (simp add: i64_range_def)
  moreover have "needs_rotation get_cache 200000 (archive_files (c_dir ?c))"
    unfolding ex_archive_files by (simp add: needs_rotation_def get_cache_def wrap_i64_def)
  ultimately show ?thesis
    using rotate_spec [of ?c 200000 ex_codec get_cache] unfolding ex_archive_files
    by (auto simp: get_cache_def)
qed

definition init_start :: "cache_cfg \<Rightarrow> i64 \<Rightarrow> nat \<Rightarrow> i64" where
  "init_start cfg now i = wrap_i64 (now - wrap_i64 (int (i * cfg_rotate_after cfg)))"

lemma init_loop_disk:
  "disk (init_loop cd cfg now is c) = disk c \<union>
     (\<lambda>i. \<lparr>af_name = archive_path (init_start cfg now i) (cfg_uncompressed_files cfg \<le> i),
           af_compressed = (cfg_uncompressed_files cfg \<le> i), af_starttime = init_start cfg now i\<rparr>) ` set is"
proof (induction "is" arbitrary: c)
  case (Cons i "is")
  let ?f = "\<lparr>af_name = archive_path (init_start cfg now i) (cfg_uncompressed_files cfg \<le> i),
           af_compressed = (cfg_uncompressed_files cfg \<le> i), af_starttime = init_start cfg now i\<rparr>"
  have "i64_range (init_start cfg now i)" by (simp add: init_start_def wrap_i64_in_range)
  from parse_archive_path [OF this]
  have "disk (write_file cd ?f [] c) = insert ?f (disk c)" by (intro disk_write) simp
  then show ?case
    using Cons.IH by (simp add: new_file_def init_start_def [symmetric] Let_def del: of_nat_mult)
qed simp

lemma init_start_plain:
  assumes "i64_range now" "i64_range (now - int (m * cfg_rotate_after cfg))" "int (m * cfg_rotate_after cfg) < 2 ^ 63" "i \<le> m"
  shows "init_start cfg now i = now - int (i * cfg_rotate_after cfg)"
proof -
  have "int (i * cfg_rotate_after cfg) \<le> int (m * cfg_rotate_after cfg)"
    using assms(4) by (intro of_nat_mono mult_right_mono) auto
  moreover have "0 \<le> int (i * cfg_rotate_after cfg)" by simp
  ultimately have "i64_range (int (i * cfg_rotate_after cfg))" "i64_range (now - int (i * cfg_rotate_after cfg))"
    using assms unfolding i64_range_def by linarith+
  then show ?thesis by (simp add: init_start_def wrap_i64_id del: of_nat_mult)
qed

text \<open>Initialising an empty cache creates one file per rotation interval going back from now, the
  older ones compressed, and does nothing when repeated.\<close>

theorem init_spec:
  assumes empty: "archive_files (c_dir c) = []"
    and range: "i64_range now" "i64_range (now - int (cfg_max_files cfg * cfg_rotate_after cfg))"
      "int (cfg_max_files cfg * cfg_rotate_after cfg) < 2 ^ 63" and pos: "0 < cfg_rotate_after cfg"
  shows "map af_starttime (archive_files (c_dir (init cd cfg now c)))
       = map (\<lambda>i. now - int (i * cfg_rotate_after cfg)) [0..<cfg_max_files cfg]
    \<and> (\<forall>f \<in> set (drop (cfg_uncompressed_files cfg) (archive_files (c_dir (init cd cfg now c)))). af_compressed f)
    \<and> init cd cfg now (init cd cfg now c) = init cd cfg now c"
proof -
  let ?m = "cfg_max_files cfg" and ?c = "init cd cfg now c"
  let ?f = "\<lambda>i. \<lparr>af_name = archive_path (init_start cfg now i) (cfg_uncompressed_files cfg \<le> i),
           af_compressed = (cfg_uncompressed_files cfg \<le> i), af_starttime = init_start cfg now i\<rparr>"
  let ?S = "map (\<lambda>i. now - int (i * cfg_rotate_after cfg)) [0..<?m]"
  have "af_starttime ` disk c = {}" using empty archive_files_starttimes [of "c_dir c"] by (simp add: disk_def)
  then have D: "disk ?c = ?f ` {0..<?m}" using empty by (simp add: init_def init_loop_disk)
  have start: "init_start cfg now i = now - int (i * cfg_rotate_after cfg)" if "i < ?m" for i
    using init_start_plain [OF range] that by simp
  have desc: "sorted_wrt (>) ?S"
    using pos by (auto simp: sorted_wrt_iff_nth_less simp flip: of_nat_mult)
  have starts: "map af_starttime (archive_files (c_dir ?c)) = ?S"
    by (rule archive_files_starts_eq [OF desc]) (use start in \<open>auto simp: D image_image simp del: of_nat_mult\<close>)
  have comp: "af_compressed f" if f: "f \<in> set (drop (cfg_uncompressed_files cfg) (archive_files (c_dir ?c)))" for f
  proof -
    from f have "af_starttime f \<in> set (drop (cfg_uncompressed_files cfg) ?S)"
      unfolding starts [symmetric] by (simp add: drop_map)
    then obtain j where j: "cfg_uncompressed_files cfg \<le> j" "j < ?m" "af_starttime f = now - int (j * cfg_rotate_after cfg)"
      by (auto simp: drop_map)
    have "f \<in> disk ?c" using f set_archive_files by (fastforce simp: disk_iff dest: in_set_dropD)
    then obtain i where i: "i < ?m" "f = ?f i" using D by auto
    with j start have "int (i * cfg_rotate_after cfg) = int (j * cfg_rotate_after cfg)" by simp
    with pos have "i = j" by simp
    with i j show ?thesis by simp
  qed
  have "init cd cfg now ?c = ?c"
  proof (cases "?m = 0")
    case True
    then show ?thesis using empty by (simp add: init_def)
  next
    case False
    with starts have "archive_files (c_dir ?c) \<noteq> []" by auto
    then show ?thesis by (subst init_def) simp
  qed
  with starts comp show ?thesis by blast
qed

theorem init_spec_witness:
  "map af_starttime (archive_files (c_dir (init ex_codec get_cache 1000000 \<lparr>c_dir = [], c_state = None\<rparr>)))
     = map (\<lambda>i. 1000000 - int (i * 86400)) [0..<7]"
proof -
  have "archive_files (c_dir (\<lparr>c_dir = [], c_state = None\<rparr> :: task_cache_item cache)) = []"
    by (simp add: archive_files_def archive_files_with_dupes_def List.map_filter_simps sort_by_def)
  from init_spec [OF this, of 1000000 get_cache ex_codec] show ?thesis
    by (simp add: get_cache_def i64_range_def)
qed

end
