(* ===== verification/Task_Update.thy ===== *)
theory Task_Update
  imports Task_Rotate
begin

text \<open>
  Updates of the task cache: what reaches the journal and the active file, how the fetch cutoffs
  move, and the repair that damaged files trigger.
\<close>

section \<open>Updates\<close>

lemma cutoff_update:
  "cutoff_timestamp (update_cutoff_timestamp r n f st) r' n' =
     (if r' = r \<and> n' = n then Some (f (cutoff_timestamp st r n)) else cutoff_timestamp st r' n')"
  by (auto simp: cutoff_timestamp_def update_cutoff_timestamp_def split: option.splits)

lemma tracked_update [simp]: "ts_tracked_tasks (update_cutoff_timestamp r n f st) = ts_tracked_tasks st"
  by (simp add: update_cutoff_timestamp_def split: option.splits)

lemma cutoff_bump:
  "cutoff_timestamp (bump_cutoff f success r n st) r' n' =
     (if node_successful success r n \<and> r' = r \<and> n' = n then Some (f (cutoff_timestamp st r n))
      else cutoff_timestamp st r' n')"
  by (simp add: bump_cutoff_def cutoff_update)

lemma tracked_bump [simp]: "ts_tracked_tasks (bump_cutoff f success r n st) = ts_tracked_tasks st"
  by (simp add: bump_cutoff_def)

lemma journal_finished_spec:
  "journal_finished ue cd success ts (lines, active, st) = (lines', active', st') \<Longrightarrow>
     lines' = lines @ map (\<lambda>t. Line (enc cd t)) (filter (\<lambda>t. task_node ue t \<noteq> None) ts)
     \<and> active' = filter (\<lambda>(u, _). u \<notin> ti_upid ` set ts) active
     \<and> ts_tracked_tasks st' = ts_tracked_tasks st
     \<and> (\<forall>r n. \<not> node_successful success r n \<longrightarrow> cutoff_timestamp st' r n = cutoff_timestamp st r n)"
proof (induction ts arbitrary: lines active st)
  case (Cons t ts)
  have rm: "filter (\<lambda>(u, _). u \<notin> ti_upid ` set ts) (active_remove (ti_upid t) active)
      = filter (\<lambda>(u, _). u \<notin> ti_upid ` set (t # ts)) active"
    unfolding active_remove_def filter_filter by (rule filter_cong) auto
  show ?case
  proof (cases "task_node ue t")
    case None
    with Cons.prems Cons.IH [of lines "active_remove (ti_upid t) active" st] rm show ?thesis
      by (simp add: Let_def)
  next
    case (Some nod)
    with Cons.prems Cons.IH [of "lines @ [Line (enc cd t)]" "active_remove (ti_upid t) active"] rm show ?thesis
      by (auto simp: Let_def cutoff_bump)
  qed
qed simp

lemma lower_cutoffs_tracked [simp]: "ts_tracked_tasks (lower_cutoffs ue success ts st) = ts_tracked_tasks st"
  by (induction ue success ts st rule: lower_cutoffs.induct) (auto split: option.splits)

lemma lower_cutoffs_le:
  "cutoff_timestamp st r n = Some x \<Longrightarrow> \<exists>y \<le> x. cutoff_timestamp (lower_cutoffs ue success ts st) r n = Some y"
proof (induction ue success ts st arbitrary: x rule: lower_cutoffs.induct)
  case (2 ue success t ts st)
  show ?case
  proof (cases "task_node ue t")
    case None
    with 2 show ?thesis by simp
  next
    case (Some nod)
    let ?st = "bump_cutoff (\<lambda>existing. min (case existing of None \<Rightarrow> i64_max | Some x \<Rightarrow> x) (ti_starttime t))
               success (ru_remote (ti_upid t)) nod st"
    have "\<exists>y \<le> x. cutoff_timestamp ?st r n = Some y"
      using 2(3) by (auto simp: cutoff_bump)
    then obtain y where "y \<le> x" "cutoff_timestamp ?st r n = Some y" by blast
    with 2(2) [OF Some] Some show ?thesis by fastforce
  qed
qed auto

lemma lower_cutoffs_other:
  "\<not> node_successful success r n \<Longrightarrow>
     cutoff_timestamp (lower_cutoffs ue success ts st) r n = cutoff_timestamp st r n"
  by (induction ue success ts st rule: lower_cutoffs.induct) (auto simp: cutoff_bump split: option.splits)

lemma lower_cutoffs_covers:
  assumes "t \<in> set ts" "task_node ue t = Some nod" "node_successful success (ru_remote (ti_upid t)) nod"
  shows "\<exists>y \<le> ti_starttime t. cutoff_timestamp (lower_cutoffs ue success ts st) (ru_remote (ti_upid t)) nod = Some y"
  using assms
proof (induction ue success ts st rule: lower_cutoffs.induct)
  case (2 ue success t' ts st)
  show ?case
  proof (cases "t = t'")
    case True
    let ?st = "bump_cutoff (\<lambda>existing. min (case existing of None \<Rightarrow> i64_max | Some x \<Rightarrow> x) (ti_starttime t))
               success (ru_remote (ti_upid t)) nod st"
    have "\<exists>y \<le> ti_starttime t. cutoff_timestamp ?st (ru_remote (ti_upid t)) nod = Some y"
      using 2(5) by (simp add: cutoff_bump)
    then obtain y where "y \<le> ti_starttime t" "cutoff_timestamp ?st (ru_remote (ti_upid t)) nod = Some y" by blast
    with lower_cutoffs_le [of ?st _ _ y ue success ts] True 2(4) show ?thesis by fastforce
  next
    case False
    with 2 show ?thesis by (auto split: option.splits)
  qed
qed simp

definition active_ok :: "active_map \<Rightarrow> bool" where
  "active_ok m \<longleftrightarrow> distinct (map fst m) \<and> (\<forall>(u, t) \<in> set m. ti_upid t = u)"

lemma active_insert_map: "map_of (active_insert t m) = (map_of m)(ti_upid t \<mapsto> t)"
  by (induction t m rule: active_insert.induct) auto

lemma active_insert_keys: "fst ` set (active_insert t m) = insert (ti_upid t) (fst ` set m)"
  by (induction t m rule: active_insert.induct) auto

lemma active_insert_ok: "active_ok m \<Longrightarrow> active_ok (active_insert t m)"
  by (induction t m rule: active_insert.induct)
    (auto simp: active_ok_def active_insert_keys image_iff split: if_splits)

lemma fold_active_ok: "active_ok m \<Longrightarrow> active_ok (fold active_insert ts m)"
  by (induction ts arbitrary: m) (simp_all add: active_insert_ok)

lemma fold_active_keys: "fst ` set (fold active_insert ts m) = ti_upid ` set ts \<union> fst ` set m"
  by (induction ts arbitrary: m) (auto simp: active_insert_keys)

lemma active_ok_filter: "active_ok m \<Longrightarrow> active_ok (filter P m)"
  by (auto simp: active_ok_def distinct_map_filter)

lemma active_ok_upids: "active_ok m \<Longrightarrow> ti_upid ` snd ` set m = fst ` set m"
  by (force simp: active_ok_def image_iff)

lemma cached_active_written:
  assumes "codec_ok cd" "sc_get (c_dir c) (af_name active_file) = Some (map (\<lambda>t. Line (enc cd t)) ts)"
  shows "cached_active cd c = ts"
  using assms by (simp add: cached_active_eq file_items_def archive_iter_enc)

lemma active_name [simp]: "af_name active_file \<noteq> journal_name" "journal_name \<noteq> af_name active_file"
  using active_not_archive by metis+

definition journal_lines :: "'l cache \<Rightarrow> 'l fline list" where
  "journal_lines c = (case sc_get (c_dir c) journal_name of None \<Rightarrow> [] | Some ls \<Rightarrow> ls)"

lemma archive_files_insert:
  assumes "parse_archive_filename k = None"
  shows "archive_files (sc_insert k v d) = archive_files d"
proof -
  have "List.map_filter (\<lambda>(name, _). parse_archive_filename name) (sc_insert k v d)
      = List.map_filter (\<lambda>(name, _). parse_archive_filename name) d"
    using assms by (induction k v d rule: sc_insert.induct) (auto simp: List.map_filter_simps split: option.splits)
  then show ?thesis unfolding archive_files_def archive_files_with_dupes_def by simp
qed

lemma update_before_apply:
  assumes cd: "codec_ok cd"
  shows "\<exists>c1. update ue cd cfg new success drop_tracked c = apply_journal_if_too_large cd cfg c1
    \<and> sc_get (c_dir c1) journal_name = Some (journal_lines c @ map (\<lambda>t. Line (enc cd t))
          (filter (\<lambda>t. ti_endtime t \<noteq> None \<and> task_node ue t \<noteq> None) new))
    \<and> ti_upid ` set (cached_active cd c1) =
        (ti_upid ` set (cached_active cd c) - drop_tracked \<union> ti_upid ` {t \<in> set new. ti_endtime t = None})
        - ti_upid ` {t \<in> set new. ti_endtime t \<noteq> None}
    \<and> tasks_sorted (cached_active cd c1)
    \<and> ts_tracked_tasks (read_state c1) = ts_tracked_tasks (read_state c) - drop_tracked
    \<and> (\<forall>k. k \<noteq> journal_name \<longrightarrow> k \<noteq> af_name active_file \<longrightarrow> sc_get (c_dir c1) k = sc_get (c_dir c) k)
    \<and> (\<forall>t \<in> set (cached_active cd c1). \<forall>nod. task_node ue t = Some nod \<longrightarrow>
          node_successful success (ru_remote (ti_upid t)) nod \<longrightarrow>
          (\<exists>y \<le> ti_starttime t. cutoff_timestamp (read_state c1) (ru_remote (ti_upid t)) nod = Some y))
    \<and> (\<forall>r n. \<not> node_successful success r n \<longrightarrow>
          cutoff_timestamp (read_state c1) r n = cutoff_timestamp (read_state c) r n)
    \<and> archive_files (c_dir c1) = archive_files (c_dir c)"
proof -
  define kept where "kept = fold active_insert (filter (\<lambda>t. ti_upid t \<notin> drop_tracked) (cached_active cd c)) []"
  define act where "act = fold active_insert (filter (\<lambda>t. ti_endtime t = None) new) kept"
  define fin where "fin = filter (\<lambda>t. ti_endtime t \<noteq> None) new"
  define st0 where "st0 = (read_state c)\<lparr>ts_tracked_tasks := ts_tracked_tasks (read_state c) - drop_tracked\<rparr>"
  obtain lines act1 st1 where jf: "journal_finished ue cd success fin (journal_lines c, act, st0) = (lines, act1, st1)"
    by (cases "journal_finished ue cd success fin (journal_lines c, act, st0)") auto
  define st2 where "st2 = lower_cutoffs ue success (map snd act1) st1"
  define c1 where "c1 = write_state st2 (write_active_tasks cd (sort_by compare_tasks_reverse (map snd act1))
      (c\<lparr>c_dir := sc_insert journal_name lines (c_dir c)\<rparr>))"
  have upd: "update ue cd cfg new success drop_tracked c = apply_journal_if_too_large cd cfg c1"
    using jf
    by (simp add: update_def Let_def write_tasks_to_journal_def journal_lines_def [symmetric] kept_def act_def
        fin_def st0_def c1_def st2_def)
  note spec = journal_finished_spec [OF jf]
  have ok: "active_ok act"
    unfolding act_def kept_def by (intro fold_active_ok) (simp add: active_ok_def)
  then have ok1: "active_ok act1" using spec active_ok_filter by metis
  have active: "cached_active cd c1 = sort_by compare_tasks_reverse (map snd act1)"
    by (rule cached_active_written [OF cd])
      (simp add: c1_def write_state_def write_active_tasks_def write_file_def sc_laws)
  then have set_active: "set (cached_active cd c1) = snd ` set act1" by simp
  have keys: "fst ` set act = (ti_upid ` set (cached_active cd c) - drop_tracked) \<union> ti_upid ` {t \<in> set new. ti_endtime t = None}"
    unfolding act_def kept_def fold_active_keys by auto
  have "ti_upid ` set (cached_active cd c1) = fst ` set act - ti_upid ` set fin"
    unfolding set_active active_ok_upids [OF ok1] using spec by force
  then have upids: "ti_upid ` set (cached_active cd c1) =
        (ti_upid ` set (cached_active cd c) - drop_tracked \<union> ti_upid ` {t \<in> set new. ti_endtime t = None})
        - ti_upid ` {t \<in> set new. ti_endtime t \<noteq> None}"
    unfolding keys by (simp add: fin_def)
  have st: "read_state c1 = st2" by (simp add: c1_def write_state_def read_state_def)
  have "sc_get (c_dir c1) journal_name = Some lines"
    by (simp add: c1_def write_state_def write_active_tasks_def write_file_def sc_laws)
  moreover have "lines = journal_lines c @ map (\<lambda>t. Line (enc cd t))
          (filter (\<lambda>t. ti_endtime t \<noteq> None \<and> task_node ue t \<noteq> None) new)"
    using spec by (simp add: fin_def conj_commute)
  moreover have "sc_get (c_dir c1) k = sc_get (c_dir c) k" if "k \<noteq> journal_name" "k \<noteq> af_name active_file" for k
    using that by (simp add: c1_def write_state_def write_active_tasks_def write_file_def sc_laws)
  moreover have "\<exists>y \<le> ti_starttime t. cutoff_timestamp (read_state c1) (ru_remote (ti_upid t)) nod = Some y"
    if "t \<in> set (cached_active cd c1)" "task_node ue t = Some nod" "node_successful success (ru_remote (ti_upid t)) nod" for t nod
    using that lower_cutoffs_covers [of t "map snd act1" ue nod success st1] unfolding st st2_def set_active by simp
  moreover have "cutoff_timestamp (read_state c1) r n = cutoff_timestamp (read_state c) r n"
    if "\<not> node_successful success r n" for r n
  proof -
    have "cutoff_timestamp st0 r n = cutoff_timestamp (read_state c) r n" by (simp add: st0_def cutoff_timestamp_def)
    with that spec show ?thesis unfolding st st2_def lower_cutoffs_other [OF that] by simp
  qed
  moreover have "ts_tracked_tasks (read_state c1) = ts_tracked_tasks (read_state c) - drop_tracked"
    using spec by (simp add: st st2_def st0_def)
  moreover have "tasks_sorted (cached_active cd c1)"
    unfolding active by (rule task_order.sorted_sort_by)
  moreover have "archive_files (c_dir c1) = archive_files (c_dir c)"
    by (simp add: c1_def write_state_def write_active_tasks_def write_file_def archive_files_insert active_file_def)
  ultimately show ?thesis using upd upids by (intro exI [of _ c1]) simp
qed

lemma cutoff_request_repair:
  "cutoff_timestamp (read_state (request_repair cor c)) r n =
     (if cor = [] then cutoff_timestamp (read_state c) r n
      else map_option (\<lambda>x. min x (Min (af_starttime ` set cor))) (cutoff_timestamp (read_state c) r n))"
proof (cases cor)
  case (Cons f fs)
  then show ?thesis
    by (cases "ts_remote_state (read_state c) r")
      (simp_all add: request_repair_def Let_def write_state_def read_state_def [of "c\<lparr>c_state := Some _\<rparr>"] cutoff_timestamp_def)
qed (simp add: request_repair_def)

lemma tracked_request_repair [simp]:
  "ts_tracked_tasks (read_state (request_repair cor c)) = ts_tracked_tasks (read_state c)"
  by (cases cor) (simp_all add: request_repair_def Let_def write_state_def read_state_def [of "c\<lparr>c_state := Some _\<rparr>"])

definition only_lowers :: "task_state \<Rightarrow> task_state \<Rightarrow> bool" where
  "only_lowers st st' \<longleftrightarrow> (\<forall>r n. rel_option (\<ge>) (cutoff_timestamp st r n) (cutoff_timestamp st' r n))"

lemma only_lowersD:
  "only_lowers st st' \<Longrightarrow> cutoff_timestamp st r n = Some x \<Longrightarrow> \<exists>y \<le> x. cutoff_timestamp st' r n = Some y"
  unfolding only_lowers_def by (metis option_rel_Some1)

lemma only_lowers_repair: "only_lowers (read_state c) (read_state (request_repair cor c))"
  unfolding only_lowers_def cutoff_request_repair by (auto simp: option.rel_map intro!: option.rel_refl)

lemma apply_journal_keeps:
  assumes "apply_journal cd c = Inr c'"
  shows "cached_active cd c' = cached_active cd c \<and> only_lowers (read_state c) (read_state c')
    \<and> ts_tracked_tasks (read_state c') = ts_tracked_tasks (read_state c)"
proof (cases "sc_get (c_dir c) journal_name")
  case None
  with assms show ?thesis by (simp add: apply_journal_def only_lowers_def option.rel_refl)
next
  case (Some ls)
  from apply_journal_effect [OF this, of cd] obtain c1 cor where
    ap: "apply_journal cd c = Inr (if cor \<noteq> [] then request_repair cor c1 else c1)"
    and st: "c_state c1 = c_state c"
    and other: "\<forall>k. k \<notin> af_name ` set (archive_files (c_dir c)) \<longrightarrow> k \<noteq> journal_name \<longrightarrow>
           sc_get (c_dir c1) k = sc_get (c_dir c) k"
    unfolding Let_def by blast
  have rs: "read_state c1 = read_state c" using st by (simp add: read_state_def)
  have "sc_get (c_dir c1) (af_name active_file) = sc_get (c_dir c) (af_name active_file)"
    using other active_not_archive [of "c_dir c"] by blast
  then have "cached_active cd c1 = cached_active cd c" by (simp add: cached_active_eq file_items_def)
  moreover have "cached_active cd (request_repair cor c1) = cached_active cd c1" by (simp add: cached_active_eq)
  moreover have "c' = (if cor \<noteq> [] then request_repair cor c1 else c1)" using ap assms by simp
  ultimately show ?thesis
    using only_lowers_repair [of c1 cor] rs by (auto simp: only_lowers_def option.rel_refl)
qed

lemma apply_if_too_large_keeps:
  assumes "apply_journal_if_too_large cd cfg c = Inr c'"
  shows "cached_active cd c' = cached_active cd c \<and> only_lowers (read_state c) (read_state c')
    \<and> ts_tracked_tasks (read_state c') = ts_tracked_tasks (read_state c)"
  using assms apply_journal_keeps [of cd c c']
  by (auto simp: apply_journal_if_too_large_def and_then_Inr_iff only_lowers_def option.rel_refl split: if_splits)

lemma update_effect:
  assumes "codec_ok cd" "update ue cd cfg new success drop_tracked c = Inr c'"
  shows "(\<forall>t \<in> set (cached_active cd c'). \<forall>nod. task_node ue t = Some nod \<longrightarrow>
          node_successful success (ru_remote (ti_upid t)) nod \<longrightarrow>
          (\<exists>y \<le> ti_starttime t. cutoff_timestamp (read_state c') (ru_remote (ti_upid t)) nod = Some y))
    \<and> (\<forall>r n. \<not> node_successful success r n \<longrightarrow>
          rel_option (\<ge>) (cutoff_timestamp (read_state c) r n) (cutoff_timestamp (read_state c') r n))
    \<and> ti_upid ` set (cached_active cd c') =
        (ti_upid ` set (cached_active cd c) - drop_tracked \<union> ti_upid ` {t \<in> set new. ti_endtime t = None})
        - ti_upid ` {t \<in> set new. ti_endtime t \<noteq> None}
    \<and> ts_tracked_tasks (read_state c') = ts_tracked_tasks (read_state c) - drop_tracked"
proof -
  obtain c1 where "update ue cd cfg new success drop_tracked c = apply_journal_if_too_large cd cfg c1"
    and u: "ti_upid ` set (cached_active cd c1) =
        (ti_upid ` set (cached_active cd c) - drop_tracked \<union> ti_upid ` {t \<in> set new. ti_endtime t = None})
        - ti_upid ` {t \<in> set new. ti_endtime t \<noteq> None}"
      "ts_tracked_tasks (read_state c1) = ts_tracked_tasks (read_state c) - drop_tracked"
      "\<forall>t \<in> set (cached_active cd c1). \<forall>nod. task_node ue t = Some nod \<longrightarrow>
          node_successful success (ru_remote (ti_upid t)) nod \<longrightarrow>
          (\<exists>y \<le> ti_starttime t. cutoff_timestamp (read_state c1) (ru_remote (ti_upid t)) nod = Some y)"
      "\<forall>r n. \<not> node_successful success r n \<longrightarrow>
          cutoff_timestamp (read_state c1) r n = cutoff_timestamp (read_state c) r n"
    using update_before_apply [OF assms(1), of ue cfg new success drop_tracked c] by blast
  with assms(2) have ap: "apply_journal_if_too_large cd cfg c1 = Inr c'" by simp
  note keep = apply_if_too_large_keeps [OF ap]
  have low: "\<exists>y \<le> ti_starttime t. cutoff_timestamp (read_state c') (ru_remote (ti_upid t)) nod = Some y"
    if "t \<in> set (cached_active cd c')" "task_node ue t = Some nod" "node_successful success (ru_remote (ti_upid t)) nod" for t nod
    using that u(3) keep only_lowersD by (metis order.trans)
  have "rel_option (\<ge>) (cutoff_timestamp (read_state c) r n) (cutoff_timestamp (read_state c') r n)"
    if "\<not> node_successful success r n" for r n
    using keep that u(4) unfolding only_lowers_def by metis
  with low u(1,2) keep show ?thesis by simp
qed

text \<open>After an update the fetch cutoff of every successfully fetched node is at most the
  start of each of its running tasks, cutoffs of nodes that were not fetched are at most lowered, the
  active file holds the previous and new running tasks less the dropped and finished ones, and exactly the
  dropped tasks are no longer tracked.\<close>

theorem update_never_skips_running:
  assumes "codec_ok cd" "update ue cd cfg new success drop_tracked c = Inr c'"
  shows "(\<forall>t \<in> set (cached_active cd c'). \<forall>nod. task_node ue t = Some nod \<longrightarrow>
          node_successful success (ru_remote (ti_upid t)) nod \<longrightarrow>
          (\<exists>y \<le> ti_starttime t. cutoff_timestamp (read_state c') (ru_remote (ti_upid t)) nod = Some y))
    \<and> (\<forall>r n. \<not> node_successful success r n \<longrightarrow>
          rel_option (\<ge>) (cutoff_timestamp (read_state c) r n) (cutoff_timestamp (read_state c') r n))
    \<and> ti_upid ` set (cached_active cd c') =
        (ti_upid ` set (cached_active cd c) - drop_tracked \<union> ti_upid ` {t \<in> set new. ti_endtime t = None})
        - ti_upid ` {t \<in> set new. ti_endtime t \<noteq> None}
    \<and> ts_tracked_tasks (read_state c') = ts_tracked_tasks (read_state c) - drop_tracked"
  using assms by (rule update_effect)

theorem update_never_skips_running_witness:
  "\<exists>c'. update ex_upid_env ex_codec get_cache [ex_task ''n#1'' 5 None, ex_task ''n#2'' 9 (Some 10)]
       (\<lambda>k. Some True) {} (ex_cache [] [] []) = Inr c'
     \<and> ti_upid ` set (cached_active ex_codec c') = {ti_upid (ex_task ''n#1'' 5 None)}"
proof -
  let ?new = "[ex_task ''n#1'' 5 None, ex_task ''n#2'' 9 (Some 10)]" and ?c = "ex_cache [] [] []"
  have node: "task_node ex_upid_env (ex_task u s e) = Some ''localhost''" if "CHR ''#'' \<in> set u" for u s e
    using that split_once_None_iff [of "CHR ''#''" u]
    by (cases "split_once (CHR ''#'') u")
      (auto simp: task_node_def ex_task_def parse_native_def ex_upid_env_def native_node_def)
  obtain c1 where c1: "update ex_upid_env ex_codec get_cache ?new (\<lambda>k. Some True) {} ?c
      = apply_journal_if_too_large ex_codec get_cache c1"
    "sc_get (c_dir c1) journal_name = Some [Line (ex_task ''n#2'' 9 (Some 10))]"
    using update_before_apply [OF ex_codec_ok, of ex_upid_env get_cache ?new "\<lambda>k. Some True" "{}" ?c]
      node [of "''n#2''" 9 "Some 10"]
    by (auto simp: journal_lines_def ex_gets ex_task_def ex_codec_def)
  then have run: "update ex_upid_env ex_codec get_cache ?new (\<lambda>k. Some True) {} ?c = Inr c1"
    by (simp add: apply_journal_if_too_large_def journal_size_def ex_codec_def get_cache_def)
  have sets: "{t \<in> set ?new. ti_endtime t = None} = {ex_task ''n#1'' 5 None}"
    "{t \<in> set ?new. ti_endtime t \<noteq> None} = {ex_task ''n#2'' 9 (Some 10)}"
    by (auto simp: ex_task_def)
  from update_never_skips_running [OF ex_codec_ok run]
  have "ti_upid ` set (cached_active ex_codec c1) = {ti_upid (ex_task ''n#1'' 5 None)} - {ti_upid (ex_task ''n#2'' 9 (Some 10))}"
    unfolding sets ex_active by simp
  with run show ?thesis by (auto simp: ex_task_def)
qed

lemma repair_lowers:
  assumes "f \<in> set cor" "cutoff_timestamp (read_state (request_repair cor c)) r n = Some x"
  shows "x \<le> af_starttime f"
proof -
  let ?m = "Min (af_starttime ` set cor)"
  from assms(1) have "cor \<noteq> []" by auto
  with assms(2) obtain z where "x = min z ?m" by (auto simp: cutoff_request_repair)
  then have "x \<le> ?m" by (simp add: min.cobounded2 del: Min_le_iff Min_ge_iff)
  also have "?m \<le> af_starttime f" using assms(1) by simp
  finally show ?thesis .
qed

text \<open>C10. Applying the journal never fails, puts every task into the newest archive file whose
  start time is not after the task (dropping tasks older than all files), rewrites only those files,
  merging with what was readable in them, and when it meets a damaged file lowers every fetch cutoff to
  that file's start, so its tasks are fetched again.\<close>

theorem apply_journal_distributes:
  assumes "sc_get (c_dir c) journal_name = Some ls"
  shows "\<exists>c'. apply_journal cd c = Inr c'
    \<and> archive_files (c_dir c') = archive_files (c_dir c)
    \<and> sc_get (c_dir c') journal_name = Some []
    \<and> (\<forall>f \<in> set (archive_files (c_dir c)).
          let own = filter (\<lambda>t. owner_of (archive_files (c_dir c)) t = Some f) (journal_iter cd ls)
          in sc_get (c_dir c') (af_name f) =
               (if own = [] then sc_get (c_dir c) (af_name f)
                else Some (map (\<lambda>t. Line (enc cd t)) (merge_tasks (file_list cd (c_dir c) f) own)))
             \<and> (own \<noteq> [] \<longrightarrow> None \<in> set (file_items cd (c_dir c) f) \<longrightarrow>
                  (\<forall>r n x. cutoff_timestamp (read_state c') r n = Some x \<longrightarrow> x \<le> af_starttime f)))"
proof -
  let ?fs = "archive_files (c_dir c)"
  define cor where "cor = filter (\<lambda>f. file_tasks ?fs (journal_iter cd ls) f \<noteq> []
              \<and> None \<in> set (file_items cd (c_dir c) f)) ?fs"
  obtain c1 where ap: "apply_journal cd c = Inr (if cor \<noteq> [] then request_repair cor c1 else c1)"
    and names: "map fst (c_dir c1) = map fst (c_dir c)" and j: "sc_get (c_dir c1) journal_name = Some []"
    and get: "\<forall>f \<in> set ?fs. sc_get (c_dir c1) (af_name f) =
           merged_lines cd (c_dir c) f (file_tasks ?fs (journal_iter cd ls) f)"
    using apply_journal_effect [OF assms, of cd] unfolding Let_def cor_def [symmetric] by blast
  define c' where "c' = (if cor \<noteq> [] then request_repair cor c1 else c1)"
  have dir: "c_dir c' = c_dir c1" by (simp add: c'_def)
  have low: "x \<le> af_starttime f" if "f \<in> set cor" "cutoff_timestamp (read_state c') r n = Some x" for f r n x
    using repair_lowers [OF that(1), of c1 r n x] that by (auto simp: c'_def split: if_splits)
  have ft: "file_tasks ?fs (journal_iter cd ls) f = filter (\<lambda>t. owner_of ?fs t = Some f) (journal_iter cd ls)" for f
    by (simp add: file_tasks_def owner_of_def)
  show ?thesis
  proof (intro exI [of _ c'] conjI ballI)
    show "apply_journal cd c = Inr c'" using ap by (simp add: c'_def)
    show "archive_files (c_dir c') = ?fs" unfolding dir using names by (rule archive_files_names)
    show "sc_get (c_dir c') journal_name = Some []" using j dir by simp
    fix f assume f: "f \<in> set ?fs"
    let ?own = "filter (\<lambda>t. owner_of ?fs t = Some f) (journal_iter cd ls)"
    have "sc_get (c_dir c') (af_name f) = (if ?own = [] then sc_get (c_dir c) (af_name f)
                else Some (map (\<lambda>t. Line (enc cd t)) (merge_tasks (file_list cd (c_dir c) f) ?own)))"
      using get f unfolding dir ft by (simp add: merged_lines_def file_list_def)
    moreover have "\<forall>r n x. cutoff_timestamp (read_state c') r n = Some x \<longrightarrow> x \<le> af_starttime f"
      if "?own \<noteq> []" "None \<in> set (file_items cd (c_dir c) f)"
      using low [of f] f that unfolding cor_def ft by auto
    ultimately show "let own = ?own in sc_get (c_dir c') (af_name f) =
               (if own = [] then sc_get (c_dir c) (af_name f)
                else Some (map (\<lambda>t. Line (enc cd t)) (merge_tasks (file_list cd (c_dir c) f) own)))
             \<and> (own \<noteq> [] \<longrightarrow> None \<in> set (file_items cd (c_dir c) f) \<longrightarrow>
                  (\<forall>r n x. cutoff_timestamp (read_state c') r n = Some x \<longrightarrow> x \<le> af_starttime f))"
      unfolding Let_def by blast
  qed
qed

theorem apply_journal_distributes_witness:
  "\<exists>c'. apply_journal ex_codec (ex_cache [] [] [ex_task ''b'' 5 (Some 6)]) = Inr c'
     \<and> sc_get (c_dir c') journal_name = Some []"
  using apply_journal_distributes [OF ex_gets(1), of ex_codec "[]" "[]" "[ex_task ''b'' 5 (Some 6)]"] by blast

definition ex_broken_cache :: "task_cache_item cache" where
  "ex_broken_cache = \<lparr>c_dir = [(''active'', []), (''archive.1'', [ReadError]), (''journal'', [])],
     c_state = Some \<lparr>ts_remote_state = [''r1'' \<mapsto> [''localhost'' \<mapsto> 7]], ts_tracked_tasks = {}\<rparr>\<rparr>"

text \<open>A damaged archive file found while listing all tasks lowers every fetch cutoff to its start
  time, so that the next fetch restores its tasks.\<close>

theorem read_repair:
  assumes "f \<in> set (archive_files (c_dir c))" "None \<in> set (file_items cd (c_dir c) f)" "af_starttime f \<noteq> 0"
    and "cutoff_timestamp (read_state (request_repair (snd (get_tasks_impl cd Get_All (c_dir c))) c)) r n = Some x"
  shows "x \<le> af_starttime f"
proof -
  let ?cor = "snd (get_tasks_impl cd Get_All (c_dir c))"
  have "0 < count_list (file_items cd (c_dir c) f) None"
    using assms(2) by (metis bot_nat_0.not_eq_extremum count_list_0_iff)
  then have f: "f \<in> set ?cor"
    using assms(1,3) by (force simp: get_tasks_impl_def task_archive_iter_def inner_task_archive_iter_def)
  then show ?thesis using assms(4) by (rule repair_lowers)
qed

theorem read_repair_witness:
  "\<exists>x. cutoff_timestamp (read_state (request_repair (snd (get_tasks_impl ex_codec Get_All
       (c_dir ex_broken_cache))) ex_broken_cache)) ''r1'' ''localhost'' = Some x \<and> x \<le> 1"
proof -
  let ?f = "\<lparr>af_name = ''archive.1'', af_compressed = False, af_starttime = 1\<rparr>"
  have "cutoff_timestamp (read_state ex_broken_cache) ''r1'' ''localhost'' = Some 7"
    by (simp add: ex_broken_cache_def read_state_def cutoff_timestamp_def)
  then have "\<exists>x. cutoff_timestamp (read_state (request_repair cor ex_broken_cache)) ''r1'' ''localhost'' = Some x" for cor
    by (cases "cor = []") (simp_all add: cutoff_request_repair)
  then obtain x where x: "cutoff_timestamp (read_state (request_repair (snd (get_tasks_impl ex_codec Get_All
       (c_dir ex_broken_cache))) ex_broken_cache)) ''r1'' ''localhost'' = Some x"
    by blast
  have "archive_files (c_dir ex_broken_cache) = archive_files (c_dir (ex_cache [] [] []))"
    by (rule archive_files_names) (simp add: ex_broken_cache_def ex_cache_def)
  then have "?f \<in> set (archive_files (c_dir ex_broken_cache))" by (simp add: ex_archive_files)
  from read_repair [OF this _ _ x] have "x \<le> 1"
    by (simp add: file_items_def ex_broken_cache_def sc_get_def)
  with x show ?thesis by blast
qed

end
