(* ===== verification/Remote_Cache.thy ===== *)
theory Remote_Cache
  imports Section_Config Subscription_Types
begin

text \<open>
  The cache of remote hosts and their back-off state, \<open>server/src/remote_cache/mod.rs\<close> and
  \<open>back_off.rs\<close>, and its maintenance by the caching task
  (\<open>bin/proxmox-datacenter-api/tasks/remote_node_mapping.rs\<close>). Hash maps are association
  lists; the clock is an argument. The file and the shared copy with its generation are not
  modelled: an operation takes the cache it read and returns the one that is saved.
\<close>

section \<open>Back-off\<close>

record back_off_state =
  bo_doubling_count :: nat
  bo_last_error :: string
  bo_first_fail_time :: i64
  bo_next_try :: i64

definition BACK_OFF_BASE_TIME_S :: i64 where "BACK_OFF_BASE_TIME_S = 10"
definition BACK_OFF_MAX_TIME_S :: i64 where "BACK_OFF_MAX_TIME_S = 3 * 60"
definition BACK_OFF_MIN_TIME_S :: i64 where "BACK_OFF_MIN_TIME_S = 10 * 60"

lemmas back_off_consts = BACK_OFF_BASE_TIME_S_def BACK_OFF_MAX_TIME_S_def BACK_OFF_MIN_TIME_S_def

definition back_off_new :: "i64 \<Rightarrow> string \<Rightarrow> back_off_state" where
  "back_off_new time err =
     \<lparr>bo_doubling_count = 0, bo_last_error = err, bo_first_fail_time = time, bo_next_try = time\<rparr>"

definition time_to_next_try :: "back_off_state \<Rightarrow> i64 \<Rightarrow> nat" where
  "time_to_next_try b time = nat (max (saturate_i64 (bo_next_try b - time)) 0)"

definition retried :: "i64 \<Rightarrow> string \<Rightarrow> back_off_state \<Rightarrow> i64 option \<times> back_off_state" where
  "retried time err b =
     (let b = b\<lparr>bo_last_error := err\<rparr>
      in if 0 < time_to_next_try b time then (None, b)
         else if bo_doubling_count b = 0 \<and> wrap_i64 (time - bo_first_fail_time b) < BACK_OFF_MIN_TIME_S
         then (None, b)
         else
           let back_off_time = min (wrap_i64 (BACK_OFF_BASE_TIME_S * 2 ^ bo_doubling_count b)) BACK_OFF_MAX_TIME_S;
               b = (if back_off_time < BACK_OFF_MAX_TIME_S
                    then b\<lparr>bo_doubling_count := bo_doubling_count b + 1\<rparr> else b);
               b = b\<lparr>bo_next_try := wrap_i64 (time + back_off_time)\<rparr>
           in (Some (bo_next_try b), b))"

section \<open>Hosts and remotes\<close>

datatype connection_state = Reachable | Unreachable string

record host_info =
  hi_hostname :: string
  hi_node_name :: "string option"
  hi_back_off :: "back_off_state option"

definition host_info_new :: "string \<Rightarrow> host_info" where
  "host_info_new h = \<lparr>hi_hostname = h, hi_node_name = None, hi_back_off = None\<rparr>"

definition set_reachable :: "i64 \<Rightarrow> connection_state \<Rightarrow> host_info \<Rightarrow> i64 option \<times> host_info" where
  "set_reachable time cs info =
     (case cs of
        Reachable \<Rightarrow> (None, info\<lparr>hi_back_off := None\<rparr>)
      | Unreachable err \<Rightarrow>
          (case hi_back_off info of
             Some b \<Rightarrow> (let (next, b') = retried time err b in (next, info\<lparr>hi_back_off := Some b'\<rparr>))
           | None \<Rightarrow> (None, info\<lparr>hi_back_off := Some (back_off_new time err)\<rparr>)))"

definition hi_is_reachable :: "host_info \<Rightarrow> bool" where
  "hi_is_reachable info \<longleftrightarrow> hi_back_off info = None"

record remote_mapping =
  rm_ty :: remote_type
  rm_hosts :: "host_info section_config"
  rm_node_to_host :: "string section_config"

definition remote_mapping_new :: "remote_type \<Rightarrow> remote_mapping" where
  "remote_mapping_new ty = \<lparr>rm_ty = ty, rm_hosts = [], rm_node_to_host = []\<rparr>"

definition rm_set_node_name :: "string \<Rightarrow> string option \<Rightarrow> remote_mapping \<Rightarrow> remote_mapping" where
  "rm_set_node_name hostname node_name m =
     (case sc_get (rm_hosts m) hostname of
        None \<Rightarrow> m
      | Some info \<Rightarrow>
          let m = (case hi_node_name info of
                     None \<Rightarrow> m
                   | Some old \<Rightarrow> m\<lparr>rm_node_to_host := sc_remove old (rm_node_to_host m)\<rparr>);
              m = m\<lparr>rm_hosts := sc_modify hostname (\<lambda>i. i\<lparr>hi_node_name := node_name\<rparr>) (rm_hosts m)\<rparr>
          in (case node_name of
                None \<Rightarrow> m
              | Some new \<Rightarrow> m\<lparr>rm_node_to_host := sc_insert new hostname (rm_node_to_host m)\<rparr>))"

definition rm_is_reachable :: "remote_mapping \<Rightarrow> bool" where
  "rm_is_reachable m \<longleftrightarrow> rm_hosts m = [] \<or> list_ex (\<lambda>(_, info). hi_is_reachable info) (rm_hosts m)"

definition rm_reset_back_off :: "remote_mapping \<Rightarrow> remote_mapping" where
  "rm_reset_back_off m =
     m\<lparr>rm_hosts := map (\<lambda>(h, info). (h, info\<lparr>hi_back_off := None\<rparr>)) (rm_hosts m)\<rparr>"

section \<open>The cache\<close>

record remote_mapping_cache =
  mc_remotes :: "remote_mapping section_config"
  mc_canary_remote :: "string option"

definition node_name_to_hostname :: "remote_mapping_cache \<Rightarrow> string \<Rightarrow> string \<Rightarrow> string option" where
  "node_name_to_hostname c rmt nod =
     Option.bind (sc_get (mc_remotes c) rmt) (\<lambda>m. sc_get (rm_node_to_host m) nod)"

definition info_by_node_name :: "remote_mapping_cache \<Rightarrow> string \<Rightarrow> string \<Rightarrow> host_info option" where
  "info_by_node_name c rmt nod =
     Option.bind (sc_get (mc_remotes c) rmt)
       (\<lambda>m. Option.bind (sc_get (rm_node_to_host m) nod) (\<lambda>host. sc_get (rm_hosts m) host))"

definition info_by_hostname :: "remote_mapping_cache \<Rightarrow> string \<Rightarrow> string \<Rightarrow> host_info option" where
  "info_by_hostname c rmt host = Option.bind (sc_get (mc_remotes c) rmt) (\<lambda>m. sc_get (rm_hosts m) host)"

definition reset_all_back_off_states :: "remote_mapping_cache \<Rightarrow> remote_mapping_cache" where
  "reset_all_back_off_states c =
     c\<lparr>mc_canary_remote := None, mc_remotes := map (\<lambda>(n, m). (n, rm_reset_back_off m)) (mc_remotes c)\<rparr>"

definition canary_is_needed :: "remote_mapping_cache \<Rightarrow> bool \<times> remote_mapping_cache" where
  "canary_is_needed c =
     (case mc_canary_remote c of
        Some canary \<Rightarrow>
          if sc_get (mc_remotes c) canary \<noteq> None then (False, c)
          else (\<not> list_ex (\<lambda>(_, m). rm_is_reachable m) (mc_remotes c), c\<lparr>mc_canary_remote := None\<rparr>)
      | None \<Rightarrow> (\<not> list_ex (\<lambda>(_, m). rm_is_reachable m) (mc_remotes c), c))"

definition set_or_reset_canary :: "string \<Rightarrow> bool \<Rightarrow> remote_mapping_cache \<Rightarrow> remote_mapping_cache" where
  "set_or_reset_canary rmt unreachable c =
     (let c = (if unreachable
               then (let (needed, c) = canary_is_needed c
                     in if needed then c\<lparr>mc_canary_remote := Some rmt\<rparr> else c)
               else c)
      in if \<not> unreachable \<and> mc_canary_remote c \<noteq> None then reset_all_back_off_states c else c)"

definition is_unreachable :: "connection_state \<Rightarrow> bool" where
  "is_unreachable cs = (case cs of Unreachable _ \<Rightarrow> True | Reachable \<Rightarrow> False)"

definition touch_host ::
  "i64 \<Rightarrow> string \<Rightarrow> string \<Rightarrow> connection_state \<Rightarrow> remote_mapping_cache \<Rightarrow> remote_mapping_cache" where
  "touch_host time rmt host cs c =
     c\<lparr>mc_remotes := sc_modify rmt
         (\<lambda>m. m\<lparr>rm_hosts := sc_modify host (\<lambda>info. snd (set_reachable time cs info)) (rm_hosts m)\<rparr>)
         (mc_remotes c)\<rparr>"

definition mark_host_reachable ::
  "i64 \<Rightarrow> string \<Rightarrow> string \<Rightarrow> connection_state \<Rightarrow> remote_mapping_cache \<Rightarrow> remote_mapping_cache" where
  "mark_host_reachable time rmt host cs c =
     (case info_by_hostname c rmt host of
        None \<Rightarrow> c
      | Some _ \<Rightarrow> set_or_reset_canary rmt (is_unreachable cs) (touch_host time rmt host cs c))"

definition mark_node_reachable ::
  "i64 \<Rightarrow> string \<Rightarrow> string \<Rightarrow> connection_state \<Rightarrow> remote_mapping_cache \<Rightarrow> remote_mapping_cache" where
  "mark_node_reachable time rmt nod cs c =
     (case (node_name_to_hostname c rmt nod, info_by_node_name c rmt nod) of
        (Some host, Some _) \<Rightarrow>
          set_or_reset_canary rmt (is_unreachable cs) (touch_host time rmt host cs c)
      | _ \<Rightarrow> c)"

definition mc_set_node_name ::
  "string \<Rightarrow> string \<Rightarrow> string option \<Rightarrow> remote_mapping_cache \<Rightarrow> remote_mapping_cache" where
  "mc_set_node_name rmt host node_name c =
     c\<lparr>mc_remotes := sc_modify rmt (rm_set_node_name host node_name) (mc_remotes c)\<rparr>"

definition host_is_reachable :: "remote_mapping_cache \<Rightarrow> string \<Rightarrow> string \<Rightarrow> bool" where
  "host_is_reachable c rmt host =
     (case info_by_hostname c rmt host of None \<Rightarrow> True | Some info \<Rightarrow> hi_is_reachable info)"

definition host_time_to_next_try ::
  "remote_mapping_cache \<Rightarrow> string \<Rightarrow> string \<Rightarrow> i64 \<Rightarrow> (nat \<times> string) option" where
  "host_time_to_next_try c rmt host time =
     (if mc_canary_remote c = Some rmt then None
      else map_option (\<lambda>b. (time_to_next_try b time, bo_last_error b))
             (Option.bind (info_by_hostname c rmt host) hi_back_off))"

definition u64_max :: nat where "u64_max = 2 ^ 64 - 1"

fun least_time :: "i64 \<Rightarrow> host_info section_config \<Rightarrow> nat \<times> string \<Rightarrow> (nat \<times> string) option" where
  "least_time time [] (best, err) = (if best = u64_max then None else Some (best, err))"
| "least_time time ((_, info) # hosts) (best, err) =
     (case hi_back_off info of
        None \<Rightarrow> None
      | Some b \<Rightarrow>
          let node_time = time_to_next_try b time
          in least_time time hosts
               (if node_time < best then (node_time, bo_last_error b) else (best, err)))"

definition remote_time_to_next_try ::
  "remote_mapping_cache \<Rightarrow> string \<Rightarrow> i64 \<Rightarrow> (nat \<times> string) option" where
  "remote_time_to_next_try c rmt time =
     (if mc_canary_remote c = Some rmt then None
      else (case sc_get (mc_remotes c) rmt of
              None \<Rightarrow> None
            | Some m \<Rightarrow> least_time time (rm_hosts m) (u64_max, [])))"

section \<open>The caching task\<close>

fun prune_hosts :: "string list \<Rightarrow> host_info section_config \<Rightarrow> string section_config \<Rightarrow>
    host_info section_config \<times> string section_config" where
  "prune_hosts keep [] n2h = ([], n2h)"
| "prune_hosts keep ((h, info) # hosts) n2h =
     (if h \<in> set keep
      then (let (hosts', n2h') = prune_hosts keep hosts n2h in ((h, info) # hosts', n2h'))
      else prune_hosts keep hosts
             (case hi_node_name info of None \<Rightarrow> n2h | Some n \<Rightarrow> sc_remove n n2h))"

fun add_hosts :: "string list \<Rightarrow> host_info section_config \<Rightarrow> host_info section_config" where
  "add_hosts [] hosts = hosts"
| "add_hosts (h # hs) hosts =
     add_hosts hs (if sc_get hosts h = None then sc_insert h (host_info_new h) hosts else hosts)"

definition prune_entry :: "remote \<Rightarrow> remote_mapping option \<Rightarrow> remote_mapping" where
  "prune_entry r entry =
     (let m = (case entry of None \<Rightarrow> remote_mapping_new (r_ty r) | Some m \<Rightarrow> m);
          m = (if rm_ty m \<noteq> r_ty r then remote_mapping_new (r_ty r) else m);
          (hosts, n2h) = prune_hosts (r_nodes r) (rm_hosts m) (rm_node_to_host m)
      in m\<lparr>rm_hosts := add_hosts (r_nodes r) hosts, rm_node_to_host := n2h\<rparr>)"

definition prune_remote_nodes :: "string \<Rightarrow> remote \<Rightarrow> remote_mapping_cache \<Rightarrow> remote_mapping_cache" where
  "prune_remote_nodes name r c =
     c\<lparr>mc_remotes := sc_insert name (prune_entry r (sc_get (mc_remotes c) name)) (mc_remotes c)\<rparr>"

definition config_update :: "remote section_config \<Rightarrow> remote_mapping_cache \<Rightarrow> remote_mapping_cache" where
  "config_update config c =
     fold (\<lambda>(name, r). prune_remote_nodes name r) config
       (c\<lparr>mc_remotes := filter (\<lambda>(name, _). sc_get config name \<noteq> None) (mc_remotes c)\<rparr>)"

definition query_node ::
  "i64 \<Rightarrow> string \<Rightarrow> string \<Rightarrow> string + string \<Rightarrow> remote_mapping_cache \<Rightarrow> remote_mapping_cache" where
  "query_node time rmt host res c =
     (case res of
        Inr node_name \<Rightarrow>
          mc_set_node_name rmt host (Some node_name) (mark_host_reachable time rmt host Reachable c)
      | Inl err \<Rightarrow> mark_host_reachable time rmt host (Unreachable err) c)"

end
