(* ===== verification/Remote_Cache_Props.thy ===== *)
theory Remote_Cache_Props
  imports Remote_Cache
begin

text \<open>
  Properties of the cache of remote hosts: the bounds of the back-off, the canary remote, and the agreement
  of the two indices of a remote, as an invariant of a transition system over the operations of the cache.
\<close>

definition back_off_run :: "(i64 \<times> string) list \<Rightarrow> back_off_state \<Rightarrow> back_off_state" where
  "back_off_run events b = fold (\<lambda>(time, err) b. snd (retried time err b)) events b"

lemma back_off_time_cases:
  assumes "bo_doubling_count b \<le> 5"
  shows "min (wrap_i64 (BACK_OFF_BASE_TIME_S * 2 ^ bo_doubling_count b)) BACK_OFF_MAX_TIME_S
      = min (10 * 2 ^ bo_doubling_count b) 180"
    and "min (10 * 2 ^ bo_doubling_count b) (180 :: int) < 180 \<longleftrightarrow> bo_doubling_count b < 5"
    and "10 \<le> min (10 * 2 ^ bo_doubling_count b) (180 :: int)"
proof -
  have "bo_doubling_count b \<in> {0, 1, 2, 3, 4, 5}" using assms by auto
  then show "min (wrap_i64 (BACK_OFF_BASE_TIME_S * 2 ^ bo_doubling_count b)) BACK_OFF_MAX_TIME_S
      = min (10 * 2 ^ bo_doubling_count b) 180"
    and "min (10 * 2 ^ bo_doubling_count b) (180 :: int) < 180 \<longleftrightarrow> bo_doubling_count b < 5"
    and "10 \<le> min (10 * 2 ^ bo_doubling_count b) (180 :: int)"
    by (auto simp: back_off_consts wrap_i64_def)
qed

lemma retried_inv:
  assumes "bo_doubling_count b \<le> 5"
  shows "bo_doubling_count (snd (retried t e b)) \<le> 5 \<and> bo_first_fail_time (snd (retried t e b)) = bo_first_fail_time b"
proof -
  let ?w = "min (10 * 2 ^ bo_doubling_count b) (180 :: int)"
  have "?w < 180 \<longrightarrow> bo_doubling_count b < 5" using back_off_time_cases(2) [OF assms] by blast
  then show ?thesis
    using assms back_off_time_cases(1) [OF assms]
    by (auto simp: retried_def Let_def back_off_consts)
qed

lemma back_off_run_inv:
  "bo_doubling_count b \<le> 5 \<Longrightarrow>
     bo_doubling_count (back_off_run evs b) \<le> 5 \<and> bo_first_fail_time (back_off_run evs b) = bo_first_fail_time b"
  unfolding back_off_run_def
  by (induction evs arbitrary: b) (auto simp: retried_inv)

lemma retried_result:
  assumes "bo_doubling_count b \<le> 5" "i64_range t" "i64_range (t + 180)" "i64_range (t - bo_first_fail_time b)"
  shows "retried t e b =
    (if 0 < time_to_next_try b t \<or> bo_doubling_count b = 0 \<and> t - bo_first_fail_time b < 600
     then (None, b\<lparr>bo_last_error := e\<rparr>)
     else let n = t + min (10 * 2 ^ bo_doubling_count b) 180
          in (Some n, b\<lparr>bo_last_error := e, bo_next_try := n,
                bo_doubling_count := min 5 (bo_doubling_count b + 1)\<rparr>))"
proof -
  let ?w = "min (10 * 2 ^ bo_doubling_count b) (180 :: int)"
  note w = back_off_time_cases [OF assms(1)]
  have "i64_range (t + ?w)" using assms(2,3) w(3) unfolding i64_range_def by linarith
  then have wr: "wrap_i64 (t + ?w) = t + ?w" by (rule wrap_i64_id)
  have fr: "wrap_i64 (t - bo_first_fail_time b) = t - bo_first_fail_time b" using assms(4) by (rule wrap_i64_id)
  have ttn: "time_to_next_try (b\<lparr>bo_last_error := e\<rparr>) t = time_to_next_try b t" by (simp add: time_to_next_try_def)
  have cnt: "(if ?w < 180 then bo_doubling_count b + 1 else bo_doubling_count b) = min 5 (bo_doubling_count b + 1)"
    using assms(1) w(2) by auto
  have m: "BACK_OFF_MAX_TIME_S = 180" "BACK_OFF_MIN_TIME_S = 600" by (simp_all add: back_off_consts)
  show ?thesis
  proof (cases "0 < time_to_next_try b t \<or> bo_doubling_count b = 0 \<and> t - bo_first_fail_time b < 600")
    case True
    then show ?thesis by (auto simp: retried_def Let_def ttn fr m)
  next
    case False
    then have "retried t e b = (Some (t + ?w), (if ?w < 180 then b\<lparr>bo_last_error := e, bo_doubling_count := bo_doubling_count b + 1\<rparr>
        else b\<lparr>bo_last_error := e\<rparr>)\<lparr>bo_next_try := t + ?w\<rparr>)"
      using w(1) wr by (simp add: retried_def Let_def ttn fr m)
    with False cnt show ?thesis by (auto simp: Let_def split: if_splits)
  qed
qed

text \<open>C11. The back-off of a failing host, whatever happened before: the doubling count never exceeds five, the
  first ten minutes of failures and retries that come too early change nothing but the message, and otherwise
  the next try is 10 s doubled per failure and at most 180 s away, with no overflow of the shift.\<close>

theorem back_off_bounded:
  assumes "b = back_off_run events (back_off_new t0 err0)"
    and "i64_range t" "i64_range (t + 180)" "i64_range (t - t0)"
  shows "bo_doubling_count b \<le> 5
    \<and> retried t err b =
      (if 0 < time_to_next_try b t \<or> bo_doubling_count b = 0 \<and> t - t0 < 600
       then (None, b\<lparr>bo_last_error := err\<rparr>)
       else let n = t + min (10 * 2 ^ bo_doubling_count b) 180
            in (Some n, b\<lparr>bo_last_error := err, bo_next_try := n,
                  bo_doubling_count := min 5 (bo_doubling_count b + 1)\<rparr>))
    \<and> (\<forall>n. fst (retried t err b) = Some n \<longrightarrow> time_to_next_try (snd (retried t err b)) t \<le> 180)"
proof -
  have inv: "bo_doubling_count b \<le> 5" "bo_first_fail_time b = t0"
    using back_off_run_inv [of "back_off_new t0 err0" events] assms(1) by (simp_all add: back_off_new_def)
  have r: "retried t err b =
      (if 0 < time_to_next_try b t \<or> bo_doubling_count b = 0 \<and> t - t0 < 600
       then (None, b\<lparr>bo_last_error := err\<rparr>)
       else let n = t + min (10 * 2 ^ bo_doubling_count b) 180
            in (Some n, b\<lparr>bo_last_error := err, bo_next_try := n,
                  bo_doubling_count := min 5 (bo_doubling_count b + 1)\<rparr>))"
    using retried_result [OF inv(1) assms(2,3)] assms(4) inv(2) by simp
  have "time_to_next_try (snd (retried t err b)) t \<le> 180" if "fst (retried t err b) = Some n" for n
  proof -
    let ?w = "min (10 * 2 ^ bo_doubling_count b) (180 :: int)"
    from that r have "bo_next_try (snd (retried t err b)) = t + ?w" by (auto simp: Let_def split: if_splits)
    moreover have "i64_range ?w"
    proof -
      have "10 \<le> ?w" "?w \<le> 180" using back_off_time_cases(3) [OF inv(1)] by simp_all
      moreover have "- (2 ^ 63) \<le> w \<and> w < 2 ^ 63" if "10 \<le> w" "w \<le> 180" for w :: int using that by auto
      ultimately show ?thesis unfolding i64_range_def by blast
    qed
    ultimately show ?thesis by (simp add: time_to_next_try_def saturate_i64_id)
  qed
  with inv(1) r show ?thesis by blast
qed

theorem back_off_bounded_witness:
  "fst (retried 600 ''e'' (back_off_run [] (back_off_new 0 ''e''))) = Some 610"
  using back_off_bounded [of "back_off_run [] (back_off_new 0 ''e'')" "[]" 0 "''e''" 600 "''e''"]
  by (simp add: i64_range_def back_off_run_def back_off_new_def time_to_next_try_def saturate_i64_def)

lemma least_time_reachable:
  "list_ex (\<lambda>(_, info). hi_is_reachable info) hosts \<Longrightarrow> least_time time hosts acc = None"
  by (induction hosts arbitrary: acc) (auto simp: hi_is_reachable_def Let_def split: option.splits prod.splits)

lemma reachable_remote_tried:
  "sc_get (mc_remotes c) rmt = Some m \<Longrightarrow> rm_is_reachable m \<Longrightarrow> remote_time_to_next_try c rmt time = None"
  by (auto simp: remote_time_to_next_try_def rm_is_reachable_def least_time_reachable)

section \<open>The canary\<close>

definition some_remote_tried :: "remote_mapping_cache \<Rightarrow> i64 \<Rightarrow> bool" where
  "some_remote_tried c time \<longleftrightarrow>
     (\<exists>rmt. sc_get (mc_remotes c) rmt \<noteq> None \<and> remote_time_to_next_try c rmt time = None)"

lemma canary_tried: "sc_get (mc_remotes c) rmt \<noteq> None \<Longrightarrow> mc_canary_remote c = Some rmt \<Longrightarrow> some_remote_tried c time"
  unfolding some_remote_tried_def by (rule exI [of _ rmt]) (simp add: remote_time_to_next_try_def)

lemma reachable_tried: "sc_wf (mc_remotes c) \<Longrightarrow> (n, m) \<in> set (mc_remotes c) \<Longrightarrow> rm_is_reachable m \<Longrightarrow> some_remote_tried c time"
  unfolding some_remote_tried_def
  using reachable_remote_tried [of c n m time] by (auto simp: sc.get_iter [symmetric])

lemma set_or_reset_canary_tried:
  assumes wf: "sc_wf (mc_remotes c)" and rmt: "sc_get (mc_remotes c) rmt = Some m"
    and reach: "\<not> unreachable \<Longrightarrow> rm_is_reachable m"
  shows "some_remote_tried (set_or_reset_canary rmt unreachable c) time"
proof (cases unreachable)
  case True
  obtain needed c1 where ci: "canary_is_needed c = (needed, c1)" by (cases "canary_is_needed c")
  then have rem: "mc_remotes c1 = mc_remotes c"
    by (auto simp: canary_is_needed_def split: option.splits if_splits)
  show ?thesis
  proof (cases needed)
    case True
    have "some_remote_tried (c1\<lparr>mc_canary_remote := Some rmt\<rparr>) time"
      using rmt rem by (intro canary_tried [of _ rmt]) simp_all
    with True \<open>unreachable\<close> ci show ?thesis by (simp add: set_or_reset_canary_def)
  next
    case False
    with ci have "(\<exists>canary. mc_canary_remote c1 = Some canary \<and> sc_get (mc_remotes c) canary \<noteq> None)
        \<or> list_ex (\<lambda>(_, m). rm_is_reachable m) (mc_remotes c)"
      by (auto simp: canary_is_needed_def split: option.splits if_splits)
    then have "some_remote_tried c1 time"
      using canary_tried [of c1] reachable_tried [of c1] wf rem by (auto simp: list_ex_iff)
    with False \<open>unreachable\<close> ci show ?thesis by (simp add: set_or_reset_canary_def)
  qed
next
  case False
  show ?thesis
  proof (cases "mc_canary_remote c")
    case None
    have "(rmt, m) \<in> set (mc_remotes c)" using rmt wf by (simp add: sc.get_iter)
    with reachable_tried [OF wf] reach False None show ?thesis by (auto simp: set_or_reset_canary_def)
  next
    case (Some canary)
    let ?c = "reset_all_back_off_states c"
    have wf': "sc_wf (mc_remotes ?c)"
      using wf by (simp add: reset_all_back_off_states_def sc_wf_def comp_def case_prod_unfold)
    have "(rmt, rm_reset_back_off m) \<in> set (mc_remotes ?c)"
      using rmt wf by (force simp: reset_all_back_off_states_def sc.get_iter)
    moreover have "rm_is_reachable (rm_reset_back_off m)"
      by (cases "rm_hosts m") (auto simp: rm_is_reachable_def rm_reset_back_off_def hi_is_reachable_def)
    ultimately show ?thesis
      using reachable_tried [OF wf'] False Some by (auto simp: set_or_reset_canary_def)
  qed
qed

lemma touch_host_reachable:
  assumes "sc_get (mc_remotes c) rmt = Some m" "sc_get (rm_hosts m) host = Some info" "sc_wf (rm_hosts m)"
  shows "\<exists>m'. sc_get (mc_remotes (touch_host time rmt host cs c)) rmt = Some m'
    \<and> (\<not> is_unreachable cs \<longrightarrow> rm_is_reachable m')"
proof -
  define m' where "m' = m\<lparr>rm_hosts := sc_modify host (\<lambda>info. snd (set_reachable time cs info)) (rm_hosts m)\<rparr>"
  have "sc_get (mc_remotes (touch_host time rmt host cs c)) rmt = Some m'"
    using assms(1) by (simp add: touch_host_def sc_laws m'_def)
  moreover have "rm_is_reachable m'" if "\<not> is_unreachable cs"
  proof -
    have "cs = Reachable" using that by (cases cs) (simp_all add: is_unreachable_def)
    then have "sc_get (rm_hosts m') host = Some (info\<lparr>hi_back_off := None\<rparr>)"
      using assms(2) by (simp add: m'_def sc_laws set_reachable_def)
    moreover have "sc_wf (rm_hosts m')" using assms(3) by (simp add: m'_def sc_laws)
    ultimately have "(host, info\<lparr>hi_back_off := None\<rparr>) \<in> set (rm_hosts m')" by (simp add: sc.get_iter)
    then show ?thesis by (force simp: rm_is_reachable_def list_ex_iff hi_is_reachable_def)
  qed
  ultimately show ?thesis by blast
qed

section \<open>The invariant of the cache\<close>

definition mapping_inv :: "remote_mapping \<Rightarrow> bool" where
  "mapping_inv m \<longleftrightarrow> sc_wf (rm_hosts m)
     \<and> (\<forall>h info. sc_get (rm_hosts m) h = Some info \<longrightarrow> hi_hostname info = h)
     \<and> (\<forall>n h. sc_get (rm_node_to_host m) n = Some h \<longrightarrow>
          (\<exists>info. sc_get (rm_hosts m) h = Some info \<and> hi_node_name info = Some n))"

definition cache_inv :: "remote_mapping_cache \<Rightarrow> bool" where
  "cache_inv c \<longleftrightarrow> sc_wf (mc_remotes c) \<and> (\<forall>r m. sc_get (mc_remotes c) r = Some m \<longrightarrow> mapping_inv m)"

lemma cache_inv_modify:
  "cache_inv c \<Longrightarrow> (\<And>m. sc_get (mc_remotes c) r = Some m \<Longrightarrow> mapping_inv m \<Longrightarrow> mapping_inv (f m)) \<Longrightarrow>
     cache_inv (c\<lparr>mc_remotes := sc_modify r f (mc_remotes c)\<rparr>)"
  by (auto simp: cache_inv_def sc_laws)

lemma mapping_inv_new [simp]: "mapping_inv (remote_mapping_new ty)"
  by (simp add: mapping_inv_def remote_mapping_new_def sc_wf_def sc_get_def)

lemma set_reachable_keeps [simp]:
  "hi_hostname (snd (set_reachable t cs info)) = hi_hostname info"
  "hi_node_name (snd (set_reachable t cs info)) = hi_node_name info"
  by (auto simp: set_reachable_def split: connection_state.splits option.splits prod.splits)

lemma mapping_inv_lookup:
  assumes "mapping_inv m" "sc_get (rm_node_to_host m) n = Some h"
  obtains info where "sc_get (rm_hosts m) h = Some info" "hi_node_name info = Some n"
  using assms unfolding mapping_inv_def by blast

lemma sc_map_values:
  "sc_get (map (\<lambda>(k, v). (k, f v)) m) k = map_option f (sc_get m k)"
  "sc_wf (map (\<lambda>(k, v). (k, f v)) m) \<longleftrightarrow> sc_wf m"
proof -
  show "sc_get (map (\<lambda>(k, v). (k, f v)) m) k = map_option f (sc_get m k)"
    by (induction m) (auto simp: sc_get_def)
  have "map fst (map (\<lambda>(k, v). (k, f v)) m) = map fst m" by (induction m) auto
  then show "sc_wf (map (\<lambda>(k, v). (k, f v)) m) \<longleftrightarrow> sc_wf m" by (simp only: sc_wf_def)
qed

lemma mapping_inv_hosts:
  assumes inv: "mapping_inv m" and wf: "sc_wf hosts"
    and get: "\<And>h. rel_option (\<lambda>i j. hi_hostname i = hi_hostname j \<and> hi_node_name i = hi_node_name j)
                  (sc_get hosts h) (sc_get (rm_hosts m) h)"
  shows "mapping_inv (m\<lparr>rm_hosts := hosts\<rparr>)"
  unfolding mapping_inv_def
proof (intro conjI allI impI)
  show "sc_wf (rm_hosts (m\<lparr>rm_hosts := hosts\<rparr>))" using wf by simp
  show "hi_hostname i = h" if "sc_get (rm_hosts (m\<lparr>rm_hosts := hosts\<rparr>)) h = Some i" for h i
    using that get [of h] inv by (auto simp: option_rel_Some1 mapping_inv_def)
  fix n h assume "sc_get (rm_node_to_host (m\<lparr>rm_hosts := hosts\<rparr>)) n = Some h"
  then obtain j where "sc_get (rm_hosts m) h = Some j" "hi_node_name j = Some n"
    using mapping_inv_lookup [OF inv] by auto
  with get [of h] show "\<exists>info. sc_get (rm_hosts (m\<lparr>rm_hosts := hosts\<rparr>)) h = Some info \<and> hi_node_name info = Some n"
    by (auto simp: option_rel_Some2)
qed

lemma touch_host_inv: "cache_inv c \<Longrightarrow> cache_inv (touch_host t r h cs c)"
  unfolding touch_host_def
proof (rule cache_inv_modify)
  fix m assume "mapping_inv m"
  then show "mapping_inv (m\<lparr>rm_hosts := sc_modify h (\<lambda>info. snd (set_reachable t cs info)) (rm_hosts m)\<rparr>)"
    by (rule mapping_inv_hosts)
      (use \<open>mapping_inv m\<close> in \<open>auto simp: mapping_inv_def sc_laws option.rel_map intro!: option.rel_refl\<close>)
qed

lemma rm_reset_inv: "mapping_inv m \<Longrightarrow> mapping_inv (rm_reset_back_off m)"
  unfolding rm_reset_back_off_def
  by (rule mapping_inv_hosts)
    (auto simp: sc_map_values mapping_inv_def option.rel_map intro!: option.rel_refl)

lemma reset_all_inv: "cache_inv c \<Longrightarrow> cache_inv (reset_all_back_off_states c)"
  by (auto simp: cache_inv_def reset_all_back_off_states_def sc_map_values rm_reset_inv)

lemma set_or_reset_canary_inv: "cache_inv c \<Longrightarrow> cache_inv (set_or_reset_canary r u c)"
proof -
  have other: "cache_inv (c\<lparr>mc_canary_remote := x\<rparr>) \<longleftrightarrow> cache_inv c" for c x by (simp add: cache_inv_def)
  have "cache_inv c \<Longrightarrow> cache_inv (snd (canary_is_needed c))" for c
    by (auto simp: canary_is_needed_def other split: option.splits)
  then show "cache_inv c \<Longrightarrow> ?thesis"
    by (auto simp: set_or_reset_canary_def reset_all_inv other Let_def split: prod.splits) (metis snd_conv)+
qed

lemma mark_host_inv: "cache_inv c \<Longrightarrow> cache_inv (mark_host_reachable t r h cs c)"
  by (simp add: mark_host_reachable_def set_or_reset_canary_inv touch_host_inv split: option.split)

lemma mark_node_inv: "cache_inv c \<Longrightarrow> cache_inv (mark_node_reachable t r n cs c)"
  by (simp add: mark_node_reachable_def set_or_reset_canary_inv touch_host_inv split: option.split)

lemma rm_set_node_name_inv:
  assumes inv: "mapping_inv m"
  shows "mapping_inv (rm_set_node_name h nn m)"
proof (cases "sc_get (rm_hosts m) h")
  case None
  with inv show ?thesis by (simp add: rm_set_node_name_def)
next
  case (Some info)
  let ?m = "rm_set_node_name h nn m"
  have hosts: "sc_get (rm_hosts ?m) = (sc_get (rm_hosts m))(h \<mapsto> info\<lparr>hi_node_name := nn\<rparr>)"
    "sc_wf (rm_hosts m) \<Longrightarrow> sc_wf (rm_hosts ?m)"
    using Some by (auto simp: rm_set_node_name_def Let_def sc_laws split: option.splits)
  have n2h: "sc_get (rm_node_to_host ?m) n =
      (if nn = Some n then Some h else if hi_node_name info = Some n then None else sc_get (rm_node_to_host m) n)" for n
    using Some by (auto simp: rm_set_node_name_def Let_def sc_laws split: option.splits)
  show ?thesis
    unfolding mapping_inv_def
  proof (intro conjI allI impI)
    show "sc_wf (rm_hosts ?m)" using inv hosts by (simp add: mapping_inv_def)
    show "hi_hostname i = k" if "sc_get (rm_hosts ?m) k = Some i" for k i
      using that inv Some hosts by (auto simp: mapping_inv_def split: if_splits)
    fix n h' assume g: "sc_get (rm_node_to_host ?m) n = Some h'"
    show "\<exists>info. sc_get (rm_hosts ?m) h' = Some info \<and> hi_node_name info = Some n"
    proof (cases "nn = Some n")
      case True
      with g n2h hosts show ?thesis by simp
    next
      case False
      with g n2h have old: "sc_get (rm_node_to_host m) n = Some h'" "hi_node_name info \<noteq> Some n"
        by (auto split: if_splits)
      with inv Some have "h' \<noteq> h" unfolding mapping_inv_def by (metis option.inject)
      with old inv hosts show ?thesis by (auto simp: mapping_inv_def)
    qed
  qed
qed

lemma mc_set_node_name_inv: "cache_inv c \<Longrightarrow> cache_inv (mc_set_node_name r h nn c)"
  unfolding mc_set_node_name_def by (rule cache_inv_modify) (simp_all add: rm_set_node_name_inv)

lemma query_node_inv: "cache_inv c \<Longrightarrow> cache_inv (query_node t r h res c)"
  by (simp add: query_node_def mark_host_inv mc_set_node_name_inv split: sum.split)

lemma prune_hosts_spec:
  "prune_hosts keep hosts n2h = (hosts', n2h') \<Longrightarrow>
     hosts' = filter (\<lambda>(h, _). h \<in> set keep) hosts
     \<and> (\<forall>n. sc_get n2h' n =
          (if \<exists>(h, info) \<in> set hosts. h \<notin> set keep \<and> hi_node_name info = Some n then None else sc_get n2h n))"
proof (induction keep hosts n2h arbitrary: hosts' rule: prune_hosts.induct)
  case (2 keep h info hosts n2h)
  show ?case
  proof (cases "h \<in> set keep")
    case True
    then obtain hs where "prune_hosts keep hosts n2h = (hs, n2h')" "hosts' = (h, info) # hs"
      using 2(3) by (auto split: prod.splits)
    with 2(1) [OF True] True show ?thesis by auto
  next
    case False
    with 2(2) [OF False] 2(3) show ?thesis
      by (auto simp: sc_laws split: option.splits)
  qed
qed simp

lemma add_hosts_spec:
  "sc_get (add_hosts hs hosts) h =
     (case sc_get hosts h of Some i \<Rightarrow> Some i | None \<Rightarrow> if h \<in> set hs then Some (host_info_new h) else None)"
  "sc_wf hosts \<Longrightarrow> sc_wf (add_hosts hs hosts)"
  by (induction hs arbitrary: hosts) (auto simp: sc_laws split: option.splits)

lemma filter_hosts_get:
  "sc_get (filter (\<lambda>(h, _). P h) hosts) h = (if P h then sc_get hosts h else None)"
  by (induction hosts) (auto simp: sc_get_def)

lemma prune_entry_inv:
  assumes "\<And>m. entry = Some m \<Longrightarrow> mapping_inv m"
  shows "mapping_inv (prune_entry r entry)"
proof -
  define m where "m = (let m = (case entry of None \<Rightarrow> remote_mapping_new (r_ty r) | Some m \<Rightarrow> m)
       in if rm_ty m \<noteq> r_ty r then remote_mapping_new (r_ty r) else m)"
  have inv: "mapping_inv m" using assms by (auto simp: m_def Let_def split: option.split)
  obtain hosts n2h where p: "prune_hosts (r_nodes r) (rm_hosts m) (rm_node_to_host m) = (hosts, n2h)"
    by (cases "prune_hosts (r_nodes r) (rm_hosts m) (rm_node_to_host m)")
  have e: "prune_entry r entry = m\<lparr>rm_hosts := add_hosts (r_nodes r) hosts, rm_node_to_host := n2h\<rparr>"
    using p by (simp add: prune_entry_def m_def Let_def)
  note spec = prune_hosts_spec [OF p]
  have wf: "sc_wf hosts" using spec inv by (simp add: mapping_inv_def sc_wf_def distinct_map_filter)
  have get: "sc_get hosts h = (if h \<in> set (r_nodes r) then sc_get (rm_hosts m) h else None)" for h
    using spec by (simp add: filter_hosts_get)
  show ?thesis
    unfolding mapping_inv_def e
  proof (intro conjI allI impI)
    show "sc_wf (rm_hosts (m\<lparr>rm_hosts := add_hosts (r_nodes r) hosts, rm_node_to_host := n2h\<rparr>))"
      using wf by (simp add: add_hosts_spec)
    show "hi_hostname i = k"
      if "sc_get (rm_hosts (m\<lparr>rm_hosts := add_hosts (r_nodes r) hosts, rm_node_to_host := n2h\<rparr>)) k = Some i" for k i
      using that inv get by (auto simp: add_hosts_spec mapping_inv_def host_info_new_def split: option.splits if_splits)
    fix n h assume "sc_get (rm_node_to_host (m\<lparr>rm_hosts := add_hosts (r_nodes r) hosts, rm_node_to_host := n2h\<rparr>)) n = Some h"
    with spec have nd: "\<not> (\<exists>(h, info) \<in> set (rm_hosts m). h \<notin> set (r_nodes r) \<and> hi_node_name info = Some n)"
      and "sc_get (rm_node_to_host m) n = Some h" by (auto split: if_splits)
    with inv obtain info where i: "sc_get (rm_hosts m) h = Some info" "hi_node_name info = Some n"
      unfolding mapping_inv_def by blast
    with inv have "(h, info) \<in> set (rm_hosts m)" by (simp add: mapping_inv_def sc.get_iter)
    with nd i have "h \<in> set (r_nodes r)" by blast
    with i get show "\<exists>info. sc_get (rm_hosts (m\<lparr>rm_hosts := add_hosts (r_nodes r) hosts, rm_node_to_host := n2h\<rparr>)) h = Some info
        \<and> hi_node_name info = Some n"
      by (simp add: add_hosts_spec)
  qed
qed

lemma config_update_inv: "cache_inv c \<Longrightarrow> cache_inv (config_update config c)"
proof -
  have prune: "cache_inv c \<Longrightarrow> cache_inv (prune_remote_nodes n r c)" for n r c
    using prune_entry_inv [of "sc_get (mc_remotes c) n" r]
    by (auto simp: cache_inv_def prune_remote_nodes_def sc_laws)
  have "cache_inv c \<Longrightarrow> cache_inv (fold (\<lambda>(n, r). prune_remote_nodes n r) cfg c)" for cfg c
    by (induction cfg arbitrary: c) (auto simp: prune)
  moreover have "cache_inv c \<Longrightarrow> cache_inv (c\<lparr>mc_remotes := filter (\<lambda>(n, _). sc_get config n \<noteq> None) (mc_remotes c)\<rparr>)"
    by (auto simp: cache_inv_def sc_wf_def distinct_map_filter filter_hosts_get split: if_splits)
  ultimately show "cache_inv c \<Longrightarrow> ?thesis" by (simp add: config_update_def)
qed

section \<open>The cache as a transition system\<close>

inductive cache_step :: "remote_mapping_cache \<Rightarrow> remote_mapping_cache \<Rightarrow> bool" where
  Mark_Host: "cache_step c (mark_host_reachable time rmt host cs c)"
| Mark_Node: "cache_step c (mark_node_reachable time rmt nod cs c)"
| Set_Name: "cache_step c (mc_set_node_name rmt host nn c)"
| Query: "cache_step c (query_node time rmt host res c)"
| Config: "cache_step c (config_update config c)"

lemma cache_step_inv: "cache_step c c' \<Longrightarrow> cache_inv c \<Longrightarrow> cache_inv c'"
  by (induction rule: cache_step.induct)
    (simp_all add: mark_host_inv mark_node_inv mc_set_node_name_inv query_node_inv config_update_inv)

definition empty_cache :: remote_mapping_cache where
  "empty_cache = \<lparr>mc_remotes = [], mc_canary_remote = None\<rparr>"

interpretation remote_cache: invariant_system "\<lambda>c. c = empty_cache" cache_step cache_inv
  by unfold_locales (auto simp: empty_cache_def cache_inv_def sc_wf_def sc_get_def dest: cache_step_inv)

section \<open>Properties\<close>

text \<open>C12. In every cache the caching task and the connections can produce, a node name leads to a known
  host that reported this very name, and to the same host entry whichever of the two look-ups is used.\<close>

theorem node_lookup_sound:
  assumes "cache_step\<^sup>*\<^sup>* empty_cache c"
  shows "(\<forall>host. node_name_to_hostname c rmt nod = Some host \<longrightarrow>
            (\<exists>info. info_by_hostname c rmt host = Some info \<and> info_by_node_name c rmt nod = Some info
               \<and> hi_hostname info = host \<and> hi_node_name info = Some nod))
    \<and> (\<forall>info. info_by_node_name c rmt nod = Some info \<longrightarrow>
            info_by_hostname c rmt (hi_hostname info) = Some info \<and> hi_node_name info = Some nod)"
proof -
  have inv: "cache_inv c" using remote_cache.reachable_inv [OF refl assms] .
  have "\<exists>info. info_by_hostname c rmt host = Some info \<and> info_by_node_name c rmt nod = Some info
               \<and> hi_hostname info = host \<and> hi_node_name info = Some nod"
    if h: "node_name_to_hostname c rmt nod = Some host" for host
  proof -
    from h obtain m where m: "sc_get (mc_remotes c) rmt = Some m" "sc_get (rm_node_to_host m) nod = Some host"
      by (auto simp: node_name_to_hostname_def bind_eq_Some_conv)
    with inv have mi: "mapping_inv m" by (simp add: cache_inv_def)
    from mapping_inv_lookup [OF this m(2)] obtain info where "sc_get (rm_hosts m) host = Some info" "hi_node_name info = Some nod" .
    with m mi show ?thesis
      by (auto simp: info_by_hostname_def info_by_node_name_def mapping_inv_def)
  qed
  moreover have "\<exists>host. node_name_to_hostname c rmt nod = Some host" if "info_by_node_name c rmt nod = Some info" for info
    using that by (auto simp: info_by_node_name_def node_name_to_hostname_def bind_eq_Some_conv)
  ultimately show ?thesis by fastforce
qed

definition ex_hosts :: remote_mapping_cache where
  "ex_hosts = config_update [(''r1'', \<lparr>r_ty = Remote_Pve, r_id = ''r1'', r_nodes = [''a'', ''b''], r_authid = [],
     r_token = [], r_web_url = None\<rparr>)] empty_cache"

lemma ex_hosts_eq: "ex_hosts = \<lparr>mc_remotes = [(''r1'', \<lparr>rm_ty = Remote_Pve,
    rm_hosts = [(''a'', host_info_new ''a''), (''b'', host_info_new ''b'')], rm_node_to_host = []\<rparr>)], mc_canary_remote = None\<rparr>"
  by (simp add: ex_hosts_def config_update_def prune_remote_nodes_def prune_entry_def empty_cache_def
      remote_mapping_new_def sc_get_def)

theorem node_lookup_sound_witness:
  "info_by_node_name (mc_set_node_name ''r1'' ''a'' (Some ''n'') ex_hosts) ''r1'' ''n''
     = Some \<lparr>hi_hostname = ''a'', hi_node_name = Some ''n'', hi_back_off = None\<rparr>"
proof -
  let ?c = "mc_set_node_name ''r1'' ''a'' (Some ''n'') ex_hosts"
  have "cache_step empty_cache ex_hosts" unfolding ex_hosts_def by (rule cache_step.Config)
  moreover have "cache_step ex_hosts ?c" by (rule cache_step.Set_Name)
  ultimately have "cache_step\<^sup>*\<^sup>* empty_cache ?c" by (meson converse_rtranclp_into_rtranclp r_into_rtranclp)
  moreover have "node_name_to_hostname ?c ''r1'' ''n'' = Some ''a''"
    by (simp add: ex_hosts_eq mc_set_node_name_def rm_set_node_name_def node_name_to_hostname_def sc_get_def
        sc_modify_def host_info_new_def)
  ultimately obtain info where "info_by_node_name ?c ''r1'' ''n'' = Some info"
    using node_lookup_sound [of ?c "''r1''" "''n''"] by blast
  then show ?thesis
    by (simp add: ex_hosts_eq mc_set_node_name_def rm_set_node_name_def info_by_node_name_def sc_get_def
        sc_modify_def host_info_new_def)
qed

text \<open>When two hosts of a remote reported the same node name and the first one then reports another
  name, the second host, which still has the old name, can no longer be found by it.\<close>

theorem rename_loses_host:
  "\<exists>c. cache_step\<^sup>*\<^sup>* empty_cache c
     \<and> (\<exists>info. info_by_hostname c ''r1'' ''b'' = Some info \<and> hi_node_name info = Some ''n'')
     \<and> info_by_node_name c ''r1'' ''n'' = None"
proof -
  let ?c1 = "mc_set_node_name ''r1'' ''a'' (Some ''n'') ex_hosts"
  let ?c2 = "mc_set_node_name ''r1'' ''b'' (Some ''n'') ?c1"
  let ?c3 = "mc_set_node_name ''r1'' ''a'' (Some ''m'') ?c2"
  have "cache_step empty_cache ex_hosts" unfolding ex_hosts_def by (rule cache_step.Config)
  moreover have "cache_step ex_hosts ?c1" "cache_step ?c1 ?c2" "cache_step ?c2 ?c3" by (rule cache_step.Set_Name)+
  ultimately have "cache_step\<^sup>*\<^sup>* empty_cache ?c3" by (meson converse_rtranclp_into_rtranclp r_into_rtranclp)
  moreover have "\<exists>info. info_by_hostname ?c3 ''r1'' ''b'' = Some info \<and> hi_node_name info = Some ''n''"
    by (simp add: ex_hosts_eq mc_set_node_name_def rm_set_node_name_def info_by_hostname_def sc_get_def
        sc_modify_def sc_remove_def host_info_new_def)
  moreover have "info_by_node_name ?c3 ''r1'' ''n'' = None"
    by (simp add: ex_hosts_eq mc_set_node_name_def rm_set_node_name_def info_by_node_name_def sc_get_def
        sc_modify_def sc_remove_def host_info_new_def)
  ultimately show ?thesis by blast
qed

text \<open>After the state of a known host was recorded, by host or by node name, at least one known remote
  is not held back: when everything is unreachable there is a canary remote that is always tried.\<close>

theorem mark_leaves_remote_to_try:
  assumes "cache_step\<^sup>*\<^sup>* empty_cache c"
  shows "(info_by_hostname c rmt host \<noteq> None \<longrightarrow>
           (\<exists>r. sc_get (mc_remotes (mark_host_reachable time rmt host cs c)) r \<noteq> None
              \<and> remote_time_to_next_try (mark_host_reachable time rmt host cs c) r now = None))
    \<and> (info_by_node_name c rmt nod \<noteq> None \<longrightarrow>
           (\<exists>r. sc_get (mc_remotes (mark_node_reachable time rmt nod cs c)) r \<noteq> None
              \<and> remote_time_to_next_try (mark_node_reachable time rmt nod cs c) r now = None))"
proof -
  have inv: "cache_inv c" using remote_cache.reachable_inv [OF refl assms] .
  have main: "some_remote_tried (set_or_reset_canary rmt (is_unreachable cs) (touch_host time rmt host cs c)) now"
    if "info_by_hostname c rmt host \<noteq> None" for host
  proof -
    from that obtain m info where m: "sc_get (mc_remotes c) rmt = Some m" "sc_get (rm_hosts m) host = Some info"
      by (auto simp: info_by_hostname_def bind_eq_Some_conv)
    with inv have "sc_wf (rm_hosts m)" by (simp add: cache_inv_def mapping_inv_def)
    from touch_host_reachable [OF m this, of time cs] obtain m' where
      "sc_get (mc_remotes (touch_host time rmt host cs c)) rmt = Some m'" "\<not> is_unreachable cs \<longrightarrow> rm_is_reachable m'"
      by blast
    moreover have "sc_wf (mc_remotes (touch_host time rmt host cs c))"
      using touch_host_inv [OF inv] by (simp add: cache_inv_def)
    ultimately show ?thesis by (intro set_or_reset_canary_tried) auto
  qed
  have "some_remote_tried (mark_host_reachable time rmt host cs c) now" if "info_by_hostname c rmt host \<noteq> None"
    using main [OF that] that by (auto simp: mark_host_reachable_def)
  moreover have "some_remote_tried (mark_node_reachable time rmt nod cs c) now" if "info_by_node_name c rmt nod \<noteq> None"
  proof -
    from that obtain h info where "node_name_to_hostname c rmt nod = Some h" "info_by_hostname c rmt h = Some info"
      "info_by_node_name c rmt nod = Some info"
      by (auto simp: info_by_node_name_def node_name_to_hostname_def info_by_hostname_def bind_eq_Some_conv)
    with main [of h] show ?thesis by (simp add: mark_node_reachable_def)
  qed
  ultimately show ?thesis unfolding some_remote_tried_def by blast
qed

theorem mark_leaves_remote_to_try_witness:
  "\<exists>r. sc_get (mc_remotes (mark_host_reachable 5 ''r1'' ''a'' (Unreachable ''e'') ex_hosts)) r \<noteq> None
     \<and> remote_time_to_next_try (mark_host_reachable 5 ''r1'' ''a'' (Unreachable ''e'') ex_hosts) r 6 = None"
proof -
  have "cache_step\<^sup>*\<^sup>* empty_cache ex_hosts" unfolding ex_hosts_def by (rule r_into_rtranclp, rule cache_step.Config)
  moreover have "info_by_hostname ex_hosts ''r1'' ''a'' \<noteq> None"
    by (simp add: ex_hosts_eq info_by_hostname_def sc_get_def)
  ultimately show ?thesis using mark_leaves_remote_to_try by blast
qed

end
