(* ===== verification/Multi_Client.thy ===== *)
theory Multi_Client
  imports Remote_Cache "HOL-Library.Word"
begin

text \<open>
  Connections to the hosts of a remote, \<open>server/src/connection.rs\<close>: the shared rotation
  through the hosts (\<open>MultiClientState\<close>), the iterator of hosts to try (\<open>try_clients\<close>)
  and the request loop of the macro \<open>try_request\<close>.

  A client is represented by the hostname it connects to, and the position in the rotation is
  Rust's wrapping \<open>usize\<close> at 64 bits. What other tasks do to the shared rotation and to the host
  cache between two steps of a request, the clock, and how the hosts answer are given by an \<open>env\<close> per
  iteration. The text form of an error belongs to the client library and is a parameter.
\<close>

section \<open>The rotation\<close>

type_synonym usize = "64 word"

record multi_client_state =
  st_current :: usize
  st_remote :: string
  st_hosts :: "string list"

definition st_next :: "multi_client_state \<Rightarrow> multi_client_state" where
  "st_next s = s\<lparr>st_current := st_current s + 1\<rparr>"

definition get_at :: "multi_client_state \<Rightarrow> usize \<Rightarrow> string" where
  "get_at s at = st_hosts s ! (unat at mod length (st_hosts s))"

definition get_entry :: "multi_client_state \<Rightarrow> string" where
  "get_entry s = get_at s (st_current s)"

fun skip_loop :: "nat \<Rightarrow> remote_mapping_cache \<Rightarrow> multi_client_state \<Rightarrow> multi_client_state" where
  "skip_loop 0 c s = s"
| "skip_loop (Suc n) c s =
     (if \<not> host_is_reachable c (st_remote s) (get_entry s) then skip_loop n c (st_next s) else s)"

definition skip_unreachable :: "remote_mapping_cache \<Rightarrow> multi_client_state \<Rightarrow> multi_client_state" where
  "skip_unreachable c s = skip_loop (length (st_hosts s)) c s"

definition multi_client_state_new ::
  "remote_mapping_cache \<Rightarrow> string \<Rightarrow> string list \<Rightarrow> multi_client_state" where
  "multi_client_state_new c rmt hosts =
     skip_unreachable c \<lparr>st_current = 0, st_remote = rmt, st_hosts = hosts\<rparr>"

text \<open>
  \<open>prepare_connect_multi_client\<close>; \<open>prepare\<close> stands for setting up the HTTP client of one host,
  which can fail on a malformed address or fingerprint.
\<close>

fun prepare_clients :: "(string \<Rightarrow> string option) \<Rightarrow> string list \<Rightarrow> string + string list" where
  "prepare_clients prepare [] = Inr []"
| "prepare_clients prepare (h # hs) =
     (case prepare h of
        Some err \<Rightarrow> Inl err
      | None \<Rightarrow> (case prepare_clients prepare hs of Inl err \<Rightarrow> Inl err | Inr clients \<Rightarrow> Inr (h # clients)))"

definition prepare_connect_multi_client ::
  "(string \<Rightarrow> string option) \<Rightarrow> remote_mapping_cache \<Rightarrow> remote \<Rightarrow> string + multi_client_state" where
  "prepare_connect_multi_client prepare c r =
     (if r_nodes r = [] then Inl ''no nodes configured for remote''
      else case prepare_clients prepare (r_nodes r) of
             Inl err \<Rightarrow> Inl err
           | Inr clients \<Rightarrow> Inr (multi_client_state_new c (r_id r) clients))"

definition tried_clients :: "multi_client_state \<Rightarrow> usize \<Rightarrow> usize" where
  "tried_clients s start = st_current s - start"

definition tried_all_since :: "multi_client_state \<Rightarrow> usize \<Rightarrow> bool" where
  "tried_all_since s start \<longleftrightarrow> length (st_hosts s) \<le> unat (tried_clients s start)"

section \<open>The hosts to try\<close>

record try_client =
  tc_hostname :: string
  tc_reachable :: bool

definition try_client_for_entry :: "remote_mapping_cache \<Rightarrow> string \<Rightarrow> string \<Rightarrow> try_client" where
  "try_client_for_entry c rmt host =
     \<lparr>tc_hostname = host, tc_reachable = host_is_reachable c rmt host\<rparr>"

definition try_unreachable_client :: "string \<Rightarrow> try_client" where
  "try_unreachable_client host = \<lparr>tc_hostname = host, tc_reachable = False\<rparr>"

record try_iter =
  it_start_current :: "(usize \<times> usize) option"
  it_unreachable_clients :: "usize list"
  it_try_unreachable :: "usize list option"
  it_fused :: bool

definition try_clients :: try_iter where
  "try_clients = \<lparr>it_start_current = None, it_unreachable_clients = [],
     it_try_unreachable = None, it_fused = False\<rparr>"

lemma unat_diff_step:
  fixes a b :: "'a::len word"
  assumes "a \<noteq> b"
  shows "Suc (unat (b - (a + 1))) = unat (b - a)"
proof -
  have "b - a \<noteq> 0" using assms by simp
  then have "unat (b - a - 1) = unat (b - a) - 1" "0 < unat (b - a)"
    by (simp_all add: unat_minus_one unat_gt_0)
  then show ?thesis by (simp add: diff_diff_add)
qed

function remember :: "usize \<Rightarrow> usize \<Rightarrow> usize list" where
  "remember at new_current = (if at = new_current then [] else at # remember (at + 1) new_current)"
  by pat_completeness auto

termination remember
proof (relation "measure (\<lambda>(at, new_current). unat (new_current - at))", goal_cases)
  case (2 at new_current)
  with unat_diff_step [of at new_current] show ?case by simp
qed simp

declare remember.simps [simp del]

definition iter_next :: "remote_mapping_cache \<Rightarrow> multi_client_state \<Rightarrow> try_iter \<Rightarrow>
    try_client option \<times> multi_client_state \<times> try_iter" where
  "iter_next c s it =
     (if it_fused it then (None, s, it)
      else case it_try_unreachable it of
        Some [] \<Rightarrow> (None, s, it\<lparr>it_fused := True\<rparr>)
      | Some (at # rest) \<Rightarrow>
          (Some (try_unreachable_client (get_at s at)), s, it\<lparr>it_try_unreachable := Some rest\<rparr>)
      | None \<Rightarrow>
          (case it_start_current it of
             None \<Rightarrow>
               (Some (try_client_for_entry c (st_remote s) (get_entry s)), s,
                it\<lparr>it_start_current := Some (st_current s, st_current s)\<rparr>)
           | Some (start, current) \<Rightarrow>
               let s = (if st_current s = current then skip_unreachable c (st_next s) else s)
               in if tried_all_since s start
                  then (case it_unreachable_clients it of
                          [] \<Rightarrow> (None, s, it\<lparr>it_try_unreachable := Some [], it_fused := True\<rparr>)
                        | at # rest \<Rightarrow>
                            (Some (try_unreachable_client (get_at s at)), s,
                             it\<lparr>it_unreachable_clients := [], it_try_unreachable := Some rest\<rparr>))
                  else (Some (try_client_for_entry c (st_remote s) (get_entry s)), s,
                        it\<lparr>it_start_current := Some (start, st_current s),
                           it_unreachable_clients := it_unreachable_clients it
                             @ remember (current + 1) (st_current s)\<rparr>)))"

section \<open>Requests\<close>

text \<open>
  \<open>Further\<close> stands for the variants of the client library's error that the code does not
  distinguish.
\<close>

datatype client_error = Connect string | Client string | Other string | Further string

datatype 'r attempt = Timed_Out | Done "client_error + 'r"

text \<open>
  \<open>ev_advance\<close>: how far other tasks moved the rotation before this iteration; \<open>ev_before\<close> and
  \<open>ev_during\<close>: what they did to the host cache before it and while the request was sent;
  \<open>ev_write\<close>: whether locking and saving the cache works.
\<close>

record 'r env =
  ev_advance :: nat
  ev_before :: "remote_mapping_cache \<Rightarrow> remote_mapping_cache"
  ev_during :: "remote_mapping_cache \<Rightarrow> remote_mapping_cache"
  ev_now :: i64
  ev_write :: bool
  ev_attempt :: "string \<Rightarrow> 'r attempt"

text \<open>The local variables of the loop; \<open>l_sent\<close> records the requests, for the statements only.\<close>

record 'r request_state =
  l_state :: multi_client_state
  l_cache :: remote_mapping_cache
  l_iter :: try_iter
  l_last_err :: "client_error option"
  l_timed_out :: bool
  l_connect_retry :: "string option"
  l_first :: bool
  l_sent :: "(string \<times> 'r attempt) list"

datatype 'r flow = Continue "'r request_state" | Exhausted "'r request_state"
  | Return "client_error + 'r" "'r request_state"

definition write_mark :: "'r env \<Rightarrow> string \<Rightarrow> connection_state \<Rightarrow> 'r request_state \<Rightarrow> 'r request_state" where
  "write_mark ev host cs l =
     (if ev_write ev
      then l\<lparr>l_cache := mark_host_reachable (ev_now ev) (st_remote (l_state l)) host cs (l_cache l)\<rparr>
      else l)"

definition send :: "'r env \<Rightarrow> string \<Rightarrow> 'r request_state \<Rightarrow> 'r request_state" where
  "send ev host l = l\<lparr>l_sent := l_sent l @ [(host, ev_attempt ev host)], l_cache := ev_during ev (l_cache l)\<rparr>"

definition mark_failed :: "(client_error \<Rightarrow> string) \<Rightarrow> 'r env \<Rightarrow> string \<Rightarrow> 'r request_state \<Rightarrow> 'r request_state" where
  "mark_failed to_string ev host l =
     (let l = l\<lparr>l_first := False\<rparr>
      in if l_timed_out l then write_mark ev host (Unreachable ''request timed out'') l
         else (case l_last_err l of
                 Some err \<Rightarrow> write_mark ev host (Unreachable (to_string err)) l
               | None \<Rightarrow> l))"

definition back_off_active :: "(nat \<times> string) option \<Rightarrow> bool" where
  "back_off_active t = (case t of Some (back_off_time, _) \<Rightarrow> 0 < back_off_time | None \<Rightarrow> False)"

definition attempt_host :: "(client_error \<Rightarrow> string) \<Rightarrow> bool \<Rightarrow> 'r env \<Rightarrow> try_client \<Rightarrow> 'r request_state \<Rightarrow> 'r flow" where
  "attempt_host to_string is_idempotent ev tc l =
     (let host = tc_hostname tc;
          l = send ev host (l\<lparr>l_last_err := None, l_timed_out := False\<rparr>)
      in case ev_attempt ev host of
           Done (Inl (Connect e)) \<Rightarrow>
             Continue (mark_failed to_string ev host
               (l\<lparr>l_connect_retry := (if l_first l then Some host else l_connect_retry l),
                  l_last_err := Some (Connect e)\<rparr>))
         | Done (Inl (Client e)) \<Rightarrow>
             if is_idempotent
             then Continue (mark_failed to_string ev host (l\<lparr>l_last_err := Some (Client e)\<rparr>))
             else Return (Inl (Client e)) l
         | Done result \<Rightarrow>
             Return result (if tc_reachable tc then l else write_mark ev host Reachable l)
         | Timed_Out \<Rightarrow>
             Continue (mark_failed to_string ev host (l\<lparr>l_timed_out := True\<rparr>)))"

definition try_host :: "(client_error \<Rightarrow> string) \<Rightarrow> bool \<Rightarrow> 'r env \<Rightarrow> try_client \<Rightarrow> 'r request_state \<Rightarrow> 'r flow" where
  "try_host to_string is_idempotent ev tc l =
     (if back_off_active (host_time_to_next_try (l_cache l) (st_remote (l_state l)) (tc_hostname tc) (ev_now ev))
      then Continue l
      else attempt_host to_string is_idempotent ev tc l)"

definition others :: "'r env \<Rightarrow> 'r request_state \<Rightarrow> 'r request_state" where
  "others ev l =
     l\<lparr>l_state := (l_state l)\<lparr>st_current := st_current (l_state l) + of_nat (ev_advance ev)\<rparr>,
       l_cache := ev_before ev (l_cache l)\<rparr>"

definition request_iteration :: "(client_error \<Rightarrow> string) \<Rightarrow> bool \<Rightarrow> 'r env \<Rightarrow> 'r request_state \<Rightarrow> 'r flow" where
  "request_iteration to_string is_idempotent ev l =
     (let l = others ev l;
          (tc, s, it) = iter_next (l_cache l) (l_state l) (l_iter l);
          l = l\<lparr>l_state := s, l_iter := it\<rparr>
      in case tc of
           None \<Rightarrow> Exhausted l
         | Some tc \<Rightarrow> try_host to_string is_idempotent ev tc l)"

definition give_up :: "'r request_state \<Rightarrow> client_error + 'r" where
  "give_up l =
     (case l_last_err l of
        Some err \<Rightarrow> Inl err
      | None \<Rightarrow>
          if l_timed_out l then Inl (Other ''failed to perform API request: timed out'')
          else Inl (Other ''failed to perform API request: unknown error''))"

definition retry_first :: "'r env \<Rightarrow> 'r request_state \<Rightarrow> (client_error + 'r) \<times> 'r request_state" where
  "retry_first ev l =
     (case l_connect_retry l of
        None \<Rightarrow> (give_up l, l)
      | Some host \<Rightarrow>
          let l = send ev host l
          in case ev_attempt ev host of
               Done (Inr r) \<Rightarrow> (Inr r, write_mark ev host Reachable l)
             | Done (Inl e) \<Rightarrow> (Inl e, l)
             | Timed_Out \<Rightarrow> (give_up l, l))"

fun request_loop :: "(client_error \<Rightarrow> string) \<Rightarrow> bool \<Rightarrow> (nat \<Rightarrow> 'r env) \<Rightarrow> nat \<Rightarrow> nat \<Rightarrow> 'r request_state \<Rightarrow>
    ((client_error + 'r) \<times> 'r request_state) option" where
  "request_loop to_string is_idempotent evs 0 i l = None"
| "request_loop to_string is_idempotent evs (Suc fuel) i l =
     (case request_iteration to_string is_idempotent (evs i) l of
        Continue l \<Rightarrow> request_loop to_string is_idempotent evs fuel (Suc i) l
      | Return r l \<Rightarrow> Some (r, l)
      | Exhausted l \<Rightarrow> Some (retry_first (evs (Suc i)) l))"

definition request_start :: "remote_mapping_cache \<Rightarrow> multi_client_state \<Rightarrow> 'r request_state" where
  "request_start c s = \<lparr>l_state = s, l_cache = c, l_iter = try_clients, l_last_err = None,
     l_timed_out = False, l_connect_retry = None, l_first = True, l_sent = []\<rparr>"

definition request :: "(client_error \<Rightarrow> string) \<Rightarrow> bool \<Rightarrow> (nat \<Rightarrow> 'r env) \<Rightarrow> nat \<Rightarrow> i64 \<Rightarrow>
    remote_mapping_cache \<Rightarrow> multi_client_state \<Rightarrow> ((client_error + 'r) \<times> 'r request_state) option" where
  "request to_string is_idempotent evs fuel now c s =
     (case remote_time_to_next_try c (st_remote s) now of
        Some (back_off_time, last_error) \<Rightarrow>
          if 0 < back_off_time then Some (Inl (Connect last_error), request_start c s)
          else request_loop to_string is_idempotent evs fuel 0 (request_start c s)
      | None \<Rightarrow> request_loop to_string is_idempotent evs fuel 0 (request_start c s))"

end
