(* ===== verification/Multi_Client_Props.thy ===== *)
theory Multi_Client_Props
  imports Multi_Client
begin

text \<open>
  Properties of requests over the hosts of a remote. The iterator is described by the distance of the rotation
  from where the request found it: every position passed was handed out or is remembered for later, which bounds
  the number of requests. Undisturbed requests are followed host by host.
\<close>

definition dist :: "usize \<Rightarrow> multi_client_state \<Rightarrow> nat" where
  "dist start s = unat (st_current s - start)"

lemma length_remember: "length (remember a b) = unat (b - a)"
proof (induction a b rule: remember.induct)
  case (1 a b)
  show ?case
  proof (cases "a = b")
    case False
    with 1 unat_diff_step [of a b] show ?thesis by (simp add: remember.simps [of a b])
  qed (simp add: remember.simps)
qed

lemma st_next_simps [simp]:
  "st_current (st_next s) = st_current s + 1" "st_hosts (st_next s) = st_hosts s" "st_remote (st_next s) = st_remote s"
  by (simp_all add: st_next_def)

lemma skip_loop_simps [simp]:
  "st_hosts (skip_loop n c s) = st_hosts s" "st_remote (skip_loop n c s) = st_remote s"
  by (induction n arbitrary: s) simp_all

lemma skip_unreachable_simps [simp]:
  "st_hosts (skip_unreachable c s) = st_hosts s" "st_remote (skip_unreachable c s) = st_remote s"
  by (simp_all add: skip_unreachable_def)

lemma prepare_clients_Inr: "prepare_clients p hs = Inr hs' \<Longrightarrow> hs' = hs"
  by (induction hs arbitrary: hs') (auto split: option.splits sum.splits)

lemma prepare_connect_hosts:
  "prepare_connect_multi_client p c r = Inr s \<Longrightarrow> st_hosts s = r_nodes r \<and> st_hosts s \<noteq> [] \<and> st_remote s = r_id r"
  by (auto simp: prepare_connect_multi_client_def multi_client_state_new_def
      dest: prepare_clients_Inr split: if_splits sum.splits)

lemma skip_loop_current: "\<exists>k \<le> n. st_current (skip_loop n c s) = st_current s + of_nat k"
proof (induction n arbitrary: s)
  case (Suc n)
  show ?case
  proof (cases "host_is_reachable c (st_remote s) (get_entry s)")
    case False
    obtain k where "k \<le> n" "st_current (skip_loop n c (st_next s)) = st_current (st_next s) + of_nat k"
      using Suc by blast
    with False show ?thesis by (intro exI [of _ "Suc k"]) simp
  qed (intro exI [of _ 0], simp)
qed (intro exI [of _ 0], simp)

lemma unat_add_of_nat:
  fixes a :: usize
  assumes "unat a + k < 2 ^ 64"
  shows "unat (a + of_nat k) = unat a + k"
  using assms by (simp add: unat_word_ariths unat_of_nat take_bit_eq_mod)

lemma dist_advance:
  assumes "st_current s' = st_current s + of_nat k" "dist start s + k < 2 ^ 64"
  shows "dist start s' = dist start s + k"
proof -
  have "st_current s' - start = (st_current s - start) + of_nat k" using assms(1) by (simp only: diff_add_eq)
  with unat_add_of_nat [of "st_current s - start" k] assms(2) show ?thesis by (simp only: dist_def)
qed

lemma skip_dist:
  assumes "dist start s + length (st_hosts s) + 1 < 2 ^ 64"
  shows "dist start s < dist start (skip_unreachable c (st_next s))
    \<and> dist start (skip_unreachable c (st_next s)) \<le> dist start s + length (st_hosts s) + 1"
proof -
  obtain k where k: "k \<le> length (st_hosts s)"
    "st_current (skip_unreachable c (st_next s)) = st_current (st_next s) + of_nat k"
    using skip_loop_current [of "length (st_hosts s)" c "st_next s"] by (auto simp: skip_unreachable_def)
  then have "st_current (skip_unreachable c (st_next s)) = st_current s + of_nat (Suc k)" by simp
  from dist_advance [OF this, of start] k assms show ?thesis by simp
qed

text \<open>Every position from the start up to the current one was handed out or is remembered.\<close>

definition iter_inv :: "nat \<Rightarrow> multi_client_state \<Rightarrow> try_iter \<Rightarrow> bool" where
  "iter_inv y s it \<longleftrightarrow>
     (case it_try_unreachable it of
        Some rest \<Rightarrow> y + length rest \<le> length (st_hosts s)
      | None \<Rightarrow>
          (case it_start_current it of
             None \<Rightarrow> y = 0 \<and> it_unreachable_clients it = []
           | Some (start, current) \<Rightarrow>
               y + length (it_unreachable_clients it) = Suc (unat (current - start))
               \<and> unat (current - start) < length (st_hosts s)
               \<and> unat (current - start) \<le> dist start s))"

definition travelled :: "multi_client_state \<Rightarrow> try_iter \<Rightarrow> nat" where
  "travelled s it = (case it_start_current it of None \<Rightarrow> 0 | Some (start, _) \<Rightarrow> dist start s)"

lemma iter_next_inv:
  assumes inv: "iter_inv y s it" and ne: "st_hosts s \<noteq> []"
    and far: "travelled s it + length (st_hosts s) + 1 < 2 ^ 64"
    and step: "iter_next c s it = (Some tc, s', it')"
  shows "iter_inv (Suc y) s' it' \<and> Suc y \<le> length (st_hosts s) \<and> st_hosts s' = st_hosts s \<and> st_remote s' = st_remote s
    \<and> travelled s' it' \<le> travelled s it + length (st_hosts s) + 1"
proof (cases "it_try_unreachable it")
  case (Some r)
  with inv step show ?thesis
    by (cases r) (auto simp: iter_next_def iter_inv_def travelled_def split: if_splits option.splits prod.splits)
next
  case None
  note N = None
  show ?thesis
  proof (cases "it_start_current it")
    case None
    with N inv step ne show ?thesis
      by (auto simp: iter_next_def iter_inv_def travelled_def dist_def Suc_le_eq split: if_splits)
  next
    case (Some p)
    obtain start current where p: "p = (start, current)" by (cases p)
    define d where "d = unat (current - start)"
    define t where "t = (if st_current s = current then skip_unreachable c (st_next s) else s)"
    have far': "dist start s + length (st_hosts s) + 1 < 2 ^ 64" using far Some p by (simp add: travelled_def)
    have inv': "y + length (it_unreachable_clients it) = Suc d" "d < length (st_hosts s)" "d \<le> dist start s"
      using inv N Some p by (simp_all add: iter_inv_def d_def)
    have hosts: "st_hosts t = st_hosts s" "st_remote t = st_remote s" by (simp_all add: t_def)
    have prog: "d < dist start t" "dist start t \<le> dist start s + length (st_hosts s) + 1"
    proof -
      have "d < dist start s" if "st_current s \<noteq> current"
      proof -
        have "unat (current - start) \<noteq> unat (st_current s - start)" using that by (simp only: word_unat_eq_iff [symmetric]) simp
        with inv'(3) show ?thesis by (simp add: d_def dist_def)
      qed
      then show "d < dist start t" "dist start t \<le> dist start s + length (st_hosts s) + 1"
        using skip_dist [OF far', of c] inv'(3) by (auto simp: t_def)
    qed
    show ?thesis
    proof (cases "tried_all_since t start")
      case True
      then obtain at rest where l: "it_unreachable_clients it = at # rest"
        and s': "s' = t" "it' = it\<lparr>it_unreachable_clients := [], it_try_unreachable := Some rest\<rparr>"
        using step N Some p
        by (cases "it_unreachable_clients it") (auto simp: iter_next_def t_def Let_def split: if_splits)
      with inv' hosts prog Some p show ?thesis by (auto simp: iter_inv_def travelled_def)
    next
      case False
      then have s': "s' = t" "it' = it\<lparr>it_start_current := Some (start, st_current t),
          it_unreachable_clients := it_unreachable_clients it @ remember (current + 1) (st_current t)\<rparr>"
        using step N Some p by (auto simp: iter_next_def t_def Let_def split: if_splits)
      have len: "Suc (length (remember (current + 1) (st_current t)) + d) = dist start t"
      proof -
        have "current \<noteq> st_current t" using prog(1) by (auto simp: d_def dist_def)
        then have "Suc (unat (st_current t - (current + 1))) = unat (st_current t - current)" by (rule unat_diff_step)
        also have "\<dots> = unat ((st_current t - start) - (current - start))" by simp
        also have "\<dots> = dist start t - d"
          using prog(1) unfolding d_def dist_def by (intro unat_sub) (simp add: word_le_nat_alt)
        finally show ?thesis using prog(1) by (simp add: length_remember)
      qed
      have lt: "dist start t < length (st_hosts s)" using False hosts by (simp add: tried_all_since_def tried_clients_def dist_def)
      show ?thesis using inv' hosts prog Some p N s' len lt by (auto simp: iter_inv_def travelled_def dist_def)
    qed
  qed
qed

fun flow_state :: "'r flow \<Rightarrow> 'r request_state" where
  "flow_state (Continue l) = l"
| "flow_state (Exhausted l) = l"
| "flow_state (Return r l) = l"

lemma write_mark_simps [simp]:
  "l_state (write_mark ev h cs l) = l_state l" "l_iter (write_mark ev h cs l) = l_iter l"
  "l_sent (write_mark ev h cs l) = l_sent l" "l_connect_retry (write_mark ev h cs l) = l_connect_retry l"
  "l_last_err (write_mark ev h cs l) = l_last_err l" "l_timed_out (write_mark ev h cs l) = l_timed_out l"
  "l_first (write_mark ev h cs l) = l_first l"
  by (simp_all add: write_mark_def)

lemma send_simps [simp]:
  "l_state (send ev h l) = l_state l" "l_iter (send ev h l) = l_iter l"
  "l_sent (send ev h l) = l_sent l @ [(h, ev_attempt ev h)]" "l_connect_retry (send ev h l) = l_connect_retry l"
  "l_last_err (send ev h l) = l_last_err l" "l_timed_out (send ev h l) = l_timed_out l" "l_first (send ev h l) = l_first l"
  by (simp_all add: send_def)

lemma mark_failed_simps [simp]:
  "l_state (mark_failed ts ev h l) = l_state l" "l_iter (mark_failed ts ev h l) = l_iter l"
  "l_sent (mark_failed ts ev h l) = l_sent l" "l_connect_retry (mark_failed ts ev h l) = l_connect_retry l"
  "l_last_err (mark_failed ts ev h l) = l_last_err l" "l_timed_out (mark_failed ts ev h l) = l_timed_out l"
  "\<not> l_first (mark_failed ts ev h l)"
  by (simp_all add: mark_failed_def Let_def split: option.split)

definition resendable :: "bool \<Rightarrow> 'r attempt \<Rightarrow> bool" where
  "resendable idem a = (case a of
     Timed_Out \<Rightarrow> True | Done (Inl (Connect _)) \<Rightarrow> True | Done (Inl (Client _)) \<Rightarrow> idem | _ \<Rightarrow> False)"

lemma try_host_cases:
  obtains (Skipped) "try_host ts idem ev tc l = Continue l"
  | (Failed) l' where "try_host ts idem ev tc l = Continue l'" "resendable idem (ev_attempt ev (tc_hostname tc))"
      "l_sent l' = l_sent l @ [(tc_hostname tc, ev_attempt ev (tc_hostname tc))]"
      "l_state l' = l_state l" "l_iter l' = l_iter l" 
  | (Answered) r l' where "try_host ts idem ev tc l = Return r l'" "ev_attempt ev (tc_hostname tc) = Done r"
      "\<not> resendable idem (ev_attempt ev (tc_hostname tc))"
      "l_sent l' = l_sent l @ [(tc_hostname tc, ev_attempt ev (tc_hostname tc))]"
      "l_state l' = l_state l" "l_iter l' = l_iter l"
proof (cases "back_off_active (host_time_to_next_try (l_cache l) (st_remote (l_state l)) (tc_hostname tc) (ev_now ev))")
  case True
  then show thesis by (intro Skipped) (simp add: try_host_def)
next
  case False
  then have e: "try_host ts idem ev tc l = attempt_host ts idem ev tc l" by (simp add: try_host_def)
  show thesis
  proof (cases "resendable idem (ev_attempt ev (tc_hostname tc))")
    case True
    then have "\<exists>l'. attempt_host ts idem ev tc l = Continue l'
        \<and> l_sent l' = l_sent l @ [(tc_hostname tc, ev_attempt ev (tc_hostname tc))]
        \<and> l_state l' = l_state l \<and> l_iter l' = l_iter l"
      by (simp add: attempt_host_def Let_def resendable_def split: attempt.splits sum.splits client_error.splits)
    with True Failed e show thesis by metis
  next
    case False
    then have "\<exists>r l'. attempt_host ts idem ev tc l = Return r l' \<and> ev_attempt ev (tc_hostname tc) = Done r
        \<and> l_sent l' = l_sent l @ [(tc_hostname tc, ev_attempt ev (tc_hostname tc))]
        \<and> l_state l' = l_state l \<and> l_iter l' = l_iter l"
      by (simp add: attempt_host_def Let_def resendable_def split: attempt.splits sum.splits client_error.splits)
    with False Answered e show thesis by metis
  qed
qed

text \<open>One iteration of the loop, seen from the iterator.\<close>

lemma others_inv:
  assumes "iter_inv y (l_state l) (l_iter l)" "travelled (l_state l) (l_iter l) + ev_advance ev < 2 ^ 64"
  shows "iter_inv y (l_state (others ev l)) (l_iter l)
    \<and> travelled (l_state (others ev l)) (l_iter l) \<le> travelled (l_state l) (l_iter l) + ev_advance ev"
proof (cases "it_start_current (l_iter l)")
  case None
  with assms show ?thesis by (auto simp: iter_inv_def travelled_def others_def split: option.split)
next
  case (Some p)
  obtain start current where p: "p = (start, current)" by (cases p)
  have "dist start (l_state (others ev l)) = dist start (l_state l) + ev_advance ev"
    by (rule dist_advance) (use assms Some p in \<open>simp_all add: travelled_def others_def\<close>)
  with assms Some p show ?thesis
    by (auto simp: iter_inv_def travelled_def others_def dist_def split: option.splits)
qed

lemma request_iteration_cases:
  assumes inv: "iter_inv y (l_state l) (l_iter l)" and ne: "st_hosts (l_state l) \<noteq> []"
    and far: "travelled (l_state l) (l_iter l) + ev_advance ev + length (st_hosts (l_state l)) + 1 < 2 ^ 64"
    and log: "length (l_sent l) \<le> y"
  shows "case request_iteration ts idem ev l of
      Exhausted l' \<Rightarrow> l_sent l' = l_sent l
    | Return r l' \<Rightarrow> length (l_sent l') \<le> length (st_hosts (l_state l))
    | Continue l' \<Rightarrow> iter_inv (Suc y) (l_state l') (l_iter l') \<and> Suc y \<le> length (st_hosts (l_state l))
        \<and> st_hosts (l_state l') = st_hosts (l_state l) \<and> length (l_sent l') \<le> Suc y
        \<and> travelled (l_state l') (l_iter l')
            \<le> travelled (l_state l) (l_iter l) + ev_advance ev + length (st_hosts (l_state l)) + 1"
proof -
  define m where "m = others ev l"
  obtain tc s it where n: "iter_next (l_cache m) (l_state m) (l_iter m) = (tc, s, it)"
    by (cases "iter_next (l_cache m) (l_state m) (l_iter m)")
  have hosts: "st_hosts (l_state m) = st_hosts (l_state l)" and sent: "l_sent m = l_sent l" and it: "l_iter m = l_iter l"
    by (simp_all add: m_def others_def)
  have o: "iter_inv y (l_state m) (l_iter m)"
    "travelled (l_state m) (l_iter m) \<le> travelled (l_state l) (l_iter l) + ev_advance ev"
    using others_inv [OF inv, of ev] far unfolding m_def [symmetric] it by auto
  define m' where "m' = m\<lparr>l_state := s, l_iter := it\<rparr>"
  have e: "request_iteration ts idem ev l = (case tc of None \<Rightarrow> Exhausted m' | Some tc \<Rightarrow> try_host ts idem ev tc m')"
    using n by (auto simp: request_iteration_def m'_def m_def Let_def split: option.split)
  show ?thesis
  proof (cases tc)
    case None
    then show ?thesis by (simp add: e m'_def sent)
  next
    case (Some c)
    have i: "iter_inv (Suc y) s it \<and> Suc y \<le> length (st_hosts (l_state l)) \<and> st_hosts s = st_hosts (l_state l)
      \<and> travelled s it \<le> travelled (l_state l) (l_iter l) + ev_advance ev + length (st_hosts (l_state l)) + 1"
      using iter_next_inv [OF o(1) _ _ n [unfolded Some]] hosts ne far o(2) by auto
    show ?thesis
      by (cases rule: try_host_cases [of ts idem ev c m']) (use i log in \<open>simp_all add: e Some m'_def sent\<close>)
  qed
qed

lemma retry_first_sent: "length (l_sent (snd (retry_first ev l))) \<le> Suc (length (l_sent l))"
  by (simp add: retry_first_def Let_def split: option.split attempt.split sum.split)

lemma request_loop_ends:
  assumes "iter_inv y (l_state l) (l_iter l)" "st_hosts (l_state l) \<noteq> []" "length (l_sent l) \<le> y"
    "y \<le> length (st_hosts (l_state l))"
    and adv: "\<And>i. ev_advance (evs i) \<le> a"
    and "travelled (l_state l) (l_iter l) + (Suc (length (st_hosts (l_state l))) - y) * (a + length (st_hosts (l_state l)) + 1) < 2 ^ 64"
    and "Suc (length (st_hosts (l_state l))) - y \<le> fuel"
  shows "\<exists>r l'. request_loop ts idem evs fuel i l = Some (r, l') \<and> length (l_sent l') \<le> Suc (length (st_hosts (l_state l)))"
  using assms(1-4,6-7)
proof (induction fuel arbitrary: y i l)
  case 0
  then show ?case by simp
next
  case (Suc fuel)
  let ?n = "length (st_hosts (l_state l))" let ?t = "travelled (l_state l) (l_iter l)"
  let ?k = "a + ?n + 1"
  have split: "(Suc ?n - y) * ?k = ?k + (Suc ?n - Suc y) * ?k" using Suc.prems(4) by (simp add: Suc_diff_le)
  have far: "?t + ev_advance (evs i) + ?n + 1 < 2 ^ 64" using Suc.prems(5) split adv [of i] by simp
  note c = request_iteration_cases [OF Suc.prems(1,2) far Suc.prems(3), of ts idem]
  show ?case
  proof (cases "request_iteration ts idem (evs i) l")
    case (Continue l')
    with c have l': "iter_inv (Suc y) (l_state l') (l_iter l')" "Suc y \<le> ?n" "st_hosts (l_state l') = st_hosts (l_state l)"
      "length (l_sent l') \<le> Suc y" "travelled (l_state l') (l_iter l') \<le> ?t + ev_advance (evs i) + ?n + 1" by simp_all
    have "travelled (l_state l') (l_iter l') + (Suc ?n - Suc y) * ?k < 2 ^ 64"
      using l'(5) adv [of i] Suc.prems(5) split by linarith
    with Suc.IH [of "Suc y" l' "Suc i"] l' Suc.prems(2,6) Continue show ?thesis by simp
  next
    case (Exhausted l')
    with c retry_first_sent [of "evs (Suc i)" l'] Suc.prems(3,4) show ?thesis
      by (cases "retry_first (evs (Suc i)) l'") simp
  next
    case (Return r l')
    with c show ?thesis by simp
  qed
qed

text \<open>C13. A request over several hosts always returns, wherever the rotation stands and whatever other tasks do to
  it and to the host cache meanwhile, and sends at most one request per host plus the final retry. The
  counter of the rotation must not be lapped during one request.\<close>

theorem request_terminates:
  assumes "prepare_connect_multi_client prepare c0 r = Inr s0" "s = s0\<lparr>st_current := start\<rparr>"
    and "\<forall>i. ev_advance (evs i) \<le> a"
    and "(length (st_hosts s) + 1) * (a + length (st_hosts s) + 1) < 2 ^ 64"
    and "length (st_hosts s) < fuel"
  shows "\<exists>r l. request to_string is_idempotent evs fuel now c s = Some (r, l)
    \<and> length (l_sent l) \<le> length (st_hosts s) + 1"
proof -
  let ?l = "request_start c s"
  have ne: "st_hosts s \<noteq> []" using prepare_connect_hosts [OF assms(1)] assms(2) by force
  have "iter_inv 0 (l_state ?l) (l_iter ?l)" "travelled (l_state ?l) (l_iter ?l) = 0"
    by (simp_all add: request_start_def iter_inv_def travelled_def try_clients_def)
  from request_loop_ends [OF this(1), of evs a fuel to_string is_idempotent 0] this(2) assms ne
  have "\<exists>r l'. request_loop to_string is_idempotent evs fuel 0 ?l = Some (r, l') \<and> length (l_sent l') \<le> Suc (length (st_hosts s))"
    by (simp add: request_start_def)
  then show ?thesis
    by (auto simp: request_def request_start_def split: option.split prod.split)
qed

section \<open>Resending\<close>

definition log_ok :: "bool \<Rightarrow> (client_error + 'r) \<Rightarrow> (string \<times> 'r attempt) list \<Rightarrow> bool" where
  "log_ok idem r log \<longleftrightarrow> (\<forall>(_, a) \<in> set (butlast log). resendable idem a)
     \<and> (\<forall>x. r = Inr x \<longrightarrow> log \<noteq> [] \<and> snd (last log) = Done (Inr x))"

lemma request_iteration_log:
  assumes "\<forall>(_, a) \<in> set (l_sent l). resendable idem a"
  shows "case request_iteration ts idem ev l of
      Exhausted l' \<Rightarrow> l_sent l' = l_sent l
    | Continue l' \<Rightarrow> (\<forall>(_, a) \<in> set (l_sent l'). resendable idem a)
    | Return r l' \<Rightarrow> log_ok idem r (l_sent l')"
proof -
  define m where "m = others ev l"
  obtain tc s it where n: "iter_next (l_cache m) (l_state m) (l_iter m) = (tc, s, it)"
    by (cases "iter_next (l_cache m) (l_state m) (l_iter m)")
  define m' where "m' = m\<lparr>l_state := s, l_iter := it\<rparr>"
  have sent: "l_sent m' = l_sent l" by (simp add: m'_def m_def others_def)
  have e: "request_iteration ts idem ev l = (case tc of None \<Rightarrow> Exhausted m' | Some tc \<Rightarrow> try_host ts idem ev tc m')"
    using n by (auto simp: request_iteration_def m'_def m_def Let_def split: option.split)
  show ?thesis
  proof (cases tc)
    case (Some c)
    show ?thesis
      by (cases rule: try_host_cases [of ts idem ev c m']) (use assms sent in \<open>auto simp: e Some log_ok_def\<close>)
  qed (simp add: e sent)
qed

lemma retry_first_log:
  assumes "\<forall>(_, a) \<in> set (l_sent l). resendable idem a"
  shows "log_ok idem (fst (retry_first ev l)) (l_sent (snd (retry_first ev l)))"
  using assms
  by (auto simp: retry_first_def log_ok_def Let_def give_up_def dest: in_set_butlastD
      split: option.split attempt.split sum.split)

lemma request_loop_log:
  assumes "\<forall>(_, a) \<in> set (l_sent l). resendable idem a" "request_loop ts idem evs fuel i l = Some (r, l')"
  shows "log_ok idem r (l_sent l')"
  using assms
proof (induction fuel arbitrary: i l)
  case (Suc fuel)
  note it = request_iteration_log [OF Suc.prems(1), of ts "evs i"]
  show ?case
  proof (cases "request_iteration ts idem (evs i) l")
    case (Continue k)
    with it Suc.IH [of k "Suc i"] Suc.prems(2) show ?thesis by simp
  next
    case (Exhausted k)
    with it Suc.prems retry_first_log [of k idem "evs (Suc i)"] show ?thesis by simp
  next
    case (Return x k)
    with it Suc.prems(2) show ?thesis by simp
  qed
qed simp

lemma request_SomeE:
  assumes "request ts idem evs fuel now c s = Some (r, l)"
  obtains (Held) e where "r = Inl (Connect e)" "l = request_start c s"
  | (Ran) "request_loop ts idem evs fuel 0 (request_start c s) = Some (r, l)"
  using assms by (auto simp: request_def split: option.splits prod.splits if_splits)

lemma request_start_sent [simp]: "l_sent (request_start c s) = []"
  by (simp add: request_start_def)

lemma resendable_iff:
  "resendable idem a \<longleftrightarrow>
     a = Timed_Out \<or> (\<exists>e. a = Done (Inl (Connect e))) \<or> idem \<and> (\<exists>e. a = Done (Inl (Client e)))"
  by (auto simp: resendable_def split: attempt.split sum.split client_error.split)

text \<open>C14. A request is sent again only after a connect failure, a timeout or, for idempotent methods,
  a failure after connecting; an answer is never followed by another request, and a successful result is the
  answer to the last request sent.\<close>

theorem request_resends_only_undelivered:
  assumes "request to_string is_idempotent evs fuel now c s = Some (r, l)"
  shows "(\<forall>(host, a) \<in> set (butlast (l_sent l)).
            a = Timed_Out \<or> (\<exists>e. a = Done (Inl (Connect e))) \<or> is_idempotent \<and> (\<exists>e. a = Done (Inl (Client e))))
    \<and> (\<forall>x. r = Inr x \<longrightarrow> l_sent l \<noteq> [] \<and> snd (last (l_sent l)) = Done (Inr x))"
proof -
  have "log_ok is_idempotent r (l_sent l)"
    using assms proof (cases rule: request_SomeE)
    case Held
    then show ?thesis by (simp add: log_ok_def)
  next
    case Ran
    then show ?thesis by (intro request_loop_log) simp_all
  qed
  then show ?thesis
    unfolding log_ok_def resendable_iff by blast
qed

definition ex_env :: "(string \<Rightarrow> string attempt) \<Rightarrow> nat \<Rightarrow> string env" where
  "ex_env att i = \<lparr>ev_advance = 0, ev_before = id, ev_during = id, ev_now = 100, ev_write = True, ev_attempt = att\<rparr>"

definition ex_state :: "string list \<Rightarrow> multi_client_state" where
  "ex_state hosts = \<lparr>st_current = 0, st_remote = ''r1'', st_hosts = hosts\<rparr>"

definition ex_host :: "string \<Rightarrow> back_off_state option \<Rightarrow> host_info" where
  "ex_host h b = \<lparr>hi_hostname = h, hi_node_name = None, hi_back_off = b\<rparr>"

definition ex_cache :: "back_off_state option \<Rightarrow> remote_mapping_cache" where
  "ex_cache b = \<lparr>mc_remotes = [(''r1'', \<lparr>rm_ty = Remote_Pve,
     rm_hosts = [(''a'', ex_host ''a'' None), (''b'', ex_host ''b'' b)], rm_node_to_host = []\<rparr>)], mc_canary_remote = None\<rparr>"

text \<open>Host a does not answer in time (or at all), host b does.\<close>

definition ex_slow :: "string \<Rightarrow> string attempt" where
  "ex_slow h = (if h = ''a'' then Timed_Out else Done (Inr ''ok''))"

definition ex_down :: "string \<Rightarrow> string attempt" where
  "ex_down h = (if h = ''a'' then Done (Inl (Connect ''down'')) else Done (Inr ''ok''))"

lemmas ex_defs = ex_env_def ex_state_def ex_host_def ex_cache_def ex_slow_def ex_down_def

lemmas request_eval = request_def remote_time_to_next_try_def sc_get_def hi_is_reachable_def
  request_start_def request_iteration_def others_def iter_next_def try_clients_def get_entry_def get_at_def
  try_client_for_entry_def host_is_reachable_def info_by_hostname_def try_host_def back_off_active_def
  host_time_to_next_try_def attempt_host_def send_def mark_failed_def write_mark_def mark_host_reachable_def
  touch_host_def set_reachable_def sc_modify_def set_or_reset_canary_def canary_is_needed_def is_unreachable_def
  rm_is_reachable_def st_next_def skip_unreachable_def tried_all_since_def tried_clients_def remember.simps Let_def
  back_off_new_def time_to_next_try_def saturate_i64_def

lemma ex_slow_run:
  "map_option (\<lambda>(r, l). (r, l_sent l)) (request (\<lambda>_. []) False (ex_env ex_slow) (Suc (Suc (Suc 0))) 100 (ex_cache None) (ex_state [''a'', ''b'']))
     = Some (Inr ''ok'', [(''a'', Timed_Out), (''b'', Done (Inr ''ok''))])"
  by (simp add: ex_defs request_eval)

definition ex_down_cache :: remote_mapping_cache where
  "ex_down_cache = mark_host_reachable 100 ''r1'' ''a'' (Unreachable []) (ex_cache (Some (back_off_new 50 ''e'')))"

lemma ex_down_cache_reach: "\<not> host_is_reachable ex_down_cache ''r1'' ''a''" "\<not> host_is_reachable ex_down_cache ''r1'' ''b''"
  by (simp_all add: ex_down_cache_def ex_defs request_eval)

definition ex_down_mid :: "string request_state" where
  "ex_down_mid = \<lparr>l_state = ex_state [''a'', ''b''], l_cache = ex_down_cache,
     l_iter = try_clients\<lparr>it_start_current := Some (0, 0)\<rparr>, l_last_err = Some (Connect ''down''), l_timed_out = False,
     l_connect_retry = Some ''a'', l_first = False, l_sent = [(''a'', Done (Inl (Connect ''down'')))]\<rparr>"

lemma ex_down_first:
  "request_iteration (\<lambda>_. []) False (ex_env ex_down i) (request_start (ex_cache (Some (back_off_new 50 ''e''))) (ex_state [''a'', ''b'']))
     = Continue ex_down_mid"
  by (simp add: ex_down_mid_def ex_down_cache_def request_iteration_def request_start_def others_def iter_next_def try_clients_def
     get_entry_def get_at_def try_client_for_entry_def try_host_def back_off_active_def host_time_to_next_try_def ex_defs
     attempt_host_def send_def mark_failed_def write_mark_def Let_def info_by_hostname_def sc_get_def)

lemma ex_down_second:
  "\<exists>l. request_iteration (\<lambda>_. []) False (ex_env ex_down i) ex_down_mid = Exhausted l \<and> l_sent l = l_sent ex_down_mid
     \<and> l_connect_retry l = Some ''a''"
  using ex_down_cache_reach
  by (simp add: ex_down_mid_def request_iteration_def others_def iter_next_def try_clients_def
     skip_unreachable_def get_entry_def get_at_def st_next_def tried_all_since_def tried_clients_def
     ex_env_def ex_state_def Let_def)

lemma ex_down_run:
  "\<exists>l. request (\<lambda>_. []) False (ex_env ex_down) (Suc (Suc (Suc 0))) 100 (ex_cache (Some (back_off_new 50 ''e''))) (ex_state [''a'', ''b''])
     = Some (Inl (Connect ''down''), l) \<and> map fst (l_sent l) = [''a'', ''a'']"
proof -
  obtain l where l: "request_iteration (\<lambda>_. []) False (ex_env ex_down 1) ex_down_mid = Exhausted l" "l_sent l = l_sent ex_down_mid"
     "l_connect_retry l = Some ''a''" using ex_down_second by blast
  have "remote_time_to_next_try (ex_cache (Some (back_off_new 50 ''e''))) ''r1'' 100 = None"
    by (simp add: ex_defs remote_time_to_next_try_def sc_get_def)
  moreover have "st_remote (ex_state [''a'', ''b'']) = ''r1''" by (simp add: ex_state_def)
  moreover have "ev_attempt (ex_env ex_down i) ''a'' = Done (Inl (Connect ''down''))" for i by (simp add: ex_env_def ex_down_def)
  ultimately show ?thesis using l
    by (simp add: request_def ex_down_first retry_first_def Let_def) (simp add: ex_down_mid_def)
qed

section \<open>Failover\<close>

definition order :: "multi_client_state \<Rightarrow> nat \<Rightarrow> string" where
  "order s j = st_hosts s ! ((unat (st_current s) + j) mod length (st_hosts s))"

definition quiet :: "'r env \<Rightarrow> bool" where
  "quiet ev \<longleftrightarrow> ev_advance ev = 0 \<and> ev_before ev = id \<and> ev_during ev = id"

lemma set_or_reset_canary_hosts:
  "mc_remotes (set_or_reset_canary rmt True c) = mc_remotes c"
  by (auto simp: set_or_reset_canary_def canary_is_needed_def Let_def split: option.split)

lemma info_mark_unreachable:
  assumes "h' \<noteq> h"
  shows "info_by_hostname (mark_host_reachable t rmt h (Unreachable e) c) rmt h' = info_by_hostname c rmt h'"
  using assms
  by (auto simp: mark_host_reachable_def info_by_hostname_def is_unreachable_def set_or_reset_canary_hosts
      touch_host_def sc_laws bind_eq_Some_conv split: option.split)

lemma write_mark_others:
  assumes "h' \<noteq> h"
  shows "info_by_hostname (l_cache (write_mark ev h (Unreachable e) l)) (st_remote (l_state l)) h'
    = info_by_hostname (l_cache l) (st_remote (l_state l)) h'"
  using assms by (simp add: write_mark_def info_mark_unreachable)

lemma reachable_no_back_off:
  "host_is_reachable c rmt h \<Longrightarrow> host_time_to_next_try c rmt h t = None"
  by (auto simp: host_is_reachable_def host_time_to_next_try_def hi_is_reachable_def split: option.splits)

lemma mark_failed_others:
  assumes "h' \<noteq> h"
  shows "info_by_hostname (l_cache (mark_failed ts ev h l)) (st_remote (l_state l)) h'
    = info_by_hostname (l_cache l) (st_remote (l_state l)) h'"
  using write_mark_others [OF assms, of ev _ "l\<lparr>l_first := False\<rparr>"]
  by (auto simp: mark_failed_def Let_def split: option.split)

lemma attempt_host_failed:
  assumes "quiet ev" "resendable idem (ev_attempt ev (tc_hostname tc))"
  shows "\<exists>l'. attempt_host ts idem ev tc l = Continue l' \<and> l_state l' = l_state l \<and> l_iter l' = l_iter l
    \<and> l_sent l' = l_sent l @ [(tc_hostname tc, ev_attempt ev (tc_hostname tc))]
    \<and> (\<forall>h. h \<noteq> tc_hostname tc \<longrightarrow>
       info_by_hostname (l_cache l') (st_remote (l_state l)) h = info_by_hostname (l_cache l) (st_remote (l_state l)) h)"
proof -
  have c: "l_cache (send ev h k) = l_cache k" for h k using assms(1) by (simp add: send_def quiet_def)
  have m: "info_by_hostname (l_cache (mark_failed ts ev h k)) r h' = info_by_hostname (l_cache k) r h'"
    if "h' \<noteq> h" "r = st_remote (l_state k)" for h h' k r
    using mark_failed_others [OF that(1), of ts ev k] that(2) by simp
  show ?thesis
    using assms(2)
    by (auto simp: attempt_host_def Let_def resendable_def c m split: attempt.splits sum.splits client_error.splits)
qed

text \<open>
  An undisturbed request after \<open>Suc j\<close> failures: the rotation stands on the host tried last, nothing
  was skipped, and the hosts that follow are still reachable.
\<close>

definition quiet_at :: "multi_client_state \<Rightarrow> (string \<Rightarrow> 'r attempt) \<Rightarrow> nat \<Rightarrow> 'r request_state \<Rightarrow> bool" where
  "quiet_at s att j l \<longleftrightarrow>
     l_state l = s\<lparr>st_current := st_current s + of_nat j\<rparr>
     \<and> l_iter l = try_clients\<lparr>it_start_current := Some (st_current s, st_current s + of_nat j)\<rparr>
     \<and> l_sent l = map (\<lambda>k. (order s k, att (order s k))) [0..<Suc j]
     \<and> (\<forall>k. j < k \<and> k < length (st_hosts s) \<longrightarrow> host_is_reachable (l_cache l) (st_remote s) (order s k))"

definition rotation_ok :: "multi_client_state \<Rightarrow> bool" where
  "rotation_ok s \<longleftrightarrow> distinct (st_hosts s) \<and> st_hosts s \<noteq> [] \<and> unat (st_current s) + length (st_hosts s) < 2 ^ 64"

lemma order_get_at:
  assumes "rotation_ok s" "j < length (st_hosts s)"
  shows "get_at (s\<lparr>st_current := x\<rparr>) (st_current s + of_nat j) = order s j"
  using assms unat_add_of_nat [of "st_current s" j] by (simp add: get_at_def order_def rotation_ok_def)

lemma mod_add_inj:
  fixes a i j n :: nat
  assumes "(a + i) mod n = (a + j) mod n" "i < n" "j < n"
  shows "i = j"
  using assms
proof (induction i j rule: linorder_wlog)
  case (le i j)
  then have "n dvd (a + j) - (a + i)" by (metis add_le_mono1 add.commute mod_eq_dvd_iff_nat)
  with le show ?case by (auto dest: dvd_imp_le)
qed simp

lemma order_inj:
  assumes "rotation_ok s" "i < length (st_hosts s)" "j < length (st_hosts s)" "order s i = order s j"
  shows "i = j"
proof -
  let ?n = "length (st_hosts s)" and ?a = "unat (st_current s)"
  have "distinct (st_hosts s)" "(?a + i) mod ?n < ?n" "(?a + j) mod ?n < ?n"
    using assms(1) by (simp_all add: rotation_ok_def)
  from iffD1 [OF nth_eq_iff_index_eq [OF this] assms(4) [unfolded order_def]]
  have "(?a + i) mod ?n = (?a + j) mod ?n" .
  then show ?thesis using assms(2,3) by (rule mod_add_inj)
qed

lemma skip_reachable:
  "host_is_reachable c (st_remote s) (get_entry s) \<Longrightarrow> skip_unreachable c s = s"
  by (cases "st_hosts s") (simp_all add: skip_unreachable_def)

lemma remember_same [simp]: "remember a a = []"
  by (simp add: remember.simps)

lemma quiet_next:
  assumes ok: "rotation_ok s" and q: "quiet_at s att j l" and j: "Suc j < length (st_hosts s)" and ev: "quiet ev"
  shows "request_iteration ts idem ev l =
    try_host ts idem ev \<lparr>tc_hostname = order s (Suc j), tc_reachable = True\<rparr>
      (l\<lparr>l_state := s\<lparr>st_current := st_current s + of_nat (Suc j)\<rparr>,
         l_iter := try_clients\<lparr>it_start_current := Some (st_current s, st_current s + of_nat (Suc j))\<rparr>\<rparr>)"
proof -
  let ?s = "s\<lparr>st_current := st_current s + of_nat (Suc j)\<rparr>"
  have add_1: "st_current s + of_nat j + 1 = st_current s + of_nat (Suc j)" by simp
  have o: "others ev l = l" using ev by (simp add: others_def quiet_def)
  have n: "st_next (s\<lparr>st_current := st_current s + of_nat j\<rparr>) = ?s" by (simp add: st_next_def add.commute)
  have e: "get_entry ?s = order s (Suc j)" using order_get_at [OF ok j] by (simp add: get_entry_def)
  have r: "host_is_reachable (l_cache l) (st_remote s) (order s (Suc j))" using q j by (simp add: quiet_at_def)
  have k: "skip_unreachable (l_cache l) ?s = ?s" by (rule skip_reachable) (simp only: e, simp add: r)
  have u: "unat (of_nat (Suc j) :: usize) = Suc j"
    using unat_add_of_nat [of 0 "Suc j"] j ok by (simp add: rotation_ok_def)
  have t: "\<not> tried_all_since ?s (st_current s)" using j u by (simp add: tried_all_since_def tried_clients_def)
  have "iter_next (l_cache l) (l_state l) (l_iter l) =
      (Some \<lparr>tc_hostname = order s (Suc j), tc_reachable = True\<rparr>, ?s,
       try_clients\<lparr>it_start_current := Some (st_current s, st_current s + of_nat (Suc j))\<rparr>)"
    using q e r by (simp add: iter_next_def quiet_at_def try_clients_def n k t try_client_for_entry_def add_1 del: of_nat_Suc)
  then show ?thesis by (simp add: request_iteration_def o Let_def)
qed

lemma quiet_first:
  assumes ok: "rotation_ok s" and ev: "quiet ev" and r: "host_is_reachable c (st_remote s) (order s 0)"
  shows "request_iteration ts idem ev (request_start c s) =
    try_host ts idem ev \<lparr>tc_hostname = order s 0, tc_reachable = True\<rparr>
      ((request_start c s)\<lparr>l_iter := try_clients\<lparr>it_start_current := Some (st_current s, st_current s)\<rparr>\<rparr>)"
proof -
  have "get_entry s = order s 0" by (simp add: get_entry_def get_at_def order_def)
  moreover have "others ev (request_start c s) = request_start c s" using ev by (simp add: others_def quiet_def request_start_def)
  ultimately show ?thesis using r
    by (simp add: request_iteration_def request_start_def iter_next_def try_clients_def try_client_for_entry_def)
qed

lemma try_host_reachable:
  "host_is_reachable (l_cache l) (st_remote (l_state l)) (tc_hostname tc) \<Longrightarrow> try_host ts idem ev tc l = attempt_host ts idem ev tc l"
  by (simp add: try_host_def reachable_no_back_off back_off_active_def)

lemma host_is_reachable_cong:
  "info_by_hostname c r h = info_by_hostname c' r h \<Longrightarrow> host_is_reachable c r h = host_is_reachable c' r h"
  by (simp add: host_is_reachable_def)

definition quiet_request ::
  "multi_client_state \<Rightarrow> remote_mapping_cache \<Rightarrow> (nat \<Rightarrow> 'r env) \<Rightarrow> (string \<Rightarrow> 'r attempt) \<Rightarrow> bool" where
  "quiet_request s c evs att \<longleftrightarrow> rotation_ok s
     \<and> (\<forall>i. quiet (evs i) \<and> ev_attempt (evs i) = att)
     \<and> (\<forall>h \<in> set (st_hosts s). host_is_reachable c (st_remote s) h)"

lemma quiet_requestD:
  assumes "quiet_request s c evs att"
  shows "rotation_ok s" "quiet (evs i)" "ev_attempt (evs i) = att" "host_is_reachable c (st_remote s) (order s k)"
proof -
  have "order s k \<in> set (st_hosts s)" using assms by (simp add: order_def rotation_ok_def quiet_request_def)
  with assms show "rotation_ok s" "quiet (evs i)" "ev_attempt (evs i) = att" "host_is_reachable c (st_remote s) (order s k)"
    by (simp_all add: quiet_request_def)
qed

text \<open>The \<open>k\<close>th host is up: the state in which it is about to be tried.\<close>

definition ready :: "multi_client_state \<Rightarrow> (string \<Rightarrow> 'r attempt) \<Rightarrow> nat \<Rightarrow> 'r request_state \<Rightarrow> bool" where
  "ready s att k l \<longleftrightarrow> l_state l = s\<lparr>st_current := st_current s + of_nat k\<rparr>
     \<and> l_iter l = try_clients\<lparr>it_start_current := Some (st_current s, st_current s + of_nat k)\<rparr>
     \<and> l_sent l = map (\<lambda>k. (order s k, att (order s k))) [0..<k]
     \<and> (\<forall>j. k \<le> j \<and> j < length (st_hosts s) \<longrightarrow> host_is_reachable (l_cache l) (st_remote s) (order s j))"

definition tc_of :: "multi_client_state \<Rightarrow> nat \<Rightarrow> try_client" where
  "tc_of s k = \<lparr>tc_hostname = order s k, tc_reachable = True\<rparr>"

lemma tc_of_hostname [simp]: "tc_hostname (tc_of s k) = order s k"
  by (simp add: tc_of_def)

lemma ready_try:
  "ready s att k l \<Longrightarrow> k < length (st_hosts s) \<Longrightarrow> try_host ts idem ev (tc_of s k) l = attempt_host ts idem ev (tc_of s k) l"
  by (rule try_host_reachable) (simp add: ready_def)

lemma failed_step:
  assumes q: "quiet_request s c evs att" and fail: "resendable idem (att (order s k))"
    and k: "k < length (st_hosts s)" and rd: "ready s att k l"
  shows "\<exists>l'. try_host ts idem (evs i) (tc_of s k) l = Continue l' \<and> quiet_at s att k l'"
proof -
  note q = quiet_requestD [OF q]
  have rem: "st_remote (l_state l) = st_remote s" using rd by (simp add: ready_def)
  have "resendable idem (ev_attempt (evs i) (tc_hostname (tc_of s k)))" using fail q by simp
  from attempt_host_failed [OF q(2) this, of ts l] obtain l' where l':
    "attempt_host ts idem (evs i) (tc_of s k) l = Continue l'" "l_state l' = l_state l" "l_iter l' = l_iter l"
    "l_sent l' = l_sent l @ [(order s k, att (order s k))]"
    "\<And>h. h \<noteq> order s k \<Longrightarrow> info_by_hostname (l_cache l') (st_remote s) h = info_by_hostname (l_cache l) (st_remote s) h"
    using q(3) rem by auto
  have "host_is_reachable (l_cache l') (st_remote s) (order s j)" if "k < j" "j < length (st_hosts s)" for j
  proof -
    have "order s j \<noteq> order s k" using order_inj [OF q(1), of j k] that k by auto
    from host_is_reachable_cong [OF l'(5) [OF this]] rd that show ?thesis by (simp add: ready_def)
  qed
  then have "quiet_at s att k l'" using l' rd by (auto simp: quiet_at_def ready_def)
  then show ?thesis using l'(1) ready_try [OF rd k] by auto
qed

lemma reach_stage:
  assumes q: "quiet_request s c evs att" and "k < length (st_hosts s)" "\<forall>j < k. resendable idem (att (order s j))"
  shows "\<exists>l m. request_loop ts idem evs (fuel + k) 0 (request_start c s) = request_loop ts idem evs fuel k l
    \<and> (\<forall>i. request_iteration ts idem (evs i) l = try_host ts idem (evs i) (tc_of s k) m) \<and> ready s att k m"
  using assms(2,3)
proof (induction k arbitrary: fuel)
  case 0
  let ?m = "(request_start c s)\<lparr>l_iter := try_clients\<lparr>it_start_current := Some (st_current s, st_current s)\<rparr>\<rparr>"
  note q = quiet_requestD [OF q]
  have "ready s att 0 ?m" using q(4) by (simp add: ready_def request_start_def)
  moreover have "request_iteration ts idem (evs i) (request_start c s) = try_host ts idem (evs i) (tc_of s 0) ?m" for i
    unfolding tc_of_def by (rule quiet_first [OF q(1,2,4)])
  ultimately show ?case by (metis add_0_right)
next
  case (Suc k)
  then obtain l m where IH: "request_loop ts idem evs (Suc fuel + k) 0 (request_start c s) = request_loop ts idem evs (Suc fuel) k l"
    "\<forall>i. request_iteration ts idem (evs i) l = try_host ts idem (evs i) (tc_of s k) m" "ready s att k m"
    using Suc.IH [of "Suc fuel"] by auto
  from failed_step [OF q _ _ IH(3), of idem ts k] Suc.prems obtain l' where
    t: "try_host ts idem (evs k) (tc_of s k) m = Continue l'" and qa: "quiet_at s att k l'" by auto
  have loop: "request_loop ts idem evs (fuel + Suc k) 0 (request_start c s) = request_loop ts idem evs fuel (Suc k) l'"
    using IH(1) IH(2) t by simp
  let ?m = "l'\<lparr>l_state := s\<lparr>st_current := st_current s + of_nat (Suc k)\<rparr>,
         l_iter := try_clients\<lparr>it_start_current := Some (st_current s, st_current s + of_nat (Suc k))\<rparr>\<rparr>"
  have "ready s att (Suc k) ?m" using qa by (simp add: ready_def quiet_at_def)
  moreover have "request_iteration ts idem (evs i) l' = try_host ts idem (evs i) (tc_of s (Suc k)) ?m" for i
    unfolding tc_of_def by (rule quiet_next [OF quiet_requestD(1) [OF q] qa Suc.prems(1) quiet_requestD(2) [OF q]])
  ultimately show ?case using loop by blast
qed

lemma first_answer:
  assumes q: "quiet_request s c evs att" and "k < length (st_hosts s)" "\<forall>j < k. resendable idem (att (order s j))"
    and a: "att (order s k) = Done r" "\<not> resendable idem (Done r)"
  shows "\<exists>l. request_loop ts idem evs (Suc fuel + k) 0 (request_start c s) = Some (r, l)
    \<and> l_sent l = map (\<lambda>j. (order s j, att (order s j))) [0..<Suc k]"
proof -
  obtain l m where st: "request_loop ts idem evs (Suc fuel + k) 0 (request_start c s) = request_loop ts idem evs (Suc fuel) k l"
    "request_iteration ts idem (evs k) l = try_host ts idem (evs k) (tc_of s k) m" "ready s att k m"
    using reach_stage [OF assms(1-3), of ts "Suc fuel"] by blast
  have "\<exists>l'. attempt_host ts idem (evs k) (tc_of s k) m = Return r l' \<and> l_sent l' = l_sent m @ [(order s k, att (order s k))]"
    using a quiet_requestD(3) [OF q, of k]
    by (simp add: attempt_host_def Let_def resendable_def split: sum.splits client_error.splits)
  with st ready_try [OF st(3) assms(2)] show ?thesis by (auto simp: ready_def)
qed

text \<open>C15. If the hosts of a remote are known to be reachable and nothing interferes, a request is answered by
  the first host in rotation order that answers, after the earlier ones failed to connect, each asked once.\<close>

theorem failover_reaches_answer:
  assumes "distinct (st_hosts s)" "st_hosts s \<noteq> []" "unat (st_current s) + length (st_hosts s) < 2 ^ 64"
    and "\<forall>i. ev_advance (evs i) = 0 \<and> ev_before (evs i) = id \<and> ev_during (evs i) = id \<and> ev_attempt (evs i) = att"
    and "\<forall>h \<in> set (st_hosts s). host_is_reachable c (st_remote s) h"
    and "remote_time_to_next_try c (st_remote s) now = None"
    and "k < length (st_hosts s)" "\<forall>j < k. \<exists>e. att (order s j) = Done (Inl (Connect e))"
    and "att (order s k) = Done (Inr answer)" "k < fuel"
  shows "\<exists>l. request to_string is_idempotent evs fuel now c s = Some (Inr answer, l)
    \<and> map fst (l_sent l) = map (order s) [0..<k + 1]"
proof -
  have q: "quiet_request s c evs att"
    using assms(1-5) by (simp add: quiet_request_def rotation_ok_def quiet_def)
  moreover have "\<forall>j < k. resendable is_idempotent (att (order s j))" using assms(8) by (auto simp: resendable_iff)
  moreover have "\<not> resendable is_idempotent (Done (Inr answer))" by (simp add: resendable_def)
  moreover obtain m where "fuel = Suc m + k" using assms(10) by (auto simp: less_iff_Suc_add)
  ultimately obtain l where "request_loop to_string is_idempotent evs fuel 0 (request_start c s) = Some (Inr answer, l)"
    "l_sent l = map (\<lambda>j. (order s j, att (order s j))) [0..<Suc k]"
    using first_answer [OF q assms(7) _ assms(9), of is_idempotent to_string m] by blast
  then show ?thesis using assms(6) by (simp add: request_def)
qed

theorem request_terminates_witness:
  "\<exists>r l. request (\<lambda>_. []) False (ex_env ex_down) 3 100 (ex_cache None) (ex_state [''a'', ''b'']) = Some (r, l)
     \<and> length (l_sent l) \<le> 3"
proof -
  have "\<exists>r l. request (\<lambda>_. []) False (ex_env ex_down) 3 100 (ex_cache None) (ex_state [''a'', ''b'']) = Some (r, l)
     \<and> length (l_sent l) \<le> length (st_hosts (ex_state [''a'', ''b''])) + 1"
  proof (rule request_terminates [where a = 0])
    show "prepare_connect_multi_client (\<lambda>_. None) (ex_cache None) \<lparr>r_ty = Remote_Pve, r_id = ''r1'',
        r_nodes = [''a'', ''b''], r_authid = [], r_token = [], r_web_url = None\<rparr> = Inr (ex_state [''a'', ''b''])"
      by (simp add: prepare_connect_multi_client_def multi_client_state_new_def skip_unreachable_def get_entry_def
          get_at_def ex_defs host_is_reachable_def info_by_hostname_def sc_get_def hi_is_reachable_def)
  qed (simp_all add: ex_state_def ex_env_def)
  moreover have "length (st_hosts (ex_state [''a'', ''b''])) + 1 = 3" by (simp add: ex_state_def)
  ultimately show ?thesis by (simp only:)
qed

theorem request_resends_only_undelivered_witness:
  "\<exists>l. request (\<lambda>_. []) False (ex_env ex_slow) (Suc (Suc (Suc 0))) 100 (ex_cache None) (ex_state [''a'', ''b'']) = Some (Inr ''ok'', l)
     \<and> snd (last (l_sent l)) = Done (Inr ''ok'')"
proof -
  obtain l where r: "request (\<lambda>_. []) False (ex_env ex_slow) (Suc (Suc (Suc 0))) 100 (ex_cache None) (ex_state [''a'', ''b'']) = Some (Inr ''ok'', l)"
    using ex_slow_run by auto
  from request_resends_only_undelivered [OF this] have "snd (last (l_sent l)) = Done (Inr ''ok'')" by simp
  with r show ?thesis by blast
qed

theorem failover_reaches_answer_witness:
  "\<exists>l. request (\<lambda>_. []) False (ex_env ex_down) 3 100 (ex_cache None) (ex_state [''a'', ''b'']) = Some (Inr ''ok'', l)
     \<and> map fst (l_sent l) = [''a'', ''b'']"
proof -
  let ?s = "ex_state [''a'', ''b'']"
  have o: "order ?s 0 = ''a''" "order ?s 1 = ''b''" by (simp_all add: order_def ex_state_def)
  have "\<exists>l. request (\<lambda>_. []) False (ex_env ex_down) 3 100 (ex_cache None) ?s = Some (Inr ''ok'', l)
     \<and> map fst (l_sent l) = map (order ?s) [0..<1 + 1]"
  proof (rule failover_reaches_answer [where att = ex_down])
    show "\<forall>i. ev_advance (ex_env ex_down i) = 0 \<and> ev_before (ex_env ex_down i) = id
        \<and> ev_during (ex_env ex_down i) = id \<and> ev_attempt (ex_env ex_down i) = ex_down" by (simp add: ex_env_def)
    show "\<forall>h \<in> set (st_hosts ?s). host_is_reachable (ex_cache None) (st_remote ?s) h"
      by (simp add: ex_defs host_is_reachable_def info_by_hostname_def sc_get_def hi_is_reachable_def)
    show "remote_time_to_next_try (ex_cache None) (st_remote ?s) 100 = None"
      by (simp add: ex_defs remote_time_to_next_try_def sc_get_def)
    show "\<forall>j < 1. \<exists>e. ex_down (order ?s j) = Done (Inl (Connect e))" by (simp add: o ex_down_def)
    show "ex_down (order ?s 1) = Done (Inr ''ok'')" unfolding o by (simp add: ex_down_def)
  qed (simp_all add: ex_state_def)
  moreover have "map (order ?s) [0..<1 + 1] = [''a'', ''b'']" using o by (simp add: upt_rec)
  ultimately show ?thesis by simp
qed

text \<open>A request that must not be repeated is repeated after a timeout, when the first host may already be
  processing it.\<close>

theorem timeout_resends_post:
  "\<exists>l. request (\<lambda>_. []) False (ex_env ex_slow) (Suc (Suc (Suc 0))) 100 (ex_cache None) (ex_state [''a'', ''b'']) = Some (Inr ''ok'', l)
     \<and> l_sent l = [(''a'', Timed_Out), (''b'', Done (Inr ''ok''))]"
  using ex_slow_run by auto

text \<open>A host marked unreachable whose back-off is over and that would answer is never asked when it is
  skipped in the last step of the rotation: the request fails although the host is up.\<close>

theorem skipped_host_never_tried:
  "ex_down ''b'' = Done (Inr ''ok'')
   \<and> host_time_to_next_try (ex_cache (Some (back_off_new 50 ''e''))) ''r1'' ''b'' 100 = Some (0, ''e'')
   \<and> (\<exists>l. request (\<lambda>_. []) False (ex_env ex_down) (Suc (Suc (Suc 0))) 100
          (ex_cache (Some (back_off_new 50 ''e''))) (ex_state [''a'', ''b'']) = Some (Inl (Connect ''down''), l)
        \<and> map fst (l_sent l) = [''a'', ''a''])"
proof (intro conjI ex_down_run)
  show "ex_down ''b'' = Done (Inr ''ok'')" by (simp add: ex_down_def)
  show "host_time_to_next_try (ex_cache (Some (back_off_new 50 ''e''))) ''r1'' ''b'' 100 = Some (0, ''e'')"
    by (simp add: ex_defs host_time_to_next_try_def info_by_hostname_def sc_get_def time_to_next_try_def
        back_off_new_def saturate_i64_def)
qed

end
