(* ===== verification/Resource_Types.thy ===== *)
theory Resource_Types
  imports Subscription_Types Complex_Main
begin

text \<open>
  The resources of remotes, \<open>lib/pdm-api-types/src/resource.rs\<close>, and how the entries a PVE or PBS
  remote reports are mapped to them (\<open>server/src/api/resources.rs\<close>). Floating point figures are
  carried as the exact rational numbers they stand for; the only one that is read is the usage of a
  datastore, which is compared with a constant. The entries of the PVE and PBS libraries are records
  with the fields the mapping reads.
\<close>

section \<open>Resources\<close>

type_synonym f64 = rat

text \<open>The binary64 number nearest to 0.80.\<close>

definition PBS_DATASTORE_HIGH_USAGE_THRESHOLD :: f64 where
  "PBS_DATASTORE_HIGH_USAGE_THRESHOLD = 3602879701896397 / 4503599627370496"

datatype resource_type = RT_PveStorage | RT_PveQemu | RT_PveLxc | RT_PveNetwork | RT_PbsDatastore | RT_Node

definition resource_type_as_str :: "resource_type \<Rightarrow> string" where
  "resource_type_as_str ty = (case ty of
     RT_PveStorage \<Rightarrow> ''storage'' | RT_PveQemu \<Rightarrow> ''qemu'' | RT_PveLxc \<Rightarrow> ''lxc''
   | RT_PveNetwork \<Rightarrow> ''network'' | RT_PbsDatastore \<Rightarrow> ''datastore'' | RT_Node \<Rightarrow> ''node'')"

definition resource_type_from_str :: "string \<Rightarrow> resource_type option" where
  "resource_type_from_str s =
     (if s = ''storage'' then Some RT_PveStorage else if s = ''qemu'' then Some RT_PveQemu
      else if s = ''lxc'' then Some RT_PveLxc else if s = ''network'' then Some RT_PveNetwork
      else if s = ''datastore'' then Some RT_PbsDatastore else if s = ''node'' then Some RT_Node
      else None)"

datatype sdn_status = Sdn_Available | Sdn_Error | Sdn_Pending | Sdn_Unknown

definition sdn_status_from_str :: "string \<Rightarrow> sdn_status" where
  "sdn_status_from_str s =
     (if s = ''ok'' \<or> s = ''available'' then Sdn_Available
      else if s = ''pending'' then Sdn_Pending
      else if s = ''error'' then Sdn_Error else Sdn_Unknown)"

definition sdn_status_as_str :: "sdn_status \<Rightarrow> string" where
  "sdn_status_as_str st = (case st of
     Sdn_Available \<Rightarrow> ''available'' | Sdn_Error \<Rightarrow> ''error'' | Sdn_Pending \<Rightarrow> ''pending'' | Sdn_Unknown \<Rightarrow> ''unknown'')"

record pve_guest_resource =
  g_cpu :: f64
  g_maxcpu :: f64
  g_disk :: nat
  g_maxdisk :: nat
  g_id :: string
  g_maxmem :: nat
  g_mem :: nat
  g_name :: string
  g_node :: string
  g_pool :: string
  g_status :: string
  g_tags :: "string list"
  g_template :: bool
  g_uptime :: nat
  g_vmid :: nat

record pve_node_resource =
  n_cgroup_mode :: int
  n_cpu :: f64
  n_maxcpu :: f64
  n_id :: string
  n_maxmem :: nat
  n_mem :: nat
  n_node :: string
  n_uptime :: nat
  n_status :: string
  n_level :: string

record pve_storage_resource =
  sr_disk :: nat
  sr_maxdisk :: nat
  sr_id :: string
  sr_storage :: string
  sr_node :: string
  sr_status :: string
  sr_shared :: bool

record network_zone_resource =
  z_id :: string
  z_node :: string
  z_network :: string
  z_status :: sdn_status
  z_zone_type :: string
  z_legacy :: bool

record network_fabric_resource =
  fa_id :: string
  fa_node :: string
  fa_network :: string
  fa_status :: sdn_status
  fa_protocol :: string

datatype pve_network_resource = Net_Fabric network_fabric_resource | Net_Zone network_zone_resource

definition net_id :: "pve_network_resource \<Rightarrow> string" where
  "net_id r = (case r of Net_Zone z \<Rightarrow> z_id z | Net_Fabric f \<Rightarrow> fa_id f)"

definition net_name :: "pve_network_resource \<Rightarrow> string" where
  "net_name r = (case r of Net_Zone z \<Rightarrow> z_network z | Net_Fabric f \<Rightarrow> fa_network f)"

definition net_node :: "pve_network_resource \<Rightarrow> string" where
  "net_node r = (case r of Net_Zone z \<Rightarrow> z_node z | Net_Fabric f \<Rightarrow> fa_node f)"

definition net_status :: "pve_network_resource \<Rightarrow> string" where
  "net_status r = (case r of Net_Zone z \<Rightarrow> sdn_status_as_str (z_status z) | Net_Fabric f \<Rightarrow> sdn_status_as_str (fa_status f))"

definition network_type_str :: "pve_network_resource \<Rightarrow> string" where
  "network_type_str r = (case r of Net_Zone _ \<Rightarrow> ''zone'' | Net_Fabric _ \<Rightarrow> ''fabric'')"

record pbs_node_resource =
  bn_cpu :: f64
  bn_maxcpu :: f64
  bn_id :: string
  bn_mem :: nat
  bn_maxmem :: nat
  bn_name :: string
  bn_uptime :: nat

record pbs_datastore_resource =
  ds_id :: string
  ds_maxdisk :: nat
  ds_disk :: nat
  ds_name :: string
  ds_usage :: f64
  ds_maintenance :: "string option"
  ds_backing_device :: "string option"
  ds_backend_type :: "string option"

datatype resource =
    PveStorage pve_storage_resource
  | PveQemu pve_guest_resource
  | PveLxc pve_guest_resource
  | PveNode pve_node_resource
  | PveNetwork pve_network_resource
  | PbsNode pbs_node_resource
  | PbsDatastore pbs_datastore_resource

definition resource_id :: "resource \<Rightarrow> string" where
  "resource_id r = (case r of
     PveStorage s \<Rightarrow> ''storage/'' @ sr_node s @ ''/'' @ sr_storage s
   | PveQemu g \<Rightarrow> ''qemu/'' @ show_nat (g_vmid g)
   | PveLxc g \<Rightarrow> ''lxc/'' @ show_nat (g_vmid g)
   | PveNode n \<Rightarrow> ''node/'' @ n_node n
   | PveNetwork w \<Rightarrow>
       (case w of
          Net_Zone z \<Rightarrow>
            if z_legacy z then ''sdn/'' @ net_node w @ ''/'' @ net_name w
            else ''network/'' @ net_node w @ ''/'' @ network_type_str w @ ''/'' @ net_name w
        | Net_Fabric _ \<Rightarrow> ''network/'' @ net_node w @ ''/'' @ network_type_str w @ ''/'' @ net_name w)
   | PbsNode n \<Rightarrow> ''node/'' @ bn_name n
   | PbsDatastore d \<Rightarrow> ds_name d)"

definition global_id :: "resource \<Rightarrow> string" where
  "global_id r = (case r of
     PveStorage s \<Rightarrow> sr_id s | PveQemu g \<Rightarrow> g_id g | PveLxc g \<Rightarrow> g_id g | PveNode n \<Rightarrow> n_id n
   | PveNetwork w \<Rightarrow> net_id w | PbsNode n \<Rightarrow> bn_id n | PbsDatastore d \<Rightarrow> ds_id d)"

definition resource_name :: "resource \<Rightarrow> string" where
  "resource_name r = (case r of
     PveStorage s \<Rightarrow> sr_storage s | PveQemu g \<Rightarrow> g_name g | PveLxc g \<Rightarrow> g_name g | PveNode n \<Rightarrow> n_node n
   | PveNetwork w \<Rightarrow> net_name w | PbsNode n \<Rightarrow> bn_name n | PbsDatastore d \<Rightarrow> ds_name d)"

definition type_of_resource :: "resource \<Rightarrow> resource_type" where
  "type_of_resource r = (case r of
     PveStorage _ \<Rightarrow> RT_PveStorage | PveQemu _ \<Rightarrow> RT_PveQemu | PveLxc _ \<Rightarrow> RT_PveLxc
   | PveNetwork _ \<Rightarrow> RT_PveNetwork | PveNode _ \<Rightarrow> RT_Node | PbsNode _ \<Rightarrow> RT_Node
   | PbsDatastore _ \<Rightarrow> RT_PbsDatastore)"

definition resource_status :: "resource \<Rightarrow> string" where
  "resource_status r = (case r of
     PveStorage s \<Rightarrow> sr_status s | PveQemu g \<Rightarrow> g_status g | PveLxc g \<Rightarrow> g_status g | PveNode n \<Rightarrow> n_status n
   | PveNetwork w \<Rightarrow> net_status w
   | PbsNode n \<Rightarrow> if 0 < bn_uptime n then ''online'' else ''offline''
   | PbsDatastore d \<Rightarrow> if ds_maintenance d = None then ''online'' else ''under-maintenance'')"

fun join_comma :: "string list \<Rightarrow> string" where
  "join_comma [] = []"
| "join_comma [p] = p"
| "join_comma (p # ps) = p @ '','' @ join_comma ps"

definition resource_properties :: "resource \<Rightarrow> string" where
  "resource_properties r = (case r of
     PbsDatastore d \<Rightarrow>
       join_comma
         ((case ds_backend_type d of Some b \<Rightarrow> [b] | None \<Rightarrow> [])
          @ (if ds_backing_device d \<noteq> None then [''removable''] else [])
          @ (if PBS_DATASTORE_HIGH_USAGE_THRESHOLD < ds_usage d then [''high-usage''] else []))
   | _ \<Rightarrow> [])"

section \<open>Entries reported by PVE\<close>

datatype cluster_resource_type = CR_Node | CR_Lxc | CR_Qemu | CR_Storage | CR_Sdn | CR_Network | CR_Other

datatype cluster_network_type = CN_Fabric | CN_Zone | CN_Unknown string

record cluster_resource =
  cr_ty :: cluster_resource_type
  cr_id :: string
  cr_cgroup_mode :: "int option"
  cr_cpu :: "f64 option"
  cr_maxcpu :: "f64 option"
  cr_disk :: "nat option"
  cr_maxdisk :: "nat option"
  cr_mem :: "nat option"
  cr_maxmem :: "i64 option"
  cr_node :: "string option"
  cr_name :: "string option"
  cr_pool :: "string option"
  cr_status :: "string option"
  cr_tags :: "string option"
  cr_template :: "bool option"
  cr_uptime :: "i64 option"
  cr_vmid :: "nat option"
  cr_storage :: "string option"
  cr_shared :: "bool option"
  cr_level :: "string option"
  cr_sdn :: "string option"
  cr_network :: "string option"
  cr_network_type :: "cluster_network_type option"
  cr_zone_type :: "string option"
  cr_protocol :: "string option"

definition or_default :: "'a \<Rightarrow> 'a option \<Rightarrow> 'a" where
  "or_default d x = (case x of None \<Rightarrow> d | Some v \<Rightarrow> v)"

definition as_u64 :: "i64 \<Rightarrow> nat" where
  "as_u64 x = nat (x mod 2 ^ 64)"

definition is_tag_separator :: "char \<Rightarrow> bool" where
  "is_tag_separator c \<longleftrightarrow> c \<in> {CHR '';'', CHR '','', CHR '' ''}"

definition map_pve_node :: "string \<Rightarrow> cluster_resource \<Rightarrow> pve_node_resource option" where
  "map_pve_node rmt r =
     (if cr_ty r \<noteq> CR_Node then None
      else Some \<lparr>n_cgroup_mode = or_default 0 (cr_cgroup_mode r), n_cpu = or_default 0 (cr_cpu r),
        n_maxcpu = or_default 0 (cr_maxcpu r),
        n_id = ''remote/'' @ rmt @ ''/node/'' @ or_default [] (cr_node r),
        n_maxmem = as_u64 (or_default 0 (cr_maxmem r)), n_mem = or_default 0 (cr_mem r),
        n_node = or_default [] (cr_node r), n_uptime = as_u64 (or_default 0 (cr_uptime r)),
        n_status = or_default [] (cr_status r), n_level = or_default [] (cr_level r)\<rparr>)"

definition guest_of :: "string \<Rightarrow> cluster_resource \<Rightarrow> pve_guest_resource" where
  "guest_of rmt r =
     \<lparr>g_cpu = or_default 0 (cr_cpu r), g_maxcpu = or_default 0 (cr_maxcpu r),
      g_disk = or_default 0 (cr_disk r), g_maxdisk = or_default 0 (cr_maxdisk r),
      g_id = ''remote/'' @ rmt @ ''/guest/'' @ show_nat (or_default 0 (cr_vmid r)),
      g_maxmem = as_u64 (or_default 0 (cr_maxmem r)), g_mem = or_default 0 (cr_mem r),
      g_name = or_default [] (cr_name r), g_node = or_default [] (cr_node r),
      g_pool = or_default [] (cr_pool r), g_status = or_default [] (cr_status r),
      g_tags = (case cr_tags r of None \<Rightarrow> [] | Some tags \<Rightarrow> split_words is_tag_separator [] tags),
      g_template = or_default False (cr_template r), g_uptime = as_u64 (or_default 0 (cr_uptime r)),
      g_vmid = or_default 0 (cr_vmid r)\<rparr>"

definition map_pve_lxc :: "string \<Rightarrow> cluster_resource \<Rightarrow> pve_guest_resource option" where
  "map_pve_lxc rmt r = (if cr_ty r \<noteq> CR_Lxc then None else Some (guest_of rmt r))"

definition map_pve_qemu :: "string \<Rightarrow> cluster_resource \<Rightarrow> pve_guest_resource option" where
  "map_pve_qemu rmt r = (if cr_ty r \<noteq> CR_Qemu then None else Some (guest_of rmt r))"

definition map_pve_storage :: "string \<Rightarrow> cluster_resource \<Rightarrow> pve_storage_resource option" where
  "map_pve_storage rmt r =
     (if cr_ty r \<noteq> CR_Storage then None
      else Some \<lparr>sr_disk = or_default 0 (cr_disk r), sr_maxdisk = or_default 0 (cr_maxdisk r),
        sr_id = ''remote/'' @ rmt @ ''/'' @ cr_id r, sr_storage = or_default [] (cr_storage r),
        sr_node = or_default [] (cr_node r), sr_status = or_default [] (cr_status r),
        sr_shared = or_default False (cr_shared r)\<rparr>)"

definition map_pve_sdn :: "string \<Rightarrow> cluster_resource \<Rightarrow> pve_network_resource option" where
  "map_pve_sdn rmt r =
     (if cr_ty r \<noteq> CR_Sdn then None
      else Some (Net_Zone \<lparr>z_id = ''remote/'' @ rmt @ ''/sdn/'' @ cr_id r, z_node = or_default [] (cr_node r),
        z_network = or_default [] (cr_sdn r), z_status = sdn_status_from_str (or_default [] (cr_status r)),
        z_zone_type = or_default [] (cr_zone_type r), z_legacy = True\<rparr>))"

definition map_pve_network :: "string \<Rightarrow> cluster_resource \<Rightarrow> pve_network_resource option" where
  "map_pve_network rmt r =
     (if cr_ty r \<noteq> CR_Network then None
      else case cr_network_type r of
        None \<Rightarrow> None
      | Some ty \<Rightarrow>
          let i = ''remote/'' @ rmt @ ''/'' @ cr_id r;
              nod = or_default [] (cr_node r);
              network = or_default [] (cr_network r);
              status = sdn_status_from_str (or_default [] (cr_status r))
          in case ty of
               CN_Fabric \<Rightarrow> Some (Net_Fabric \<lparr>fa_id = i, fa_node = nod, fa_network = network, fa_status = status,
                 fa_protocol = or_default [] (cr_protocol r)\<rparr>)
             | CN_Zone \<Rightarrow> Some (Net_Zone \<lparr>z_id = i, z_node = nod, z_network = network, z_status = status,
                 z_zone_type = or_default [] (cr_zone_type r), z_legacy = False\<rparr>)
             | CN_Unknown _ \<Rightarrow> None)"

definition map_pve_resource :: "string \<Rightarrow> cluster_resource \<Rightarrow> resource option" where
  "map_pve_resource rmt r = (case cr_ty r of
     CR_Node \<Rightarrow> map_option PveNode (map_pve_node rmt r)
   | CR_Lxc \<Rightarrow> map_option PveLxc (map_pve_lxc rmt r)
   | CR_Qemu \<Rightarrow> map_option PveQemu (map_pve_qemu rmt r)
   | CR_Storage \<Rightarrow> map_option PveStorage (map_pve_storage rmt r)
   | CR_Sdn \<Rightarrow> map_option PveNetwork (map_pve_sdn rmt r)
   | CR_Network \<Rightarrow> map_option PveNetwork (map_pve_network rmt r)
   | CR_Other \<Rightarrow> None)"

section \<open>Lemmas\<close>

lemma resource_type_roundtrip: "resource_type_from_str (resource_type_as_str ty) = Some ty"
  by (cases ty) (simp_all add: resource_type_as_str_def resource_type_from_str_def)

text \<open>Every resource mapped for a remote is filed under that remote.\<close>

lemma map_pve_network_id:
  "map_pve_network rmt r = Some x \<Longrightarrow> net_id x = ''remote/'' @ rmt @ ''/'' @ cr_id r"
  by (simp add: map_pve_network_def Let_def net_id_def split: if_splits option.splits cluster_network_type.splits)
    (clarsimp simp: net_id_def)+

lemma map_pve_global_id:
  assumes "map_pve_resource rmt r = Some x"
  shows "\<exists>rest. global_id x = ''remote/'' @ rmt @ ''/'' @ rest"
proof (cases "cr_ty r = CR_Network")
  case True
  with assms show ?thesis by (clarsimp simp: map_pve_resource_def global_id_def map_pve_network_id)
next
  case False
  with assms show ?thesis
    by (cases "cr_ty r")
      (clarsimp simp: map_pve_resource_def map_pve_node_def map_pve_lxc_def map_pve_qemu_def guest_of_def
        map_pve_storage_def map_pve_sdn_def global_id_def net_id_def)+
qed

end
