(* ===== verification/Text.thy ===== *)
theory Text
  imports Prelude
begin

text \<open>
  The operations on texts that the sources use from the language's library. A text is a list of characters of one
  byte; lengths are lengths in bytes.
\<close>

section \<open>Searching and splitting\<close>

fun str_contains :: "string \<Rightarrow> string \<Rightarrow> bool" where
  "str_contains [] t = (t = [])"
| "str_contains (c # cs) t = (starts_with (c # cs) t \<or> str_contains cs t)"

fun split_char :: "char \<Rightarrow> string \<Rightarrow> string list" where
  "split_char c [] = [[]]"
| "split_char c (x # xs) =
     (if x = c then [] # split_char c xs
      else (case split_char c xs of w # ws \<Rightarrow> (x # w) # ws | [] \<Rightarrow> [[x]]))"

text \<open>The white space among the characters of one byte, as \<open>char::is_whitespace\<close> has it.\<close>

definition is_whitespace :: "char \<Rightarrow> bool" where
  "is_whitespace c \<longleftrightarrow> (let n = of_char c :: nat in 9 \<le> n \<and> n \<le> 13 \<or> n = 32 \<or> n = 133 \<or> n = 160)"

definition split_whitespace :: "string \<Rightarrow> string list" where
  "split_whitespace s = split_words is_whitespace [] s"

section \<open>Characters\<close>

definition is_ascii_lowercase :: "char \<Rightarrow> bool" where
  "is_ascii_lowercase c \<longleftrightarrow> (let n = of_char c :: nat in 97 \<le> n \<and> n \<le> 122)"

definition is_ascii_alphanumeric :: "char \<Rightarrow> bool" where
  "is_ascii_alphanumeric c \<longleftrightarrow>
     (let n = of_char c :: nat in 48 \<le> n \<and> n \<le> 57 \<or> 65 \<le> n \<and> n \<le> 90 \<or> 97 \<le> n \<and> n \<le> 122)"

definition is_control :: "char \<Rightarrow> bool" where
  "is_control c \<longleftrightarrow> (let n = of_char c :: nat in n < 32 \<or> 127 \<le> n \<and> n < 160)"

definition ascii_lower_char :: "char \<Rightarrow> char" where
  "ascii_lower_char c = (let n = of_char c :: nat in if 65 \<le> n \<and> n \<le> 90 then char_of (n + 32) else c)"

definition to_ascii_lowercase :: "string \<Rightarrow> string" where
  "to_ascii_lowercase s = map ascii_lower_char s"

section \<open>Trimming, lines and replacement\<close>

definition trim_end_by :: "(char \<Rightarrow> bool) \<Rightarrow> string \<Rightarrow> string" where
  "trim_end_by P s = rev (dropWhile P (rev s))"

definition trim_by :: "(char \<Rightarrow> bool) \<Rightarrow> string \<Rightarrow> string" where
  "trim_by P s = trim_end_by P (dropWhile P s)"

definition trim :: "string \<Rightarrow> string" where
  "trim s = trim_by is_whitespace s"

definition trim_end_matches :: "char \<Rightarrow> string \<Rightarrow> string" where
  "trim_end_matches c s = trim_end_by ((=) c) s"

definition trim_matches :: "char \<Rightarrow> string \<Rightarrow> string" where
  "trim_matches c s = trim_by ((=) c) s"

definition line_feed :: char where "line_feed = char_of (10 :: nat)"

definition carriage_return :: char where "carriage_return = char_of (13 :: nat)"

definition tabulator :: char where "tabulator = char_of (9 :: nat)"

text \<open>A line ends with a line feed, optionally after a carriage return; an empty last line does not count.\<close>

definition str_lines :: "string \<Rightarrow> string list" where
  "str_lines s =
     (let parts = split_char line_feed s;
          terminated = map (\<lambda>l. case strip_suffix [carriage_return] l of Some l' \<Rightarrow> l' | None \<Rightarrow> l) (butlast parts)
      in terminated @ (if last parts = [] then [] else [last parts]))"

definition str_replace :: "char \<Rightarrow> string \<Rightarrow> string \<Rightarrow> string" where
  "str_replace c t s = concat (map (\<lambda>x. if x = c then t else [x]) s)"

fun str_join :: "string \<Rightarrow> string list \<Rightarrow> string" where
  "str_join sep [] = []"
| "str_join sep [s] = s"
| "str_join sep (s # t # ss) = s @ sep @ str_join sep (t # ss)"

section \<open>Laws\<close>

lemma of_char_less_256: "(of_char c :: nat) < 256"
proof -
  have "(of_char c :: nat) = of_char c mod 256" by (simp add: of_char_mod_256)
  then show ?thesis by (metis mod_less_divisor zero_less_numeral)
qed

lemma of_lower_char: "(of_char (ascii_lower_char c) :: nat) =
    (if 65 \<le> (of_char c :: nat) \<and> (of_char c :: nat) \<le> 90 then of_char c + 32 else of_char c)"
  by (simp add: ascii_lower_char_def Let_def)

lemma ascii_lower_idem [simp]: "ascii_lower_char (ascii_lower_char c) = ascii_lower_char c"
  unfolding ascii_lower_char_def [of "ascii_lower_char c"] of_lower_char Let_def by auto

lemma to_ascii_lowercase_idem [simp]: "to_ascii_lowercase (to_ascii_lowercase s) = to_ascii_lowercase s"
  by (simp add: to_ascii_lowercase_def comp_def)

lemma length_to_ascii_lowercase [simp]: "length (to_ascii_lowercase s) = length s"
  by (simp add: to_ascii_lowercase_def)

lemma alphanumeric_lower [simp]: "is_ascii_alphanumeric (ascii_lower_char c) = is_ascii_alphanumeric c"
  by (auto simp: is_ascii_alphanumeric_def of_lower_char Let_def)

lemma ascii_lower_id: "is_ascii_alphanumeric c \<Longrightarrow> ascii_lower_char c = c \<Longrightarrow> \<not> (65 \<le> (of_char c :: nat) \<and> (of_char c :: nat) \<le> 90)"
  using of_lower_char [of c] by (auto split: if_splits)

lemma set_trim_by: "set (trim_by P s) \<subseteq> set s"
  by (auto simp: trim_by_def trim_end_by_def dest!: set_dropWhileD)

lemma trim_end_by_id: "s = [] \<or> \<not> P (last s) \<Longrightarrow> trim_end_by P s = s"
  by (cases s rule: rev_cases) (auto simp: trim_end_by_def)

lemma trim_by_id: "s = [] \<or> \<not> P (hd s) \<and> \<not> P (last s) \<Longrightarrow> trim_by P s = s"
  unfolding trim_by_def by (cases s) (auto intro: trim_end_by_id)

lemma trim_end_by_last: "trim_end_by P s \<noteq> [] \<Longrightarrow> \<not> P (last (trim_end_by P s))"
  unfolding trim_end_by_def by (metis hd_dropWhile last_rev rev.simps(1) rev_rev_ident)

lemma trim_end_by_prefix: "\<exists>t. s = trim_end_by P s @ t \<and> (\<forall>c \<in> set t. P c)"
proof -
  have "s = rev (takeWhile P (rev s) @ dropWhile P (rev s))" by simp
  then have "s = trim_end_by P s @ rev (takeWhile P (rev s))" unfolding trim_end_by_def by (simp del: takeWhile_dropWhile_id)
  moreover have "\<forall>c \<in> set (rev (takeWhile P (rev s))). P c" by (auto dest: set_takeWhileD)
  ultimately show ?thesis by blast
qed

lemma trim_by_hd: "trim_by P s \<noteq> [] \<Longrightarrow> \<not> P (hd (trim_by P s))"
proof -
  assume ne: "trim_by P s \<noteq> []"
  obtain t where t: "dropWhile P s = trim_by P s @ t"
    using trim_end_by_prefix [of "dropWhile P s" P] by (auto simp: trim_by_def)
  then have "hd (dropWhile P s) = hd (trim_by P s)" "dropWhile P s \<noteq> []" using ne by auto
  then show ?thesis using hd_dropWhile [of P s] by metis
qed

lemma trim_by_last: "trim_by P s \<noteq> [] \<Longrightarrow> \<not> P (last (trim_by P s))"
  unfolding trim_by_def by (rule trim_end_by_last)

lemma trim_idem [simp]: "trim (trim s) = trim s"
  unfolding trim_def by (rule trim_by_id) (use trim_by_hd trim_by_last in blast)

lemma split_char_no_sep: "w \<in> set (split_char c s) \<Longrightarrow> c \<notin> set w"
  by (induction s arbitrary: w) (auto split: list.splits if_splits)

lemma split_char_set: "w \<in> set (split_char c s) \<Longrightarrow> set w \<subseteq> set s"
  by (induction s arbitrary: w) (fastforce split: list.splits if_splits)+

lemma split_char_ne [simp]: "split_char c s \<noteq> []"
  by (induction s) (auto split: list.splits)

lemma split_char_cover: "x \<in> set s \<Longrightarrow> x \<noteq> c \<Longrightarrow> \<exists>w \<in> set (split_char c s). x \<in> set w"
  by (induction s) (auto split: list.splits)

lemma split_char_map:
  "(\<And>x. x \<in> set s \<Longrightarrow> f x = c \<longleftrightarrow> x = c) \<Longrightarrow> split_char c (map f s) = map (map f) (split_char c s)"
  by (induction s) (auto split: list.splits)

end
