(* ===== verification/Views.thy ===== *)
theory Views
  imports Resource_Types Section_Config Text
begin

text \<open>
  Views over the resources of all remotes: filter rules and their textual form
  (\<open>lib/pdm-api-types/src/views.rs\<close>), and matching resources, nodes and remotes against a view
  (\<open>server/src/views/mod.rs\<close>). The expression for safe ids and the schema of remote ids belong to other
  libraries and are parameters.
\<close>

section \<open>Filter rules\<close>

datatype string_matcher = Exact string

definition sm_matches :: "string_matcher \<Rightarrow> string \<Rightarrow> bool" where
  "sm_matches m v = (case m of Exact matched_value \<Rightarrow> v = matched_value)"

datatype enum_matcher = EnumMatcher resource_type

definition em_matches :: "enum_matcher \<Rightarrow> resource_type \<Rightarrow> bool" where
  "em_matches m v = (case m of EnumMatcher ty \<Rightarrow> ty = v)"

datatype filter_rule =
    FR_ResourceType enum_matcher
  | FR_ResourcePool string_matcher
  | FR_ResourceId string_matcher
  | FR_Tag string_matcher
  | FR_Remote string_matcher

record view_env =
  ve_safe_id :: "string \<Rightarrow> bool"
  ve_remote_id :: "string \<Rightarrow> bool"

text \<open>\<open>GLOBAL_RESOURCE_ID_REGEX\<close>: at least two safe ids, separated by slashes.\<close>

definition global_resource_id_ok :: "view_env \<Rightarrow> string \<Rightarrow> bool" where
  "global_resource_id_ok env s \<longleftrightarrow>
     (let parts = split_char (CHR ''/'') s in 2 \<le> length parts \<and> list_all (ve_safe_id env) parts)"

datatype rule_error = Invalid_Value string string | Invalid_Type string | Invalid_Rule string

definition checked :: "bool \<Rightarrow> string \<Rightarrow> string \<Rightarrow> filter_rule \<Rightarrow> rule_error + filter_rule" where
  "checked valid key v rule = (if valid then Inr rule else Inl (Invalid_Value key v))"

definition parse_filter_rule :: "view_env \<Rightarrow> string \<Rightarrow> rule_error + filter_rule" where
  "parse_filter_rule env s =
     (case split_once (CHR ''='') s of
        Some (ty, v) \<Rightarrow>
          if ty = ''resource-type''
          then (case resource_type_from_str v of
                  Some rt \<Rightarrow> Inr (FR_ResourceType (EnumMatcher rt))
                | None \<Rightarrow> Inl (Invalid_Value ty v))
          else if ty = ''resource-pool'' then checked (ve_safe_id env v) ty v (FR_ResourcePool (Exact v))
          else if ty = ''resource-id'' then checked (global_resource_id_ok env v) ty v (FR_ResourceId (Exact v))
          else if ty = ''tag'' then checked (ve_safe_id env v) ty v (FR_Tag (Exact v))
          else if ty = ''remote'' then checked (ve_safe_id env v \<or> ve_remote_id env v) ty v (FR_Remote (Exact v))
          else Inl (Invalid_Type ty)
      | None \<Rightarrow> Inl (Invalid_Rule s))"

definition filter_rule_from_str :: "view_env \<Rightarrow> string \<Rightarrow> rule_error + filter_rule" where
  "filter_rule_from_str env s =
     (case strip_prefix ''exact:'' s of
        Some t \<Rightarrow> parse_filter_rule env t
      | None \<Rightarrow> parse_filter_rule env s)"

definition rule_key :: "filter_rule \<Rightarrow> string" where
  "rule_key r = (case r of
     FR_ResourceType _ \<Rightarrow> ''resource-type'' | FR_ResourceId _ \<Rightarrow> ''resource-id'' | FR_Tag _ \<Rightarrow> ''tag''
   | FR_Remote _ \<Rightarrow> ''remote'' | FR_ResourcePool _ \<Rightarrow> ''resource-pool'')"

definition rule_value :: "filter_rule \<Rightarrow> string" where
  "rule_value r = (case r of
     FR_ResourceType (EnumMatcher ty) \<Rightarrow> resource_type_as_str ty | FR_ResourceId (Exact v) \<Rightarrow> v | FR_Tag (Exact v) \<Rightarrow> v
   | FR_Remote (Exact v) \<Rightarrow> v | FR_ResourcePool (Exact v) \<Rightarrow> v)"

definition filter_rule_display :: "filter_rule \<Rightarrow> string" where
  "filter_rule_display r = ''exact:'' @ rule_key r @ ''='' @ rule_value r"

section \<open>Views\<close>

record view_config =
  vc_id :: string
  vc_include_all :: "bool option"
  vc_include :: "filter_rule list"
  vc_exclude :: "filter_rule list"
  vc_layout :: string

definition get_view :: "view_config section_config \<Rightarrow> string \<Rightarrow> string + view_config" where
  "get_view views view_id =
     (case sc_get views view_id of Some v \<Rightarrow> Inr v | None \<Rightarrow> Inl (''unknown view: '' @ view_id))"

definition get_optional_view :: "view_config section_config \<Rightarrow> string option \<Rightarrow> string + view_config option" where
  "get_optional_view views view_id =
     (case view_id of
        None \<Rightarrow> Inr None
      | Some i \<Rightarrow> (case get_view views i of Inl err \<Rightarrow> Inl err | Inr v \<Rightarrow> Inr (Some v)))"

record resource_data =
  rd_resource_type :: resource_type
  rd_tags :: "string list option"
  rd_resource_pool :: "string option"
  rd_resource_id :: string

definition resource_data_of :: "resource \<Rightarrow> resource_data" where
  "resource_data_of r =
     (let (tags, pool) =
        (case r of
           PveQemu g \<Rightarrow> (Some (g_tags g), Some (g_pool g))
         | PveLxc g \<Rightarrow> (Some (g_tags g), Some (g_pool g))
         | _ \<Rightarrow> (None, None))
      in \<lparr>rd_resource_type = type_of_resource r, rd_tags = tags, rd_resource_pool = pool,
          rd_resource_id = global_id r\<rparr>)"

definition check_rules :: "filter_rule list \<Rightarrow> string \<Rightarrow> resource_data \<Rightarrow> bool" where
  "check_rules rules rmt d =
     list_ex (\<lambda>rule. case rule of
        FR_ResourceType m \<Rightarrow> em_matches m (rd_resource_type d)
      | FR_ResourcePool m \<Rightarrow> (case rd_resource_pool d of Some p \<Rightarrow> sm_matches m p | None \<Rightarrow> False)
      | FR_ResourceId m \<Rightarrow> sm_matches m (rd_resource_id d)
      | FR_Tag m \<Rightarrow> (case rd_tags d of Some ts \<Rightarrow> list_ex (sm_matches m) ts | None \<Rightarrow> False)
      | FR_Remote m \<Rightarrow> sm_matches m rmt) rules"

definition include_all :: "view_config \<Rightarrow> bool" where
  "include_all v = or_default False (vc_include_all v)"

definition check_if_included :: "view_config \<Rightarrow> string \<Rightarrow> resource_data \<Rightarrow> bool" where
  "check_if_included v rmt d = (if include_all v then True else check_rules (vc_include v) rmt d)"

definition check_if_excluded :: "view_config \<Rightarrow> string \<Rightarrow> resource_data \<Rightarrow> bool" where
  "check_if_excluded v rmt d = check_rules (vc_exclude v) rmt d"

definition resource_matches :: "view_config \<Rightarrow> string \<Rightarrow> resource \<Rightarrow> bool" where
  "resource_matches v rmt r \<longleftrightarrow>
     check_if_included v rmt (resource_data_of r) \<and> \<not> check_if_excluded v rmt (resource_data_of r)"

definition matches_remote_rule :: "string \<Rightarrow> filter_rule \<Rightarrow> bool" where
  "matches_remote_rule rmt rule = (case rule of FR_Remote m \<Rightarrow> sm_matches m rmt | _ \<Rightarrow> False)"

fun no_include_reaches :: "filter_rule list \<Rightarrow> string \<Rightarrow> bool" where
  "no_include_reaches [] rmt = True"
| "no_include_reaches (rule # rules) rmt =
     (case rule of
        FR_Remote m \<Rightarrow> if sm_matches m rmt then False else no_include_reaches rules rmt
      | _ \<Rightarrow> False)"

definition can_skip_remote :: "view_config \<Rightarrow> string \<Rightarrow> bool" where
  "can_skip_remote v rmt =
     (if list_ex (matches_remote_rule rmt) (vc_exclude v) then True
      else if include_all v then False
      else no_include_reaches (vc_include v) rmt)"

definition is_remote_explicitly_included :: "view_config \<Rightarrow> string \<Rightarrow> bool" where
  "is_remote_explicitly_included v rmt \<longleftrightarrow>
     (if include_all v then True else list_ex (matches_remote_rule rmt) (vc_include v))
     \<and> \<not> list_ex (matches_remote_rule rmt) (vc_exclude v)"

definition is_node_included :: "view_config \<Rightarrow> string \<Rightarrow> string \<Rightarrow> bool" where
  "is_node_included v rmt nod =
     (let d = \<lparr>rd_resource_type = RT_Node, rd_tags = None, rd_resource_pool = None,
               rd_resource_id = ''remote/'' @ rmt @ ''/node/'' @ nod\<rparr>
      in check_if_included v rmt d \<and> \<not> check_if_excluded v rmt d)"

section \<open>Matching\<close>

lemma remote_rule_matches:
  "rule \<in> set rules \<Longrightarrow> matches_remote_rule rmt rule \<Longrightarrow> check_rules rules rmt d"
  by (auto simp: check_rules_def list_ex_iff matches_remote_rule_def split: filter_rule.splits)

lemma no_include_reaches_iff:
  "no_include_reaches rules rmt \<longleftrightarrow> (\<forall>rule \<in> set rules. \<exists>m. rule = FR_Remote m \<and> \<not> sm_matches m rmt)"
  by (induction rules) (auto split: filter_rule.splits)

lemma no_include_matches: "no_include_reaches rules rmt \<Longrightarrow> \<not> check_rules rules rmt d"
  by (auto simp: no_include_reaches_iff check_rules_def list_ex_iff)

lemma can_skip_remote_sound:
  assumes "can_skip_remote v rmt"
  shows "\<not> resource_matches v rmt r" "\<not> is_remote_explicitly_included v rmt" "\<not> is_node_included v rmt nod"
proof -
  have excl: "check_if_excluded v rmt d" if "list_ex (matches_remote_rule rmt) (vc_exclude v)" for d
    using that remote_rule_matches by (auto simp: check_if_excluded_def list_ex_iff)
  have incl: "\<not> check_if_included v rmt d" if "\<not> list_ex (matches_remote_rule rmt) (vc_exclude v)" for d
    using that assms no_include_matches by (auto simp: can_skip_remote_def check_if_included_def split: if_splits)
  have "\<not> (check_if_included v rmt d \<and> \<not> check_if_excluded v rmt d)" for d using excl incl by blast
  then show "\<not> resource_matches v rmt r" "\<not> is_node_included v rmt nod"
    by (simp_all add: resource_matches_def is_node_included_def Let_def)
  show "\<not> is_remote_explicitly_included v rmt"
    using assms
    by (auto simp: can_skip_remote_def is_remote_explicitly_included_def no_include_reaches_iff list_ex_iff
        matches_remote_rule_def split: if_splits)
qed

lemma is_node_included_resource:
  "map_pve_node rmt r = Some n \<Longrightarrow> is_node_included v rmt (n_node n) = resource_matches v rmt (PveNode n)"
  by (auto simp: map_pve_node_def is_node_included_def resource_matches_def resource_data_of_def type_of_resource_def
      global_id_def Let_def split: if_splits)

section \<open>Textual form\<close>

lemma rule_key_no_eq: "CHR ''='' \<notin> set (rule_key r)"
  by (cases r) (simp_all add: rule_key_def)

lemma parse_display_unchecked:
  "filter_rule_from_str env (filter_rule_display r) = parse_filter_rule env (rule_key r @ ''='' @ rule_value r)"
  unfolding filter_rule_from_str_def filter_rule_display_def strip_prefix_append by simp

definition rule_ok :: "view_env \<Rightarrow> filter_rule \<Rightarrow> bool" where
  "rule_ok env r = (case r of
     FR_ResourceType _ \<Rightarrow> True | FR_ResourcePool (Exact v) \<Rightarrow> ve_safe_id env v
   | FR_ResourceId (Exact v) \<Rightarrow> global_resource_id_ok env v | FR_Tag (Exact v) \<Rightarrow> ve_safe_id env v
   | FR_Remote (Exact v) \<Rightarrow> ve_safe_id env v \<or> ve_remote_id env v)"

lemma checked_Inr: "checked valid key v rule = Inr r \<longleftrightarrow> valid \<and> r = rule"
  by (auto simp: checked_def)

lemma parse_filter_rule_ok: "parse_filter_rule env s = Inr r \<Longrightarrow> rule_ok env r"
  unfolding parse_filter_rule_def
  by (simp add: checked_Inr rule_ok_def split: option.split_asm prod.split_asm if_split_asm)
    (clarsimp simp: checked_Inr rule_ok_def)+

lemma parse_key_value: "rule_ok env r \<Longrightarrow> parse_filter_rule env (rule_key r @ ''='' @ rule_value r) = Inr r"
proof (cases r)
  case (FR_ResourceType m)
  then show ?thesis
    using split_once_append [OF rule_key_no_eq [of r], of "rule_value r"]
    by (cases m) (simp add: parse_filter_rule_def rule_key_def rule_value_def resource_type_roundtrip)
qed (use split_once_append [OF rule_key_no_eq [of r], of "rule_value r"] in
    \<open>simp add: parse_filter_rule_def rule_key_def rule_value_def rule_ok_def checked_Inr split: string_matcher.split_asm\<close>)+

text \<open>The textual form of a filter rule is faithful: a rule that was accepted, with or without the
  prefix exact, is accepted again in its printed form and gives the same rule.\<close>

theorem filter_rule_roundtrip:
  assumes "filter_rule_from_str env s = Inr r"
  shows "filter_rule_from_str env (filter_rule_display r) = Inr r"
proof -
  have "rule_ok env r"
    using assms parse_filter_rule_ok by (simp add: filter_rule_from_str_def split: option.split_asm)
  then show ?thesis unfolding parse_display_unchecked by (rule parse_key_value)
qed

theorem filter_rule_roundtrip_witness:
  "filter_rule_from_str \<lparr>ve_safe_id = \<lambda>s. s \<noteq> [], ve_remote_id = \<lambda>s. False\<rparr> ''exact:tag=a'' = Inr (FR_Tag (Exact ''a''))"
proof -
  let ?env = "\<lparr>ve_safe_id = \<lambda>s. s \<noteq> [], ve_remote_id = \<lambda>s. False\<rparr>"
  have "filter_rule_from_str ?env ''tag=a'' = Inr (FR_Tag (Exact ''a''))"
    by (simp add: filter_rule_from_str_def parse_filter_rule_def checked_def)
  from filter_rule_roundtrip [OF this] show ?thesis
    by (simp add: filter_rule_display_def rule_key_def rule_value_def)
qed

end
