(* ===== verification/Search_Terms.thy ===== *)
theory Search_Terms
  imports Text
begin

text \<open>
  Searches over terms, \<open>lib/pdm-search/src/lib.rs\<close>: parsing a search from text, matching with
  required and optional terms, and the textual form.
\<close>

section \<open>Terms\<close>

record search_term =
  t_optional :: bool
  t_value :: string
  t_category :: "string option"

definition split_category :: "string \<Rightarrow> string \<times> string option" where
  "split_category t =
     (case split_once (CHR '':'') t of
        Some (category, new_term) \<Rightarrow>
          if category = [] \<or> new_term = [] then (t, None) else (new_term, Some category)
      | None \<Rightarrow> (t, None))"

definition term_from :: "string \<Rightarrow> search_term" where
  "term_from s =
     (let (optional, t) =
        (case strip_prefix ''+'' s of
           Some rest \<Rightarrow> if rest = [] then (True, s) else (False, rest)
         | None \<Rightarrow> (True, s));
        (t, category) = split_category t
      in \<lparr>t_optional = optional, t_value = t, t_category = category\<rparr>)"

definition term_display :: "search_term \<Rightarrow> string" where
  "term_display t =
     (if t_optional t then [] else ''+'')
     @ (case t_category t of None \<Rightarrow> [] | Some cat \<Rightarrow> cat @ '':'')
     @ t_value t"

section \<open>Searches\<close>

record search =
  s_required_terms :: "search_term list"
  s_optional_terms :: "search_term list"

definition search_from_iter :: "search_term list \<Rightarrow> search" where
  "search_from_iter ts =
     \<lparr>s_required_terms = filter (\<lambda>t. \<not> t_optional t) ts, s_optional_terms = filter t_optional ts\<rparr>"

definition search_from :: "string \<Rightarrow> search" where
  "search_from s = search_from_iter (map term_from (split_whitespace s))"

definition empty_search :: search where
  "empty_search = search_from_iter []"

definition search_is_empty :: "search \<Rightarrow> bool" where
  "search_is_empty f \<longleftrightarrow> s_required_terms f = [] \<and> s_optional_terms f = []"

definition search_matches :: "(search_term \<Rightarrow> bool) \<Rightarrow> search \<Rightarrow> bool" where
  "search_matches m f =
     (if search_is_empty f then True
      else if list_ex (\<lambda>t. \<not> m t) (s_required_terms f) then False
      else if s_optional_terms f \<noteq> [] \<and> list_all (\<lambda>t. \<not> m t) (s_optional_terms f) then False
      else True)"

definition add_term :: "search_term \<Rightarrow> search \<Rightarrow> search" where
  "add_term t f =
     (if t_optional t then f\<lparr>s_optional_terms := s_optional_terms f @ [t]\<rparr>
      else f\<lparr>s_required_terms := s_required_terms f @ [t]\<rparr>)"

fun join_words :: "string list \<Rightarrow> string" where
  "join_words [] = []"
| "join_words [w] = w"
| "join_words (w # ws) = w @ '' '' @ join_words ws"

definition search_display :: "search \<Rightarrow> string" where
  "search_display f = join_words (map term_display (s_required_terms f @ s_optional_terms f))"

section \<open>Matching\<close>

lemma search_matches_iff:
  "search_matches m f \<longleftrightarrow>
     (\<forall>t \<in> set (s_required_terms f). m t)
     \<and> (s_optional_terms f = [] \<or> (\<exists>t \<in> set (s_optional_terms f). m t))"
  by (auto simp: search_matches_def search_is_empty_def list_ex_iff list_all_iff)

lemma search_matches_mono:
  "search_matches m f \<Longrightarrow> (\<And>t. m t \<Longrightarrow> m' t) \<Longrightarrow> search_matches m' f"
  by (auto simp: search_matches_iff)

section \<open>Round trip\<close>

lemma split_category_text:
  "(case snd (split_category t) of None \<Rightarrow> [] | Some cat \<Rightarrow> cat @ '':'') @ fst (split_category t) = t"
  by (auto simp: split_category_def dest!: split_once_SomeD split: option.split)

lemma display_term_from: "term_display (term_from s) = s"
proof (cases "strip_prefix ''+'' s")
  case None
  then have "term_from s = \<lparr>t_optional = True, t_value = fst (split_category s), t_category = snd (split_category s)\<rparr>"
    by (simp add: term_from_def split_category_def split: option.split)
  then show ?thesis by (simp add: term_display_def split_category_text)
next
  case (Some rest)
  then have s: "s = ''+'' @ rest" by (simp only: strip_prefix_Some_iff)
  show ?thesis
  proof (cases "rest = []")
    case True
    with s show ?thesis by (simp add: term_from_def term_display_def split_category_def)
  next
    case False
    with Some have "term_from s = \<lparr>t_optional = False, t_value = fst (split_category rest), t_category = snd (split_category rest)\<rparr>"
      by (simp add: term_from_def split_category_def split: option.split)
    then have "term_display (term_from s) = ''+'' @ rest" by (simp add: term_display_def split_category_text)
    with s show ?thesis by (simp only:)
  qed
qed

definition word_ok :: "string \<Rightarrow> bool" where
  "word_ok w \<longleftrightarrow> w \<noteq> [] \<and> (\<forall>c \<in> set w. \<not> is_whitespace c)"

lemma split_join: "list_all word_ok ws \<Longrightarrow> split_whitespace (join_words ws) = ws"
proof (induction ws rule: join_words.induct)
  case (2 w)
  then show ?case using split_words_append [of w is_whitespace "[]" "[]"] by (simp add: word_ok_def split_whitespace_def)
next
  case (3 w v vs)
  then show ?case
    using split_words_append [of w is_whitespace "[]" "'' '' @ join_words (v # vs)"]
    by (simp add: word_ok_def split_whitespace_def is_whitespace_def)
qed (simp add: split_whitespace_def)

text \<open>The textual form of a search is faithful: parsing what a parsed search prints gives the same
  required and optional terms, in the same order, whatever the text was.\<close>

theorem search_roundtrip: "search_from (search_display (search_from s)) = search_from s"
proof -
  let ?ws = "split_whitespace s"
  let ?vs = "filter (\<lambda>w. \<not> t_optional (term_from w)) ?ws @ filter (\<lambda>w. t_optional (term_from w)) ?ws"
  have d: "search_display (search_from s) = join_words ?vs"
    by (simp add: search_display_def search_from_def search_from_iter_def filter_map comp_def display_term_from)
  have "list_all word_ok ?vs"
    using split_words_ok [of "[]" is_whitespace _ s] by (auto simp: list_all_iff split_whitespace_def word_ok_def)
  then have "split_whitespace (join_words ?vs) = ?vs" by (rule split_join)
  then show ?thesis
    unfolding search_from_def [of "search_display _"] d
    by (simp add: search_from_def search_from_iter_def filter_map comp_def)
qed

end
