(* ===== verification/Resource_List.thy ===== *)
theory Resource_List
  imports Views Search_Terms Subscription_Types
begin

text \<open>
  Listing the resources of all remotes, \<open>server/src/api/resources.rs\<close>: matching resources and
  remotes against search terms, the permission checks, and \<open>get_resources_impl\<close> with its shortcuts.
  The answers of the remotes (through the cache of API answers), the permissions of the caller and the
  library's parser of booleans are parameters.
\<close>

section \<open>Matching search terms\<close>

text \<open>Lower case of the characters of one byte.\<close>

definition lower_char :: "char \<Rightarrow> char" where
  "lower_char c =
     (let n = of_char c :: nat
      in if 65 \<le> n \<and> n \<le> 90 \<or> 192 \<le> n \<and> n \<le> 222 \<and> n \<noteq> 215 then char_of (n + 32) else c)"

definition to_lowercase :: "string \<Rightarrow> string" where
  "to_lowercase s = map lower_char s"

datatype match_category =
  MC_Type | MC_NetworkType | MC_Name | MC_Id | MC_Status | MC_Template | MC_Remote | MC_RemoteType
  | MC_Property | MC_View

definition match_category_from_str :: "string \<Rightarrow> match_category option" where
  "match_category_from_str s =
     (if s = ''type'' then Some MC_Type else if s = ''network-type'' then Some MC_NetworkType
      else if s = ''name'' then Some MC_Name else if s = ''id'' then Some MC_Id
      else if s = ''status'' then Some MC_Status else if s = ''template'' then Some MC_Template
      else if s = ''remote'' then Some MC_Remote else if s = ''remote-type'' then Some MC_RemoteType
      else if s = ''property'' then Some MC_Property else if s = ''view'' then Some MC_View
      else None)"

type_synonym parse_boolean = "string \<Rightarrow> bool option"

definition category_matches :: "parse_boolean \<Rightarrow> match_category \<Rightarrow> string \<Rightarrow> string \<Rightarrow> bool" where
  "category_matches pb category v search_term =
     (let prefix = starts_with (to_lowercase v) (to_lowercase search_term);
          inside = str_contains (to_lowercase v) (to_lowercase search_term)
      in case category of
           MC_Type \<Rightarrow> prefix | MC_Status \<Rightarrow> prefix | MC_NetworkType \<Rightarrow> prefix
         | MC_Name \<Rightarrow> inside | MC_Id \<Rightarrow> inside | MC_Remote \<Rightarrow> inside
         | MC_Template \<Rightarrow>
             (case (pb v, pb search_term) of (Some a, Some b) \<Rightarrow> a = b | _ \<Rightarrow> False)
         | MC_RemoteType \<Rightarrow>
             (case (remote_type_from_str v, remote_type_from_str search_term) of
                (Some a, Some b) \<Rightarrow> a = b | _ \<Rightarrow> False)
         | MC_Property \<Rightarrow> list_ex (\<lambda>property. property = to_lowercase search_term) (split_char (CHR '','') (to_lowercase v))
         | MC_View \<Rightarrow> True)"

text \<open>The outer option is the category, the inner one whether it is known.\<close>

definition term_category :: "search_term \<Rightarrow> match_category option option" where
  "term_category t = map_option match_category_from_str (t_category t)"

definition bool_str :: "bool \<Rightarrow> string" where
  "bool_str b = (if b then ''true'' else ''false'')"

definition resource_matches_search_term ::
  "parse_boolean \<Rightarrow> string \<Rightarrow> resource \<Rightarrow> search_term \<Rightarrow> bool option" where
  "resource_matches_search_term pb remote_name r t =
     (case term_category t of
        Some (Some category) \<Rightarrow>
          (case category of
             MC_Type \<Rightarrow> Some (category_matches pb category (resource_type_as_str (type_of_resource r)) (t_value t))
           | MC_Name \<Rightarrow> Some (category_matches pb category (resource_name r) (t_value t))
           | MC_Id \<Rightarrow> Some (category_matches pb category (resource_id r) (t_value t))
           | MC_Status \<Rightarrow> Some (category_matches pb category (resource_status r) (t_value t))
           | MC_Property \<Rightarrow> Some (category_matches pb category (resource_properties r) (t_value t))
           | MC_Template \<Rightarrow>
               Some (case r of
                       PveQemu g \<Rightarrow> category_matches pb category (bool_str (g_template g)) (t_value t)
                     | PveLxc g \<Rightarrow> category_matches pb category (bool_str (g_template g)) (t_value t)
                     | _ \<Rightarrow> False)
           | MC_Remote \<Rightarrow> Some (category_matches pb category remote_name (t_value t))
           | MC_RemoteType \<Rightarrow> None
           | MC_NetworkType \<Rightarrow>
               Some (case r of
                       PveNetwork w \<Rightarrow> category_matches pb category (network_type_str w) (t_value t)
                     | _ \<Rightarrow> False)
           | MC_View \<Rightarrow> None)
      | Some None \<Rightarrow> Some False
      | None \<Rightarrow>
          Some (category_matches pb MC_Name (resource_name r) (t_value t)
                \<or> category_matches pb MC_Id (resource_id r) (t_value t)))"

definition remote_matches_search_term ::
  "parse_boolean \<Rightarrow> string \<Rightarrow> remote \<Rightarrow> bool option \<Rightarrow> search_term \<Rightarrow> bool" where
  "remote_matches_search_term pb remote_name r online t =
     (case term_category t of
        Some (Some category) \<Rightarrow>
          (case category of
             MC_Type \<Rightarrow> category_matches pb category ''remote'' (t_value t)
           | MC_Name \<Rightarrow> category_matches pb category remote_name (t_value t)
           | MC_Remote \<Rightarrow> category_matches pb category remote_name (t_value t)
           | MC_Id \<Rightarrow> category_matches pb category remote_name (t_value t)
           | MC_Status \<Rightarrow>
               (case online of
                  Some True \<Rightarrow> category_matches pb category ''online'' (t_value t)
                | Some False \<Rightarrow> category_matches pb category ''offline'' (t_value t)
                | None \<Rightarrow> True)
           | MC_Property \<Rightarrow> False
           | MC_Template \<Rightarrow> False
           | MC_RemoteType \<Rightarrow> category_matches pb category (remote_type_str (r_ty r)) (t_value t)
           | MC_NetworkType \<Rightarrow> False
           | MC_View \<Rightarrow> True)
      | Some None \<Rightarrow> False
      | None \<Rightarrow> category_matches pb MC_Name remote_name (t_value t)
                \<or> category_matches pb MC_Type ''remote'' (t_value t))"

definition remote_type_matches_search_term :: "parse_boolean \<Rightarrow> remote_type \<Rightarrow> search_term \<Rightarrow> bool" where
  "remote_type_matches_search_term pb ty t =
     (case term_category t of
        Some (Some category) \<Rightarrow>
          (case category of
             MC_RemoteType \<Rightarrow> category_matches pb category (remote_type_str ty) (t_value t)
           | _ \<Rightarrow> True)
      | Some None \<Rightarrow> False
      | None \<Rightarrow> True)"

definition asks_for_remotes :: "parse_boolean \<Rightarrow> search_term \<Rightarrow> bool" where
  "asks_for_remotes pb t \<longleftrightarrow>
     term_category t = Some (Some MC_Type) \<and> category_matches pb MC_Type ''remote'' (t_value t)"

text \<open>
  \<open>is_remotes_only\<close> runs a counting closure through \<open>Search::matches\<close>; it returns true for required and
  false for optional terms, so that every term is visited.
\<close>

definition is_remotes_only :: "parse_boolean \<Rightarrow> search \<Rightarrow> bool" where
  "is_remotes_only pb f =
     (let is_required = list_ex (asks_for_remotes pb) (s_required_terms f);
          optional_matches = length (filter (asks_for_remotes pb) (s_optional_terms f));
          optional_terms = length (s_optional_terms f)
      in is_required \<or> 0 < optional_matches \<and> optional_matches = optional_terms)"

section \<open>Permissions\<close>

text \<open>What the access control of the caller answers for \<open>Resource.Audit\<close>.\<close>

record access =
  ac_view_audit :: "string \<Rightarrow> bool"
  ac_any_resource :: bool
  ac_all_resources :: bool
  ac_remote_audit :: "string \<Rightarrow> bool"

datatype list_error = No_Privileges | Forbidden | Unknown_View string

definition check_all_remotes_allowed :: "access \<Rightarrow> string option \<Rightarrow> list_error + bool" where
  "check_all_remotes_allowed ac view =
     (case view of
        Some v \<Rightarrow> if ac_view_audit ac v then Inr False else Inl No_Privileges
      | None \<Rightarrow> Inr (ac_all_resources ac))"

section \<open>Listing resources\<close>

record remote_with_resources =
  rw_remote_name :: string
  rw_remote :: remote
  rw_resources :: "resource list"
  rw_error :: "string option"

definition check_access :: "access option \<Rightarrow> string option \<Rightarrow> list_error + unit" where
  "check_access auth view =
     (case auth of
        None \<Rightarrow> Inr ()
      | Some ac \<Rightarrow>
          (case view of
             Some v \<Rightarrow> if ac_view_audit ac v then Inr () else Inl No_Privileges
           | None \<Rightarrow> if ac_any_resource ac then Inr () else Inl Forbidden))"

text \<open>
  The view named in the search. The closure returns true for every term, so \<open>Search::matches\<close> visits all
  required terms but stops at the first optional one.
\<close>

definition is_view_term :: "search_term \<Rightarrow> bool" where
  "is_view_term t \<longleftrightarrow> t_category t = Some ''view''"

definition view_filter_from_search :: "search \<Rightarrow> string option" where
  "view_filter_from_search f =
     (let visited = s_required_terms f @ take 1 (s_optional_terms f)
      in case filter is_view_term (rev visited) of t # _ \<Rightarrow> Some (t_value t) | [] \<Rightarrow> None)"

definition select_view ::
  "view_config section_config \<Rightarrow> search \<Rightarrow> string option \<Rightarrow> list_error + view_config option" where
  "select_view views f view =
     (case get_optional_view views view of
        Inl err \<Rightarrow> Inl (Unknown_View err)
      | Inr v \<Rightarrow>
          (case get_optional_view views (view_filter_from_search f) of
             Inl err \<Rightarrow> Inl (Unknown_View err)
           | Inr w \<Rightarrow> Inr (case v of Some _ \<Rightarrow> v | None \<Rightarrow> w)))"

definition may_see :: "access option \<Rightarrow> view_config option \<Rightarrow> string \<Rightarrow> bool" where
  "may_see auth view remote_name =
     (case view of
        Some v \<Rightarrow> \<not> can_skip_remote v remote_name
      | None \<Rightarrow> (case auth of Some ac \<Rightarrow> ac_remote_audit ac remote_name | None \<Rightarrow> True))"

definition resource_wanted ::
  "parse_boolean \<Rightarrow> search \<Rightarrow> resource_type option \<Rightarrow> string \<Rightarrow> resource \<Rightarrow> bool" where
  "resource_wanted pb f resource_type remote_name r =
     (if (case resource_type of Some ty \<Rightarrow> type_of_resource r \<noteq> ty | None \<Rightarrow> False) then False
      else search_matches (\<lambda>t. or_default True (resource_matches_search_term pb remote_name r t)) f)"

definition query_remote :: "parse_boolean \<Rightarrow> (remote \<Rightarrow> string + resource list) \<Rightarrow> search \<Rightarrow>
    resource_type option \<Rightarrow> bool \<Rightarrow> string \<times> remote \<Rightarrow> remote_with_resources" where
  "query_remote pb fetch f resource_type remotes_only nr =
     (let (remote_name, r) = nr;
          (resources, error) = (case fetch r of Inr rs \<Rightarrow> (rs, None) | Inl err \<Rightarrow> ([], Some err));
          resources =
            (if remotes_only then []
             else if resource_type \<noteq> None \<or> \<not> search_is_empty f
             then filter (resource_wanted pb f resource_type remote_name) resources
             else resources)
      in \<lparr>rw_remote_name = remote_name, rw_remote = r, rw_resources = resources, rw_error = error\<rparr>)"

definition candidate :: "parse_boolean \<Rightarrow> access option \<Rightarrow> view_config option \<Rightarrow> search \<Rightarrow> bool \<Rightarrow> string \<times> remote \<Rightarrow> bool" where
  "candidate pb auth view f remotes_only nr =
     (let (remote_name, r) = nr
      in if \<not> may_see auth view remote_name then False
         else if \<not> search_matches (remote_type_matches_search_term pb (r_ty r)) f then False
         else if remotes_only \<and> \<not> search_matches (remote_matches_search_term pb remote_name r None) f then False
         else True)"

definition listed :: "parse_boolean \<Rightarrow> search \<Rightarrow> remote_with_resources \<Rightarrow> bool" where
  "listed pb f rw \<longleftrightarrow>
     search_is_empty f \<or> rw_resources rw \<noteq> []
     \<or> search_matches (remote_matches_search_term pb (rw_remote_name rw) (rw_remote rw) (Some (rw_error rw = None))) f"

definition restrict_to_view :: "view_config option \<Rightarrow> remote_with_resources list \<Rightarrow> remote_with_resources list" where
  "restrict_to_view view rws =
     (case view of
        None \<Rightarrow> rws
      | Some v \<Rightarrow>
          filter (\<lambda>rw. rw_resources rw \<noteq> [] \<or> rw_error rw \<noteq> None \<and> is_remote_explicitly_included v (rw_remote_name rw))
            (map (\<lambda>rw. rw\<lparr>rw_resources := filter (resource_matches v (rw_remote_name rw)) (rw_resources rw)\<rparr>) rws))"

definition get_resources_impl :: "parse_boolean \<Rightarrow> (remote \<Rightarrow> string + resource list) \<Rightarrow> remote section_config \<Rightarrow>
    view_config section_config \<Rightarrow> string option \<Rightarrow> resource_type option \<Rightarrow> string option \<Rightarrow> access option \<Rightarrow>
    list_error + remote_with_resources list" where
  "get_resources_impl pb fetch remotes_config views search resource_type view auth =
     (case check_access auth view of
        Inl err \<Rightarrow> Inl err
      | Inr _ \<Rightarrow>
          let filters = (case search of Some s \<Rightarrow> search_from s | None \<Rightarrow> empty_search)
          in case select_view views filters view of
               Inl err \<Rightarrow> Inl err
             | Inr view \<Rightarrow>
                 let remotes_only = is_remotes_only pb filters;
                     rws = map (query_remote pb fetch filters resource_type remotes_only)
                             (filter (candidate pb auth view filters remotes_only) remotes_config)
                 in Inr (restrict_to_view view (filter (listed pb filters) rws)))"

record remote_resources =
  rr_remote :: string
  rr_error :: "string option"
  rr_resources :: "resource list"

definition get_resources :: "parse_boolean \<Rightarrow> (remote \<Rightarrow> string + resource list) \<Rightarrow> remote section_config \<Rightarrow>
    view_config section_config \<Rightarrow> string option \<Rightarrow> resource_type option \<Rightarrow> string option \<Rightarrow> access \<Rightarrow>
    list_error + remote_resources list" where
  "get_resources pb fetch remotes_config views search resource_type view ac =
     (case get_resources_impl pb fetch remotes_config views search resource_type view (Some ac) of
        Inl err \<Rightarrow> Inl err
      | Inr rws \<Rightarrow> Inr (map (\<lambda>rw. \<lparr>rr_remote = rw_remote_name rw, rr_error = rw_error rw, rr_resources = rw_resources rw\<rparr>) rws))"

end
