(* ===== verification/Resource_List_Props.thy ===== *)
theory Resource_List_Props
  imports Resource_List
begin

text \<open>
  The resource listing against a reference without shortcuts, remote by remote, and what callers see of it.
\<close>

section \<open>The listing without shortcuts\<close>

definition allowed :: "access option \<Rightarrow> view_config option \<Rightarrow> string \<Rightarrow> bool" where
  "allowed auth view remote_name \<longleftrightarrow>
     view \<noteq> None \<or> (case auth of Some ac \<Rightarrow> ac_remote_audit ac remote_name | None \<Rightarrow> True)"

definition entry_spec :: "parse_boolean \<Rightarrow> (remote \<Rightarrow> string + resource list) \<Rightarrow> search \<Rightarrow> resource_type option \<Rightarrow>
    view_config option \<Rightarrow> access option \<Rightarrow> string \<times> remote \<Rightarrow> remote_with_resources option" where
  "entry_spec pb fetch f resource_type view auth nr =
     (let (name, r) = nr;
          error = (case fetch r of Inl err \<Rightarrow> Some err | Inr _ \<Rightarrow> None);
          found = filter (resource_wanted pb f resource_type name) (case fetch r of Inr rs \<Rightarrow> rs | Inl _ \<Rightarrow> []);
          shown = (case view of None \<Rightarrow> found | Some v \<Rightarrow> filter (resource_matches v name) found)
      in if allowed auth view name
           \<and> search_matches (remote_type_matches_search_term pb (r_ty r)) f
           \<and> (found \<noteq> [] \<or> search_matches (remote_matches_search_term pb name r (Some (error = None))) f)
           \<and> (case view of None \<Rightarrow> True | Some v \<Rightarrow> shown \<noteq> [] \<or> error \<noteq> None \<and> is_remote_explicitly_included v name)
         then Some \<lparr>rw_remote_name = name, rw_remote = r, rw_resources = shown, rw_error = error\<rparr>
         else None)"

lemma term_from_value: "t_category (term_from w) \<noteq> None \<Longrightarrow> t_value (term_from w) \<noteq> []"
proof -
  have "snd (split_category t) \<noteq> None \<Longrightarrow> fst (split_category t) \<noteq> []" for t
    by (simp add: split_category_def split: option.splits if_splits prod.splits)
  then show "t_category (term_from w) \<noteq> None \<Longrightarrow> t_value (term_from w) \<noteq> []"
    by (simp add: term_from_def case_prod_beta Let_def)
qed

definition terms_ok :: "search \<Rightarrow> bool" where
  "terms_ok f \<longleftrightarrow> (\<forall>t \<in> set (s_required_terms f) \<union> set (s_optional_terms f). t_category t \<noteq> None \<longrightarrow> t_value t \<noteq> [])"

lemma terms_ok_search_from: "terms_ok (search_from s)"
  using term_from_value by (auto simp: terms_ok_def search_from_def search_from_iter_def)

lemma terms_ok_empty: "terms_ok empty_search"
  by (simp add: terms_ok_def empty_search_def search_from_iter_def)

lemma starts_with_iff: "starts_with s p \<longleftrightarrow> (\<exists>r. s = p @ r)"
  using strip_prefix_Some_iff [of p s] by (cases "strip_prefix p s") (auto simp: starts_with_def)

lemma starts_with_hd: "starts_with s p \<Longrightarrow> p \<noteq> [] \<Longrightarrow> hd s = hd p"
  by (auto simp: starts_with_iff)

lemma type_no_remote:
  assumes "category_matches pb MC_Type ''remote'' v" "v \<noteq> []"
  shows "\<not> category_matches pb MC_Type (resource_type_as_str ty) v"
proof
  assume a: "category_matches pb MC_Type (resource_type_as_str ty) v"
  have ne: "to_lowercase v \<noteq> []" using assms(2) by (simp add: to_lowercase_def)
  have "hd (to_lowercase ''remote'') = hd (to_lowercase v)" "hd (to_lowercase (resource_type_as_str ty)) = hd (to_lowercase v)"
    using assms(1) a starts_with_hd [OF _ ne] by (simp_all add: category_matches_def)
  then have "hd (to_lowercase ''remote'') = hd (to_lowercase (resource_type_as_str ty))" by simp
  moreover have "hd (to_lowercase ''remote'') = CHR ''r''"
    by (simp add: to_lowercase_def lower_char_def)
  moreover have "hd (to_lowercase (resource_type_as_str ty)) \<noteq> CHR ''r''"
    by (cases ty) (simp_all add: resource_type_as_str_def to_lowercase_def lower_char_def)
  ultimately show False by simp
qed

lemma asks_for_remotes_no_resource:
  assumes "asks_for_remotes pb t" "t_value t \<noteq> []"
  shows "\<not> or_default True (resource_matches_search_term pb name r t)"
  using assms type_no_remote
  by (simp add: asks_for_remotes_def resource_matches_search_term_def or_default_def)

lemma remotes_only_no_resource:
  assumes "terms_ok f" "is_remotes_only pb f"
  shows "\<not> resource_wanted pb f ty name r"
proof -
  have no: "\<not> or_default True (resource_matches_search_term pb name r t)"
    if "asks_for_remotes pb t" "t \<in> set (s_required_terms f) \<union> set (s_optional_terms f)" for t
    using that assms(1) asks_for_remotes_no_resource by (auto simp: terms_ok_def asks_for_remotes_def term_category_def)
  have "\<not> search_matches (\<lambda>t. or_default True (resource_matches_search_term pb name r t)) f"
  proof (cases "list_ex (asks_for_remotes pb) (s_required_terms f)")
    case True
    then show ?thesis using no by (auto simp: search_matches_iff list_ex_iff)
  next
    case False
    with assms(2) have l: "s_optional_terms f \<noteq> []"
      "length (filter (asks_for_remotes pb) (s_optional_terms f)) = length (s_optional_terms f)"
      by (auto simp: is_remotes_only_def Let_def)
    then have "\<forall>t \<in> set (s_optional_terms f). asks_for_remotes pb t"
      by (metis filter_id_conv length_filter_less nat_neq_iff)
    with l(1) no show ?thesis by (auto simp: search_matches_iff)
  qed
  then show ?thesis by (simp add: resource_wanted_def)
qed

lemma remote_matches_unknown_status:
  "remote_matches_search_term pb name r online t \<Longrightarrow> remote_matches_search_term pb name r None t"
  by (auto simp: remote_matches_search_term_def split: option.splits match_category.splits)

lemma filter_map_chain:
  "filter P (map g (filter L (map q (filter C xs)))) =
     List.map_filter (\<lambda>x. if C x \<and> L (q x) \<and> P (g (q x)) then Some (g (q x)) else None) xs"
  by (induction xs) (auto simp: map_filter_simps)

text \<open>What the code computes for one remote.\<close>

definition entry_impl :: "parse_boolean \<Rightarrow> (remote \<Rightarrow> string + resource list) \<Rightarrow> search \<Rightarrow> resource_type option \<Rightarrow>
    view_config option \<Rightarrow> access option \<Rightarrow> string \<times> remote \<Rightarrow> remote_with_resources option" where
  "entry_impl pb fetch f ty view auth nr =
     (let ro = is_remotes_only pb f; rw = query_remote pb fetch f ty ro nr;
          rw' = (case view of None \<Rightarrow> rw
                 | Some v \<Rightarrow> rw\<lparr>rw_resources := filter (resource_matches v (rw_remote_name rw)) (rw_resources rw)\<rparr>)
      in if candidate pb auth view f ro nr \<and> listed pb f rw
           \<and> (case view of None \<Rightarrow> True
              | Some v \<Rightarrow> rw_resources rw' \<noteq> [] \<or> rw_error rw' \<noteq> None \<and> is_remote_explicitly_included v (rw_remote_name rw'))
         then Some rw' else None)"

lemma impl_entries:
  "restrict_to_view view (filter (listed pb f) (map (query_remote pb fetch f ty (is_remotes_only pb f))
      (filter (candidate pb auth view f (is_remotes_only pb f)) cfg)))
    = List.map_filter (entry_impl pb fetch f ty view auth) cfg"
proof (cases view)
  case None
  have "filter (listed pb f) (map (query_remote pb fetch f ty (is_remotes_only pb f))
      (filter (candidate pb auth view f (is_remotes_only pb f)) cfg))
    = filter (\<lambda>_. True) (map (\<lambda>x. x) (filter (listed pb f) (map (query_remote pb fetch f ty (is_remotes_only pb f))
      (filter (candidate pb auth view f (is_remotes_only pb f)) cfg))))" by simp
  then show ?thesis unfolding filter_map_chain by (simp add: None restrict_to_view_def entry_impl_def [abs_def] Let_def cong: if_cong)
next
  case (Some v)
  then show ?thesis by (simp add: restrict_to_view_def filter_map_chain entry_impl_def [abs_def] Let_def cong: if_cong)
qed

lemma entry_eq:
  assumes "terms_ok f"
  shows "entry_impl pb fetch f ty view auth nr = entry_spec pb fetch f ty view auth nr"
proof -
  obtain name r where nr: "nr = (name, r)" by (cases nr)
  define error where "error = (case fetch r of Inl err \<Rightarrow> Some err | Inr _ \<Rightarrow> None)"
  define found where "found = filter (resource_wanted pb f ty name) (case fetch r of Inr rs \<Rightarrow> rs | Inl _ \<Rightarrow> [])"
  define shown where "shown = (case view of None \<Rightarrow> found | Some v \<Rightarrow> filter (resource_matches v name) found)"
  let ?ro = "is_remotes_only pb f"
  let ?type = "search_matches (remote_type_matches_search_term pb (r_ty r)) f"
  let ?rem = "\<lambda>online. search_matches (remote_matches_search_term pb name r online) f"
  have rem_mono: "?rem (Some b) \<Longrightarrow> ?rem None" for b
    by (erule search_matches_mono) (rule remote_matches_unknown_status)
  have ro_found: "found = []" if ?ro
    using remotes_only_no_resource [OF assms that] by (simp add: found_def)
  have skip: "shown = [] \<and> \<not> is_remote_explicitly_included v name" if "view = Some v" "can_skip_remote v name" for v
    using can_skip_remote_sound [OF that(2)] that(1) by (simp add: shown_def)
  have q: "query_remote pb fetch f ty ?ro nr = \<lparr>rw_remote_name = name, rw_remote = r, rw_resources = found, rw_error = error\<rparr>"
  proof -
    have e: "search_is_empty f \<Longrightarrow> ty = None \<Longrightarrow> filter (resource_wanted pb f ty name) rs = rs" for rs
      by (simp add: resource_wanted_def search_matches_def filter_id_conv)
    show ?thesis
      using ro_found e by (auto simp: query_remote_def nr found_def error_def split: sum.split)
  qed
  have l: "listed pb f \<lparr>rw_remote_name = name, rw_remote = r, rw_resources = found, rw_error = error\<rparr>
      \<longleftrightarrow> found \<noteq> [] \<or> ?rem (Some (error = None))"
    by (auto simp: listed_def search_matches_def)
  have c: "candidate pb auth view f ?ro nr \<longleftrightarrow> may_see auth view name \<and> ?type \<and> (?ro \<longrightarrow> ?rem None)"
    by (simp add: candidate_def nr)
  have sp: "entry_spec pb fetch f ty view auth nr =
      (if allowed auth view name \<and> ?type \<and> (found \<noteq> [] \<or> ?rem (Some (error = None)))
         \<and> (case view of None \<Rightarrow> True | Some v \<Rightarrow> shown \<noteq> [] \<or> error \<noteq> None \<and> is_remote_explicitly_included v name)
       then Some \<lparr>rw_remote_name = name, rw_remote = r, rw_resources = shown, rw_error = error\<rparr> else None)"
    unfolding entry_spec_def nr Let_def prod.case error_def found_def shown_def by (rule refl)
  have ro: "(?ro \<longrightarrow> ?rem None) \<and> (found \<noteq> [] \<or> ?rem (Some (error = None)))
      \<longleftrightarrow> found \<noteq> [] \<or> ?rem (Some (error = None))"
    using ro_found rem_mono by blast
  show ?thesis
  proof (cases view)
    case None
    then show ?thesis
      unfolding sp entry_impl_def Let_def q l c using ro by (auto simp: may_see_def allowed_def shown_def)
  next
    case (Some v)
    then show ?thesis
      unfolding sp entry_impl_def Let_def q l c using ro skip by (auto simp: may_see_def allowed_def shown_def)
  qed
qed

definition filters_of :: "string option \<Rightarrow> search" where
  "filters_of search = (case search of Some s \<Rightarrow> search_from s | None \<Rightarrow> empty_search)"

lemma query_entries:
  "restrict_to_view view (filter (listed pb (filters_of search))
      (map (query_remote pb fetch (filters_of search) ty (is_remotes_only pb (filters_of search)))
        (filter (candidate pb auth view (filters_of search) (is_remotes_only pb (filters_of search))) cfg)))
    = List.map_filter (entry_spec pb fetch (filters_of search) ty view auth) cfg"
proof -
  have "terms_ok (filters_of search)"
    by (simp add: filters_of_def terms_ok_search_from terms_ok_empty split: option.split)
  from entry_eq [OF this] have "entry_impl pb fetch (filters_of search) ty view auth = entry_spec pb fetch (filters_of search) ty view auth"
    by (rule ext)
  then show ?thesis by (simp add: impl_entries)
qed

lemma get_resources_impl_Inr:
  "get_resources_impl pb fetch cfg views search ty view auth = Inr rws \<Longrightarrow>
     \<exists>selected. check_access auth view = Inr () \<and> select_view views (filters_of search) view = Inr selected
       \<and> rws = List.map_filter (entry_spec pb fetch (filters_of search) ty selected auth) cfg"
  unfolding get_resources_impl_def filters_of_def [symmetric] Let_def query_entries
  by (auto split: sum.splits)

text \<open>The shortcuts of the resource listing change nothing: skipping remotes a view cannot show, not looking at
  resources when only remotes are asked for, and dropping remotes before they are queried give, for every search
  text, view and caller, the same answer as querying every remote the caller may see and filtering afterwards.\<close>

theorem get_resources_shortcuts:
  "get_resources_impl pb fetch remotes_config views search resource_type view auth =
     (case check_access auth view of
        Inl err \<Rightarrow> Inl err
      | Inr _ \<Rightarrow>
          (case select_view views (filters_of search) view of
             Inl err \<Rightarrow> Inl err
           | Inr selected \<Rightarrow>
               Inr (List.map_filter (entry_spec pb fetch (filters_of search) resource_type selected auth) remotes_config)))"
  unfolding get_resources_impl_def filters_of_def [symmetric] Let_def query_entries ..

section \<open>Who sees what\<close>

lemma entry_specD:
  assumes "entry_spec pb fetch f ty view auth (name, r) = Some rw"
  shows "rw_remote_name rw = name" "allowed auth view name"
    "res \<in> set (rw_resources rw) \<Longrightarrow> \<exists>rs. fetch r = Inr rs \<and> res \<in> set rs"
    "view = Some v \<Longrightarrow> res \<in> set (rw_resources rw) \<Longrightarrow> resource_matches v name res"
    "view = Some v \<Longrightarrow> rw_resources rw = [] \<Longrightarrow> rw_error rw \<noteq> None \<and> is_remote_explicitly_included v name"
  using assms by (auto simp: entry_spec_def Let_def split: if_splits sum.splits option.splits)

lemma select_view_Some:
  "select_view views f (Some v) = Inr selected \<Longrightarrow> \<exists>vc. sc_get views v = Some vc \<and> selected = Some vc"
  by (auto simp: select_view_def get_optional_view_def get_view_def split: sum.splits option.splits)

lemma select_view_None:
  "select_view views f None = Inr selected \<Longrightarrow> view_filter_from_search f = None \<Longrightarrow> selected = None"
  by (auto simp: select_view_def get_optional_view_def)

text \<open>C16. Unless the search text names a view, a caller sees only what the permissions allow: without a view
  parameter only remotes the caller may audit, with one only resources that match that view, which the caller
  may audit, and failed remotes only if the view names them. Everything shown came from a configured remote.\<close>

theorem get_resources_authorized:
  assumes result: "get_resources pb fetch remotes_config views search resource_type view ac = Inr rs"
    and x: "x \<in> set rs"
    and no_view_term: "view = None \<longrightarrow> view_filter_from_search (filters_of search) = None"
  shows "(\<exists>r. (rr_remote x, r) \<in> set remotes_config
            \<and> (\<forall>res \<in> set (rr_resources x). \<exists>answer. fetch r = Inr answer \<and> res \<in> set answer))
    \<and> (case view of
         None \<Rightarrow> ac_any_resource ac \<and> ac_remote_audit ac (rr_remote x)
       | Some v \<Rightarrow> ac_view_audit ac v
           \<and> (\<exists>vc. sc_get views v = Some vc
                \<and> (\<forall>res \<in> set (rr_resources x). resource_matches vc (rr_remote x) res)
                \<and> (rr_resources x = [] \<longrightarrow> rr_error x \<noteq> None \<and> is_remote_explicitly_included vc (rr_remote x))))"
proof -
  from result obtain rws where impl: "get_resources_impl pb fetch remotes_config views search resource_type view (Some ac) = Inr rws"
    and rs: "rs = map (\<lambda>rw. \<lparr>rr_remote = rw_remote_name rw, rr_error = rw_error rw, rr_resources = rw_resources rw\<rparr>) rws"
    by (auto simp: get_resources_def split: sum.splits)
  from impl obtain selected where access: "check_access (Some ac) view = Inr ()"
    and sel: "select_view views (filters_of search) view = Inr selected"
    and rws: "rws = List.map_filter (entry_spec pb fetch (filters_of search) resource_type selected (Some ac)) remotes_config"
    using get_resources_impl_Inr by blast
  from x rs obtain rw where rw: "rw \<in> set rws"
    and x': "rr_remote x = rw_remote_name rw" "rr_error x = rw_error rw" "rr_resources x = rw_resources rw" by auto
  from rw rws obtain name r where nr: "(name, r) \<in> set remotes_config"
    and e: "entry_spec pb fetch (filters_of search) resource_type selected (Some ac) (name, r) = Some rw"
    by (auto simp: set_map_filter)
  note d = entry_specD [OF e]
  have "\<exists>r. (rr_remote x, r) \<in> set remotes_config
            \<and> (\<forall>res \<in> set (rr_resources x). \<exists>answer. fetch r = Inr answer \<and> res \<in> set answer)"
    using nr d(1,3) x' by metis
  moreover have "ac_any_resource ac \<and> ac_remote_audit ac (rr_remote x)" if "view = None"
    using that access select_view_None [of views "filters_of search" selected] sel no_view_term d(1,2) x'
    by (auto simp: check_access_def allowed_def split: if_splits)
  moreover have "ac_view_audit ac v \<and> (\<exists>vc. sc_get views v = Some vc
        \<and> (\<forall>res \<in> set (rr_resources x). resource_matches vc (rr_remote x) res)
        \<and> (rr_resources x = [] \<longrightarrow> rr_error x \<noteq> None \<and> is_remote_explicitly_included vc (rr_remote x)))" if v: "view = Some v" for v
  proof -
    from v sel obtain vc where "sc_get views v = Some vc" "selected = Some vc" using select_view_Some by blast
    with d(1,4,5) x' v access show ?thesis by (auto simp: check_access_def split: if_splits)
  qed
  ultimately show ?thesis by (cases view) auto
qed

section \<open>A view named in the search\<close>

definition ex_remote :: "string \<Rightarrow> remote" where
  "ex_remote n = \<lparr>r_ty = Remote_Pbs, r_id = n, r_nodes = [n], r_authid = [], r_token = [], r_web_url = None\<rparr>"

definition ex_remotes :: "remote section_config" where
  "ex_remotes = [(''a'', ex_remote ''a''), (''b'', ex_remote ''b'')]"

definition ex_views :: "view_config section_config" where
  "ex_views = [(''v'', \<lparr>vc_id = ''v'', vc_include_all = Some True, vc_include = [], vc_exclude = [], vc_layout = []\<rparr>)]"

definition ex_resource :: "string \<Rightarrow> resource" where
  "ex_resource n = PbsNode \<lparr>bn_cpu = 0, bn_maxcpu = 0, bn_id = ''remote/'' @ n @ ''/node/localhost'', bn_mem = 0, bn_maxmem = 0,
     bn_name = ''localhost'', bn_uptime = 0\<rparr>"

definition ex_answers :: "remote \<Rightarrow> string + resource list" where
  "ex_answers r = Inr [ex_resource (r_id r)]"

text \<open>A caller who may audit remote a only.\<close>

definition ex_caller :: access where
  "ex_caller = \<lparr>ac_view_audit = \<lambda>v. False, ac_any_resource = True, ac_all_resources = False, ac_remote_audit = \<lambda>r. r = ''a''\<rparr>"

theorem get_resources_authorized_witness:
  "get_resources (\<lambda>_. None) ex_answers ex_remotes ex_views None None None ex_caller
     = Inr [\<lparr>rr_remote = ''a'', rr_error = None, rr_resources = [ex_resource ''a'']\<rparr>]
   \<and> ac_remote_audit ex_caller ''a''"
proof -
  let ?x = "\<lparr>rr_remote = ''a'', rr_error = None, rr_resources = [ex_resource ''a'']\<rparr>"
  have r: "get_resources (\<lambda>_. None) ex_answers ex_remotes ex_views None None None ex_caller = Inr [?x]"
    by (simp add: get_resources_def get_resources_impl_def check_access_def select_view_def get_optional_view_def
        view_filter_from_search_def empty_search_def search_from_iter_def is_remotes_only_def candidate_def may_see_def
        search_matches_def search_is_empty_def query_remote_def listed_def restrict_to_view_def ex_remotes_def ex_caller_def
        ex_answers_def ex_remote_def)
  have "view_filter_from_search (filters_of None) = None"
    by (simp add: filters_of_def view_filter_from_search_def empty_search_def search_from_iter_def)
  with get_resources_authorized [OF r, of ?x] have "ac_remote_audit ex_caller ''a''" by simp
  with r show ?thesis by simp
qed

text \<open>C17. A view named in the search text is applied without checking the permission on it and replaces the check per
  remote: whoever may audit anything at all and searches for a view gets the listing of the trusted internal call without
  any permission check, which is what a caller with the privilege on the view gets for it, whatever remotes and views the
  caller himself may audit; with the same view as a parameter a caller without the privilege on it is refused.\<close>

theorem search_view_bypasses_acl:
  assumes "ac_any_resource ac" and "view_filter_from_search (filters_of search) = Some v"
  shows "get_resources_impl pb fetch remotes_config views search resource_type None (Some ac)
       = get_resources_impl pb fetch remotes_config views search resource_type None None
     \<and> (ac_view_audit privileged v \<longrightarrow>
         get_resources pb fetch remotes_config views search resource_type None ac
         = get_resources pb fetch remotes_config views search resource_type (Some v) privileged)
     \<and> (\<not> ac_view_audit ac v \<longrightarrow>
         get_resources pb fetch remotes_config views search resource_type (Some v) ac = Inl No_Privileges)"
proof -
  have sel: "select_view views (filters_of search) None = select_view views (filters_of search) (Some v)"
    unfolding select_view_def assms(2) by (simp add: get_optional_view_def split: sum.split)
  have spec: "entry_spec pb fetch (filters_of search) resource_type w auth
      = entry_spec pb fetch (filters_of search) resource_type w auth'"
    if "select_view views (filters_of search) (Some v) = Inr w" for w auth auth'
    using select_view_Some [OF that] by (auto simp: entry_spec_def allowed_def fun_eq_iff)
  have impl: "get_resources_impl pb fetch remotes_config views search resource_type None auth
      = get_resources_impl pb fetch remotes_config views search resource_type view auth'"
    if "check_access auth None = Inr ()" "check_access auth' view = Inr ()" "view = None \<or> view = Some v" for auth auth' view
  proof -
    have "select_view views (filters_of search) view = select_view views (filters_of search) (Some v)"
      using that(3) sel by auto
    then show ?thesis
      unfolding get_resources_shortcuts that(1,2) sum.case sel
      by (cases "select_view views (filters_of search) (Some v)") (simp_all add: spec [of _ auth auth'])
  qed
  have access: "check_access (Some ac) None = Inr ()" "check_access None None = Inr ()"
    using assms(1) by (simp_all add: check_access_def)
  have "get_resources pb fetch remotes_config views search resource_type None ac
      = get_resources pb fetch remotes_config views search resource_type (Some v) privileged"
    if "ac_view_audit privileged v"
    using that impl [OF access(1), of "Some privileged" "Some v"] by (simp add: get_resources_def check_access_def)
  moreover have "get_resources pb fetch remotes_config views search resource_type (Some v) ac = Inl No_Privileges"
    if "\<not> ac_view_audit ac v"
    using that by (simp add: get_resources_def get_resources_impl_def check_access_def)
  ultimately show ?thesis using impl [OF access] by simp
qed

lemma search_view_term: "search_from ''view:v'' = \<lparr>s_required_terms = [], s_optional_terms =
    [\<lparr>t_optional = True, t_value = ''v'', t_category = Some ''view''\<rparr>]\<rparr>"
  by (simp add: search_from_def search_from_iter_def split_whitespace_def is_whitespace_def term_from_def split_category_def)

text \<open>The caller of the example, who may audit one remote and no view, sees the resources of the other as well.\<close>

theorem search_view_bypasses_acl_witness:
  "\<not> ac_remote_audit ex_caller ''b''
   \<and> get_resources (\<lambda>_. None) ex_answers ex_remotes ex_views None None (Some ''v'') ex_caller = Inl No_Privileges
   \<and> get_resources (\<lambda>_. None) ex_answers ex_remotes ex_views (Some ''view:v'') None None ex_caller
       = Inr [\<lparr>rr_remote = ''a'', rr_error = None, rr_resources = [ex_resource ''a'']\<rparr>,
              \<lparr>rr_remote = ''b'', rr_error = None, rr_resources = [ex_resource ''b'']\<rparr>]"
proof -
  let ?trusted = "ex_caller\<lparr>ac_view_audit := \<lambda>_. True\<rparr>"
  have f: "view_filter_from_search (filters_of (Some ''view:v'')) = Some ''v''"
    by (simp add: filters_of_def search_view_term view_filter_from_search_def is_view_term_def)
  have "get_resources (\<lambda>_. None) ex_answers ex_remotes ex_views (Some ''view:v'') None None ex_caller
      = get_resources (\<lambda>_. None) ex_answers ex_remotes ex_views (Some ''view:v'') None (Some ''v'') ?trusted"
    using search_view_bypasses_acl [OF _ f, of ex_caller "\<lambda>_. None" ex_answers ex_remotes ex_views None ?trusted]
    by (simp add: ex_caller_def)
  also have "\<dots> = Inr [\<lparr>rr_remote = ''a'', rr_error = None, rr_resources = [ex_resource ''a'']\<rparr>,
              \<lparr>rr_remote = ''b'', rr_error = None, rr_resources = [ex_resource ''b'']\<rparr>]"
    by (simp add: get_resources_def get_resources_impl_def check_access_def select_view_def get_optional_view_def get_view_def
        view_filter_from_search_def search_view_term is_view_term_def is_remotes_only_def candidate_def may_see_def
        search_matches_def search_is_empty_def query_remote_def listed_def restrict_to_view_def ex_remotes_def ex_caller_def
        ex_answers_def ex_remote_def ex_views_def sc_get_def can_skip_remote_def include_all_def or_default_def
        asks_for_remotes_def term_category_def match_category_from_str_def remote_type_matches_search_term_def
        resource_wanted_def resource_matches_search_term_def resource_matches_def check_if_included_def check_if_excluded_def
        check_rules_def)
  finally show ?thesis
    by (simp add: ex_caller_def get_resources_def get_resources_impl_def check_access_def)
qed

text \<open>An optional term in front of it makes the search lose its view.\<close>

lemma later_view_term_ignored:
  "view_filter_from_search (search_from_iter [\<lparr>t_optional = True, t_value = n, t_category = None\<rparr>,
     \<lparr>t_optional = True, t_value = v, t_category = Some ''view''\<rparr>]) = None"
  by (simp add: view_filter_from_search_def search_from_iter_def is_view_term_def)

end
