(* ===== verification/Namespaced_Cache.thy ===== *)
theory Namespaced_Cache
  imports Prelude
begin

text \<open>
  The cache of API answers: \<open>server/src/namespaced_cache.rs\<close>, its use per remote
  (\<open>server/src/api_cache.rs\<close>), and the read-through pattern of the callers
  (\<open>get_resources_for_remote\<close> and \<open>get_subscription_info_for_remote\<close> in \<open>server/src/api/resources.rs\<close>).

  Files are a map from paths to contents. The JSON library and the expression for safe ids are
  parameters; \<open>env_io\<close> says which paths system calls fail on. The lock of a namespace makes each
  operation one step.
\<close>

section \<open>Entries and files\<close>

datatype ns_cache_error = Io string | Serde | InvalidKey string | InvalidNamespace string

record 'a cache_entry =
  ce_timestamp :: i64
  ce_value :: 'a

type_synonym files = "string \<rightharpoonup> string"

record 'a cache_env =
  env_base :: string
  env_safe_id :: "string \<Rightarrow> bool"
  env_to_json :: "'a cache_entry \<Rightarrow> string"
  env_from_json :: "string \<Rightarrow> 'a cache_entry option"
  env_io :: "string \<Rightarrow> string option"

definition is_expired :: "'a cache_entry \<Rightarrow> i64 \<Rightarrow> i64 \<Rightarrow> bool" where
  "is_expired e now max_age =
     (if max_age = 0 then True
      else let diff = wrap_i64 (now - ce_timestamp e) in max_age \<le> diff \<or> diff < 0)"

definition get_path :: "'a cache_env \<Rightarrow> string \<Rightarrow> string \<Rightarrow> string" where
  "get_path env ns key = env_base env @ ''/'' @ ns @ ''/'' @ key @ ''.json''"

definition ensure_valid_key :: "'a cache_env \<Rightarrow> string \<Rightarrow> ns_cache_error + unit" where
  "ensure_valid_key env key = (if \<not> env_safe_id env key then Inl (InvalidKey key) else Inr ())"

definition ensure_valid_namespace :: "'a cache_env \<Rightarrow> string \<Rightarrow> ns_cache_error + unit" where
  "ensure_valid_namespace env ns = (if \<not> env_safe_id env ns then Inl (InvalidNamespace ns) else Inr ())"

definition get_from_path ::
  "'a cache_env \<Rightarrow> files \<Rightarrow> string \<Rightarrow> i64 option \<Rightarrow> i64 \<Rightarrow> ns_cache_error + 'a cache_entry option" where
  "get_from_path env fs path max_age now =
     (case env_io env path of
        Some err \<Rightarrow> Inl (Io err)
      | None \<Rightarrow>
          (case fs path of
             None \<Rightarrow> Inr None
           | Some content \<Rightarrow>
               (case env_from_json env content of
                  None \<Rightarrow> Inl Serde
                | Some e \<Rightarrow>
                    (case max_age of
                       Some age \<Rightarrow> if is_expired e now age then Inr None else Inr (Some e)
                     | None \<Rightarrow> Inr (Some e)))))"

definition get_impl ::
  "'a cache_env \<Rightarrow> files \<Rightarrow> string \<Rightarrow> string \<Rightarrow> i64 option \<Rightarrow> i64 \<Rightarrow> ns_cache_error + 'a option" where
  "get_impl env fs ns key max_age now =
     (case ensure_valid_key env key of
        Inl err \<Rightarrow> Inl err
      | Inr _ \<Rightarrow>
          if max_age = Some 0 then Inr None
          else (case get_from_path env fs (get_path env ns key) max_age now of
                  Inl err \<Rightarrow> Inl err
                | Inr e \<Rightarrow> Inr (map_option ce_value e)))"

definition set_at_path :: "'a cache_env \<Rightarrow> string \<Rightarrow> 'a \<Rightarrow> i64 \<Rightarrow> files \<Rightarrow> (ns_cache_error + unit) \<times> files" where
  "set_at_path env path v timestamp fs =
     (case env_io env path of
        Some err \<Rightarrow> (Inl (Io err), fs)
      | None \<Rightarrow> (Inr (), fs(path \<mapsto> env_to_json env \<lparr>ce_timestamp = timestamp, ce_value = v\<rparr>)))"

definition set_impl :: "'a cache_env \<Rightarrow> string \<Rightarrow> string \<Rightarrow> 'a \<Rightarrow> i64 \<Rightarrow> files \<Rightarrow> (ns_cache_error + unit) \<times> files" where
  "set_impl env ns key v timestamp fs =
     (case ensure_valid_key env key of
        Inl err \<Rightarrow> (Inl err, fs)
      | Inr _ \<Rightarrow> set_at_path env (get_path env ns key) v timestamp fs)"

definition set_if_newer_impl ::
  "'a cache_env \<Rightarrow> string \<Rightarrow> string \<Rightarrow> 'a \<Rightarrow> i64 \<Rightarrow> files \<Rightarrow> (ns_cache_error + 'a option) \<times> files" where
  "set_if_newer_impl env ns key v timestamp fs =
     (case ensure_valid_key env key of
        Inl err \<Rightarrow> (Inl err, fs)
      | Inr _ \<Rightarrow>
          let path = get_path env ns key;
              write = (case set_at_path env path v timestamp fs of
                         (Inl err, fs) \<Rightarrow> (Inl err, fs)
                       | (Inr _, fs) \<Rightarrow> (Inr None, fs))
          in case get_from_path env fs path None 0 of
               Inr (Some existing) \<Rightarrow>
                 if timestamp < ce_timestamp existing then (Inr (Some (ce_value existing)), fs) else write
             | Inr None \<Rightarrow> write
             | Inl Serde \<Rightarrow> write
             | Inl err \<Rightarrow> (Inl err, fs))"

definition remove_impl :: "'a cache_env \<Rightarrow> string \<Rightarrow> string \<Rightarrow> files \<Rightarrow> (ns_cache_error + unit) \<times> files" where
  "remove_impl env ns key fs =
     (case ensure_valid_key env key of
        Inl err \<Rightarrow> (Inl err, fs)
      | Inr _ \<Rightarrow>
          let path = get_path env ns key
          in if fs path = None then (Inr (), fs)
             else (case env_io env path of
                     Some err \<Rightarrow> (Inl (Io err), fs)
                   | None \<Rightarrow> (Inr (), fs(path := None))))"

section \<open>Namespaces\<close>

text \<open>Opening a namespace checks its name; the operations follow under its lock.\<close>

definition ns_get :: "'a cache_env \<Rightarrow> files \<Rightarrow> string \<Rightarrow> string \<Rightarrow> i64 option \<Rightarrow> i64 \<Rightarrow> ns_cache_error + 'a option" where
  "ns_get env fs ns key max_age now =
     (case ensure_valid_namespace env ns of
        Inl err \<Rightarrow> Inl err
      | Inr _ \<Rightarrow> get_impl env fs ns key max_age now)"

definition ns_set :: "'a cache_env \<Rightarrow> string \<Rightarrow> string \<Rightarrow> 'a \<Rightarrow> i64 \<Rightarrow> files \<Rightarrow> (ns_cache_error + unit) \<times> files" where
  "ns_set env ns key v timestamp fs =
     (case ensure_valid_namespace env ns of
        Inl err \<Rightarrow> (Inl err, fs)
      | Inr _ \<Rightarrow> set_impl env ns key v timestamp fs)"

definition ns_set_if_newer ::
  "'a cache_env \<Rightarrow> string \<Rightarrow> string \<Rightarrow> 'a \<Rightarrow> i64 \<Rightarrow> files \<Rightarrow> (ns_cache_error + 'a option) \<times> files" where
  "ns_set_if_newer env ns key v timestamp fs =
     (case ensure_valid_namespace env ns of
        Inl err \<Rightarrow> (Inl err, fs)
      | Inr _ \<Rightarrow> set_if_newer_impl env ns key v timestamp fs)"

definition ns_remove :: "'a cache_env \<Rightarrow> string \<Rightarrow> string \<Rightarrow> files \<Rightarrow> (ns_cache_error + unit) \<times> files" where
  "ns_remove env ns key fs =
     (case ensure_valid_namespace env ns of
        Inl err \<Rightarrow> (Inl err, fs)
      | Inr _ \<Rightarrow> remove_impl env ns key fs)"

definition GLOBAL_NAMESPACE :: string where "GLOBAL_NAMESPACE = ''global''"

definition format_remote_namespace :: "string \<Rightarrow> string" where
  "format_remote_namespace rmt = ''remote-'' @ rmt"

section \<open>Reading through the cache\<close>

text \<open>
  \<open>get_resources_for_remote\<close> and \<open>get_subscription_info_for_remote\<close>: a cached answer that is recent
  enough is returned; a read error counts as no answer. Otherwise the remote is asked. While that runs other
  tasks may change the files (\<open>others\<close>); if they stored a newer answer, that one is returned.
\<close>

datatype fetch_error = Cache_Error ns_cache_error | Fetch_Error string

definition get_cached ::
  "'a cache_env \<Rightarrow> string \<Rightarrow> files \<Rightarrow> string \<Rightarrow> nat \<Rightarrow> i64 \<Rightarrow> ns_cache_error + 'a option" where
  "get_cached env key fs rmt max_age now =
     (case ensure_valid_namespace env (format_remote_namespace rmt) of
        Inl err \<Rightarrow> Inl err
      | Inr _ \<Rightarrow>
          (case get_impl env fs (format_remote_namespace rmt) key (Some (wrap_i64 (int max_age))) now of
             Inl _ \<Rightarrow> Inr None
           | Inr v \<Rightarrow> Inr v))"

definition update_cached :: "'a cache_env \<Rightarrow> string \<Rightarrow> string \<Rightarrow> 'a \<Rightarrow> i64 \<Rightarrow> files \<Rightarrow>
    (ns_cache_error + 'a option) \<times> files" where
  "update_cached env key rmt v now fs = ns_set_if_newer env (format_remote_namespace rmt) key v now fs"

definition read_through :: "'a cache_env \<Rightarrow> string \<Rightarrow> string \<Rightarrow> nat \<Rightarrow> i64 \<Rightarrow> string + 'a \<Rightarrow> (files \<Rightarrow> files) \<Rightarrow>
    i64 \<Rightarrow> files \<Rightarrow> (fetch_error + 'a) \<times> files" where
  "read_through env key rmt max_age now fetched others later fs =
     (case get_cached env key fs rmt max_age now of
        Inl err \<Rightarrow> (Inl (Cache_Error err), fs)
      | Inr (Some v) \<Rightarrow> (Inr v, fs)
      | Inr None \<Rightarrow>
          (case fetched of
             Inl err \<Rightarrow> (Inl (Fetch_Error err), others fs)
           | Inr v \<Rightarrow>
               (case update_cached env key rmt v later (others fs) of
                  (Inl err, fs) \<Rightarrow> (Inl (Cache_Error err), fs)
                | (Inr (Some existing), fs) \<Rightarrow> (Inr existing, fs)
                | (Inr None, fs) \<Rightarrow> (Inr v, fs))))"

definition invalidate_cached :: "'a cache_env \<Rightarrow> string \<Rightarrow> string \<Rightarrow> files \<Rightarrow> files" where
  "invalidate_cached env key rmt fs = snd (ns_remove env (format_remote_namespace rmt) key fs)"

end
