(* ===== verification/Namespaced_Cache_Props.thy ===== *)
theory Namespaced_Cache_Props
  imports Namespaced_Cache
begin

text \<open>
  The cache of API answers refines a map from namespace and key to entries, by the shared simulation argument; and
  where the answers of the read-through pattern come from.
\<close>

section \<open>The cache as a map\<close>

text \<open>
  What the code relies on: entries survive the JSON library, safe ids have no slash, and system calls work.
\<close>

definition env_ok :: "'a cache_env \<Rightarrow> bool" where
  "env_ok env \<longleftrightarrow> (\<forall>e. env_from_json env (env_to_json env e) = Some e)
     \<and> (\<forall>s. env_safe_id env s \<longrightarrow> CHR ''/'' \<notin> set s) \<and> (\<forall>p. env_io env p = None)"

type_synonym 'a entry_map = "string \<times> string \<rightharpoonup> 'a cache_entry"

datatype 'a cache_op =
    Op_Set string string 'a i64
  | Op_Set_If_Newer string string 'a i64
  | Op_Remove string string

fun run_op :: "'a cache_env \<Rightarrow> 'a cache_op \<Rightarrow> files \<Rightarrow> (ns_cache_error + 'a option) \<times> files" where
  "run_op env (Op_Set ns key v t) fs =
     (case ns_set env ns key v t fs of (Inl err, fs) \<Rightarrow> (Inl err, fs) | (Inr _, fs) \<Rightarrow> (Inr None, fs))"
| "run_op env (Op_Set_If_Newer ns key v t) fs = ns_set_if_newer env ns key v t fs"
| "run_op env (Op_Remove ns key) fs =
     (case ns_remove env ns key fs of (Inl err, fs) \<Rightarrow> (Inl err, fs) | (Inr _, fs) \<Rightarrow> (Inr None, fs))"

text \<open>The specification: a map from namespace and key to entries.\<close>

definition name_error :: "'a cache_env \<Rightarrow> string \<Rightarrow> string \<Rightarrow> ns_cache_error option" where
  "name_error env ns key =
     (if \<not> env_safe_id env ns then Some (InvalidNamespace ns)
      else if \<not> env_safe_id env key then Some (InvalidKey key) else None)"

fun spec_op :: "'a cache_env \<Rightarrow> 'a cache_op \<Rightarrow> 'a entry_map \<Rightarrow> (ns_cache_error + 'a option) \<times> 'a entry_map" where
  "spec_op env (Op_Set ns key v t) m =
     (case name_error env ns key of
        Some err \<Rightarrow> (Inl err, m)
      | None \<Rightarrow> (Inr None, m((ns, key) \<mapsto> \<lparr>ce_timestamp = t, ce_value = v\<rparr>)))"
| "spec_op env (Op_Set_If_Newer ns key v t) m =
     (case name_error env ns key of
        Some err \<Rightarrow> (Inl err, m)
      | None \<Rightarrow>
          (case m (ns, key) of
             Some e \<Rightarrow> if t < ce_timestamp e then (Inr (Some (ce_value e)), m)
                       else (Inr None, m((ns, key) \<mapsto> \<lparr>ce_timestamp = t, ce_value = v\<rparr>))
           | None \<Rightarrow> (Inr None, m((ns, key) \<mapsto> \<lparr>ce_timestamp = t, ce_value = v\<rparr>))))"
| "spec_op env (Op_Remove ns key) m =
     (case name_error env ns key of Some err \<Rightarrow> (Inl err, m) | None \<Rightarrow> (Inr None, m((ns, key) := None)))"

definition spec_get :: "'a cache_env \<Rightarrow> 'a entry_map \<Rightarrow> string \<Rightarrow> string \<Rightarrow> i64 option \<Rightarrow> i64 \<Rightarrow> ns_cache_error + 'a option" where
  "spec_get env m ns key max_age now =
     (case name_error env ns key of
        Some err \<Rightarrow> Inl err
      | None \<Rightarrow>
          Inr (case m (ns, key) of
                 None \<Rightarrow> None
               | Some e \<Rightarrow>
                   (case max_age of
                      None \<Rightarrow> Some (ce_value e)
                    | Some age \<Rightarrow>
                        if age = 0 then None
                        else let diff = wrap_i64 (now - ce_timestamp e)
                             in if 0 \<le> diff \<and> diff < age then Some (ce_value e) else None)))"

text \<open>The files represent the map.\<close>

definition represents :: "'a cache_env \<Rightarrow> files \<Rightarrow> 'a entry_map \<Rightarrow> bool" where
  "represents env fs m \<longleftrightarrow>
     (\<forall>ns key. name_error env ns key = None \<longrightarrow>
        fs (get_path env ns key) = map_option (env_to_json env) (m (ns, key)))"

lemma get_path_inj:
  assumes "env_ok env" "name_error env ns key = None" "name_error env ns' key' = None"
  shows "get_path env ns key = get_path env ns' key' \<longleftrightarrow> ns = ns' \<and> key = key'"
proof -
  have "CHR ''/'' \<notin> set ns" "CHR ''/'' \<notin> set ns'"
    using assms by (auto simp: env_ok_def name_error_def split: if_splits)
  then have "ns @ CHR ''/'' # key @ ''.json'' = ns' @ CHR ''/'' # key' @ ''.json'' \<longleftrightarrow> ns = ns' \<and> key = key'"
    using split_once_append [of "CHR ''/''" ns "key @ ''.json''"] split_once_append [of "CHR ''/''" ns' "key' @ ''.json''"]
    by (metis (no_types, lifting) append_same_eq option.inject prod.inject)
  then show ?thesis by (simp add: get_path_def)
qed

lemma represents_upd:
  assumes "env_ok env" "represents env fs m" "name_error env ns key = None"
  shows "represents env (fs(get_path env ns key := map_option (env_to_json env) x)) (m((ns, key) := x))"
  using assms get_path_inj [OF assms(1) _ assms(3)] by (auto simp: represents_def)

lemma stored: "represents env fs m \<Longrightarrow> name_error env ns key = None \<Longrightarrow>
    fs (get_path env ns key) = map_option (env_to_json env) (m (ns, key))"
  by (simp add: represents_def)

lemmas cache_op_defs = ns_set_def ns_set_if_newer_def ns_remove_def ns_get_def set_impl_def set_if_newer_impl_def remove_impl_def
  get_impl_def set_at_path_def get_from_path_def ensure_valid_namespace_def ensure_valid_key_def

lemma run_op_refines:
  assumes ok: "env_ok env" and rep: "represents env fs m"
  shows "fst (run_op env c fs) = fst (spec_op env c m) \<and> represents env (snd (run_op env c fs)) (snd (spec_op env c m))"
proof -
  have io: "env_io env p = None" and json: "env_from_json env (env_to_json env e) = Some e" for p e
    using ok by (simp_all add: env_ok_def)
  show ?thesis
  proof (cases c)
    case (Op_Set ns key v t)
    with represents_upd [OF ok rep, of ns key "Some \<lparr>ce_timestamp = t, ce_value = v\<rparr>"] rep show ?thesis
      by (simp add: cache_op_defs io name_error_def)
  next
    case (Op_Set_If_Newer ns key v t)
    with represents_upd [OF ok rep, of ns key "Some \<lparr>ce_timestamp = t, ce_value = v\<rparr>"] rep stored [OF rep, of ns key] show ?thesis
      by (cases "m (ns, key)") (simp_all add: cache_op_defs io json name_error_def Let_def)
  next
    case (Op_Remove ns key)
    with represents_upd [OF ok rep, of ns key None] rep stored [OF rep, of ns key] show ?thesis
      by (cases "m (ns, key)") (auto simp: cache_op_defs io name_error_def Let_def fun_upd_idem)
  qed
qed

interpretation ns_cache: simulation "run_op env" "spec_op env" "\<lambda>fs m. env_ok env \<and> represents env fs m" for env
  by unfold_locales (simp_all add: run_op_refines)

lemma get_refines:
  assumes "env_ok env" "represents env fs m"
  shows "ns_get env fs ns key max_age now = spec_get env m ns key max_age now"
  using assms stored [OF assms(2), of ns key]
  by (cases "m (ns, key)"; cases max_age)
    (auto simp: cache_op_defs env_ok_def name_error_def spec_get_def is_expired_def Let_def)

text \<open>C18. The cache of API answers is a map from namespace and key to the last entry stored: every sequence of writes,
  conditional writes and removals on an empty directory returns what the map returns, and every read
  afterwards, with or without a maximum age, gives the entry of the map unless it is older than that or lies in
  the future. The JSON library must restore what it wrote, safe ids contain no slash and no system call fails.\<close>

theorem cache_refines_map:
  assumes "env_ok env"
  shows "fst (run_all (run_op env) ops Map.empty) = fst (run_all (spec_op env) ops Map.empty)
    \<and> ns_get env (snd (run_all (run_op env) ops Map.empty)) ns key max_age now
        = spec_get env (snd (run_all (spec_op env) ops Map.empty)) ns key max_age now"
proof -
  have "represents env Map.empty Map.empty" by (simp add: represents_def)
  with assms ns_cache.run_refines [of env Map.empty Map.empty ops] get_refines [OF assms] show ?thesis by blast
qed

text \<open>An answer obtained through the cache is a cached one that was younger than the maximum age when it was read,
  or the remote's own answer, which is then stored and replaces no newer one, or a newer one another task stored
  while the remote was asked. This needs no assumption on the other tasks.\<close>

theorem read_through_fresh:
  assumes "read_through env key rmt max_age now fetched others later fs = (Inr v, fs')"
  shows "let path = get_path env (format_remote_namespace rmt) key
    in (\<exists>content e. fs path = Some content \<and> env_from_json env content = Some e \<and> v = ce_value e
          \<and> 0 \<le> wrap_i64 (now - ce_timestamp e) \<and> wrap_i64 (now - ce_timestamp e) < wrap_i64 (int max_age) \<and> fs' = fs)
     \<or> (fetched = Inr v \<and> fs' = (others fs)(path \<mapsto> env_to_json env \<lparr>ce_timestamp = later, ce_value = v\<rparr>)
          \<and> (\<forall>content e. others fs path = Some content \<and> env_from_json env content = Some e \<longrightarrow> ce_timestamp e \<le> later))
     \<or> (\<exists>content e. others fs path = Some content \<and> env_from_json env content = Some e \<and> v = ce_value e
          \<and> later < ce_timestamp e \<and> fs' = others fs)"
proof -
  define path where "path = get_path env (format_remote_namespace rmt) key"
  consider (Cached) "get_cached env key fs rmt max_age now = Inr (Some v)" "fs' = fs"
    | (Fetched) "fetched = Inr v" "update_cached env key rmt v later (others fs) = (Inr None, fs')"
    | (Raced) w where "fetched = Inr w" "update_cached env key rmt w later (others fs) = (Inr (Some v), fs')"
    using assms by (auto simp: read_through_def split: sum.splits option.splits prod.splits)
  then show ?thesis
  proof cases
    case Cached
    then show ?thesis
      unfolding path_def [symmetric] Let_def
      by (auto simp: get_cached_def get_impl_def get_from_path_def path_def is_expired_def Let_def
          split: sum.splits option.splits if_splits)
  next
    case Fetched
    then show ?thesis
      unfolding path_def [symmetric] Let_def
      by (auto simp: update_cached_def ns_set_if_newer_def set_if_newer_impl_def path_def [symmetric] set_at_path_def
          get_from_path_def Let_def split: sum.splits option.splits if_splits ns_cache_error.splits prod.splits)
  next
    case Raced
    then show ?thesis
      unfolding path_def [symmetric] Let_def
      by (auto simp: update_cached_def ns_set_if_newer_def set_if_newer_impl_def path_def [symmetric] set_at_path_def
          get_from_path_def Let_def split: sum.splits option.splits if_splits ns_cache_error.splits prod.splits)
  qed
qed

section \<open>An example environment\<close>

definition ex_parse_int :: "string \<Rightarrow> int option" where
  "ex_parse_int s = (if starts_with s ''-'' then map_option (\<lambda>n. - int n) (parse_nat (tl s)) else map_option int (parse_nat s))"

definition ex_cache_env :: "string cache_env" where
  "ex_cache_env = \<lparr>env_base = ''c'', env_safe_id = \<lambda>s. CHR ''/'' \<notin> set s,
     env_to_json = \<lambda>e. show_i64 (ce_timestamp e) @ '':'' @ ce_value e,
     env_from_json = \<lambda>s. (case split_once (CHR '':'') s of
        Some (t, v) \<Rightarrow> map_option (\<lambda>t. \<lparr>ce_timestamp = t, ce_value = v\<rparr>) (ex_parse_int t)
      | None \<Rightarrow> None),
     env_io = \<lambda>_. None\<rparr>"

lemma ex_parse_show: "ex_parse_int (show_i64 t) = Some t"
proof (cases "t < 0")
  case True
  then show ?thesis by (simp add: ex_parse_int_def show_i64_def starts_with_def)
next
  case False
  obtain c r where c: "show_nat (nat t) = c # r" "is_ascii_digit c" using hd_show_nat by blast
  then have "\<not> starts_with (show_nat (nat t)) ''-''" by (auto simp: starts_with_def)
  with False show ?thesis by (simp add: ex_parse_int_def show_i64_def)
qed

lemma show_i64_no_colon: "CHR '':'' \<notin> set (show_i64 t)"
  using show_nat_digits [of "CHR '':''"] by (auto simp: show_i64_def is_ascii_digit_def digit_val_def)

lemma ex_cache_env_ok: "env_ok ex_cache_env"
  using show_i64_no_colon by (simp add: env_ok_def ex_cache_env_def ex_parse_show)

theorem cache_refines_map_witness:
  "ns_get ex_cache_env (snd (run_all (run_op ex_cache_env) [Op_Set ''n'' ''k'' ''v'' 5, Op_Set_If_Newer ''n'' ''k'' ''w'' 4] Map.empty))
     ''n'' ''k'' (Some 10) 7 = Inr (Some ''v'')"
  using cache_refines_map [OF ex_cache_env_ok, of "[Op_Set ''n'' ''k'' ''v'' 5, Op_Set_If_Newer ''n'' ''k'' ''w'' 4]" "''n''" "''k''" "Some 10" 7]
  by (simp add: spec_get_def name_error_def ex_cache_env_def wrap_i64_def)

theorem read_through_fresh_witness:
  "read_through ex_cache_env ''k'' ''r'' 30 7 (Inr ''v'') id 8 Map.empty
     = (Inr ''v'', [get_path ex_cache_env ''remote-r'' ''k'' \<mapsto> env_to_json ex_cache_env \<lparr>ce_timestamp = 8, ce_value = ''v''\<rparr>])"
proof -
  obtain fs where r: "read_through ex_cache_env ''k'' ''r'' 30 7 (Inr ''v'') id 8 Map.empty = (Inr ''v'', fs)"
    by (simp add: read_through_def get_cached_def update_cached_def cache_op_defs ex_cache_env_def format_remote_namespace_def
        wrap_i64_def)
  from read_through_fresh [OF this]
  have "fs = [get_path ex_cache_env ''remote-r'' ''k'' \<mapsto> env_to_json ex_cache_env \<lparr>ce_timestamp = 8, ce_value = ''v''\<rparr>]"
    by (simp add: Let_def format_remote_namespace_def)
  with r show ?thesis by simp
qed

end
