(* ===== verification/Parallel_Fetcher.thy ===== *)
theory Parallel_Fetcher
  imports Subscription_Types "HOL-Library.Multiset"
begin

text \<open>
  Parallel requests to remotes and their nodes, \<open>server/src/parallel_fetcher.rs\<close>. Every task of
  \<open>do_for_all_remote_nodes\<close> is a \<open>job\<close>; a step of the transition system is a task passing one await
  point: acquiring a permit of one of the two semaphores, the answer to the list of nodes, the answer of a node. The
  order in which the runtime lets tasks proceed is left open. What the remotes answer is a parameter.
\<close>

section \<open>Responses\<close>

record 'r remote_response =
  rs_remote_name :: string
  rs_remote_type :: remote_type
  rs_response :: 'r

record ('e, 't) node_response =
  nr_node_name :: string
  nr_data :: "'e + 't"

definition DEFAULT_MAX_CONNECTIONS :: nat where "DEFAULT_MAX_CONNECTIONS = 20"
definition DEFAULT_MAX_CONNECTIONS_PER_REMOTE :: nat where "DEFAULT_MAX_CONNECTIONS_PER_REMOTE = 5"

record fetcher =
  f_max_connections :: nat
  f_max_connections_per_remote :: nat

definition fetcher_build :: "nat option \<Rightarrow> nat option \<Rightarrow> fetcher" where
  "fetcher_build max_connections max_connections_per_remote =
     \<lparr>f_max_connections = (case max_connections of Some n \<Rightarrow> n | None \<Rightarrow> DEFAULT_MAX_CONNECTIONS),
      f_max_connections_per_remote =
        (case max_connections_per_remote of Some n \<Rightarrow> n | None \<Rightarrow> DEFAULT_MAX_CONNECTIONS_PER_REMOTE)\<rparr>"

definition sort_responses :: "'r remote_response list \<Rightarrow> 'r remote_response list" where
  "sort_responses rs = sort_key rs_remote_name rs"

text \<open>\<open>binary_search_by\<close> on the sorted responses, between two bounds.\<close>

function search_between :: "'r remote_response list \<Rightarrow> string \<Rightarrow> nat \<Rightarrow> nat \<Rightarrow> nat option" where
  "search_between rs rmt lo hi =
     (if hi \<le> lo then None
      else let mid = (lo + hi) div 2
           in if rs_remote_name (rs ! mid) = rmt then Some mid
              else if rs_remote_name (rs ! mid) < rmt then search_between rs rmt (Suc mid) hi
              else search_between rs rmt lo mid)"
  by pat_completeness auto

termination search_between
  by (relation "measure (\<lambda>(rs, rmt, lo, hi). hi - lo)") auto

declare search_between.simps [simp del]

definition get_remote_response :: "'r remote_response list \<Rightarrow> string \<Rightarrow> 'r remote_response option" where
  "get_remote_response rs rmt = map_option (\<lambda>index. rs ! index) (search_between rs rmt 0 (length rs))"

section \<open>Jobs\<close>

text \<open>
  \<open>j_single\<close> is set for the tasks of \<open>do_for_all_remotes\<close>, which send one request to \<open>localhost\<close>, as the tasks
  of \<open>do_for_all_remote_nodes\<close> do for a backup server.
  \<open>Spawning left permit\<close>: the list of nodes is known, requests to \<open>left\<close> are still to be started, and
  \<open>permit\<close> tells whether a permit of the shared semaphore is at hand. A started request to a node holds one permit of
  each semaphore.
\<close>

datatype 'e phase = Waiting | Listing | Spawning "string list" bool | Failed 'e | Finished

record ('e, 't) job =
  j_remote :: remote
  j_single :: bool
  j_phase :: "'e phase"
  j_running :: "string list"
  j_responses :: "('e, 't) node_response list"

definition new_job :: "bool \<Rightarrow> remote \<Rightarrow> ('e, 't) job" where
  "new_job single r = \<lparr>j_remote = r, j_single = single, j_phase = Waiting, j_running = [], j_responses = []\<rparr>"

definition one_request :: "('e, 't) job \<Rightarrow> bool" where
  "one_request j = (j_single j \<or> r_ty (j_remote j) = Remote_Pbs)"

definition permits :: "('e, 't) job \<Rightarrow> nat" where
  "permits j = length (j_running j)
     + (case j_phase j of Listing \<Rightarrow> 1 | Spawning _ permit \<Rightarrow> if permit then 1 else 0 | _ \<Rightarrow> 0)"

definition held :: "('e, 't) job list \<Rightarrow> nat" where
  "held js = sum_list (map permits js)"

definition answer :: "(remote \<Rightarrow> string \<Rightarrow> 'e + 't) \<Rightarrow> remote \<Rightarrow> string \<Rightarrow> ('e, 't) node_response" where
  "answer func r nod = \<lparr>nr_node_name = nod, nr_data = func r nod\<rparr>"

text \<open>What a job can do, given whether a permit of the shared semaphore is free.\<close>

inductive job_step ::
  "fetcher \<Rightarrow> (remote \<Rightarrow> 'e + string list) \<Rightarrow> (remote \<Rightarrow> string \<Rightarrow> 'e + 't) \<Rightarrow> bool \<Rightarrow> ('e, 't) job \<Rightarrow> ('e, 't) job \<Rightarrow> bool"
  for f list_nodes func where
  Acquire_List: "j_phase j = Waiting \<Longrightarrow> \<not> one_request j \<Longrightarrow>
    job_step f list_nodes func True j (j\<lparr>j_phase := Listing\<rparr>)"
| Acquire_Single: "j_phase j = Waiting \<Longrightarrow> one_request j \<Longrightarrow>
    job_step f list_nodes func True j (j\<lparr>j_phase := Spawning [] False, j_running := [''localhost'']\<rparr>)"
| Listed: "j_phase j = Listing \<Longrightarrow> list_nodes (j_remote j) = Inr nodes \<Longrightarrow>
    job_step f list_nodes func free j (j\<lparr>j_phase := Spawning nodes True\<rparr>)"
| List_Failed: "j_phase j = Listing \<Longrightarrow> list_nodes (j_remote j) = Inl err \<Longrightarrow>
    job_step f list_nodes func free j (j\<lparr>j_phase := Failed err\<rparr>)"
| Acquire_Node: "j_phase j = Spawning (nod # left) False \<Longrightarrow>
    job_step f list_nodes func True j (j\<lparr>j_phase := Spawning (nod # left) True\<rparr>)"
| Spawn: "j_phase j = Spawning (nod # left) True \<Longrightarrow> length (j_running j) < f_max_connections_per_remote f \<Longrightarrow>
    job_step f list_nodes func free j (j\<lparr>j_phase := Spawning left False, j_running := nod # j_running j\<rparr>)"
| Answered: "nod \<in> set (j_running j) \<Longrightarrow>
    job_step f list_nodes func free j
      (j\<lparr>j_running := remove1 nod (j_running j), j_responses := j_responses j @ [answer func (j_remote j) nod]\<rparr>)"
| Joined: "j_phase j = Spawning [] permit \<Longrightarrow> j_running j = [] \<Longrightarrow>
    job_step f list_nodes func free j (j\<lparr>j_phase := Finished\<rparr>)"

inductive fetch_step ::
  "fetcher \<Rightarrow> (remote \<Rightarrow> 'e + string list) \<Rightarrow> (remote \<Rightarrow> string \<Rightarrow> 'e + 't) \<Rightarrow> ('e, 't) job list \<Rightarrow> ('e, 't) job list \<Rightarrow> bool"
  for f list_nodes func where
  Step: "i < length js \<Longrightarrow> job_step f list_nodes func (held js < f_max_connections f) (js ! i) j' \<Longrightarrow>
    fetch_step f list_nodes func js (js[i := j'])"

definition job_done :: "('e, 't) job \<Rightarrow> bool" where
  "job_done j = (case j_phase j of Failed _ \<Rightarrow> True | Finished \<Rightarrow> True | _ \<Rightarrow> False)"

definition job_response :: "('e, 't) job \<Rightarrow> ('e + ('e, 't) node_response list) remote_response" where
  "job_response j = \<lparr>rs_remote_name = r_id (j_remote j), rs_remote_type = r_ty (j_remote j),
     rs_response = (case j_phase j of Failed err \<Rightarrow> Inl err | _ \<Rightarrow> Inr (j_responses j))\<rparr>"

definition do_for_all_remote_nodes :: "remote list \<Rightarrow> ('e, 't) job list" where
  "do_for_all_remote_nodes remotes = map (new_job False) remotes"

definition do_for_all_remotes :: "remote list \<Rightarrow> ('e, 't) job list" where
  "do_for_all_remotes remotes = map (new_job True) remotes"

definition single_response :: "('e, 't) job \<Rightarrow> ('e, 't) node_response option remote_response" where
  "single_response j = \<lparr>rs_remote_name = r_id (j_remote j), rs_remote_type = r_ty (j_remote j),
     rs_response = (case j_responses j of [] \<Rightarrow> None | x # _ \<Rightarrow> Some x)\<rparr>"

definition fetcher_response :: "('e, 't) job list \<Rightarrow> ('e + ('e, 't) node_response list) remote_response list" where
  "fetcher_response js = sort_responses (map job_response js)"

inductive_cases job_stepE: "job_step f list_nodes func free j j'"
inductive_cases fetch_stepE: "fetch_step f list_nodes func js js'"

end
