(* ===== verification/Task_Refresh.thy ===== *)
theory Task_Refresh
  imports Task_Update Parallel_Fetcher
begin

text \<open>
  The task that keeps the cache of remote tasks up to date, \<open>server/src/remote_tasks/refresh_task.rs\<close>. What the remotes
  answer is the record \<open>live\<close>; the instants the task reads are a function of the point of the program that reads
  them, in nanoseconds; what other tasks do to the cache while it is not locked is a function of the gap. The outcome of
  the parallel requests is the last state of a run of the parallel fetcher.
\<close>

section \<open>Intervals\<close>

definition secs :: "int \<Rightarrow> int" where "secs n = n * 1000000000"

definition TASK_FETCH_INTERVAL :: int where "TASK_FETCH_INTERVAL = secs 600"
definition POLL_ACTIVE_INTERVAL :: int where "POLL_ACTIVE_INTERVAL = secs 30"
definition CHECK_ROTATE_INTERVAL :: int where "CHECK_ROTATE_INTERVAL = secs 3600"
definition APPLY_JOURNAL_INTERVAL :: int where "APPLY_JOURNAL_INTERVAL = secs 3600"
definition CONNECTIONS_PER_PVE_REMOTE :: nat where "CONNECTIONS_PER_PVE_REMOTE = 5"
definition MAX_CONNECTIONS :: nat where "MAX_CONNECTIONS = 20"
definition MAX_TASKS_TO_FETCH :: nat where "MAX_TASKS_TO_FETCH = 5000"
definition ROTATE_AFTER :: int where "ROTATE_AFTER = 24 * 3600"
definition KEEP_OLD_FILES :: int where "KEEP_OLD_FILES = 7"

record timer_state =
  last_rotate_check :: int
  last_fetch :: int
  last_journal_apply :: int
  last_active_poll :: int

definition duration_since :: "int \<Rightarrow> int \<Rightarrow> int" where
  "duration_since now earlier = max 0 (now - earlier)"

definition is_due_for_rotate_check :: "int \<Rightarrow> timer_state \<Rightarrow> bool" where
  "is_due_for_rotate_check now ts \<longleftrightarrow> CHECK_ROTATE_INTERVAL < duration_since now (last_rotate_check ts)"

definition is_due_for_fetch :: "int \<Rightarrow> timer_state \<Rightarrow> bool" where
  "is_due_for_fetch now ts \<longleftrightarrow> TASK_FETCH_INTERVAL < duration_since now (last_fetch ts)"

definition is_due_for_journal_apply :: "int \<Rightarrow> timer_state \<Rightarrow> bool" where
  "is_due_for_journal_apply now ts \<longleftrightarrow> APPLY_JOURNAL_INTERVAL < duration_since now (last_journal_apply ts)"

definition is_due_for_active_poll :: "int \<Rightarrow> timer_state \<Rightarrow> bool" where
  "is_due_for_active_poll now ts \<longleftrightarrow> POLL_ACTIVE_INTERVAL < duration_since now (last_active_poll ts)"

definition default_timer_state :: "int \<Rightarrow> timer_state" where
  "default_timer_state now =
     \<lparr>last_rotate_check = now - CHECK_ROTATE_INTERVAL, last_fetch = now - TASK_FETCH_INTERVAL,
      last_journal_apply = now - APPLY_JOURNAL_INTERVAL, last_active_poll = now - POLL_ACTIVE_INTERVAL\<rparr>"

definition align_timestamp :: "i64 \<Rightarrow> i64 \<Rightarrow> i64" where
  "align_timestamp now interval = now - now mod interval"

section \<open>Answers of the remotes\<close>

record listed_task =
  lt_upid :: string
  lt_starttime :: i64
  lt_endtime :: "i64 option"
  lt_status :: "string option"

record 'e live =
  lv_config :: "'e + remote section_config"
  lv_pve_status :: "remote \<Rightarrow> string \<Rightarrow> string \<Rightarrow> 'e + bool"
  lv_pbs_status :: "remote \<Rightarrow> string \<Rightarrow> 'e + bool"
  lv_list_nodes :: "remote \<Rightarrow> 'e + string list"
  lv_pve_tasks :: "remote \<Rightarrow> string \<Rightarrow> i64 \<Rightarrow> nat \<Rightarrow> 'e + listed_task list"
  lv_pbs_tasks :: "remote \<Rightarrow> i64 \<Rightarrow> nat \<Rightarrow> 'e + listed_task list"
  lv_epoch :: i64

datatype 'e task_error =
    Remote_Mismatch
  | Type_Mismatch
  | Bad_Upid upid_error
  | No_Such_Remote
  | Wrong_Remote_Type
  | Remote_Failed 'e
  | Cache_Failed cache_error

definition verify_upid :: "string \<Rightarrow> remote_type \<Rightarrow> remote_upid \<Rightarrow> 'e task_error + unit" where
  "verify_upid rmt ty u =
     (if ru_remote u \<noteq> rmt then Inl Remote_Mismatch
      else if ru_remote_type u \<noteq> ty then Inl Type_Mismatch
      else Inr ())"

definition connect_to_remote_by_id :: "'e live \<Rightarrow> remote_type \<Rightarrow> string \<Rightarrow> 'e task_error + remote" where
  "connect_to_remote_by_id lv ty i =
     (case lv_config lv of
        Inl err \<Rightarrow> Inl (Remote_Failed err)
      | Inr config \<Rightarrow>
          (case sc_get config i of
             None \<Rightarrow> Inl No_Such_Remote
           | Some r \<Rightarrow> if r_ty r \<noteq> ty then Inl Wrong_Remote_Type else Inr r))"

text \<open>The status request as the polling sends it, without waiting: whether the task has an exit status.\<close>

definition pve_get_task_status :: "('p, 'q) upid_env \<Rightarrow> 'e live \<Rightarrow> string \<Rightarrow> remote_upid \<Rightarrow> 'e task_error + bool" where
  "pve_get_task_status ue lv rmt u =
     and_then (verify_upid rmt Remote_Pve u) (\<lambda>_.
       case pve_upid ue u of
         Inl err \<Rightarrow> Inl (Bad_Upid err)
       | Inr p \<Rightarrow>
           and_then (connect_to_remote_by_id lv Remote_Pve (ru_remote u)) (\<lambda>r.
             case lv_pve_status lv r (pve_upid_node ue p) (ru_upid u) of
               Inl err \<Rightarrow> Inl (Remote_Failed err)
             | Inr exited \<Rightarrow> Inr exited))"

definition pbs_get_task_status :: "'e live \<Rightarrow> string \<Rightarrow> remote_upid \<Rightarrow> 'e task_error + bool" where
  "pbs_get_task_status lv rmt u =
     and_then (verify_upid rmt Remote_Pbs u) (\<lambda>_.
       and_then (connect_to_remote_by_id lv Remote_Pbs (ru_remote u)) (\<lambda>r.
         case lv_pbs_status lv r (ru_upid u) of
           Inl err \<Rightarrow> Inl (Remote_Failed err)
         | Inr exited \<Rightarrow> Inr exited))"

section \<open>Polling\<close>

datatype poll_result = Poll_Running | Poll_Finished | Poll_RequestError | Poll_RemoteGone

definition poll_single_tracked_task :: "('p, 'q) upid_env \<Rightarrow> 'e live \<Rightarrow> remote \<Rightarrow> remote_upid \<Rightarrow> remote_upid \<times> poll_result" where
  "poll_single_tracked_task ue lv r u =
     (u, case (case r_ty r of
                 Remote_Pve \<Rightarrow> pve_get_task_status ue lv (r_id r) u
               | Remote_Pbs \<Rightarrow> pbs_get_task_status lv (r_id r) u) of
           Inl _ \<Rightarrow> Poll_RequestError
         | Inr exited \<Rightarrow> if exited then Poll_Finished else Poll_Running)"

definition poll_tracked_tasks ::
  "('p, 'q) upid_env \<Rightarrow> 'e live \<Rightarrow> remote section_config \<Rightarrow> remote_upid set \<Rightarrow> (remote_upid \<times> poll_result) set" where
  "poll_tracked_tasks ue lv remote_config tasks =
     (\<lambda>u. case sc_get remote_config (ru_remote u) of
            Some r \<Rightarrow> poll_single_tracked_task ue lv r u
          | None \<Rightarrow> (u, Poll_RemoteGone)) ` tasks"

definition get_all_remotes :: "remote section_config \<Rightarrow> remote list" where
  "get_all_remotes remote_config = map snd remote_config"

definition get_remotes_with_finished_tasks ::
  "remote section_config \<Rightarrow> (remote_upid \<times> poll_result) set \<Rightarrow> remote list" where
  "get_remotes_with_finished_tasks remote_config poll_results =
     (let remotes_with_finished_tasks = ru_remote ` fst ` {p \<in> poll_results. snd p = Poll_Finished}
      in map snd (filter (\<lambda>(name, _). name \<in> remotes_with_finished_tasks) remote_config))"

section \<open>Fetching\<close>

definition map_pve_task :: "listed_task \<Rightarrow> string \<Rightarrow> task_cache_item" where
  "map_pve_task t rmt =
     \<lparr>ti_upid = \<lparr>ru_remote = rmt, ru_remote_type = Remote_Pve, ru_upid = lt_upid t\<rparr>, ti_starttime = lt_starttime t,
      ti_status = lt_status t, ti_endtime = lt_endtime t\<rparr>"

definition map_pbs_task :: "listed_task \<Rightarrow> string \<Rightarrow> task_cache_item" where
  "map_pbs_task t rmt =
     \<lparr>ti_upid = \<lparr>ru_remote = rmt, ru_remote_type = Remote_Pbs, ru_upid = lt_upid t\<rparr>, ti_starttime = lt_starttime t,
      ti_status = lt_status t, ti_endtime = lt_endtime t\<rparr>"

definition fetch_since :: "'e live \<Rightarrow> task_state \<Rightarrow> string \<Rightarrow> string \<Rightarrow> i64" where
  "fetch_since lv st rmt nod =
     (case cutoff_timestamp st rmt nod of Some t \<Rightarrow> t | None \<Rightarrow> lv_epoch lv - KEEP_OLD_FILES * ROTATE_AFTER)"

definition fetch_tasks_from_single_node ::
  "'e live \<Rightarrow> task_state \<Rightarrow> remote \<Rightarrow> string \<Rightarrow> 'e + task_cache_item list" where
  "fetch_tasks_from_single_node lv st r nod =
     (let since = fetch_since lv st (r_id r) nod
      in case r_ty r of
           Remote_Pve \<Rightarrow>
             (case lv_pve_tasks lv r nod since MAX_TASKS_TO_FETCH of
                Inl err \<Rightarrow> Inl err | Inr ts \<Rightarrow> Inr (map (\<lambda>t. map_pve_task t (r_id r)) ts))
         | Remote_Pbs \<Rightarrow>
             (case lv_pbs_tasks lv r since MAX_TASKS_TO_FETCH of
                Inl err \<Rightarrow> Inl err | Inr ts \<Rightarrow> Inr (map (\<lambda>t. map_pbs_task t (r_id r)) ts)))"

type_synonym 'e fetched = "('e + ('e, task_cache_item list) node_response list) remote_response list"

definition collect_node ::
  "string \<Rightarrow> ('e, task_cache_item list) node_response \<Rightarrow> task_cache_item list \<times> node_success_map \<Rightarrow>
   task_cache_item list \<times> node_success_map" where
  "collect_node rmt nr acc =
     (case nr_data nr of
        Inr ts \<Rightarrow> (fst acc @ ts, set_node_success rmt (nr_node_name nr) (snd acc))
      | Inl _ \<Rightarrow> acc)"

definition collect_remote ::
  "('e + ('e, task_cache_item list) node_response list) remote_response \<Rightarrow> task_cache_item list \<times> node_success_map \<Rightarrow>
   task_cache_item list \<times> node_success_map" where
  "collect_remote rr acc =
     (case rs_response rr of
        Inr nrs \<Rightarrow> fold (collect_node (rs_remote_name rr)) nrs acc
      | Inl _ \<Rightarrow> acc)"

definition task_fetcher :: fetcher where
  "task_fetcher = fetcher_build (Some MAX_CONNECTIONS) (Some CONNECTIONS_PER_PVE_REMOTE)"

type_synonym 'e fetch_run =
  "remote list \<Rightarrow> (remote \<Rightarrow> string \<Rightarrow> 'e + task_cache_item list) \<Rightarrow> ('e, task_cache_item list) job list"

definition fetch_remotes ::
  "'e fetch_run \<Rightarrow> 'e live \<Rightarrow> remote list \<Rightarrow> task_state \<Rightarrow> task_cache_item list \<times> node_success_map" where
  "fetch_remotes run lv remotes st =
     fold collect_remote (fetcher_response (run remotes (fetch_tasks_from_single_node lv st))) ([], Map.empty)"

section \<open>Ticks\<close>

definition update_task_cache ::
  "('p, 'q) upid_env \<Rightarrow> 'l codec \<Rightarrow> task_cache_item list \<Rightarrow> node_success_map \<Rightarrow> (remote_upid \<times> poll_result) set \<Rightarrow>
   'l cache \<Rightarrow> cache_error + 'l cache" where
  "update_task_cache ue cd new_tasks success poll_results c =
     (let drop_tracked = fst ` {p \<in> poll_results. snd p \<noteq> Poll_Running}
      in update ue cd get_cache new_tasks success drop_tracked c)"

datatype clock_point =
    Rotate_Due | Rotate_Applied | Rotate_Reset | Journal_Due | Journal_Reset | Poll_Due | Poll_Reset | Fetch_Due | Fetch_Reset

datatype gap = Before_Journal | Before_State | Before_Active | Before_Update

record ('p, 'q, 'l, 'e) tick_env =
  tk_upids :: "('p, 'q) upid_env"
  tk_codec :: "'l codec"
  tk_live :: "'e live"
  tk_run :: "'e fetch_run"
  tk_clock :: "clock_point \<Rightarrow> int"
  tk_others :: "gap \<Rightarrow> 'l cache \<Rightarrow> 'l cache"
  tk_config :: "'e + remote section_config"

type_synonym ('l, 'e) tick_result = "'e task_error option \<times> timer_state \<times> 'l cache"

definition tick_rotate :: "('p, 'q, 'l, 'e) tick_env \<Rightarrow> timer_state \<Rightarrow> 'l cache \<Rightarrow> ('l, 'e) tick_result" where
  "tick_rotate env ts c =
     (if is_due_for_rotate_check (tk_clock env Rotate_Due) ts
      then (case rotate_archive (tk_codec env) get_cache (align_timestamp (lv_epoch (tk_live env)) ROTATE_AFTER) c of
              Inl err \<Rightarrow> (Some (Cache_Failed err), ts, c)
            | Inr (rotated, c) \<Rightarrow>
                let ts = (if rotated then ts\<lparr>last_journal_apply := tk_clock env Rotate_Applied\<rparr> else ts)
                in (None, ts\<lparr>last_rotate_check := tk_clock env Rotate_Reset\<rparr>, c))
      else (None, ts, c))"

definition tick_journal :: "('p, 'q, 'l, 'e) tick_env \<Rightarrow> timer_state \<Rightarrow> 'l cache \<Rightarrow> ('l, 'e) tick_result" where
  "tick_journal env ts c =
     (if is_due_for_journal_apply (tk_clock env Journal_Due) ts
      then (case apply_journal (tk_codec env) c of
              Inl err \<Rightarrow> (Some (Cache_Failed err), ts, c)
            | Inr c \<Rightarrow> (None, ts\<lparr>last_journal_apply := tk_clock env Journal_Reset\<rparr>, c))
      else (None, ts, c))"

definition tasks_to_poll :: "('p, 'q, 'l, 'e) tick_env \<Rightarrow> timer_state \<Rightarrow> task_state \<Rightarrow> 'l cache \<Rightarrow> remote_upid set" where
  "tasks_to_poll env ts cache_state c =
     (if is_due_for_active_poll (tk_clock env Poll_Due) ts
      then ts_tracked_tasks cache_state \<union> ti_upid ` set (cached_active (tk_codec env) c)
      else ts_tracked_tasks cache_state)"

definition tick_poll ::
  "('p, 'q, 'l, 'e) tick_env \<Rightarrow> remote section_config \<Rightarrow> timer_state \<Rightarrow> task_state \<Rightarrow> 'l cache \<Rightarrow>
   (remote_upid \<times> poll_result) set \<times> timer_state" where
  "tick_poll env remote_config ts cache_state c =
     (poll_tracked_tasks (tk_upids env) (tk_live env) remote_config (tasks_to_poll env ts cache_state c),
      if is_due_for_active_poll (tk_clock env Poll_Due) ts then ts\<lparr>last_active_poll := tk_clock env Poll_Reset\<rparr> else ts)"

definition tick_remotes ::
  "('p, 'q, 'l, 'e) tick_env \<Rightarrow> remote section_config \<Rightarrow> (remote_upid \<times> poll_result) set \<Rightarrow> timer_state \<Rightarrow>
   remote list \<times> timer_state" where
  "tick_remotes env remote_config poll_results ts =
     (if is_due_for_fetch (tk_clock env Fetch_Due) ts
      then (get_all_remotes remote_config, ts\<lparr>last_fetch := tk_clock env Fetch_Reset\<rparr>)
      else (get_remotes_with_finished_tasks remote_config poll_results, ts))"

definition needs_update :: "task_cache_item list \<Rightarrow> (remote_upid \<times> poll_result) set \<Rightarrow> bool" where
  "needs_update all_tasks poll_results \<longleftrightarrow>
     all_tasks \<noteq> [] \<or> (\<exists>p \<in> poll_results. snd p = Poll_RemoteGone \<or> snd p = Poll_RequestError)"

definition tick_collect ::
  "('p, 'q, 'l, 'e) tick_env \<Rightarrow> remote section_config \<Rightarrow> timer_state \<Rightarrow> 'l cache \<Rightarrow> ('l, 'e) tick_result" where
  "tick_collect env remote_config ts c =
     (let cache_state = read_state c;
          c = tk_others env Before_Active c;
          (poll_results, ts) = tick_poll env remote_config ts cache_state c;
          (remotes, ts) = tick_remotes env remote_config poll_results ts;
          (all_tasks, success) = fetch_remotes (tk_run env) (tk_live env) remotes cache_state;
          c = tk_others env Before_Update c
      in if needs_update all_tasks poll_results
         then (case update_task_cache (tk_upids env) (tk_codec env) all_tasks success poll_results c of
                 Inl err \<Rightarrow> (Some (Cache_Failed err), ts, c)
               | Inr c \<Rightarrow> (None, ts, c))
         else (None, ts, c))"

definition handle_timer_tick ::
  "('p, 'q, 'l, 'e) tick_env \<Rightarrow> timer_state \<Rightarrow> 'l cache \<Rightarrow> ('l, 'e) tick_result" where
  "handle_timer_tick env ts c =
     (case tick_rotate env ts c of
        (Some err, ts, c) \<Rightarrow> (Some err, ts, c)
      | (None, ts, c) \<Rightarrow>
          (case tick_journal env ts (tk_others env Before_Journal c) of
             (Some err, ts, c) \<Rightarrow> (Some err, ts, c)
           | (None, ts, c) \<Rightarrow>
               (case tk_config env of
                  Inl err \<Rightarrow> (Some (Remote_Failed err), ts, c)
                | Inr remote_config \<Rightarrow> tick_collect env remote_config ts (tk_others env Before_State c))))"

definition refresh_taskcache ::
  "('p, 'q, 'l, 'e) tick_env \<Rightarrow> remote list \<Rightarrow> 'l cache \<Rightarrow> cache_error + 'l cache" where
  "refresh_taskcache env remotes c =
     (let (all_tasks, success) = fetch_remotes (tk_run env) (tk_live env) remotes (read_state c);
          c = tk_others env Before_Update c
      in if all_tasks \<noteq> []
         then update_task_cache (tk_upids env) (tk_codec env) all_tasks success {} c
         else Inr c)"

definition init_cache :: "'l codec \<Rightarrow> i64 \<Rightarrow> 'l cache \<Rightarrow> 'l cache" where
  "init_cache cd epoch c = init cd get_cache (align_timestamp epoch ROTATE_AFTER) c"

section \<open>Tracking\<close>

definition track_running_task ::
  "('p, 'q) upid_env \<Rightarrow> 'l codec \<Rightarrow> string \<Rightarrow> string \<Rightarrow> i64 \<Rightarrow> 'l cache \<Rightarrow> upid_error + (remote_upid \<times> 'l cache)" where
  "track_running_task ue cd rmt upid starttime c =
     (case upid_from_pair ue rmt upid of
        Inl err \<Rightarrow> Inl err
      | Inr u \<Rightarrow>
          Inr (u, add_tracked_task cd \<lparr>ti_upid = u, ti_starttime = starttime, ti_status = None, ti_endtime = None\<rparr> c))"

end
