(* ===== verification/Parallel_Fetcher_Props.thy ===== *)
theory Parallel_Fetcher_Props
  imports Parallel_Fetcher
begin

text \<open>
  Parallel requests as a transition system: an invariant of every job and of the permits in use, a measure that every
  step decreases, freedom from deadlock, and the binary search over the responses.
\<close>

section \<open>Invariant of a job\<close>

definition targets :: "(remote \<Rightarrow> 'e + string list) \<Rightarrow> ('e, 't) job \<Rightarrow> 'e + string list" where
  "targets list_nodes j = (if one_request j then Inr [''localhost''] else list_nodes (j_remote j))"

definition answered_all ::
  "(remote \<Rightarrow> 'e + string list) \<Rightarrow> (remote \<Rightarrow> string \<Rightarrow> 'e + 't) \<Rightarrow> ('e, 't) job \<Rightarrow> string list \<Rightarrow> bool" where
  "answered_all list_nodes func j left \<longleftrightarrow>
     (\<exists>nodes finished. targets list_nodes j = Inr nodes \<and> j_responses j = map (answer func (j_remote j)) finished
        \<and> mset nodes = mset left + mset (j_running j) + mset finished)"

definition job_ok ::
  "fetcher \<Rightarrow> (remote \<Rightarrow> 'e + string list) \<Rightarrow> (remote \<Rightarrow> string \<Rightarrow> 'e + 't) \<Rightarrow> ('e, 't) job \<Rightarrow> bool" where
  "job_ok f list_nodes func j \<longleftrightarrow>
     (case j_phase j of
        Waiting \<Rightarrow> j_running j = [] \<and> j_responses j = []
      | Listing \<Rightarrow> \<not> one_request j \<and> j_running j = [] \<and> j_responses j = []
      | Spawning left permit \<Rightarrow> answered_all list_nodes func j left
      | Failed err \<Rightarrow> j_running j = [] \<and> targets list_nodes j = Inl err
      | Finished \<Rightarrow> j_running j = [] \<and> answered_all list_nodes func j [])
     \<and> length (j_running j) \<le> (if one_request j then 1 else f_max_connections_per_remote f)"

lemma one_request_update [simp]:
  "one_request (j\<lparr>j_phase := p\<rparr>) = one_request j"
  "one_request (j\<lparr>j_running := x\<rparr>) = one_request j"
  "one_request (j\<lparr>j_responses := y\<rparr>) = one_request j"
  by (simp_all add: one_request_def)

lemma targets_update [simp]:
  "targets list_nodes (j\<lparr>j_phase := p\<rparr>) = targets list_nodes j"
  "targets list_nodes (j\<lparr>j_running := x\<rparr>) = targets list_nodes j"
  "targets list_nodes (j\<lparr>j_responses := y\<rparr>) = targets list_nodes j"
  by (simp_all add: targets_def)

lemma answered_all_answer:
  assumes "answered_all list_nodes func j left" and "nod \<in> set (j_running j)"
  shows "answered_all list_nodes func
    (j\<lparr>j_running := remove1 nod (j_running j), j_responses := j_responses j @ [answer func (j_remote j) nod]\<rparr>) left"
proof -
  obtain nodes finished where *: "targets list_nodes j = Inr nodes"
      "j_responses j = map (answer func (j_remote j)) finished" "mset nodes = mset left + mset (j_running j) + mset finished"
    using assms(1) by (auto simp: answered_all_def)
  have "nod \<in># mset (j_running j)" using assms(2) by simp
  then obtain m where m: "mset (j_running j) = add_mset nod m" by (blast dest: multi_member_split)
  show ?thesis
    unfolding answered_all_def using * m
    by (intro exI [of _ nodes] exI [of _ "finished @ [nod]"]) simp
qed

lemma job_step_ok: "job_step f list_nodes func free j j' \<Longrightarrow> job_ok f list_nodes func j \<Longrightarrow> job_ok f list_nodes func j'"
proof (induction rule: job_step.induct)
  case (Answered nod j free)
  then show ?case
    using answered_all_answer [of list_nodes func j _ nod]
    by (cases "j_phase j") (auto simp: job_ok_def length_remove1)
qed (auto simp: job_ok_def answered_all_def targets_def)

lemma job_step_remote [simp]:
  "job_step f list_nodes func free j j' \<Longrightarrow> j_remote j' = j_remote j \<and> j_single j' = j_single j"
  by (induction rule: job_step.induct) simp_all

lemma job_step_permits: "job_step f list_nodes func free j j' \<Longrightarrow> job_ok f list_nodes func j \<Longrightarrow>
  permits j' \<le> permits j + (if free then 1 else 0)"
  by (induction rule: job_step.induct) (auto simp: permits_def job_ok_def length_remove1)

section \<open>Invariant of the fetcher\<close>

definition fetch_ok ::
  "fetcher \<Rightarrow> (remote \<Rightarrow> 'e + string list) \<Rightarrow> (remote \<Rightarrow> string \<Rightarrow> 'e + 't) \<Rightarrow> bool \<Rightarrow> remote list
     \<Rightarrow> ('e, 't) job list \<Rightarrow> bool" where
  "fetch_ok f list_nodes func single remotes js \<longleftrightarrow>
     held js \<le> f_max_connections f \<and> list_all (job_ok f list_nodes func) js
     \<and> map j_remote js = remotes \<and> list_all (\<lambda>j. j_single j = single) js"

lemma sum_list_update_le:
  "i < length xs \<Longrightarrow> f y \<le> f (xs ! i) + (d :: nat) \<Longrightarrow> sum_list (map f (xs[i := y])) \<le> sum_list (map f xs) + d"
proof (induction xs arbitrary: i)
  case (Cons x xs) then show ?case by (cases i) force+
qed simp

lemma fetch_ok_init: "fetch_ok f list_nodes func single remotes (map (new_job single) remotes)"
proof -
  have "held (map (new_job single) remotes :: ('a, 'b) job list) = 0"
    by (simp add: held_def permits_def new_job_def comp_def)
  then show ?thesis
    by (simp add: fetch_ok_def new_job_def job_ok_def comp_def list_all_iff)
qed

lemma fetch_ok_step:
  assumes "fetch_ok f list_nodes func single remotes js" and "fetch_step f list_nodes func js js'"
  shows "fetch_ok f list_nodes func single remotes js'"
proof -
  obtain i j' where i: "i < length js" and step: "job_step f list_nodes func (held js < f_max_connections f) (js ! i) j'"
    and js': "js' = js[i := j']" using assms(2) by (elim fetch_stepE) blast
  have ok: "job_ok f list_nodes func (js ! i)" using assms(1) i by (simp add: fetch_ok_def list_all_length)
  have "held js' \<le> held js + (if held js < f_max_connections f then 1 else 0)"
    using sum_list_update_le [OF i job_step_permits [OF step ok]] js' by (simp add: held_def)
  moreover have "map j_remote js' = map j_remote js"
    using job_step_remote [OF step] i js' by (simp add: map_update list_update_same_conv)
  moreover have "list_all (job_ok f list_nodes func) js'"
    using assms(1) job_step_ok [OF step ok] i js' by (simp add: fetch_ok_def list_all_length nth_list_update)
  moreover have "list_all (\<lambda>j. j_single j = single) js'"
    using assms(1) job_step_remote [OF step] i js' by (simp add: fetch_ok_def list_all_length nth_list_update)
  ultimately show ?thesis using assms(1) by (simp add: fetch_ok_def split: if_splits)
qed

interpretation fetching: invariant_system
  "\<lambda>js. js = map (new_job single) remotes" "fetch_step f list_nodes func" "fetch_ok f list_nodes func single remotes"
  for single remotes f list_nodes func
  by unfold_locales (auto intro: fetch_ok_init fetch_ok_step)

section \<open>Progress\<close>

fun job_measure :: "nat \<Rightarrow> 'e phase \<Rightarrow> nat" where
  "job_measure k Waiting = 3 * k + 5"
| "job_measure k Listing = 3 * k + 4"
| "job_measure k (Spawning left permit) = 3 * length left + (if permit then 0 else 1) + 1"
| "job_measure k (Failed err) = 0"
| "job_measure k Finished = 0"

definition target_count :: "(remote \<Rightarrow> 'e + string list) \<Rightarrow> ('e, 't) job \<Rightarrow> nat" where
  "target_count list_nodes j = (case targets list_nodes j of Inl _ \<Rightarrow> 0 | Inr nodes \<Rightarrow> length nodes)"

definition work_left :: "(remote \<Rightarrow> 'e + string list) \<Rightarrow> ('e, 't) job \<Rightarrow> nat" where
  "work_left list_nodes j = job_measure (target_count list_nodes j) (j_phase j) + length (j_running j)"

lemma job_step_work:
  "job_step f list_nodes func free j j' \<Longrightarrow> job_ok f list_nodes func j \<Longrightarrow> work_left list_nodes j' < work_left list_nodes j"
  by (induction rule: job_step.induct)
    (auto simp: work_left_def target_count_def job_ok_def targets_def length_remove1 dest: length_pos_if_in_set)

lemma sum_list_update_less:
  "i < length xs \<Longrightarrow> f y < (f (xs ! i) :: nat) \<Longrightarrow> sum_list (map f (xs[i := y])) < sum_list (map f xs)"
proof (induction xs arbitrary: i)
  case (Cons x xs) then show ?case by (cases i) force+
qed simp

lemma fetch_step_work:
  assumes "fetch_step f list_nodes func js js'" and "fetch_ok f list_nodes func single remotes js"
  shows "sum_list (map (work_left list_nodes) js') < sum_list (map (work_left list_nodes) js)"
proof -
  obtain i j' where i: "i < length js" and step: "job_step f list_nodes func (held js < f_max_connections f) (js ! i) j'"
    and js': "js' = js[i := j']" using assms(1) by (elim fetch_stepE) blast
  have "job_ok f list_nodes func (js ! i)" using assms(2) i by (simp add: fetch_ok_def list_all_length)
  from sum_list_update_less [where f = "work_left list_nodes", OF i job_step_work [OF step this]] js' show ?thesis by simp
qed

lemma fetch_steps_work:
  "(fetch_step f list_nodes func ^^ n) js js' \<Longrightarrow> fetch_ok f list_nodes func single remotes js \<Longrightarrow>
     fetch_ok f list_nodes func single remotes js'
     \<and> n + sum_list (map (work_left list_nodes) js') \<le> sum_list (map (work_left list_nodes) js)"
proof (induction n arbitrary: js')
  case (Suc n)
  then obtain js1 where "(fetch_step f list_nodes func ^^ n) js js1" "fetch_step f list_nodes func js1 js'" by auto
  with Suc fetch_ok_step fetch_step_work [of f list_nodes func js1 js' single remotes] show ?case by fastforce
qed simp

text \<open>A job that holds a permit of the shared semaphore can always go on.\<close>

lemma permits_step:
  assumes "0 < permits j" and "job_ok f list_nodes func j" and "0 < f_max_connections_per_remote f"
  shows "\<exists>j'. job_step f list_nodes func free j j'"
proof (cases "j_running j")
  case Nil
  with assms(1) consider "j_phase j = Listing" | left where "j_phase j = Spawning left True"
    by (auto simp: permits_def split: phase.splits if_splits)
  then show ?thesis
  proof cases
    case 1 then show ?thesis by (cases "list_nodes (j_remote j)") (blast intro: job_step.intros)+
  next
    case 2 then show ?thesis using Nil assms(3) by (cases left) (force intro: job_step.intros)+
  qed
next
  case (Cons nod rest) then show ?thesis by (auto intro!: exI job_step.Answered)
qed

lemma free_step:
  assumes "\<not> job_done j" and "permits j = 0"
  shows "\<exists>j'. job_step f list_nodes func True j j'"
proof -
  have run: "j_running j = []" using assms(2) by (simp add: permits_def)
  show ?thesis
  proof (cases "j_phase j")
    case Waiting then show ?thesis by (cases "one_request j") (blast intro: job_step.intros)+
  next
    case (Spawning left permit) then show ?thesis using run assms(2)
      by (cases left) (auto simp: permits_def intro: job_step.intros split: if_splits)
  qed (use assms in \<open>auto simp: job_done_def permits_def\<close>)
qed

lemma fetch_progress:
  assumes ok: "fetch_ok f list_nodes func single remotes js"
    and pos: "0 < f_max_connections f" "0 < f_max_connections_per_remote f"
    and undone: "\<not> list_all job_done js"
  shows "\<exists>js'. fetch_step f list_nodes func js js'"
proof (cases "\<exists>i < length js. 0 < permits (js ! i)")
  case True
  then show ?thesis using permits_step ok pos by (metis fetch_ok_def list_all_length fetch_step.Step)
next
  case False
  then have "held js = 0" by (auto simp: held_def in_set_conv_nth)
  moreover obtain i where "i < length js" "\<not> job_done (js ! i)" using undone by (auto simp: list_all_length)
  moreover have "permits (js ! i) = 0" using False calculation(2) by simp
  ultimately show ?thesis using free_step [of "js ! i" f list_nodes func] pos
    by (metis fetch_step.Step)
qed

lemma done_no_step: "job_done j \<Longrightarrow> job_ok f list_nodes func j \<Longrightarrow> \<not> job_step f list_nodes func free j j'"
  by (auto elim!: job_stepE simp: job_done_def job_ok_def split: phase.splits)

lemma all_done_no_step:
  "list_all job_done js \<Longrightarrow> fetch_ok f list_nodes func single remotes js \<Longrightarrow> \<not> fetch_step f list_nodes func js js'"
  by (auto elim!: fetch_stepE simp: done_no_step fetch_ok_def list_all_length)

section \<open>Looking up a response\<close>

lemma sorted_names_nth:
  "sorted (map rs_remote_name rs) \<Longrightarrow> i \<le> j \<Longrightarrow> j < length rs \<Longrightarrow> rs_remote_name (rs ! i) \<le> rs_remote_name (rs ! j)"
  using sorted_nth_mono [of "map rs_remote_name rs" i j] by simp

lemma search_between_empty: "hi \<le> lo \<Longrightarrow> search_between rs rmt lo hi = None"
  by (simp add: search_between.simps [of rs rmt lo hi])

lemma search_between_rec:
  assumes "\<not> hi \<le> lo" and "mid = (lo + hi) div 2"
  shows "search_between rs rmt lo hi = (if rs_remote_name (rs ! mid) = rmt then Some mid
    else if rs_remote_name (rs ! mid) < rmt then search_between rs rmt (Suc mid) hi else search_between rs rmt lo mid)"
  unfolding search_between.simps [of rs rmt lo hi] Let_def assms(2) [symmetric] using assms(1) by simp

lemma search_between_Some:
  "search_between rs rmt lo hi = Some i \<Longrightarrow> lo \<le> i \<and> i < hi \<and> rs_remote_name (rs ! i) = rmt"
proof (induction rs rmt lo hi rule: search_between.induct)
  case (1 rs rmt lo hi)
  have lt: "\<not> hi \<le> lo" using search_between_empty [of hi lo rs rmt] "1.prems" by auto
  define mid where "mid = (lo + hi) div 2"
  have mid: "lo \<le> mid" "mid < hi" using lt by (auto simp: mid_def)
  note unf = "1.prems" [unfolded search_between_rec [OF lt mid_def]]
  note IH = "1.IH" [OF lt mid_def]
  consider "rs_remote_name (rs ! mid) = rmt" | "rs_remote_name (rs ! mid) < rmt" | "rmt < rs_remote_name (rs ! mid)"
    using linorder_less_linear by blast
  then show ?case
  proof cases
    case 1 then show ?thesis using unf mid by simp
  next
    case 2 then show ?thesis using IH(1) [OF less_imp_neq] unf mid by (simp add: less_imp_neq)
  next
    case 3
    then have "rs_remote_name (rs ! mid) \<noteq> rmt" "\<not> rs_remote_name (rs ! mid) < rmt" by auto
    then show ?thesis using IH(2) unf mid by simp
  qed
qed

lemma search_between_None:
  "search_between rs rmt lo hi = None \<Longrightarrow> sorted (map rs_remote_name rs) \<Longrightarrow> hi \<le> length rs \<Longrightarrow> lo \<le> i \<Longrightarrow> i < hi
     \<Longrightarrow> rs_remote_name (rs ! i) \<noteq> rmt"
proof (induction rs rmt lo hi arbitrary: i rule: search_between.induct)
  case (1 rs rmt lo hi)
  define mid where "mid = (lo + hi) div 2"
  have mid: "lo \<le> mid" "mid < hi" using "1.prems"(4,5) by (auto simp: mid_def)
  have lt: "\<not> hi \<le> lo" using mid by simp
  note unf = "1.prems"(1) [unfolded search_between_rec [OF lt mid_def]]
  note IH = "1.IH" [OF lt mid_def]
  have ne: "rs_remote_name (rs ! mid) \<noteq> rmt" using unf by (auto split: if_splits)
  show ?case
  proof (cases "rs_remote_name (rs ! mid) < rmt")
    case True
    show ?thesis
    proof (cases "i \<le> mid")
      case True with sorted_names_nth [of rs i mid] \<open>rs_remote_name (rs ! mid) < rmt\<close> "1.prems"(2-5) mid
      show ?thesis by auto
    next
      case False
      then show ?thesis using IH(1) [of i] "1.prems"(2-5) True ne unf by simp
    qed
  next
    case False
    show ?thesis
    proof (cases "mid \<le> i")
      case True with sorted_names_nth [of rs mid i] False ne "1.prems"(2-5) show ?thesis by auto
    next
      case low: False
      then show ?thesis using IH(2) [of i] "1.prems"(2-5) False ne unf mid by simp
    qed
  qed
qed

lemma get_remote_response_Some:
  assumes sorted: "sorted (map rs_remote_name rs)" and dist: "distinct (map rs_remote_name rs)" and x: "x \<in> set rs"
  shows "get_remote_response rs (rs_remote_name x) = Some x"
proof -
  obtain k where k: "k < length rs" "rs ! k = x" using x by (auto simp: in_set_conv_nth)
  have "search_between rs (rs_remote_name x) 0 (length rs) \<noteq> None"
    using search_between_None [OF _ sorted le_refl _ k(1)] k(2) by fastforce
  then obtain i where i: "search_between rs (rs_remote_name x) 0 (length rs) = Some i" by auto
  have "i < length rs" "rs_remote_name (rs ! i) = rs_remote_name x" using search_between_Some [OF i] by auto
  then have "i = k" using dist k by (metis distinct_conv_nth length_map nth_map)
  then show ?thesis using i k by (simp add: get_remote_response_def)
qed

lemma get_remote_response_None:
  assumes "rmt \<notin> rs_remote_name ` set rs"
  shows "get_remote_response rs rmt = None"
proof (cases "search_between rs rmt 0 (length rs)")
  case (Some i)
  from search_between_Some [OF this] have "rs_remote_name (rs ! i) = rmt" "i < length rs" by auto
  with assms show ?thesis by (metis image_eqI nth_mem)
qed (simp add: get_remote_response_def)

lemma sort_responses_props:
  "sorted (map rs_remote_name (sort_responses rs))" "set (sort_responses rs) = set rs"
  "distinct (map rs_remote_name (sort_responses rs)) = distinct (map rs_remote_name rs)"
proof -
  have "mset (map rs_remote_name (sort_responses rs)) = mset (map rs_remote_name rs)"
    by (simp add: sort_responses_def)
  then show "distinct (map rs_remote_name (sort_responses rs)) = distinct (map rs_remote_name rs)"
    by (rule mset_eq_imp_distinct_iff)
qed (simp_all add: sort_responses_def)

lemma get_sorted_response:
  assumes "distinct (map rs_remote_name rs)" and "x \<in> set rs"
  shows "get_remote_response (sort_responses rs) (rs_remote_name x) = Some x"
  using assms by (simp add: get_remote_response_Some sort_responses_props)

section \<open>What a finished run returns\<close>

lemma fetch_ok_job:
  assumes ok: "fetch_ok f list_nodes func single remotes js" and r: "r \<in> set remotes"
  obtains j where "j \<in> set js" "j_remote j = r" "j_single j = single" "job_ok f list_nodes func j"
proof -
  from ok r have "r \<in> j_remote ` set js" by (auto simp: fetch_ok_def)
  then obtain j where "j \<in> set js" "r = j_remote j" by blast
  with ok that [of j] show ?thesis by (simp add: fetch_ok_def list_all_iff)
qed

lemma response_name [simp]: "rs_remote_name (job_response j) = r_id (j_remote j)"
  "rs_remote_name (single_response j) = r_id (j_remote j)" "rs_remote_type (job_response j) = r_ty (j_remote j)"
  by (simp_all add: job_response_def single_response_def)

lemma response_names: "map rs_remote_name (map job_response js) = map r_id (map j_remote js)"
  "map rs_remote_name (map single_response js) = map r_id (map j_remote js)"
  by simp_all

lemma done_job_response:
  assumes "job_ok f list_nodes func j" and "job_done j"
  shows "case rs_response (job_response j) of Inl err \<Rightarrow> targets list_nodes j = Inl err
    | Inr answers \<Rightarrow> (\<exists>nodes. targets list_nodes j = Inr nodes \<and> mset answers = mset (map (answer func (j_remote j)) nodes))"
  using assms
  by (auto simp: job_ok_def job_done_def job_response_def answered_all_def split: phase.splits)

text \<open>At no moment of a parallel fetch, whatever the order in which requests are answered, are more permits in use
  than the limit of connections, and no cluster is asked by more requests than the limit per remote.\<close>

theorem fetch_limits:
  assumes "(fetch_step f list_nodes func)\<^sup>*\<^sup>* (do_for_all_remote_nodes remotes) js"
  shows "held js \<le> f_max_connections f
    \<and> (\<forall>j \<in> set js. length (j_running j) \<le> (if r_ty (j_remote j) = Remote_Pbs then 1 else f_max_connections_per_remote f))"
proof -
  have "fetch_ok f list_nodes func False remotes js"
    using fetching.reachable_inv assms by (metis do_for_all_remote_nodes_def)
  then show ?thesis by (auto simp: fetch_ok_def job_ok_def one_request_def list_all_iff)
qed

definition fetch_bound :: "(remote \<Rightarrow> 'e + string list) \<Rightarrow> remote list \<Rightarrow> nat" where
  "fetch_bound list_nodes remotes =
     sum_list (map (\<lambda>r. 3 * (if r_ty r = Remote_Pbs then 1 else case list_nodes r of Inl _ \<Rightarrow> 0 | Inr nodes \<Rightarrow> length nodes) + 5)
       remotes)"

lemma initial_work:
  "sum_list (map (work_left list_nodes) (do_for_all_remote_nodes remotes :: ('e, 't) job list)) = fetch_bound list_nodes remotes"
  unfolding do_for_all_remote_nodes_def fetch_bound_def map_map
  by (intro arg_cong [of _ _ sum_list] map_cong refl)
    (simp add: new_job_def work_left_def target_count_def targets_def one_request_def split: sum.splits)

text \<open>C19. A parallel fetch with positive limits never gets stuck and always ends: the two semaphores cannot deadlock, the
  only states without a next step are those in which every task has returned, and the number of steps is at most
  three per request and five per remote.\<close>

theorem fetch_terminates:
  assumes "0 < f_max_connections f" and "0 < f_max_connections_per_remote f"
    and "(fetch_step f list_nodes func ^^ n) (do_for_all_remote_nodes remotes) js"
  shows "n \<le> fetch_bound list_nodes remotes \<and> ((\<nexists>js'. fetch_step f list_nodes func js js') \<longleftrightarrow> list_all job_done js)"
proof -
  have "fetch_ok f list_nodes func False remotes (do_for_all_remote_nodes remotes)"
    by (simp add: do_for_all_remote_nodes_def fetch_ok_init)
  from fetch_steps_work [OF assms(3) this]
  have "fetch_ok f list_nodes func False remotes js" "n \<le> fetch_bound list_nodes remotes" by (auto simp: initial_work)
  then show ?thesis using fetch_progress assms(1,2) all_done_no_step by blast
qed

lemma finished_response:
  assumes "distinct (map r_id remotes)" and r: "r \<in> set remotes"
    and run: "(fetch_step f list_nodes func)\<^sup>*\<^sup>* (do_for_all_remote_nodes remotes) js" and "list_all job_done js"
  shows "\<exists>x. get_remote_response (fetcher_response js) (r_id r) = Some x \<and> rs_remote_type x = r_ty r
    \<and> (case (if r_ty r = Remote_Pbs then Inr [''localhost''] else list_nodes r) of
         Inl err \<Rightarrow> rs_response x = Inl err
       | Inr nodes \<Rightarrow> (\<exists>answers. rs_response x = Inr answers \<and> mset answers = mset (map (answer func r) nodes)))"
proof -
  have ok: "fetch_ok f list_nodes func False remotes js"
    using fetching.reachable_inv run by (metis do_for_all_remote_nodes_def)
  then obtain j where j: "j \<in> set js" "j_remote j = r" "\<not> j_single j" "job_ok f list_nodes func j"
    using fetch_ok_job r by blast
  have "distinct (map rs_remote_name (map job_response js))"
    unfolding response_names using ok assms(1) by (simp add: fetch_ok_def)
  from get_sorted_response [OF this, of "job_response j"] j
  have get: "get_remote_response (fetcher_response js) (r_id r) = Some (job_response j)"
    by (simp add: fetcher_response_def)
  have "job_done j" using assms(4) j by (simp add: list_all_iff)
  from done_job_response [OF j(4) this] have "case targets list_nodes j of Inl err \<Rightarrow> rs_response (job_response j) = Inl err
      | Inr nodes \<Rightarrow> (\<exists>answers. rs_response (job_response j) = Inr answers \<and> mset answers = mset (map (answer func r) nodes))"
    using j(2) by (cases "rs_response (job_response j)") auto
  moreover have "targets list_nodes j = (if r_ty r = Remote_Pbs then Inr [''localhost''] else list_nodes r)"
    using j by (simp add: targets_def one_request_def)
  ultimately show ?thesis using get j(2) by (intro exI [of _ "job_response j"]) simp
qed

text \<open>C20. A finished parallel fetch has, for every remote, the answer of every node exactly once, or the error of listing
  the nodes, and the binary search over the sorted responses finds it by the name of the remote.\<close>

theorem fetch_complete:
  assumes "distinct (map r_id remotes)" and "r \<in> set remotes"
    and "(fetch_step f list_nodes func)\<^sup>*\<^sup>* (do_for_all_remote_nodes remotes) js" and "list_all job_done js"
  shows "\<exists>x. get_remote_response (fetcher_response js) (r_id r) = Some x \<and> rs_remote_type x = r_ty r
    \<and> (case (if r_ty r = Remote_Pbs then Inr [''localhost''] else list_nodes r) of
         Inl err \<Rightarrow> rs_response x = Inl err
       | Inr nodes \<Rightarrow> (\<exists>answers. rs_response x = Inr answers \<and> mset answers = mset (map (answer func r) nodes)))"
  using assms by (rule finished_response)

theorem fetch_single_complete:
  assumes "distinct (map r_id remotes)" and r: "r \<in> set remotes"
    and run: "(fetch_step f list_nodes func)\<^sup>*\<^sup>* (do_for_all_remotes remotes) js" and "list_all job_done js"
  shows "\<exists>x. get_remote_response (sort_responses (map single_response js)) (r_id r) = Some x
    \<and> rs_response x = Some (answer func r ''localhost'')"
proof -
  have ok: "fetch_ok f list_nodes func True remotes js"
    using fetching.reachable_inv run by (metis do_for_all_remotes_def)
  then obtain j where j: "j \<in> set js" "j_remote j = r" "j_single j" "job_ok f list_nodes func j"
    using fetch_ok_job r by blast
  have "distinct (map rs_remote_name (map single_response js))"
    unfolding response_names using ok assms(1) by (simp add: fetch_ok_def)
  from get_sorted_response [OF this, of "single_response j"] j
  have get: "get_remote_response (sort_responses (map single_response js)) (r_id r) = Some (single_response j)"
    by simp
  have "job_done j" using assms(4) j by (simp add: list_all_iff)
  moreover have "targets list_nodes j = Inr [''localhost'']" using j(3) by (simp add: targets_def one_request_def)
  ultimately have "j_responses j = [answer func r ''localhost'']"
    using j(2,4) by (cases "j_phase j") (auto simp: job_ok_def job_done_def answered_all_def)
  with get show ?thesis by (simp add: single_response_def)
qed

section \<open>A run\<close>

definition ex_pve :: remote where
  "ex_pve = \<lparr>r_ty = Remote_Pve, r_id = ''c'', r_nodes = [''a''], r_authid = [], r_token = [], r_web_url = None\<rparr>"

definition ex_fetcher :: fetcher where
  "ex_fetcher = \<lparr>f_max_connections = 1, f_max_connections_per_remote = 1\<rparr>"

definition ex_list :: "remote \<Rightarrow> nat + string list" where "ex_list r = Inr [''n1'']"

definition ex_func :: "remote \<Rightarrow> string \<Rightarrow> nat + nat" where "ex_func r nod = Inr (length nod)"

definition ex_job :: "nat phase \<Rightarrow> string list \<Rightarrow> (nat, nat) node_response list \<Rightarrow> (nat, nat) job" where
  "ex_job p running responses =
     \<lparr>j_remote = ex_pve, j_single = False, j_phase = p, j_running = running, j_responses = responses\<rparr>"

lemma ex_step:
  assumes "job_step ex_fetcher ex_list ex_func (held [j] < f_max_connections ex_fetcher) j j'"
  shows "fetch_step ex_fetcher ex_list ex_func [j] [j']"
  using fetch_step.Step [of 0 "[j]" ex_fetcher ex_list ex_func j'] assms by simp

lemma ex_start: "do_for_all_remote_nodes [ex_pve] = [ex_job Waiting [] []]"
  by (simp add: do_for_all_remote_nodes_def new_job_def ex_job_def)

lemma ex_run:
  "(fetch_step ex_fetcher ex_list ex_func ^^ 5) (do_for_all_remote_nodes [ex_pve])
     [ex_job Finished [] [answer ex_func ex_pve ''n1'']]"
proof -
  let ?S = "fetch_step ex_fetcher ex_list ex_func"
  note ex = ex_fetcher_def ex_list_def ex_job_def held_def permits_def one_request_def ex_pve_def
  have 1: "?S (do_for_all_remote_nodes [ex_pve]) [ex_job Listing [] []]" unfolding ex_start
    using job_step.Acquire_List [of "ex_job Waiting [] []"] by (intro ex_step) (simp add: ex)
  have 2: "?S [ex_job Listing [] []] [ex_job (Spawning [''n1''] True) [] []]"
    using job_step.Listed [of "ex_job Listing [] []" ex_list "[''n1'']"] by (intro ex_step) (simp add: ex)
  have 3: "?S [ex_job (Spawning [''n1''] True) [] []] [ex_job (Spawning [] False) [''n1''] []]"
    using job_step.Spawn [of "ex_job (Spawning [''n1''] True) [] []" "''n1''" "[]"] by (intro ex_step) (simp add: ex)
  have 4: "?S [ex_job (Spawning [] False) [''n1''] []] [ex_job (Spawning [] False) [] [answer ex_func ex_pve ''n1'']]"
    using job_step.Answered [of "''n1''" "ex_job (Spawning [] False) [''n1''] []"] by (intro ex_step) (simp add: ex)
  have 5: "?S [ex_job (Spawning [] False) [] [answer ex_func ex_pve ''n1'']]
      [ex_job Finished [] [answer ex_func ex_pve ''n1'']]"
    using job_step.Joined [of "ex_job (Spawning [] False) [] [answer ex_func ex_pve ''n1'']" False] by (intro ex_step) (simp add: ex)
  from 1 2 3 4 5 show ?thesis by (simp add: eval_nat_numeral relcompp.simps) blast
qed

lemmas ex_reached = relpowp_imp_rtranclp [OF ex_run]

theorem fetch_limits_witness: "held [ex_job Finished [] [answer ex_func ex_pve ''n1'']] \<le> 1"
  using fetch_limits [OF ex_reached] by (simp add: ex_fetcher_def)

theorem fetch_terminates_witness:
  "5 \<le> fetch_bound ex_list [ex_pve] \<and> (\<nexists>js'. fetch_step ex_fetcher ex_list ex_func [ex_job Finished [] [answer ex_func ex_pve ''n1'']] js')"
  using fetch_terminates [OF _ _ ex_run] by (simp add: ex_fetcher_def ex_job_def job_done_def)

theorem fetch_complete_witness:
  "\<exists>x. get_remote_response (fetcher_response [ex_job Finished [] [answer ex_func ex_pve ''n1'']]) ''c'' = Some x
     \<and> rs_response x = Inr [answer ex_func ex_pve ''n1'']"
  using fetch_complete [of "[ex_pve]" ex_pve, OF _ _ ex_reached]
  by (auto simp: ex_list_def ex_pve_def ex_job_def job_done_def)

end
