(* ===== verification/Task_Refresh_Props.thy ===== *)
theory Task_Refresh_Props
  imports Task_Refresh Parallel_Fetcher_Props
begin

text \<open>
  Properties of the periodic refresh: what an update leaves recorded, that rotation and the journal keep the state of the
  cache, what a finished parallel fetch contributes, and the effect of a whole tick.
\<close>

section \<open>Recorded tasks\<close>

definition recorded :: "'l codec \<Rightarrow> 'l cache \<Rightarrow> (int \<times> string) set" where
  "recorded cd c = task_key ` (set (readable (archive_iter cd (journal_lines c))) \<union> set (archived cd (c_dir c)))"

lemma file_list_merged:
  assumes "codec_ok cd" and "sc_get dir' (af_name f) = merged_lines cd dir f own"
  shows "task_key ` set (file_list cd dir' f) = task_key ` set (file_list cd dir f) \<union> task_key ` set own"
proof (cases "own = []")
  case True then show ?thesis using assms(2) by (simp add: merged_lines_def file_list_def file_items_def)
next
  case False
  then have "file_list cd dir' f = merge_tasks (file_list cd dir f) own"
    using assms by (simp add: merged_lines_def file_list_def file_items_def archive_iter_enc)
  then show ?thesis by (simp add: keys_merge)
qed

lemma archived_keys: "task_key ` set (archived cd dir) = (\<Union>f \<in> set (archive_files dir). task_key ` set (file_list cd dir f))"
  by (auto simp: archived_def)

lemma apply_journal_recorded:
  assumes cd: "codec_ok cd" and ap: "apply_journal cd c = Inr c'"
  shows "archive_files (c_dir c') = archive_files (c_dir c)
    \<and> {k \<in> recorded cd c. \<exists>f \<in> set (archive_files (c_dir c)). af_starttime f \<le> - fst k} \<subseteq> recorded cd c'"
proof (cases "sc_get (c_dir c) journal_name")
  case None then show ?thesis using ap by (auto simp: apply_journal_def)
next
  case (Some ls)
  let ?fs = "archive_files (c_dir c)"
  from apply_journal_effect [OF Some, of cd] obtain c1 cor where
    ap1: "apply_journal cd c = Inr (if cor \<noteq> [] then request_repair cor c1 else c1)"
    and names: "map fst (c_dir c1) = map fst (c_dir c)"
    and merged: "\<forall>f \<in> set ?fs. sc_get (c_dir c1) (af_name f) = merged_lines cd (c_dir c) f (file_tasks ?fs (journal_iter cd ls) f)"
    unfolding Let_def by blast
  have dir: "c_dir c' = c_dir c1"
    using ap ap1 by (cases cor) (auto simp: request_repair_def Let_def write_state_def)
  have fs: "archive_files (c_dir c') = ?fs" using archive_files_names [OF names] dir by simp
  have keys: "task_key ` set (archived cd (c_dir c')) =
      task_key ` set (archived cd (c_dir c)) \<union> (\<Union>f \<in> set ?fs. task_key ` set (file_tasks ?fs (journal_iter cd ls) f))"
    unfolding archived_keys fs using file_list_merged [OF cd merged [rule_format]] by (simp add: dir UN_Un_distrib)
  have "k \<in> task_key ` set (archived cd (c_dir c'))"
    if "k \<in> recorded cd c" "f \<in> set ?fs" "af_starttime f \<le> - fst k" for k f
  proof (cases "k \<in> task_key ` set (archived cd (c_dir c))")
    case True then show ?thesis using keys by blast
  next
    case False
    then have "k \<in> task_key ` set (journal_iter cd ls)"
      using that(1) Some by (simp add: recorded_def image_Un journal_lines_def)
    then obtain t where t: "t \<in> set (journal_iter cd ls)" "k = task_key t" by blast
    have "List.find (\<lambda>g. af_starttime g \<le> ti_starttime t) ?fs \<noteq> None"
      using that(2,3) t(2) by (auto simp: find_None_iff task_key_def)
    then obtain g where "List.find (\<lambda>g. af_starttime g \<le> ti_starttime t) ?fs = Some g" by blast
    then have "g \<in> set ?fs" "t \<in> set (file_tasks ?fs (journal_iter cd ls) g)"
      using t(1) by (auto simp: file_tasks_def dest: find_SomeD)
    then show ?thesis using keys t(2) by blast
  qed
  moreover have "task_key ` set (archived cd (c_dir c')) \<subseteq> recorded cd c'" by (simp add: recorded_def image_Un)
  ultimately have "k \<in> recorded cd c'" if "k \<in> recorded cd c" "\<exists>f \<in> set ?fs. af_starttime f \<le> - fst k" for k
    using that by blast
  then show ?thesis using fs by blast
qed

lemma apply_if_too_large_recorded:
  assumes "codec_ok cd" and "apply_journal_if_too_large cd cfg c = Inr c'"
  shows "archive_files (c_dir c') = archive_files (c_dir c)
    \<and> {k \<in> recorded cd c. \<exists>f \<in> set (archive_files (c_dir c)). af_starttime f \<le> - fst k} \<subseteq> recorded cd c'"
  using assms apply_journal_recorded [of cd c c']
  by (auto simp: apply_journal_if_too_large_def and_then_Inr_iff split: if_splits)

lemma apply_journal_total: "\<exists>c'. apply_journal cd c = Inr c'"
proof (cases "sc_get (c_dir c) journal_name")
  case (Some ls) then show ?thesis using apply_journal_effect [OF Some, of cd] by auto
qed (simp add: apply_journal_def)

lemma update_total:
  assumes "codec_ok cd"
  shows "\<exists>c'. update ue cd cfg new success drop_tracked c = Inr c'"
proof -
  obtain c1 ls where "update ue cd cfg new success drop_tracked c = apply_journal_if_too_large cd cfg c1"
    "sc_get (c_dir c1) journal_name = Some ls"
    using update_before_apply [OF assms, of ue cfg new success drop_tracked c] by blast
  then show ?thesis using apply_journal_total [of cd c1]
    by (simp add: apply_journal_if_too_large_def journal_size_def)
qed

lemma archive_iter_append: "ReadError \<notin> set xs \<Longrightarrow> archive_iter cd (xs @ ys) = archive_iter cd xs @ archive_iter cd ys"
  by (induction cd xs rule: archive_iter.induct) simp_all

lemma update_recorded:
  assumes cd: "codec_ok cd" and read: "ReadError \<notin> set (journal_lines c)" and up: "update ue cd cfg new success drop_tracked c = Inr c'"
  shows "archive_files (c_dir c') = archive_files (c_dir c)
    \<and> {k \<in> recorded cd c \<union> task_key ` {t \<in> set new. ti_endtime t \<noteq> None \<and> task_node ue t \<noteq> None}.
          \<exists>f \<in> set (archive_files (c_dir c)). af_starttime f \<le> - fst k} \<subseteq> recorded cd c'"
proof -
  obtain c1 where c1: "update ue cd cfg new success drop_tracked c = apply_journal_if_too_large cd cfg c1"
    "sc_get (c_dir c1) journal_name = Some (journal_lines c @ map (\<lambda>t. Line (enc cd t))
          (filter (\<lambda>t. ti_endtime t \<noteq> None \<and> task_node ue t \<noteq> None) new))"
    "\<forall>k. k \<noteq> journal_name \<longrightarrow> k \<noteq> af_name active_file \<longrightarrow> sc_get (c_dir c1) k = sc_get (c_dir c) k"
    "archive_files (c_dir c1) = archive_files (c_dir c)"
    using update_before_apply [OF cd, of ue cfg new success drop_tracked c] by blast
  have files: "archive_files (c_dir c1) = archive_files (c_dir c)" using c1(4) .
  have same: "file_list cd (c_dir c1) f = file_list cd (c_dir c) f" if "f \<in> set (archive_files (c_dir c))" for f
  proof -
    have "af_name f \<noteq> journal_name" "af_name f \<noteq> af_name active_file"
      using that journal_not_archive [of "c_dir c"] active_not_archive [of "c_dir c"] by (metis imageI)+
    then show ?thesis using c1(3) by (simp add: file_list_def file_items_def)
  qed
  have "task_key ` set (archived cd (c_dir c1)) = task_key ` set (archived cd (c_dir c))"
    unfolding archived_keys files using same by simp
  moreover have "set (readable (archive_iter cd (journal_lines c1))) = set (readable (archive_iter cd (journal_lines c)))
      \<union> {t \<in> set new. ti_endtime t \<noteq> None \<and> task_node ue t \<noteq> None}"
    using c1(2) read by (simp add: journal_lines_def [of c1] archive_iter_append archive_iter_enc [OF cd])
  ultimately have "recorded cd c1 = recorded cd c \<union> task_key ` {t \<in> set new. ti_endtime t \<noteq> None \<and> task_node ue t \<noteq> None}"
    by (simp add: recorded_def image_Un Un_ac)
  with apply_if_too_large_recorded [OF cd, of cfg c1 c'] up c1(1) files show ?thesis by simp
qed

section \<open>Maintenance keeps the state\<close>

lemma state_remove_file [simp]: "c_state (remove_file f c) = c_state c"
  by (simp add: remove_file_def)

lemma state_write_file [simp]: "c_state (write_file cd f ts c) = c_state c"
  by (simp add: write_file_def)

lemma state_drop_dupes: "drop_dupes seen fs c = (fs', c') \<Longrightarrow> c_state c' = c_state c"
  by (induction seen fs c arbitrary: fs' rule: drop_dupes.induct) (auto split: if_splits prod.splits)

lemma state_trim_files: "trim_files m fs c = (fs', c') \<Longrightarrow> c_state c' = c_state c"
proof (induction m fs c rule: trim_files.induct)
  case (1 m fs c)
  then show ?case
    using trim_files.simps [of m fs c] by (cases "m < length fs") auto
qed

lemma state_compress_files: "compress_files cd fs c = Inr (cor, c') \<Longrightarrow> c_state c' = c_state c"
proof (induction cd fs c arbitrary: cor rule: compress_files.induct)
  case (2 cd f fs c)
  then show ?case
    by (auto simp: and_then_Inr_iff compress_archive_file_def Let_def split: if_splits option.splits prod.splits)
qed simp

definition keeps_state :: "'l cache \<Rightarrow> 'l cache \<Rightarrow> bool" where
  "keeps_state c c' \<longleftrightarrow> only_lowers (read_state c) (read_state c')
     \<and> ts_tracked_tasks (read_state c') = ts_tracked_tasks (read_state c)"

lemma keeps_refl [simp]: "c_state c = c_state c' \<Longrightarrow> keeps_state c c'"
  by (simp add: keeps_state_def read_state_def only_lowers_def option.rel_refl)

lemma keeps_trans: "keeps_state c c' \<Longrightarrow> keeps_state c' c'' \<Longrightarrow> keeps_state c c''"
proof -
  assume a: "keeps_state c c'" "keeps_state c' c''"
  have "rel_option (\<ge>) (cutoff_timestamp (read_state c) r n) (cutoff_timestamp (read_state c'') r n)" for r n
  proof -
    have "rel_option (\<ge>) (cutoff_timestamp (read_state c) r n) (cutoff_timestamp (read_state c') r n)"
      "rel_option (\<ge>) (cutoff_timestamp (read_state c') r n) (cutoff_timestamp (read_state c'') r n)"
      using a by (simp_all add: keeps_state_def only_lowers_def)
    then show ?thesis
      by (cases "cutoff_timestamp (read_state c) r n"; cases "cutoff_timestamp (read_state c') r n";
          cases "cutoff_timestamp (read_state c'') r n") auto
  qed
  with a show "keeps_state c c''" by (simp add: keeps_state_def only_lowers_def)
qed

lemma keeps_repair: "keeps_state c (request_repair cor c)"
  by (simp add: keeps_state_def only_lowers_repair)

lemma apply_journal_keeps_state: "apply_journal cd c = Inr c' \<Longrightarrow> keeps_state c c'"
  using apply_journal_keeps [of cd c c'] by (simp add: keeps_state_def)

lemma rotate_keeps_state:
  assumes "rotate_archive cd cfg now c = Inr (b, c')"
  shows "keeps_state c c'"
proof -
  obtain fs c1 where d: "drop_dupes {} (archive_files_with_dupes (c_dir c)) c = (fs, c1)" by fastforce
  obtain fs2 c2 where s: "(if needs_rotation cfg now fs then start_new_file cd cfg now fs c1 else Inr (fs, c1)) = Inr (fs2, c2)"
    using assms d by (auto simp: rotate_archive_def Let_def and_then_Inr_iff)
  obtain fs3 c3 where t: "trim_files (cfg_max_files cfg) fs2 c2 = (fs3, c3)" by fastforce
  obtain cor c4 where k: "compress_files cd (drop (cfg_uncompressed_files cfg) fs3) c3 = Inr (cor, c4)"
    and c': "c' = (if cor \<noteq> [] then request_repair cor c4 else c4)"
    using assms d s t by (auto simp: rotate_archive_def Let_def and_then_Inr_iff)
  have "keeps_state c1 c2"
  proof (cases "needs_rotation cfg now fs")
    case True
    then obtain c0 where "apply_journal cd c0 = Inr c2" "c_state c0 = c_state c1"
      using s by (auto simp: start_new_file_def new_file_def Let_def and_then_Inr_iff)
    then show ?thesis using apply_journal_keeps_state keeps_trans keeps_refl by metis
  qed (use s in simp)
  moreover have "keeps_state c c1" "keeps_state c2 c3" "keeps_state c3 c4"
    using state_drop_dupes [OF d] state_trim_files [OF t] state_compress_files [OF k] by simp_all
  moreover have "keeps_state c4 c'" unfolding c' by (simp add: keeps_repair)
  ultimately show ?thesis by (meson keeps_trans)
qed

lemma keeps_state_since:
  assumes "keeps_state c c'"
  shows "fetch_since lv (read_state c') r n \<le> fetch_since lv (read_state c) r n"
proof -
  have "rel_option (\<ge>) (cutoff_timestamp (read_state c) r n) (cutoff_timestamp (read_state c') r n)"
    using assms by (simp add: keeps_state_def only_lowers_def)
  then show ?thesis by (cases rule: option.rel_cases) (simp_all add: fetch_since_def)
qed

section \<open>What a fetch collects\<close>

lemma collect_nodes:
  "t \<in> set (fst (fold (collect_node rmt) nrs acc)) \<longleftrightarrow>
     t \<in> set (fst acc) \<or> (\<exists>nr \<in> set nrs. \<exists>ts. nr_data nr = Inr ts \<and> t \<in> set ts)"
  "node_successful (snd (fold (collect_node rmt) nrs acc)) r n \<longleftrightarrow>
     node_successful (snd acc) r n \<or> r = rmt \<and> (\<exists>nr \<in> set nrs. nr_node_name nr = n \<and> (\<exists>ts. nr_data nr = Inr ts))"
proof (induction nrs arbitrary: acc)
  case (Cons nr nrs)
  case 1 show ?case using Cons.IH(1) by (cases "nr_data nr") (simp_all add: collect_node_def)
  case 2 show ?case using Cons.IH(2)
    by (cases "nr_data nr") (auto simp: collect_node_def set_node_success_def node_successful_def)
qed simp_all

lemma collect_remotes:
  "t \<in> set (fst (fold collect_remote rrs acc)) \<longleftrightarrow> t \<in> set (fst acc) \<or>
     (\<exists>rr \<in> set rrs. \<exists>nrs. rs_response rr = Inr nrs \<and> (\<exists>nr \<in> set nrs. \<exists>ts. nr_data nr = Inr ts \<and> t \<in> set ts))"
  "node_successful (snd (fold collect_remote rrs acc)) r n \<longleftrightarrow>
     node_successful (snd acc) r n \<or> (\<exists>rr \<in> set rrs. rs_remote_name rr = r \<and> (\<exists>nrs. rs_response rr = Inr nrs
        \<and> (\<exists>nr \<in> set nrs. nr_node_name nr = n \<and> (\<exists>ts. nr_data nr = Inr ts))))"
proof (induction rrs arbitrary: acc)
  case (Cons rr rrs)
  case 1 show ?case using Cons.IH(1) by (cases "rs_response rr") (simp_all add: collect_remote_def collect_nodes)
  case 2 show ?case using Cons.IH(2) by (cases "rs_response rr") (auto simp: collect_remote_def collect_nodes)
qed simp_all

section \<open>Readable journals\<close>

definition clean :: "'l cache \<Rightarrow> bool" where
  "clean c \<longleftrightarrow> ReadError \<notin> set (journal_lines c)"

lemma clean_remove_file: "af_name f \<noteq> journal_name \<Longrightarrow> clean (remove_file f c) = clean c"
  by (simp add: clean_def journal_lines_def remove_file_def sc_laws)

lemma clean_write_file: "af_name f \<noteq> journal_name \<Longrightarrow> clean (write_file cd f ts c) = clean c"
  by (simp add: clean_def journal_lines_def write_file_def sc_laws)

lemma archive_path_not_journal [simp]: "archive_path t b \<noteq> journal_name"
  by (simp add: archive_path_def journal_name_def)

definition no_journal :: "archive_file list \<Rightarrow> bool" where
  "no_journal fs \<longleftrightarrow> list_all (\<lambda>f. af_name f \<noteq> journal_name) fs"

lemma no_journal_files: "no_journal (archive_files_with_dupes dir)"
proof -
  have "parse_archive_filename n = Some f \<Longrightarrow> af_name f = n" for n f
    by (auto simp: parse_archive_filename_def split: option.splits)
  then have "af_name f \<noteq> journal_name" if "f \<in> set (archive_files_with_dupes dir)" for f
    using that file_order.set_sort_by
    by (auto simp: archive_files_with_dupes_def List.map_filter_def)
  then show ?thesis by (simp add: no_journal_def list_all_iff)
qed

lemma clean_drop_dupes:
  "drop_dupes seen fs c = (fs', c') \<Longrightarrow> no_journal fs \<Longrightarrow> clean c \<Longrightarrow> clean c' \<and> no_journal fs'"
  by (induction seen fs c arbitrary: fs' rule: drop_dupes.induct)
    (auto simp: no_journal_def clean_remove_file split: if_splits prod.splits)

lemma clean_trim_files:
  "trim_files m fs c = (fs', c') \<Longrightarrow> no_journal fs \<Longrightarrow> clean c \<Longrightarrow> clean c' \<and> no_journal fs'"
proof (induction m fs c rule: trim_files.induct)
  case (1 m fs c)
  show ?case
  proof (cases "m < length fs")
    case True
    then have "fs \<noteq> []" by auto
    with "1.prems"(2) have "no_journal (butlast fs)" "af_name (last fs) \<noteq> journal_name"
      by (auto simp: no_journal_def list_all_iff dest: in_set_butlastD)
    then show ?thesis using "1.IH" [OF True] "1.prems" trim_files.simps [of m fs c] True by (simp add: clean_remove_file)
  qed (use "1.prems" trim_files.simps [of m fs c] in simp)
qed

lemma clean_compress_files:
  "compress_files cd fs c = Inr (cor, c') \<Longrightarrow> no_journal fs \<Longrightarrow> clean c \<Longrightarrow> clean c'"
proof (induction cd fs c arbitrary: cor rule: compress_files.induct)
  case (2 cd f fs c)
  then show ?case
    by (auto simp: and_then_Inr_iff compress_archive_file_def Let_def no_journal_def clean_remove_file clean_write_file
        set_compressed_def split: if_splits option.splits prod.splits)
qed simp

lemma clean_repair [simp]: "clean (request_repair cor c) = clean c"
  by (cases cor) (simp_all add: clean_def journal_lines_def request_repair_def Let_def write_state_def)

lemma clean_apply_journal: "apply_journal cd c = Inr c' \<Longrightarrow> clean c \<Longrightarrow> clean c'"
proof (cases "sc_get (c_dir c) journal_name")
  case (Some ls)
  assume "apply_journal cd c = Inr c'"
  moreover from apply_journal_effect [OF Some, of cd] obtain c1 cor where
    "apply_journal cd c = Inr (if cor \<noteq> [] then request_repair cor c1 else c1)" "sc_get (c_dir c1) journal_name = Some []"
    unfolding Let_def by blast
  ultimately show ?thesis by (auto simp: clean_def [of c1] journal_lines_def)
qed (simp add: apply_journal_def)

lemma rotate_clean:
  assumes "rotate_archive cd cfg now c = Inr (b, c')" and "clean c"
  shows "clean c'"
proof -
  obtain fs c1 where d: "drop_dupes {} (archive_files_with_dupes (c_dir c)) c = (fs, c1)" by fastforce
  note d1 = clean_drop_dupes [OF d no_journal_files assms(2)]
  obtain fs2 c2 where s: "(if needs_rotation cfg now fs then start_new_file cd cfg now fs c1 else Inr (fs, c1)) = Inr (fs2, c2)"
    using assms d by (auto simp: rotate_archive_def Let_def and_then_Inr_iff)
  have s1: "clean c2 \<and> no_journal fs2"
    using s d1 clean_apply_journal [of cd _ c2]
    by (auto simp: start_new_file_def new_file_def Let_def and_then_Inr_iff no_journal_def clean_write_file split: if_splits)
  obtain fs3 c3 where t: "trim_files (cfg_max_files cfg) fs2 c2 = (fs3, c3)" by fastforce
  obtain cor c4 where k: "compress_files cd (drop (cfg_uncompressed_files cfg) fs3) c3 = Inr (cor, c4)"
    and c': "c' = (if cor \<noteq> [] then request_repair cor c4 else c4)"
    using assms d s t by (auto simp: rotate_archive_def Let_def and_then_Inr_iff)
  have t1: "clean c3" "no_journal fs3" using clean_trim_files [OF t] s1 by auto
  then have "no_journal (drop (cfg_uncompressed_files cfg) fs3)" by (auto simp: no_journal_def list_all_iff dest: in_set_dropD)
  then have "clean c4" using clean_compress_files [OF k] t1(1) by blast
  then show ?thesis unfolding c' by simp
qed

section \<open>Fetching with a finished run\<close>

definition config_ok :: "remote section_config \<Rightarrow> bool" where
  "config_ok config \<longleftrightarrow> sc_wf config \<and> (\<forall>(name, r) \<in> set config. r_id r = name)"

definition fetch_targets :: "'e live \<Rightarrow> remote \<Rightarrow> string list" where
  "fetch_targets lv r =
     (if r_ty r = Remote_Pbs then [''localhost''] else case lv_list_nodes lv r of Inl _ \<Rightarrow> [] | Inr nodes \<Rightarrow> nodes)"

definition completes :: "'e live \<Rightarrow> 'e fetch_run \<Rightarrow> remote section_config \<Rightarrow> bool" where
  "completes lv run config \<longleftrightarrow>
     (\<forall>P func. let remotes = map snd (filter P config) in
        (fetch_step task_fetcher (lv_list_nodes lv) func)\<^sup>*\<^sup>* (do_for_all_remote_nodes remotes) (run remotes func)
        \<and> list_all job_done (run remotes func))"

lemma get_remote_response_in: "get_remote_response rs rmt = Some x \<Longrightarrow> x \<in> set rs \<and> rs_remote_name x = rmt"
  by (auto simp: get_remote_response_def dest!: search_between_Some)

lemma fetch_remotes_collects:
  assumes ok: "config_ok config" and run: "completes lv run config"
    and r: "r \<in> snd ` set (filter P config)" and nod: "nod \<in> set (fetch_targets lv r)"
    and ts: "fetch_tasks_from_single_node lv st r nod = Inr ts"
  shows "set ts \<subseteq> set (fst (fetch_remotes run lv (map snd (filter P config)) st))
    \<and> node_successful (snd (fetch_remotes run lv (map snd (filter P config)) st)) (r_id r) nod"
proof -
  let ?rs = "map snd (filter P config)" and ?func = "fetch_tasks_from_single_node lv st"
  have "distinct (map fst (filter P config))"
    using ok by (simp add: config_ok_def sc_wf_def distinct_map_filter)
  moreover have "map r_id ?rs = map fst (filter P config)"
    unfolding map_map comp_def by (rule map_cong) (use ok in \<open>auto simp: config_ok_def\<close>)
  ultimately have dist: "distinct (map r_id ?rs)" by (simp only:)
  have r': "r \<in> set ?rs" using r by simp
  have "(fetch_step task_fetcher (lv_list_nodes lv) ?func)\<^sup>*\<^sup>* (do_for_all_remote_nodes ?rs) (run ?rs ?func)"
    "list_all job_done (run ?rs ?func)"
    using run unfolding completes_def Let_def by blast+
  from finished_response [OF dist r' this] obtain x where
    x: "get_remote_response (fetcher_response (run ?rs ?func)) (r_id r) = Some x"
      "case (if r_ty r = Remote_Pbs then Inr [''localhost''] else lv_list_nodes lv r) of
         Inl err \<Rightarrow> rs_response x = Inl err
       | Inr nodes \<Rightarrow> (\<exists>answers. rs_response x = Inr answers \<and> mset answers = mset (map (answer ?func r) nodes))"
    by blast
  obtain nodes where nodes: "(if r_ty r = Remote_Pbs then Inr [''localhost''] else lv_list_nodes lv r) = Inr nodes" "nod \<in> set nodes"
    using nod by (cases "lv_list_nodes lv r") (auto simp: fetch_targets_def split: if_splits)
  with x(2) obtain answers where ans: "rs_response x = Inr answers" "mset answers = mset (map (answer ?func r) nodes)" by auto
  then have "set answers = answer ?func r ` set nodes" using mset_eq_setD by fastforce
  then have nr: "answer ?func r nod \<in> set answers" "nr_data (answer ?func r nod) = Inr ts" "nr_node_name (answer ?func r nod) = nod"
    using nodes(2) ts by (auto simp: answer_def)
  have "x \<in> set (fetcher_response (run ?rs ?func))" "rs_remote_name x = r_id r" using get_remote_response_in [OF x(1)] by auto
  with ans(1) nr show ?thesis unfolding fetch_remotes_def collect_remotes subset_iff by blast
qed

section \<open>Ticks\<close>

text \<open>A state that any change of the maintenance keeps, and that other tasks must not break.\<close>

definition awaits :: "'e live \<Rightarrow> task_cache_item \<Rightarrow> string \<Rightarrow> 'l cache \<Rightarrow> bool" where
  "awaits lv t nod c \<longleftrightarrow> ti_upid t \<in> ts_tracked_tasks (read_state c) \<and> clean c
     \<and> fetch_since lv (read_state c) (ru_remote (ti_upid t)) nod \<le> ti_starttime t"

lemma awaits_keeps: "awaits lv t nod c \<Longrightarrow> keeps_state c c' \<Longrightarrow> clean c' \<Longrightarrow> awaits lv t nod c'"
  using keeps_state_since [of c c' lv "ru_remote (ti_upid t)" nod] by (auto simp: awaits_def keeps_state_def)

lemma tick_rotate_awaits:
  assumes "sc_wf (c_dir c)" and "i64_range (align_timestamp (lv_epoch (tk_live env)) ROTATE_AFTER)" and "awaits lv t nod c"
  obtains ts' c' where "tick_rotate env ts c = (None, ts', c')" "awaits lv t nod c'"
proof (cases "is_due_for_rotate_check (tk_clock env Rotate_Due) ts")
  case True
  from rotate_files [OF assms(1,2), of "tk_codec env" get_cache] obtain b c' where
    rot: "rotate_archive (tk_codec env) get_cache (align_timestamp (lv_epoch (tk_live env)) ROTATE_AFTER) c = Inr (b, c')"
    by blast
  have "awaits lv t nod c'"
    using awaits_keeps [OF assms(3) rotate_keeps_state [OF rot]] rotate_clean [OF rot] assms(3) by (simp add: awaits_def)
  with rot True that show ?thesis by (simp add: tick_rotate_def Let_def)
qed (use assms that in \<open>simp add: tick_rotate_def\<close>)

lemma tick_journal_awaits:
  assumes "awaits lv t nod c"
  obtains ts' c' where "tick_journal env ts c = (None, ts', c')" "awaits lv t nod c'"
proof (cases "is_due_for_journal_apply (tk_clock env Journal_Due) ts")
  case True
  obtain c' where ap: "apply_journal (tk_codec env) c = Inr c'" using apply_journal_total by blast
  have "awaits lv t nod c'"
    using awaits_keeps [OF assms apply_journal_keeps_state [OF ap]] clean_apply_journal [OF ap] assms by (simp add: awaits_def)
  with ap True that show ?thesis by (simp add: tick_journal_def)
qed (use assms that in \<open>simp add: tick_journal_def\<close>)

lemma tick_remotes_filter:
  "\<exists>P. fst (tick_remotes env config pr ts) = map snd (filter P config)
     \<and> (\<forall>u r. (u, Poll_Finished) \<in> pr \<longrightarrow> P (ru_remote u, r))"
proof (cases "is_due_for_fetch (tk_clock env Fetch_Due) ts")
  case True then show ?thesis
    by (intro exI [of _ "\<lambda>_. True"]) (simp add: tick_remotes_def get_all_remotes_def)
next
  case False then show ?thesis
    by (intro exI [of _ "\<lambda>(name, r). name \<in> ru_remote ` fst ` {p \<in> pr. snd p = Poll_Finished}"])
      (force simp: tick_remotes_def get_remotes_with_finished_tasks_def)
qed

lemma collect_settles:
  assumes cd: "codec_ok (tk_codec env)" and ok: "config_ok config" and run: "completes (tk_live env) (tk_run env) config"
    and r: "sc_get config (ru_remote (ti_upid t)) = Some r"
    and polled: "poll_single_tracked_task (tk_upids env) (tk_live env) r (ti_upid t) = (ti_upid t, Poll_Finished)"
    and nod: "nod \<in> set (fetch_targets (tk_live env) r)"
    and t: "ti_endtime t \<noteq> None" "task_node (tk_upids env) t \<noteq> None"
    and reported: "\<And>st. fetch_since (tk_live env) st (r_id r) nod \<le> ti_starttime t \<Longrightarrow>
      \<exists>ts. fetch_tasks_from_single_node (tk_live env) st r nod = Inr ts \<and> t \<in> set ts"
    and others: "\<And>g c. awaits (tk_live env) t nod c \<Longrightarrow> awaits (tk_live env) t nod (tk_others env g c)"
    and c: "awaits (tk_live env) t nod c"
  shows "\<exists>ts' c'. tick_collect env config ts c = (None, ts', c')
    \<and> ti_upid t \<notin> ts_tracked_tasks (read_state c')
    \<and> ti_upid t \<notin> ti_upid ` set (cached_active (tk_codec env) c')
    \<and> ((\<exists>f \<in> set (archive_files (c_dir c')). af_starttime f \<le> ti_starttime t) \<longrightarrow> task_key t \<in> recorded (tk_codec env) c')"
proof -
  let ?lv = "tk_live env" and ?st = "read_state c"
  obtain c1 c2 where c1: "c1 = tk_others env Before_Active c" and c2: "c2 = tk_others env Before_Update c1" by simp
  obtain pr ts1 where pr: "tick_poll env config ts ?st c1 = (pr, ts1)" by fastforce
  obtain rs ts2 where rs: "tick_remotes env config pr ts1 = (rs, ts2)" by fastforce
  obtain all succ where all: "fetch_remotes (tk_run env) ?lv rs ?st = (all, succ)" by fastforce
  have id: "r_id r = ru_remote (ti_upid t)" and mem: "(ru_remote (ti_upid t), r) \<in> set config"
    using r ok by (auto simp: config_ok_def sc_get_def dest: map_of_SomeD)
  have "ti_upid t \<in> tasks_to_poll env ts ?st c1" using c by (auto simp: tasks_to_poll_def awaits_def)
  then have fin: "(ti_upid t, Poll_Finished) \<in> pr"
    using pr r polled by (force simp: tick_poll_def poll_tracked_tasks_def)
  obtain P where P: "rs = map snd (filter P config)" "P (ru_remote (ti_upid t), r)"
    using tick_remotes_filter [of env config pr ts1] rs fin by auto
  have "r \<in> snd ` set (filter P config)" using P(2) mem by force
  moreover obtain nts where nts: "fetch_tasks_from_single_node ?lv ?st r nod = Inr nts" "t \<in> set nts"
    using reported [of ?st] c id by (auto simp: awaits_def)
  ultimately have new: "t \<in> set all"
    using fetch_remotes_collects [OF ok run _ nod nts(1), of P] all P(1) by auto
  have need: "needs_update all pr" using new by (auto simp: needs_update_def)
  let ?drop = "fst ` {p \<in> pr. snd p \<noteq> Poll_Running}"
  obtain c' where up: "update (tk_upids env) (tk_codec env) get_cache all succ ?drop c2 = Inr c'"
    using update_total [OF cd] by blast
  have "clean c2" using others c c1 c2 by (auto simp: awaits_def)
  then have rec: "archive_files (c_dir c') = archive_files (c_dir c2)"
      "{k \<in> recorded (tk_codec env) c2 \<union> task_key ` {t \<in> set all. ti_endtime t \<noteq> None \<and> task_node (tk_upids env) t \<noteq> None}.
          \<exists>f \<in> set (archive_files (c_dir c2)). af_starttime f \<le> - fst k} \<subseteq> recorded (tk_codec env) c'"
    using update_recorded [OF cd _ up] by (auto simp: clean_def)
  have "tick_collect env config ts c = (None, ts2, c')"
    using pr rs all need up c1 c2 by (simp add: tick_collect_def Let_def update_task_cache_def)
  moreover have "ti_upid t \<in> ?drop" using fin by force
  moreover have "task_key t \<in> recorded (tk_codec env) c'"
    if "\<exists>f \<in> set (archive_files (c_dir c')). af_starttime f \<le> ti_starttime t"
  proof (rule subsetD [OF rec(2)], intro CollectI conjI)
    show "task_key t \<in> recorded (tk_codec env) c2
        \<union> task_key ` {t \<in> set all. ti_endtime t \<noteq> None \<and> task_node (tk_upids env) t \<noteq> None}"
      using new t by blast
    show "\<exists>f \<in> set (archive_files (c_dir c2)). af_starttime f \<le> - fst (task_key t)"
      using that unfolding rec(1) by (simp add: task_key_def)
  qed
  ultimately show ?thesis
    using update_effect [OF cd up] new t(1) by (intro exI [of _ ts2] exI [of _ c']) auto
qed

text \<open>A tracked task is settled by the tick whatever other processes do to the cache in between, as long as they leave the task
  tracked, the journal readable and the fetch cutoff of its node not later than its start.\<close>

theorem tick_settles_if_kept:
  assumes "codec_ok (tk_codec env)" and "sc_wf (c_dir c)"
    and "i64_range (align_timestamp (lv_epoch (tk_live env)) ROTATE_AFTER)"
    and "tk_config env = Inr config" and "config_ok config" and "completes (tk_live env) (tk_run env) config"
    and "sc_get config (ru_remote (ti_upid t)) = Some r"
    and "poll_single_tracked_task (tk_upids env) (tk_live env) r (ti_upid t) = (ti_upid t, Poll_Finished)"
    and "nod \<in> set (fetch_targets (tk_live env) r)"
    and "ti_endtime t \<noteq> None" and "task_node (tk_upids env) t \<noteq> None"
    and "\<And>st. fetch_since (tk_live env) st (r_id r) nod \<le> ti_starttime t \<Longrightarrow>
      \<exists>ts. fetch_tasks_from_single_node (tk_live env) st r nod = Inr ts \<and> t \<in> set ts"
    and others: "\<And>g c. awaits (tk_live env) t nod c \<Longrightarrow> awaits (tk_live env) t nod (tk_others env g c)"
    and c: "awaits (tk_live env) t nod c"
  shows "\<exists>ts' c'. handle_timer_tick env ts c = (None, ts', c')
    \<and> ti_upid t \<notin> ts_tracked_tasks (read_state c')
    \<and> ti_upid t \<notin> ti_upid ` set (cached_active (tk_codec env) c')
    \<and> ((\<exists>f \<in> set (archive_files (c_dir c')). af_starttime f \<le> ti_starttime t) \<longrightarrow> task_key t \<in> recorded (tk_codec env) c')"
proof -
  obtain ts1 c1 where 1: "tick_rotate env ts c = (None, ts1, c1)" "awaits (tk_live env) t nod c1"
    using tick_rotate_awaits [OF assms(2,3) c] .
  obtain ts2 c2 where 2: "tick_journal env ts1 (tk_others env Before_Journal c1) = (None, ts2, c2)"
      "awaits (tk_live env) t nod c2"
    using tick_journal_awaits [OF others [OF 1(2)]] .
  have "handle_timer_tick env ts c = tick_collect env config ts2 (tk_others env Before_State c2)"
    using 1(1) 2(1) assms(4) by (simp add: handle_timer_tick_def)
  then show ?thesis using collect_settles [OF assms(1,5-13) others [OF 2(2)], of ts2] by simp
qed

text \<open>What other processes do with the cache beside the refresh of a remote on demand: they register the tasks they started,
  one call of \<open>track_running_task\<close> for each.\<close>

definition track_call :: "('p, 'q) upid_env \<Rightarrow> 'l codec \<Rightarrow> string \<times> string \<times> i64 \<Rightarrow> 'l cache \<Rightarrow> 'l cache" where
  "track_call ue cd call c =
     (case call of (rmt, upid, start) \<Rightarrow>
        (case track_running_task ue cd rmt upid start c of Inl _ \<Rightarrow> c | Inr (_, c') \<Rightarrow> c'))"

lemma awaits_add_tracked_task: "awaits lv t nod c \<Longrightarrow> awaits lv t nod (add_tracked_task cd u c)"
  by (simp add: awaits_def add_tracked_task_def Let_def write_active_tasks_def write_file_def write_state_def read_state_def
      state_add_tracked_task_def clean_def journal_lines_def sc_laws active_file_def journal_name_def fetch_since_def
      cutoff_timestamp_def)

lemma awaits_track_call: "awaits lv t nod c \<Longrightarrow> awaits lv t nod (track_call ue cd call c)"
  by (simp add: track_call_def track_running_task_def awaits_add_tracked_task split: sum.split prod.split)

lemma awaits_track_calls: "awaits lv t nod c \<Longrightarrow> awaits lv t nod (fold (track_call ue cd) calls c)"
  by (induction calls arbitrary: c) (simp_all add: awaits_track_call)

text \<open>C21. A task is settled by the next tick after it ended. Given that the task is tracked, the journal is readable and the fetch
  cutoff of its node is not later than its start, that its remote is configured, its status request says it has ended and
  the node lists it to whoever asks for tasks since its start, and that the parallel fetch runs to its end, that remotes are
  configured under distinct ids and written tasks can be read back, the tick
  succeeds, the task is neither tracked nor in the active file any more, and an entry with its start time and id is in the
  journal or the archive unless it is older than every archive file. Rotation and journal application by the tick are
  included, and other processes may register any tasks they started between its steps; a refresh on demand running beside
  the tick is not covered.\<close>

theorem tick_settles:
  assumes "codec_ok (tk_codec env)" and "sc_wf (c_dir c)"
    and "i64_range (align_timestamp (lv_epoch (tk_live env)) ROTATE_AFTER)"
    and "tk_config env = Inr config" and "config_ok config" and "completes (tk_live env) (tk_run env) config"
    and "sc_get config (ru_remote (ti_upid t)) = Some r"
    and "poll_single_tracked_task (tk_upids env) (tk_live env) r (ti_upid t) = (ti_upid t, Poll_Finished)"
    and "nod \<in> set (fetch_targets (tk_live env) r)"
    and "ti_endtime t \<noteq> None" and "task_node (tk_upids env) t \<noteq> None"
    and "\<And>st. fetch_since (tk_live env) st (r_id r) nod \<le> ti_starttime t \<Longrightarrow>
      \<exists>ts. fetch_tasks_from_single_node (tk_live env) st r nod = Inr ts \<and> t \<in> set ts"
    and others: "\<And>g c. tk_others env g c = fold (track_call (tk_upids env) (tk_codec env)) (calls g) c"
    and tracked: "ti_upid t \<in> ts_tracked_tasks (read_state c)"
    and journal: "ReadError \<notin> set (journal_lines c)"
    and cutoff: "fetch_since (tk_live env) (read_state c) (ru_remote (ti_upid t)) nod \<le> ti_starttime t"
  shows "\<exists>ts' c'. handle_timer_tick env ts c = (None, ts', c')
    \<and> ti_upid t \<notin> ts_tracked_tasks (read_state c')
    \<and> ti_upid t \<notin> ti_upid ` set (cached_active (tk_codec env) c')
    \<and> ((\<exists>f \<in> set (archive_files (c_dir c')). af_starttime f \<le> ti_starttime t) \<longrightarrow>
         (\<exists>e \<in> set (readable (archive_iter (tk_codec env) (journal_lines c'))) \<union> set (archived (tk_codec env) (c_dir c')).
            ti_starttime e = ti_starttime t \<and> upid_display (ti_upid e) = upid_display (ti_upid t)))"
proof -
  have "awaits (tk_live env) t nod c" using tracked journal cutoff by (simp add: awaits_def clean_def)
  moreover have "awaits (tk_live env) t nod (tk_others env g c)" if "awaits (tk_live env) t nod c" for g c
    using awaits_track_calls [OF that] by (simp only: others)
  ultimately obtain ts' c' where run: "handle_timer_tick env ts c = (None, ts', c')"
    "ti_upid t \<notin> ts_tracked_tasks (read_state c')" "ti_upid t \<notin> ti_upid ` set (cached_active (tk_codec env) c')"
    and rec: "(\<exists>f \<in> set (archive_files (c_dir c')). af_starttime f \<le> ti_starttime t) \<Longrightarrow> task_key t \<in> recorded (tk_codec env) c'"
    using tick_settles_if_kept [OF assms(1-12), of ts] by blast
  have "\<exists>e \<in> set (readable (archive_iter (tk_codec env) (journal_lines c'))) \<union> set (archived (tk_codec env) (c_dir c')).
      ti_starttime e = ti_starttime t \<and> upid_display (ti_upid e) = upid_display (ti_upid t)"
    if "\<exists>f \<in> set (archive_files (c_dir c')). af_starttime f \<le> ti_starttime t"
  proof -
    from rec [OF that] obtain e where "task_key t = task_key e"
      "e \<in> set (readable (archive_iter (tk_codec env) (journal_lines c'))) \<union> set (archived (tk_codec env) (c_dir c'))"
      unfolding recorded_def by blast
    then show ?thesis by (intro bexI [of _ e]) (simp_all add: task_key_def)
  qed
  with run show ?thesis by blast
qed

section \<open>What a tick drops\<close>

lemma tick_collect_cases:
  assumes "codec_ok (tk_codec env)"
  obtains pr all succ ts1 ts' c' where
    "tick_collect env config ts c = (None, ts', c')"
    "tick_poll env config ts (read_state c) (tk_others env Before_Active c) = (pr, ts1)"
    "fetch_remotes (tk_run env) (tk_live env) (fst (tick_remotes env config pr ts1)) (read_state c) = (all, succ)"
    "if needs_update all pr
     then update (tk_upids env) (tk_codec env) get_cache all succ (fst ` {p \<in> pr. snd p \<noteq> Poll_Running})
            (tk_others env Before_Update (tk_others env Before_Active c)) = Inr c'
     else c' = tk_others env Before_Update (tk_others env Before_Active c)"
proof -
  let ?c1 = "tk_others env Before_Active c"
  let ?c2 = "tk_others env Before_Update ?c1"
  obtain pr ts1 where pr: "tick_poll env config ts (read_state c) ?c1 = (pr, ts1)" by fastforce
  obtain rs ts2 where rs: "tick_remotes env config pr ts1 = (rs, ts2)" by fastforce
  obtain all succ where all: "fetch_remotes (tk_run env) (tk_live env) rs (read_state c) = (all, succ)" by fastforce
  let ?up = "update (tk_upids env) (tk_codec env) get_cache all succ (fst ` {p \<in> pr. snd p \<noteq> Poll_Running}) ?c2"
  obtain c' where up: "?up = Inr c'" using update_total [OF assms] by blast
  note unf = tick_collect_def Let_def update_task_cache_def pr rs all up
  show ?thesis
  proof (cases "needs_update all pr")
    case True
    then have "tick_collect env config ts c = (None, ts2, c')" by (simp add: unf)
    then show ?thesis using that [of ts2 c' pr ts1 all succ] pr rs all up True by simp
  next
    case False
    then have "tick_collect env config ts c = (None, ts2, ?c2)" by (simp add: unf)
    then show ?thesis using that [of ts2 ?c2 pr ts1 all succ] pr rs all False by simp
  qed
qed

text \<open>A tick forgets nothing it should keep: every task that is no longer tracked afterwards was polled in this tick and
  found finished, gone or failing, so a task that was tracked meanwhile stays, and what leaves the active file was
  polled that way or reported as ended by a configured remote.\<close>

theorem tick_drops_only_settled:
  assumes "codec_ok (tk_codec env)"
  shows "\<exists>ts' c' all succ.
    let before = tk_others env Before_Update (tk_others env Before_Active c);
        results = poll_tracked_tasks (tk_upids env) (tk_live env) config
          (tasks_to_poll env ts (read_state c) (tk_others env Before_Active c));
        settled = {u. \<exists>res. (u, res) \<in> results \<and> res \<noteq> Poll_Running}
    in tick_collect env config ts c = (None, ts', c')
      \<and> (\<exists>remotes. fetch_remotes (tk_run env) (tk_live env) remotes (read_state c) = (all, succ)
            \<and> set remotes \<subseteq> snd ` set config)
      \<and> ts_tracked_tasks (read_state c') \<subseteq> ts_tracked_tasks (read_state before)
      \<and> ts_tracked_tasks (read_state before) - ts_tracked_tasks (read_state c') \<subseteq> settled
      \<and> ti_upid ` set (cached_active (tk_codec env) before) - ti_upid ` set (cached_active (tk_codec env) c')
          \<subseteq> settled \<union> ti_upid ` {t \<in> set all. ti_endtime t \<noteq> None}"
proof -
  let ?before = "tk_others env Before_Update (tk_others env Before_Active c)"
  obtain pr all succ ts1 ts' c' where
    run: "tick_collect env config ts c = (None, ts', c')"
    and pr: "tick_poll env config ts (read_state c) (tk_others env Before_Active c) = (pr, ts1)"
    and all: "fetch_remotes (tk_run env) (tk_live env) (fst (tick_remotes env config pr ts1)) (read_state c) = (all, succ)"
    and up: "if needs_update all pr
     then update (tk_upids env) (tk_codec env) get_cache all succ (fst ` {p \<in> pr. snd p \<noteq> Poll_Running}) ?before = Inr c'
     else c' = ?before" by (rule tick_collect_cases [OF assms, of config ts c])
  have res: "poll_tracked_tasks (tk_upids env) (tk_live env) config
      (tasks_to_poll env ts (read_state c) (tk_others env Before_Active c)) = pr"
    using pr by (simp add: tick_poll_def)
  have settled: "fst ` {p \<in> pr. snd p \<noteq> Poll_Running} = {u. \<exists>res. (u, res) \<in> pr \<and> res \<noteq> Poll_Running}" by force
  have sub: "set (fst (tick_remotes env config pr ts1)) \<subseteq> snd ` set config"
    using tick_remotes_filter [of env config pr ts1] by auto
  show ?thesis
  proof (cases "needs_update all pr")
    case True
    with up have "update (tk_upids env) (tk_codec env) get_cache all succ (fst ` {p \<in> pr. snd p \<noteq> Poll_Running}) ?before = Inr c'"
      by simp
    note eff = update_effect [OF assms this, unfolded settled]
    have tracked: "ts_tracked_tasks (read_state c') = ts_tracked_tasks (read_state ?before)
        - {u. \<exists>res. (u, res) \<in> pr \<and> res \<noteq> Poll_Running}" using eff by (elim conjE)
    have active: "ti_upid ` set (cached_active (tk_codec env) c') =
        (ti_upid ` set (cached_active (tk_codec env) ?before) - {u. \<exists>res. (u, res) \<in> pr \<and> res \<noteq> Poll_Running}
          \<union> ti_upid ` {t \<in> set all. ti_endtime t = None}) - ti_upid ` {t \<in> set all. ti_endtime t \<noteq> None}"
      using eff by (elim conjE)
    have "ts_tracked_tasks (read_state c') \<subseteq> ts_tracked_tasks (read_state ?before)"
      "ts_tracked_tasks (read_state ?before) - ts_tracked_tasks (read_state c')
        \<subseteq> {u. \<exists>res. (u, res) \<in> pr \<and> res \<noteq> Poll_Running}" unfolding tracked by blast+
    moreover have "ti_upid ` set (cached_active (tk_codec env) ?before) - ti_upid ` set (cached_active (tk_codec env) c')
        \<subseteq> {u. \<exists>res. (u, res) \<in> pr \<and> res \<noteq> Poll_Running} \<union> ti_upid ` {t \<in> set all. ti_endtime t \<noteq> None}"
      unfolding active by blast
    ultimately show ?thesis unfolding Let_def res using run all sub by (intro exI conjI)
  next
    case False
    then show ?thesis unfolding Let_def res using run all sub up
      by (intro exI [of _ ts'] exI [of _ c'] exI [of _ all] exI [of _ succ] conjI) (assumption | blast | simp)+
  qed
qed

section \<open>A tick\<close>

definition ex_pbs :: remote where
  "ex_pbs = \<lparr>r_ty = Remote_Pbs, r_id = ''r1'', r_nodes = [''a''], r_authid = [], r_token = [], r_web_url = None\<rparr>"

definition ex_finished :: task_cache_item where
  "ex_finished = ex_task ''n#1'' 400000 (Some 400001)"

definition ex_answers :: "unit live" where
  "ex_answers = \<lparr>lv_config = Inr [(''r1'', ex_pbs)], lv_pve_status = (\<lambda>_ _ _. Inl ()), lv_pbs_status = (\<lambda>_ _. Inr True),
     lv_list_nodes = (\<lambda>_. Inl ()), lv_pve_tasks = (\<lambda>_ _ _ _. Inl ()),
     lv_pbs_tasks = (\<lambda>_ _ _. Inr [\<lparr>lt_upid = ''n#1'', lt_starttime = 400000, lt_endtime = Some 400001, lt_status = None\<rparr>]),
     lv_epoch = 1000000\<rparr>"

definition ex_fetch_run :: "unit fetch_run" where
  "ex_fetch_run remotes func = map (\<lambda>r. \<lparr>j_remote = r, j_single = False, j_phase = Finished, j_running = [],
     j_responses = [answer func r ''localhost'']\<rparr>) remotes"

definition ex_tick :: "(string, string, task_cache_item, unit) tick_env" where
  "ex_tick = \<lparr>tk_upids = ex_upid_env, tk_codec = ex_codec, tk_live = ex_answers, tk_run = ex_fetch_run, tk_clock = (\<lambda>_. 0),
     tk_others = (\<lambda>_ c. c), tk_config = Inr [(''r1'', ex_pbs)]\<rparr>"

definition ex_timer :: timer_state where
  "ex_timer = \<lparr>last_rotate_check = 0, last_fetch = 0, last_journal_apply = 0, last_active_poll = 0\<rparr>"

definition ex_tracking :: "task_cache_item cache" where
  "ex_tracking = write_state (state_add_tracked_task (ti_upid ex_finished) default_state) (ex_cache [] [] [])"

lemma ex_pbs_run:
  "(fetch_step task_fetcher list_nodes func)\<^sup>*\<^sup>* (do_for_all_remote_nodes [ex_pbs]) (ex_fetch_run [ex_pbs] func)"
proof -
  let ?j = "\<lambda>p run resp. \<lparr>j_remote = ex_pbs, j_single = False, j_phase = p, j_running = run, j_responses = resp\<rparr>"
  let ?S = "fetch_step task_fetcher list_nodes func"
  note ex = task_fetcher_def fetcher_build_def MAX_CONNECTIONS_def held_def permits_def
  have step: "?S [j] [j']" if "job_step task_fetcher list_nodes func (held [j] < f_max_connections task_fetcher) j j'" for j j'
    using fetch_step.Step [of 0 "[j]" task_fetcher list_nodes func j'] that by simp
  have 1: "?S [?j Waiting [] []] [?j (Spawning [] False) [''localhost''] []]"
    using job_step.Acquire_Single [of "?j Waiting [] []"] by (intro step) (simp add: ex one_request_def ex_pbs_def)
  have 2: "?S [?j (Spawning [] False) [''localhost''] []] [?j (Spawning [] False) [] [answer func ex_pbs ''localhost'']]"
    using job_step.Answered [of "''localhost''" "?j (Spawning [] False) [''localhost''] []"] by (intro step) simp
  have 3: "?S [?j (Spawning [] False) [] [answer func ex_pbs ''localhost'']] [?j Finished [] [answer func ex_pbs ''localhost'']]"
    using job_step.Joined [of "?j (Spawning [] False) [] [answer func ex_pbs ''localhost'']" False] by (intro step) simp
  have "?S\<^sup>*\<^sup>* [?j Waiting [] []] [?j Finished [] [answer func ex_pbs ''localhost'']]"
    using 1 2 3 by (meson converse_rtranclp_into_rtranclp rtranclp.rtrancl_refl)
  then show ?thesis by (simp add: do_for_all_remote_nodes_def new_job_def ex_fetch_run_def)
qed

lemma ex_completes: "completes ex_answers ex_fetch_run [(''r1'', ex_pbs)]"
  unfolding completes_def Let_def
proof (intro allI conjI)
  fix P func
  show "(fetch_step task_fetcher (lv_list_nodes ex_answers) func)\<^sup>*\<^sup>* (do_for_all_remote_nodes (map snd (filter P [(''r1'', ex_pbs)])))
      (ex_fetch_run (map snd (filter P [(''r1'', ex_pbs)])) func)"
    using ex_pbs_run by (cases "P (''r1'', ex_pbs)") (simp_all add: do_for_all_remote_nodes_def ex_fetch_run_def)
  show "list_all job_done (ex_fetch_run (map snd (filter P [(''r1'', ex_pbs)])) func)"
    by (simp add: ex_fetch_run_def list_all_iff job_done_def)
qed

theorem tick_settles_witness:
  "\<exists>ts' c'. handle_timer_tick ex_tick ex_timer ex_tracking = (None, ts', c')
     \<and> ti_upid ex_finished \<notin> ts_tracked_tasks (read_state c')"
proof -
  have upid: "ti_upid ex_finished = \<lparr>ru_remote = ''r1'', ru_remote_type = Remote_Pbs, ru_upid = ''n#1''\<rparr>"
    by (simp add: ex_finished_def ex_task_def)
  have fetch: "fetch_tasks_from_single_node ex_answers st ex_pbs ''localhost'' = Inr [ex_finished]" for st
    by (simp add: fetch_tasks_from_single_node_def ex_answers_def ex_pbs_def map_pbs_task_def ex_finished_def ex_task_def Let_def)
  have polled: "poll_single_tracked_task ex_upid_env ex_answers ex_pbs (ti_upid ex_finished) = (ti_upid ex_finished, Poll_Finished)"
    by (simp add: upid poll_single_tracked_task_def pbs_get_task_status_def verify_upid_def connect_to_remote_by_id_def
        ex_answers_def ex_pbs_def sc_get_def)
  have since: "fetch_since ex_answers (read_state ex_tracking) ''r1'' ''localhost'' \<le> ti_starttime ex_finished"
    by (simp add: fetch_since_def ex_tracking_def read_state_def write_state_def state_add_tracked_task_def default_state_def
        cutoff_timestamp_def ex_answers_def KEEP_OLD_FILES_def ROTATE_AFTER_def ex_finished_def ex_task_def)
  have dir: "c_dir ex_tracking = c_dir (ex_cache [] [] [])" by (simp add: ex_tracking_def write_state_def)
  have journal: "ReadError \<notin> set (journal_lines ex_tracking)" by (simp add: journal_lines_def dir ex_gets)
  have tracked: "ti_upid ex_finished \<in> ts_tracked_tasks (read_state ex_tracking)"
    by (simp add: ex_tracking_def read_state_def write_state_def state_add_tracked_task_def)
  have wf: "sc_wf (c_dir ex_tracking)" by (simp add: dir ex_cache_def sc_wf_def)
  have node: "task_node ex_upid_env ex_finished \<noteq> None"
    by (simp add: task_node_def ex_finished_def ex_task_def parse_native_def ex_upid_env_def)
  have "\<exists>ts' c'. handle_timer_tick ex_tick ex_timer ex_tracking = (None, ts', c')
    \<and> ti_upid ex_finished \<notin> ts_tracked_tasks (read_state c')
    \<and> ti_upid ex_finished \<notin> ti_upid ` set (cached_active (tk_codec ex_tick) c')
    \<and> ((\<exists>f \<in> set (archive_files (c_dir c')). af_starttime f \<le> ti_starttime ex_finished) \<longrightarrow>
         (\<exists>e \<in> set (readable (archive_iter (tk_codec ex_tick) (journal_lines c'))) \<union> set (archived (tk_codec ex_tick) (c_dir c')).
            ti_starttime e = ti_starttime ex_finished \<and> upid_display (ti_upid e) = upid_display (ti_upid ex_finished)))"
  proof (rule tick_settles [where config = "[(''r1'', ex_pbs)]" and r = ex_pbs and nod = "''localhost''" and calls = "\<lambda>_. []"])
    show "i64_range (align_timestamp (lv_epoch (tk_live ex_tick)) ROTATE_AFTER)"
      by (simp add: i64_range_def align_timestamp_def ex_tick_def ex_answers_def ROTATE_AFTER_def)
    show "config_ok [(''r1'', ex_pbs)]" by (simp add: config_ok_def sc_wf_def ex_pbs_def)
    show "\<exists>ts. fetch_tasks_from_single_node (tk_live ex_tick) st ex_pbs ''localhost'' = Inr ts \<and> ex_finished \<in> set ts" for st
      using fetch by (simp add: ex_tick_def)
    show "ti_endtime ex_finished \<noteq> None" by (simp add: ex_finished_def ex_task_def)
    show "''localhost'' \<in> set (fetch_targets (tk_live ex_tick) ex_pbs)" by (simp add: fetch_targets_def ex_pbs_def)
    show "sc_get [(''r1'', ex_pbs)] (ru_remote (ti_upid ex_finished)) = Some ex_pbs" by (simp add: sc_get_def upid)
    show "fetch_since (tk_live ex_tick) (read_state ex_tracking) (ru_remote (ti_upid ex_finished)) ''localhost'' \<le> ti_starttime ex_finished"
      using since by (simp add: ex_tick_def upid)
  qed (use ex_codec_ok wf polled node tracked journal ex_completes in \<open>simp_all add: ex_tick_def\<close>)
  then show ?thesis by blast
qed

theorem tick_drops_only_settled_witness:
  "\<exists>ts' c'. tick_collect ex_tick [(''r1'', ex_pbs)] ex_timer ex_tracking = (None, ts', c')"
proof -
  have "codec_ok (tk_codec ex_tick)" by (simp add: ex_tick_def ex_codec_ok)
  from tick_drops_only_settled [OF this, of ex_tracking "[(''r1'', ex_pbs)]" ex_timer] show ?thesis
    unfolding Let_def by blast
qed

end
