(* ===== verification/Task_List.thy ===== *)
theory Task_List
  imports Task_Refresh_Props Views
begin

text \<open>
  Listing the cached tasks: \<open>server/src/remote_tasks/mod.rs\<close>, \<open>get_tasks\<close>, and the API handlers in
  \<open>server/src/api/remotes/tasks.rs\<close>. The iterators of the sources are lazy, and a file is found to be damaged only when
  the iteration gets there; the number of calls the paging makes and what they read is therefore modelled. The fields of
  a native task id are a parameter.
\<close>

section \<open>Items and filters\<close>

datatype task_state_type = State_OK | State_Warning | State_Error | State_Unknown

definition new_from_str :: "string \<Rightarrow> task_state_type" where
  "new_from_str status =
     (if status = ''unknown'' \<or> status = [] then State_Unknown
      else if status = ''OK'' then State_OK
      else if strip_prefix ''WARNINGS: '' status \<noteq> None then State_Warning
      else State_Error)"

record upid_fields =
  uf_node :: string
  uf_pid :: int
  uf_pstart :: nat
  uf_starttime :: i64
  uf_worker_type :: string
  uf_worker_id :: "string option"
  uf_auth_id :: string

record task_list_item =
  tl_upid :: string
  tl_node :: string
  tl_pid :: int
  tl_pstart :: nat
  tl_starttime :: i64
  tl_worker_type :: string
  tl_worker_id :: "string option"
  tl_user :: string
  tl_endtime :: "i64 option"
  tl_status :: "string option"

record task_filters =
  tf_start :: nat
  tf_limit :: nat
  tf_errors :: bool
  tf_running :: bool
  tf_userfilter :: "string option"
  tf_since :: "i64 option"
  tf_until :: "i64 option"
  tf_typefilter :: "string option"
  tf_statusfilter :: "task_state_type list option"

record ('p, 'q) list_env =
  le_upids :: "('p, 'q) upid_env"
  le_pve_fields :: "'p \<Rightarrow> upid_fields"
  le_pbs_fields :: "'q \<Rightarrow> upid_fields"

text \<open>The first closure: the remote filter, the view or the permission, and the item; a PVE item has no worker id.\<close>

definition task_item ::
  "('p, 'q) list_env \<Rightarrow> string option \<Rightarrow> (string \<Rightarrow> bool) \<Rightarrow> view_config option \<Rightarrow> task_cache_item \<Rightarrow> task_list_item option" where
  "task_item env remote_filter check_privs view t =
     (let rmt = ru_remote (ti_upid t)
      in if (case remote_filter of Some f \<Rightarrow> rmt \<noteq> f | None \<Rightarrow> False) then None
         else case parse_native (le_upids env) (ti_upid t) of
                Inl _ \<Rightarrow> None
              | Inr native \<Rightarrow>
                  let fields = (case native of PveUpid p \<Rightarrow> (le_pve_fields env p)\<lparr>uf_worker_id := None\<rparr>
                                             | PbsUpid q \<Rightarrow> le_pbs_fields env q)
                  in if (case view of Some v \<Rightarrow> \<not> is_node_included v rmt (uf_node fields) | None \<Rightarrow> \<not> check_privs rmt)
                     then None
                     else Some \<lparr>tl_upid = upid_display (ti_upid t), tl_node = uf_node fields, tl_pid = uf_pid fields,
                                tl_pstart = uf_pstart fields, tl_starttime = uf_starttime fields,
                                tl_worker_type = uf_worker_type fields, tl_worker_id = uf_worker_id fields,
                                tl_user = uf_auth_id fields, tl_endtime = ti_endtime t, tl_status = ti_status t\<rparr>)"

definition item_wanted :: "task_filters \<Rightarrow> task_list_item \<Rightarrow> bool" where
  "item_wanted f item =
     (if tf_running f \<and> tl_endtime item \<noteq> None then False
      else if (case tf_until f of Some until \<Rightarrow> until < tl_starttime item | None \<Rightarrow> False) then False
      else if (case tf_since f of Some since \<Rightarrow> tl_starttime item < since | None \<Rightarrow> False) then False
      else if (case tf_userfilter f of Some needle \<Rightarrow> \<not> str_contains (tl_user item) needle | None \<Rightarrow> False) then False
      else if (case tf_typefilter f of Some ty \<Rightarrow> \<not> str_contains (tl_worker_type item) ty | None \<Rightarrow> False) then False
      else let state = map_option new_from_str (tl_status item)
           in if state = Some State_OK \<and> tf_errors f then False
              else (case (state, tf_statusfilter f) of
                      (Some s, Some allowed) \<Rightarrow> s \<in> set allowed
                    | (None, Some _) \<Rightarrow> False
                    | (_, None) \<Rightarrow> True))"

section \<open>Paging over a lazy iterator\<close>

text \<open>
  The number of calls to the iterator under \<open>filter\<close>, \<open>skip\<close> and \<open>take\<close> until \<open>n\<close> accepted items were seen,
  counting the call that finds the end; without a limit (\<open>None\<close>) the iteration runs to the end.
\<close>

fun pulls :: "nat option \<Rightarrow> ('a \<Rightarrow> bool) \<Rightarrow> 'a list \<Rightarrow> nat" where
  "pulls (Some 0) P xs = 0"
| "pulls n P [] = 1"
| "pulls None P (x # xs) = Suc (pulls None P xs)"
| "pulls (Some (Suc n)) P (x # xs) = Suc (pulls (Some (if P x then n else Suc n)) P xs)"

text \<open>What is left of the archive side of the merging iterator before its \<open>k\<close>-th call, which looks at its head.\<close>

fun merge_rest :: "nat \<Rightarrow> task_cache_item list \<Rightarrow> task_cache_item list \<Rightarrow> task_cache_item list" where
  "merge_rest 0 ls rs = rs"
| "merge_rest (Suc k) [] [] = []"
| "merge_rest (Suc k) (l # ls) [] = merge_rest k ls []"
| "merge_rest (Suc k) [] (r # rs) = merge_rest k [] rs"
| "merge_rest (Suc k) (l # ls) (r # rs) =
     (case compare_tasks l r of
        Greater \<Rightarrow> merge_rest k ls (r # rs)
      | Less \<Rightarrow> merge_rest k (l # ls) rs
      | Equal \<Rightarrow> merge_rest k ls rs)"

definition archive_lines ::
  "'l codec \<Rightarrow> 'l directory \<Rightarrow> archive_file list \<Rightarrow> (task_cache_item option \<times> archive_file) list" where
  "archive_lines cd dir files = concat (map (\<lambda>f. map (\<lambda>i. (i, f)) (file_items cd dir f)) (rev files))"

text \<open>The lines read until \<open>n\<close> readable items were delivered, all of them if there are fewer.\<close>

fun lines_read :: "nat \<Rightarrow> (task_cache_item option \<times> archive_file) list \<Rightarrow> (task_cache_item option \<times> archive_file) list" where
  "lines_read 0 ls = []"
| "lines_read (Suc n) [] = []"
| "lines_read (Suc n) ((Some t, f) # ls) = (Some t, f) # lines_read n ls"
| "lines_read (Suc n) ((None, f) # ls) = (None, f) # lines_read (Suc n) ls"

definition corrupted_in :: "(task_cache_item option \<times> archive_file) list \<Rightarrow> archive_file list" where
  "corrupted_in ls = map snd (filter (\<lambda>(i, f). i = None \<and> af_starttime f \<noteq> 0) ls)"

definition mode_files :: "get_tasks_mode \<Rightarrow> 'l directory \<Rightarrow> archive_file list" where
  "mode_files mode dir =
     (case mode of
        Get_All \<Rightarrow> rev (archive_files dir) @ [active_file]
      | Get_Active \<Rightarrow> [active_file]
      | Get_Archived \<Rightarrow> rev (archive_files dir))"

definition noticed :: "'l codec \<Rightarrow> get_tasks_mode \<Rightarrow> 'l directory \<Rightarrow> nat \<Rightarrow> archive_file list" where
  "noticed cd mode dir calls =
     (let ls = archive_lines cd dir (mode_files mode dir);
          items = readable (map fst ls)
      in case (if mode = Get_Active then None else sc_get dir journal_name) of
           None \<Rightarrow> corrupted_in (lines_read calls ls)
         | Some journal \<Rightarrow>
             if calls = 0 then []
             else let rest = merge_rest (calls - 1) (journal_iter cd journal) items
                  in corrupted_in (if rest = [] then ls else lines_read (Suc (length items - length rest)) ls))"

section \<open>Handlers\<close>

definition get_tasks ::
  "('p, 'q) list_env \<Rightarrow> 'l codec \<Rightarrow> view_config section_config \<Rightarrow> task_filters \<Rightarrow> string option \<Rightarrow> (string \<Rightarrow> bool) \<Rightarrow>
   string option \<Rightarrow> 'l cache \<Rightarrow> string + (task_list_item list \<times> 'l cache)" where
  "get_tasks env cd views f remote_filter check_privs view c =
     (case get_optional_view views view of
        Inl err \<Rightarrow> Inl err
      | Inr view \<Rightarrow>
          let mode = (if tf_running f then Get_Active else Get_All);
              limit = (case tf_limit f of 0 \<Rightarrow> None | Suc n \<Rightarrow> Some (Suc n));
              item = task_item env remote_filter check_privs view;
              tasks = fst (get_tasks_impl cd mode (c_dir c));
              matching = filter (item_wanted f) (List.map_filter item tasks);
              page = drop (tf_start f) matching;
              returned = (case limit of None \<Rightarrow> page | Some n \<Rightarrow> take n page);
              wanted = (\<lambda>t. case item t of Some i \<Rightarrow> item_wanted f i | None \<Rightarrow> False);
              calls = pulls (map_option (\<lambda>n. tf_start f + n) limit) wanted tasks
          in Inr (returned, request_repair (noticed cd mode (c_dir c) calls) c))"

datatype task_list_error = No_Authid | Task_No_Privileges | Task_Unknown_View string

record task_access =
  ta_view_audit :: "string \<Rightarrow> bool"
  ta_remote_audit :: "string \<Rightarrow> bool"

definition list_tasks ::
  "('p, 'q) list_env \<Rightarrow> 'l codec \<Rightarrow> view_config section_config \<Rightarrow> task_access option \<Rightarrow> task_filters \<Rightarrow> string option \<Rightarrow>
   string option \<Rightarrow> 'l cache \<Rightarrow> task_list_error + (task_list_item list \<times> 'l cache)" where
  "list_tasks env cd views auth f rmt view c =
     (case auth of
        None \<Rightarrow> Inl No_Authid
      | Some ta \<Rightarrow>
          if (case view of Some v \<Rightarrow> \<not> ta_view_audit ta v | None \<Rightarrow> False) then Inl Task_No_Privileges
          else (case get_tasks env cd views f rmt (ta_remote_audit ta) view c of
                  Inl err \<Rightarrow> Inl (Task_Unknown_View err)
                | Inr r \<Rightarrow> Inr r))"

section \<open>Statistics\<close>

record task_count =
  tc_ok :: nat
  tc_warning :: nat
  tc_error :: nat
  tc_unknown :: nat

definition no_tasks :: task_count where
  "no_tasks = \<lparr>tc_ok = 0, tc_warning = 0, tc_error = 0, tc_unknown = 0\<rparr>"

definition count_state :: "task_state_type \<Rightarrow> task_count \<Rightarrow> task_count" where
  "count_state s n =
     (case s of
        State_OK \<Rightarrow> n\<lparr>tc_ok := tc_ok n + 1\<rparr>
      | State_Warning \<Rightarrow> n\<lparr>tc_warning := tc_warning n + 1\<rparr>
      | State_Error \<Rightarrow> n\<lparr>tc_error := tc_error n + 1\<rparr>
      | State_Unknown \<Rightarrow> n\<lparr>tc_unknown := tc_unknown n + 1\<rparr>)"

definition count_entry :: "string \<Rightarrow> task_state_type \<Rightarrow> (string \<rightharpoonup> task_count) \<Rightarrow> (string \<rightharpoonup> task_count)" where
  "count_entry k s m = m(k \<mapsto> count_state s (case m k of None \<Rightarrow> no_tasks | Some n \<Rightarrow> n))"

record task_stats =
  st_by_type :: "string \<rightharpoonup> task_count"
  st_by_remote :: "string \<rightharpoonup> task_count"

definition count_item :: "('p, 'q) upid_env \<Rightarrow> task_list_item \<Rightarrow> task_stats \<Rightarrow> task_stats" where
  "count_item ue item st =
     (case map_option new_from_str (tl_status item) of
        None \<Rightarrow> st
      | Some status \<Rightarrow>
          let st = st\<lparr>st_by_type := count_entry (tl_worker_type item) status (st_by_type st)\<rparr>
          in case upid_from_str ue (tl_upid item) of
               Inl _ \<Rightarrow> st
             | Inr u \<Rightarrow> st\<lparr>st_by_remote := count_entry (ru_remote u) status (st_by_remote st)\<rparr>)"

definition task_statistics ::
  "('p, 'q) list_env \<Rightarrow> 'l codec \<Rightarrow> view_config section_config \<Rightarrow> task_access option \<Rightarrow> task_filters \<Rightarrow> string option \<Rightarrow>
   string option \<Rightarrow> 'l cache \<Rightarrow> task_list_error + (task_stats \<times> 'l cache)" where
  "task_statistics env cd views auth f rmt view c =
     (case list_tasks env cd views auth f rmt view c of
        Inl err \<Rightarrow> Inl err
      | Inr (tasks, c) \<Rightarrow>
          Inr (fold (count_item (le_upids env)) tasks \<lparr>st_by_type = Map.empty, st_by_remote = Map.empty\<rparr>, c))"

section \<open>Manual refresh\<close>

datatype refresh_error = Refresh_Forbidden | Refresh_Not_Found

record refresh_access =
  ra_any_modify :: bool
  ra_remote_modify :: "string \<Rightarrow> bool"

fun named_remotes :: "refresh_access \<Rightarrow> remote section_config \<Rightarrow> string list \<Rightarrow> refresh_error + remote list" where
  "named_remotes ra config [] = Inr []"
| "named_remotes ra config (n # ns) =
     (if \<not> ra_remote_modify ra n then Inl Refresh_Forbidden
      else case sc_get config n of
             None \<Rightarrow> Inl Refresh_Not_Found
           | Some r \<Rightarrow> and_then (named_remotes ra config ns) (\<lambda>rs. Inr (r # rs)))"

definition remotes_to_refresh ::
  "refresh_access \<Rightarrow> remote section_config \<Rightarrow> string list option \<Rightarrow> refresh_error + remote list" where
  "remotes_to_refresh ra config remotes =
     (case remotes of
        Some names \<Rightarrow> named_remotes ra config names
      | None \<Rightarrow>
          if \<not> ra_any_modify ra then Inl Refresh_Forbidden
          else Inr (map snd (filter (\<lambda>(name, _). ra_remote_modify ra name) config)))"

definition refresh_remote_tasks ::
  "('p, 'q, 'l, 'e) tick_env \<Rightarrow> refresh_access \<Rightarrow> remote section_config \<Rightarrow> string list option \<Rightarrow> 'l cache \<Rightarrow>
   refresh_error + (cache_error + 'l cache)" where
  "refresh_remote_tasks env ra config remotes c =
     and_then (remotes_to_refresh ra config remotes) (\<lambda>rs. Inr (refresh_taskcache env rs c))"

end
