(* ===== verification/Task_List_Props.thy ===== *)
theory Task_List_Props
  imports Task_List
begin

text \<open>
  Properties of listing tasks: pages, permissions, the repair of damaged files found on the way, and the statistics.
\<close>

section \<open>Pages\<close>

definition matching_items ::
  "('p, 'q) list_env \<Rightarrow> 'l codec \<Rightarrow> task_filters \<Rightarrow> string option \<Rightarrow> (string \<Rightarrow> bool) \<Rightarrow> view_config option \<Rightarrow> 'l cache \<Rightarrow>
   task_list_item list" where
  "matching_items env cd f remote_filter check_privs view c =
     filter (item_wanted f) (List.map_filter (task_item env remote_filter check_privs view)
       (fst (get_tasks_impl cd (if tf_running f then Get_Active else Get_All) (c_dir c))))"

definition page_of :: "nat \<Rightarrow> nat \<Rightarrow> 'a list \<Rightarrow> 'a list" where
  "page_of start limit xs = (if limit = 0 then drop start xs else take limit (drop start xs))"

lemma get_tasks_returned:
  "get_tasks env cd views f rf cp view c =
     (case get_optional_view views view of
        Inl err \<Rightarrow> Inl err
      | Inr v \<Rightarrow> Inr (page_of (tf_start f) (tf_limit f) (matching_items env cd f rf cp v c),
           snd (projr (get_tasks env cd views f rf cp view c))))"
  by (simp add: get_tasks_def matching_items_def page_of_def Let_def split: sum.split nat.split)

lemma concat_pages: "0 < n \<Longrightarrow> concat (map (\<lambda>k. page_of (k * n) n xs) [0..<m]) = take (m * n) xs"
proof (induction m)
  case (Suc m)
  then show ?case using take_add [of "m * n" n xs] by (simp add: page_of_def add.commute)
qed simp

lemma item_wanted_page [simp]: "item_wanted (f\<lparr>tf_start := a, tf_limit := b\<rparr>) = item_wanted f"
  by (intro ext, cases f) (simp only: item_wanted_def task_filters.simps)

lemma matching_items_page [simp]:
  "matching_items env cd (f\<lparr>tf_start := a, tf_limit := b\<rparr>) rf cp v c = matching_items env cd f rf cp v c"
  by (simp add: matching_items_def)

text \<open>Paging loses and repeats nothing: the first pages of a fixed size, one after the other, are the first part of the
  unlimited list, for every filter, view and caller.\<close>

theorem get_tasks_pages:
  assumes "0 < n" and "get_tasks env cd views (f\<lparr>tf_start := 0, tf_limit := 0\<rparr>) rf cp view c = Inr (whole, c')"
  shows "concat (map (\<lambda>k. fst (projr (get_tasks env cd views (f\<lparr>tf_start := k * n, tf_limit := n\<rparr>) rf cp view c))) [0..<m])
    = take (m * n) whole"
proof -
  obtain v where v: "get_optional_view views view = Inr v" and w: "whole = matching_items env cd f rf cp v c"
    using assms(2) by (subst (asm) get_tasks_returned) (auto simp: page_of_def split: sum.splits)
  have "fst (projr (get_tasks env cd views (f\<lparr>tf_start := k * n, tf_limit := n\<rparr>) rf cp view c)) = page_of (k * n) n whole" for k
    by (subst get_tasks_returned) (simp add: v w)
  then show ?thesis using concat_pages [OF assms(1)] by simp
qed

section \<open>What a caller sees\<close>

lemma task_item_Some:
  assumes "task_item env rf cp v t = Some i"
  shows "tl_upid i = upid_display (ti_upid t) \<and> tl_endtime i = ti_endtime t \<and> tl_status i = ti_status t
    \<and> (\<forall>r. rf = Some r \<longrightarrow> ru_remote (ti_upid t) = r)
    \<and> (case v of Some v \<Rightarrow> is_node_included v (ru_remote (ti_upid t)) (tl_node i) | None \<Rightarrow> cp (ru_remote (ti_upid t)))"
  using assms by (auto simp: task_item_def Let_def split: if_splits sum.splits option.splits native_upid.splits)

lemma matching_items_origin:
  assumes "i \<in> set (matching_items env cd f rf cp v c)"
  obtains t where "t \<in> set (fst (get_tasks_impl cd (if tf_running f then Get_Active else Get_All) (c_dir c)))"
    "task_item env rf cp v t = Some i" "item_wanted f i"
  using assms by (auto simp: matching_items_def List.map_filter_def)

lemma set_page_of: "set (page_of a b xs) \<subseteq> set xs"
  by (auto simp: page_of_def dest: in_set_takeD in_set_dropD)

text \<open>C22. A task listing shows only what it should: every item comes from a cached task, of the requested remote if one is
  given, that passes the filters, on a remote the caller may audit or, with a view, on a node of that view, which the
  caller may audit.\<close>

theorem list_tasks_authorized:
  assumes run: "list_tasks env cd views (Some ta) f rf view c = Inr (items, c')" and i: "i \<in> set items"
  shows "\<exists>t \<in> set (fst (get_tasks_impl cd (if tf_running f then Get_Active else Get_All) (c_dir c))).
      tl_upid i = upid_display (ti_upid t) \<and> item_wanted f i \<and> (\<forall>r. rf = Some r \<longrightarrow> ru_remote (ti_upid t) = r)
      \<and> (case view of
           None \<Rightarrow> ta_remote_audit ta (ru_remote (ti_upid t))
         | Some name \<Rightarrow> ta_view_audit ta name
             \<and> (\<exists>v. sc_get views name = Some v \<and> is_node_included v (ru_remote (ti_upid t)) (tl_node i)))"
proof -
  have priv: "view = Some name \<Longrightarrow> ta_view_audit ta name" for name
    using run by (auto simp: list_tasks_def split: if_splits)
  have get: "get_tasks env cd views f rf (ta_remote_audit ta) view c = Inr (items, c')"
    using run by (auto simp: list_tasks_def split: if_splits sum.splits)
  then obtain v where v: "get_optional_view views view = Inr v"
    and it: "items = page_of (tf_start f) (tf_limit f) (matching_items env cd f rf (ta_remote_audit ta) v c)"
    by (subst (asm) get_tasks_returned) (auto split: sum.splits)
  from i [unfolded it] have "i \<in> set (matching_items env cd f rf (ta_remote_audit ta) v c)" by (rule subsetD [OF set_page_of])
  then obtain t where t: "t \<in> set (fst (get_tasks_impl cd (if tf_running f then Get_Active else Get_All) (c_dir c)))"
    "task_item env rf (ta_remote_audit ta) v t = Some i" "item_wanted f i" by (rule matching_items_origin)
  note ts = task_item_Some [OF t(2)]
  show ?thesis
  proof (intro bexI [OF _ t(1)] conjI)
    show "case view of None \<Rightarrow> ta_remote_audit ta (ru_remote (ti_upid t))
         | Some name \<Rightarrow> ta_view_audit ta name
             \<and> (\<exists>v. sc_get views name = Some v \<and> is_node_included v (ru_remote (ti_upid t)) (tl_node i))"
      using ts v priv by (auto simp: get_optional_view_def get_view_def split: option.splits sum.splits)
  qed (use ts t(3) in auto)
qed

section \<open>Damaged files\<close>

lemma pulls_unlimited: "pulls None P xs = Suc (length xs)"
  by (induction xs) simp_all

lemma merge_rest_all: "length (merge_tasks l r) \<le> k \<Longrightarrow> merge_rest k l r = []"
proof (induction k l r rule: merge_rest.induct)
  case (5 k l ls r rs)
  then show ?case
    by (cases "task_key l" "task_key r" rule: linorder_cases) (simp_all add: compare_tasks_key cmp_def less_not_sym)
next
  case (1 ls rs)
  then show ?case by (cases ls; cases rs) (auto split: if_splits)
qed simp_all

lemma lines_read_all: "length (readable (map fst ls)) < n \<Longrightarrow> lines_read n ls = ls"
  by (induction n ls rule: lines_read.induct) simp_all

lemma lines_read_sub: "set (lines_read n ls) \<subseteq> set ls"
  by (induction n ls rule: lines_read.induct) auto

lemma archive_lines_items: "map fst (archive_lines cd dir files) = fst (inner_task_archive_iter cd dir files)"
  by (simp add: archive_lines_def inner_task_archive_iter_def map_concat comp_def)

lemma corrupted_file: "map snd (filter (\<lambda>(i, f). i = None \<and> P f) (map (\<lambda>i. (i, f)) items)) =
    (if P f then replicate (count_list items None) f else [])"
  by (induction items) auto

lemma corrupted_in_all: "corrupted_in (archive_lines cd dir files) = snd (inner_task_archive_iter cd dir files)"
  unfolding corrupted_in_def archive_lines_def inner_task_archive_iter_def filter_concat map_concat map_map comp_def
    corrupted_file by simp

lemma noticed_sub: "set (noticed cd mode dir calls) \<subseteq> set (snd (inner_task_archive_iter cd dir (mode_files mode dir)))"
proof -
  have "set (corrupted_in (lines_read n ls)) \<subseteq> set (corrupted_in ls)" for n ls
    using lines_read_sub [of n ls] by (auto simp: corrupted_in_def)
  then show ?thesis unfolding corrupted_in_all [symmetric] noticed_def Let_def by (auto split: option.split)
qed

lemma get_tasks_impl_mode:
  "get_tasks_impl cd mode dir =
     task_archive_iter cd dir (if mode = Get_Active then None else Some journal_name) (mode_files mode dir)"
  by (cases mode) (simp_all add: get_tasks_impl_def mode_files_def)

lemma noticed_all:
  assumes "Suc (length (fst (get_tasks_impl cd mode dir))) \<le> calls"
  shows "noticed cd mode dir calls = snd (get_tasks_impl cd mode dir)"
proof -
  let ?files = "mode_files mode dir"
  let ?ls = "archive_lines cd dir ?files"
  have snd: "snd (get_tasks_impl cd mode dir) = corrupted_in ?ls"
    by (simp add: get_tasks_impl_mode task_archive_iter_def corrupted_in_all case_prod_beta Let_def)
  show ?thesis
  proof (cases "if mode = Get_Active then None else sc_get dir journal_name")
    case None
    then have "fst (get_tasks_impl cd mode dir) = readable (map fst ?ls)"
      by (auto simp: get_tasks_impl_mode task_archive_iter_def archive_lines_items case_prod_beta Let_def split: if_splits)
    then have "lines_read calls ?ls = ?ls" using assms by (intro lines_read_all) simp
    then show ?thesis using None by (simp add: noticed_def snd Let_def split: if_splits)
  next
    case (Some journal)
    then have "fst (get_tasks_impl cd mode dir) = merge_tasks (journal_iter cd journal) (readable (map fst ?ls))"
      by (auto simp: get_tasks_impl_mode task_archive_iter_def archive_lines_items case_prod_beta Let_def split: if_splits)
    then have "merge_rest (calls - 1) (journal_iter cd journal) (readable (map fst ?ls)) = []"
      using assms by (intro merge_rest_all) simp
    then show ?thesis using Some assms by (simp add: noticed_def snd Let_def split: if_splits)
  qed
qed

lemma noticed_listed: "set (noticed cd mode dir calls) \<subseteq> set (snd (get_tasks_impl cd mode dir))"
  using noticed_sub [of cd mode dir calls]
  by (simp add: get_tasks_impl_mode task_archive_iter_def case_prod_beta Let_def)

lemma get_tasks_cache:
  assumes "get_tasks env cd views f rf cp view c = Inr (items, c')"
  obtains calls where "c' = request_repair (noticed cd (if tf_running f then Get_Active else Get_All) (c_dir c) calls) c"
    "tf_limit f = 0 \<longrightarrow> calls = Suc (length (fst (get_tasks_impl cd (if tf_running f then Get_Active else Get_All) (c_dir c))))"
  using assms by (auto simp: get_tasks_def Let_def pulls_unlimited split: sum.splits nat.splits)

lemma min_Min_lower:
  assumes "x = min z (Min (g ` set cor))" and "cor \<noteq> []"
  shows "x = z \<or> (\<exists>f \<in> set cor. x = g f)"
proof -
  have "Min (g ` set cor) \<in> g ` set cor" using assms(2) by (intro Min_in) auto
  then show ?thesis using assms(1) by (auto simp: min_def)
qed

text \<open>Listing tasks changes no task and tracks none, and moves the fetch cutoffs only down, and only to the start of a damaged
  archive file; an unlimited listing of all tasks finds every damaged file, however the lazy iteration gets there, so
  that the next fetch asks for its time range again.\<close>

theorem listing_repairs:
  assumes run: "get_tasks env cd views f rf cp view c = Inr (items, c')"
    and old: "cutoff_timestamp (read_state c) r n = Some cutoff"
  shows "c_dir c' = c_dir c \<and> ts_tracked_tasks (read_state c') = ts_tracked_tasks (read_state c)
    \<and> (\<exists>cutoff' \<le> cutoff. cutoff_timestamp (read_state c') r n = Some cutoff'
        \<and> (cutoff' = cutoff \<or> (\<exists>g \<in> set (archive_files (c_dir c)). None \<in> set (file_items cd (c_dir c) g)
              \<and> cutoff' = af_starttime g))
        \<and> (tf_limit f = 0 \<longrightarrow> \<not> tf_running f \<longrightarrow>
             (\<forall>g \<in> set (archive_files (c_dir c)). None \<in> set (file_items cd (c_dir c) g) \<longrightarrow> af_starttime g \<noteq> 0 \<longrightarrow>
                cutoff' \<le> af_starttime g)))"
proof -
  let ?mode = "if tf_running f then Get_Active else Get_All"
  obtain calls where c': "c' = request_repair (noticed cd ?mode (c_dir c) calls) c"
    and full: "tf_limit f = 0 \<longrightarrow> calls = Suc (length (fst (get_tasks_impl cd ?mode (c_dir c))))"
    by (rule get_tasks_cache [OF run])
  let ?cor = "noticed cd ?mode (c_dir c) calls"
  obtain cutoff' where cut: "cutoff_timestamp (read_state c') r n = Some cutoff'" "cutoff' \<le> cutoff"
    using only_lowersD [OF only_lowers_repair old] c' by blast
  have files: "g \<in> set (archive_files (c_dir c)) \<and> None \<in> set (file_items cd (c_dir c) g)" if "g \<in> set ?cor" for g
  proof -
    have "g \<in> set (snd (get_tasks_impl cd ?mode (c_dir c)))" using that noticed_listed by blast
    then show ?thesis
      by (auto simp: get_tasks_impl_mode task_archive_iter_def inner_task_archive_iter_def case_prod_beta Let_def mode_files_def
          active_file_def count_list_0_iff split: if_splits)
  qed
  have "cutoff' = cutoff \<or> (\<exists>g \<in> set ?cor. cutoff' = af_starttime g)"
    using cut old min_Min_lower [of cutoff' cutoff af_starttime ?cor] unfolding c' cutoff_request_repair
    by (auto split: if_splits)
  then have reason: "cutoff' = cutoff \<or> (\<exists>g \<in> set (archive_files (c_dir c)). None \<in> set (file_items cd (c_dir c) g)
      \<and> cutoff' = af_starttime g)" using files by blast
  have all: "cutoff' \<le> af_starttime g"
    if "tf_limit f = 0" "\<not> tf_running f" "g \<in> set (archive_files (c_dir c))" "None \<in> set (file_items cd (c_dir c) g)"
      "af_starttime g \<noteq> 0" for g
  proof -
    have "?cor = snd (get_tasks_impl cd ?mode (c_dir c))" using full that(1) by (intro noticed_all) simp
    then have "g \<in> set ?cor"
      using that by (auto simp: get_tasks_impl_mode task_archive_iter_def inner_task_archive_iter_def case_prod_beta Let_def
          mode_files_def count_list_0_iff)
    then show ?thesis using repair_lowers cut(1) c' by blast
  qed
  have "c_dir c' = c_dir c" unfolding c' by (cases ?cor) (simp_all add: request_repair_def Let_def write_state_def)
  moreover have "ts_tracked_tasks (read_state c') = ts_tracked_tasks (read_state c)" by (simp add: c')
  ultimately show ?thesis using cut reason all by blast
qed

section \<open>Statistics\<close>

definition count_of :: "(string \<rightharpoonup> task_count) \<Rightarrow> string \<Rightarrow> task_state_type \<Rightarrow> nat" where
  "count_of m k s = (case m k of None \<Rightarrow> 0
     | Some n \<Rightarrow> (case s of State_OK \<Rightarrow> tc_ok n | State_Warning \<Rightarrow> tc_warning n | State_Error \<Rightarrow> tc_error n
                         | State_Unknown \<Rightarrow> tc_unknown n))"

lemma count_of_entry: "count_of (count_entry k s m) k' s' = count_of m k' s' + (if k = k' \<and> s = s' then 1 else 0)"
  by (cases s; cases s') (auto simp: count_of_def count_entry_def count_state_def no_tasks_def split: option.split)

definition item_remote :: "('p, 'q) upid_env \<Rightarrow> task_list_item \<Rightarrow> string option" where
  "item_remote ue i = (case upid_from_str ue (tl_upid i) of Inl _ \<Rightarrow> None | Inr u \<Rightarrow> Some (ru_remote u))"

lemma fold_count_item:
  "count_of (st_by_type (fold (count_item ue) items st)) ty s = count_of (st_by_type st) ty s
     + length (filter (\<lambda>i. tl_worker_type i = ty \<and> map_option new_from_str (tl_status i) = Some s) items)"
  "count_of (st_by_remote (fold (count_item ue) items st)) r s = count_of (st_by_remote st) r s
     + length (filter (\<lambda>i. item_remote ue i = Some r \<and> map_option new_from_str (tl_status i) = Some s) items)"
proof (induction items arbitrary: st)
  case (Cons i items)
  case 1 show ?case using Cons.IH(1) [of "count_item ue i st"]
    by (cases "tl_status i") (auto simp: count_item_def Let_def count_of_entry split: sum.split)
  case 2 show ?case using Cons.IH(2) [of "count_item ue i st"]
    by (cases "tl_status i") (auto simp: count_item_def Let_def count_of_entry item_remote_def split: sum.split)
qed simp_all

lemma item_remote_display:
  assumes "safe_ids_plain ue" "safe_id ue (ru_remote u)" "tl_upid i = upid_display u"
  shows "item_remote ue i = Some (ru_remote u)"
  using upid_from_str_display [OF assms(1,2)] assms(3) by (simp add: item_remote_def)

text \<open>The statistics count each listed task that has a status exactly once per worker type and, if its id can be parsed,
  once per remote, under the state its status text stands for.\<close>

theorem task_statistics_exact:
  assumes stats: "task_statistics env cd views auth f rf view c = Inr (st, c')"
  shows "\<exists>items. list_tasks env cd views auth f rf view c = Inr (items, c')
    \<and> (\<forall>ty s. count_of (st_by_type st) ty s =
          length (filter (\<lambda>i. tl_worker_type i = ty \<and> map_option new_from_str (tl_status i) = Some s) items))
    \<and> (\<forall>r s. count_of (st_by_remote st) r s =
          length (filter (\<lambda>i. item_remote (le_upids env) i = Some r \<and> map_option new_from_str (tl_status i) = Some s) items))"
proof -
  obtain items where items: "list_tasks env cd views auth f rf view c = Inr (items, c')"
    and st: "st = fold (count_item (le_upids env)) items \<lparr>st_by_type = Map.empty, st_by_remote = Map.empty\<rparr>"
    using stats by (auto simp: task_statistics_def split: sum.splits)
  then show ?thesis by (simp add: fold_count_item) (simp add: count_of_def)
qed

section \<open>A listing\<close>

definition ex_fields :: "string \<Rightarrow> upid_fields" where
  "ex_fields nod = \<lparr>uf_node = nod, uf_pid = 1, uf_pstart = 2, uf_starttime = 5, uf_worker_type = ''backup'',
     uf_worker_id = None, uf_auth_id = ''root@pam''\<rparr>"

definition ex_list_env :: "(string, string) list_env" where
  "ex_list_env = \<lparr>le_upids = ex_upid_env, le_pve_fields = ex_fields, le_pbs_fields = ex_fields\<rparr>"

definition ex_filters :: task_filters where
  "ex_filters = \<lparr>tf_start = 0, tf_limit = 0, tf_errors = False, tf_running = False, tf_userfilter = None, tf_since = None,
     tf_until = None, tf_typefilter = None, tf_statusfilter = None\<rparr>"

definition ex_access :: task_access where
  "ex_access = \<lparr>ta_view_audit = (\<lambda>_. False), ta_remote_audit = (\<lambda>r. r = ''r1'')\<rparr>"

definition ex_listed_task :: task_cache_item where
  "ex_listed_task = \<lparr>ti_upid = \<lparr>ru_remote = ''r1'', ru_remote_type = Remote_Pbs, ru_upid = ''n#1''\<rparr>, ti_starttime = 5,
     ti_status = Some ''OK'', ti_endtime = Some 6\<rparr>"

definition ex_item :: task_list_item where
  "ex_item = \<lparr>tl_upid = upid_display (ti_upid ex_listed_task), tl_node = ''n'', tl_pid = 1, tl_pstart = 2, tl_starttime = 5,
     tl_worker_type = ''backup'', tl_worker_id = None, tl_user = ''root@pam'', tl_endtime = Some 6, tl_status = Some ''OK''\<rparr>"

lemma ex_task_item:
  "task_item ex_list_env None (ta_remote_audit ex_access) None ex_listed_task = Some ex_item"
  by (simp add: task_item_def ex_list_env_def parse_native_def ex_upid_env_def ex_listed_task_def ex_access_def ex_item_def
      ex_fields_def Let_def)

lemma ex_matching:
  "matching_items ex_list_env ex_codec ex_filters None (ta_remote_audit ex_access) None (ex_cache [] [ex_listed_task] []) = [ex_item]"
proof -
  have "fst (get_tasks_impl ex_codec Get_All (c_dir (ex_cache [] [ex_listed_task] []))) = [ex_listed_task]"
    unfolding get_tasks_all ex_archived ex_gets
    by (simp add: Let_def file_items_def active_file_def ex_gets journal_iter_def sort_by_def dedup_def)
  moreover have "item_wanted ex_filters ex_item" by (simp add: item_wanted_def ex_filters_def ex_item_def Let_def)
  ultimately show ?thesis
    by (simp add: matching_items_def ex_filters_def [THEN arg_cong [of _ _ tf_running], simplified] List.map_filter_simps ex_task_item)
qed

lemma ex_get_tasks:
  "\<exists>c'. get_tasks ex_list_env ex_codec [] (ex_filters\<lparr>tf_start := 0, tf_limit := n\<rparr>) None (ta_remote_audit ex_access) None
     (ex_cache [] [ex_listed_task] []) = Inr (page_of 0 n [ex_item], c')"
  by (subst get_tasks_returned) (simp add: get_optional_view_def ex_matching)

theorem get_tasks_pages_witness:
  "concat (map (\<lambda>k. fst (projr (get_tasks ex_list_env ex_codec [] (ex_filters\<lparr>tf_start := k * 2, tf_limit := 2\<rparr>) None
     (ta_remote_audit ex_access) None (ex_cache [] [ex_listed_task] [])))) [0..<3]) = [ex_item]"
  using ex_get_tasks [of 0] get_tasks_pages [of 2 ex_list_env ex_codec "[]" ex_filters None "ta_remote_audit ex_access" None
      "ex_cache [] [ex_listed_task] []" _ _ 3]
  by (auto simp: page_of_def)

lemma ex_list_tasks:
  "\<exists>c'. list_tasks ex_list_env ex_codec [] (Some ex_access) ex_filters None None (ex_cache [] [ex_listed_task] []) = Inr ([ex_item], c')"
proof -
  have "ex_filters\<lparr>tf_start := 0, tf_limit := 0\<rparr> = ex_filters" by (simp add: ex_filters_def)
  then show ?thesis using ex_get_tasks [of 0] by (auto simp: list_tasks_def page_of_def)
qed

theorem list_tasks_authorized_witness:
  "\<exists>t :: task_cache_item. tl_upid ex_item = upid_display (ti_upid t) \<and> ru_remote (ti_upid t) = ''r1''"
proof -
  obtain c' where "list_tasks ex_list_env ex_codec [] (Some ex_access) ex_filters None None (ex_cache [] [ex_listed_task] [])
      = Inr ([ex_item], c')" using ex_list_tasks by blast
  from list_tasks_authorized [OF this, of ex_item] show ?thesis by (simp add: ex_access_def) blast
qed

theorem task_statistics_exact_witness:
  "\<exists>st c'. task_statistics ex_list_env ex_codec [] (Some ex_access) ex_filters None None (ex_cache [] [ex_listed_task] []) = Inr (st, c')
     \<and> count_of (st_by_type st) ''backup'' State_OK = 1"
proof -
  obtain c' where l: "list_tasks ex_list_env ex_codec [] (Some ex_access) ex_filters None None (ex_cache [] [ex_listed_task] [])
      = Inr ([ex_item], c')" using ex_list_tasks by blast
  then obtain st where st: "task_statistics ex_list_env ex_codec [] (Some ex_access) ex_filters None None
      (ex_cache [] [ex_listed_task] []) = Inr (st, c')" by (simp add: task_statistics_def)
  from task_statistics_exact [OF st] l have "count_of (st_by_type st) ''backup'' State_OK =
      length (filter (\<lambda>i. tl_worker_type i = ''backup'' \<and> map_option new_from_str (tl_status i) = Some State_OK) [ex_item])" by simp
  with st show ?thesis by (simp add: ex_item_def new_from_str_def)
qed

definition ex_damaged :: "task_cache_item cache" where
  "ex_damaged = write_state (update_cutoff_timestamp ''r1'' ''localhost'' (\<lambda>_. 9) default_state)
     (ex_cache [] [] [])\<lparr>c_dir := sc_insert ''archive.1'' [ReadError] (c_dir (ex_cache [] [] []))\<rparr>"

theorem listing_repairs_witness:
  "\<exists>items c'. get_tasks ex_list_env ex_codec [] ex_filters None (\<lambda>_. True) None ex_damaged = Inr (items, c')
     \<and> (\<exists>cutoff \<le> 1. cutoff_timestamp (read_state c') ''r1'' ''localhost'' = Some cutoff)"
proof -
  have "\<exists>items c'. get_tasks ex_list_env ex_codec [] ex_filters None (\<lambda>_. True) None ex_damaged = Inr (items, c')"
    by (simp add: get_tasks_def get_optional_view_def Let_def)
  then obtain items c' where run: "get_tasks ex_list_env ex_codec [] ex_filters None (\<lambda>_. True) None ex_damaged = Inr (items, c')"
    by blast
  have cut: "cutoff_timestamp (read_state ex_damaged) ''r1'' ''localhost'' = Some 9"
    by (simp add: ex_damaged_def write_state_def read_state_def cutoff_update)
  let ?f = "\<lparr>af_name = ''archive.1'', af_compressed = False, af_starttime = 1\<rparr>"
  have "''archive.1'' \<in> fst ` set (c_dir (ex_cache [] [] []))"
    by (simp add: sc_get_in ex_gets)
  then have "archive_files (c_dir ex_damaged) = archive_files (c_dir (ex_cache [] [] []))"
    by (intro archive_files_names) (simp add: ex_damaged_def write_state_def sc_insert_names)
  then have files: "archive_files (c_dir ex_damaged) = [?f]" by (simp add: ex_archive_files)
  have "file_items ex_codec (c_dir ex_damaged) ?f = [None]"
    by (simp add: file_items_def ex_damaged_def write_state_def sc_laws)
  with listing_repairs [OF run cut] files run show ?thesis
    by (auto simp: ex_filters_def)
qed

end
