(* ===== verification/Json.thy ===== *)
theory Json
  imports Complex_Main Text
begin

text \<open>
  JSON values as the sources of the control plane use them (\<open>serde_json::Value\<close>): access by key and by pointer,
  conversions, and assignment to a key. Objects are association lists; what the clients rely on is the contract
  \<open>json_object\<close>, and its interpretation at the end discharges it.
\<close>

datatype json = JNull | JBool bool | JNum int | JFloat rat | JStr string | JArr "json list" | JObj "(string \<times> json) list"

text \<open>A file that holds a value.\<close>

datatype inv_file = No_File | Unparsable | Parsed json

definition jget :: "json \<Rightarrow> string \<Rightarrow> json option" where
  "jget v k = (case v of JObj kvs \<Rightarrow> map_of kvs k | _ \<Rightarrow> None)"

definition as_str :: "json \<Rightarrow> string option" where
  "as_str v = (case v of JStr s \<Rightarrow> Some s | _ \<Rightarrow> None)"

definition as_bool :: "json \<Rightarrow> bool option" where
  "as_bool v = (case v of JBool b \<Rightarrow> Some b | _ \<Rightarrow> None)"

definition as_array :: "json \<Rightarrow> json list option" where
  "as_array v = (case v of JArr vs \<Rightarrow> Some vs | _ \<Rightarrow> None)"

definition as_unsigned :: "json \<Rightarrow> nat option" where
  "as_unsigned v = (case v of JNum n \<Rightarrow> if 0 \<le> n \<and> n < 2 ^ 64 then Some (nat n) else None | _ \<Rightarrow> None)"

definition as_signed :: "json \<Rightarrow> int option" where
  "as_signed v = (case v of JNum n \<Rightarrow> if - (2 ^ 63) \<le> n \<and> n < 2 ^ 63 then Some n else None | _ \<Rightarrow> None)"

text \<open>A rational number stands for the floating-point number nearest to it.\<close>

definition as_float :: "json \<Rightarrow> rat option" where
  "as_float v = (case v of JNum n \<Rightarrow> Some (of_int n) | JFloat q \<Rightarrow> Some q | _ \<Rightarrow> None)"

definition as_object :: "json \<Rightarrow> (string \<times> json) list option" where
  "as_object v = (case v of JObj kvs \<Rightarrow> Some kvs | _ \<Rightarrow> None)"

definition is_object :: "json \<Rightarrow> bool" where
  "is_object v \<longleftrightarrow> (case v of JObj _ \<Rightarrow> True | _ \<Rightarrow> False)"

fun kv_set :: "string \<Rightarrow> json \<Rightarrow> (string \<times> json) list \<Rightarrow> (string \<times> json) list" where
  "kv_set k v [] = [(k, v)]"
| "kv_set k v ((k', v') # kvs) = (if k = k' then (k, v) # kvs else (k', v') # kv_set k v kvs)"

text \<open>
  \<open>value[k] = v\<close>: \<open>null\<close> becomes an object; the sources assign to objects only, on any other value the assignment
  would panic and the model leaves the value alone.
\<close>

definition jset :: "string \<Rightarrow> json \<Rightarrow> json \<Rightarrow> json" where
  "jset k v j = (case j of JObj kvs \<Rightarrow> JObj (kv_set k v kvs) | JNull \<Rightarrow> JObj [(k, v)] | _ \<Rightarrow> j)"

definition jremove :: "string \<Rightarrow> json \<Rightarrow> json" where
  "jremove k j = (case j of JObj kvs \<Rightarrow> JObj (filter (\<lambda>(k', _). k' \<noteq> k) kvs) | _ \<Rightarrow> j)"

definition get_str :: "json \<Rightarrow> string \<Rightarrow> string option" where
  "get_str v k = Option.bind (jget v k) as_str"

definition get_bool :: "json \<Rightarrow> string \<Rightarrow> bool option" where
  "get_bool v k = Option.bind (jget v k) as_bool"

definition get_array :: "json \<Rightarrow> string \<Rightarrow> json list option" where
  "get_array v k = Option.bind (jget v k) as_array"

fun pointer :: "json \<Rightarrow> string list \<Rightarrow> json option" where
  "pointer v [] = Some v"
| "pointer v (k # ks) = Option.bind (jget v k) (\<lambda>w. pointer w ks)"

locale json_object =
  fixes get :: "json \<Rightarrow> string \<Rightarrow> json option"
    and put :: "string \<Rightarrow> json \<Rightarrow> json \<Rightarrow> json"
    and remove :: "string \<Rightarrow> json \<Rightarrow> json"
    and object :: "json \<Rightarrow> bool"
  assumes get_put: "object j \<Longrightarrow> get (put k v j) = (get j)(k \<mapsto> v)"
    and get_remove: "object j \<Longrightarrow> get (remove k j) = (get j)(k := None)"
    and object_put: "object j \<Longrightarrow> object (put k v j)"
    and object_remove: "object j \<Longrightarrow> object (remove k j)"
    and get_object: "get j k = Some v \<Longrightarrow> object j"
begin

lemma put_put: "object j \<Longrightarrow> get (put k v (put k w j)) = get (put k v j)"
  by (simp add: get_put object_put)

lemma put_other: "object j \<Longrightarrow> k \<noteq> k' \<Longrightarrow> get (put k v j) k' = get j k'"
  by (simp add: get_put)

end

lemma map_of_kv_set: "map_of (kv_set k v kvs) = (map_of kvs)(k \<mapsto> v)"
  by (induction k v kvs rule: kv_set.induct) auto

lemma map_of_kv_remove: "map_of (filter (\<lambda>(k', _). k' \<noteq> k) kvs) = (map_of kvs)(k := None)"
  by (induction kvs) auto

interpretation jo: json_object jget jset jremove is_object
  by unfold_locales
    (auto simp: jget_def jset_def jremove_def is_object_def map_of_kv_set map_of_kv_remove split: json.splits)

lemma jget_obj [simp]: "jget (JObj kvs) k = map_of kvs k"
  by (simp add: jget_def)

lemma as_simps [simp]:
  "as_str (JStr s) = Some s" "as_bool (JBool b) = Some b" "as_array (JArr vs) = Some vs"
  by (simp_all add: as_str_def as_bool_def as_array_def)

lemma as_str_Some: "as_str v = Some s \<longleftrightarrow> v = JStr s"
  by (cases v) (simp_all add: as_str_def)

lemma as_array_Some: "as_array v = Some vs \<longleftrightarrow> v = JArr vs"
  by (cases v) (simp_all add: as_array_def)

lemma get_str_object: "get_str v k = Some s \<Longrightarrow> is_object v"
  by (auto simp: get_str_def bind_eq_Some_conv intro: jo.get_object)

lemma get_str_jset:
  "is_object j \<Longrightarrow> get_str (jset k v j) k' = (if k' = k then as_str v else get_str j k')"
  by (simp add: get_str_def jo.get_put)

lemma get_bool_jset:
  "is_object j \<Longrightarrow> get_bool (jset k v j) k' = (if k' = k then as_bool v else get_bool j k')"
  by (simp add: get_bool_def jo.get_put)

lemma get_array_jset:
  "is_object j \<Longrightarrow> get_array (jset k v j) k' = (if k' = k then as_array v else get_array j k')"
  by (simp add: get_array_def jo.get_put)

end
