(* ===== verification/Monitoring.thy ===== *)
theory Monitoring
  imports Json
begin

text \<open>
  Monitored devices, \<open>server/src/api/nexus/monitoring\<close>: the inventory (\<open>store.rs\<close>), the maintenance schedules at the
  alerting service (\<open>signoz.rs\<close>), the configuration of the probe collector (\<open>collector.rs\<close>) and the handlers
  (\<open>mod.rs\<close>). The alerting service, the file system and the commands that the collector runs answer through oracles,
  one per call; whether a text is an address literal is a parameter.
\<close>

section \<open>Names\<close>

datatype mon_error =
    Bad_Name | Control_Characters | Bad_Slug | Bad_Label string | Bad_Address | Bad_State
  | Unparsable_Inventory | No_Devices_Array | Write_Failed | Device_Not_Found string | No_Enabled_Devices | Missing_Field string
  | Not_Installed string | Command_Failed string | Signoz_Error string | Bad_Downtime | Downtime_Too_Long | Bad_Downtime_Id

definition normalize_name :: "string \<Rightarrow> mon_error + string" where
  "normalize_name input =
     (let name = trim input
      in if name = [] \<or> 80 < length name then Inl Bad_Name
         else if list_ex is_control name then Inl Control_Characters
         else Inr name)"

fun slug_loop :: "string \<Rightarrow> string \<Rightarrow> bool \<Rightarrow> string" where
  "slug_loop [] output previous_dash = output"
| "slug_loop (ch # chs) output previous_dash =
     (if is_ascii_alphanumeric ch then slug_loop chs (output @ [ch]) False
      else if \<not> previous_dash \<and> output \<noteq> [] then slug_loop chs (output @ ''-'') True
      else slug_loop chs output previous_dash)"

definition normalize_slug :: "string \<Rightarrow> mon_error + string" where
  "normalize_slug input =
     (let output = trim_end_matches (CHR ''-'') (slug_loop (to_ascii_lowercase (trim input)) [] False)
      in if output = [] \<or> 64 < length output then Inl Bad_Slug else Inr output)"

definition normalize_simple_label :: "string \<Rightarrow> string \<Rightarrow> mon_error + string" where
  "normalize_simple_label input field =
     (let v = to_ascii_lowercase (trim input)
      in if v = [] \<or> 64 < length v then Inl (Bad_Label field)
         else if \<not> list_all (\<lambda>b. is_ascii_alphanumeric b \<or> b = CHR ''-'' \<or> b = CHR ''_'') v then Inl (Bad_Label field)
         else Inr v)"

definition label_ok :: "string \<Rightarrow> bool" where
  "label_ok label \<longleftrightarrow> label \<noteq> [] \<and> length label \<le> 63 \<and> is_ascii_alphanumeric (hd label) \<and> is_ascii_alphanumeric (last label)
     \<and> list_all (\<lambda>b. is_ascii_alphanumeric b \<or> b = CHR ''-'') label"

definition normalize_address :: "(string \<Rightarrow> bool) \<Rightarrow> string \<Rightarrow> mon_error + string" where
  "normalize_address is_ip input =
     (let address = to_ascii_lowercase (trim_end_matches (CHR ''.'') (trim input))
      in if is_ip address then Inr address
         else if address = [] \<or> 253 < length address then Inl Bad_Address
         else if \<not> list_all label_ok (split_char (CHR ''.'') address) then Inl Bad_Address
         else Inr address)"

definition normalize_state :: "string \<Rightarrow> mon_error + string" where
  "normalize_state input =
     (let s = to_ascii_lowercase (trim input)
      in if s = ''enabled'' \<or> s = ''maintenance'' \<or> s = ''disabled'' then Inr s else Inl Bad_State)"

section \<open>Inventory\<close>

definition DEFAULT_SIGNOZ_URL :: string where "DEFAULT_SIGNOZ_URL = ''http://192.168.0.47:8080''"
definition DEFAULT_OTLP_ENDPOINT :: string where "DEFAULT_OTLP_ENDPOINT = ''192.168.0.47:4317''"

definition mon_default_inventory :: json where
  "mon_default_inventory = JObj [(''version'', JNum 1), (''signoz'', JObj [(''url'', JStr DEFAULT_SIGNOZ_URL)]),
     (''probe'', JObj [(''otlp_endpoint'', JStr DEFAULT_OTLP_ENDPOINT), (''collection_interval'', JStr ''30s'')]),
     (''devices'', JArr [])]"

definition mon_read_inventory :: "inv_file \<Rightarrow> mon_error + json" where
  "mon_read_inventory f = (case f of No_File \<Rightarrow> Inr mon_default_inventory | Unparsable \<Rightarrow> Inl Unparsable_Inventory | Parsed v \<Rightarrow> Inr v)"

definition has_id :: "string \<Rightarrow> json \<Rightarrow> bool" where
  "has_id i device \<longleftrightarrow> get_str device ''id'' = Some i"

definition find_device :: "json \<Rightarrow> string \<Rightarrow> json option" where
  "find_device inventory i = (case get_array inventory ''devices'' of None \<Rightarrow> None | Some ds \<Rightarrow> List.find (has_id i) ds)"

definition device_entry :: "string \<Rightarrow> string \<Rightarrow> string \<Rightarrow> string \<Rightarrow> string \<Rightarrow> string \<Rightarrow> string option \<Rightarrow> json" where
  "device_entry i name address kind site state downtime =
     (let entry = JObj [(''id'', JStr i), (''name'', JStr name), (''address'', JStr address), (''kind'', JStr kind),
                        (''site'', JStr site), (''profile'', JStr ''icmp''), (''state'', JStr state)]
      in case downtime of Some d \<Rightarrow> jset ''signoz_downtime_id'' (JStr d) entry | None \<Rightarrow> entry)"

fun replace_first :: "('a \<Rightarrow> bool) \<Rightarrow> 'a \<Rightarrow> 'a list \<Rightarrow> 'a list" where
  "replace_first P y [] = [y]"
| "replace_first P y (x # xs) = (if P x then y # xs else x # replace_first P y xs)"

definition name_of :: "json \<Rightarrow> string" where
  "name_of device = (case get_str device ''name'' of Some n \<Rightarrow> n | None \<Rightarrow> [])"

text \<open>The last argument tells whether the file can be written.\<close>

definition store_upsert_device ::
  "string \<Rightarrow> string \<Rightarrow> string \<Rightarrow> string \<Rightarrow> string \<Rightarrow> string option \<Rightarrow> inv_file \<Rightarrow> bool \<Rightarrow> mon_error + (string \<times> json)" where
  "store_upsert_device name address kind site state downtime f writable =
     and_then (normalize_slug name) (\<lambda>i.
     and_then (mon_read_inventory f) (\<lambda>inventory.
       case get_array inventory ''devices'' of
         None \<Rightarrow> Inl No_Devices_Array
       | Some devices \<Rightarrow>
           let entry = device_entry i name address kind site state downtime;
               devices = sort_key name_of (replace_first (has_id i) entry devices);
               inventory = jset ''devices'' (JArr devices) inventory
           in if writable then Inr (i, inventory) else Inl Write_Failed))"

definition store_delete_device :: "string \<Rightarrow> inv_file \<Rightarrow> bool \<Rightarrow> mon_error + json" where
  "store_delete_device i f writable =
     and_then (mon_read_inventory f) (\<lambda>inventory.
       case get_array inventory ''devices'' of
         None \<Rightarrow> Inl No_Devices_Array
       | Some devices \<Rightarrow>
           let rest = filter (\<lambda>d. \<not> has_id i d) devices
           in if length rest = length devices then Inl (Device_Not_Found i)
              else if writable then Inr (jset ''devices'' (JArr rest) inventory) else Inl Write_Failed)"

definition is_enabled :: "json \<Rightarrow> bool" where
  "is_enabled device \<longleftrightarrow> get_str device ''state'' = Some ''enabled''"

definition enabled_devices :: "json \<Rightarrow> json list" where
  "enabled_devices inventory = (case get_array inventory ''devices'' of None \<Rightarrow> [] | Some ds \<Rightarrow> filter is_enabled ds)"

section \<open>Maintenance schedules\<close>

text \<open>The schedules that exist at the service: their ids with the scope they silence.\<close>

type_synonym signoz = "(string \<times> string) set"

datatype create_outcome =
    Create_Refused string
  | Created string json
  | Created_Lost string

datatype delete_outcome = Deleted | Delete_Refused string | Deleted_Lost

definition device_scope :: "string \<Rightarrow> string" where
  "device_scope i = ''nexus_device_id='' @ [CHR 0x22] @ i @ [CHR 0x22]"

definition id_at :: "json \<Rightarrow> string list \<Rightarrow> string option" where
  "id_at response path =
     (case pointer response path of
        None \<Rightarrow> None
      | Some v \<Rightarrow> (case as_str v of Some s \<Rightarrow> Some s | None \<Rightarrow> map_option show_nat (as_unsigned v)))"

definition extract_downtime_id :: "json \<Rightarrow> mon_error + string" where
  "extract_downtime_id response =
     (case List.map_filter (id_at response)
             [[''id''], [''data'', ''id''], [''data'', ''downtimeSchedule'', ''id''], [''downtimeSchedule'', ''id'']] of
        i # _ \<Rightarrow> Inr i
      | [] \<Rightarrow> Inl (Signoz_Error ''no recognizable downtime id''))"

definition create_maintenance_downtime :: "create_outcome \<Rightarrow> string \<Rightarrow> signoz \<Rightarrow> (mon_error + string) \<times> signoz" where
  "create_maintenance_downtime outcome i sz =
     (case outcome of
        Create_Refused err \<Rightarrow> (Inl (Signoz_Error err), sz)
      | Created d response \<Rightarrow> (extract_downtime_id response, insert (d, device_scope i) sz)
      | Created_Lost d \<Rightarrow> (Inl (Signoz_Error ''request failed''), insert (d, device_scope i) sz))"

definition delete_downtime :: "delete_outcome \<Rightarrow> string \<Rightarrow> signoz \<Rightarrow> (mon_error + unit) \<times> signoz" where
  "delete_downtime outcome d sz =
     (case outcome of
        Deleted \<Rightarrow> (Inr (), {p \<in> sz. fst p \<noteq> d})
      | Delete_Refused err \<Rightarrow> (Inl (Signoz_Error err), sz)
      | Deleted_Lost \<Rightarrow> (Inl (Signoz_Error ''request failed''), {p \<in> sz. fst p \<noteq> d}))"

section \<open>Collector\<close>

definition yaml_quote :: "string \<Rightarrow> string" where
  "yaml_quote v = [CHR 0x27] @ str_replace (CHR 0x27) [CHR 0x27, CHR 0x27] v @ [CHR 0x27]"

definition required_field :: "json \<Rightarrow> string \<Rightarrow> mon_error + string" where
  "required_field device k = (case get_str device k of Some s \<Rightarrow> Inr s | None \<Rightarrow> Inl (Missing_Field k))"

definition nl :: string where "nl = [line_feed]"

definition target_config :: "json \<Rightarrow> mon_error + string" where
  "target_config device =
     and_then (required_field device ''id'') (\<lambda>i.
     and_then (required_field device ''name'') (\<lambda>name.
     and_then (required_field device ''address'') (\<lambda>address.
       let kind = (case get_str device ''kind'' of Some k \<Rightarrow> k | None \<Rightarrow> ''device'');
           site = (case get_str device ''site'' of Some s \<Rightarrow> s | None \<Rightarrow> ''home'')
       in Inr (''            - targets: ['' @ yaml_quote address @ '']'' @ nl
             @ ''              labels:'' @ nl
             @ ''                nexus_device_id: '' @ yaml_quote i @ nl
             @ ''                nexus_device_name: '' @ yaml_quote name @ nl
             @ ''                nexus_resource_type: '' @ yaml_quote kind @ nl
             @ ''                nexus_site: '' @ yaml_quote site @ nl
             @ ''                nexus_monitoring_profile: '' @ yaml_quote ''icmp'' @ nl))))"

fun target_configs :: "json list \<Rightarrow> mon_error + string" where
  "target_configs [] = Inr []"
| "target_configs (d # ds) = and_then (target_config d) (\<lambda>s. and_then (target_configs ds) (\<lambda>t. Inr (s @ t)))"

definition quote :: string where "quote = [CHR 0x27]"

definition collector_frame :: "string \<Rightarrow> string \<Rightarrow> string \<Rightarrow> string" where
  "collector_frame interval static_configs endpoint =
      ''receivers:'' @ nl
      @ ''  prometheus/nexus_icmp:'' @ nl
      @ ''    config:'' @ nl
      @ ''      scrape_configs:'' @ nl
      @ ''        - job_name: '' @ quote @ ''nexus_icmp'' @ quote @ nl
      @ ''          scrape_interval: '' @ interval @ nl
      @ ''          metrics_path: /probe'' @ nl
      @ ''          params:'' @ nl
      @ ''            module: ['' @ quote @ ''icmp'' @ quote @ '']'' @ nl
      @ ''          static_configs:'' @ nl
      @ static_configs @ ''          relabel_configs:'' @ nl
      @ ''            - source_labels: [__address__]'' @ nl
      @ ''              target_label: __param_target'' @ nl
      @ ''            - source_labels: [__param_target]'' @ nl
      @ ''              target_label: instance'' @ nl
      @ ''            - target_label: __address__'' @ nl
      @ ''              replacement: '' @ quote @ ''127.0.0.1:9115'' @ quote @ nl
      @ nl
      @ ''processors:'' @ nl
      @ ''  batch: {}'' @ nl
      @ nl
      @ ''exporters:'' @ nl
      @ ''  otlp:'' @ nl
      @ ''    endpoint: '' @ endpoint @ nl
      @ ''    tls:'' @ nl
      @ ''      insecure: true'' @ nl
      @ nl
      @ ''service:'' @ nl
      @ ''  telemetry:'' @ nl
      @ ''    metrics:'' @ nl
      @ ''      readers:'' @ nl
      @ ''        - pull:'' @ nl
      @ ''            exporter:'' @ nl
      @ ''              prometheus:'' @ nl
      @ ''                host: '' @ quote @ ''127.0.0.1'' @ quote @ nl
      @ ''                port: 8889'' @ nl
      @ ''  pipelines:'' @ nl
      @ ''    metrics/nexus_icmp:'' @ nl
      @ ''      receivers: [prometheus/nexus_icmp]'' @ nl
      @ ''      processors: [batch]'' @ nl
      @ ''      exporters: [otlp]'' @ nl"

definition collector_config :: "json \<Rightarrow> mon_error + string" where
  "collector_config inventory =
     (let devices = enabled_devices inventory
      in if devices = [] then Inl No_Enabled_Devices
         else let interval = (case Option.bind (pointer inventory [''probe'', ''collection_interval'']) as_str of Some s \<Rightarrow> s | None \<Rightarrow> ''30s'');
                  endpoint = (case Option.bind (pointer inventory [''probe'', ''otlp_endpoint'']) as_str of Some s \<Rightarrow> s | None \<Rightarrow> DEFAULT_OTLP_ENDPOINT)
              in and_then (target_configs devices) (\<lambda>static_configs. Inr (collector_frame interval static_configs (yaml_quote endpoint))))"

record collector =
  co_config :: "string option"
  co_collector_enabled :: bool
  co_blackbox_enabled :: bool

record collector_env =
  ce_exists :: "string \<Rightarrow> bool"
  ce_command :: "string \<Rightarrow> bool"
  ce_write :: bool
  ce_rename :: bool

definition run_command :: "collector_env \<Rightarrow> string \<Rightarrow> mon_error + unit" where
  "run_command ce c = (if ce_command ce c then Inr () else Inl (Command_Failed c))"

text \<open>The result is the number of active targets; the steps after the replacement of the file change the services.\<close>

definition reconcile :: "collector_env \<Rightarrow> json \<Rightarrow> collector \<Rightarrow> (mon_error + nat) \<times> collector" where
  "reconcile ce inventory co =
     (if enabled_devices inventory = []
      then (Inr 0, co\<lparr>co_collector_enabled := co_collector_enabled co \<and> \<not> ce_command ce ''disable collector'',
                      co_blackbox_enabled := co_blackbox_enabled co \<and> \<not> ce_command ce ''disable blackbox''\<rparr>)
      else if \<not> ce_exists ce ''collector'' then (Inl (Not_Installed ''collector''), co)
      else if \<not> ce_exists ce ''blackbox'' then (Inl (Not_Installed ''blackbox''), co)
      else if \<not> ce_exists ce ''blackbox config'' then (Inl (Not_Installed ''blackbox config''), co)
      else case run_command ce ''check blackbox'' of Inl err \<Rightarrow> (Inl err, co) | Inr _ \<Rightarrow>
      (case collector_config inventory of Inl err \<Rightarrow> (Inl err, co) | Inr config \<Rightarrow>
      if \<not> ce_write ce then (Inl Write_Failed, co)
      else case run_command ce ''validate'' of Inl err \<Rightarrow> (Inl err, co) | Inr _ \<Rightarrow>
      if \<not> ce_rename ce then (Inl Write_Failed, co)
      else let co = co\<lparr>co_config := Some config\<rparr>
      in case run_command ce ''daemon-reload'' of Inl err \<Rightarrow> (Inl err, co) | Inr _ \<Rightarrow>
      (case run_command ce ''enable blackbox'' of Inl err \<Rightarrow> (Inl err, co) | Inr _ \<Rightarrow>
      let co = co\<lparr>co_blackbox_enabled := True\<rparr>
      in case run_command ce ''enable collector'' of Inl err \<Rightarrow> (Inl err, co) | Inr _ \<Rightarrow>
      (case run_command ce ''restart collector'' of Inl err \<Rightarrow> (Inl err, co) | Inr _ \<Rightarrow>
         (Inr (length (enabled_devices inventory)), co\<lparr>co_collector_enabled := True\<rparr>)))))"

section \<open>Handlers\<close>

record mon_state =
  mo_file :: inv_file
  mo_signoz :: signoz
  mo_collector :: collector

record mon_oracle =
  or_create :: create_outcome
  or_delete :: delete_outcome
  or_writable :: bool
  or_collector :: collector_env
  or_is_ip :: "string \<Rightarrow> bool"

datatype maintenance_note = No_Note | Downtime_Created string | Downtime_Deleted string | Downtime_Error

definition device_downtime :: "json option \<Rightarrow> string option" where
  "device_downtime device = Option.bind device (\<lambda>d. get_str d ''signoz_downtime_id'')"

text \<open>The schedule is brought in line with the wanted state and what is recorded.\<close>

definition sync_downtime ::
  "mon_oracle \<Rightarrow> string \<Rightarrow> string \<Rightarrow> string option \<Rightarrow> signoz \<Rightarrow> string option \<times> maintenance_note \<times> signoz" where
  "sync_downtime orc i state existing sz =
     (if state = ''maintenance''
      then (case existing of
              Some d \<Rightarrow> (Some d, No_Note, sz)
            | None \<Rightarrow>
                (case create_maintenance_downtime (or_create orc) i sz of
                   (Inr d, sz) \<Rightarrow> (Some d, Downtime_Created d, sz)
                 | (Inl _, sz) \<Rightarrow> (None, Downtime_Error, sz)))
      else (case existing of
              None \<Rightarrow> (None, No_Note, sz)
            | Some d \<Rightarrow>
                (case delete_downtime (or_delete orc) d sz of
                   (Inr _, sz) \<Rightarrow> (None, Downtime_Deleted d, sz)
                 | (Inl _, sz) \<Rightarrow> (Some d, Downtime_Error, sz))))"

record device_input =
  di_name :: string
  di_address :: string
  di_kind :: string
  di_site :: "string option"
  di_state :: "string option"

record device_fields =
  df_id :: string
  df_name :: string
  df_address :: string
  df_kind :: string
  df_site :: string
  df_state :: string

definition check_device :: "(string \<Rightarrow> bool) \<Rightarrow> device_input \<Rightarrow> mon_error + device_fields" where
  "check_device is_ip di =
     and_then (normalize_name (di_name di)) (\<lambda>name.
     and_then (normalize_address is_ip (di_address di)) (\<lambda>address.
     and_then (normalize_simple_label (di_kind di) ''device kind'') (\<lambda>kind.
     and_then (normalize_simple_label (case di_site di of Some s \<Rightarrow> s | None \<Rightarrow> ''home'') ''site'') (\<lambda>site.
     and_then (normalize_state (case di_state di of Some s \<Rightarrow> s | None \<Rightarrow> ''enabled'')) (\<lambda>state.
     and_then (normalize_slug name) (\<lambda>i.
       Inr \<lparr>df_id = i, df_name = name, df_address = address, df_kind = kind, df_site = site, df_state = state\<rparr>))))))"

type_synonym device_result = "mon_error + string \<times> json \<times> (mon_error + nat) \<times> maintenance_note"

definition upsert_device :: "mon_oracle \<Rightarrow> device_input \<Rightarrow> mon_state \<Rightarrow> device_result \<times> mon_state" where
  "upsert_device orc di mo =
     (case check_device (or_is_ip orc) di of Inl err \<Rightarrow> (Inl err, mo) | Inr df \<Rightarrow>
     (case mon_read_inventory (mo_file mo) of Inl err \<Rightarrow> (Inl err, mo) | Inr previous \<Rightarrow>
       let existing = device_downtime (find_device previous (df_id df));
           (downtime, note, sz) = sync_downtime orc (df_id df) (df_state df) existing (mo_signoz mo);
           mo = mo\<lparr>mo_signoz := sz\<rparr>
       in case store_upsert_device (df_name df) (df_address df) (df_kind df) (df_site df) (df_state df) downtime (mo_file mo)
                 (or_writable orc) of
            Inl err \<Rightarrow> (Inl err, mo)
          | Inr (i, inventory) \<Rightarrow>
              let (result, co) = reconcile (or_collector orc) inventory (mo_collector mo)
              in (Inr (i, inventory, result, note), mo\<lparr>mo_file := Parsed inventory, mo_collector := co\<rparr>)))"

definition delete_device :: "mon_oracle \<Rightarrow> string \<Rightarrow> mon_state \<Rightarrow> (mon_error + string \<times> json \<times> (mon_error + nat)) \<times> mon_state" where
  "delete_device orc input mo =
     (case normalize_slug input of Inl err \<Rightarrow> (Inl err, mo) | Inr i \<Rightarrow>
     (case mon_read_inventory (mo_file mo) of Inl err \<Rightarrow> (Inl err, mo) | Inr previous \<Rightarrow>
       case store_delete_device i (mo_file mo) (or_writable orc) of
         Inl err \<Rightarrow> (Inl err, mo)
       | Inr inventory \<Rightarrow>
           let sz = (case device_downtime (find_device previous i) of
                       Some d \<Rightarrow> snd (delete_downtime (or_delete orc) d (mo_signoz mo))
                     | None \<Rightarrow> mo_signoz mo);
               (result, co) = reconcile (or_collector orc) inventory (mo_collector mo)
           in (Inr (i, inventory, result), \<lparr>mo_file = Parsed inventory, mo_signoz = sz, mo_collector = co\<rparr>)))"

definition count_in_state :: "string \<Rightarrow> json \<Rightarrow> nat" where
  "count_in_state s inventory =
     (case get_array inventory ''devices'' of
        None \<Rightarrow> 0 | Some ds \<Rightarrow> length (filter (\<lambda>d. get_str d ''state'' = Some s) ds))"

definition monitoring_view :: "json \<Rightarrow> json \<times> nat \<times> nat" where
  "monitoring_view inventory = (inventory, count_in_state ''enabled'' inventory, count_in_state ''maintenance'' inventory)"

definition normalize_optional_text :: "string option \<Rightarrow> string option" where
  "normalize_optional_text v =
     (case map_option trim v of Some s \<Rightarrow> if s \<noteq> [] then Some s else None | None \<Rightarrow> None)"

definition parse_alert_ids :: "string option \<Rightarrow> string list" where
  "parse_alert_ids v = filter (\<lambda>s. s \<noteq> []) (map trim (split_char (CHR '','') (case v of Some s \<Rightarrow> s | None \<Rightarrow> [])))"

record downtime_payload =
  dp_name :: string
  dp_description :: string
  dp_timezone :: string
  dp_start_time :: string
  dp_end_time :: string
  dp_alert_ids :: "string list"
  dp_scope :: string

definition check_downtime ::
  "string \<Rightarrow> string \<Rightarrow> string \<Rightarrow> string \<Rightarrow> string option \<Rightarrow> string option \<Rightarrow> string option \<Rightarrow> mon_error + downtime_payload" where
  "check_downtime name timezone start_time end_time description scope alert_ids =
     (let name = trim name; timezone = trim timezone; start_time = trim start_time; end_time = trim end_time
      in if name = [] \<or> timezone = [] \<or> start_time = [] \<or> end_time = [] then Inl Bad_Downtime
         else if 160 < length name \<or> 128 < length timezone \<or> 64 < length start_time \<or> 64 < length end_time
         then Inl Downtime_Too_Long
         else Inr \<lparr>dp_name = name,
                   dp_description = (case normalize_optional_text description of Some s \<Rightarrow> s | None \<Rightarrow> []),
                   dp_timezone = timezone, dp_start_time = start_time, dp_end_time = end_time,
                   dp_alert_ids = parse_alert_ids alert_ids,
                   dp_scope = (case normalize_optional_text scope of Some s \<Rightarrow> s | None \<Rightarrow> [])\<rparr>)"

definition check_downtime_id :: "string \<Rightarrow> mon_error + string" where
  "check_downtime_id input =
     (let i = trim input
      in if i = [] \<or> 128 < length i \<or> \<not> list_all (\<lambda>c. is_ascii_alphanumeric c \<or> c = CHR ''-'') i
         then Inl Bad_Downtime_Id else Inr i)"

text \<open>The schedules that operators create and delete themselves, with the answer of the service.\<close>

definition create_signoz_downtime ::
  "mon_oracle \<Rightarrow> string \<Rightarrow> string \<Rightarrow> string \<Rightarrow> string \<Rightarrow> string option \<Rightarrow> string option \<Rightarrow> string option \<Rightarrow> mon_state
     \<Rightarrow> (mon_error + json) \<times> mon_state" where
  "create_signoz_downtime orc name timezone start_time end_time description scope alert_ids mo =
     (case check_downtime name timezone start_time end_time description scope alert_ids of
        Inl err \<Rightarrow> (Inl err, mo)
      | Inr payload \<Rightarrow>
          (case or_create orc of
             Create_Refused err \<Rightarrow> (Inl (Signoz_Error err), mo)
           | Created d response \<Rightarrow> (Inr response, mo\<lparr>mo_signoz := insert (d, dp_scope payload) (mo_signoz mo)\<rparr>)
           | Created_Lost d \<Rightarrow> (Inl (Signoz_Error ''request failed''), mo\<lparr>mo_signoz := insert (d, dp_scope payload) (mo_signoz mo)\<rparr>)))"

definition delete_signoz_downtime :: "mon_oracle \<Rightarrow> string \<Rightarrow> mon_state \<Rightarrow> (mon_error + unit) \<times> mon_state" where
  "delete_signoz_downtime orc input mo =
     (case check_downtime_id input of
        Inl err \<Rightarrow> (Inl err, mo)
      | Inr i \<Rightarrow> let (r, sz) = delete_downtime (or_delete orc) i (mo_signoz mo) in (r, mo\<lparr>mo_signoz := sz\<rparr>))"

definition reconcile_now :: "mon_oracle \<Rightarrow> mon_state \<Rightarrow> (mon_error + nat) \<times> mon_state" where
  "reconcile_now orc mo =
     (case mon_read_inventory (mo_file mo) of
        Inl err \<Rightarrow> (Inl err, mo)
      | Inr inventory \<Rightarrow> let (r, co) = reconcile (or_collector orc) inventory (mo_collector mo) in (r, mo\<lparr>mo_collector := co\<rparr>))"

fun first_latency :: "string list \<Rightarrow> string option" where
  "first_latency [] = None"
| "first_latency (part # parts) =
     (case strip_prefix ''time='' part of Some v \<Rightarrow> Some v | None \<Rightarrow> first_latency parts)"

text \<open>
  The parameters are the run of \<open>ping\<close> on an address (its success and its output, or nothing when it cannot be run) and
  the parser of floating point numbers.
\<close>

definition probe_device ::
  "(string \<Rightarrow> (bool \<times> string) option) \<Rightarrow> (string \<Rightarrow> 'f option) \<Rightarrow> string \<Rightarrow> inv_file \<Rightarrow> mon_error + string \<times> string \<times> bool \<times> 'f option" where
  "probe_device ping parse_f64 input f =
     and_then (normalize_slug input) (\<lambda>i.
     and_then (mon_read_inventory f) (\<lambda>inventory.
     and_then (case find_device inventory i of Some device \<Rightarrow> Inr device | None \<Rightarrow> Inl (Device_Not_Found i)) (\<lambda>device.
     and_then (required_field device ''address'') (\<lambda>address.
       case ping address of
         None \<Rightarrow> Inl (Command_Failed ''ping'')
       | Some (success, out) \<Rightarrow> Inr (i, address, success, Option.bind (first_latency (split_whitespace out)) parse_f64)))))"

fun count_collection :: "json \<Rightarrow> string list \<Rightarrow> nat option" where
  "count_collection v [] = map_option length (as_array v)"
| "count_collection v (k # ks) =
     (case as_array v of
        Some vs \<Rightarrow> Some (length vs)
      | None \<Rightarrow> (case get_array v k of Some vs \<Rightarrow> Some (length vs) | None \<Rightarrow> count_collection v ks))"

end
