(* ===== verification/Monitoring_Props.thy ===== *)
theory Monitoring_Props
  imports Monitoring "HOL-Library.Multiset"
begin

text \<open>
  Properties of device monitoring: the ids and quoting it relies on, that the schedules at the alerting service are in
  step with the inventory, and what happens to a schedule that is gone.
\<close>

section \<open>Device ids\<close>

text \<open>A slug under construction: letters and digits, single dashes between them.\<close>

definition slug_char :: "char \<Rightarrow> bool" where
  "slug_char c \<longleftrightarrow> is_ascii_alphanumeric c \<and> ascii_lower_char c = c"

fun slug_ok :: "string \<Rightarrow> bool" where
  "slug_ok [] = True"
| "slug_ok [c] = (slug_char c \<or> c = CHR ''-'')"
| "slug_ok (c # d # s) = ((slug_char c \<or> c = CHR ''-'' \<and> d \<noteq> CHR ''-'') \<and> slug_ok (d # s))"

definition is_slug :: "string \<Rightarrow> bool" where
  "is_slug s \<longleftrightarrow> s \<noteq> [] \<and> length s \<le> 64 \<and> hd s \<noteq> CHR ''-'' \<and> last s \<noteq> CHR ''-'' \<and> slug_ok s"

lemma dash_not_alphanumeric [simp]: "\<not> is_ascii_alphanumeric (CHR ''-'')" "\<not> slug_char (CHR ''-'')"
  by (simp_all add: is_ascii_alphanumeric_def slug_char_def)

lemma slug_ok_append: "slug_ok s \<Longrightarrow> slug_char c \<or> c = CHR ''-'' \<and> (s = [] \<or> last s \<noteq> CHR ''-'') \<Longrightarrow> slug_ok (s @ [c])"
  by (induction s rule: slug_ok.induct) auto

lemma slug_ok_butlast: "slug_ok (s @ [c]) \<Longrightarrow> slug_ok s"
  by (induction s rule: slug_ok.induct) auto

lemma slug_loop_ok:
  assumes "slug_ok out" and "out = [] \<or> hd out \<noteq> CHR ''-''" and "out \<noteq> [] \<longrightarrow> (prev \<longleftrightarrow> last out = CHR ''-'')"
    and "\<forall>c \<in> set chs. ascii_lower_char c = c"
  shows "slug_ok (slug_loop chs out prev) \<and> (slug_loop chs out prev = [] \<or> hd (slug_loop chs out prev) \<noteq> CHR ''-'')"
  using assms
proof (induction chs out prev rule: slug_loop.induct)
  case (2 ch chs out prev)
  show ?case
  proof (cases "is_ascii_alphanumeric ch")
    case True
    then have sc: "slug_char ch" using "2.prems"(4) by (simp add: slug_char_def)
    then have ne: "ch \<noteq> CHR ''-''" by auto
    show ?thesis using "2.IH"(1) [OF True] "2.prems" True sc ne by (cases "out = []") (auto simp: slug_ok_append)
  next
    case False
    show ?thesis
    proof (cases "\<not> prev \<and> out \<noteq> []")
      case dash: True
      have "slug_ok (out @ ''-'')" using "2.prems" dash by (intro slug_ok_append) auto
      then show ?thesis using "2.IH"(2) [OF False dash] "2.prems" dash False by auto
    next
      case nodash: False
      have "slug_loop (ch # chs) out prev = slug_loop chs out prev" using False nodash by auto
      then show ?thesis using "2.IH"(3) [OF False nodash] "2.prems" by simp
    qed
  qed
qed simp

lemma slug_ok_prefix: "slug_ok (s @ t) \<Longrightarrow> slug_ok s"
proof (induction t rule: rev_induct)
  case (snoc c t)
  have "slug_ok (s @ t)" using snoc.prems slug_ok_butlast [of "s @ t" c] by simp
  then show ?case by (rule snoc.IH)
qed simp

lemma normalize_slug_is_slug: "normalize_slug input = Inr s \<Longrightarrow> is_slug s"
proof -
  assume a: "normalize_slug input = Inr s"
  let ?l = "slug_loop (to_ascii_lowercase (trim input)) [] False"
  have s: "s = trim_end_matches (CHR ''-'') ?l" "s \<noteq> []" "length s \<le> 64"
    using a by (auto simp: normalize_slug_def Let_def split: if_splits)
  have ok: "slug_ok ?l \<and> (?l = [] \<or> hd ?l \<noteq> CHR ''-'')"
    by (intro slug_loop_ok) (auto simp: to_ascii_lowercase_def)
  obtain t where t: "?l = s @ t" using trim_end_by_prefix [of ?l "(=) (CHR ''-'')"] s(1) by (auto simp: trim_end_matches_def)
  have "hd s \<noteq> CHR ''-''" using ok t s(2) by (cases s) auto
  moreover have "last s \<noteq> CHR ''-''"
    using trim_end_by_last [of "(=) (CHR ''-'')" ?l] s(1,2) by (auto simp: trim_end_matches_def)
  moreover have "slug_ok s" using ok t slug_ok_prefix by metis
  ultimately show ?thesis using s by (simp add: is_slug_def)
qed

lemma slug_loop_id:
  "slug_ok (out @ s) \<Longrightarrow> out @ s = [] \<or> hd (out @ s) \<noteq> CHR ''-'' \<Longrightarrow> out \<noteq> [] \<longrightarrow> (prev \<longleftrightarrow> last out = CHR ''-'') \<Longrightarrow>
     slug_loop s out prev = out @ s"
proof (induction s arbitrary: out prev)
  case (Cons c s)
  have ok: "slug_ok ((out @ [c]) @ s)" using Cons.prems(1) by simp
  have pre: "slug_ok (out @ [c])" using slug_ok_prefix [OF ok] .
  show ?case
  proof (cases "c = CHR ''-''")
    case True
    then have "out \<noteq> []" using Cons.prems(2) by (cases out) auto
    moreover from this have "last out \<noteq> CHR ''-''"
      using pre True by (induction out rule: slug_ok.induct) auto
    ultimately show ?thesis
      using Cons.IH [of "out @ [c]" True] Cons.prems True by simp
  next
    case False
    then have "slug_char c" using pre by (induction out rule: slug_ok.induct) auto
    then show ?thesis using Cons.IH [of "out @ [c]" False] Cons.prems False by (simp add: slug_char_def)
  qed
qed simp

lemma slug_ok_chars: "slug_ok s \<Longrightarrow> c \<in> set s \<Longrightarrow> slug_char c \<or> c = CHR ''-''"
  by (induction s rule: slug_ok.induct) auto

lemma whitespace_not_slug: "slug_char c \<or> c = CHR ''-'' \<Longrightarrow> \<not> is_whitespace c"
  by (auto simp: slug_char_def is_ascii_alphanumeric_def is_whitespace_def Let_def)

lemma lower_slug: "slug_char c \<or> c = CHR ''-'' \<Longrightarrow> ascii_lower_char c = c"
proof (elim disjE)
  assume "c = CHR ''-''"
  then show ?thesis by (simp add: ascii_lower_char_def)
qed (simp add: slug_char_def)

lemma normalize_slug_id:
  assumes "is_slug s"
  shows "normalize_slug s = Inr s"
proof -
  have chars: "slug_char c \<or> c = CHR ''-''" if "c \<in> set s" for c
    using assms that slug_ok_chars [of s c] by (simp add: is_slug_def)
  have ends: "hd s \<in> set s" "last s \<in> set s" using assms by (auto simp: is_slug_def)
  have "trim s = s" unfolding trim_def using chars ends whitespace_not_slug by (intro trim_by_id) blast
  moreover have "to_ascii_lowercase s = s" unfolding to_ascii_lowercase_def
    using chars lower_slug by (intro map_idI) blast
  moreover have "slug_loop s [] False = s" using slug_loop_id [of "[]" s False] assms by (simp add: is_slug_def)
  moreover have "trim_end_matches (CHR ''-'') s = s"
    unfolding trim_end_matches_def using assms by (intro trim_end_by_id) (auto simp: is_slug_def)
  ultimately show ?thesis using assms by (simp add: normalize_slug_def is_slug_def)
qed

theorem device_ids_normal:
  "(normalize_slug input = Inr s \<longrightarrow> is_slug s \<and> normalize_slug s = Inr s) \<and> (is_slug s \<longrightarrow> normalize_slug s = Inr s)"
  using normalize_slug_is_slug normalize_slug_id by blast

section \<open>Quoting\<close>

text \<open>Reading a single-quoted scalar as the YAML reader does: a doubled quote stands for one, a single one ends it.\<close>

fun scan_quoted :: "string \<Rightarrow> (string \<times> string) option" where
  "scan_quoted [] = None"
| "scan_quoted [c] = (if c = CHR 0x27 then Some ([], []) else None)"
| "scan_quoted (c # d # s) =
     (if c = CHR 0x27 then (if d = CHR 0x27 then map_option (\<lambda>(v, r). (c # v, r)) (scan_quoted s) else Some ([], d # s))
      else map_option (\<lambda>(v, r). (c # v, r)) (scan_quoted (d # s)))"

definition yaml_scan :: "string \<Rightarrow> (string \<times> string) option" where
  "yaml_scan s = (case s of [] \<Rightarrow> None | c # cs \<Rightarrow> if c = CHR 0x27 then scan_quoted cs else None)"

lemma scan_quoted_other: "c \<noteq> CHR 0x27 \<Longrightarrow> scan_quoted (c # s) = map_option (\<lambda>(v, r). (c # v, r)) (scan_quoted s)"
  by (cases s) auto

lemma scan_quoted_replace:
  "rest = [] \<or> hd rest \<noteq> CHR 0x27 \<Longrightarrow>
     scan_quoted (str_replace (CHR 0x27) [CHR 0x27, CHR 0x27] s @ [CHR 0x27] @ rest) = Some (s, rest)"
proof (induction s)
  case Nil then show ?case by (cases rest) (auto simp: str_replace_def)
next
  case (Cons c s)
  show ?case
  proof (cases "c = CHR 0x27")
    case True then show ?thesis using Cons by (simp add: str_replace_def)
  next
    case False then show ?thesis using Cons by (simp add: str_replace_def scan_quoted_other)
  qed
qed

theorem yaml_quote_roundtrip:
  assumes "rest = [] \<or> hd rest \<noteq> CHR 0x27"
  shows "yaml_scan (yaml_quote s @ rest) = Some (s, rest)"
  using scan_quoted_replace [OF assms] by (simp add: yaml_scan_def yaml_quote_def)

theorem yaml_quote_roundtrip_witness:
  "yaml_scan (yaml_quote [CHR ''a'', CHR 0x27, CHR ''b''] @ ''], x: 1'') = Some ([CHR ''a'', CHR 0x27, CHR ''b''], ''], x: 1'')"
  by (rule yaml_quote_roundtrip) simp

section \<open>Schedules and the inventory\<close>

definition device_id :: "json \<Rightarrow> string option" where
  "device_id d = get_str d ''id''"

definition downtime_map :: "json list \<Rightarrow> string \<rightharpoonup> string" where
  "downtime_map ds i = device_downtime (List.find (has_id i) ds)"

definition devices_ok :: "json list \<Rightarrow> bool" where
  "devices_ok ds \<longleftrightarrow> distinct (map device_id ds) \<and> (\<forall>d \<in> set ds. device_id d \<noteq> None)"

lemma find_unique:
  assumes "x \<in> set xs" "P x" "\<And>y. y \<in> set xs \<Longrightarrow> P y \<Longrightarrow> y = x"
  shows "List.find P xs = Some x"
proof (cases "List.find P xs")
  case None
  then have "\<not> P x" using assms(1) by (simp add: find_None_iff)
  with assms(2) show ?thesis by simp
next
  case (Some y)
  then have "y \<in> set xs" "P y" using find_SomeD by fast+
  then show ?thesis using assms(3) Some by simp
qed

lemma has_id_unique: "devices_ok ds \<Longrightarrow> x \<in> set ds \<Longrightarrow> y \<in> set ds \<Longrightarrow> has_id i x \<Longrightarrow> has_id i y \<Longrightarrow> x = y"
  unfolding devices_ok_def distinct_map inj_on_def by (simp add: has_id_def device_id_def)

lemma find_same_set:
  assumes "devices_ok ds" and "set ds' = set ds"
  shows "List.find (has_id i) ds' = List.find (has_id i) ds"
proof (cases "\<exists>x \<in> set ds. has_id i x")
  case True
  then obtain x where x: "x \<in> set ds" "has_id i x" by blast
  have "List.find (has_id i) ds = Some x" "List.find (has_id i) ds' = Some x"
    using x assms has_id_unique [OF assms(1)] by (auto intro!: find_unique)
  then show ?thesis by simp
next
  case False
  then have "List.find (has_id i) ds = None" "List.find (has_id i) ds' = None"
    using assms(2) by (auto simp: find_None_iff)
  then show ?thesis by simp
qed

lemma device_entry_fields:
  "get_str (device_entry i name address kind site state dt) ''id'' = Some i"
  "get_str (device_entry i name address kind site state dt) ''state'' = Some state"
  "get_str (device_entry i name address kind site state dt) ''signoz_downtime_id'' = dt"
  by (cases dt; simp add: device_entry_def Let_def get_str_jset is_object_def; simp add: get_str_def)+

lemma has_id_inj: "has_id i d \<Longrightarrow> has_id j d \<Longrightarrow> i = j"
  by (simp add: has_id_def)

lemma find_replace_first:
  "(\<And>j. has_id j entry \<longleftrightarrow> j = i) \<Longrightarrow>
     List.find (has_id j) (replace_first (has_id i) entry ds) = (if j = i then Some entry else List.find (has_id j) ds)"
proof (induction ds)
  case (Cons d ds)
  then show ?case using has_id_inj [of i d j] by (cases "j = i") auto
qed simp

lemma replace_first_ids:
  assumes "device_id entry = Some i"
  shows "map device_id (replace_first (has_id i) entry ds) =
    (if Some i \<in> set (map device_id ds) then map device_id ds else map device_id ds @ [Some i])"
  using assms by (induction ds) (auto simp: has_id_def device_id_def)

lemma devices_ok_replace: "devices_ok ds \<Longrightarrow> device_id entry = Some i \<Longrightarrow> devices_ok (replace_first (has_id i) entry ds)"
proof -
  assume a: "devices_ok ds" "device_id entry = Some i"
  have "set (map device_id (replace_first (has_id i) entry ds)) \<subseteq> insert (Some i) (set (map device_id ds))"
    unfolding replace_first_ids [OF a(2)] by auto
  moreover have "None \<notin> set (map device_id ds)" using a(1) by (auto simp: devices_ok_def)
  ultimately have "None \<notin> set (map device_id (replace_first (has_id i) entry ds))" by blast
  moreover have "distinct (map device_id (replace_first (has_id i) entry ds))"
    unfolding replace_first_ids [OF a(2)] using a(1) by (simp add: devices_ok_def)
  ultimately show ?thesis by (force simp: devices_ok_def)
qed

lemma devices_ok_sort: "devices_ok (sort_key f ds) = devices_ok ds"
proof -
  have "distinct (map device_id (sort_key f ds)) = distinct (map device_id ds)"
    by (rule mset_eq_imp_distinct_iff) simp
  then show ?thesis by (simp add: devices_ok_def)
qed

lemma downtime_map_upsert:
  assumes ok: "devices_ok ds" and entry: "device_id entry = Some i"
  shows "downtime_map (sort_key f (replace_first (has_id i) entry ds)) = (downtime_map ds)(i := get_str entry ''signoz_downtime_id'')"
proof
  fix j
  have h: "has_id k entry \<longleftrightarrow> k = i" for k using entry by (auto simp: has_id_def device_id_def)
  have "List.find (has_id j) (sort_key f (replace_first (has_id i) entry ds)) = (if j = i then Some entry else List.find (has_id j) ds)"
    using find_same_set [OF devices_ok_replace [OF ok entry], of "sort_key f (replace_first (has_id i) entry ds)" j]
      find_replace_first [of entry i j ds, OF h] by simp
  then show "downtime_map (sort_key f (replace_first (has_id i) entry ds)) j =
      ((downtime_map ds)(i := get_str entry ''signoz_downtime_id'')) j"
    by (simp add: downtime_map_def device_downtime_def)
qed

lemma find_filter_out:
  "List.find (has_id j) (filter (\<lambda>d. \<not> has_id i d) ds) = (if j = i then None else List.find (has_id j) ds)"
proof (induction ds)
  case (Cons d ds)
  then show ?case using has_id_inj [of i d j] by (cases "j = i") auto
qed simp

lemma downtime_map_delete: "downtime_map (filter (\<lambda>d. \<not> has_id i d) ds) = (downtime_map ds)(i := None)"
proof
  fix j
  have "List.find (has_id j) (filter (\<lambda>d. \<not> has_id i d) ds) = (if j = i then None else List.find (has_id j) ds)"
    by (rule find_filter_out)
  then show "downtime_map (filter (\<lambda>d. \<not> has_id i d) ds) j = ((downtime_map ds)(i := None)) j"
    by (simp add: downtime_map_def device_downtime_def)
qed

definition tracked_by :: "(string \<rightharpoonup> string) \<Rightarrow> signoz" where
  "tracked_by m = {(d, device_scope i) | i d. m i = Some d}"

text \<open>The schedules at the service are exactly the recorded ones, and no two devices share one.\<close>

definition in_step :: "(string \<rightharpoonup> string) \<Rightarrow> signoz \<Rightarrow> bool" where
  "in_step m sz \<longleftrightarrow> sz = tracked_by m \<and> (\<forall>i j d. m i = Some d \<longrightarrow> m j = Some d \<longrightarrow> i = j)"

definition mon_inv :: "mon_state \<Rightarrow> bool" where
  "mon_inv mo \<longleftrightarrow> (\<exists>inventory ds. mon_read_inventory (mo_file mo) = Inr inventory \<and> is_object inventory
     \<and> get_array inventory ''devices'' = Some ds \<and> devices_ok ds \<and> in_step (downtime_map ds) (mo_signoz mo))"

text \<open>The service answers truthfully: a schedule is created under the fresh id that it reports, or not at all.\<close>

definition truthful :: "mon_oracle \<Rightarrow> signoz \<Rightarrow> bool" where
  "truthful orc sz \<longleftrightarrow>
     (case or_create orc of Create_Refused _ \<Rightarrow> True
      | Created d response \<Rightarrow> extract_downtime_id response = Inr d \<and> d \<notin> fst ` sz | Created_Lost _ \<Rightarrow> False)
     \<and> or_delete orc \<noteq> Deleted_Lost \<and> or_writable orc"

lemma in_step_insert: "in_step m sz \<Longrightarrow> d \<notin> fst ` sz \<Longrightarrow> m i = None \<Longrightarrow> in_step (m(i \<mapsto> d)) (insert (d, device_scope i) sz)"
proof -
  assume a: "in_step m sz" "d \<notin> fst ` sz" "m i = None"
  have new: "m j \<noteq> Some d" for j
  proof
    assume "m j = Some d"
    then have "(d, device_scope j) \<in> sz" using a(1) by (auto simp: in_step_def tracked_by_def)
    then show False using a(2) by force
  qed
  have "tracked_by (m(i \<mapsto> d)) = insert (d, device_scope i) (tracked_by m)"
  proof -
    have "(m(i \<mapsto> d)) j = Some e \<longleftrightarrow> j = i \<and> e = d \<or> m j = Some e" for j e using a(3) by auto
    then show ?thesis by (auto simp: tracked_by_def)
  qed
  then show ?thesis using a(1) new unfolding in_step_def by (metis fun_upd_apply option.inject)
qed

lemma in_step_remove: "in_step m sz \<Longrightarrow> m i = Some d \<Longrightarrow> in_step (m(i := None)) {p \<in> sz. fst p \<noteq> d}"
proof -
  assume a: "in_step m sz" "m i = Some d"
  then have only: "m j = Some d \<Longrightarrow> j = i" for j by (simp add: in_step_def)
  have "tracked_by (m(i := None)) = {p \<in> tracked_by m. fst p \<noteq> d}"
  proof -
    have "(m(i := None)) j = Some e \<longleftrightarrow> m j = Some e \<and> e \<noteq> d" for j e
      using a(2) only [of j] by (cases "j = i") auto
    then show ?thesis by (auto simp: tracked_by_def)
  qed
  moreover have "j = k" if "(m(i := None)) j = Some e" "(m(i := None)) k = Some e" for j k e
  proof -
    have "m j = Some e" "m k = Some e" using that by (auto split: if_splits)
    moreover have "\<forall>i j d. m i = Some d \<longrightarrow> m j = Some d \<longrightarrow> i = j" using a(1) by (simp add: in_step_def)
    ultimately show ?thesis by blast
  qed
  moreover have "sz = tracked_by m" using a(1) by (simp add: in_step_def)
  ultimately show ?thesis unfolding in_step_def by blast
qed

lemma sync_in_step:
  assumes "in_step m sz" and "truthful orc sz" and "sync_downtime orc i state (m i) sz = (downtime, nt, sz')"
  shows "in_step (m(i := downtime)) sz'"
  using assms in_step_insert [of m sz _ i] in_step_remove [of m sz i]
  by (auto simp: sync_downtime_def create_maintenance_downtime_def delete_downtime_def truthful_def fun_upd_idem
      split: if_splits option.splits create_outcome.splits delete_outcome.splits sum.splits)

lemma upsert_inv:
  assumes inv: "mon_inv mo" and good: "truthful orc (mo_signoz mo)"
  shows "mon_inv (snd (upsert_device orc di mo))"
proof -
  obtain inventory ds where r: "mon_read_inventory (mo_file mo) = Inr inventory" "is_object inventory"
    "get_array inventory ''devices'' = Some ds" "devices_ok ds" "in_step (downtime_map ds) (mo_signoz mo)"
    using inv by (auto simp: mon_inv_def)
  show ?thesis
  proof (cases "check_device (or_is_ip orc) di")
    case (Inl err) then show ?thesis using inv by (simp add: upsert_device_def)
  next
    case (Inr df)
    obtain dt nt sz where sync: "sync_downtime orc (df_id df) (df_state df) (downtime_map ds (df_id df)) (mo_signoz mo) = (dt, nt, sz)"
      by (metis prod_cases3)
    have slug: "normalize_slug (df_name df) = Inr (df_id df)"
      using Inr by (auto simp: check_device_def and_then_Inr_iff)
    let ?entry = "device_entry (df_id df) (df_name df) (df_address df) (df_kind df) (df_site df) (df_state df) dt"
    let ?ds = "sort_key name_of (replace_first (has_id (df_id df)) ?entry ds)"
    let ?inv = "jset ''devices'' (JArr ?ds) inventory"
    have st: "snd (upsert_device orc di mo) = mo\<lparr>mo_signoz := sz, mo_file := Parsed ?inv,
        mo_collector := snd (reconcile (or_collector orc) ?inv (mo_collector mo))\<rparr>"
      using Inr r sync slug good
      by (simp add: upsert_device_def store_upsert_device_def find_device_def downtime_map_def truthful_def Let_def case_prod_beta)
    have id: "device_id ?entry = Some (df_id df)" by (simp add: device_id_def device_entry_fields)
    have "devices_ok ?ds" using devices_ok_replace [OF r(4) id] by (simp add: devices_ok_sort)
    moreover have "in_step (downtime_map ?ds) sz"
      using sync_in_step [OF r(5) good sync] downtime_map_upsert [OF r(4) id, of name_of] by (simp add: device_entry_fields)
    moreover have "get_array ?inv ''devices'' = Some ?ds" "is_object ?inv"
      using r(2) by (simp_all add: get_array_jset jo.object_put)
    ultimately show ?thesis unfolding st by (simp add: mon_inv_def mon_read_inventory_def)
  qed
qed

lemma delete_inv:
  assumes inv: "mon_inv mo" and del: "or_delete orc = Deleted"
  shows "mon_inv (snd (delete_device orc input mo))"
proof -
  obtain inventory ds where r: "mon_read_inventory (mo_file mo) = Inr inventory" "is_object inventory"
    "get_array inventory ''devices'' = Some ds" "devices_ok ds" "in_step (downtime_map ds) (mo_signoz mo)"
    using inv by (auto simp: mon_inv_def)
  show ?thesis
  proof (cases "normalize_slug input")
    case (Inl err) then show ?thesis using inv by (simp add: delete_device_def)
  next
    case (Inr i)
    let ?rest = "filter (\<lambda>d. \<not> has_id i d) ds"
    show ?thesis
    proof (cases "length ?rest = length ds \<or> \<not> or_writable orc")
      case True then show ?thesis using inv Inr r by (auto simp: delete_device_def store_delete_device_def Let_def)
    next
      case False
      let ?inv = "jset ''devices'' (JArr ?rest) inventory"
      let ?sz = "case downtime_map ds i of Some d \<Rightarrow> {p \<in> mo_signoz mo. fst p \<noteq> d} | None \<Rightarrow> mo_signoz mo"
      have st: "snd (delete_device orc input mo) = \<lparr>mo_file = Parsed ?inv, mo_signoz = ?sz,
          mo_collector = snd (reconcile (or_collector orc) ?inv (mo_collector mo))\<rparr>"
        using Inr r False del
        by (auto simp: delete_device_def store_delete_device_def find_device_def downtime_map_def delete_downtime_def Let_def
            case_prod_beta split: option.split)
      have "in_step ((downtime_map ds)(i := None)) ?sz"
        using r(5) in_step_remove [OF r(5), of i] by (auto simp: fun_upd_idem split: option.split)
      moreover have "devices_ok ?rest" using r(4) by (auto simp: devices_ok_def distinct_map_filter)
      moreover have "get_array ?inv ''devices'' = Some ?rest" "is_object ?inv"
        using r(2) by (simp_all add: get_array_jset jo.object_put)
      ultimately show ?thesis unfolding st by (simp add: mon_inv_def mon_read_inventory_def downtime_map_delete)
    qed
  qed
qed

inductive mon_step :: "mon_state \<Rightarrow> mon_state \<Rightarrow> bool" where
  Upsert: "truthful orc (mo_signoz mo) \<Longrightarrow> mon_step mo (snd (upsert_device orc di mo))"
| Delete: "or_delete orc = Deleted \<Longrightarrow> mon_step mo (snd (delete_device orc i mo))"

definition mon_start :: "mon_state \<Rightarrow> bool" where
  "mon_start mo \<longleftrightarrow> mo_file mo = No_File \<and> mo_signoz mo = {}"

lemma mon_start_inv: "mon_start mo \<Longrightarrow> mon_inv mo"
  by (simp add: mon_start_def mon_inv_def mon_read_inventory_def mon_default_inventory_def is_object_def get_array_def
      devices_ok_def in_step_def tracked_by_def downtime_map_def device_downtime_def)

interpretation mon: invariant_system mon_start mon_step mon_inv
  by unfold_locales (auto intro: mon_start_inv upsert_inv delete_inv elim: mon_step.cases)

section \<open>What the handlers keep\<close>

definition mon0 :: mon_state where
  "mon0 = \<lparr>mo_file = No_File, mo_signoz = {}, mo_collector = \<lparr>co_config = None, co_collector_enabled = False, co_blackbox_enabled = False\<rparr>\<rparr>"

definition oracle0 :: "create_outcome \<Rightarrow> mon_oracle" where
  "oracle0 cr = \<lparr>or_create = cr, or_delete = Deleted, or_writable = True,
     or_collector = \<lparr>ce_exists = (\<lambda>_. True), ce_command = (\<lambda>_. True), ce_write = True, ce_rename = True\<rparr>, or_is_ip = (\<lambda>_. False)\<rparr>"

definition switch_input :: "string \<Rightarrow> device_input" where
  "switch_input state = \<lparr>di_name = ''Switch 1'', di_address = ''sw1'', di_kind = ''switch'', di_site = None, di_state = Some state\<rparr>"

text \<open>C23. Maintenance schedules stay in step with the inventory under these conditions: in an upsert the alerting service either
  refuses to create a schedule or creates it and reports its fresh id, refuses or carries out a deletion without losing
  the answer, and the inventory can be written; when a device is removed, the service carries out the deletion of its
  schedule. Then after any sequence of upserts and removals from an empty start the schedules at the service are exactly
  the ones recorded in the inventory, each for the device it is recorded for, no two devices share one, and no two
  entries share a device id. Outside these conditions a schedule can be left behind: a removal forgets the device even when
  the service refuses to delete its schedule.\<close>

theorem downtimes_tracked:
  assumes "mo_file s = No_File" and "mo_signoz s = {}" and "mon_step\<^sup>*\<^sup>* s mo"
  shows "\<exists>inventory ds. mon_read_inventory (mo_file mo) = Inr inventory \<and> get_array inventory ''devices'' = Some ds
    \<and> distinct (map device_id ds)
    \<and> mo_signoz mo = {(d, device_scope i) | i d. downtime_map ds i = Some d}
    \<and> (\<forall>i j d. downtime_map ds i = Some d \<longrightarrow> downtime_map ds j = Some d \<longrightarrow> i = j)"
proof -
  have "mon_inv mo" using mon.reachable_inv [of s mo] assms by (simp add: mon_start_def)
  then obtain inventory ds where "mon_read_inventory (mo_file mo) = Inr inventory" "get_array inventory ''devices'' = Some ds"
    "distinct (map device_id ds)" "mo_signoz mo = tracked_by (downtime_map ds)"
    "\<forall>i j d. downtime_map ds i = Some d \<longrightarrow> downtime_map ds j = Some d \<longrightarrow> i = j"
    unfolding mon_inv_def devices_ok_def in_step_def by metis
  then show ?thesis unfolding tracked_by_def by (intro exI conjI) simp_all
qed

lemma oracle0_truthful: "truthful (oracle0 (Created ''7'' (JObj [(''data'', JObj [(''id'', JNum 7)])]))) {}"
  by code_simp

theorem downtimes_tracked_witness:
  "\<exists>inventory ds. mon_read_inventory (mo_file (snd (upsert_device (oracle0 (Created ''7'' (JObj [(''data'', JObj [(''id'', JNum 7)])])))
      (switch_input ''maintenance'') mon0))) = Inr inventory \<and> get_array inventory ''devices'' = Some ds
    \<and> distinct (map device_id ds)
    \<and> mo_signoz (snd (upsert_device (oracle0 (Created ''7'' (JObj [(''data'', JObj [(''id'', JNum 7)])])))
        (switch_input ''maintenance'') mon0)) = {(d, device_scope i) | i d. downtime_map ds i = Some d}
    \<and> (\<forall>i j d. downtime_map ds i = Some d \<longrightarrow> downtime_map ds j = Some d \<longrightarrow> i = j)"
proof (rule downtimes_tracked)
  show "mo_file mon0 = No_File" "mo_signoz mon0 = {}" by (simp_all add: mon0_def)
  then show "mon_step\<^sup>*\<^sup>* mon0 (snd (upsert_device (oracle0 (Created ''7'' (JObj [(''data'', JObj [(''id'', JNum 7)])])))
      (switch_input ''maintenance'') mon0))"
    using oracle0_truthful by (intro r_into_rtranclp mon_step.Upsert) simp
qed

lemma device_scope_inj: "device_scope i = device_scope j \<Longrightarrow> i = j"
  by (simp add: device_scope_def)

lemma sync_state:
  assumes "sync_downtime orc i state existing sz = (downtime, nt, sz')" and "nt \<noteq> Downtime_Error"
  shows "downtime \<noteq> None \<longleftrightarrow> state = ''maintenance''"
  using assms by (auto simp: sync_downtime_def split: if_splits option.splits prod.splits sum.splits)

lemma upsert_parts:
  assumes "upsert_device orc di mo = (Inr (i, inventory, result, nt), mo')"
  obtains df previous downtime where "check_device (or_is_ip orc) di = Inr df" "mon_read_inventory (mo_file mo) = Inr previous"
    "sync_downtime orc (df_id df) (df_state df) (device_downtime (find_device previous (df_id df))) (mo_signoz mo)
       = (downtime, nt, mo_signoz mo')"
    "store_upsert_device (df_name df) (df_address df) (df_kind df) (df_site df) (df_state df) downtime (mo_file mo) (or_writable orc)
       = Inr (i, inventory)"
    "mo_file mo' = Parsed inventory" "i = df_id df"
proof -
  obtain df where df: "check_device (or_is_ip orc) di = Inr df" using assms by (auto simp: upsert_device_def split: sum.splits)
  obtain previous where previous: "mon_read_inventory (mo_file mo) = Inr previous"
    using assms df by (auto simp: upsert_device_def split: sum.splits)
  obtain downtime n sz where sync: "sync_downtime orc (df_id df) (df_state df) (device_downtime (find_device previous (df_id df)))
      (mo_signoz mo) = (downtime, n, sz)" by (metis prod_cases3)
  have slug: "normalize_slug (df_name df) = Inr (df_id df)" using df by (auto simp: check_device_def and_then_Inr_iff)
  have rest: "store_upsert_device (df_name df) (df_address df) (df_kind df) (df_site df) (df_state df) downtime (mo_file mo)
      (or_writable orc) = Inr (i, inventory)" "n = nt" "mo_signoz mo' = sz" "mo_file mo' = Parsed inventory"
    using assms df previous sync by (auto simp: upsert_device_def Let_def split: sum.splits prod.splits)
  have "i = df_id df" using rest(1) slug previous
    by (auto simp: store_upsert_device_def Let_def split: option.splits if_splits)
  then show thesis using that [OF df previous] sync rest by simp
qed

text \<open>An upsert that reports no downtime error leaves the device silenced at the alerting service if and only if its new
  state is maintenance.\<close>

theorem upsert_silences:
  assumes inv: "mon_inv mo" and good: "truthful orc (mo_signoz mo)"
    and up: "upsert_device orc di mo = (Inr (i, inventory, result, nt), mo')" and ok: "nt \<noteq> Downtime_Error"
  shows "\<exists>df. check_device (or_is_ip orc) di = Inr df \<and> df_id df = i
    \<and> ((\<exists>d. (d, device_scope i) \<in> mo_signoz mo') \<longleftrightarrow> df_state df = ''maintenance'')"
proof -
  obtain df previous downtime where u: "check_device (or_is_ip orc) di = Inr df" "mon_read_inventory (mo_file mo) = Inr previous"
    "sync_downtime orc (df_id df) (df_state df) (device_downtime (find_device previous (df_id df))) (mo_signoz mo)
       = (downtime, nt, mo_signoz mo')" "i = df_id df"
    by (rule upsert_parts [OF up])
  obtain ds where ds: "get_array previous ''devices'' = Some ds" "in_step (downtime_map ds) (mo_signoz mo)"
    using inv u(2) by (auto simp: mon_inv_def)
  have "in_step ((downtime_map ds)(i := downtime)) (mo_signoz mo')"
    using sync_in_step [OF ds(2) good, of i "df_state df" downtime nt "mo_signoz mo'"] u(3,4) ds(1)
    by (simp add: downtime_map_def find_device_def)
  then have tr: "mo_signoz mo' = tracked_by ((downtime_map ds)(i := downtime))" by (simp add: in_step_def)
  have "(\<exists>d. (d, device_scope i) \<in> mo_signoz mo') \<longleftrightarrow> downtime \<noteq> None"
  proof
    assume "\<exists>d. (d, device_scope i) \<in> mo_signoz mo'"
    then obtain d j where "device_scope i = device_scope j" "((downtime_map ds)(i := downtime)) j = Some d"
      unfolding tr tracked_by_def by blast
    then show "downtime \<noteq> None" using device_scope_inj [of i j] by auto
  next
    assume "downtime \<noteq> None"
    then obtain d where "((downtime_map ds)(i := downtime)) i = Some d" by auto
    then show "\<exists>d. (d, device_scope i) \<in> mo_signoz mo'" unfolding tr tracked_by_def by blast
  qed
  then show ?thesis using sync_state [OF u(3) ok] u(1,4) by (intro exI [of _ df]) simp
qed

theorem upsert_silences_witness:
  "\<exists>df. check_device (\<lambda>_. False) (switch_input ''maintenance'') = Inr df \<and> df_id df = ''switch-1''
    \<and> ((\<exists>d. (d, device_scope ''switch-1'') \<in> mo_signoz (snd (upsert_device (oracle0 (Created ''7'' (JObj [(''data'', JObj [(''id'', JNum 7)])])))
        (switch_input ''maintenance'') mon0))) \<longleftrightarrow> df_state df = ''maintenance'')"
proof -
  let ?orc = "oracle0 (Created ''7'' (JObj [(''data'', JObj [(''id'', JNum 7)])]))"
  let ?r = "upsert_device ?orc (switch_input ''maintenance'') mon0"
  have "case fst ?r of Inr (i, _, _, nt) \<Rightarrow> i = ''switch-1'' \<and> nt = Downtime_Created ''7'' | Inl _ \<Rightarrow> False"
    by code_simp
  then obtain inventory result where "fst ?r = Inr (''switch-1'', inventory, result, Downtime_Created ''7'')"
    by (auto split: sum.splits prod.splits)
  then have r: "?r = (Inr (''switch-1'', inventory, result, Downtime_Created ''7''), snd ?r)" by (metis prod.collapse)
  have "mon_inv mon0" by (rule mon_start_inv) (simp add: mon_start_def mon0_def)
  moreover have "truthful ?orc (mo_signoz mon0)" using oracle0_truthful by (simp add: mon0_def)
  moreover have "or_is_ip ?orc = (\<lambda>_. False)" by (simp add: oracle0_def)
  ultimately show ?thesis using upsert_silences [OF _ _ r] by simp
qed

text \<open>A schedule is recorded for the device that does not exist at the service any more.\<close>

definition stale :: "mon_state \<Rightarrow> string \<Rightarrow> bool" where
  "stale mo i \<longleftrightarrow> (\<exists>inventory ds. mon_read_inventory (mo_file mo) = Inr inventory \<and> get_array inventory ''devices'' = Some ds
       \<and> devices_ok ds \<and> downtime_map ds i \<noteq> None)
     \<and> (\<forall>d. (d, device_scope i) \<notin> mo_signoz mo)"

lemma store_upsert_devices:
  assumes up: "store_upsert_device name address kind site state downtime f w = Inr (i, inventory)"
    and r: "mon_read_inventory f = Inr previous" "get_array previous ''devices'' = Some ds" "devices_ok ds"
  shows "\<exists>ds'. get_array inventory ''devices'' = Some ds' \<and> devices_ok ds' \<and> downtime_map ds' = (downtime_map ds)(i := downtime)"
proof -
  let ?entry = "device_entry i name address kind site state downtime"
  let ?ds = "sort_key name_of (replace_first (has_id i) ?entry ds)"
  have obj: "is_object previous" using r(2) by (auto simp: get_array_def bind_eq_Some_conv intro: jo.get_object)
  have inv: "inventory = jset ''devices'' (JArr ?ds) previous"
    using up r(1,2) by (auto simp: store_upsert_device_def and_then_Inr_iff Let_def split: if_splits)
  have id: "device_id ?entry = Some i" by (simp add: device_id_def device_entry_fields)
  have "get_array inventory ''devices'' = Some ?ds" using obj by (simp add: inv get_array_jset)
  moreover have "devices_ok ?ds" using devices_ok_replace [OF r(3) id] by (simp add: devices_ok_sort)
  moreover have "downtime_map ?ds = (downtime_map ds)(i := downtime)"
    using downtime_map_upsert [OF r(3) id, of name_of] by (simp add: device_entry_fields)
  ultimately show ?thesis by blast
qed

lemma sync_keeps_unsilenced:
  assumes "sync_downtime orc j state existing sz = (downtime, nt, sz')" and "j = i \<longrightarrow> existing \<noteq> None"
    and "\<forall>d. (d, device_scope i) \<notin> sz"
  shows "\<forall>d. (d, device_scope i) \<notin> sz'"
  using assms device_scope_inj [of i j]
  by (auto simp: sync_downtime_def create_maintenance_downtime_def delete_downtime_def
      split: if_splits option.splits create_outcome.splits delete_outcome.splits sum.splits)

lemma sync_keeps_stale:
  assumes "sync_downtime orc j state existing sz = (downtime, nt, sz')" and "existing \<noteq> None" and "or_delete orc = Delete_Refused err"
  shows "downtime = existing"
  using assms by (auto simp: sync_downtime_def delete_downtime_def split: if_splits option.splits)

lemma upsert_keeps_stale:
  assumes stale: "stale mo i"
    and refused: "\<And>df. check_device (or_is_ip orc) di = Inr df \<Longrightarrow> df_id df = i \<Longrightarrow> \<exists>err. or_delete orc = Delete_Refused err"
  shows "stale (snd (upsert_device orc di mo)) i"
proof -
  obtain previous ds where r: "mon_read_inventory (mo_file mo) = Inr previous" "get_array previous ''devices'' = Some ds" "devices_ok ds"
    "downtime_map ds i \<noteq> None" and gone: "\<forall>d. (d, device_scope i) \<notin> mo_signoz mo"
    using stale by (auto simp: stale_def)
  show ?thesis
  proof (cases "check_device (or_is_ip orc) di")
    case (Inl err) then show ?thesis using stale by (simp add: upsert_device_def)
  next
    case (Inr df)
    let ?existing = "device_downtime (find_device previous (df_id df))"
    obtain dt nt sz where sync: "sync_downtime orc (df_id df) (df_state df) ?existing (mo_signoz mo) = (dt, nt, sz)"
      by (metis prod_cases3)
    have ex: "?existing = downtime_map ds (df_id df)" using r(2) by (simp add: downtime_map_def find_device_def)
    have "df_id df = i \<longrightarrow> ?existing \<noteq> None" unfolding ex using r(4) by blast
    then have gone': "\<forall>d. (d, device_scope i) \<notin> sz" by (rule sync_keeps_unsilenced [OF sync _ gone])
    show ?thesis
    proof (cases "store_upsert_device (df_name df) (df_address df) (df_kind df) (df_site df) (df_state df) dt (mo_file mo) (or_writable orc)")
      case failed: (Inl err)
      have "snd (upsert_device orc di mo) = mo\<lparr>mo_signoz := sz\<rparr>"
        using Inr r(1) sync failed by (simp add: upsert_device_def Let_def)
      then show ?thesis using r gone' by (auto simp: stale_def)
    next
      case stored: (Inr p)
      obtain j inventory where p: "p = (j, inventory)" by (cases p)
      have st: "mo_signoz (snd (upsert_device orc di mo)) = sz" "mo_file (snd (upsert_device orc di mo)) = Parsed inventory"
        using Inr r(1) sync stored p by (simp_all add: upsert_device_def Let_def case_prod_beta)
      have j: "j = df_id df" using stored p r(1,2) Inr
        by (auto simp: store_upsert_device_def check_device_def and_then_Inr_iff Let_def split: if_splits)
      obtain ds' where ds': "get_array inventory ''devices'' = Some ds'" "devices_ok ds'" "downtime_map ds' = (downtime_map ds)(j := dt)"
        using store_upsert_devices [OF stored [unfolded p] r(1-3)] by blast
      have "downtime_map ds' i \<noteq> None"
      proof (cases "j = i")
        case True
        then have "dt = ?existing" using refused [OF Inr] j sync_keeps_stale [OF sync] ex r(4) by auto
        then show ?thesis using ds'(3) True j ex r(4) by simp
      next
        case False then show ?thesis using ds'(3) r(4) by simp
      qed
      then show ?thesis using st ds'(1,2) gone' by (simp add: stale_def mon_read_inventory_def)
    qed
  qed
qed

definition upserts :: "(mon_oracle \<times> device_input) list \<Rightarrow> mon_state \<Rightarrow> mon_state" where
  "upserts = fold (\<lambda>(orc, di) mo. snd (upsert_device orc di mo))"

lemma upserts_keep_stale:
  "stale mo i \<Longrightarrow> \<forall>(orc, di) \<in> set ups. \<forall>df. check_device (or_is_ip orc) di = Inr df \<and> df_id df = i
      \<longrightarrow> (\<exists>err. or_delete orc = Delete_Refused err) \<Longrightarrow> stale (upserts ups mo) i"
proof (induction ups arbitrary: mo)
  case (Cons u ups)
  obtain orc di where u: "u = (orc, di)" by (cases u)
  have "stale (snd (upsert_device orc di mo)) i" using Cons.prems by (intro upsert_keeps_stale) (auto simp: u)
  then show ?case using Cons.IH [of "snd (upsert_device orc di mo)"] Cons.prems(2) by (simp add: upserts_def u)
qed (simp add: upserts_def)

text \<open>A schedule that an operator deletes is never replaced: once the schedule recorded for a device has been deleted through
  the maintenance handler, no number of later upserts, of any devices and into any states, silences that device again as
  long as the alerting service refuses to delete an id it does not know.\<close>

theorem stale_schedule_never_silences:
  assumes inv: "mon_inv mo" and read: "mon_read_inventory (mo_file mo) = Inr inventory"
    and recorded: "device_downtime (find_device inventory i) = Some d" and valid: "check_downtime_id input = Inr d"
    and "or_delete orc = Deleted"
    and refused: "\<forall>(orc, di) \<in> set ups. \<forall>df. check_device (or_is_ip orc) di = Inr df \<and> df_id df = i
        \<longrightarrow> (\<exists>err. or_delete orc = Delete_Refused err)"
  shows "\<forall>e. (e, device_scope i) \<notin> mo_signoz (upserts ups (snd (delete_signoz_downtime orc input mo)))"
proof -
  let ?mo = "snd (delete_signoz_downtime orc input mo)"
  obtain ds where ds: "get_array inventory ''devices'' = Some ds" "devices_ok ds" "in_step (downtime_map ds) (mo_signoz mo)"
    using inv read by (auto simp: mon_inv_def)
  have m: "downtime_map ds i = Some d" using recorded ds(1) by (simp add: downtime_map_def find_device_def)
  have st: "?mo = mo\<lparr>mo_signoz := {p \<in> mo_signoz mo. fst p \<noteq> d}\<rparr>"
    using valid assms(5) by (simp add: delete_signoz_downtime_def delete_downtime_def)
  have "(e, device_scope i) \<in> mo_signoz mo \<Longrightarrow> e = d" for e
    using ds(3) m device_scope_inj [of i] by (auto simp: in_step_def tracked_by_def)
  then have "stale ?mo i" using read ds(1,2) m st by (auto simp: stale_def)
  then have "stale (upserts ups ?mo) i" using refused by (rule upserts_keep_stale)
  then show ?thesis by (simp add: stale_def)
qed

theorem stale_schedule_never_silences_witness:
  "\<forall>e. (e, device_scope ''switch-1'') \<notin>
     mo_signoz (upserts [((oracle0 (Create_Refused []))\<lparr>or_delete := Delete_Refused ''404''\<rparr>, switch_input ''maintenance'')]
       (snd (delete_signoz_downtime (oracle0 (Create_Refused [])) ''7''
         (snd (upsert_device (oracle0 (Created ''7'' (JObj [(''data'', JObj [(''id'', JNum 7)])]))) (switch_input ''maintenance'') mon0)))))"
proof -
  let ?mo = "snd (upsert_device (oracle0 (Created ''7'' (JObj [(''data'', JObj [(''id'', JNum 7)])]))) (switch_input ''maintenance'') mon0)"
  have "mon_inv mon0" by (rule mon_start_inv) (simp add: mon_start_def mon0_def)
  then have inv: "mon_inv ?mo" using oracle0_truthful by (intro upsert_inv) (simp_all add: mon0_def)
  have "case mon_read_inventory (mo_file ?mo) of Inr inventory \<Rightarrow> device_downtime (find_device inventory ''switch-1'') = Some ''7'' | Inl _ \<Rightarrow> False"
    by code_simp
  then obtain inventory where read: "mon_read_inventory (mo_file ?mo) = Inr inventory"
    "device_downtime (find_device inventory ''switch-1'') = Some ''7''" by (auto split: sum.splits)
  have valid: "check_downtime_id ''7'' = Inr ''7''" by code_simp
  show ?thesis by (rule stale_schedule_never_silences [OF inv read valid]) (auto simp: oracle0_def)
qed

end
