(* ===== verification/Domains.thy ===== *)
theory Domains
  imports Json
begin

text \<open>
  Domains and mail hosting, \<open>server/src/api/nexus/domains.rs\<close>: the inventory of domains, the live checks of a domain, the
  adoption of an existing configuration and the onboarding through the helper program. What \<open>dig\<close>, \<open>openssl\<close> and the
  helper answer comes from oracles, one answer per run; a handler runs without another one in between.
\<close>

section \<open>Names\<close>

datatype dom_error =
    Invalid_Domain | Invalid_User | Dom_Unparsable | Dom_No_Array | Dom_Write_Failed | Not_Persisted | Nothing_To_Adopt
  | Helper_Missing | Helper_Not_Startable string | Helper_Bad_Json string | Onboarding_Failed string | Audit_Failed

fun dom_error_text :: "dom_error \<Rightarrow> string" where
  "dom_error_text Invalid_Domain = ''invalid domain''"
| "dom_error_text Invalid_User = ''invalid Hestia user''"
| "dom_error_text Dom_Unparsable = ''unable to parse domains-hosting.json''"
| "dom_error_text Dom_No_Array = ''domains-hosting inventory is missing a domains array''"
| "dom_error_text Dom_Write_Failed = ''unable to write temporary domains inventory''"
| "dom_error_text Not_Persisted = ''unable to persist adopted domain''"
| "dom_error_text Nothing_To_Adopt = ''no existing DNS/mail configuration was detected to adopt''"
| "dom_error_text Helper_Missing = ''domains helper is not installed''"
| "dom_error_text (Helper_Not_Startable _) = ''failed to start domains onboarding helper''"
| "dom_error_text (Helper_Bad_Json out) = ''domains helper returned invalid JSON: '' @ out"
| "dom_error_text (Onboarding_Failed failure) = ''domain onboarding failed: '' @ failure"
| "dom_error_text Audit_Failed = ''unable to append to the log''"

definition domain_label_ok :: "string \<Rightarrow> bool" where
  "domain_label_ok label \<longleftrightarrow> label \<noteq> [] \<and> length label \<le> 63 \<and> is_ascii_alphanumeric (hd label) \<and> is_ascii_alphanumeric (last label)
     \<and> list_all (\<lambda>b. is_ascii_alphanumeric b \<or> b = CHR ''-'') label"

definition validate_domain_name :: "string \<Rightarrow> dom_error + unit" where
  "validate_domain_name domain =
     (if 253 < length domain \<or> CHR ''.'' \<notin> set domain then Inl Invalid_Domain
      else let labels = split_char (CHR ''.'') domain
      in if \<not> list_all domain_label_ok labels then Inl Invalid_Domain
         else let tld = last labels
         in if length tld < 2 \<or> \<not> list_all is_ascii_lowercase tld then Inl Invalid_Domain else Inr ())"

definition normalize_domain :: "string \<Rightarrow> dom_error + string" where
  "normalize_domain input =
     (let domain = to_ascii_lowercase (trim_end_matches (CHR ''.'') (trim input))
      in and_then (validate_domain_name domain) (\<lambda>_. Inr domain))"

definition validate_hestia_user :: "string \<Rightarrow> dom_error + unit" where
  "validate_hestia_user user =
     (if user = [] \<or> 64 < length user then Inl Invalid_User
      else if \<not> is_ascii_alphanumeric (hd user)
        \<or> \<not> list_all (\<lambda>b. is_ascii_alphanumeric b \<or> b = CHR ''.'' \<or> b = CHR ''_'' \<or> b = CHR ''-'') user
      then Inl Invalid_User else Inr ())"

section \<open>Inventory\<close>

definition domain_flags :: "string \<Rightarrow> bool \<Rightarrow> bool \<Rightarrow> bool \<Rightarrow> bool \<Rightarrow> (string \<times> json) list" where
  "domain_flags name mail webmail ddns tunnel =
     [(''name'', JStr name), (''mail'', JBool mail), (''webmail'', JBool webmail), (''ddns'', JBool ddns), (''tunnel'', JBool tunnel)]"

definition dom_default_inventory :: json where
  "dom_default_inventory = JObj
     [(''version'', JNum 1),
      (''defaults'', JObj
        [(''hestia_host'', JStr ''192.168.0.29''), (''hestia_user'', JStr ''admin''),
         (''relay_hostname'', JStr ''smtp.dreamteclabs.com''), (''relay_ipv4'', JStr ''23.254.215.34''),
         (''webmail_origin_http'', JStr ''http://192.168.0.29:80''), (''webmail_origin_https'', JStr ''https://192.168.0.29:443''),
         (''webmail_no_tls_verify'', JBool True), (''dmarc_policy'', JStr ''p=none'')]),
      (''domains'', JArr
        [JObj (domain_flags ''dreamteclabs.com'' True True True True),
         JObj (domain_flags ''kinpilot.app'' True True True True),
         JObj (domain_flags ''savipilot.com'' True True True True),
         JObj (domain_flags ''domuspilot.com'' True True True True),
         JObj (domain_flags ''mundoleo.co'' True True True True),
         JObj (domain_flags ''dreamtec.com.br'' True True True False),
         JObj (domain_flags ''claudiokaist.com'' False False True False)]),
      (''policy'', JObj
        [(''mail_hostnames_dns_only'', JBool True), (''smtp_hostnames_dns_only'', JBool True),
         (''webmail_hostnames_tunnel_managed'', JBool True), (''forbid_webmail_ddns'', JBool True),
         (''forbid_mail_proxy'', JBool True)])]"

definition dom_read_inventory :: "inv_file \<Rightarrow> dom_error + json" where
  "dom_read_inventory f = (case f of No_File \<Rightarrow> Inr dom_default_inventory | Unparsable \<Rightarrow> Inl Dom_Unparsable | Parsed v \<Rightarrow> Inr v)"

definition write_inventory :: "bool \<Rightarrow> json \<Rightarrow> dom_error + inv_file" where
  "write_inventory writable inventory = (if writable then Inr (Parsed inventory) else Inl Dom_Write_Failed)"

definition named :: "string \<Rightarrow> json \<Rightarrow> bool" where
  "named domain entry \<longleftrightarrow> get_str entry ''name'' = Some domain"

definition find_domain_entry :: "json \<Rightarrow> string \<Rightarrow> json option" where
  "find_domain_entry inventory domain =
     (case get_array inventory ''domains'' of None \<Rightarrow> None | Some ds \<Rightarrow> List.find (named domain) ds)"

text \<open>A change through a reference to the first match.\<close>

fun update_first :: "('a \<Rightarrow> bool) \<Rightarrow> ('a \<Rightarrow> 'a) \<Rightarrow> 'a list \<Rightarrow> 'a list" where
  "update_first P f [] = []"
| "update_first P f (x # xs) = (if P x then f x # xs else x # update_first P f xs)"

definition managed_entry :: "json \<Rightarrow> json" where
  "managed_entry existing =
     jremove ''adopted_checks'' (jset ''configuration_mode'' (JStr ''nexus'') (jset ''tunnel'' (JBool True) (jset ''ddns'' (JBool True)
       (jset ''webmail'' (JBool True) (jset ''mail'' (JBool True) existing)))))"

definition upsert_mail_domain :: "string \<Rightarrow> json \<Rightarrow> dom_error + json" where
  "upsert_mail_domain domain inventory =
     (case get_array inventory ''domains'' of
        None \<Rightarrow> Inl Dom_No_Array
      | Some domains \<Rightarrow>
          Inr (jset ''domains'' (JArr
            (if list_ex (named domain) domains then update_first (named domain) managed_entry domains
             else domains @ [JObj (domain_flags domain True True True True @ [(''configuration_mode'', JStr ''nexus'')])])) inventory))"

definition persist_mail_domain :: "bool \<Rightarrow> string \<Rightarrow> inv_file \<Rightarrow> dom_error + inv_file" where
  "persist_mail_domain writable domain f =
     and_then (dom_read_inventory f) (\<lambda>inventory. and_then (upsert_mail_domain domain inventory) (write_inventory writable))"

definition push_domain :: "string \<Rightarrow> string \<Rightarrow> json \<Rightarrow> dom_error + json" where
  "push_domain domain mode inventory =
     (case get_array inventory ''domains'' of
        None \<Rightarrow> Inl Dom_No_Array
      | Some domains \<Rightarrow>
          Inr (jset ''domains'' (JArr (domains @ [JObj (domain_flags domain False False False False @ [(''configuration_mode'', JStr mode)])])) inventory))"

definition persist_discovered_domain :: "bool \<Rightarrow> string \<Rightarrow> inv_file \<Rightarrow> dom_error + inv_file" where
  "persist_discovered_domain writable domain f =
     and_then (dom_read_inventory f) (\<lambda>inventory.
       if find_domain_entry inventory domain = None
       then and_then (push_domain domain ''discovered'' inventory) (write_inventory writable)
       else Inr f)"

definition dom_adopted_entry :: "(string \<times> json) list \<Rightarrow> json \<Rightarrow> json" where
  "dom_adopted_entry adopted_checks entry = jset ''adopted_checks'' (JObj adopted_checks) (jset ''configuration_mode'' (JStr ''existing'') entry)"

definition persist_adopted_domain :: "bool \<Rightarrow> string \<Rightarrow> (string \<times> json) list \<Rightarrow> inv_file \<Rightarrow> dom_error + inv_file" where
  "persist_adopted_domain writable domain adopted_checks f =
     and_then (dom_read_inventory f) (\<lambda>inventory.
     and_then (if find_domain_entry inventory domain = None then push_domain domain ''existing'' inventory else Inr inventory) (\<lambda>inventory.
       case find_domain_entry inventory domain of
         None \<Rightarrow> Inl Not_Persisted
       | Some _ \<Rightarrow>
           (case get_array inventory ''domains'' of
              None \<Rightarrow> Inl Not_Persisted
            | Some domains \<Rightarrow>
                write_inventory writable
                  (jset ''domains'' (JArr (update_first (named domain) (dom_adopted_entry adopted_checks) domains)) inventory))))"

section \<open>Runs of programs\<close>

datatype run = Run_Timed_Out | Run_Not_Started string | Run_Exit "int option" string string

definition success :: "int option \<Rightarrow> bool" where
  "success code \<longleftrightarrow> code = Some 0"

definition helper_exit_code_is_retryable :: "int option \<Rightarrow> bool" where
  "helper_exit_code_is_retryable code \<longleftrightarrow> \<not> (code = Some 3 \<or> code = Some 5 \<or> code = Some 42 \<or> code = Some 43)"

definition helper_failure_detail :: "string \<Rightarrow> string \<Rightarrow> int option \<Rightarrow> string" where
  "helper_failure_detail stdout stderr code =
     (if trim stderr \<noteq> [] then trim stderr
      else if trim stdout \<noteq> [] then trim stdout
      else case code of
             Some c \<Rightarrow> ''helper exited with code '' @ show_i64 c @ '' without diagnostic output''
           | None \<Rightarrow> ''helper terminated without diagnostic output'')"

definition command_output :: "string \<Rightarrow> run \<Rightarrow> string + string" where
  "command_output program r =
     (case r of
        Run_Timed_Out \<Rightarrow> Inl (program @ '' timed out'')
      | Run_Not_Started err \<Rightarrow> Inl err
      | Run_Exit code stdout stderr \<Rightarrow>
          if \<not> success code then Inl (program @ '' failed: '' @ trim stderr)
          else if trim stdout \<noteq> [] then Inr (trim stdout) else Inr (trim stderr))"

text \<open>The answers of one round of checks: \<open>dig\<close> by record type and name, \<open>openssl\<close> by host, port and protocol.\<close>

record net =
  nt_dig :: "string \<Rightarrow> string \<Rightarrow> run"
  nt_tls :: "string \<Rightarrow> nat \<Rightarrow> string option \<Rightarrow> run"

definition dig :: "net \<Rightarrow> string \<Rightarrow> string \<Rightarrow> json" where
  "dig net record_type name =
     (case command_output ''dig'' (nt_dig net record_type name) of
        Inr output \<Rightarrow>
          if output \<noteq> [] then JObj [(''ok'', JBool True), (''value'', JStr output)]
          else JObj [(''ok'', JBool False), (''value'', JStr []), (''error'', JStr ''record not found'')]
      | Inl err \<Rightarrow> JObj [(''ok'', JBool False), (''value'', JStr []), (''error'', JStr err)])"

definition openssl_check :: "net \<Rightarrow> string \<Rightarrow> nat \<Rightarrow> string option \<Rightarrow> json" where
  "openssl_check net host port starttls =
     (let endpoint = host @ '':'' @ show_nat port
      in case command_output ''openssl'' (nt_tls net host port starttls) of
           Inr output \<Rightarrow> JObj [(''ok'', JBool True), (''endpoint'', JStr endpoint), (''summary'', JStr output)]
         | Inl err \<Rightarrow> JObj [(''ok'', JBool False), (''endpoint'', JStr endpoint), (''error'', JStr err)])"

section \<open>Checks of records\<close>

definition txt_contains :: "json \<Rightarrow> string \<Rightarrow> bool" where
  "txt_contains v needle =
     (case get_str v ''value'' of Some s \<Rightarrow> str_contains (to_ascii_lowercase s) (to_ascii_lowercase needle) | None \<Rightarrow> False)"

definition quotation :: char where "quotation = CHR 0x22"

definition has_prefix :: "string \<Rightarrow> string \<Rightarrow> bool" where
  "has_prefix prefix line \<longleftrightarrow> starts_with (to_ascii_lowercase (trim_matches quotation line)) (to_ascii_lowercase prefix)"

definition txt_prefix_count :: "json \<Rightarrow> string \<Rightarrow> nat" where
  "txt_prefix_count v prefix =
     (case get_str v ''value'' of Some s \<Rightarrow> length (filter (has_prefix prefix) (str_lines s)) | None \<Rightarrow> 0)"

definition eq_ignore_ascii_case :: "string \<Rightarrow> string \<Rightarrow> bool" where
  "eq_ignore_ascii_case s t \<longleftrightarrow> to_ascii_lowercase s = to_ascii_lowercase t"

definition mx_points_only_to :: "json \<Rightarrow> string \<Rightarrow> bool" where
  "mx_points_only_to v expected_host =
     (case get_str v ''value'' of
        None \<Rightarrow> False
      | Some s \<Rightarrow>
          (case filter (\<lambda>line. trim line \<noteq> []) (str_lines s) of
             [line] \<Rightarrow>
               (case split_whitespace line of
                  _ # target # _ \<Rightarrow> eq_ignore_ascii_case (trim_end_matches (CHR ''.'') target) expected_host
                | _ \<Rightarrow> False)
           | _ \<Rightarrow> False))"

definition canonical_dns_lines :: "string list \<Rightarrow> string" where
  "canonical_dns_lines ls = str_join [line_feed] (sort_key to_ascii_lowercase (filter (\<lambda>line. line \<noteq> []) (map trim ls)))"

definition REQUIRED_CHECK_KEYS :: "string list" where
  "REQUIRED_CHECK_KEYS = [''mail_a'', ''mx'', ''spf'', ''dkim'', ''dmarc'', ''smtp_submission'', ''imap_tls'', ''webmail_tunnel_dns'', ''webmail_tls'']"

definition ADOPTABLE_DNS_CHECKS :: "string list" where
  "ADOPTABLE_DNS_CHECKS = [''mx'', ''spf'', ''dkim'', ''dmarc'', ''webmail_tunnel_dns'']"

definition record_prefix :: "string \<Rightarrow> string option option" where
  "record_prefix key =
     (if key = ''spf'' then Some (Some ''v=spf1'')
      else if key = ''dkim'' then Some (Some ''v=dkim1'')
      else if key = ''dmarc'' then Some (Some ''v=dmarc1'')
      else if key = ''mx'' \<or> key = ''webmail_tunnel_dns'' then Some None
      else None)"

definition value_fingerprint :: "string option \<Rightarrow> string \<Rightarrow> string option" where
  "value_fingerprint prefix v =
     (let fingerprint = canonical_dns_lines
            (filter (\<lambda>line. case prefix of None \<Rightarrow> True | Some p \<Rightarrow> has_prefix p line) (str_lines v))
      in if fingerprint = [] then None else Some fingerprint)"

definition record_fingerprint :: "json \<Rightarrow> string \<Rightarrow> string option" where
  "record_fingerprint result key =
     Option.bind (Option.bind (pointer result [''checks'', key, ''detail'', ''value'']) as_str) (\<lambda>v.
     Option.bind (record_prefix key) (\<lambda>prefix. value_fingerprint prefix v))"

definition adopted_dns_snapshots :: "json \<Rightarrow> (string \<times> json) list" where
  "adopted_dns_snapshots result =
     map (\<lambda>key. (key, case record_fingerprint result key of None \<Rightarrow> JNull | Some s \<Rightarrow> JStr s)) ADOPTABLE_DNS_CHECKS"

definition check_ok :: "json \<Rightarrow> string \<Rightarrow> bool" where
  "check_ok result key = (Option.bind (pointer result [''checks'', key, ''ok'']) as_bool = Some True)"

definition all_required_checks_healthy :: "json \<Rightarrow> bool" where
  "all_required_checks_healthy result = list_all (check_ok result) REQUIRED_CHECK_KEYS"

definition webmail_cname_is_nexus :: "json \<Rightarrow> bool" where
  "webmail_cname_is_nexus cname =
     (case get_str cname ''value'' of
        None \<Rightarrow> True
      | Some s \<Rightarrow> list_all (\<lambda>line. strip_suffix ''.cfargotunnel.com'' (trim_end_matches (CHR ''.'') line) \<noteq> None)
                  (filter (\<lambda>line. trim line \<noteq> []) (str_lines s)))"

definition existing_configuration_detected :: "json \<Rightarrow> json option \<Rightarrow> bool" where
  "existing_configuration_detected result domain_entry =
     (let failed_existing_record =
            list_ex (\<lambda>key. \<not> check_ok result key \<and> record_fingerprint result key \<noteq> None) ADOPTABLE_DNS_CHECKS;
          has_existing_policy = list_ex (\<lambda>key. record_fingerprint result key \<noteq> None) ADOPTABLE_DNS_CHECKS;
          unmanaged_mail =
            (case domain_entry of
               None \<Rightarrow> False
             | Some entry \<Rightarrow> (get_bool entry ''mail'' \<noteq> Some True \<or> get_bool entry ''webmail'' \<noteq> Some True) \<and> has_existing_policy);
          new_domain_with_existing = (domain_entry = None \<and> has_existing_policy)
      in failed_existing_record \<or> unmanaged_mail \<or> new_domain_with_existing)"

section \<open>Adopted configurations\<close>

text \<open>A change of one check through a mutable reference, if it is there.\<close>

definition update_check :: "string \<Rightarrow> (json \<Rightarrow> json) \<Rightarrow> json \<Rightarrow> json" where
  "update_check key f result =
     (case jget result ''checks'' of
        None \<Rightarrow> result
      | Some checks \<Rightarrow>
          (case jget checks key of None \<Rightarrow> result | Some check \<Rightarrow> jset ''checks'' (jset key (f check) checks) result))"

definition matches_adopted :: "json \<Rightarrow> json \<Rightarrow> string \<Rightarrow> bool" where
  "matches_adopted domain_entry result key =
     (case pointer domain_entry [''adopted_checks'', key] of
        Some (JStr expected) \<Rightarrow> record_fingerprint result key = Some expected
      | Some JNull \<Rightarrow> record_fingerprint result key = None
      | _ \<Rightarrow> False)"

definition mark_adopted :: "bool \<Rightarrow> json \<Rightarrow> json" where
  "mark_adopted ok check = jset ''policy'' (JStr ''existing'') (jset ''adopted'' (JBool True) (jset ''ok'' (JBool ok) check))"

definition mark_not_applicable :: "json \<Rightarrow> json" where
  "mark_not_applicable check =
     jset ''policy'' (JStr ''existing'') (jset ''not_applicable'' (JBool True) (jset ''adopted'' (JBool True) (jset ''ok'' (JBool True) check)))"

fun apply_adopted :: "json \<Rightarrow> string list \<Rightarrow> json \<Rightarrow> bool \<Rightarrow> json \<times> bool" where
  "apply_adopted domain_entry [] result changed = (result, changed)"
| "apply_adopted domain_entry (key # keys) result changed =
     (let matches = matches_adopted domain_entry result key
      in apply_adopted domain_entry keys (update_check key (mark_adopted matches) result) (changed \<or> \<not> matches))"

definition existing_configuration :: "bool \<Rightarrow> json \<Rightarrow> string \<Rightarrow> json" where
  "existing_configuration changed result message = JObj
     [(''detected'', JBool True), (''changed'', JBool changed), (''records'', JObj (adopted_dns_snapshots result)), (''message'', JStr message)]"

definition apply_existing_policy :: "json \<Rightarrow> json \<Rightarrow> json" where
  "apply_existing_policy result domain_entry =
     (let (result, changed) = apply_adopted domain_entry ADOPTABLE_DNS_CHECKS result False;
          result = fold (\<lambda>key. update_check key mark_not_applicable)
                     (filter (\<lambda>key. key \<notin> set ADOPTABLE_DNS_CHECKS) REQUIRED_CHECK_KEYS) result;
          result = jset ''healthy'' (JBool (\<not> changed \<and> all_required_checks_healthy result)) result;
          result = jset ''configuration_mode'' (JStr ''existing'') result;
          result = jset ''decision_required'' (JBool changed) result
      in jset ''existing_configuration'' (existing_configuration changed result
           (if changed then ''The adopted configuration changed. Keep the new live configuration or migrate to the Nexus standard.''
            else ''Existing configuration is adopted and monitored without being replaced.'')) result)"

section \<open>Validation\<close>

definition json_ok :: "json \<Rightarrow> bool" where
  "json_ok v \<longleftrightarrow> get_bool v ''ok'' = Some True"

definition validate_domain_raw :: "net \<Rightarrow> string \<Rightarrow> json" where
  "validate_domain_raw net domain =
     (let mail = ''mail.'' @ domain; webmail = ''webmail.'' @ domain;
          mail_a = dig net ''A'' mail; webmail_a = dig net ''A'' webmail; webmail_cname = dig net ''CNAME'' webmail;
          mx = dig net ''MX'' domain; spf = dig net ''TXT'' domain; dkim_txt = dig net ''TXT'' (''mail._domainkey.'' @ domain);
          dmarc_txt = dig net ''TXT'' (''_dmarc.'' @ domain);
          smtp = openssl_check net mail 587 (Some ''smtp''); imap = openssl_check net mail 993 None;
          webmail_tls = openssl_check net webmail 443 None;
          mx_ok = mx_points_only_to mx mail;
          spf_count = txt_prefix_count spf ''v=spf1''; spf_ok = (spf_count = 1);
          dkim_ok = txt_contains dkim_txt ''p='';
          dmarc_ok = (txt_prefix_count dmarc_txt ''v=dmarc1'' = 1);
          webmail_ok = ((json_ok webmail_a \<or> json_ok webmail_cname) \<and> webmail_cname_is_nexus webmail_cname);
          healthy = (json_ok mail_a \<and> webmail_ok \<and> mx_ok \<and> spf_ok \<and> dkim_ok \<and> dmarc_ok \<and> json_ok smtp \<and> json_ok imap \<and> json_ok webmail_tls)
      in JObj [(''domain'', JStr domain), (''healthy'', JBool healthy),
           (''checks'', JObj
             [(''mail_a'', mail_a),
              (''webmail_tunnel_dns'', JObj [(''ok'', JBool webmail_ok), (''detail'', webmail_cname), (''resolved'', webmail_a)]),
              (''mx'', JObj [(''ok'', JBool mx_ok), (''detail'', mx)]),
              (''spf'', JObj [(''ok'', JBool spf_ok), (''count'', JNum (int spf_count)), (''detail'', spf)]),
              (''dkim'', JObj [(''ok'', JBool dkim_ok), (''detail'', dkim_txt)]),
              (''dmarc'', JObj [(''ok'', JBool dmarc_ok), (''detail'', dmarc_txt)]),
              (''smtp_submission'', smtp), (''imap_tls'', imap), (''webmail_tls'', webmail_tls)])])"

definition nexus_policy :: "json \<Rightarrow> json option \<Rightarrow> json" where
  "nexus_policy result domain_entry =
     (let decision_required = existing_configuration_detected result domain_entry;
          result = jset ''configuration_mode'' (JStr ''nexus'') result;
          result = jset ''decision_required'' (JBool decision_required) result
      in if decision_required
         then jset ''existing_configuration'' (existing_configuration False result
                ''Existing DNS/mail configuration was detected. Choose whether to keep it or migrate to the Nexus Hestia standard.'') result
         else result)"

definition validate_domain_inner :: "net \<Rightarrow> inv_file \<Rightarrow> string \<Rightarrow> dom_error + json" where
  "validate_domain_inner net f domain =
     (let result = validate_domain_raw net domain
      in and_then (dom_read_inventory f) (\<lambda>inventory.
           let domain_entry = find_domain_entry inventory domain
           in case domain_entry of
                Some entry \<Rightarrow>
                  if get_str entry ''configuration_mode'' = Some ''existing'' then Inr (apply_existing_policy result entry)
                  else Inr (nexus_policy result domain_entry)
              | None \<Rightarrow> Inr (nexus_policy result domain_entry)))"

section \<open>Handlers\<close>

text \<open>
  The log is a list of lines; \<open>da_runs\<close> are the runs of the helper program with its arguments. The fields of the
  environment: the answers of the rounds of checks of a call, whether the inventory can be written, whether the next line
  can be appended to the log given its length, the time, whether the helper is installed, the outcomes of its runs, and
  the JSON parser.
\<close>

record dom_state =
  da_file :: inv_file
  da_audit :: "string list"
  da_runs :: "(string \<times> string \<times> string) list"

record dom_env =
  de_net :: "nat \<Rightarrow> net"
  de_writable :: bool
  de_audit :: "nat \<Rightarrow> bool"
  de_now :: nat
  de_helper_exists :: bool
  de_helper :: "nat \<Rightarrow> run"
  de_parse :: "string \<Rightarrow> json option"

definition audit_line :: "nat \<Rightarrow> string \<Rightarrow> string \<Rightarrow> string \<Rightarrow> string" where
  "audit_line now action domain outcome =
     (let safe_outcome = str_replace tabulator '' '' (str_replace carriage_return '' '' (str_replace line_feed '' '' outcome))
      in show_nat now @ [tabulator] @ ''action='' @ action @ [tabulator] @ ''domain='' @ domain @ [tabulator]
           @ ''outcome='' @ safe_outcome @ [line_feed])"

definition append_audit :: "dom_env \<Rightarrow> string \<Rightarrow> string \<Rightarrow> string \<Rightarrow> dom_state \<Rightarrow> (dom_error + unit) \<times> dom_state" where
  "append_audit env action domain outcome da =
     (if de_audit env (length (da_audit da))
      then (Inr (), da\<lparr>da_audit := da_audit da @ [audit_line (de_now env) action domain outcome]\<rparr>)
      else (Inl Audit_Failed, da))"

text \<open>\<open>append_audit(..).await?\<close> followed by the rest of the handler.\<close>

definition audited ::
  "dom_env \<Rightarrow> string \<Rightarrow> string \<Rightarrow> string \<Rightarrow> (dom_state \<Rightarrow> (dom_error + 'a) \<times> dom_state) \<Rightarrow> dom_state \<Rightarrow> (dom_error + 'a) \<times> dom_state" where
  "audited env action domain outcome k da =
     (case append_audit env action domain outcome da of (Inl err, da) \<Rightarrow> (Inl err, da) | (Inr _, da) \<Rightarrow> k da)"

definition validate_domain :: "dom_env \<Rightarrow> string \<Rightarrow> dom_state \<Rightarrow> (dom_error + json) \<times> dom_state" where
  "validate_domain env input da =
     (case normalize_domain input of Inl err \<Rightarrow> (Inl err, da) | Inr domain \<Rightarrow>
     (case validate_domain_inner (de_net env 0) (da_file da) domain of Inl err \<Rightarrow> (Inl err, da) | Inr result \<Rightarrow>
       let outcome = (if get_bool result ''decision_required'' = Some True then ''decision-required''
                      else if get_bool result ''healthy'' = Some True then ''healthy'' else ''degraded'')
       in audited env ''validate'' domain outcome (\<lambda>da. (Inr result, da)) da))"

definition adopt_existing_domain :: "dom_env \<Rightarrow> string \<Rightarrow> dom_state \<Rightarrow> (dom_error + string \<times> json) \<times> dom_state" where
  "adopt_existing_domain env input da =
     (case normalize_domain input of Inl err \<Rightarrow> (Inl err, da) | Inr domain \<Rightarrow>
       let adopted_checks = adopted_dns_snapshots (validate_domain_raw (de_net env 0) domain)
       in if list_all (\<lambda>(_, v). v = JNull) adopted_checks then (Inl Nothing_To_Adopt, da)
          else case persist_adopted_domain (de_writable env) domain adopted_checks (da_file da) of
            Inl err \<Rightarrow> (Inl err, da)
          | Inr f \<Rightarrow>
              let da = da\<lparr>da_file := f\<rparr>
              in case validate_domain_inner (de_net env 1) f domain of
                   Inl err \<Rightarrow> (Inl err, da)
                 | Inr validation \<Rightarrow> audited env ''adopt-existing'' domain ''completed'' (\<lambda>da. (Inr (domain, validation), da)) da)"

definition HELPER_RECONCILE_ATTEMPTS :: nat where "HELPER_RECONCILE_ATTEMPTS = 3"

definition of_attempts :: "nat \<Rightarrow> string" where
  "of_attempts attempt = show_nat attempt @ ''/'' @ show_nat HELPER_RECONCILE_ATTEMPTS"

text \<open>The attempts that are left, in order.\<close>

fun run_helper ::
  "dom_env \<Rightarrow> string \<Rightarrow> string \<Rightarrow> string \<Rightarrow> nat list \<Rightarrow> string \<Rightarrow> dom_state \<Rightarrow> (dom_error + json) \<times> dom_state" where
  "run_helper env action domain user [] last_failure da =
     (Inl (Onboarding_Failed (''after '' @ show_nat HELPER_RECONCILE_ATTEMPTS @ '' attempts: '' @ last_failure)), da)"
| "run_helper env action domain user (attempt # attempts) last_failure da =
     (let da = da\<lparr>da_runs := da_runs da @ [(action, domain, user)]\<rparr>
      in case de_helper env attempt of
           Run_Not_Started err \<Rightarrow> (Inl (Helper_Not_Startable err), da)
         | Run_Timed_Out \<Rightarrow>
             let last_failure = ''helper timed out on attempt '' @ of_attempts attempt
             in if attempt < HELPER_RECONCILE_ATTEMPTS then run_helper env action domain user attempts last_failure da
                else audited env action domain (''failed: '' @ last_failure) (\<lambda>da. (Inl (Onboarding_Failed last_failure), da)) da
         | Run_Exit code stdout stderr \<Rightarrow>
             if success code
             then (case de_parse env (trim stdout) of
                     None \<Rightarrow> (Inl (Helper_Bad_Json (trim stdout)), da)
                   | Some result \<Rightarrow>
                       if 1 < attempt
                       then audited env ''onboard-retry'' domain (''recovered on attempt '' @ of_attempts attempt) (\<lambda>da. (Inr result, da)) da
                       else (Inr result, da))
             else let last_failure = helper_failure_detail stdout stderr code
             in if helper_exit_code_is_retryable code \<and> attempt < HELPER_RECONCILE_ATTEMPTS
                then audited env ''onboard-retry'' domain
                       (''attempt '' @ of_attempts attempt @ '' failed; retrying: '' @ last_failure)
                       (run_helper env action domain user attempts last_failure) da
                else audited env action domain (''failed: '' @ last_failure) (\<lambda>da. (Inl (Onboarding_Failed last_failure), da)) da)"

datatype onboarded = Decision_Required string json | Onboarded string json json

definition onboard_run :: "dom_env \<Rightarrow> string \<Rightarrow> string \<Rightarrow> string \<Rightarrow> dom_state \<Rightarrow> (dom_error + onboarded) \<times> dom_state" where
  "onboard_run env action domain user da =
     (if \<not> de_helper_exists env then (Inl Helper_Missing, da)
      else case run_helper env action domain user [1 ..< HELPER_RECONCILE_ATTEMPTS + 1] [] da of
        (Inl err, da) \<Rightarrow> (Inl err, da)
      | (Inr result, da) \<Rightarrow>
          (case persist_mail_domain (de_writable env) domain (da_file da) of
             Inl err \<Rightarrow> audited env action domain (''providers completed; inventory persistence failed: '' @ dom_error_text err) (\<lambda>da. (Inl err, da)) da
           | Inr f \<Rightarrow>
               let da = da\<lparr>da_file := f\<rparr>
               in case validate_domain_inner (de_net env 1) f domain of
                    Inl err \<Rightarrow> (Inl err, da)
                  | Inr validation \<Rightarrow> audited env action domain ''completed'' (\<lambda>da. (Inr (Onboarded domain result validation), da)) da))"

definition onboard_domain :: "dom_env \<Rightarrow> string \<Rightarrow> string option \<Rightarrow> bool option \<Rightarrow> dom_state \<Rightarrow> (dom_error + onboarded) \<times> dom_state" where
  "onboard_domain env input hestia_user replace_existing da =
     (case normalize_domain input of Inl err \<Rightarrow> (Inl err, da) | Inr domain \<Rightarrow>
       let user = (case hestia_user of Some u \<Rightarrow> u | None \<Rightarrow> ''admin'')
       in case validate_hestia_user user of Inl err \<Rightarrow> (Inl err, da) | Inr _ \<Rightarrow>
          if replace_existing = Some True then onboard_run env ''migrate'' domain user da
          else case validate_domain_inner (de_net env 0) (da_file da) domain of
            Inl err \<Rightarrow> (Inl err, da)
          | Inr preflight \<Rightarrow>
              if get_bool preflight ''decision_required'' = Some True
              then (case persist_discovered_domain (de_writable env) domain (da_file da) of
                      Inl err \<Rightarrow> (Inl err, da)
                    | Inr f \<Rightarrow>
                        audited env ''discover-existing'' domain ''decision-required''
                          (\<lambda>da. (Inr (Decision_Required domain preflight), da)) (da\<lparr>da_file := f\<rparr>))
              else onboard_run env ''onboard'' domain user da)"

end
