(* ===== verification/Domains_Props.thy ===== *)
theory Domains_Props
  imports Domains "HOL-Library.Multiset"
begin

text \<open>
  Properties of the domain handlers: names and log lines, fingerprints of records and the drift of an adopted
  configuration, and the entries of the inventory.
\<close>

section \<open>Names\<close>

definition safe_char :: "char \<Rightarrow> bool" where
  "safe_char c \<longleftrightarrow> is_ascii_alphanumeric c \<and> ascii_lower_char c = c \<or> c = CHR ''.'' \<or> c = CHR ''-''"

definition safe_domain :: "string \<Rightarrow> bool" where
  "safe_domain d \<longleftrightarrow> d \<noteq> [] \<and> is_ascii_alphanumeric (hd d) \<and> CHR ''.'' \<in> set d \<and> length d \<le> 253 \<and> list_all safe_char d"

lemma split_char_hd: "s \<noteq> [] \<Longrightarrow> hd (split_char c s) \<noteq> [] \<Longrightarrow> hd (hd (split_char c s)) = hd s"
  by (cases s) (auto split: list.splits)

lemma split_char_last: "s \<noteq> [] \<Longrightarrow> last s = c \<Longrightarrow> last (split_char c s) = []"
proof (induction s)
  case (Cons x s)
  show ?case
  proof (cases "s = []")
    case True then show ?thesis using Cons.prems by simp
  next
    case False
    then have "last (split_char c s) = []" using Cons by simp
    moreover obtain w ws where "split_char c s = w # ws" using split_char_ne [of c s] by (cases "split_char c s") auto
    moreover have "ws \<noteq> [] \<or> w \<noteq> []"
    proof (rule ccontr)
      assume "\<not> (ws \<noteq> [] \<or> w \<noteq> [])"
      then have "split_char c s = [[]]" using calculation by simp
      then show False using False by (cases s) (auto split: if_splits list.splits)
    qed
    ultimately show ?thesis by auto
  qed
qed simp

lemma validate_domain_name_parts:
  assumes "validate_domain_name d = Inr u"
  shows "length d \<le> 253" and "CHR ''.'' \<in> set d" and "\<forall>l \<in> set (split_char (CHR ''.'') d). domain_label_ok l"
    and "last (split_char (CHR ''.'') d) \<noteq> []"
proof -
  have "length d \<le> 253 \<and> CHR ''.'' \<in> set d \<and> list_all domain_label_ok (split_char (CHR ''.'') d) \<and>
      \<not> length (last (split_char (CHR ''.'') d)) < 2"
    using assms unfolding validate_domain_name_def Let_def by (auto split: if_splits)
  then show "length d \<le> 253" "CHR ''.'' \<in> set d" "\<forall>l \<in> set (split_char (CHR ''.'') d). domain_label_ok l"
    "last (split_char (CHR ''.'') d) \<noteq> []" by (auto simp: list_all_iff)
qed

lemma lower_all: "c \<in> set (to_ascii_lowercase s) \<Longrightarrow> ascii_lower_char c = c"
  by (auto simp: to_ascii_lowercase_def)

lemma validated_safe:
  assumes "validate_domain_name d = Inr u" and "\<forall>c \<in> set d. ascii_lower_char c = c"
  shows "safe_domain d"
proof -
  note p = validate_domain_name_parts [OF assms(1)]
  let ?ls = "split_char (CHR ''.'') d"
  have "hd ?ls \<in> set ?ls" by simp
  then have first: "hd ?ls \<noteq> []" "is_ascii_alphanumeric (hd (hd ?ls))" using p(3) by (auto simp: domain_label_ok_def)
  have ne: "d \<noteq> []" using p(2) by auto
  have "safe_char c" if c: "c \<in> set d" for c
  proof (cases "c = CHR ''.''")
    case False
    then obtain l where "l \<in> set ?ls" "c \<in> set l" using split_char_cover [OF c] by blast
    then have "is_ascii_alphanumeric c \<or> c = CHR ''-''" using p(3) by (auto simp: domain_label_ok_def list_all_iff)
    then show ?thesis using assms(2) c by (auto simp: safe_char_def)
  qed (simp add: safe_char_def)
  then show ?thesis using first split_char_hd [OF ne first(1)] ne p(1,2) by (simp add: safe_domain_def list_all_iff)
qed

lemma normalize_domain_validates:
  assumes "normalize_domain input = Inr d"
  shows "validate_domain_name d = Inr ()" and "\<forall>c \<in> set d. ascii_lower_char c = c"
  using assms lower_all by (auto simp: normalize_domain_def Let_def and_then_Inr_iff)

lemma normalize_domain_safe: "normalize_domain input = Inr d \<Longrightarrow> safe_domain d"
  using validated_safe [OF normalize_domain_validates] .

lemma safe_char_not_whitespace: "safe_char c \<Longrightarrow> \<not> is_whitespace c"
  by (auto simp: safe_char_def is_ascii_alphanumeric_def is_whitespace_def Let_def)

lemma normalize_domain_idem:
  assumes "normalize_domain input = Inr d"
  shows "normalize_domain d = Inr d"
proof -
  have safe: "safe_domain d" using assms by (rule normalize_domain_safe)
  then have ends: "safe_char (hd d)" "safe_char (last d)" by (auto simp: safe_domain_def list_all_iff)
  have "trim d = d" unfolding trim_def using ends safe_char_not_whitespace by (intro trim_by_id) blast
  moreover have "last d \<noteq> CHR ''.''"
    using split_char_last [of d "CHR ''.''"] validate_domain_name_parts(4) [OF normalize_domain_validates(1) [OF assms]] safe
    by (auto simp: safe_domain_def)
  then have "trim_end_matches (CHR ''.'') d = d" unfolding trim_end_matches_def by (intro trim_end_by_id) auto
  moreover have "to_ascii_lowercase d = d"
    unfolding to_ascii_lowercase_def using normalize_domain_validates(2) [OF assms] by (intro map_idI) blast
  ultimately show ?thesis using normalize_domain_validates(1) [OF assms] by (simp add: normalize_domain_def)
qed

definition safe_user :: "string \<Rightarrow> bool" where
  "safe_user u \<longleftrightarrow> u \<noteq> [] \<and> is_ascii_alphanumeric (hd u)
     \<and> list_all (\<lambda>c. is_ascii_alphanumeric c \<or> c = CHR ''.'' \<or> c = CHR ''_'' \<or> c = CHR ''-'') u"

lemma validate_user_safe: "validate_hestia_user u = Inr x \<Longrightarrow> safe_user u"
  by (auto simp: validate_hestia_user_def safe_user_def split: if_splits)

section \<open>Lines of the log\<close>

definition plain :: "string \<Rightarrow> bool" where
  "plain s \<longleftrightarrow> line_feed \<notin> set s \<and> tabulator \<notin> set s"

text \<open>A line of four fields.\<close>

definition audit_ok :: "string \<Rightarrow> bool" where
  "audit_ok l \<longleftrightarrow> (\<exists>a b c d. l = a @ [tabulator] @ b @ [tabulator] @ c @ [tabulator] @ d @ [line_feed] \<and> plain a \<and> plain b \<and> plain c \<and> plain d)"

lemma plain_append [simp]: "plain (s @ t) \<longleftrightarrow> plain s \<and> plain t"
  by (auto simp: plain_def)

lemma controls: "of_char line_feed = (10 :: nat)" "of_char carriage_return = (13 :: nat)" "of_char tabulator = (9 :: nat)"
  by (simp_all add: line_feed_def carriage_return_def tabulator_def)

lemma plain_chars: "list_all (\<lambda>c. \<not> is_control c) s \<Longrightarrow> plain s"
proof -
  have "is_control line_feed" "is_control tabulator" by (simp_all add: is_control_def controls)
  then show "list_all (\<lambda>c. \<not> is_control c) s \<Longrightarrow> plain s" by (auto simp: plain_def list_all_iff)
qed

lemma set_str_replace: "set (str_replace c t s) = (set s - {c}) \<union> (if c \<in> set s then set t else {})"
  by (auto simp: str_replace_def split: if_splits)

lemma plain_sanitized: "plain (str_replace tabulator '' '' (str_replace carriage_return '' '' (str_replace line_feed '' '' s)))"
proof -
  have "CHR '' '' \<noteq> tabulator" "CHR '' '' \<noteq> line_feed" by code_simp+
  then show ?thesis by (auto simp: plain_def set_str_replace)
qed

lemma plain_show_nat: "plain (show_nat n)"
proof -
  have "\<not> is_control c" if "c \<in> set (show_nat n)" for c
    using show_nat_digits [OF that] by (auto simp: is_ascii_digit_def digit_val_def is_control_def Let_def split: if_splits)
  then show ?thesis by (intro plain_chars) (simp add: list_all_iff)
qed

lemma plain_safe_domain: "safe_domain d \<Longrightarrow> plain d"
  by (rule plain_chars) (auto simp: safe_domain_def list_all_iff safe_char_def is_ascii_alphanumeric_def is_control_def Let_def)

lemma plain_actions:
  "plain ''validate''" "plain ''adopt-existing''" "plain ''discover-existing''" "plain ''onboard''" "plain ''migrate''" "plain ''onboard-retry''"
  by (rule plain_chars, code_simp)+

lemma audit_line_ok: "plain action \<Longrightarrow> plain domain \<Longrightarrow> audit_ok (audit_line now action domain outcome)"
proof -
  assume a: "plain action" "plain domain"
  let ?o = "str_replace tabulator '' '' (str_replace carriage_return '' '' (str_replace line_feed '' '' outcome))"
  have "plain ''action=''" "plain ''domain=''" "plain ''outcome=''" by (rule plain_chars, code_simp)+
  then have "plain (''action='' @ action)" "plain (''domain='' @ domain)" "plain (''outcome='' @ ?o)"
    using a plain_sanitized by (simp_all only: plain_append)
  moreover have "audit_line now action domain outcome =
      show_nat now @ [tabulator] @ (''action='' @ action) @ [tabulator] @ (''domain='' @ domain) @ [tabulator] @ (''outcome='' @ ?o) @ [line_feed]"
    by (simp only: audit_line_def Let_def append_assoc)
  ultimately show ?thesis unfolding audit_ok_def using plain_show_nat by blast
qed

section \<open>Fingerprints\<close>

text \<open>The order in which a name server lists the records does not matter, unless two differ in their case only.\<close>

lemma canonical_dns_lines_perm:
  assumes "mset ls = mset ls'" and inj: "inj_on to_ascii_lowercase (set (map trim ls))"
  shows "canonical_dns_lines ls = canonical_dns_lines ls'"
proof -
  let ?f = "\<lambda>ls. filter (\<lambda>l. l \<noteq> []) (map trim ls)"
  have m: "mset (?f ls) = mset (?f ls')" using assms(1) by (simp add: mset_filter mset_map)
  have "inj_on to_ascii_lowercase (set (?f ls))" using inj by (rule inj_on_subset) auto
  then have "sort_key to_ascii_lowercase (?f ls) = sort_key to_ascii_lowercase (?f ls')"
    using m by (intro sort_key_inj_key_eq) simp_all
  then show ?thesis by (simp add: canonical_dns_lines_def)
qed

section \<open>Checks of a result\<close>

definition has_checks :: "json \<Rightarrow> string set \<Rightarrow> bool" where
  "has_checks result keys \<longleftrightarrow> (\<exists>checks. jget result ''checks'' = Some checks \<and> is_object checks
     \<and> (\<forall>key \<in> keys. \<exists>c. jget checks key = Some c \<and> is_object c))"

lemma jget_update_check:
  assumes "jget result ''checks'' = Some checks" and "is_object checks" and "jget checks key = Some c"
  shows "jget (update_check key f result) = (jget result)(''checks'' \<mapsto> jset key (f c) checks)"
proof -
  have "is_object result" using assms(1) by (rule jo.get_object)
  then show ?thesis using assms by (simp add: update_check_def jo.get_put)
qed

lemma has_checks_update:
  assumes h: "has_checks result keys" and key: "key \<in> keys" and obj: "\<And>c. is_object c \<Longrightarrow> is_object (f c)"
  shows "has_checks (update_check key f result) keys"
proof -
  obtain checks where c: "jget result ''checks'' = Some checks" "is_object checks"
    "\<And>k. k \<in> keys \<Longrightarrow> \<exists>c. jget checks k = Some c \<and> is_object c" using h by (auto simp: has_checks_def)
  obtain c0 where c0: "jget checks key = Some c0" "is_object c0" using c(3) [OF key] by blast
  have "jget (update_check key f result) ''checks'' = Some (jset key (f c0) checks)"
    using jget_update_check [OF c(1,2) c0(1), of f] by simp
  moreover have "\<exists>c. jget (jset key (f c0) checks) k = Some c \<and> is_object c" if "k \<in> keys" for k
    using c(3) [OF that] obj [OF c0(2)] c(2) by (simp add: jo.get_put)
  ultimately show ?thesis unfolding has_checks_def using c(2) by (simp add: jo.object_put)
qed

lemma pointer_update_check:
  assumes h: "has_checks result keys" and key: "key \<in> keys" and keep: "\<And>c. is_object c \<Longrightarrow> jget (f c) n = jget c n"
  shows "pointer (update_check key f result) (''checks'' # k # n # ns) = pointer result (''checks'' # k # n # ns)"
proof -
  obtain checks where c: "jget result ''checks'' = Some checks" "is_object checks"
    "\<And>k. k \<in> keys \<Longrightarrow> \<exists>c. jget checks k = Some c \<and> is_object c" using h by (auto simp: has_checks_def)
  obtain c0 where c0: "jget checks key = Some c0" "is_object c0" using c(3) [OF key] by blast
  show ?thesis using jget_update_check [OF c(1,2) c0(1), of f] c(1,2) c0 keep [OF c0(2)] by (simp add: jo.get_put)
qed

lemma check_ok_update:
  assumes h: "has_checks result keys" and key: "key \<in> keys" and ok: "\<And>c. is_object c \<Longrightarrow> jget (f c) ''ok'' = Some (JBool b)"
  shows "check_ok (update_check key f result) k = (if k = key then b else check_ok result k)"
proof -
  obtain checks where c: "jget result ''checks'' = Some checks" "is_object checks"
    "\<And>k. k \<in> keys \<Longrightarrow> \<exists>c. jget checks k = Some c \<and> is_object c" using h by (auto simp: has_checks_def)
  obtain c0 where c0: "jget checks key = Some c0" "is_object c0" using c(3) [OF key] by blast
  show ?thesis using jget_update_check [OF c(1,2) c0(1), of f] c(1,2) c0 ok [OF c0(2)]
    by (simp add: check_ok_def jo.get_put)
qed

lemma mark_adopted_fields:
  "is_object c \<Longrightarrow> is_object (mark_adopted b c)" "is_object c \<Longrightarrow> jget (mark_adopted b c) ''ok'' = Some (JBool b)"
  "is_object c \<Longrightarrow> jget (mark_adopted b c) ''detail'' = jget c ''detail''"
  by (simp_all add: mark_adopted_def jo.get_put jo.object_put)

lemma mark_not_applicable_fields:
  "is_object c \<Longrightarrow> is_object (mark_not_applicable c)" "is_object c \<Longrightarrow> jget (mark_not_applicable c) ''ok'' = Some (JBool True)"
  "is_object c \<Longrightarrow> jget (mark_not_applicable c) ''detail'' = jget c ''detail''"
  by (simp_all add: mark_not_applicable_def jo.get_put jo.object_put)

lemma fingerprint_update:
  assumes "has_checks result keys" and "key \<in> keys" and "\<And>c. is_object c \<Longrightarrow> jget (f c) ''detail'' = jget c ''detail''"
  shows "record_fingerprint (update_check key f result) = record_fingerprint result"
proof
  fix k
  show "record_fingerprint (update_check key f result) k = record_fingerprint result k"
    unfolding record_fingerprint_def using pointer_update_check [OF assms, of k "[''value'']"] by simp
qed

lemma matches_adopted_cong: "record_fingerprint r = record_fingerprint r' \<Longrightarrow> matches_adopted e r k = matches_adopted e r' k"
  unfolding matches_adopted_def by presburger

lemma apply_adopted_effect:
  assumes "apply_adopted e keys r ch = (r', ch')" and "has_checks r K" and "set keys \<subseteq> K"
  shows "has_checks r' K \<and> record_fingerprint r' = record_fingerprint r
    \<and> (ch' \<longleftrightarrow> ch \<or> (\<exists>k \<in> set keys. \<not> matches_adopted e r k))
    \<and> (\<forall>k. check_ok r' k = (if k \<in> set keys then matches_adopted e r k else check_ok r k))"
  using assms
proof (induction keys arbitrary: r ch)
  case (Cons key keys)
  let ?m = "matches_adopted e r key"
  let ?r = "update_check key (mark_adopted ?m) r"
  have key: "key \<in> K" using Cons.prems(3) by simp
  have h: "has_checks ?r K" by (rule has_checks_update [OF Cons.prems(2) key]) (rule mark_adopted_fields)
  have fp: "record_fingerprint ?r = record_fingerprint r"
    by (rule fingerprint_update [OF Cons.prems(2) key]) (rule mark_adopted_fields)
  have ok: "check_ok ?r k = (if k = key then ?m else check_ok r k)" for k
    by (rule check_ok_update [OF Cons.prems(2) key]) (rule mark_adopted_fields)
  have m: "matches_adopted e ?r k = matches_adopted e r k" for k using fp by (rule matches_adopted_cong)
  have "apply_adopted e keys ?r (ch \<or> \<not> ?m) = (r', ch')" using Cons.prems(1) by (simp add: Let_def)
  from Cons.IH [OF this h] Cons.prems(3) show ?case by (auto simp: fp ok m)
qed simp

lemma not_applicable_effect:
  assumes "has_checks r K" and "set keys \<subseteq> K"
  shows "has_checks (fold (\<lambda>key. update_check key mark_not_applicable) keys r) K
    \<and> record_fingerprint (fold (\<lambda>key. update_check key mark_not_applicable) keys r) = record_fingerprint r
    \<and> (\<forall>k. check_ok (fold (\<lambda>key. update_check key mark_not_applicable) keys r) k = (k \<in> set keys \<or> check_ok r k))"
  using assms
proof (induction keys arbitrary: r)
  case (Cons key keys)
  let ?r = "update_check key mark_not_applicable r"
  have key: "key \<in> K" using Cons.prems(2) by simp
  have h: "has_checks ?r K" by (rule has_checks_update [OF Cons.prems(1) key]) (rule mark_not_applicable_fields)
  have fp: "record_fingerprint ?r = record_fingerprint r"
    by (rule fingerprint_update [OF Cons.prems(1) key]) (rule mark_not_applicable_fields)
  have ok: "check_ok ?r k = (if k = key then True else check_ok r k)" for k
    by (rule check_ok_update [OF Cons.prems(1) key]) (rule mark_not_applicable_fields)
  from Cons.IH [OF h] Cons.prems(2) show ?case by (auto simp: fp ok)
qed simp

lemma check_keys: "set ADOPTABLE_DNS_CHECKS \<subseteq> set REQUIRED_CHECK_KEYS"
  by (simp add: ADOPTABLE_DNS_CHECKS_def REQUIRED_CHECK_KEYS_def)

lemma get_bool_policy:
  assumes "is_object r"
  shows "get_bool (jset ''existing_configuration'' x (jset ''decision_required'' (JBool c) (jset ''configuration_mode'' m (jset ''healthy'' (JBool b) r)))) ''healthy'' = Some b"
    and "get_bool (jset ''existing_configuration'' x (jset ''decision_required'' (JBool c) (jset ''configuration_mode'' m (jset ''healthy'' (JBool b) r)))) ''decision_required'' = Some c"
  using assms by (simp_all add: get_bool_jset jo.object_put)

lemma apply_existing_policy_spec:
  assumes "has_checks r (set REQUIRED_CHECK_KEYS)"
  shows "get_bool (apply_existing_policy r e) ''healthy'' = Some (\<forall>k \<in> set ADOPTABLE_DNS_CHECKS. matches_adopted e r k)"
    and "get_bool (apply_existing_policy r e) ''decision_required'' = Some (\<not> (\<forall>k \<in> set ADOPTABLE_DNS_CHECKS. matches_adopted e r k))"
proof -
  obtain r1 ch where loop: "apply_adopted e ADOPTABLE_DNS_CHECKS r False = (r1, ch)" by (cases "apply_adopted e ADOPTABLE_DNS_CHECKS r False")
  let ?rest = "filter (\<lambda>key. key \<notin> set ADOPTABLE_DNS_CHECKS) REQUIRED_CHECK_KEYS"
  define r2 where "r2 = fold (\<lambda>key. update_check key mark_not_applicable) ?rest r1"
  have e1: "has_checks r1 (set REQUIRED_CHECK_KEYS)" "ch \<longleftrightarrow> (\<exists>k \<in> set ADOPTABLE_DNS_CHECKS. \<not> matches_adopted e r k)"
    "\<And>k. check_ok r1 k = (if k \<in> set ADOPTABLE_DNS_CHECKS then matches_adopted e r k else check_ok r k)"
    using apply_adopted_effect [OF loop assms check_keys] by auto
  have e2: "has_checks r2 (set REQUIRED_CHECK_KEYS)" "\<And>k. check_ok r2 k = (k \<in> set ?rest \<or> check_ok r1 k)"
    using not_applicable_effect [OF e1(1), of ?rest] by (auto simp: r2_def)
  have "is_object r2" using e2(1) by (auto simp: has_checks_def intro: jo.get_object)
  moreover have healthy: "\<not> ch \<and> all_required_checks_healthy r2 \<longleftrightarrow> (\<forall>k \<in> set ADOPTABLE_DNS_CHECKS. matches_adopted e r k)"
    using e1(2,3) e2(2) by (auto simp: all_required_checks_healthy_def list_all_iff)
  moreover obtain x where "apply_existing_policy r e = jset ''existing_configuration'' x (jset ''decision_required'' (JBool ch)
      (jset ''configuration_mode'' (JStr ''existing'') (jset ''healthy'' (JBool (\<not> ch \<and> all_required_checks_healthy r2)) r2)))"
    using loop by (simp add: apply_existing_policy_def Let_def r2_def)
  ultimately show "get_bool (apply_existing_policy r e) ''healthy'' = Some (\<forall>k \<in> set ADOPTABLE_DNS_CHECKS. matches_adopted e r k)"
    "get_bool (apply_existing_policy r e) ''decision_required'' = Some (\<not> (\<forall>k \<in> set ADOPTABLE_DNS_CHECKS. matches_adopted e r k))"
    using get_bool_policy e1(2) by auto
qed

lemma raw_has_checks: "has_checks (validate_domain_raw net domain) (set REQUIRED_CHECK_KEYS)"
  by (simp add: has_checks_def validate_domain_raw_def Let_def REQUIRED_CHECK_KEYS_def is_object_def dig_def openssl_check_def
      split: sum.split)

section \<open>Entries of the inventory\<close>

lemma find_update_first:
  assumes "\<And>e. named d e \<Longrightarrow> named d (f e)"
  shows "List.find (named d') (update_first (named d) f ds) =
    (if d' = d then map_option f (List.find (named d) ds) else List.find (named d') ds)"
proof (induction ds)
  case (Cons e ds)
  have "named d e \<Longrightarrow> d' \<noteq> d \<Longrightarrow> \<not> named d' e \<and> \<not> named d' (f e)" using assms [of e] by (auto simp: named_def)
  then show ?case using Cons assms [of e] by (cases "d' = d") auto
qed simp

lemma find_snoc: "List.find P (xs @ [x]) = (case List.find P xs of Some y \<Rightarrow> Some y | None \<Rightarrow> if P x then Some x else None)"
  by (induction xs) auto

lemma named_object: "named d e \<Longrightarrow> is_object e"
  by (auto simp: named_def intro: get_str_object)

lemma named_adopted: "named d e \<Longrightarrow> named d (dom_adopted_entry cs e)"
  using named_object [of d e] by (simp add: named_def dom_adopted_entry_def get_str_jset jo.object_put)

lemma dom_adopted_entry_fields:
  assumes "is_object e"
  shows "get_str (dom_adopted_entry cs e) ''configuration_mode'' = Some ''existing''"
    and "pointer (dom_adopted_entry cs e) [''adopted_checks'', k] = map_of cs k"
  using assms by (simp_all add: dom_adopted_entry_def get_str_jset jo.object_put jo.get_put bind_map_option comp_def)

lemma find_domain_entry_jset:
  "is_object inventory \<Longrightarrow> find_domain_entry (jset ''domains'' (JArr ds) inventory) d = List.find (named d) ds"
  by (simp add: find_domain_entry_def get_array_jset)

lemma array_object: "get_array v k = Some ds \<Longrightarrow> is_object v"
  by (auto simp: get_array_def bind_eq_Some_conv intro: jo.get_object)

lemma push_domain_finds:
  assumes "push_domain d mode inventory = Inr inventory'" and "find_domain_entry inventory d = None"
  shows "\<exists>e. find_domain_entry inventory' d = Some e" and "d' \<noteq> d \<Longrightarrow> find_domain_entry inventory' d' = find_domain_entry inventory d'"
proof -
  obtain ds where ds: "get_array inventory ''domains'' = Some ds"
    "inventory' = jset ''domains'' (JArr (ds @ [JObj (domain_flags d False False False False @ [(''configuration_mode'', JStr mode)])])) inventory"
    using assms(1) by (auto simp: push_domain_def split: option.splits)
  have none: "List.find (named d) ds = None" using assms(2) ds(1) by (simp add: find_domain_entry_def)
  have new: "named x (JObj (domain_flags d False False False False @ [(''configuration_mode'', JStr mode)])) \<longleftrightarrow> x = d" for x
    by (auto simp: named_def domain_flags_def get_str_def)
  show "\<exists>e. find_domain_entry inventory' d = Some e"
    using ds none new [of d] array_object [OF ds(1)] by (simp add: find_domain_entry_jset find_snoc)
  show "d' \<noteq> d \<Longrightarrow> find_domain_entry inventory' d' = find_domain_entry inventory d'"
    using ds new [of d'] array_object [OF ds(1)]
    by (auto simp: find_domain_entry_jset find_snoc find_domain_entry_def [of inventory] split: option.split)
qed

lemma persist_adopted_finds:
  assumes "persist_adopted_domain w d cs f = Inr f'"
  shows "\<exists>inventory e. f' = Parsed inventory \<and> find_domain_entry inventory d = Some (dom_adopted_entry cs e) \<and> is_object e"
proof -
  obtain v inventory where v: "dom_read_inventory f = Inr v"
    "(if find_domain_entry v d = None then push_domain d ''existing'' v else Inr v) = Inr inventory"
    using assms unfolding persist_adopted_domain_def by (auto simp: and_then_Inr_iff)
  obtain e ds where e: "find_domain_entry inventory d = Some e" "get_array inventory ''domains'' = Some ds"
    "f' = Parsed (jset ''domains'' (JArr (update_first (named d) (dom_adopted_entry cs) ds)) inventory)"
    using assms v by (auto simp: persist_adopted_domain_def write_inventory_def split: option.splits if_splits)
  have "List.find (named d) ds = Some e" using e(1,2) by (simp add: find_domain_entry_def)
  moreover from this have "named d e" using find_SomeD by fast
  ultimately have "List.find (named d) (update_first (named d) (dom_adopted_entry cs) ds) = Some (dom_adopted_entry cs e)" "is_object e"
    using find_update_first [of d "dom_adopted_entry cs" d ds, OF named_adopted] named_object [of d e] by simp_all
  then show ?thesis using e(3) array_object [OF e(2)] by (auto simp: find_domain_entry_jset)
qed

text \<open>Once the existing configuration of a domain is adopted, a validation asks for a decision exactly when the fingerprint of
  one of the five monitored records differs from the one adopted, and reports the domain as healthy otherwise.\<close>

theorem adopted_drift_exact:
  assumes "adopt_existing_domain env input da = (Inr (domain, v), da')"
  shows "\<exists>result. validate_domain_inner net (da_file da') domain = Inr result
    \<and> get_bool result ''decision_required'' = Some (\<exists>k \<in> set ADOPTABLE_DNS_CHECKS.
         record_fingerprint (validate_domain_raw net domain) k \<noteq> record_fingerprint (validate_domain_raw (de_net env 0) domain) k)
    \<and> get_bool result ''healthy'' = Some (\<forall>k \<in> set ADOPTABLE_DNS_CHECKS.
         record_fingerprint (validate_domain_raw net domain) k = record_fingerprint (validate_domain_raw (de_net env 0) domain) k)"
proof -
  let ?old = "validate_domain_raw (de_net env 0) domain" and ?r = "validate_domain_raw net domain"
  let ?cs = "adopted_dns_snapshots ?old"
  have pf: "persist_adopted_domain (de_writable env) domain ?cs (da_file da) = Inr (da_file da')"
    using assms by (auto simp: adopt_existing_domain_def audited_def append_audit_def Let_def split: sum.splits if_splits prod.splits)
  obtain inventory e where f: "da_file da' = Parsed inventory" "find_domain_entry inventory domain = Some (dom_adopted_entry ?cs e)" "is_object e"
    using persist_adopted_finds [OF pf] by blast
  have m: "matches_adopted (dom_adopted_entry ?cs e) ?r k \<longleftrightarrow> record_fingerprint ?r k = record_fingerprint ?old k"
    if "k \<in> set ADOPTABLE_DNS_CHECKS" for k
  proof -
    have "map_of ?cs k = Some (case record_fingerprint ?old k of None \<Rightarrow> JNull | Some s \<Rightarrow> JStr s)"
      unfolding adopted_dns_snapshots_def using that by (simp add: map_of_map_restrict)
    then show ?thesis unfolding matches_adopted_def dom_adopted_entry_fields(2) [OF f(3)] by (simp split: option.split)
  qed
  have inner: "validate_domain_inner net (da_file da') domain = Inr (apply_existing_policy ?r (dom_adopted_entry ?cs e))"
    using f dom_adopted_entry_fields(1) [OF f(3)] by (simp add: validate_domain_inner_def dom_read_inventory_def Let_def)
  show ?thesis
    using apply_existing_policy_spec [OF raw_has_checks, of net domain "dom_adopted_entry ?cs e"] m
    by (intro exI [of _ "apply_existing_policy ?r (dom_adopted_entry ?cs e)"]) (simp add: inner)
qed

end
