(* ===== verification/Domain_Onboarding_Props.thy ===== *)
theory Domain_Onboarding_Props
  imports Domains_Props
begin

text \<open>
  Properties of onboarding: the retry loop around the helper program, what it leaves in the inventory, and what holds after
  every sequence of calls.
\<close>

section \<open>Onboarding\<close>

lemma audited_state:
  assumes "audited env action domain outcome k da = (r, da')"
  obtains (failed) "r = Inl Audit_Failed" "da' = da"
  | (ok) "k (da\<lparr>da_audit := da_audit da @ [audit_line (de_now env) action domain outcome]\<rparr>) = (r, da')"
  using assms by (auto simp: audited_def append_audit_def split: if_splits)

text \<open>What a part of a handler leaves alone: it runs the helper with the given arguments only and logs proper lines.\<close>

definition logs :: "dom_state \<Rightarrow> dom_state \<Rightarrow> bool" where
  "logs da da' \<longleftrightarrow> (\<exists>ls. da_audit da' = da_audit da @ ls \<and> (\<forall>l \<in> set ls. audit_ok l))"

lemma logs_refl [simp]: "logs da da"
  by (simp add: logs_def)

lemma logs_trans: "logs da da' \<Longrightarrow> logs da' da'' \<Longrightarrow> logs da da''"
  unfolding logs_def by fastforce

lemma logs_line: "plain action \<Longrightarrow> plain domain \<Longrightarrow> logs da (da\<lparr>da_audit := da_audit da @ [audit_line now action domain outcome]\<rparr>)"
  by (auto simp: logs_def audit_line_ok)

lemma logs_cong [simp]: "logs (da\<lparr>da_file := f\<rparr>) da' = logs da da'" "logs (da\<lparr>da_runs := rs\<rparr>) da' = logs da da'"
  by (simp_all add: logs_def)

definition worth_retry :: "run \<Rightarrow> bool" where
  "worth_retry r \<longleftrightarrow> (case r of Run_Timed_Out \<Rightarrow> True | Run_Not_Started _ \<Rightarrow> False
     | Run_Exit code _ _ \<Rightarrow> \<not> success code \<and> helper_exit_code_is_retryable code)"

text \<open>The effect of the attempts that are left: the helper runs once per attempt, and again only after a failure worth it.\<close>

definition helper_effect :: "dom_env \<Rightarrow> string \<Rightarrow> string \<Rightarrow> string \<Rightarrow> nat list \<Rightarrow> dom_state \<Rightarrow> dom_state \<Rightarrow> bool" where
  "helper_effect env action domain user attempts da da' \<longleftrightarrow> da_file da' = da_file da \<and> logs da da'
    \<and> (\<exists>k \<le> length attempts. da_runs da' = da_runs da @ replicate k (action, domain, user)
         \<and> (\<forall>i. Suc i < k \<longrightarrow> worth_retry (de_helper env (attempts ! i))))"

lemma helper_effect_last:
  assumes "da_file da' = da_file da" and "logs da da'" and "da_runs da' = da_runs da @ [(action, domain, user)]"
  shows "helper_effect env action domain user (attempt # attempts) da da'"
  using assms unfolding helper_effect_def by (auto intro!: exI [of _ 1])

lemma helper_effect_audited:
  assumes "audited env a domain out (\<lambda>da. (x, da)) (da\<lparr>da_runs := da_runs da @ [(action, domain, user)]\<rparr>) = (r, da')"
    and "plain a" and "plain domain"
  shows "helper_effect env action domain user (attempt # attempts) da da'"
  using assms(1)
proof (cases rule: audited_state)
  case failed then show ?thesis by (intro helper_effect_last) (auto simp: logs_def)
next
  case ok then show ?thesis using assms(2,3) by (intro helper_effect_last) (auto simp: logs_def audit_line_ok)
qed

lemma helper_effect_again:
  assumes again: "helper_effect env action domain user attempts x da'" and ret: "worth_retry (de_helper env attempt)"
    and x: "da_file x = da_file da" "da_runs x = da_runs da @ [(action, domain, user)]" "logs da x"
  shows "helper_effect env action domain user (attempt # attempts) da da'"
proof -
  obtain k where k: "k \<le> length attempts" "da_runs da' = da_runs x @ replicate k (action, domain, user)"
    "\<forall>i. Suc i < k \<longrightarrow> worth_retry (de_helper env (attempts ! i))" "da_file da' = da_file x" "logs x da'"
    using again by (auto simp: helper_effect_def)
  have "worth_retry (de_helper env ((attempt # attempts) ! i))" if "Suc i < Suc k" for i
    using k(3) ret that by (cases i) auto
  moreover have "da_runs da' = da_runs da @ replicate (Suc k) (action, domain, user)" using k(2) x(2) by simp
  moreover have "logs da da'" using x(3) k(5) by (rule logs_trans)
  moreover have "da_file da' = da_file da" using k(4) x(1) by simp
  ultimately show ?thesis unfolding helper_effect_def using k(1) by (metis Suc_le_mono length_Cons)
qed

lemma run_helper_exit:
  assumes run: "run_helper env action domain user (attempt # attempts) lf da = (r, da')"
    and out: "de_helper env attempt = Run_Exit code stdout stderr"
    and IH: "\<And>lf x. run_helper env action domain user attempts lf x = (r, da') \<Longrightarrow> helper_effect env action domain user attempts x da'"
    and p: "plain action" "plain domain"
  shows "helper_effect env action domain user (attempt # attempts) da da'"
proof -
  let ?da = "da\<lparr>da_runs := da_runs da @ [(action, domain, user)]\<rparr>" and ?lf = "helper_failure_detail stdout stderr code"
  consider "success code" | "\<not> success code" "helper_exit_code_is_retryable code" "attempt < HELPER_RECONCILE_ATTEMPTS"
    | "\<not> success code" "\<not> (helper_exit_code_is_retryable code \<and> attempt < HELPER_RECONCILE_ATTEMPTS)" by blast
  then show ?thesis
  proof cases
    case 1
    consider "da' = ?da" | x where "audited env ''onboard-retry'' domain (''recovered on attempt '' @ of_attempts attempt) (\<lambda>da. (x, da)) ?da = (r, da')"
      using run out 1 by (auto simp: Let_def split: option.splits if_splits)
    then show ?thesis
    proof cases
      case 1 then show ?thesis by (intro helper_effect_last) (auto simp: logs_def)
    next
      case 2 then show ?thesis using plain_actions(6) p(2) by (rule helper_effect_audited)
    qed
  next
    case 2
    have "audited env ''onboard-retry'' domain (''attempt '' @ of_attempts attempt @ '' failed; retrying: '' @ ?lf)
        (run_helper env action domain user attempts ?lf) ?da = (r, da')"
      using run out 2 by (simp add: Let_def)
    then show ?thesis
    proof (cases rule: audited_state)
      case failed then show ?thesis by (intro helper_effect_last) (auto simp: logs_def)
    next
      case ok
      show ?thesis using 2 out p(2) plain_actions(6)
        by (intro helper_effect_again [OF IH [OF ok]]) (auto simp: worth_retry_def logs_def intro: audit_line_ok)
    qed
  next
    case 3
    then have "audited env action domain (''failed: '' @ ?lf) (\<lambda>da. (Inl (Onboarding_Failed ?lf), da)) ?da = (r, da')"
      using run out by (auto simp: Let_def)
    then show ?thesis using p by (rule helper_effect_audited)
  qed
qed

lemma run_helper_effect:
  assumes "run_helper env action domain user attempts lf da = (r, da')" and p: "plain action" "plain domain"
  shows "helper_effect env action domain user attempts da da'"
  using assms(1)
proof (induction attempts arbitrary: lf da)
  case Nil then show ?case by (simp add: helper_effect_def)
next
  case (Cons attempt attempts)
  let ?da = "da\<lparr>da_runs := da_runs da @ [(action, domain, user)]\<rparr>"
  let ?lf = "''helper timed out on attempt '' @ of_attempts attempt"
  show ?case
  proof (cases "de_helper env attempt")
    case Run_Timed_Out
    consider "run_helper env action domain user attempts ?lf ?da = (r, da')"
      | "audited env action domain (''failed: '' @ ?lf) (\<lambda>da. (Inl (Onboarding_Failed ?lf), da)) ?da = (r, da')"
      using Cons.prems Run_Timed_Out by (cases "attempt < HELPER_RECONCILE_ATTEMPTS") (simp_all add: Let_def)
    then show ?thesis
    proof cases
      case 1
      then show ?thesis using Run_Timed_Out
        by (intro helper_effect_again [OF Cons.IH [OF 1]]) (simp_all add: worth_retry_def logs_def)
    next
      case 2 then show ?thesis using p by (rule helper_effect_audited)
    qed
  next
    case (Run_Not_Started err)
    then show ?thesis using Cons.prems by (intro helper_effect_last) (auto simp: Let_def logs_def)
  next
    case (Run_Exit code stdout stderr)
    then show ?thesis using run_helper_exit [OF Cons.prems Run_Exit Cons.IH p] by simp
  qed
qed

lemma run_helper_reaches:
  assumes "\<And>n. de_audit env n" and "de_helper env k = Run_Exit (Some 0) stdout stderr" and "de_parse env (trim stdout) = Some result"
    and "k \<le> HELPER_RECONCILE_ATTEMPTS"
  shows "\<lbrakk>j \<le> k; 0 < j; \<forall>i. j \<le> i \<and> i < k \<longrightarrow> worth_retry (de_helper env i)\<rbrakk> \<Longrightarrow>
    \<exists>da'. run_helper env action domain user [j ..< HELPER_RECONCILE_ATTEMPTS + 1] lf da = (Inr result, da')
      \<and> da_file da' = da_file da \<and> da_runs da' = da_runs da @ replicate (Suc k - j) (action, domain, user)"
proof (induction "k - j" arbitrary: j lf da)
  case 0
  then have "j = k" by simp
  moreover have "[j ..< HELPER_RECONCILE_ATTEMPTS + 1] = j # [Suc j ..< HELPER_RECONCILE_ATTEMPTS + 1]"
    using 0 assms(4) by (intro upt_conv_Cons) simp
  ultimately show ?case using assms by (simp add: success_def audited_def append_audit_def Let_def)
next
  case (Suc n)
  then have jk: "j < k" by simp
  have upt: "[j ..< HELPER_RECONCILE_ATTEMPTS + 1] = j # [Suc j ..< HELPER_RECONCILE_ATTEMPTS + 1]"
    using jk assms(4) by (intro upt_conv_Cons) simp
  have "worth_retry (de_helper env j)" using Suc.prems jk by simp
  then obtain lf' da1 where step: "run_helper env action domain user [j ..< HELPER_RECONCILE_ATTEMPTS + 1] lf da =
      run_helper env action domain user [Suc j ..< HELPER_RECONCILE_ATTEMPTS + 1] lf' da1"
    "da_file da1 = da_file da" "da_runs da1 = da_runs da @ [(action, domain, user)]"
  proof (cases "de_helper env j")
    case Run_Timed_Out
    then show ?thesis using that [of "''helper timed out on attempt '' @ of_attempts j" "da\<lparr>da_runs := da_runs da @ [(action, domain, user)]\<rparr>"]
      upt jk assms(4) by (simp add: Let_def)
  next
    case (Run_Exit code out err)
    let ?lf = "helper_failure_detail out err code"
    show ?thesis
      using that [of ?lf "da\<lparr>da_runs := da_runs da @ [(action, domain, user)], da_audit := da_audit da @ [audit_line (de_now env) ''onboard-retry'' domain
          (''attempt '' @ of_attempts j @ '' failed; retrying: '' @ ?lf)]\<rparr>"]
        Run_Exit \<open>worth_retry (de_helper env j)\<close> upt jk assms(1,4)
      by (simp add: worth_retry_def audited_def append_audit_def Let_def)
  qed (simp add: worth_retry_def)
  obtain da' where "run_helper env action domain user [Suc j ..< HELPER_RECONCILE_ATTEMPTS + 1] lf' da1 = (Inr result, da')"
    "da_file da' = da_file da1" "da_runs da' = da_runs da1 @ replicate (Suc k - Suc j) (action, domain, user)"
  proof -
    have "n = k - Suc j" "Suc j \<le> k" "0 < Suc j" "\<forall>i. Suc j \<le> i \<and> i < k \<longrightarrow> worth_retry (de_helper env i)"
      using Suc.hyps(2) Suc.prems jk by auto
    from Suc.hyps(1) [OF this] show ?thesis using that by blast
  qed
  moreover have "Suc k - j = Suc (Suc k - Suc j)" using jk by simp
  ultimately show ?case using step by simp
qed

lemma managed_entry_fields:
  assumes "is_object e"
  shows "get_str (managed_entry e) ''configuration_mode'' = Some ''nexus''" and "jget (managed_entry e) ''adopted_checks'' = None"
    and "get_str (managed_entry e) ''name'' = get_str e ''name''"
    and "get_bool (managed_entry e) ''mail'' = Some True" and "get_bool (managed_entry e) ''webmail'' = Some True"
  using assms by (simp_all add: managed_entry_def get_str_def get_bool_def jo.get_remove jo.object_put jo.get_put)

definition managed :: "json \<Rightarrow> bool" where
  "managed e \<longleftrightarrow> get_str e ''configuration_mode'' = Some ''nexus'' \<and> jget e ''adopted_checks'' = None
     \<and> get_bool e ''mail'' = Some True \<and> get_bool e ''webmail'' = Some True"

lemma managed_new: "managed (JObj (domain_flags d True True True True @ [(''configuration_mode'', JStr ''nexus'')]))"
  by (simp add: managed_def domain_flags_def get_str_def get_bool_def)

lemma upsert_mail_domain_spec:
  assumes "get_array inventory ''domains'' = Some ds"
  shows "\<exists>inventory'. upsert_mail_domain domain inventory = Inr inventory'
    \<and> (\<exists>e. find_domain_entry inventory' domain = Some e \<and> managed e)
    \<and> (\<forall>d. d \<noteq> domain \<longrightarrow> find_domain_entry inventory' d = find_domain_entry inventory d)"
proof (cases "List.find (named domain) ds")
  case None
  then have ex: "\<not> list_ex (named domain) ds" by (auto simp: find_None_iff list_ex_iff)
  let ?new = "JObj (domain_flags domain True True True True @ [(''configuration_mode'', JStr ''nexus'')])"
  have new: "named d ?new \<longleftrightarrow> d = domain" for d by (auto simp: named_def domain_flags_def get_str_def)
  have f: "find_domain_entry (jset ''domains'' (JArr (ds @ [?new])) inventory) d = (if d = domain then Some ?new else find_domain_entry inventory d)" for d
    using array_object [OF assms] assms None new [of d]
    by (auto simp: find_domain_entry_jset find_snoc find_domain_entry_def [of inventory] split: option.split)
  show ?thesis using ex assms managed_new [of domain] by (simp add: upsert_mail_domain_def f)
next
  case (Some e)
  then have ne: "named domain e" "e \<in> set ds" using find_SomeD by fast+
  then have ex: "list_ex (named domain) ds" by (auto simp: list_ex_iff)
  have nm: "named domain e' \<Longrightarrow> named domain (managed_entry e')" for e'
    using named_object [of domain e'] by (simp add: named_def managed_entry_fields)
  have f: "find_domain_entry (jset ''domains'' (JArr (update_first (named domain) managed_entry ds)) inventory) d =
      (if d = domain then Some (managed_entry e) else find_domain_entry inventory d)" for d
    using array_object [OF assms] assms Some find_update_first [of domain managed_entry d ds, OF nm]
    by (simp add: find_domain_entry_jset find_domain_entry_def [of inventory])
  have "managed (managed_entry e)" using managed_entry_fields [OF named_object [OF ne(1)]] by (simp add: managed_def)
  then show ?thesis using ex assms by (simp add: upsert_mail_domain_def f)
qed

lemma validate_inner_total: "dom_read_inventory f = Inr v \<Longrightarrow> \<exists>result. validate_domain_inner net f domain = Inr result"
  by (simp add: validate_domain_inner_def Let_def split: option.split)

lemma onboard_run_succeeds:
  assumes audit: "\<And>n. de_audit env n" and helper: "de_helper_exists env"
    "1 \<le> k" "k \<le> HELPER_RECONCILE_ATTEMPTS" "\<forall>i. 1 \<le> i \<and> i < k \<longrightarrow> worth_retry (de_helper env i)"
    "de_helper env k = Run_Exit (Some 0) stdout stderr" "de_parse env (trim stdout) = Some result"
    and inv: "de_writable env" "dom_read_inventory (da_file da) = Inr inventory" "get_array inventory ''domains'' = Some ds"
  shows "\<exists>validation da' inventory' e. onboard_run env action domain user da = (Inr (Onboarded domain result validation), da')
    \<and> da_runs da' = da_runs da @ replicate k (action, domain, user)
    \<and> da_file da' = Parsed inventory' \<and> find_domain_entry inventory' domain = Some e \<and> managed e
    \<and> (\<forall>d. d \<noteq> domain \<longrightarrow> find_domain_entry inventory' d = find_domain_entry inventory d)"
proof -
  obtain da1 where run: "run_helper env action domain user [1 ..< HELPER_RECONCILE_ATTEMPTS + 1] [] da = (Inr result, da1)"
    "da_file da1 = da_file da" "da_runs da1 = da_runs da @ replicate k (action, domain, user)"
    using run_helper_reaches [OF audit helper(5,6,3) helper(2) zero_less_one helper(4), of action domain user "[]" da] by auto
  obtain inventory' e where up: "upsert_mail_domain domain inventory = Inr inventory'" "find_domain_entry inventory' domain = Some e" "managed e"
    "\<forall>d. d \<noteq> domain \<longrightarrow> find_domain_entry inventory' d = find_domain_entry inventory d"
    using upsert_mail_domain_spec [OF inv(3), of domain] by blast
  have p: "persist_mail_domain (de_writable env) domain (da_file da1) = Inr (Parsed inventory')"
    using up(1) inv run(2) by (simp add: persist_mail_domain_def write_inventory_def)
  obtain validation where v: "validate_domain_inner (de_net env 1) (Parsed inventory') domain = Inr validation"
    using validate_inner_total [of "Parsed inventory'" inventory' "de_net env 1" domain] by (auto simp: dom_read_inventory_def)
  have "onboard_run env action domain user da = (Inr (Onboarded domain result validation),
      da1\<lparr>da_file := Parsed inventory', da_audit := da_audit da1 @ [audit_line (de_now env) action domain ''completed'']\<rparr>)"
    using helper(1) run(1) p v audit by (simp add: onboard_run_def audited_def append_audit_def Let_def)
  then show ?thesis using run(3) up by simp
qed

lemma onboard_run_effect:
  assumes "onboard_run env action domain user da = (r, da')" and p: "plain action" "plain domain"
  shows "logs da da' \<and> (\<exists>k \<le> HELPER_RECONCILE_ATTEMPTS. da_runs da' = da_runs da @ replicate k (action, domain, user)
         \<and> (\<forall>i. 1 \<le> i \<and> i < k \<longrightarrow> worth_retry (de_helper env i)))
    \<and> (da_file da' = da_file da \<or> persist_mail_domain (de_writable env) domain (da_file da) = Inr (da_file da'))"
proof (cases "de_helper_exists env")
  case False
  then show ?thesis using assms(1) by (auto simp: onboard_run_def)
next
  case True
  obtain x da1 where run: "run_helper env action domain user [1 ..< HELPER_RECONCILE_ATTEMPTS + 1] [] da = (x, da1)"
    by (cases "run_helper env action domain user [1 ..< HELPER_RECONCILE_ATTEMPTS + 1] [] da")
  obtain k where k: "da_file da1 = da_file da" "logs da da1" "k \<le> HELPER_RECONCILE_ATTEMPTS"
    "da_runs da1 = da_runs da @ replicate k (action, domain, user)"
    "\<forall>i. Suc i < k \<longrightarrow> worth_retry (de_helper env ([1 ..< HELPER_RECONCILE_ATTEMPTS + 1] ! i))"
    using run_helper_effect [OF run p] by (auto simp: helper_effect_def simp del: upt_Suc)
  have ret: "\<forall>i. 1 \<le> i \<and> i < k \<longrightarrow> worth_retry (de_helper env i)"
  proof (intro allI impI)
    fix i assume i: "1 \<le> i \<and> i < k"
    then have "[1 ..< HELPER_RECONCILE_ATTEMPTS + 1] ! (i - 1) = i" using k(3) by (simp del: upt_Suc)
    then show "worth_retry (de_helper env i)" using k(5) [rule_format, of "i - 1"] i by simp
  qed
  have rest: "logs da1 da' \<and> da_runs da' = da_runs da1 \<and> (da_file da' = da_file da1 \<or>
      persist_mail_domain (de_writable env) domain (da_file da1) = Inr (da_file da'))"
  proof (cases x)
    case (Inl err) then show ?thesis using assms(1) True run by (simp add: onboard_run_def del: upt_Suc)
  next
    case (Inr result)
    show ?thesis
    proof (cases "persist_mail_domain (de_writable env) domain (da_file da1)")
      case failed: (Inl err)
      then have "audited env action domain (''providers completed; inventory persistence failed: '' @ dom_error_text err) (\<lambda>da. (Inl err, da)) da1 = (r, da')"
        using assms(1) True run Inr by (simp add: onboard_run_def del: upt_Suc)
      then show ?thesis by (cases rule: audited_state) (use p logs_line in auto)
    next
      case stored: (Inr f)
      show ?thesis
      proof (cases "validate_domain_inner (de_net env 1) f domain")
        case (Inl err)
        then show ?thesis using assms(1) True run Inr stored by (auto simp: onboard_run_def logs_def simp del: upt_Suc)
      next
        case v: (Inr validation)
        have "audited env action domain ''completed'' (\<lambda>da. (Inr (Onboarded domain result validation), da)) (da1\<lparr>da_file := f\<rparr>) = (r, da')"
          using assms(1) True run Inr stored v by (simp add: onboard_run_def Let_def del: upt_Suc)
        then show ?thesis using stored by (cases rule: audited_state) (use p in \<open>auto simp: logs_def audit_line_ok\<close>)
      qed
    qed
  qed
  show ?thesis using rest k ret logs_trans [OF k(2), of da'] by auto
qed

lemma onboard_cases:
  assumes "onboard_domain env input hestia_user replace_existing da = (r, da')"
  obtains (rejected) "da' = da"
  | (decision) domain preflight f where "normalize_domain input = Inr domain" "persist_discovered_domain (de_writable env) domain (da_file da) = Inr f"
      "audited env ''discover-existing'' domain ''decision-required'' (\<lambda>da. (Inr (Decision_Required domain preflight), da)) (da\<lparr>da_file := f\<rparr>) = (r, da')"
  | (run) action domain user where "normalize_domain input = Inr domain" "validate_hestia_user user = Inr ()"
      "onboard_run env action domain user da = (r, da')"
      "action = ''migrate'' \<and> replace_existing = Some True \<or> action = ''onboard'' \<and> replace_existing \<noteq> Some True
         \<and> (\<exists>preflight. validate_domain_inner (de_net env 0) (da_file da) domain = Inr preflight
              \<and> get_bool preflight ''decision_required'' \<noteq> Some True)"
  using assms by (auto simp: onboard_domain_def Let_def split: sum.splits if_splits)

text \<open>C25. Onboarding runs the helper at most three times, always with the same checked arguments: as migrate only when the
  caller asked to replace an existing configuration, and otherwise only after live checks that found nothing to decide;
  every run but the last one timed out or ended with a code worth a retry.\<close>

theorem onboard_guarded:
  assumes "onboard_domain env input hestia_user replace_existing da = (r, da')"
  shows "\<exists>k action domain user. da_runs da' = da_runs da @ replicate k (action, domain, user) \<and> k \<le> 3
    \<and> (0 < k \<longrightarrow> safe_domain domain \<and> normalize_domain input = Inr domain \<and> safe_user user
        \<and> (action = ''migrate'' \<and> replace_existing = Some True \<or> action = ''onboard'' \<and> replace_existing \<noteq> Some True
             \<and> (\<exists>preflight. validate_domain_inner (de_net env 0) (da_file da) domain = Inr preflight
                  \<and> get_bool preflight ''decision_required'' \<noteq> Some True)))
    \<and> (\<forall>i. 1 \<le> i \<and> i < k \<longrightarrow> worth_retry (de_helper env i))"
  using assms
proof (cases rule: onboard_cases)
  case rejected then show ?thesis by (intro exI [of _ 0]) simp
next
  case (decision domain preflight f)
  from decision(3) have "da_runs da' = da_runs da" by (cases rule: audited_state) auto
  then show ?thesis by (intro exI [of _ 0]) simp
next
  case (run action domain user)
  have "plain action" using run(4) by (elim disjE conjE) (simp_all only: plain_actions)
  moreover have safe: "safe_domain domain" using run(1) by (rule normalize_domain_safe)
  ultimately obtain k where k: "k \<le> 3" "da_runs da' = da_runs da @ replicate k (action, domain, user)"
    "\<forall>i. 1 \<le> i \<and> i < k \<longrightarrow> worth_retry (de_helper env i)"
    using onboard_run_effect [OF run(3)] plain_safe_domain by (auto simp: HELPER_RECONCILE_ATTEMPTS_def)
  have user: "safe_user user" using run(2) by (rule validate_user_safe)
  show ?thesis
    by (rule exI [of _ k], rule exI [of _ action], rule exI [of _ domain], rule exI [of _ user])
      (intro conjI impI k safe run(1) user run(4))
qed

text \<open>C26. Onboarding succeeds as soon as one of the first three runs of the helper does and the ones before it failed in a way that
  is worth a retry: the domain is then managed in the inventory and no other entry has changed. The domain and the user are
  valid, the preflight check leaves no decision open or a replacement was asked for, the audit log and the inventory can
  be written, the inventory can be read and lists domains, the helper is installed, and the output of the successful run
  parses.\<close>

theorem onboard_succeeds:
  assumes "normalize_domain input = Inr domain" and "validate_hestia_user user = Inr ()"
    and "replace_existing = Some True \<or> validate_domain_inner (de_net env 0) (da_file da) domain = Inr preflight
        \<and> get_bool preflight ''decision_required'' \<noteq> Some True"
    and "\<forall>n. de_audit env n" and "de_helper_exists env" and "1 \<le> k" and "k \<le> 3"
    and "\<forall>i. 1 \<le> i \<and> i < k \<longrightarrow> worth_retry (de_helper env i)"
    and "de_helper env k = Run_Exit (Some 0) stdout stderr" and "de_parse env (trim stdout) = Some result"
    and "de_writable env" and "dom_read_inventory (da_file da) = Inr inventory" and "get_array inventory ''domains'' = Some ds"
  shows "\<exists>validation da' inventory' e. onboard_domain env input (Some user) replace_existing da = (Inr (Onboarded domain result validation), da')
    \<and> length (da_runs da') = length (da_runs da) + k
    \<and> da_file da' = Parsed inventory' \<and> find_domain_entry inventory' domain = Some e \<and> managed e
    \<and> (\<forall>d. d \<noteq> domain \<longrightarrow> find_domain_entry inventory' d = find_domain_entry inventory d)"
proof -
  let ?action = "if replace_existing = Some True then ''migrate'' else ''onboard''"
  have "onboard_domain env input (Some user) replace_existing da = onboard_run env ?action domain user da"
    using assms(1-3) by (auto simp: onboard_domain_def)
  moreover obtain validation da' inventory' e where run: "onboard_run env ?action domain user da = (Inr (Onboarded domain result validation), da')"
    "da_runs da' = da_runs da @ replicate k (?action, domain, user)"
    "da_file da' = Parsed inventory'" "find_domain_entry inventory' domain = Some e" "managed e"
    "\<forall>d. d \<noteq> domain \<longrightarrow> find_domain_entry inventory' d = find_domain_entry inventory d"
    using onboard_run_succeeds [of env k stdout stderr result da inventory ds ?action domain user] assms(4-13)
    unfolding HELPER_RECONCILE_ATTEMPTS_def by blast
  moreover have "length (da_runs da') = length (da_runs da) + k" using run(2) by simp
  ultimately show ?thesis by metis
qed

text \<open>Onboarding an adopted domain whose records have not changed needs no decision and ends the adoption.\<close>

text \<open>Onboarding a domain whose adopted configuration has not changed asks for no decision: without the caller having asked for a
  replacement it runs the helper, and when that succeeds the domain is managed and its adoption is gone.\<close>

theorem onboard_ends_adoption:
  assumes adopt: "adopt_existing_domain env\<^sub>0 input da\<^sub>0 = (Inr (domain, v), da)"
    and same: "\<forall>k \<in> set ADOPTABLE_DNS_CHECKS. record_fingerprint (validate_domain_raw (de_net env 0) domain) k =
       record_fingerprint (validate_domain_raw (de_net env\<^sub>0 0) domain) k"
    and env: "\<forall>n. de_audit env n" "de_helper_exists env" "de_writable env"
      "de_helper env 1 = Run_Exit (Some 0) stdout stderr" "de_parse env (trim stdout) = Some result"
  shows "\<exists>validation da' inventory' e. onboard_domain env input None None da = (Inr (Onboarded domain result validation), da')
    \<and> da_file da' = Parsed inventory' \<and> find_domain_entry inventory' domain = Some e
    \<and> get_str e ''configuration_mode'' = Some ''nexus'' \<and> jget e ''adopted_checks'' = None"
proof -
  have norm: "normalize_domain input = Inr domain"
    using adopt by (auto simp: adopt_existing_domain_def audited_def append_audit_def Let_def split: sum.splits if_splits prod.splits)
  obtain preflight where pre: "validate_domain_inner (de_net env 0) (da_file da) domain = Inr preflight"
    "get_bool preflight ''decision_required'' = Some False"
    using adopted_drift_exact [OF adopt, of "de_net env 0"] same by auto
  obtain inventory e\<^sub>0 where f: "da_file da = Parsed inventory" "find_domain_entry inventory domain = Some e\<^sub>0"
    using adopt persist_adopted_finds
    by (fastforce simp: adopt_existing_domain_def audited_def append_audit_def Let_def split: sum.splits if_splits prod.splits)
  obtain ds where ds: "get_array inventory ''domains'' = Some ds"
    using f(2) by (auto simp: find_domain_entry_def split: option.splits)
  have "validate_hestia_user ''admin'' = Inr ()" by code_simp
  then have "onboard_domain env input None None da = onboard_run env ''onboard'' domain ''admin'' da"
    using norm pre by (simp add: onboard_domain_def)
  moreover obtain validation da' inventory' e where "onboard_run env ''onboard'' domain ''admin'' da = (Inr (Onboarded domain result validation), da')"
    "da_file da' = Parsed inventory'" "find_domain_entry inventory' domain = Some e" "managed e"
    using onboard_run_succeeds [of env 1 stdout stderr result da inventory ds "''onboard''" domain "''admin''"] env ds f(1)
    by (auto simp: HELPER_RECONCILE_ATTEMPTS_def dom_read_inventory_def)
  ultimately show ?thesis unfolding managed_def by metis
qed

section \<open>All histories\<close>

inductive dom_step :: "dom_state \<Rightarrow> dom_state \<Rightarrow> bool" where
  Validate: "dom_step da (snd (validate_domain env input da))"
| Adopt: "dom_step da (snd (adopt_existing_domain env input da))"
| Onboard: "dom_step da (snd (onboard_domain env input hestia_user replace_existing da))"

definition names_ok :: "json \<Rightarrow> bool" where
  "names_ok inventory \<longleftrightarrow> (\<exists>ds. get_array inventory ''domains'' = Some ds \<and> distinct (map (\<lambda>d. get_str d ''name'') ds))"

definition dom_inv :: "dom_state \<Rightarrow> bool" where
  "dom_inv da \<longleftrightarrow> (\<exists>inventory. dom_read_inventory (da_file da) = Inr inventory \<and> names_ok inventory)
     \<and> (\<forall>l \<in> set (da_audit da). audit_ok l)
     \<and> (\<forall>(a, d, u) \<in> set (da_runs da). (a = ''onboard'' \<or> a = ''migrate'') \<and> safe_domain d \<and> safe_user u)"

definition dom_start :: "dom_state \<Rightarrow> bool" where
  "dom_start da \<longleftrightarrow> da_file da = No_File \<and> da_audit da = [] \<and> da_runs da = []"

lemma update_first_names:
  assumes "\<And>e. named d e \<Longrightarrow> named d (f e)"
  shows "map (\<lambda>d. get_str d ''name'') (update_first (named d) f ds) = map (\<lambda>d. get_str d ''name'') ds"
proof (induction ds)
  case (Cons e ds)
  have "named d e \<Longrightarrow> get_str (f e) ''name'' = get_str e ''name''" using assms [of e] by (simp add: named_def)
  then show ?case using Cons by simp
qed simp

lemma names_ok_array: "get_array inventory ''domains'' = Some ds \<Longrightarrow> distinct (map (\<lambda>d. get_str d ''name'') ds') \<Longrightarrow>
    names_ok (jset ''domains'' (JArr ds') inventory)"
  by (auto simp: names_ok_def get_array_jset array_object)

lemma names_ok_snoc:
  assumes "get_array inventory ''domains'' = Some ds" and "names_ok inventory" and "List.find (named d) ds = None"
    and "get_str e ''name'' = Some d"
  shows "names_ok (jset ''domains'' (JArr (ds @ [e])) inventory)"
proof (rule names_ok_array [OF assms(1)])
  have "distinct (map (\<lambda>d. get_str d ''name'') ds)" using assms(1,2) by (simp add: names_ok_def)
  moreover have "Some d \<notin> set (map (\<lambda>d. get_str d ''name'') ds)" using assms(3) by (auto simp: find_None_iff named_def)
  ultimately show "distinct (map (\<lambda>d. get_str d ''name'') (ds @ [e]))" using assms(4) by simp
qed

lemma names_ok_update:
  assumes "get_array inventory ''domains'' = Some ds" and "names_ok inventory" and "\<And>e. named d e \<Longrightarrow> named d (f e)"
  shows "names_ok (jset ''domains'' (JArr (update_first (named d) f ds)) inventory)"
  using assms update_first_names [of d f ds] by (intro names_ok_array) (auto simp: names_ok_def)

lemma named_managed: "named d e \<Longrightarrow> named d (managed_entry e)"
  using named_object [of d e] by (simp add: named_def managed_entry_fields)

lemma flags_name: "get_str (JObj (domain_flags d a b c e @ x)) ''name'' = Some d"
  by (simp add: domain_flags_def get_str_def)

lemma push_names_ok:
  assumes "push_domain d mode inventory = Inr inventory'" and "names_ok inventory" and "find_domain_entry inventory d = None"
  shows "names_ok inventory'"
proof -
  obtain ds where ds: "get_array inventory ''domains'' = Some ds"
    "inventory' = jset ''domains'' (JArr (ds @ [JObj (domain_flags d False False False False @ [(''configuration_mode'', JStr mode)])])) inventory"
    using assms(1) by (auto simp: push_domain_def split: option.splits)
  moreover have "List.find (named d) ds = None" using assms(3) ds(1) by (simp add: find_domain_entry_def)
  ultimately show ?thesis using names_ok_snoc [OF ds(1) assms(2) _ flags_name] by simp
qed

definition file_ok :: "inv_file \<Rightarrow> bool" where
  "file_ok f \<longleftrightarrow> (\<exists>inventory. dom_read_inventory f = Inr inventory \<and> names_ok inventory)"

lemma file_ok_parsed: "file_ok (Parsed v) = names_ok v"
  by (simp add: file_ok_def dom_read_inventory_def)

lemma persist_mail_ok: "persist_mail_domain w d f = Inr f' \<Longrightarrow> file_ok f \<Longrightarrow> file_ok f'"
proof -
  assume a: "persist_mail_domain w d f = Inr f'" "file_ok f"
  obtain v v' where v: "dom_read_inventory f = Inr v" "names_ok v" "upsert_mail_domain d v = Inr v'" "f' = Parsed v'"
    using a by (auto simp: persist_mail_domain_def file_ok_def write_inventory_def and_then_Inr_iff split: if_splits)
  obtain ds where ds: "get_array v ''domains'' = Some ds" using v(2) by (auto simp: names_ok_def)
  show ?thesis
  proof (cases "list_ex (named d) ds")
    case True
    then show ?thesis using v ds names_ok_update [OF ds v(2), of d managed_entry, OF named_managed] by (simp add: upsert_mail_domain_def file_ok_parsed)
  next
    case False
    then have none: "List.find (named d) ds = None" by (auto simp: find_None_iff list_ex_iff)
    have "v' = jset ''domains'' (JArr (ds @ [JObj (domain_flags d True True True True @ [(''configuration_mode'', JStr ''nexus'')])])) v"
      using v(3) ds False by (simp add: upsert_mail_domain_def)
    then show ?thesis using names_ok_snoc [OF ds v(2) none flags_name] v(4) by (simp only: file_ok_parsed)
  qed
qed

lemma persist_discovered_ok: "persist_discovered_domain w d f = Inr f' \<Longrightarrow> file_ok f \<Longrightarrow> file_ok f'"
proof -
  assume a: "persist_discovered_domain w d f = Inr f'" "file_ok f"
  obtain v where v: "dom_read_inventory f = Inr v" "names_ok v" using a(2) by (auto simp: file_ok_def)
  show ?thesis
  proof (cases "find_domain_entry v d")
    case None
    then obtain v' where "push_domain d ''discovered'' v = Inr v'" "f' = Parsed v'"
      using a(1) v by (auto simp: persist_discovered_domain_def write_inventory_def and_then_Inr_iff split: if_splits)
    then show ?thesis using push_names_ok [OF _ v(2) None] by (simp add: file_ok_parsed)
  next
    case (Some e) then show ?thesis using a v by (simp add: persist_discovered_domain_def)
  qed
qed

lemma persist_adopted_ok: "persist_adopted_domain w d cs f = Inr f' \<Longrightarrow> file_ok f \<Longrightarrow> file_ok f'"
proof -
  assume a: "persist_adopted_domain w d cs f = Inr f'" "file_ok f"
  obtain v inventory where v: "dom_read_inventory f = Inr v" "names_ok v"
    "(if find_domain_entry v d = None then push_domain d ''existing'' v else Inr v) = Inr inventory"
    using a unfolding persist_adopted_domain_def by (auto simp: and_then_Inr_iff file_ok_def)
  have ok: "names_ok inventory" using v push_names_ok by (auto split: if_splits)
  obtain ds where "get_array inventory ''domains'' = Some ds"
    "f' = Parsed (jset ''domains'' (JArr (update_first (named d) (dom_adopted_entry cs) ds)) inventory)"
    using a(1) v by (auto simp: persist_adopted_domain_def write_inventory_def split: option.splits if_splits)
  then show ?thesis using names_ok_update [OF _ ok named_adopted] by (simp add: file_ok_parsed)
qed

lemma dom_inv_iff: "dom_inv da \<longleftrightarrow> file_ok (da_file da) \<and> (\<forall>l \<in> set (da_audit da). audit_ok l)
     \<and> (\<forall>(a, d, u) \<in> set (da_runs da). (a = ''onboard'' \<or> a = ''migrate'') \<and> safe_domain d \<and> safe_user u)"
  by (simp add: dom_inv_def file_ok_def)

lemma dom_inv_step:
  assumes "dom_inv da" and "logs da da'" and "da_runs da' = da_runs da" and "file_ok (da_file da')"
  shows "dom_inv da'"
  using assms by (auto simp: dom_inv_iff logs_def)

lemma audited_return:
  assumes "audited env a d out (\<lambda>da. (x, da)) da = (r, da')" and "plain a" and "plain d"
  shows "logs da da' \<and> da_runs da' = da_runs da \<and> da_file da' = da_file da"
  using assms(1) by (cases rule: audited_state) (use assms(2,3) logs_line in auto)

lemma validate_inv: "dom_inv da \<Longrightarrow> dom_inv (snd (validate_domain env input da))"
proof -
  assume inv: "dom_inv da"
  obtain r da' where v: "validate_domain env input da = (r, da')" by (cases "validate_domain env input da")
  have "da' = da \<or> (\<exists>d out x. normalize_domain input = Inr d \<and> audited env ''validate'' d out (\<lambda>da. (x, da)) da = (r, da'))"
    using v by (auto simp: validate_domain_def Let_def split: sum.splits)
  then show ?thesis
  proof (elim disjE exE conjE)
    fix d out x assume a: "normalize_domain input = Inr d" "audited env ''validate'' d out (\<lambda>da. (x, da)) da = (r, da')"
    have "logs da da' \<and> da_runs da' = da_runs da \<and> da_file da' = da_file da"
      using audited_return [OF a(2) plain_actions(1)] plain_safe_domain [OF normalize_domain_safe [OF a(1)]] by blast
    then show ?thesis using inv dom_inv_step [OF inv, of da'] v by (simp add: dom_inv_iff)
  qed (use inv v in simp)
qed

lemma adopt_inv: "dom_inv da \<Longrightarrow> dom_inv (snd (adopt_existing_domain env input da))"
proof -
  assume inv: "dom_inv da"
  obtain r da' where v: "adopt_existing_domain env input da = (r, da')" by (cases "adopt_existing_domain env input da")
  have "da' = da \<or> (\<exists>d cs f x. normalize_domain input = Inr d \<and> persist_adopted_domain (de_writable env) d cs (da_file da) = Inr f
      \<and> (da' = da\<lparr>da_file := f\<rparr> \<or> audited env ''adopt-existing'' d ''completed'' (\<lambda>da. (x, da)) (da\<lparr>da_file := f\<rparr>) = (r, da')))"
    using v unfolding adopt_existing_domain_def Let_def by (force split: sum.splits if_splits)
  then show ?thesis
  proof (elim disjE exE conjE)
    fix d cs f x
    assume a: "normalize_domain input = Inr d" "persist_adopted_domain (de_writable env) d cs (da_file da) = Inr f"
    have f: "file_ok f" using persist_adopted_ok [OF a(2)] inv by (simp add: dom_inv_iff)
    {
      assume "da' = da\<lparr>da_file := f\<rparr>"
      then show ?thesis using inv v f by (simp add: dom_inv_iff)
    next
      assume "audited env ''adopt-existing'' d ''completed'' (\<lambda>da. (x, da)) (da\<lparr>da_file := f\<rparr>) = (r, da')"
      from audited_return [OF this plain_actions(2)] have "logs da da'" "da_runs da' = da_runs da" "da_file da' = f"
        using plain_safe_domain [OF normalize_domain_safe [OF a(1)]] by auto
      then show ?thesis using dom_inv_step [OF inv, of da'] v f by simp
    }
  qed (use inv v in simp)
qed

lemma onboard_inv: "dom_inv da \<Longrightarrow> dom_inv (snd (onboard_domain env input hestia_user replace_existing da))"
proof -
  assume inv: "dom_inv da"
  obtain r da' where v: "onboard_domain env input hestia_user replace_existing da = (r, da')"
    by (cases "onboard_domain env input hestia_user replace_existing da")
  from v have "dom_inv da'"
  proof (cases rule: onboard_cases)
    case rejected then show ?thesis using inv by simp
  next
    case (decision domain preflight f)
    have f: "file_ok f" using persist_discovered_ok [OF decision(2)] inv by (simp add: dom_inv_iff)
    from audited_return [OF decision(3) plain_actions(3)] have "logs da da'" "da_runs da' = da_runs da" "da_file da' = f"
      using plain_safe_domain [OF normalize_domain_safe [OF decision(1)]] by auto
    then show ?thesis using dom_inv_step [OF inv, of da'] f by simp
  next
    case (run action domain user)
    have act: "action = ''onboard'' \<or> action = ''migrate''" using run(4) by blast
    then have "plain action" using plain_actions(4,5) by blast
    moreover have safe: "safe_domain domain" "safe_user user"
      using normalize_domain_safe [OF run(1)] validate_user_safe [OF run(2)] .
    ultimately obtain k where e: "logs da da'" "da_runs da' = da_runs da @ replicate k (action, domain, user)"
      "da_file da' = da_file da \<or> persist_mail_domain (de_writable env) domain (da_file da) = Inr (da_file da')"
      using onboard_run_effect [OF run(3)] plain_safe_domain by auto
    have "file_ok (da_file da')" using e(3) persist_mail_ok inv by (auto simp: dom_inv_iff)
    then show ?thesis using inv e(1,2) act safe by (auto simp: dom_inv_iff logs_def)
  qed
  then show ?thesis using v by simp
qed

lemma dom_start_inv: "dom_start da \<Longrightarrow> dom_inv da"
proof -
  have "case get_array dom_default_inventory ''domains'' of Some ds \<Rightarrow> distinct (map (\<lambda>d. get_str d ''name'') ds) | None \<Rightarrow> False"
    by code_simp
  then have "names_ok dom_default_inventory" by (auto simp: names_ok_def split: option.splits)
  then show "dom_start da \<Longrightarrow> dom_inv da" by (simp add: dom_start_def dom_inv_def dom_read_inventory_def)
qed

interpretation dom: invariant_system dom_start dom_step dom_inv
  by unfold_locales (auto intro: dom_start_inv validate_inv adopt_inv onboard_inv elim: dom_step.cases)

text \<open>C24. Whatever clients send, in every sequence of calls of the domain handlers the inventory keeps its list of domains with
  unique names, every entry of the audit log is one line of four fields, and the helper program is only ever run as
  onboard or migrate, with a domain of lower-case letters, digits, dots and dashes that starts with a letter or digit
  and a user that cannot be taken for an option or contain a separator.\<close>

theorem domains_reachable_safe:
  assumes "da_file s = No_File" and "da_audit s = []" and "da_runs s = []" and "dom_step\<^sup>*\<^sup>* s da"
  shows "(\<exists>inventory ds. dom_read_inventory (da_file da) = Inr inventory \<and> get_array inventory ''domains'' = Some ds
      \<and> distinct (map (\<lambda>d. get_str d ''name'') ds))
    \<and> (\<forall>l \<in> set (da_audit da). audit_ok l)
    \<and> (\<forall>a d u. (a, d, u) \<in> set (da_runs da) \<longrightarrow> (a = ''onboard'' \<or> a = ''migrate'') \<and> safe_domain d \<and> safe_user u)"
proof -
  have inv: "dom_inv da" using dom.reachable_inv [of s da] assms by (simp add: dom_start_def)
  have "\<exists>inventory ds. dom_read_inventory (da_file da) = Inr inventory \<and> get_array inventory ''domains'' = Some ds
      \<and> distinct (map (\<lambda>d. get_str d ''name'') ds)" using inv by (auto simp: dom_inv_def names_ok_def)
  moreover have "\<forall>l \<in> set (da_audit da). audit_ok l" using inv by (simp add: dom_inv_def)
  moreover have "(a = ''onboard'' \<or> a = ''migrate'') \<and> safe_domain d \<and> safe_user u" if "(a, d, u) \<in> set (da_runs da)" for a d u
    using inv that unfolding dom_inv_def by blast
  ultimately show ?thesis by blast
qed

section \<open>Witnesses\<close>

definition mx_net :: net where
  "mx_net = \<lparr>nt_dig = (\<lambda>t n. if t = ''MX'' then Run_Exit (Some 0) ''10 mx.other.'' [] else Run_Exit (Some 0) [] []),
     nt_tls = (\<lambda>_ _ _. Run_Timed_Out)\<rparr>"

definition empty_net :: net where
  "empty_net = \<lparr>nt_dig = (\<lambda>t n. Run_Exit (Some 0) [] []), nt_tls = (\<lambda>_ _ _. Run_Timed_Out)\<rparr>"

definition dom_env0 :: "net \<Rightarrow> dom_env" where
  "dom_env0 net = \<lparr>de_net = (\<lambda>_. net), de_writable = True, de_audit = (\<lambda>_. True), de_now = 7, de_helper_exists = True,
     de_helper = (\<lambda>i. if i = 1 then Run_Exit (Some 4) [] [] else Run_Exit (Some 0) ''{}'' []), de_parse = (\<lambda>_. Some (JObj []))\<rparr>"

definition dom0 :: dom_state where
  "dom0 = \<lparr>da_file = No_File, da_audit = [], da_runs = []\<rparr>"

theorem domains_reachable_safe_witness:
  "let da = snd (onboard_domain (dom_env0 empty_net) ''example.com'' None None dom0)
   in (\<exists>inventory ds. dom_read_inventory (da_file da) = Inr inventory \<and> get_array inventory ''domains'' = Some ds
      \<and> distinct (map (\<lambda>d. get_str d ''name'') ds))
    \<and> (\<forall>l \<in> set (da_audit da). audit_ok l)
    \<and> (\<forall>a d u. (a, d, u) \<in> set (da_runs da) \<longrightarrow> (a = ''onboard'' \<or> a = ''migrate'') \<and> safe_domain d \<and> safe_user u)"
  unfolding Let_def
  by (rule domains_reachable_safe [of dom0]) (auto simp: dom0_def intro: r_into_rtranclp dom_step.Onboard)

lemma example_domain: "normalize_domain ''example.com'' = Inr ''example.com''" by code_simp

lemma example_adopted:
  "\<exists>v da'. adopt_existing_domain (dom_env0 mx_net) ''example.com'' dom0 = (Inr (''example.com'', v), da')"
proof -
  have "case fst (adopt_existing_domain (dom_env0 mx_net) ''example.com'' dom0) of Inr (d, _) \<Rightarrow> d = ''example.com'' | Inl _ \<Rightarrow> False"
    by code_simp
  then show ?thesis by (cases "adopt_existing_domain (dom_env0 mx_net) ''example.com'' dom0") (auto split: sum.splits prod.splits)
qed

theorem adopted_drift_exact_witness:
  "\<exists>v da' result. adopt_existing_domain (dom_env0 mx_net) ''example.com'' dom0 = (Inr (''example.com'', v), da')
    \<and> validate_domain_inner empty_net (da_file da') ''example.com'' = Inr result
    \<and> get_bool result ''decision_required'' = Some (\<exists>k \<in> set ADOPTABLE_DNS_CHECKS.
         record_fingerprint (validate_domain_raw empty_net ''example.com'') k \<noteq>
         record_fingerprint (validate_domain_raw (de_net (dom_env0 mx_net) 0) ''example.com'') k)"
proof -
  obtain v da' where a: "adopt_existing_domain (dom_env0 mx_net) ''example.com'' dom0 = (Inr (''example.com'', v), da')"
    using example_adopted by blast
  show ?thesis using adopted_drift_exact [OF a, of empty_net] a by blast
qed

theorem onboard_guarded_witness:
  "\<exists>k action domain user. da_runs (snd (onboard_domain (dom_env0 empty_net) ''example.com'' None None dom0)) =
     da_runs dom0 @ replicate k (action, domain, user) \<and> k \<le> 3"
  using onboard_guarded [OF surjective_pairing, of "dom_env0 empty_net" "''example.com''" None None dom0] by blast

theorem onboard_succeeds_witness:
  "\<exists>validation da' inventory' e.
      onboard_domain (dom_env0 empty_net) ''example.com'' (Some ''admin'') (Some True) dom0 = (Inr (Onboarded ''example.com'' (JObj []) validation), da')
    \<and> length (da_runs da') = length (da_runs dom0) + 2
    \<and> da_file da' = Parsed inventory' \<and> find_domain_entry inventory' ''example.com'' = Some e \<and> managed e
    \<and> (\<forall>d. d \<noteq> ''example.com'' \<longrightarrow> find_domain_entry inventory' d = find_domain_entry dom_default_inventory d)"
proof -
  have "get_array dom_default_inventory ''domains'' \<noteq> None" by code_simp
  then obtain ds where ds: "get_array dom_default_inventory ''domains'' = Some ds" by blast
  have user: "validate_hestia_user ''admin'' = Inr ()" by code_simp
  show ?thesis
    by (rule onboard_succeeds [OF example_domain user, where stdout = "''{}''" and stderr = "[]" and ds = ds])
      (auto simp: ds dom_env0_def dom0_def dom_read_inventory_def worth_retry_def success_def helper_exit_code_is_retryable_def)
qed

theorem onboard_ends_adoption_witness:
  "\<exists>v da validation da' inventory' e. adopt_existing_domain (dom_env0 mx_net) ''example.com'' dom0 = (Inr (''example.com'', v), da)
    \<and> onboard_domain ((dom_env0 mx_net)\<lparr>de_helper := (\<lambda>_. Run_Exit (Some 0) ''{}'' [])\<rparr>) ''example.com'' None None da =
        (Inr (Onboarded ''example.com'' (JObj []) validation), da')
    \<and> da_file da' = Parsed inventory' \<and> find_domain_entry inventory' ''example.com'' = Some e
    \<and> get_str e ''configuration_mode'' = Some ''nexus'' \<and> jget e ''adopted_checks'' = None"
proof -
  obtain v da where a: "adopt_existing_domain (dom_env0 mx_net) ''example.com'' dom0 = (Inr (''example.com'', v), da)"
    using example_adopted by blast
  show ?thesis
    using onboard_ends_adoption [OF a, of "(dom_env0 mx_net)\<lparr>de_helper := (\<lambda>_. Run_Exit (Some 0) ''{}'' [])\<rparr>" "''{}''" "[]" "JObj []"] a
    by (simp add: dom_env0_def)
qed

end
