(* ===== verification/Auto_Installer.thy ===== *)
theory Auto_Installer
  imports Json Section_Config
begin

text \<open>
  Automated installations: the handlers of \<open>server/src/api/auto_installer/mod.rs\<close>, the files behind them
  (\<open>lib/pdm-config/src/auto_install.rs\<close>) and their types (\<open>lib/pdm-api-types/src/auto_installer.rs\<close>).

  The configurations of an installation exist as an API type and as a section type with the same fields and conversions
  that cannot fail; one record stands for both. System information and the data of the post hook are JSON values. The
  password hash, the template engine, the glob patterns, JSON pointers given as text, the parsers of addresses and host
  names, the comparison of configuration digests, the clock and the random values of a call are the environment. Reading
  and writing files does not fail.
\<close>

section \<open>Types\<close>

datatype installation_status = Answer_Sent | No_Answer_Found | In_Progress | Install_Finished

record installation =
  in_uuid :: string
  in_received_at :: i64
  in_status :: installation_status
  in_info :: json
  in_answer_id :: "string option"
  in_post_hook_data :: "json option"
  in_post_hook_token :: "string option"

datatype disk_selection_mode = Disk_Fixed | Disk_Filter

datatype filesystem_options = Fs_Ext4 string | Fs_Xfs string | Fs_Zfs string | Fs_Btrfs string

type_synonym filter_map = "(string \<times> string) list"

record prepared =
  pr_id :: string
  pr_authorized_tokens :: "string list"
  pr_is_default :: bool
  pr_target_filter :: filter_map
  pr_country :: string
  pr_fqdn :: string
  pr_use_dhcp_fqdn :: bool
  pr_keyboard :: string
  pr_mailto :: string
  pr_timezone :: string
  pr_root_password_hashed :: "string option"
  pr_reboot_on_error :: bool
  pr_reboot_mode :: string
  pr_root_ssh_keys :: "string list"
  pr_use_dhcp_network :: bool
  pr_cidr :: "string option"
  pr_gateway :: "string option"
  pr_dns :: "string option"
  pr_netdev_filter :: filter_map
  pr_netif_name_pinning_enabled :: bool
  pr_filesystem :: filesystem_options
  pr_disk_mode :: disk_selection_mode
  pr_disk_list :: "string list"
  pr_disk_filter :: filter_map
  pr_disk_filter_match :: "string option"
  pr_post_hook_base_url :: "string option"
  pr_post_hook_cert_fp :: "string option"
  pr_template_counters :: "(string \<times> int) list"
  pr_subscription_key :: "string option"

text \<open>The updater generated for it: every field but the id, each optional.\<close>

record prepared_updater =
  up_authorized_tokens :: "string list option"
  up_is_default :: "bool option"
  up_target_filter :: "filter_map option"
  up_country :: "string option"
  up_fqdn :: "string option"
  up_use_dhcp_fqdn :: "bool option"
  up_keyboard :: "string option"
  up_mailto :: "string option"
  up_timezone :: "string option"
  up_root_password_hashed :: "string option"
  up_reboot_on_error :: "bool option"
  up_reboot_mode :: "string option"
  up_root_ssh_keys :: "string list option"
  up_use_dhcp_network :: "bool option"
  up_cidr :: "string option"
  up_gateway :: "string option"
  up_dns :: "string option"
  up_netdev_filter :: "filter_map option"
  up_netif_name_pinning_enabled :: "bool option"
  up_filesystem :: "filesystem_options option"
  up_disk_mode :: "disk_selection_mode option"
  up_disk_list :: "string list option"
  up_disk_filter :: "filter_map option"
  up_disk_filter_match :: "string option"
  up_post_hook_base_url :: "string option"
  up_post_hook_cert_fp :: "string option"
  up_template_counters :: "(string \<times> int) list option"
  up_subscription_key :: "string option"

datatype deletable_prepared_property =
    Del_Target_Filter | Del_Netdev_Filter | Del_Disk_Filter | Del_Root_Ssh_Keys | Del_Post_Hook_Base_Url | Del_Post_Hook_Cert_Fp
  | Del_Template_Counters | Del_Subscription_Key

record answer_token =
  at_id :: string
  at_created_by :: string
  at_comment :: "string option"
  at_enabled :: "bool option"
  at_expire_at :: "i64 option"

datatype deletable_token_property = Del_Comment | Del_Expire_At

definition is_active :: "i64 \<Rightarrow> answer_token \<Rightarrow> bool" where
  "is_active now t \<longleftrightarrow>
     (case at_enabled t of Some b \<Rightarrow> b | None \<Rightarrow> True)
     \<and> (case at_expire_at t of Some ex \<Rightarrow> ex = 0 \<or> ex > now | None \<Rightarrow> True)"

datatype ai_error =
    Ai_Conflict string | Ai_Bad_Request string | Ai_Not_Found string | Ai_Modified | Ai_Crypt_Failed | Ai_Render_Failed string
  | Ai_Control_Characters string | Ai_Missing_Address string | Ai_Bad_Address string | Ai_Token_Exists string | Ai_Unknown_Token string

section \<open>Environment and state\<close>

record ai_env =
  ie_now :: i64
  ie_user :: string
  ie_uuid :: string
  ie_hook_token :: string
  ie_token_suffix :: string
  ie_secret :: string
  ie_encrypt :: "string \<Rightarrow> string option"
  ie_verify :: "string \<Rightarrow> string \<Rightarrow> bool"
  ie_prepared_modified :: "string option \<Rightarrow> prepared section_config \<Rightarrow> bool"
  ie_tokens_modified :: "string option \<Rightarrow> answer_token section_config \<Rightarrow> bool"
  ie_glob :: "string \<Rightarrow> (string \<Rightarrow> bool) option"
  ie_pointer :: "json \<Rightarrow> string \<Rightarrow> json option"
  ie_render :: "string \<Rightarrow> json \<Rightarrow> string option"
  ie_is_fqdn :: "string \<Rightarrow> bool"
  ie_is_cidr :: "string \<Rightarrow> bool"
  ie_is_ip :: "string \<Rightarrow> bool"
  ie_fetch_data :: "json \<Rightarrow> json option"

datatype legacy_file = No_Legacy | Broken_Legacy | Legacy "installation list"

text \<open>\<open>ai_installs\<close> is the directory with one file per installation, by uuid.\<close>

record ai_state =
  ai_prepared :: "prepared section_config"
  ai_tokens :: "answer_token section_config"
  ai_shadow :: "string \<rightharpoonup> string"
  ai_installs :: "installation section_config"
  ai_legacy :: legacy_file

section \<open>Files\<close>

definition save_installation :: "installation \<Rightarrow> ai_state \<Rightarrow> ai_state" where
  "save_installation inst ai = ai\<lparr>ai_installs := sc_insert (in_uuid inst) inst (ai_installs ai)\<rparr>"

definition migrate_one :: "installation \<Rightarrow> installation section_config \<Rightarrow> installation section_config" where
  "migrate_one inst files = (if sc_get files (in_uuid inst) \<noteq> None then files else sc_insert (in_uuid inst) inst files)"

definition migrate_legacy_installations_file :: "ai_state \<Rightarrow> ai_state" where
  "migrate_legacy_installations_file ai =
     (case ai_legacy ai of
        No_Legacy \<Rightarrow> ai
      | Broken_Legacy \<Rightarrow> ai\<lparr>ai_legacy := No_Legacy\<rparr>
      | Legacy insts \<Rightarrow> ai\<lparr>ai_installs := fold migrate_one insts (ai_installs ai), ai_legacy := No_Legacy\<rparr>)"

definition read_installations :: "ai_state \<Rightarrow> installation list \<times> ai_state" where
  "read_installations ai =
     (let ai = migrate_legacy_installations_file ai in (sort_key in_uuid (map snd (ai_installs ai)), ai))"

definition remove_installation :: "string \<Rightarrow> ai_state \<Rightarrow> bool \<times> ai_state" where
  "remove_installation uuid ai =
     (if sc_get (ai_installs ai) uuid \<noteq> None then (True, ai\<lparr>ai_installs := sc_remove uuid (ai_installs ai)\<rparr>) else (False, ai))"

definition add_token :: "ai_env \<Rightarrow> answer_token \<Rightarrow> string \<Rightarrow> ai_state \<Rightarrow> (ai_error + unit) \<times> ai_state" where
  "add_token env token secret ai =
     (if sc_get (ai_tokens ai) (at_id token) \<noteq> None then (Inl (Ai_Token_Exists (at_id token)), ai)
      else let ai = ai\<lparr>ai_tokens := sc_insert (at_id token) token (ai_tokens ai)\<rparr>
      in case ie_encrypt env secret of
           None \<Rightarrow> (Inl Ai_Crypt_Failed, ai)
         | Some hashed \<Rightarrow> (Inr (), ai\<lparr>ai_shadow := (ai_shadow ai)(at_id token \<mapsto> hashed)\<rparr>))"

definition cfg_update_token :: "answer_token \<Rightarrow> ai_state \<Rightarrow> (ai_error + unit) \<times> ai_state" where
  "cfg_update_token token ai =
     (if sc_get (ai_tokens ai) (at_id token) = None then (Inl (Ai_Unknown_Token (at_id token)), ai)
      else (Inr (), ai\<lparr>ai_tokens := sc_insert (at_id token) token (ai_tokens ai)\<rparr>))"

definition cfg_delete_token :: "string \<Rightarrow> ai_state \<Rightarrow> (ai_error + unit) \<times> ai_state" where
  "cfg_delete_token i ai =
     (if sc_get (ai_tokens ai) i = None then (Inl (Ai_Unknown_Token i), ai)
      else (Inr (), ai\<lparr>ai_tokens := sc_remove i (ai_tokens ai), ai_shadow := (ai_shadow ai)(i := None)\<rparr>))"

definition verify_secret :: "ai_env \<Rightarrow> string \<Rightarrow> string \<Rightarrow> ai_state \<Rightarrow> bool" where
  "verify_secret env i secret ai =
     (case ai_shadow ai i of None \<Rightarrow> False | Some hashed \<Rightarrow> ie_verify env secret hashed)"

section \<open>Tokens\<close>

definition create_token ::
  "ai_env \<Rightarrow> string \<Rightarrow> string option \<Rightarrow> bool option \<Rightarrow> i64 option \<Rightarrow> ai_state \<Rightarrow> (ai_error + answer_token \<times> string) \<times> ai_state" where
  "create_token env i comment enabled expire_at ai =
     (let token = \<lparr>at_id = i, at_created_by = ie_user env, at_comment = comment, at_enabled = enabled, at_expire_at = expire_at\<rparr>
      in case add_token env token (ie_secret env) ai of
           (Inl err, ai) \<Rightarrow> (Inl err, ai)
         | (Inr _, ai) \<Rightarrow> (Inr (token, ie_secret env), ai))"

definition generate_token :: "ai_env \<Rightarrow> string \<Rightarrow> ai_state \<Rightarrow> (ai_error + answer_token \<times> string) \<times> ai_state" where
  "generate_token env config_id ai =
     create_token env (config_id @ ''-'' @ ie_token_suffix env) (Some ''Automatically generated.'') (Some True) None ai"

definition delete_token_property :: "deletable_token_property \<Rightarrow> answer_token \<Rightarrow> answer_token" where
  "delete_token_property prop token =
     (case prop of Del_Comment \<Rightarrow> token\<lparr>at_comment := None\<rparr> | Del_Expire_At \<Rightarrow> token\<lparr>at_expire_at := None\<rparr>)"

record token_updater =
  tu_comment :: "string option"
  tu_enabled :: "bool option"
  tu_expire_at :: "i64 option"

text \<open>\<open>if let Some(x) = update { field = f(x) }\<close>\<close>

definition when_some :: "'u option \<Rightarrow> ('u \<Rightarrow> 'a \<Rightarrow> 'a) \<Rightarrow> 'a \<Rightarrow> 'a" where
  "when_some u f x = (case u of Some v \<Rightarrow> f v x | None \<Rightarrow> x)"

definition update_token ::
  "ai_env \<Rightarrow> string \<Rightarrow> token_updater \<Rightarrow> deletable_token_property list option \<Rightarrow> bool \<Rightarrow> string option \<Rightarrow> ai_state
     \<Rightarrow> (ai_error + answer_token \<times> string option) \<times> ai_state" where
  "update_token env i update delete regenerate_secret digest ai =
     (if ie_tokens_modified env digest (ai_tokens ai) then (Inl Ai_Modified, ai)
      else case sc_get (ai_tokens ai) i of
        None \<Rightarrow> (Inl (Ai_Not_Found i), ai)
      | Some token \<Rightarrow>
          let token = (case delete of Some props \<Rightarrow> fold delete_token_property props token | None \<Rightarrow> token);
              token = when_some (tu_comment update) (\<lambda>c. at_comment_update (\<lambda>_. Some c)) token;
              token = when_some (tu_enabled update) (\<lambda>b. at_enabled_update (\<lambda>_. Some b)) token;
              token = when_some (tu_expire_at update) (\<lambda>t. at_expire_at_update (\<lambda>_. Some t)) token
          in if regenerate_secret
             then (case cfg_delete_token (at_id token) ai of
                     (Inl err, ai) \<Rightarrow> (Inl err, ai)
                   | (Inr _, ai) \<Rightarrow>
                       (case add_token env token (ie_secret env) ai of
                          (Inl err, ai) \<Rightarrow> (Inl err, ai)
                        | (Inr _, ai) \<Rightarrow> (Inr (token, Some (ie_secret env)), ai)))
             else (case cfg_update_token token ai of
                     (Inl err, ai) \<Rightarrow> (Inl err, ai)
                   | (Inr _, ai) \<Rightarrow> (Inr (token, None), ai)))"

definition token_users :: "string \<Rightarrow> prepared section_config \<Rightarrow> string list" where
  "token_users i cfg = map (pr_id \<circ> snd) (filter (\<lambda>(_, p). i \<in> set (pr_authorized_tokens p)) cfg)"

text \<open>The prepared answers are read before the lock is taken, \<open>seen\<close>.\<close>

definition delete_token :: "string \<Rightarrow> prepared section_config \<Rightarrow> ai_state \<Rightarrow> (ai_error + unit) \<times> ai_state" where
  "delete_token i seen ai =
     (if token_users i seen \<noteq> [] then (Inl (Ai_Conflict (str_join '', '' (token_users i seen))), ai)
      else cfg_delete_token i ai)"

definition split_default :: "char \<Rightarrow> string \<Rightarrow> string \<times> string" where
  "split_default c s = (case split_once c s of Some p \<Rightarrow> p | None \<Rightarrow> ([], []))"

definition verify_answer_authorization_header :: "ai_env \<Rightarrow> string \<Rightarrow> ai_state \<Rightarrow> string option" where
  "verify_answer_authorization_header env header ai =
     (let (scheme, token) = split_default (CHR '' '') header
      in if to_ascii_lowercase scheme \<noteq> ''bearer'' then None
         else let (i, secret) = split_default (CHR '':'') token
         in case sc_get (ai_tokens ai) i of
              None \<Rightarrow> None
            | Some t \<Rightarrow> if is_active (ie_now env) t \<and> verify_secret env i secret ai then Some i else None)"

section \<open>Prepared answers\<close>

definition udev_filter_key :: "string \<Rightarrow> bool" where
  "udev_filter_key k \<longleftrightarrow> k \<noteq> [] \<and> list_all (\<lambda>c. (let n = of_char c :: nat in 65 \<le> n \<and> n \<le> 90) \<or> c = CHR ''_'') k"

definition is_ascii_alphabetic :: "char \<Rightarrow> bool" where
  "is_ascii_alphabetic c \<longleftrightarrow> (let n = of_char c :: nat in 65 \<le> n \<and> n \<le> 90 \<or> 97 \<le> n \<and> n \<le> 122)"

definition template_counter_name :: "string \<Rightarrow> bool" where
  "template_counter_name k \<longleftrightarrow>
     (case k of
        [] \<Rightarrow> False
      | c # cs \<Rightarrow> (is_ascii_alphabetic c \<or> c = CHR ''_'') \<and> list_all (\<lambda>c. is_ascii_alphanumeric c \<or> c = CHR ''_'') cs)"

definition validate_udev_filter_map :: "filter_map \<Rightarrow> ai_error + unit" where
  "validate_udev_filter_map m =
     (case List.find (\<lambda>k. \<not> udev_filter_key k) (map fst m) of
        Some k \<Rightarrow> Inl (Ai_Bad_Request (''invalid udev filter key: '' @ k))
      | None \<Rightarrow> Inr ())"

fun validate_template_map :: "(string \<times> int) list \<Rightarrow> ai_error + unit" where
  "validate_template_map [] = Inr ()"
| "validate_template_map ((k, v) # m) =
     (if \<not> template_counter_name k then Inl (Ai_Bad_Request (''invalid template counter name: '' @ k))
      else if v < 0 then Inl (Ai_Bad_Request (''template counter must not be negative: '' @ k))
      else validate_template_map m)"

definition hide_password :: "prepared \<Rightarrow> prepared" where
  "hide_password p = p\<lparr>pr_root_password_hashed := None\<rparr>"

definition list_prepared_answers :: "ai_state \<Rightarrow> prepared list" where
  "list_prepared_answers ai = map (hide_password \<circ> snd) (ai_prepared ai)"

definition get_prepared_answer :: "string \<Rightarrow> ai_state \<Rightarrow> ai_error + prepared" where
  "get_prepared_answer i ai =
     (case sc_get (ai_prepared ai) i of Some p \<Rightarrow> Inr (hide_password p) | None \<Rightarrow> Inl (Ai_Not_Found i))"

definition initial_password :: "ai_env \<Rightarrow> string option \<Rightarrow> prepared \<Rightarrow> ai_error + prepared" where
  "initial_password env root_password config =
     (case root_password of
        Some password \<Rightarrow>
          (case ie_encrypt env password of
             None \<Rightarrow> Inl Ai_Crypt_Failed | Some hashed \<Rightarrow> Inr (config\<lparr>pr_root_password_hashed := Some hashed\<rparr>))
      | None \<Rightarrow> if pr_root_password_hashed config = None then Inl (Ai_Bad_Request ''root-password'') else Inr config)"

text \<open>If no token was specified, a new one is generated.\<close>

definition issue_tokens :: "ai_env \<Rightarrow> prepared \<Rightarrow> ai_state \<Rightarrow> (ai_error + prepared \<times> (answer_token \<times> string) option) \<times> ai_state" where
  "issue_tokens env config ai =
     (if pr_authorized_tokens config = []
      then (case generate_token env (pr_id config) ai of
              (Inl err, ai) \<Rightarrow> (Inl err, ai)
            | (Inr (token, secret), ai) \<Rightarrow> (Inr (config\<lparr>pr_authorized_tokens := [at_id token]\<rparr>, Some (token, secret)), ai))
      else (Inr (config, None), ai))"

definition validate_maps :: "prepared \<Rightarrow> ai_error + unit" where
  "validate_maps config =
     and_then (validate_udev_filter_map (pr_netdev_filter config)) (\<lambda>_.
     and_then (validate_udev_filter_map (pr_disk_filter config)) (\<lambda>_.
       validate_template_map (pr_template_counters config)))"

definition create_prepared_answer ::
  "ai_env \<Rightarrow> prepared \<Rightarrow> string option \<Rightarrow> ai_state \<Rightarrow> (ai_error + prepared \<times> (answer_token \<times> string) option) \<times> ai_state" where
  "create_prepared_answer env config root_password ai =
     (if sc_get (ai_prepared ai) (pr_id config) \<noteq> None then (Inl (Ai_Conflict (pr_id config)), ai)
      else if pr_is_default config \<and> list_ex (pr_is_default \<circ> snd) (ai_prepared ai)
      then (Inl (Ai_Conflict ''already the default answer''), ai)
      else if \<not> pr_is_default config \<and> pr_target_filter config = [] then (Inl (Ai_Bad_Request ''target-filter''), ai)
      else case initial_password env root_password config of
        Inl err \<Rightarrow> (Inl err, ai)
      | Inr config \<Rightarrow>
          (case issue_tokens env config ai of
             (Inl err, ai) \<Rightarrow> (Inl err, ai)
           | (Inr (config, token), ai) \<Rightarrow>
               (case validate_maps config of
                  Inl err \<Rightarrow> (Inl err, ai)
                | Inr _ \<Rightarrow>
                    (Inr (hide_password config, token), ai\<lparr>ai_prepared := sc_insert (pr_id config) config (ai_prepared ai)\<rparr>))))"

definition delete_prepared_property :: "deletable_prepared_property \<Rightarrow> prepared \<Rightarrow> prepared" where
  "delete_prepared_property prop p =
     (case prop of
        Del_Target_Filter \<Rightarrow> p\<lparr>pr_target_filter := []\<rparr>
      | Del_Netdev_Filter \<Rightarrow> p\<lparr>pr_netdev_filter := []\<rparr>
      | Del_Disk_Filter \<Rightarrow> p\<lparr>pr_disk_filter := []\<rparr>
      | Del_Root_Ssh_Keys \<Rightarrow> p\<lparr>pr_root_ssh_keys := []\<rparr>
      | Del_Post_Hook_Base_Url \<Rightarrow> p\<lparr>pr_post_hook_base_url := None\<rparr>
      | Del_Post_Hook_Cert_Fp \<Rightarrow> p\<lparr>pr_post_hook_cert_fp := None\<rparr>
      | Del_Template_Counters \<Rightarrow> p\<lparr>pr_template_counters := []\<rparr>
      | Del_Subscription_Key \<Rightarrow> p\<lparr>pr_subscription_key := None\<rparr>)"

text \<open>The fields that are assigned without a check, up to the root password.\<close>

definition update_global :: "prepared_updater \<Rightarrow> prepared \<Rightarrow> prepared" where
  "update_global u p =
     (let p = when_some (up_is_default u) (\<lambda>v. pr_is_default_update (\<lambda>_. v)) p;
          p = when_some (up_target_filter u) (\<lambda>v. pr_target_filter_update (\<lambda>_. v)) p;
          p = when_some (up_country u) (\<lambda>v. pr_country_update (\<lambda>_. v)) p;
          p = when_some (up_fqdn u) (\<lambda>v. pr_fqdn_update (\<lambda>_. v)) p;
          p = when_some (up_use_dhcp_fqdn u) (\<lambda>v. pr_use_dhcp_fqdn_update (\<lambda>_. v)) p;
          p = when_some (up_keyboard u) (\<lambda>v. pr_keyboard_update (\<lambda>_. v)) p;
          p = when_some (up_mailto u) (\<lambda>v. pr_mailto_update (\<lambda>_. v)) p
      in when_some (up_timezone u) (\<lambda>v. pr_timezone_update (\<lambda>_. v)) p)"

definition update_password :: "ai_env \<Rightarrow> string option \<Rightarrow> prepared_updater \<Rightarrow> prepared \<Rightarrow> ai_error + prepared" where
  "update_password env root_password u p =
     (case root_password of
        Some password \<Rightarrow>
          (case ie_encrypt env password of
             None \<Rightarrow> Inl Ai_Crypt_Failed | Some hashed \<Rightarrow> Inr (p\<lparr>pr_root_password_hashed := Some hashed\<rparr>))
      | None \<Rightarrow> Inr (when_some (up_root_password_hashed u) (\<lambda>v. pr_root_password_hashed_update (\<lambda>_. Some v)) p))"

definition update_network :: "prepared_updater \<Rightarrow> prepared \<Rightarrow> prepared" where
  "update_network u p =
     (let p = when_some (up_reboot_on_error u) (\<lambda>v. pr_reboot_on_error_update (\<lambda>_. v)) p;
          p = when_some (up_reboot_mode u) (\<lambda>v. pr_reboot_mode_update (\<lambda>_. v)) p;
          p = when_some (up_root_ssh_keys u) (\<lambda>v. pr_root_ssh_keys_update (\<lambda>_. v)) p;
          p = when_some (up_use_dhcp_network u) (\<lambda>v. pr_use_dhcp_network_update (\<lambda>_. v)) p;
          p = when_some (up_cidr u) (\<lambda>v. pr_cidr_update (\<lambda>_. Some v)) p;
          p = when_some (up_gateway u) (\<lambda>v. pr_gateway_update (\<lambda>_. Some v)) p
      in when_some (up_dns u) (\<lambda>v. pr_dns_update (\<lambda>_. Some v)) p)"

definition checked_some :: "('u \<Rightarrow> ai_error + unit) \<Rightarrow> 'u option \<Rightarrow> ('u \<Rightarrow> 'a \<Rightarrow> 'a) \<Rightarrow> 'a \<Rightarrow> ai_error + 'a" where
  "checked_some check u f x = (case u of Some v \<Rightarrow> and_then (check v) (\<lambda>_. Inr (f v x)) | None \<Rightarrow> Inr x)"

definition update_disks :: "prepared_updater \<Rightarrow> prepared \<Rightarrow> prepared" where
  "update_disks u p =
     (let p = when_some (up_netif_name_pinning_enabled u) (\<lambda>v. pr_netif_name_pinning_enabled_update (\<lambda>_. v)) p;
          p = when_some (up_filesystem u) (\<lambda>v. pr_filesystem_update (\<lambda>_. v)) p;
          p = when_some (up_disk_mode u) (\<lambda>v. pr_disk_mode_update (\<lambda>_. v)) p
      in when_some (up_disk_list u) (\<lambda>v. pr_disk_list_update (\<lambda>_. v)) p)"

definition update_hook :: "prepared_updater \<Rightarrow> prepared \<Rightarrow> prepared" where
  "update_hook u p =
     (let p = when_some (up_disk_filter_match u) (\<lambda>v. pr_disk_filter_match_update (\<lambda>_. Some v)) p;
          p = when_some (up_post_hook_base_url u) (\<lambda>v. pr_post_hook_base_url_update (\<lambda>_. Some v)) p
      in when_some (up_post_hook_cert_fp u) (\<lambda>v. pr_post_hook_cert_fp_update (\<lambda>_. Some v)) p)"

definition update_fields :: "ai_env \<Rightarrow> string option \<Rightarrow> prepared_updater \<Rightarrow> prepared \<Rightarrow> ai_error + prepared" where
  "update_fields env root_password u p =
     and_then (update_password env root_password u (update_global u p)) (\<lambda>p.
     and_then (checked_some validate_udev_filter_map (up_netdev_filter u) (\<lambda>v. pr_netdev_filter_update (\<lambda>_. v)) (update_network u p)) (\<lambda>p.
     and_then (checked_some validate_udev_filter_map (up_disk_filter u) (\<lambda>v. pr_disk_filter_update (\<lambda>_. v)) (update_disks u p)) (\<lambda>p.
     and_then (checked_some validate_template_map (up_template_counters u) (\<lambda>v. pr_template_counters_update (\<lambda>_. v)) (update_hook u p)) (\<lambda>p.
       let p = when_some (up_subscription_key u) (\<lambda>v. pr_subscription_key_update (\<lambda>_. Some v)) p
       in if \<not> pr_is_default p \<and> pr_target_filter p = [] then Inl (Ai_Bad_Request ''target-filter'') else Inr p))))"

definition update_prepared_answer ::
  "ai_env \<Rightarrow> string \<Rightarrow> prepared_updater \<Rightarrow> string option \<Rightarrow> deletable_prepared_property list option \<Rightarrow> string option \<Rightarrow> ai_state
     \<Rightarrow> (ai_error + prepared \<times> (answer_token \<times> string) option) \<times> ai_state" where
  "update_prepared_answer env i u root_password delete digest ai =
     (if ie_prepared_modified env digest (ai_prepared ai) then (Inl Ai_Modified, ai)
      else if up_is_default u = Some True \<and> list_ex (\<lambda>(_, p). pr_is_default p \<and> pr_id p \<noteq> i) (ai_prepared ai)
      then (Inl (Ai_Conflict ''already the default answer''), ai)
      else case sc_get (ai_prepared ai) i of
        None \<Rightarrow> (Inl (Ai_Not_Found i), ai)
      | Some p \<Rightarrow>
          let p = (case delete of Some props \<Rightarrow> fold delete_prepared_property props p | None \<Rightarrow> p)
          in case (case up_authorized_tokens u of
                     None \<Rightarrow> (Inr (p, None), ai)
                   | Some tokens \<Rightarrow> issue_tokens env (p\<lparr>pr_authorized_tokens := tokens\<rparr>) ai) of
               (Inl err, ai) \<Rightarrow> (Inl err, ai)
             | (Inr (p, token), ai) \<Rightarrow>
                 (case update_fields env root_password u p of
                    Inl err \<Rightarrow> (Inl err, ai)
                  | Inr p \<Rightarrow> (Inr (hide_password p, token), ai\<lparr>ai_prepared := sc_modify i (\<lambda>_. p) (ai_prepared ai)\<rparr>)))"

definition delete_prepared_answer :: "string \<Rightarrow> ai_state \<Rightarrow> (ai_error + unit) \<times> ai_state" where
  "delete_prepared_answer i ai =
     (if sc_get (ai_prepared ai) i = None then (Inl (Ai_Not_Found i), ai)
      else (Inr (), ai\<lparr>ai_prepared := sc_remove i (ai_prepared ai)\<rparr>))"

section \<open>Finding and rendering an answer\<close>

definition filter_matches :: "ai_env \<Rightarrow> json \<Rightarrow> string \<times> string \<Rightarrow> bool" where
  "filter_matches env info f =
     (case Option.bind (ie_pointer env info (fst f)) as_str of
        Some v \<Rightarrow> (case ie_glob env (snd f) of Some matches \<Rightarrow> matches v | None \<Rightarrow> False)
      | None \<Rightarrow> False)"

fun find_loop :: "ai_env \<Rightarrow> string \<Rightarrow> json \<Rightarrow> prepared list \<Rightarrow> prepared option \<Rightarrow> prepared option \<Rightarrow> prepared option \<times> prepared option" where
  "find_loop env token info [] default_answer matched = (default_answer, matched)"
| "find_loop env token info (p # ps) default_answer matched =
     (if token \<notin> set (pr_authorized_tokens p) then find_loop env token info ps default_answer matched
      else if pr_is_default p then find_loop env token info ps (Some p) matched
      else if pr_target_filter p = [] then find_loop env token info ps default_answer matched
      else if list_all (filter_matches env info) (pr_target_filter p)
      then (case matched of None \<Rightarrow> find_loop env token info ps default_answer (Some p) | Some _ \<Rightarrow> (default_answer, matched))
      else find_loop env token info ps default_answer matched)"

definition find_config :: "ai_env \<Rightarrow> string \<Rightarrow> json \<Rightarrow> prepared section_config \<Rightarrow> prepared option" where
  "find_config env token info cfg =
     (let (default_answer, matched) = find_loop env token info (map snd cfg) None None
      in if matched \<noteq> None then matched else default_answer)"

datatype fqdn_config = Fqdn_From_Dhcp | Fqdn_Simple string

datatype network_config =
    Net_From_Dhcp "unit option"
  | Net_From_Answer string string string filter_map "unit option"

datatype filesystem = Ext4 | Xfs | Zfs | Btrfs

record disk_setup =
  dk_filesystem :: filesystem
  dk_disk_list :: "string list"
  dk_filter :: filter_map
  dk_filter_match :: "string option"
  dk_zfs :: "string option"
  dk_lvm :: "string option"
  dk_btrfs :: "string option"

record post_hook =
  ph_url :: string
  ph_cert_fingerprint :: "string option"
  ph_auth_token :: "string option"

record answer_config =
  an_country :: string
  an_fqdn :: fqdn_config
  an_keyboard :: string
  an_mailto :: string
  an_timezone :: string
  an_root_password :: "string option"
  an_root_password_hashed :: "string option"
  an_reboot_on_error :: bool
  an_reboot_mode :: string
  an_root_ssh_keys :: "string list"
  an_subscription_key :: "string option"
  an_network :: network_config
  an_disks :: disk_setup
  an_post_installation_webhook :: "post_hook option"

definition render :: "ai_env \<Rightarrow> json \<Rightarrow> string \<Rightarrow> string \<Rightarrow> ai_error + string" where
  "render env context name tmpl =
     (case ie_render env tmpl context of
        None \<Rightarrow> Inl (Ai_Render_Failed name)
      | Some rendered \<Rightarrow> if list_ex is_control rendered then Inl (Ai_Control_Characters name) else Inr rendered)"

definition render_context :: "prepared \<Rightarrow> json \<Rightarrow> json" where
  "render_context conf sysinfo =
     (if is_object sysinfo then fold (\<lambda>(k, v). jset k (JNum v)) (pr_template_counters conf) sysinfo else sysinfo)"

definition required_address :: "ai_env \<Rightarrow> json \<Rightarrow> string \<Rightarrow> string option \<Rightarrow> (string \<Rightarrow> ai_error + string) \<Rightarrow> ai_error + string" where
  "required_address env context name v parse =
     (case v of None \<Rightarrow> Inl (Ai_Missing_Address name) | Some tmpl \<Rightarrow> and_then (render env context name tmpl) parse)"

definition parse_as :: "(string \<Rightarrow> bool) \<Rightarrow> string \<Rightarrow> string \<Rightarrow> ai_error + string" where
  "parse_as valid name s = (if valid s then Inr s else Inl (Ai_Bad_Address name))"

definition render_network :: "ai_env \<Rightarrow> json \<Rightarrow> prepared \<Rightarrow> ai_error + network_config" where
  "render_network env context conf =
     (let pinning = (if pr_netif_name_pinning_enabled conf then Some () else None)
      in if pr_use_dhcp_network conf then Inr (Net_From_Dhcp pinning)
         else and_then (required_address env context ''cidr'' (pr_cidr conf)
                (\<lambda>s. if CHR ''/'' \<notin> set s then Inl (Ai_Bad_Address ''cidr'') else parse_as (ie_is_cidr env) ''cidr'' s)) (\<lambda>cidr.
              and_then (required_address env context ''dns'' (pr_dns conf) (parse_as (ie_is_ip env) ''dns'')) (\<lambda>dns.
              and_then (required_address env context ''gateway'' (pr_gateway conf) (parse_as (ie_is_ip env) ''gateway'')) (\<lambda>gateway.
                Inr (Net_From_Answer cidr dns gateway (pr_netdev_filter conf) pinning)))))"

definition render_disks :: "prepared \<Rightarrow> disk_setup" where
  "render_disks conf =
     \<lparr>dk_filesystem = (case pr_filesystem conf of Fs_Ext4 _ \<Rightarrow> Ext4 | Fs_Xfs _ \<Rightarrow> Xfs | Fs_Zfs _ \<Rightarrow> Zfs | Fs_Btrfs _ \<Rightarrow> Btrfs),
      dk_disk_list = (if pr_disk_mode conf = Disk_Fixed then pr_disk_list conf else []),
      dk_filter = (if pr_disk_mode conf = Disk_Fixed then [] else pr_disk_filter conf),
      dk_filter_match = pr_disk_filter_match conf,
      dk_zfs = (case pr_filesystem conf of Fs_Zfs opts \<Rightarrow> Some opts | _ \<Rightarrow> None),
      dk_lvm = (case pr_filesystem conf of Fs_Ext4 opts \<Rightarrow> Some opts | Fs_Xfs opts \<Rightarrow> Some opts | _ \<Rightarrow> None),
      dk_btrfs = (case pr_filesystem conf of Fs_Btrfs opts \<Rightarrow> Some opts | _ \<Rightarrow> None)\<rparr>"

definition render_prepared_config :: "ai_env \<Rightarrow> prepared \<Rightarrow> json \<Rightarrow> ai_error + answer_config" where
  "render_prepared_config env conf sysinfo =
     (let context = render_context conf sysinfo
      in and_then (if pr_use_dhcp_fqdn conf then Inr Fqdn_From_Dhcp
                   else and_then (render env context ''fqdn'' (pr_fqdn conf)) (\<lambda>fqdn.
                     if ie_is_fqdn env fqdn then Inr (Fqdn_Simple fqdn) else Inl (Ai_Bad_Address ''fqdn''))) (\<lambda>fqdn.
         and_then (render env context ''mailto'' (pr_mailto conf)) (\<lambda>mailto.
         and_then (render_network env context conf) (\<lambda>network.
           Inr \<lparr>an_country = pr_country conf, an_fqdn = fqdn, an_keyboard = pr_keyboard conf, an_mailto = mailto,
                an_timezone = pr_timezone conf, an_root_password = None,
                an_root_password_hashed = pr_root_password_hashed conf, an_reboot_on_error = pr_reboot_on_error conf,
                an_reboot_mode = pr_reboot_mode conf, an_root_ssh_keys = pr_root_ssh_keys conf,
                an_subscription_key = pr_subscription_key conf, an_network = network, an_disks = render_disks conf,
                an_post_installation_webhook = None\<rparr>))))"

definition i32_max :: int where "i32_max = 2 ^ 31 - 1"

definition next_counters :: "prepared \<Rightarrow> prepared" where
  "next_counters p = p\<lparr>pr_template_counters := map (\<lambda>(k, v). (k, min i32_max (v + 1))) (pr_template_counters p)\<rparr>"

definition increment_template_counters :: "string \<Rightarrow> ai_state \<Rightarrow> (ai_error + unit) \<times> ai_state" where
  "increment_template_counters i ai =
     (if sc_get (ai_prepared ai) i = None then (Inl (Ai_Not_Found i), ai)
      else (Inr (), ai\<lparr>ai_prepared := sc_modify i next_counters (ai_prepared ai)\<rparr>))"

section \<open>Installations\<close>

definition post_hook_url :: "string \<Rightarrow> string \<Rightarrow> string" where
  "post_hook_url base_url uuid =
     trim_end_matches (CHR ''/'') base_url @ ''/api2/json/auto-install/installations/'' @ uuid @ ''/post-hook''"

definition answered_installation :: "ai_env \<Rightarrow> json \<Rightarrow> prepared \<Rightarrow> installation" where
  "answered_installation env sysinfo config =
     \<lparr>in_uuid = ie_uuid env, in_received_at = ie_now env,
      in_status = (if pr_post_hook_base_url config \<noteq> None then In_Progress else Answer_Sent),
      in_info = sysinfo, in_answer_id = Some (pr_id config), in_post_hook_data = None,
      in_post_hook_token = (if pr_post_hook_base_url config \<noteq> None then Some (ie_hook_token env) else None)\<rparr>"

definition unanswered_installation :: "ai_env \<Rightarrow> json \<Rightarrow> installation" where
  "unanswered_installation env sysinfo =
     \<lparr>in_uuid = ie_uuid env, in_received_at = ie_now env, in_status = No_Answer_Found, in_info = sysinfo,
      in_answer_id = None, in_post_hook_data = None, in_post_hook_token = None\<rparr>"

definition inject_post_hook :: "ai_env \<Rightarrow> prepared \<Rightarrow> answer_config \<Rightarrow> answer_config" where
  "inject_post_hook env config answer =
     (case pr_post_hook_base_url config of
        Some base_url \<Rightarrow>
          answer\<lparr>an_post_installation_webhook :=
            Some \<lparr>ph_url = post_hook_url base_url (ie_uuid env), ph_cert_fingerprint = pr_post_hook_cert_fp config,
                  ph_auth_token = Some (ie_hook_token env)\<rparr>\<rparr>
      | None \<Rightarrow> answer)"

text \<open>
  The prepared answers can change between the choice of an answer and the increment of its counters, which takes their
  lock; \<open>seen\<close> is what the choice reads.
\<close>

definition new_installation ::
  "ai_env \<Rightarrow> string \<Rightarrow> json \<Rightarrow> prepared section_config \<Rightarrow> ai_state \<Rightarrow> (ai_error + answer_config) \<times> ai_state" where
  "new_installation env token_id sysinfo seen ai =
     (case find_config env token_id sysinfo seen of
        Some config \<Rightarrow>
          (case render_prepared_config env config sysinfo of
             Inl err \<Rightarrow> (Inl err, ai)
           | Inr answer \<Rightarrow>
               (case increment_template_counters (pr_id config) ai of
                  (Inl err, ai) \<Rightarrow> (Inl err, ai)
                | (Inr _, ai) \<Rightarrow>
                    (Inr (inject_post_hook env config answer), save_installation (answered_installation env sysinfo config) ai)))
      | None \<Rightarrow> (Inl (Ai_Not_Found ''no answer file found''), save_installation (unanswered_installation env sysinfo) ai))"

datatype http_answer = Http_Unauthorized | Http_Ok answer_config | Http_Bad_Request

definition api_new_installation :: "ai_env \<Rightarrow> string \<Rightarrow> json \<Rightarrow> prepared section_config \<Rightarrow> ai_state \<Rightarrow> http_answer \<times> ai_state" where
  "api_new_installation env auth_header param seen ai =
     (case verify_answer_authorization_header env auth_header ai of
        None \<Rightarrow> (Http_Unauthorized, ai)
      | Some token_id \<Rightarrow>
          (case ie_fetch_data env param of
             None \<Rightarrow> (Http_Bad_Request, ai)
           | Some sysinfo \<Rightarrow>
               (case new_installation env token_id sysinfo seen ai of
                  (Inr answer, ai) \<Rightarrow> (Http_Ok answer, ai)
                | (Inl _, ai) \<Rightarrow> (Http_Bad_Request, ai))))"

definition list_installations :: "ai_state \<Rightarrow> installation list \<times> ai_state" where
  "list_installations ai = (let (insts, ai) = read_installations ai in (map (\<lambda>i. i\<lparr>in_post_hook_token := None\<rparr>) insts, ai))"

definition delete_installation :: "string \<Rightarrow> ai_state \<Rightarrow> (ai_error + unit) \<times> ai_state" where
  "delete_installation uuid ai =
     (let (removed, ai) = remove_installation uuid ai in if removed then (Inr (), ai) else (Inl (Ai_Not_Found uuid), ai))"

definition awaits_hook :: "string \<Rightarrow> installation \<Rightarrow> bool" where
  "awaits_hook uuid inst \<longleftrightarrow> in_uuid inst = uuid \<and> in_status inst = In_Progress \<and> in_post_hook_data inst = None"

definition handle_post_hook :: "string \<Rightarrow> string \<Rightarrow> json \<Rightarrow> ai_state \<Rightarrow> (ai_error + unit) \<times> ai_state" where
  "handle_post_hook uuid token info ai =
     (let (insts, ai) = read_installations ai
      in case List.find (awaits_hook uuid) insts of
           None \<Rightarrow> (Inl (Ai_Not_Found uuid), ai)
         | Some inst \<Rightarrow>
             let stored = (case in_post_hook_token inst of Some t \<Rightarrow> t | None \<Rightarrow> [])
             in if stored = [] \<or> length stored \<noteq> length token \<or> stored \<noteq> token then (Inl (Ai_Not_Found uuid), ai)
                else (Inr (), save_installation (inst\<lparr>in_status := Install_Finished, in_post_hook_data := Some info, in_post_hook_token := None\<rparr>) ai))"

end
