(* ===== verification/Auto_Installer_Props.thy ===== *)
theory Auto_Installer_Props
  imports Auto_Installer "HOL-Library.Multiset"
begin

text \<open>
  Properties of automated installations: the choice of an answer, the secrets of tokens, and the invariant that every
  handler keeps.
\<close>

section \<open>The choice of an answer\<close>

definition authorized :: "string \<Rightarrow> prepared \<Rightarrow> bool" where
  "authorized token p \<longleftrightarrow> token \<in> set (pr_authorized_tokens p)"

definition specific :: "ai_env \<Rightarrow> string \<Rightarrow> json \<Rightarrow> prepared \<Rightarrow> bool" where
  "specific env token info p \<longleftrightarrow> authorized token p \<and> \<not> pr_is_default p \<and> pr_target_filter p \<noteq> []
     \<and> (\<forall>f \<in> set (pr_target_filter p). filter_matches env info f)"

definition default_for :: "string \<Rightarrow> prepared \<Rightarrow> bool" where
  "default_for token p \<longleftrightarrow> authorized token p \<and> pr_is_default p"

lemma find_loop_matched: "snd (find_loop env token info ps d (Some p)) = Some p"
  by (induction ps arbitrary: d) auto

lemma find_loop_first: "snd (find_loop env token info ps d None) = List.find (specific env token info) ps"
proof (induction ps arbitrary: d)
  case (Cons p ps)
  show ?case
  proof (cases "specific env token info p")
    case True
    then show ?thesis by (auto simp: specific_def authorized_def list_all_iff find_loop_matched)
  next
    case False
    then have "\<exists>d'. find_loop env token info (p # ps) d None = find_loop env token info ps d' None"
      by (auto simp: specific_def authorized_def list_all_iff)
    then obtain d' where "find_loop env token info (p # ps) d None = find_loop env token info ps d' None" by blast
    then show ?thesis using Cons.IH [of d'] False by simp
  qed
qed simp

lemma find_loop_default:
  "List.find (specific env token info) ps = None \<Longrightarrow>
   fst (find_loop env token info ps d None) = (case filter (default_for token) ps of [] \<Rightarrow> d | ds \<Rightarrow> Some (last ds))"
proof (induction ps arbitrary: d)
  case (Cons p ps)
  have ns: "\<not> specific env token info p" "List.find (specific env token info) ps = None"
    using Cons.prems by (auto split: if_splits)
  show ?case
  proof (cases "default_for token p")
    case True
    then have "find_loop env token info (p # ps) d None = find_loop env token info ps (Some p) None"
      by (simp add: default_for_def authorized_def)
    then show ?thesis using Cons.IH [OF ns(2), of "Some p"] True by (auto split: list.splits)
  next
    case False
    then have "find_loop env token info (p # ps) d None = find_loop env token info ps d None"
      using ns(1) by (auto simp: default_for_def specific_def authorized_def list_all_iff)
    then show ?thesis using Cons.IH [OF ns(2)] False by simp
  qed
qed simp

text \<open>The answer for a machine is the first one in file order that authorizes the token, is not the default and whose filters, of
  which it has at least one, all match; only if there is none, it is the default answer that authorizes the token.\<close>

theorem find_config_spec:
  "find_config env token info cfg =
     (case List.find (specific env token info) (map snd cfg) of
        Some p \<Rightarrow> Some p
      | None \<Rightarrow> (case filter (default_for token) (map snd cfg) of [] \<Rightarrow> None | ds \<Rightarrow> Some (last ds)))"
proof (cases "List.find (specific env token info) (map snd cfg)")
  case None
  then show ?thesis
    using find_loop_first [of env token info "map snd cfg" None] find_loop_default [OF None, of None]
    by (simp add: find_config_def case_prod_beta Let_def)
next
  case (Some p)
  then show ?thesis
    using find_loop_first [of env token info "map snd cfg" None] by (simp add: find_config_def case_prod_beta Let_def)
qed

lemma find_config_in: "find_config env token info cfg = Some p \<Longrightarrow> p \<in> snd ` set cfg \<and> authorized token p"
proof -
  assume "find_config env token info cfg = Some p"
  then consider "List.find (specific env token info) (map snd cfg) = Some p"
    | "filter (default_for token) (map snd cfg) \<noteq> []" "p = last (filter (default_for token) (map snd cfg))"
    unfolding find_config_spec by (auto split: option.splits list.splits)
  then show ?thesis
  proof cases
    case 1
    then have "p \<in> set (map snd cfg)" "specific env token info p" using find_SomeD by fast+
    then show ?thesis by (simp add: specific_def)
  next
    case 2
    then have "p \<in> set (filter (default_for token) (map snd cfg))" using last_in_set by blast
    then show ?thesis by (auto simp: default_for_def)
  qed
qed

section \<open>Secrets\<close>

lemma split_default_append: "c \<notin> set a \<Longrightarrow> split_default c (a @ c # b) = (a, b)"
  by (simp add: split_default_def)

lemma verify_header_bearer:
  assumes "CHR '':'' \<notin> set i"
  shows "verify_answer_authorization_header env (''Bearer '' @ i @ '':'' @ secret) ai =
    (case sc_get (ai_tokens ai) i of
       None \<Rightarrow> None | Some t \<Rightarrow> if is_active (ie_now env) t \<and> verify_secret env i secret ai then Some i else None)"
proof -
  have "CHR '' '' \<notin> set ''Bearer''" by simp
  then have "split_default (CHR '' '') (''Bearer'' @ CHR '' '' # (i @ CHR '':'' # secret)) = (''Bearer'', i @ CHR '':'' # secret)"
    by (rule split_default_append)
  moreover have "to_ascii_lowercase ''Bearer'' = ''bearer''" by code_simp
  moreover have "split_default (CHR '':'') (i @ CHR '':'' # secret) = (i, secret)" using assms by (rule split_default_append)
  ultimately show ?thesis by (simp add: verify_answer_authorization_header_def)
qed

lemma add_token_effect:
  assumes "add_token env token secret ai = (Inr u, ai')"
  shows "\<exists>h. ie_encrypt env secret = Some h \<and> ai' = ai\<lparr>ai_tokens := sc_insert (at_id token) token (ai_tokens ai),
    ai_shadow := (ai_shadow ai)(at_id token \<mapsto> h)\<rparr>"
  using assms by (auto simp: add_token_def Let_def split: if_splits option.splits)

lemma added_secret_exact:
  assumes "add_token env token secret ai = (Inr u, ai')" and "CHR '':'' \<notin> set (at_id token)"
    and "\<And>s h x. ie_encrypt env s = Some h \<Longrightarrow> ie_verify env' x h \<longleftrightarrow> x = s"
  shows "verify_answer_authorization_header env' (''Bearer '' @ at_id token @ '':'' @ x) ai' = Some (at_id token)
    \<longleftrightarrow> x = secret \<and> is_active (ie_now env') token"
proof -
  obtain h where h: "ie_encrypt env secret = Some h" "ai' = ai\<lparr>ai_tokens := sc_insert (at_id token) token (ai_tokens ai),
    ai_shadow := (ai_shadow ai)(at_id token \<mapsto> h)\<rparr>" using add_token_effect [OF assms(1)] by blast
  show ?thesis unfolding verify_header_bearer [OF assms(2)]
    using h assms(3) [OF h(1), of x] by (auto simp: sc_get_insert verify_secret_def)
qed

definition tokens_ok :: "answer_token section_config \<Rightarrow> bool" where
  "tokens_ok cfg \<longleftrightarrow> sc_wf cfg \<and> (\<forall>i t. sc_get cfg i = Some t \<longrightarrow> at_id t = i)"

lemma fold_delete_token_id: "at_id (fold delete_token_property props t) = at_id t"
  by (induction props arbitrary: t) (simp_all add: delete_token_property_def split: deletable_token_property.splits)

lemma when_some_field: "(\<And>v x. f (g v x) = f x) \<Longrightarrow> f (when_some u g x) = f x"
  by (simp add: when_some_def split: option.split)

lemma update_token_regenerated:
  assumes "tokens_ok (ai_tokens ai)" and "update_token env i u del True dg ai = (Inr (t, Some s), ai')"
  shows "at_id t = i \<and> s = ie_secret env \<and> (\<exists>ai1. add_token env t s ai1 = (Inr (), ai'))"
proof -
  obtain t0 where t0: "sc_get (ai_tokens ai) i = Some t0" "\<not> ie_tokens_modified env dg (ai_tokens ai)"
    using assms(2) by (auto simp: update_token_def split: if_splits option.splits)
  let ?t = "when_some (tu_expire_at u) (\<lambda>t. at_expire_at_update (\<lambda>_. Some t)) (when_some (tu_enabled u) (\<lambda>b. at_enabled_update (\<lambda>_. Some b))
     (when_some (tu_comment u) (\<lambda>c. at_comment_update (\<lambda>_. Some c)) (case del of Some props \<Rightarrow> fold delete_token_property props t0 | None \<Rightarrow> t0)))"
  have id: "at_id ?t = i" using t0 assms(1) by (simp add: when_some_field fold_delete_token_id tokens_ok_def split: option.split)
  have "(case cfg_delete_token (at_id ?t) ai of (Inl err, ai) \<Rightarrow> (Inl err, ai)
      | (Inr _, ai) \<Rightarrow> (case add_token env ?t (ie_secret env) ai of (Inl err, ai) \<Rightarrow> (Inl err, ai)
          | (Inr _, ai) \<Rightarrow> (Inr (?t, Some (ie_secret env)), ai))) = (Inr (t, Some s), ai')"
    using assms(2) t0 by (simp add: update_token_def Let_def)
  then have "t = ?t \<and> s = ie_secret env \<and> (\<exists>ai1. add_token env ?t (ie_secret env) ai1 = (Inr (), ai'))"
    by (auto split: prod.splits sum.splits)
  then show ?thesis using id by simp
qed

text \<open>C28. After a token has been created or its secret regenerated, a request with that token is authenticated if and only if it
  presents exactly the secret that was returned and the token is enabled and has not expired, provided the password
  hash verifies a password against its own hash only.\<close>

theorem token_secret_exact:
  assumes crypt: "\<forall>s h. ie_encrypt env s = Some h \<longrightarrow> (\<forall>x. ie_verify env' x h \<longleftrightarrow> x = s)"
    and name: "CHR '':'' \<notin> set i" and wf: "tokens_ok (ai_tokens ai)"
    and issued: "create_token env i comment enabled expire_at ai = (Inr (t, s), ai')
      \<or> update_token env i u del True digest ai = (Inr (t, Some s), ai')"
  shows "verify_answer_authorization_header env' (''Bearer '' @ i @ '':'' @ x) ai' = Some i \<longleftrightarrow> x = s \<and> is_active (ie_now env') t"
  using issued
proof
  assume "create_token env i comment enabled expire_at ai = (Inr (t, s), ai')"
  then have "add_token env t s ai = (Inr (), ai')" "at_id t = i"
    by (auto simp: create_token_def Let_def split: prod.splits sum.splits)
  then show ?thesis using added_secret_exact [of env t s ai "()" ai' env' x] crypt name by auto
next
  assume "update_token env i u del True digest ai = (Inr (t, Some s), ai')"
  from update_token_regenerated [OF wf this] obtain ai1 where "add_token env t s ai1 = (Inr (), ai')" "at_id t = i" by blast
  then show ?thesis using added_secret_exact [of env t s ai1 "()" ai' env' x] crypt name by auto
qed

lemma deleted_token_rejected:
  assumes "delete_token i seen ai = (Inr u, ai')"
  shows "verify_answer_authorization_header env header ai' \<noteq> Some i"
proof -
  have "sc_get (ai_tokens ai') i = None"
    using assms by (auto simp: delete_token_def cfg_delete_token_def sc_get_remove split: if_splits)
  then show ?thesis by (auto simp: verify_answer_authorization_header_def Let_def split: prod.splits option.splits if_splits)
qed

section \<open>The invariant\<close>

definition counters_ok :: "(string \<times> int) list \<Rightarrow> bool" where
  "counters_ok m \<longleftrightarrow> (\<forall>(k, v) \<in> set m. template_counter_name k \<and> 0 \<le> v \<and> v \<le> i32_max)"

definition udev_ok :: "filter_map \<Rightarrow> bool" where
  "udev_ok m \<longleftrightarrow> (\<forall>(k, v) \<in> set m. udev_filter_key k)"

definition answer_ok :: "prepared \<Rightarrow> bool" where
  "answer_ok p \<longleftrightarrow> pr_authorized_tokens p \<noteq> [] \<and> pr_root_password_hashed p \<noteq> None \<and> (pr_is_default p \<or> pr_target_filter p \<noteq> [])
     \<and> counters_ok (pr_template_counters p) \<and> udev_ok (pr_netdev_filter p) \<and> udev_ok (pr_disk_filter p)"

definition defaults :: "(string \<rightharpoonup> prepared) \<Rightarrow> string set" where
  "defaults m = {i. \<exists>p. m i = Some p \<and> pr_is_default p}"

definition answers_ok :: "(string \<rightharpoonup> prepared) \<Rightarrow> bool" where
  "answers_ok m \<longleftrightarrow> (\<forall>i p. m i = Some p \<longrightarrow> pr_id p = i \<and> answer_ok p) \<and> (\<forall>i \<in> defaults m. \<forall>j \<in> defaults m. i = j)"

definition prepared_ok :: "prepared section_config \<Rightarrow> bool" where
  "prepared_ok cfg \<longleftrightarrow> sc_wf cfg \<and> answers_ok (sc_get cfg)"

definition install_ok :: "installation \<Rightarrow> bool" where
  "install_ok inst \<longleftrightarrow> (in_post_hook_token inst \<noteq> None \<longrightarrow> in_status inst = In_Progress \<and> in_post_hook_data inst = None)"

definition installs_ok :: "installation section_config \<Rightarrow> bool" where
  "installs_ok files \<longleftrightarrow> sc_wf files \<and> (\<forall>u inst. sc_get files u = Some inst \<longrightarrow> in_uuid inst = u \<and> install_ok inst)"

definition legacy_ok :: "legacy_file \<Rightarrow> bool" where
  "legacy_ok l \<longleftrightarrow> (case l of Legacy insts \<Rightarrow> \<forall>inst \<in> set insts. install_ok inst | _ \<Rightarrow> True)"

definition ai_inv :: "ai_state \<Rightarrow> bool" where
  "ai_inv ai \<longleftrightarrow> prepared_ok (ai_prepared ai) \<and> tokens_ok (ai_tokens ai) \<and> (\<forall>i. ai_shadow ai i \<noteq> None \<longrightarrow> sc_get (ai_tokens ai) i \<noteq> None)
     \<and> installs_ok (ai_installs ai) \<and> legacy_ok (ai_legacy ai)"

text \<open>Counters arrive as values of \<open>i32\<close>.\<close>

definition i32_counters :: "(string \<times> int) list \<Rightarrow> bool" where
  "i32_counters m \<longleftrightarrow> (\<forall>(k, v) \<in> set m. v \<le> i32_max)"

lemma validate_udev_ok: "validate_udev_filter_map m = Inr u \<Longrightarrow> udev_ok m"
  by (fastforce simp: validate_udev_filter_map_def udev_ok_def find_None_iff split: option.splits)

lemma validate_template_ok: "validate_template_map m = Inr u \<Longrightarrow> i32_counters m \<Longrightarrow> counters_ok m"
proof (induction m)
  case (Cons kv m)
  then show ?case by (cases kv) (auto simp: counters_ok_def i32_counters_def split: if_splits)
qed (simp add: counters_ok_def)

lemma next_counters_ok: "answer_ok p \<Longrightarrow> answer_ok (next_counters p)"
  by (auto simp: answer_ok_def next_counters_def counters_ok_def i32_max_def)

subsection \<open>Tokens\<close>

lemma tokens_ok_insert: "tokens_ok cfg \<Longrightarrow> tokens_ok (sc_insert (at_id t) t cfg)"
  by (auto simp: tokens_ok_def sc_laws split: if_splits)

lemma tokens_ok_remove: "tokens_ok cfg \<Longrightarrow> tokens_ok (sc_remove i cfg)"
  by (auto simp: tokens_ok_def sc_laws split: if_splits)

text \<open>A change of the tokens and their secrets only.\<close>

definition token_change :: "ai_state \<Rightarrow> ai_state \<Rightarrow> bool" where
  "token_change ai ai' \<longleftrightarrow> ai_prepared ai' = ai_prepared ai \<and> ai_installs ai' = ai_installs ai \<and> ai_legacy ai' = ai_legacy ai
     \<and> (tokens_ok (ai_tokens ai) \<longrightarrow> tokens_ok (ai_tokens ai'))
     \<and> ((\<forall>i. ai_shadow ai i \<noteq> None \<longrightarrow> sc_get (ai_tokens ai) i \<noteq> None) \<longrightarrow>
        (\<forall>i. ai_shadow ai' i \<noteq> None \<longrightarrow> sc_get (ai_tokens ai') i \<noteq> None))"

lemma token_change_refl: "token_change ai ai"
  by (simp add: token_change_def)

lemma token_change_trans: "token_change ai ai' \<Longrightarrow> token_change ai' ai'' \<Longrightarrow> token_change ai ai''"
  by (simp add: token_change_def)

lemma token_change_inv: "token_change ai ai' \<Longrightarrow> ai_inv ai \<Longrightarrow> ai_inv ai'"
  by (simp add: token_change_def ai_inv_def)

lemma token_change_prepared: "token_change ai ai' \<Longrightarrow> ai_prepared ai' = ai_prepared ai"
  by (simp add: token_change_def)

lemma add_token_change: "token_change ai (snd (add_token env t s ai))"
  by (auto simp: add_token_def token_change_def tokens_ok_insert sc_laws Let_def split: option.split)

lemma cfg_update_token_change: "token_change ai (snd (cfg_update_token t ai))"
  by (auto simp: cfg_update_token_def token_change_def tokens_ok_insert sc_laws)

lemma cfg_delete_token_change: "token_change ai (snd (cfg_delete_token i ai))"
  by (auto simp: cfg_delete_token_def token_change_def tokens_ok_remove sc_laws)

lemma snd_result [simp]: "snd (case p of (Inl err, a) \<Rightarrow> (Inl err, a) | (Inr x, a) \<Rightarrow> (Inr (f x), a)) = snd p"
  by (cases p) (simp split: sum.split)

lemma create_token_change: "token_change ai (snd (create_token env i c en ex ai))"
  by (simp add: create_token_def Let_def add_token_change)

lemma snd_result_bind:
  "token_change ai (snd p) \<Longrightarrow> (\<And>x. token_change (snd p) (snd (f x (snd p)))) \<Longrightarrow>
     token_change ai (snd (case p of (Inl err, a) \<Rightarrow> (Inl err, a) | (Inr x, a) \<Rightarrow> f x a))"
  by (cases p) (auto split: sum.split intro: token_change_trans)

lemma update_token_change: "token_change ai (snd (update_token env i u del regen dg ai))"
  unfolding update_token_def Let_def
  by (auto intro!: snd_result_bind token_change_refl simp: add_token_change cfg_delete_token_change cfg_update_token_change split: option.split)

lemma generate_token_change: "token_change ai (snd (generate_token env i ai))"
  by (simp add: generate_token_def create_token_change)

lemma delete_token_change: "token_change ai (snd (delete_token i seen ai))"
  by (simp add: delete_token_def cfg_delete_token_change token_change_refl)

subsection \<open>Prepared answers\<close>

lemma answers_ok_put:
  assumes "answers_ok m" and "answer_ok p" and "pr_id p = i" and "pr_is_default p \<Longrightarrow> defaults m \<subseteq> {i}"
  shows "answers_ok (m(i \<mapsto> p))"
proof -
  have "defaults (m(i \<mapsto> p)) \<subseteq> (if pr_is_default p then {i} else defaults m)"
    using assms(4) by (auto simp: defaults_def split: if_splits)
  moreover have "\<forall>j \<in> (if pr_is_default p then {i} else defaults m). \<forall>k \<in> (if pr_is_default p then {i} else defaults m). j = k"
    using assms(1) unfolding answers_ok_def by (cases "pr_is_default p") simp_all
  ultimately have "\<forall>j \<in> defaults (m(i \<mapsto> p)). \<forall>k \<in> defaults (m(i \<mapsto> p)). j = k" by blast
  moreover have "\<forall>j q. (m(i \<mapsto> p)) j = Some q \<longrightarrow> pr_id q = j \<and> answer_ok q" using assms(1-3) by (simp add: answers_ok_def)
  ultimately show ?thesis by (simp add: answers_ok_def)
qed

lemma answers_ok_drop: "answers_ok m \<Longrightarrow> answers_ok (m(i := None))"
proof -
  assume a: "answers_ok m"
  have "defaults (m(i := None)) \<subseteq> defaults m" by (auto simp: defaults_def split: if_splits)
  moreover have "\<forall>j q. (m(i := None)) j = Some q \<longrightarrow> pr_id q = j \<and> answer_ok q" using a by (simp add: answers_ok_def)
  ultimately show ?thesis using a unfolding answers_ok_def by blast
qed

lemma prepared_ok_insert:
  assumes "prepared_ok cfg" and "answer_ok p" and "pr_is_default p \<Longrightarrow> defaults (sc_get cfg) \<subseteq> {pr_id p}"
  shows "prepared_ok (sc_insert (pr_id p) p cfg)"
  using assms answers_ok_put [of "sc_get cfg" p "pr_id p"] by (simp add: prepared_ok_def sc.get_insert sc.wf_insert)

lemma prepared_ok_modify:
  assumes "prepared_ok cfg" and "sc_get cfg i = Some p" and "answer_ok (f p)" and "pr_id (f p) = i"
    and "pr_is_default (f p) \<Longrightarrow> defaults (sc_get cfg) \<subseteq> {i}"
  shows "prepared_ok (sc_modify i f cfg)"
  using assms answers_ok_put [of "sc_get cfg" "f p" i] by (simp add: prepared_ok_def sc.get_modify sc.wf_modify)

lemma prepared_ok_remove: "prepared_ok cfg \<Longrightarrow> prepared_ok (sc_remove i cfg)"
  by (simp add: prepared_ok_def sc.get_remove sc.wf_remove answers_ok_drop)

lemma prepared_ok_next:
  assumes "prepared_ok cfg"
  shows "prepared_ok (sc_modify i next_counters cfg)"
proof (cases "sc_get cfg i")
  case None
  then show ?thesis using assms by (simp add: sc_modify_id)
next
  case (Some p)
  then have p: "pr_id p = i" "answer_ok p" using assms by (auto simp: prepared_ok_def answers_ok_def)
  have "defaults (sc_get cfg) \<subseteq> {i}" if "pr_is_default p"
    using assms that Some by (auto simp: prepared_ok_def answers_ok_def defaults_def)
  then show ?thesis using p by (intro prepared_ok_modify [OF assms Some]) (simp_all add: next_counters_def next_counters_ok [unfolded next_counters_def])
qed

lemma no_default_list: "sc_wf cfg \<Longrightarrow> \<not> list_ex (\<lambda>(_, p). pr_is_default p \<and> pr_id p \<noteq> i) cfg \<Longrightarrow> answers_ok (sc_get cfg) \<Longrightarrow> defaults (sc_get cfg) \<subseteq> {i}"
proof
  fix j assume a: "sc_wf cfg" "\<not> list_ex (\<lambda>(_, p). pr_is_default p \<and> pr_id p \<noteq> i) cfg" "answers_ok (sc_get cfg)" "j \<in> defaults (sc_get cfg)"
  then obtain p where p: "sc_get cfg j = Some p" "pr_is_default p" by (auto simp: defaults_def)
  then have "(j, p) \<in> set cfg" "pr_id p = j" using a(1,3) by (auto simp: sc.get_iter answers_ok_def)
  then have "j = i" using a(2) p(2) by (auto simp: list_ex_iff)
  then show "j \<in> {i}" by simp
qed

lemma issue_tokens_effect:
  assumes "issue_tokens env config ai = (r, ai')"
  shows "token_change ai ai' \<and> (\<forall>c t. r = Inr (c, t) \<longrightarrow> pr_authorized_tokens c \<noteq> [] \<and> (\<exists>ts. c = config\<lparr>pr_authorized_tokens := ts\<rparr>))"
proof (cases "pr_authorized_tokens config")
  case Nil
  obtain r0 ai0 where g: "generate_token env (pr_id config) ai = (r0, ai0)" by (cases "generate_token env (pr_id config) ai")
  have "token_change ai ai0" using generate_token_change [of ai env "pr_id config"] g by simp
  then show ?thesis using assms Nil g by (auto simp: issue_tokens_def split: sum.splits prod.splits)
next
  case (Cons t ts)
  then show ?thesis using assms by (auto simp: issue_tokens_def token_change_refl intro: exI [of _ "t # ts"])
qed

definition maps_ok :: "prepared \<Rightarrow> bool" where
  "maps_ok p \<longleftrightarrow> counters_ok (pr_template_counters p) \<and> udev_ok (pr_netdev_filter p) \<and> udev_ok (pr_disk_filter p)"

lemma answer_ok_iff: "answer_ok p \<longleftrightarrow> maps_ok p \<and> pr_authorized_tokens p \<noteq> [] \<and> pr_root_password_hashed p \<noteq> None
    \<and> (pr_is_default p \<or> pr_target_filter p \<noteq> [])"
  by (auto simp: answer_ok_def maps_ok_def)

lemma validate_maps_ok: "validate_maps p = Inr u \<Longrightarrow> i32_counters (pr_template_counters p) \<Longrightarrow> maps_ok p"
  by (auto simp: validate_maps_def maps_ok_def and_then_Inr_iff intro: validate_udev_ok validate_template_ok)

lemma initial_password_set: "initial_password env rp p = Inr p' \<Longrightarrow> \<exists>h. p' = p\<lparr>pr_root_password_hashed := Some h\<rparr>"
  by (cases rp) (auto simp: initial_password_def split: option.splits if_splits intro: exI [of _ "the (pr_root_password_hashed p)"])

lemma create_prepared_cases:
  assumes "create_prepared_answer env config root_password ai = (r, ai')"
  obtains (failed) err where "r = Inl err" "token_change ai ai'"
  | (created) ai1 c t where "token_change ai ai1" "r = Inr (hide_password c, t)" "validate_maps c = Inr ()"
      "\<exists>ts h. ts \<noteq> [] \<and> c = config\<lparr>pr_root_password_hashed := Some h, pr_authorized_tokens := ts\<rparr>"
      "sc_get (ai_prepared ai) (pr_id config) = None" "\<not> (pr_is_default config \<and> list_ex (pr_is_default \<circ> snd) (ai_prepared ai))"
      "pr_is_default config \<or> pr_target_filter config \<noteq> []"
      "ai' = ai1\<lparr>ai_prepared := sc_insert (pr_id c) c (ai_prepared ai1)\<rparr>"
proof (cases "sc_get (ai_prepared ai) (pr_id config) \<noteq> None \<or> (pr_is_default config \<and> list_ex (pr_is_default \<circ> snd) (ai_prepared ai))
      \<or> (\<not> pr_is_default config \<and> pr_target_filter config = []) \<or> (\<exists>err. initial_password env root_password config = Inl err)")
  case True
  then have "(\<exists>err. r = Inl err) \<and> ai' = ai" using assms by (auto simp: create_prepared_answer_def split: sum.splits if_splits)
  then show thesis using failed token_change_refl by blast
next
  case False
  then obtain c1 where c1: "initial_password env root_password config = Inr c1" by (cases "initial_password env root_password config") auto
  obtain h where h: "c1 = config\<lparr>pr_root_password_hashed := Some h\<rparr>" using initial_password_set [OF c1] by blast
  obtain r1 ai1 where iss: "issue_tokens env c1 ai = (r1, ai1)" by (meson surj_pair)
  note eff = issue_tokens_effect [OF iss]
  show thesis
  proof (cases "\<exists>c t. r1 = Inr (c, t) \<and> validate_maps c = Inr ()")
    case bad: False
    then have "(\<exists>err. r = Inl err) \<and> ai' = ai1"
      using assms False c1 iss by (auto simp: create_prepared_answer_def split: sum.splits prod.splits)
    then show thesis using failed eff by blast
  next
    case True
    then obtain c t where c: "r1 = Inr (c, t)" "validate_maps c = Inr ()" by blast
    obtain ts where ts: "c = c1\<lparr>pr_authorized_tokens := ts\<rparr>" "ts \<noteq> []" using eff c(1) by auto
    show thesis
      by (rule created [of ai1 c t])
        (use assms False c1 iss c eff ts h in \<open>auto simp: create_prepared_answer_def\<close>)
  qed
qed

lemma create_prepared_inv:
  assumes inv: "ai_inv ai" and i32: "i32_counters (pr_template_counters config)"
  shows "ai_inv (snd (create_prepared_answer env config root_password ai))"
proof -
  obtain r ai' where h: "create_prepared_answer env config root_password ai = (r, ai')" by (meson surj_pair)
  then have "ai_inv ai'"
  proof (cases rule: create_prepared_cases)
    case failed then show ?thesis using token_change_inv [OF _ inv] by blast
  next
    case (created ai1 c t)
    obtain ts h where c: "ts \<noteq> []" "c = config\<lparr>pr_root_password_hashed := Some h, pr_authorized_tokens := ts\<rparr>" using created(4) by blast
    have ai1: "ai_inv ai1" "ai_prepared ai1 = ai_prepared ai"
      using token_change_inv [OF created(1) inv] token_change_prepared [OF created(1)] by auto
    have "maps_ok c" using validate_maps_ok [OF created(3)] i32 by (simp add: c)
    then have "answer_ok c" using c(1) created(7) by (auto simp: answer_ok_iff c)
    moreover have "defaults (sc_get (ai_prepared ai1)) \<subseteq> {pr_id c}" if "pr_is_default c"
    proof -
      have "\<not> list_ex (\<lambda>(_, p). pr_is_default p \<and> pr_id p \<noteq> pr_id c) (ai_prepared ai1)"
        using created(6) that ai1(2) by (auto simp: list_ex_iff c)
      then show ?thesis using ai1(1) by (intro no_default_list) (auto simp: ai_inv_def prepared_ok_def)
    qed
    ultimately have "prepared_ok (sc_insert (pr_id c) c (ai_prepared ai1))" using ai1(1) by (intro prepared_ok_insert) (auto simp: ai_inv_def)
    then show ?thesis using ai1(1) unfolding created(8) by (simp add: ai_inv_def)
  qed
  then show ?thesis using h by simp
qed

lemma delete_property_keeps:
  "pr_id (fold delete_prepared_property props p) = pr_id p"
  "pr_authorized_tokens (fold delete_prepared_property props p) = pr_authorized_tokens p"
  "pr_is_default (fold delete_prepared_property props p) = pr_is_default p"
  "pr_root_password_hashed (fold delete_prepared_property props p) = pr_root_password_hashed p"
  by (induction props arbitrary: p) (simp_all add: delete_prepared_property_def split: deletable_prepared_property.splits)

lemma delete_property_maps: "maps_ok p \<Longrightarrow> maps_ok (fold delete_prepared_property props p)"
proof (induction props arbitrary: p)
  case (Cons pp props)
  have "maps_ok (delete_prepared_property pp p)"
    using Cons.prems by (cases pp) (simp_all add: maps_ok_def delete_prepared_property_def counters_ok_def udev_ok_def)
  then show ?case using Cons.IH by simp
qed simp

lemma checked_some_cases:
  assumes "checked_some check u f x = Inr y"
  obtains "u = None" "y = x" | v where "u = Some v" "check v = Inr ()" "y = f v x"
  using assms by (auto simp: checked_some_def and_then_Inr_iff split: option.splits)

lemma update_groups_keep:
  "pr_id (update_global u p) = pr_id p" "pr_authorized_tokens (update_global u p) = pr_authorized_tokens p"
  "maps_ok (update_global u p) = maps_ok p" "pr_root_password_hashed (update_global u p) = pr_root_password_hashed p"
  "pr_is_default (update_global u p) = (case up_is_default u of Some b \<Rightarrow> b | None \<Rightarrow> pr_is_default p)"
  by (simp_all add: update_global_def Let_def maps_ok_def when_some_def split: option.split)

definition same_core :: "prepared \<Rightarrow> prepared \<Rightarrow> bool" where
  "same_core p p' \<longleftrightarrow> pr_id p' = pr_id p \<and> pr_authorized_tokens p' = pr_authorized_tokens p \<and> pr_is_default p' = pr_is_default p
     \<and> (pr_root_password_hashed p \<noteq> None \<longrightarrow> pr_root_password_hashed p' \<noteq> None)"

lemma same_core_trans: "same_core p p' \<Longrightarrow> same_core p' p'' \<Longrightarrow> same_core p p''"
  by (simp add: same_core_def)

lemma update_groups_core:
  "same_core p (update_network u p) \<and> maps_ok (update_network u p) = maps_ok p"
  "same_core p (update_disks u p) \<and> maps_ok (update_disks u p) = maps_ok p"
  "same_core p (update_hook u p) \<and> maps_ok (update_hook u p) = maps_ok p"
  by (simp_all add: update_network_def update_disks_def update_hook_def Let_def same_core_def maps_ok_def when_some_def split: option.split)

lemma update_password_core: "update_password env rp u p = Inr p' \<Longrightarrow> same_core p p' \<and> maps_ok p' = maps_ok p"
  by (auto simp: update_password_def same_core_def maps_ok_def when_some_def split: option.splits)

lemma checked_maps_core:
  "checked_some validate_udev_filter_map m (\<lambda>v. pr_netdev_filter_update (\<lambda>_. v)) p = Inr p' \<Longrightarrow> maps_ok p \<Longrightarrow> same_core p p' \<and> maps_ok p'"
  "checked_some validate_udev_filter_map m (\<lambda>v. pr_disk_filter_update (\<lambda>_. v)) p = Inr p' \<Longrightarrow> maps_ok p \<Longrightarrow> same_core p p' \<and> maps_ok p'"
  "checked_some validate_template_map c (\<lambda>v. pr_template_counters_update (\<lambda>_. v)) p = Inr p' \<Longrightarrow> maps_ok p \<Longrightarrow>
     (\<forall>v. c = Some v \<longrightarrow> i32_counters v) \<Longrightarrow> same_core p p' \<and> maps_ok p'"
  by (auto simp: same_core_def maps_ok_def intro: validate_udev_ok validate_template_ok elim!: checked_some_cases)

lemma update_fields_ok:
  assumes "update_fields env rp u p = Inr p'" and ok: "maps_ok p"
    and i32: "\<forall>m. up_template_counters u = Some m \<longrightarrow> i32_counters m"
  shows "maps_ok p' \<and> same_core (update_global u p) p' \<and> (pr_is_default p' \<or> pr_target_filter p' \<noteq> [])"
proof -
  obtain p1 p2 p3 p4 where s: "update_password env rp u (update_global u p) = Inr p1"
    "checked_some validate_udev_filter_map (up_netdev_filter u) (\<lambda>v. pr_netdev_filter_update (\<lambda>_. v)) (update_network u p1) = Inr p2"
    "checked_some validate_udev_filter_map (up_disk_filter u) (\<lambda>v. pr_disk_filter_update (\<lambda>_. v)) (update_disks u p2) = Inr p3"
    "checked_some validate_template_map (up_template_counters u) (\<lambda>v. pr_template_counters_update (\<lambda>_. v)) (update_hook u p3) = Inr p4"
    "p' = when_some (up_subscription_key u) (\<lambda>v. pr_subscription_key_update (\<lambda>_. Some v)) p4"
    "pr_is_default p' \<or> pr_target_filter p' \<noteq> []"
    using assms(1) by (auto simp: update_fields_def and_then_Inr_iff Let_def split: if_splits)
  have 1: "same_core (update_global u p) p1" "maps_ok p1" using update_password_core [OF s(1)] ok by (simp_all add: update_groups_keep)
  have 2: "same_core p1 p2" "maps_ok p2"
    using checked_maps_core(1) [OF s(2)] update_groups_core(1) [of p1 u] 1(2) same_core_trans by auto
  have 3: "same_core p2 p3" "maps_ok p3"
    using checked_maps_core(2) [OF s(3)] update_groups_core(2) [of p2 u] 2(2) same_core_trans by auto
  have 4: "same_core p3 p4" "maps_ok p4"
    using checked_maps_core(3) [OF s(4)] update_groups_core(3) [of p3 u] 3(2) i32 same_core_trans by auto
  have "same_core p4 p' \<and> maps_ok p' = maps_ok p4" by (simp add: s(5) same_core_def maps_ok_def when_some_def split: option.split)
  then show ?thesis using s(6) 1 2 3 4 same_core_trans by blast
qed

lemma update_tokens_effect:
  assumes "(case tokens of None \<Rightarrow> (Inr (p, None), ai) | Some ts \<Rightarrow> issue_tokens env (p\<lparr>pr_authorized_tokens := ts\<rparr>) ai) = (r, ai1)"
    and "pr_authorized_tokens p \<noteq> []"
  shows "token_change ai ai1 \<and> (\<forall>c t. r = Inr (c, t) \<longrightarrow> pr_authorized_tokens c \<noteq> [] \<and> (\<exists>ts. c = p\<lparr>pr_authorized_tokens := ts\<rparr>))"
proof (cases tokens)
  case None
  then have "r = Inr (p, None)" "ai1 = ai" using assms by auto
  moreover have "p = p\<lparr>pr_authorized_tokens := pr_authorized_tokens p\<rparr>" by simp
  ultimately show ?thesis using assms(2) token_change_refl by blast
next
  case (Some ts)
  then have "issue_tokens env (p\<lparr>pr_authorized_tokens := ts\<rparr>) ai = (r, ai1)" using assms(1) by simp
  from issue_tokens_effect [OF this] show ?thesis by auto
qed

lemma update_prepared_cases:
  assumes "update_prepared_answer env i u root_password delete digest ai = (r, ai')"
    and "\<And>p. sc_get (ai_prepared ai) i = Some p \<Longrightarrow> pr_authorized_tokens p \<noteq> []"
  obtains (failed) err where "r = Inl err" "token_change ai ai'"
  | (updated) ai1 p c t p' where "token_change ai ai1" "sc_get (ai_prepared ai) i = Some p" "pr_authorized_tokens c \<noteq> []"
      "\<exists>ts. c = (case delete of Some props \<Rightarrow> fold delete_prepared_property props p | None \<Rightarrow> p)\<lparr>pr_authorized_tokens := ts\<rparr>"
      "update_fields env root_password u c = Inr p'" "r = Inr (hide_password p', t)"
      "\<not> (up_is_default u = Some True \<and> list_ex (\<lambda>(_, p). pr_is_default p \<and> pr_id p \<noteq> i) (ai_prepared ai))"
      "ai' = ai1\<lparr>ai_prepared := sc_modify i (\<lambda>_. p') (ai_prepared ai1)\<rparr>"
proof (cases "ie_prepared_modified env digest (ai_prepared ai)
    \<or> (up_is_default u = Some True \<and> list_ex (\<lambda>(_, p). pr_is_default p \<and> pr_id p \<noteq> i) (ai_prepared ai)) \<or> sc_get (ai_prepared ai) i = None")
  case True
  then have "(\<exists>err. r = Inl err) \<and> ai' = ai" using assms(1) by (auto simp: update_prepared_answer_def split: if_splits)
  then show thesis using failed token_change_refl by blast
next
  case False
  then obtain p where p: "sc_get (ai_prepared ai) i = Some p" by blast
  define p0 where "p0 = (case delete of Some props \<Rightarrow> fold delete_prepared_property props p | None \<Rightarrow> p)"
  have p0: "pr_authorized_tokens p0 \<noteq> []" using assms(2) [OF p] by (auto simp: p0_def delete_property_keeps split: option.split)
  obtain r1 ai1 where iss: "(case up_authorized_tokens u of None \<Rightarrow> (Inr (p0, None), ai)
      | Some tokens \<Rightarrow> issue_tokens env (p0\<lparr>pr_authorized_tokens := tokens\<rparr>) ai) = (r1, ai1)" by (meson surj_pair)
  note eff = update_tokens_effect [OF iss p0]
  have st: "update_prepared_answer env i u root_password delete digest ai = (case (r1, ai1) of (Inl err, ai) \<Rightarrow> (Inl err, ai)
      | (Inr (p, token), ai) \<Rightarrow> (case update_fields env root_password u p of Inl err \<Rightarrow> (Inl err, ai)
          | Inr p \<Rightarrow> (Inr (hide_password p, token), ai\<lparr>ai_prepared := sc_modify i (\<lambda>_. p) (ai_prepared ai)\<rparr>)))"
    unfolding iss [symmetric] p0_def update_prepared_answer_def Let_def using False p by auto
  show thesis
  proof (cases "\<exists>c t p'. r1 = Inr (c, t) \<and> update_fields env root_password u c = Inr p'")
    case bad: False
    then have "(\<exists>err. r = Inl err) \<and> ai' = ai1" using assms(1) unfolding st by (auto split: sum.splits prod.splits)
    then show thesis using failed eff by blast
  next
    case True
    then obtain c t p' where c: "r1 = Inr (c, t)" "update_fields env root_password u c = Inr p'" by blast
    show thesis
      by (rule updated [of ai1 p c p' t]) (use assms(1) eff p c False in \<open>auto simp: st p0_def\<close>)
  qed
qed

lemma update_prepared_inv:
  assumes inv: "ai_inv ai" and i32: "\<forall>m. up_template_counters u = Some m \<longrightarrow> i32_counters m"
  shows "ai_inv (snd (update_prepared_answer env i u root_password delete digest ai))"
proof -
  obtain r ai' where h: "update_prepared_answer env i u root_password delete digest ai = (r, ai')" by (meson surj_pair)
  have entry: "pr_id p = i \<and> answer_ok p" if "sc_get (ai_prepared ai) i = Some p" for p
    using inv that by (auto simp: ai_inv_def prepared_ok_def answers_ok_def)
  then have tok: "pr_authorized_tokens p \<noteq> []" if "sc_get (ai_prepared ai) i = Some p" for p using that by (simp add: answer_ok_def)
  have "ai_inv ai'"
  proof (cases rule: update_prepared_cases [OF h tok])
    case (2 err) then show ?thesis using token_change_inv [OF _ inv] by blast
  next
    case updated: (3 ai1 p c t p')
    define p0 where "p0 = (case delete of Some props \<Rightarrow> fold delete_prepared_property props p | None \<Rightarrow> p)"
    have p0: "pr_id p0 = i" "maps_ok p0" "pr_root_password_hashed p0 \<noteq> None" "pr_is_default p0 = pr_is_default p"
      using entry [OF updated(2)] by (auto simp: p0_def answer_ok_iff delete_property_keeps delete_property_maps split: option.split)
    obtain ts where ts: "c = p0\<lparr>pr_authorized_tokens := ts\<rparr>" using updated(4) by (auto simp: p0_def)
    have ai1: "ai_inv ai1" "ai_prepared ai1 = ai_prepared ai"
      using token_change_inv [OF updated(1) inv] token_change_prepared [OF updated(1)] by auto
    have "maps_ok c" using p0(2) by (simp add: ts maps_ok_def)
    from update_fields_ok [OF updated(5) this i32]
    have f: "maps_ok p'" "same_core (update_global u c) p'" "pr_is_default p' \<or> pr_target_filter p' \<noteq> []" by auto
    have "answer_ok p'" "pr_id p' = i" using f p0 ts updated(3) by (auto simp: answer_ok_iff same_core_def update_groups_keep)
    moreover have "defaults (sc_get (ai_prepared ai)) \<subseteq> {i}" if "pr_is_default p'"
    proof -
      have "(case up_is_default u of Some b \<Rightarrow> b | None \<Rightarrow> pr_is_default p)"
        using that f(2) ts p0(4) by (simp add: same_core_def update_groups_keep split: option.splits)
      then consider "up_is_default u = Some True" | "pr_is_default p" by (cases "up_is_default u") auto
      then show ?thesis
      proof cases
        case 1 then show ?thesis using updated(7) inv by (intro no_default_list) (auto simp: ai_inv_def prepared_ok_def)
      next
        case 2 then show ?thesis using updated(2) inv by (auto simp: ai_inv_def prepared_ok_def answers_ok_def defaults_def)
      qed
    qed
    ultimately have "prepared_ok (sc_modify i (\<lambda>_. p') (ai_prepared ai))"
      using inv updated(2) by (intro prepared_ok_modify) (auto simp: ai_inv_def)
    then show ?thesis using ai1 unfolding updated(8) by (simp add: ai_inv_def)
  qed
  then show ?thesis using h by simp
qed

subsection \<open>Installations\<close>

lemma installs_ok_put: "installs_ok files \<Longrightarrow> install_ok inst \<Longrightarrow> installs_ok (sc_insert (in_uuid inst) inst files)"
  by (auto simp: installs_ok_def sc.get_insert sc.wf_insert split: if_splits)

lemma migrate_ok:
  assumes "ai_inv ai"
  shows "ai_inv (migrate_legacy_installations_file ai)"
proof -
  have "installs_ok (fold migrate_one insts files)" if "installs_ok files" "\<forall>inst \<in> set insts. install_ok inst" for insts files
    using that by (induction insts arbitrary: files) (auto simp: migrate_one_def installs_ok_put)
  then show ?thesis using assms
    by (auto simp: migrate_legacy_installations_file_def ai_inv_def legacy_ok_def split: legacy_file.split)
qed

lemma save_installation_inv: "ai_inv ai \<Longrightarrow> install_ok inst \<Longrightarrow> ai_inv (save_installation inst ai)"
  by (simp add: save_installation_def ai_inv_def installs_ok_put)

lemma new_installation_cases:
  assumes "new_installation env token sysinfo seen ai = (r, ai')"
  obtains (failed) err where "r = Inl err" "ai' = ai"
  | (unanswered) "r = Inl (Ai_Not_Found ''no answer file found'')" "find_config env token sysinfo seen = None"
      "ai' = save_installation (unanswered_installation env sysinfo) ai"
  | (answered) config answer where "r = Inr (inject_post_hook env config answer)" "find_config env token sysinfo seen = Some config"
      "render_prepared_config env config sysinfo = Inr answer" "sc_get (ai_prepared ai) (pr_id config) \<noteq> None"
      "ai' = save_installation (answered_installation env sysinfo config)
         (ai\<lparr>ai_prepared := sc_modify (pr_id config) next_counters (ai_prepared ai)\<rparr>)"
proof (cases "find_config env token sysinfo seen")
  case None
  then show thesis using unanswered assms by (simp add: new_installation_def)
next
  case (Some config)
  show thesis
  proof (cases "render_prepared_config env config sysinfo")
    case (Inl err) then show thesis using failed [of err] Some assms by (simp add: new_installation_def)
  next
    case (Inr answer)
    show thesis
    proof (cases "sc_get (ai_prepared ai) (pr_id config)")
      case None
      then show thesis using failed [of "Ai_Not_Found (pr_id config)"] Some Inr assms
        by (simp add: new_installation_def increment_template_counters_def)
    next
      case p: (Some p)
      then show thesis using answered [of config answer] Some Inr assms
        by (simp add: new_installation_def increment_template_counters_def)
    qed
  qed
qed

lemma installation_kinds_ok: "install_ok (answered_installation env sysinfo config)" "install_ok (unanswered_installation env sysinfo)"
  by (simp_all add: install_ok_def answered_installation_def unanswered_installation_def)

lemma new_installation_inv:
  assumes "ai_inv ai"
  shows "ai_inv (snd (new_installation env token sysinfo seen ai))"
proof -
  obtain r ai' where n: "new_installation env token sysinfo seen ai = (r, ai')" by (meson surj_pair)
  then have "ai_inv ai'"
  proof (cases rule: new_installation_cases)
    case failed then show ?thesis using assms by simp
  next
    case unanswered then show ?thesis using assms by (simp add: save_installation_inv installation_kinds_ok)
  next
    case (answered config answer)
    have "ai_inv (ai\<lparr>ai_prepared := sc_modify (pr_id config) next_counters (ai_prepared ai)\<rparr>)"
      using assms by (simp add: ai_inv_def prepared_ok_next)
    then show ?thesis using answered(5) by (simp add: save_installation_inv installation_kinds_ok)
  qed
  then show ?thesis using n by simp
qed

lemma api_new_installation_inv: "ai_inv ai \<Longrightarrow> ai_inv (snd (api_new_installation env header param seen ai))"
proof -
  assume inv: "ai_inv ai"
  have "snd (api_new_installation env header param seen ai) = ai
    \<or> (\<exists>token sysinfo. snd (api_new_installation env header param seen ai) = snd (new_installation env token sysinfo seen ai))"
  proof (cases "verify_answer_authorization_header env header ai")
    case (Some token)
    show ?thesis
    proof (cases "ie_fetch_data env param")
      case data: (Some sysinfo)
      obtain r ai1 where n: "new_installation env token sysinfo seen ai = (r, ai1)" by (meson surj_pair)
      have "snd (api_new_installation env header param seen ai) = ai1"
        using Some data n by (simp add: api_new_installation_def split: sum.split)
      then show ?thesis using n by (metis snd_conv)
    qed (simp add: api_new_installation_def Some)
  qed (simp add: api_new_installation_def)
  then show ?thesis using inv new_installation_inv by auto
qed

lemma find_awaits:
  assumes "List.find (awaits_hook uuid) (sort_key in_uuid (map snd (ai_installs ai))) = Some inst" and "ai_inv ai"
  shows "sc_get (ai_installs ai) uuid = Some inst" "awaits_hook uuid inst" "install_ok inst"
proof -
  have f: "inst \<in> set (sort_key in_uuid (map snd (ai_installs ai)))" "awaits_hook uuid inst" using find_SomeD [OF assms(1)] by auto
  then obtain u where u: "(u, inst) \<in> set (ai_installs ai)" by auto
  then have "sc_get (ai_installs ai) u = Some inst" using assms(2) by (simp add: sc.get_iter ai_inv_def installs_ok_def)
  moreover from this have "in_uuid inst = u" "install_ok inst" using assms(2) by (auto simp: ai_inv_def installs_ok_def)
  ultimately show "sc_get (ai_installs ai) uuid = Some inst" "awaits_hook uuid inst" "install_ok inst"
    using f(2) by (auto simp: awaits_hook_def)
qed

text \<open>An accepted hook: the installation was under way and its token was presented.\<close>

lemma post_hook_cases:
  assumes "ai_inv ai" and "handle_post_hook uuid token info ai = (r, ai')"
  obtains (rejected) "r = Inl (Ai_Not_Found uuid)" "ai' = migrate_legacy_installations_file ai"
  | (accepted) inst where "r = Inr ()" "sc_get (ai_installs (migrate_legacy_installations_file ai)) uuid = Some inst" "awaits_hook uuid inst"
      "in_post_hook_token inst = Some token" "token \<noteq> []"
      "ai' = save_installation (inst\<lparr>in_status := Install_Finished, in_post_hook_data := Some info, in_post_hook_token := None\<rparr>)
         (migrate_legacy_installations_file ai)"
proof (cases "List.find (awaits_hook uuid) (sort_key in_uuid (map snd (ai_installs (migrate_legacy_installations_file ai))))")
  case None
  then show thesis using rejected assms(2) by (auto simp: handle_post_hook_def read_installations_def Let_def)
next
  case (Some inst)
  note f = find_awaits [OF Some migrate_ok [OF assms(1)]]
  show thesis
  proof (cases "in_post_hook_token inst = Some token \<and> token \<noteq> []")
    case True
    show thesis by (rule accepted [of inst]) (use Some True f assms(2) in \<open>auto simp: handle_post_hook_def read_installations_def Let_def\<close>)
  next
    case False
    then show thesis using rejected Some assms(2)
      by (auto simp: handle_post_hook_def read_installations_def Let_def split: option.splits if_splits)
  qed
qed

lemma post_hook_inv: "ai_inv ai \<Longrightarrow> ai_inv (snd (handle_post_hook uuid token info ai))"
proof -
  assume inv: "ai_inv ai"
  obtain r ai' where h: "handle_post_hook uuid token info ai = (r, ai')" by (meson surj_pair)
  from inv h have "ai_inv ai'"
  proof (cases rule: post_hook_cases)
    case rejected then show ?thesis using migrate_ok [OF inv] by simp
  next
    case (accepted inst)
    show ?thesis unfolding accepted(6) using migrate_ok [OF inv] by (intro save_installation_inv) (simp_all add: install_ok_def)
  qed
  then show ?thesis using h by simp
qed

end
