(* ===== verification/Auto_Installer_Runs.thy ===== *)
theory Auto_Installer_Runs
  imports Auto_Installer_Props
begin

text \<open>
  Properties of automated installations over sequences of calls: the reachable states, the post hook, and the effect of an
  answered request.
\<close>

section \<open>All histories\<close>

text \<open>The calls of the API; the set holds the uuids that new installations do not draw.\<close>

inductive ai_step :: "string set \<Rightarrow> ai_state \<Rightarrow> ai_state \<Rightarrow> bool" for reserved where
  Answer: "ie_uuid env \<notin> reserved \<Longrightarrow> ai_step reserved ai (snd (api_new_installation env header param seen ai))"
| List_Installations: "ai_step reserved ai (snd (list_installations ai))"
| Delete_Installation: "ai_step reserved ai (snd (delete_installation uuid ai))"
| Post_Hook: "ai_step reserved ai (snd (handle_post_hook uuid token info ai))"
| Create_Prepared: "i32_counters (pr_template_counters config) \<Longrightarrow> ai_step reserved ai (snd (create_prepared_answer env config root_password ai))"
| Update_Prepared: "\<forall>m. up_template_counters u = Some m \<longrightarrow> i32_counters m \<Longrightarrow>
    ai_step reserved ai (snd (update_prepared_answer env i u root_password delete digest ai))"
| Delete_Prepared: "ai_step reserved ai (snd (delete_prepared_answer i ai))"
| Create_Token: "ai_step reserved ai (snd (create_token env i comment enabled expire_at ai))"
| Update_Token: "ai_step reserved ai (snd (update_token env i tu del regenerate digest ai))"
| Delete_Token: "ai_step reserved ai (snd (delete_token i seen ai))"

lemma list_installations_state: "snd (list_installations ai) = migrate_legacy_installations_file ai"
  by (simp add: list_installations_def read_installations_def Let_def)

lemma delete_installation_inv: "ai_inv ai \<Longrightarrow> ai_inv (snd (delete_installation uuid ai))"
  by (auto simp: delete_installation_def remove_installation_def ai_inv_def installs_ok_def sc.get_remove sc.wf_remove split: if_splits)

lemma delete_prepared_inv: "ai_inv ai \<Longrightarrow> ai_inv (snd (delete_prepared_answer i ai))"
  by (simp add: delete_prepared_answer_def ai_inv_def prepared_ok_remove)

lemma ai_step_inv: "ai_step reserved ai ai' \<Longrightarrow> ai_inv ai \<Longrightarrow> ai_inv ai'"
proof (induction rule: ai_step.induct)
  case (List_Installations ai) then show ?case by (simp add: list_installations_state migrate_ok)
next
  case (Create_Token ai env i comment enabled expire_at) then show ?case using token_change_inv [OF create_token_change] by blast
next
  case (Update_Token ai env i tu del regenerate digest) then show ?case using token_change_inv [OF update_token_change] by blast
next
  case (Delete_Token ai i seen) then show ?case using token_change_inv [OF delete_token_change] by blast
qed (simp_all add: api_new_installation_inv delete_installation_inv post_hook_inv create_prepared_inv update_prepared_inv delete_prepared_inv)

definition ai_start :: "ai_state \<Rightarrow> bool" where
  "ai_start ai \<longleftrightarrow> ai_prepared ai = [] \<and> ai_tokens ai = [] \<and> ai_shadow ai = Map.empty \<and> ai_installs ai = [] \<and> legacy_ok (ai_legacy ai)"

lemma ai_start_inv: "ai_start ai \<Longrightarrow> ai_inv ai"
  by (simp add: ai_start_def ai_inv_def prepared_ok_def answers_ok_def defaults_def tokens_ok_def installs_ok_def sc_wf_def sc_get_def)

interpretation installer: invariant_system ai_start "ai_step {}" ai_inv
  by unfold_locales (auto intro: ai_start_inv ai_step_inv)

text \<open>C27. After every sequence of calls each prepared answer is stored under its id, authorizes some token, has a root password, is the
  default or has a filter, and has properly named counters within the range of a 32-bit integer; at most one is the
  default; secrets exist for known tokens only; and only installations under way hold a token for the post hook.\<close>

theorem installer_reachable_wf:
  assumes "ai_start s" and "(ai_step {})\<^sup>*\<^sup>* s ai"
  shows "(\<forall>i p. sc_get (ai_prepared ai) i = Some p \<longrightarrow> pr_id p = i \<and> pr_authorized_tokens p \<noteq> [] \<and> pr_root_password_hashed p \<noteq> None
        \<and> (pr_is_default p \<or> pr_target_filter p \<noteq> [])
        \<and> (\<forall>(k, v) \<in> set (pr_template_counters p). template_counter_name k \<and> 0 \<le> v \<and> v \<le> i32_max))
    \<and> (\<forall>i j p q. sc_get (ai_prepared ai) i = Some p \<and> pr_is_default p \<and> sc_get (ai_prepared ai) j = Some q \<and> pr_is_default q \<longrightarrow> i = j)
    \<and> (\<forall>i. ai_shadow ai i \<noteq> None \<longrightarrow> (\<exists>t. sc_get (ai_tokens ai) i = Some t \<and> at_id t = i))
    \<and> (\<forall>u inst. sc_get (ai_installs ai) u = Some inst \<and> in_post_hook_token inst \<noteq> None \<longrightarrow> in_uuid inst = u \<and> in_status inst = In_Progress)"
proof -
  have inv: "ai_inv ai" using installer.reachable_inv assms by blast
  have a: "answers_ok (sc_get (ai_prepared ai))" using inv by (simp add: ai_inv_def prepared_ok_def)
  have "pr_id p = i \<and> answer_ok p" if "sc_get (ai_prepared ai) i = Some p" for i p using a that by (simp add: answers_ok_def)
  moreover have "i = j" if "sc_get (ai_prepared ai) i = Some p \<and> pr_is_default p \<and> sc_get (ai_prepared ai) j = Some q \<and> pr_is_default q" for i j p q
    using a that by (auto simp: answers_ok_def defaults_def)
  moreover have "\<exists>t. sc_get (ai_tokens ai) i = Some t \<and> at_id t = i" if "ai_shadow ai i \<noteq> None" for i
    using inv that unfolding ai_inv_def tokens_ok_def by auto
  moreover have "in_uuid inst = u \<and> in_status inst = In_Progress" if "sc_get (ai_installs ai) u = Some inst \<and> in_post_hook_token inst \<noteq> None" for u inst
    using inv that by (auto simp: ai_inv_def installs_ok_def install_ok_def)
  ultimately show ?thesis unfolding answer_ok_def counters_ok_def by blast
qed

section \<open>The post hook\<close>

definition settled :: "string \<Rightarrow> json \<Rightarrow> ai_state \<Rightarrow> bool" where
  "settled uuid info ai \<longleftrightarrow> ai_legacy ai = No_Legacy \<and> (case sc_get (ai_installs ai) uuid of
     None \<Rightarrow> True | Some inst \<Rightarrow> in_status inst = Install_Finished \<and> in_post_hook_data inst = Some info)"

lemma migrate_settled: "settled uuid info ai \<Longrightarrow> migrate_legacy_installations_file ai = ai"
  by (simp add: settled_def migrate_legacy_installations_file_def)

lemma settled_files: "ai_installs ai' = ai_installs ai \<Longrightarrow> ai_legacy ai' = ai_legacy ai \<Longrightarrow> settled uuid info ai' = settled uuid info ai"
  by (simp add: settled_def)

lemma settled_save: "settled uuid info ai \<Longrightarrow> in_uuid inst \<noteq> uuid \<Longrightarrow> settled uuid info (save_installation inst ai)"
  by (simp add: settled_def save_installation_def sc.get_insert)

lemma settled_token_change: "token_change ai ai' \<Longrightarrow> settled uuid info ai' = settled uuid info ai"
  by (rule settled_files) (simp_all add: token_change_def)

lemma new_installation_files:
  "ai_legacy (snd (new_installation env token sysinfo seen ai)) = ai_legacy ai \<and>
   (ai_installs (snd (new_installation env token sysinfo seen ai)) = ai_installs ai
    \<or> (\<exists>inst. in_uuid inst = ie_uuid env \<and> ai_installs (snd (new_installation env token sysinfo seen ai)) = sc_insert (ie_uuid env) inst (ai_installs ai)))"
proof -
  obtain r ai' where n: "new_installation env token sysinfo seen ai = (r, ai')" by (meson surj_pair)
  have u: "in_uuid (unanswered_installation env sysinfo) = ie_uuid env" "\<And>c. in_uuid (answered_installation env sysinfo c) = ie_uuid env"
    by (simp_all add: unanswered_installation_def answered_installation_def)
  from n show ?thesis by (cases rule: new_installation_cases) (use n u in \<open>auto simp: save_installation_def\<close>)
qed

lemma api_new_installation_files:
  "ai_legacy (snd (api_new_installation env header param seen ai)) = ai_legacy ai \<and>
   (ai_installs (snd (api_new_installation env header param seen ai)) = ai_installs ai
    \<or> (\<exists>inst. in_uuid inst = ie_uuid env \<and> ai_installs (snd (api_new_installation env header param seen ai)) = sc_insert (ie_uuid env) inst (ai_installs ai)))"
proof (cases "verify_answer_authorization_header env header ai")
  case (Some token)
  show ?thesis
  proof (cases "ie_fetch_data env param")
    case data: (Some sysinfo)
    obtain r ai1 where n: "new_installation env token sysinfo seen ai = (r, ai1)" by (meson surj_pair)
    have "snd (api_new_installation env header param seen ai) = ai1"
      using Some data n by (simp add: api_new_installation_def split: sum.split)
    then show ?thesis using new_installation_files [of env token sysinfo seen ai] n by simp
  qed (simp add: api_new_installation_def Some)
qed (simp add: api_new_installation_def)

lemma create_prepared_settled: "settled uuid info (snd (create_prepared_answer env config rp ai)) = settled uuid info ai"
proof -
  obtain r ai' where h: "create_prepared_answer env config rp ai = (r, ai')" by (meson surj_pair)
  then have "settled uuid info ai' = settled uuid info ai"
  proof (cases rule: create_prepared_cases)
    case failed then show ?thesis by (simp add: settled_token_change)
  next
    case (created ai1 c t)
    then show ?thesis using settled_token_change [OF created(1)] settled_files [of ai' ai1] by simp
  qed
  then show ?thesis using h by simp
qed

lemma update_prepared_settled:
  assumes "ai_inv ai"
  shows "settled uuid info (snd (update_prepared_answer env i u rp del dg ai)) = settled uuid info ai"
proof -
  obtain r ai' where h: "update_prepared_answer env i u rp del dg ai = (r, ai')" by (meson surj_pair)
  have tok: "pr_authorized_tokens p \<noteq> []" if "sc_get (ai_prepared ai) i = Some p" for p
    using assms that by (auto simp: ai_inv_def prepared_ok_def answers_ok_def answer_ok_def)
  have "settled uuid info ai' = settled uuid info ai"
  proof (cases rule: update_prepared_cases [OF h tok])
    case (2 err) then show ?thesis by (simp add: settled_token_change)
  next
    case updated: (3 ai1 p c t p')
    then show ?thesis using settled_token_change [OF updated(1)] settled_files [of ai' ai1] by simp
  qed
  then show ?thesis using h by simp
qed

lemma settled_step:
  assumes "ai_step {uuid} ai ai'" and "ai_inv ai" and "settled uuid info ai"
  shows "settled uuid info ai'"
  using assms
proof (induction rule: ai_step.induct)
  case (Answer env ai header param seen)
  then show ?case using api_new_installation_files [of env header param seen ai] by (auto simp: settled_def sc.get_insert)
next
  case (List_Installations ai) then show ?case by (simp add: list_installations_state migrate_settled)
next
  case (Delete_Installation ai u)
  then show ?case by (auto simp: delete_installation_def remove_installation_def settled_def sc.get_remove split: if_splits)
next
  case (Post_Hook ai u token i)
  obtain r ai' where h: "handle_post_hook u token i ai = (r, ai')" by (meson surj_pair)
  from Post_Hook.prems(1) h have "settled uuid info ai'"
  proof (cases rule: post_hook_cases)
    case rejected then show ?thesis using Post_Hook.prems(2) by (simp add: migrate_settled)
  next
    case (accepted inst)
    have ai: "migrate_legacy_installations_file ai = ai" using Post_Hook.prems(2) by (rule migrate_settled)
    have "u \<noteq> uuid"
    proof
      assume "u = uuid"
      then have "in_status inst = Install_Finished" using accepted(2) Post_Hook.prems(2) ai by (simp add: settled_def)
      then show False using accepted(3) by (simp add: awaits_hook_def)
    qed
    then show ?thesis using accepted(3,6) Post_Hook.prems(2) ai by (auto simp: awaits_hook_def intro!: settled_save)
  qed
  then show ?case using h by simp
next
  case (Create_Prepared config ai env rp)
  then show ?case by (simp add: create_prepared_settled)
next
  case (Update_Prepared u ai env i rp del dg)
  then show ?case by (simp add: update_prepared_settled)
next
  case (Delete_Prepared ai i)
  then show ?case by (simp add: delete_prepared_answer_def settled_def)
next
  case (Create_Token ai env i comment enabled expire_at) then show ?case using settled_token_change [OF create_token_change] by blast
next
  case (Update_Token ai env i tu del regenerate digest) then show ?case using settled_token_change [OF update_token_change] by blast
next
  case (Delete_Token ai i seen) then show ?case using settled_token_change [OF delete_token_change] by blast
qed

lemma settled_run: "(ai_step {uuid})\<^sup>*\<^sup>* ai ai' \<Longrightarrow> ai_inv ai \<Longrightarrow> settled uuid info ai \<Longrightarrow> ai_inv ai' \<and> settled uuid info ai'"
  by (induction rule: rtranclp_induct) (auto intro: ai_step_inv settled_step)

lemma settled_rejects: "ai_inv ai \<Longrightarrow> settled uuid info ai \<Longrightarrow> fst (handle_post_hook uuid token i ai) = Inl (Ai_Not_Found uuid)"
proof -
  assume a: "ai_inv ai" "settled uuid info ai"
  obtain r ai' where h: "handle_post_hook uuid token i ai = (r, ai')" by (meson surj_pair)
  from a(1) h show ?thesis
  proof (cases rule: post_hook_cases)
    case (accepted inst)
    then show ?thesis using a(2) migrate_settled [OF a(2)] by (simp add: settled_def awaits_hook_def)
  qed (simp add: h)
qed

text \<open>C29. The post hook of an installation is accepted at most once, and only with the token issued for it: it was under way and its
  token was presented, and whatever is called afterwards, no further hook for the same installation is accepted and its
  recorded data stays as it is until the entry is deleted.\<close>

theorem post_hook_once:
  assumes inv: "ai_inv ai" and hook: "handle_post_hook uuid token info ai = (Inr u, ai1)" and later: "(ai_step {uuid})\<^sup>*\<^sup>* ai1 ai2"
  shows "(\<exists>inst. sc_get (ai_installs (migrate_legacy_installations_file ai)) uuid = Some inst \<and> in_status inst = In_Progress
        \<and> in_post_hook_token inst = Some token \<and> token \<noteq> [])
    \<and> (\<forall>token' info'. fst (handle_post_hook uuid token' info' ai2) = Inl (Ai_Not_Found uuid))
    \<and> (\<forall>inst. sc_get (ai_installs ai2) uuid = Some inst \<longrightarrow> in_status inst = Install_Finished \<and> in_post_hook_data inst = Some info)"
proof -
  have inv1: "ai_inv ai1" using post_hook_inv [OF inv, of uuid token info] hook by simp
  from inv hook obtain inst where i: "sc_get (ai_installs (migrate_legacy_installations_file ai)) uuid = Some inst" "awaits_hook uuid inst"
    "in_post_hook_token inst = Some token" "token \<noteq> []"
    "ai1 = save_installation (inst\<lparr>in_status := Install_Finished, in_post_hook_data := Some info, in_post_hook_token := None\<rparr>)
         (migrate_legacy_installations_file ai)"
    by (cases rule: post_hook_cases) auto
  have "ai_legacy (migrate_legacy_installations_file ai) = No_Legacy"
    by (simp add: migrate_legacy_installations_file_def split: legacy_file.split)
  then have "settled uuid info ai1" using i(2) by (simp add: i(5) settled_def save_installation_def awaits_hook_def sc.get_insert)
  then have s2: "ai_inv ai2" "settled uuid info ai2" using settled_run [OF later inv1] by auto
  show ?thesis using i settled_rejects [OF s2] s2(2) by (auto simp: settled_def awaits_hook_def)
qed

section \<open>New installations\<close>

text \<open>The text fields of an answer that templates fill in.\<close>

definition rendered_texts :: "answer_config \<Rightarrow> string list" where
  "rendered_texts a = an_mailto a # (case an_fqdn a of Fqdn_Simple s \<Rightarrow> [s] | Fqdn_From_Dhcp \<Rightarrow> [])
     @ (case an_network a of Net_From_Answer cidr dns gateway _ _ \<Rightarrow> [cidr, dns, gateway] | Net_From_Dhcp _ \<Rightarrow> [])"

lemma render_no_control: "render env ctx name t = Inr s \<Longrightarrow> \<not> list_ex is_control s"
  by (auto simp: render_def split: option.splits if_splits)

lemma required_address_no_control:
  assumes "required_address env ctx name v parse = Inr s" and "\<And>x y. parse x = Inr y \<Longrightarrow> y = x"
  shows "\<not> list_ex is_control s"
  using assms by (auto simp: required_address_def and_then_Inr_iff split: option.splits dest: render_no_control)

lemma parse_as_same: "parse_as valid name x = Inr y \<Longrightarrow> y = x"
  by (auto simp: parse_as_def split: if_splits)

lemma render_network_no_control:
  assumes "render_network env ctx conf = Inr (Net_From_Answer cidr dns gateway f pin)"
  shows "\<not> list_ex is_control cidr" "\<not> list_ex is_control dns" "\<not> list_ex is_control gateway"
proof -
  have a: "required_address env ctx ''cidr'' (pr_cidr conf)
      (\<lambda>s. if CHR ''/'' \<notin> set s then Inl (Ai_Bad_Address ''cidr'') else parse_as (ie_is_cidr env) ''cidr'' s) = Inr cidr"
    "required_address env ctx ''dns'' (pr_dns conf) (parse_as (ie_is_ip env) ''dns'') = Inr dns"
    "required_address env ctx ''gateway'' (pr_gateway conf) (parse_as (ie_is_ip env) ''gateway'') = Inr gateway"
    using assms by (auto simp: render_network_def and_then_Inr_iff Let_def split: if_splits)
  show "\<not> list_ex is_control cidr"
    by (rule required_address_no_control [OF a(1)]) (auto split: if_splits dest: parse_as_same)
  show "\<not> list_ex is_control dns" "\<not> list_ex is_control gateway"
    using required_address_no_control [OF a(2)] required_address_no_control [OF a(3)] parse_as_same by blast+
qed

lemma rendered_single_line:
  assumes "render_prepared_config env conf sysinfo = Inr a" and "s \<in> set (rendered_texts a)"
  shows "\<not> list_ex is_control s"
proof -
  let ?ctx = "render_context conf sysinfo"
  obtain fqdn where f: "(if pr_use_dhcp_fqdn conf then Inr Fqdn_From_Dhcp else and_then (render env ?ctx ''fqdn'' (pr_fqdn conf)) (\<lambda>fqdn.
        if ie_is_fqdn env fqdn then Inr (Fqdn_Simple fqdn) else Inl (Ai_Bad_Address ''fqdn''))) = Inr (an_fqdn a)"
    "render env ?ctx ''mailto'' (pr_mailto conf) = Inr (an_mailto a)" "render_network env ?ctx conf = Inr (an_network a)"
    using assms(1) by (auto simp: render_prepared_config_def and_then_Inr_iff Let_def)
  have "\<not> list_ex is_control x" if "an_fqdn a = Fqdn_Simple x" for x
    using f(1) that by (auto simp: and_then_Inr_iff split: if_splits dest: render_no_control)
  moreover have "\<not> list_ex is_control x" if "an_network a = Net_From_Answer cidr dns gateway fl pin" "x \<in> {cidr, dns, gateway}" for cidr dns gateway fl pin x
    using render_network_no_control [OF f(3) [unfolded that(1)]] that(2) by auto
  ultimately show ?thesis using assms(2) render_no_control [OF f(2)]
    by (cases "an_fqdn a"; cases "an_network a") (auto simp: rendered_texts_def)
qed

lemma rendered_texts_hook: "rendered_texts (inject_post_hook env config a) = rendered_texts a"
  by (simp add: rendered_texts_def inject_post_hook_def split: option.split)

text \<open>A request that is answered was authenticated by a token that the chosen answer authorizes; no text filled in by a template
  contains a control character; the installation is recorded under its id, the counters of the chosen answer, and of no
  other, advance by one without overflow, and tokens and secrets are untouched.\<close>

theorem answer_request_effect:
  assumes inv: "ai_inv ai" and ok: "api_new_installation env header param (ai_prepared ai) ai = (Http_Ok answer, ai')"
  shows "\<exists>token sysinfo p. verify_answer_authorization_header env header ai = Some token
    \<and> ie_fetch_data env param = Some sysinfo \<and> find_config env token sysinfo (ai_prepared ai) = Some p \<and> token \<in> set (pr_authorized_tokens p)
    \<and> (\<forall>s \<in> set (rendered_texts answer). \<not> list_ex is_control s)
    \<and> sc_get (ai_installs ai') (ie_uuid env) = Some (answered_installation env sysinfo p)
    \<and> sc_get (ai_prepared ai') = (sc_get (ai_prepared ai))(pr_id p \<mapsto> next_counters p)
    \<and> ai_tokens ai' = ai_tokens ai \<and> ai_shadow ai' = ai_shadow ai"
proof -
  obtain token sysinfo where t: "verify_answer_authorization_header env header ai = Some token" "ie_fetch_data env param = Some sysinfo"
    "new_installation env token sysinfo (ai_prepared ai) ai = (Inr answer, ai')"
    using ok by (auto simp: api_new_installation_def split: option.splits sum.splits prod.splits)
  from t(3) obtain p a where p: "answer = inject_post_hook env p a" "find_config env token sysinfo (ai_prepared ai) = Some p"
    "render_prepared_config env p sysinfo = Inr a"
    "ai' = save_installation (answered_installation env sysinfo p) (ai\<lparr>ai_prepared := sc_modify (pr_id p) next_counters (ai_prepared ai)\<rparr>)"
    by (cases rule: new_installation_cases) auto
  have wf: "sc_wf (ai_prepared ai)" using inv by (simp add: ai_inv_def prepared_ok_def)
  obtain k where k: "(k, p) \<in> set (ai_prepared ai)" "authorized token p" using find_config_in [OF p(2)] by auto
  then have "sc_get (ai_prepared ai) k = Some p" using wf by (simp add: sc.get_iter)
  moreover from this have "pr_id p = k" using inv by (auto simp: ai_inv_def prepared_ok_def answers_ok_def)
  ultimately have get: "sc_get (ai_prepared ai) (pr_id p) = Some p" by simp
  have texts: "\<forall>s \<in> set (rendered_texts answer). \<not> list_ex is_control s"
    using rendered_single_line [OF p(3)] by (simp add: p(1) rendered_texts_hook)
  have "sc_get (ai_installs ai') (ie_uuid env) = Some (answered_installation env sysinfo p)"
    by (simp add: p(4) save_installation_def sc.get_insert answered_installation_def)
  moreover have "sc_get (ai_prepared ai') = (sc_get (ai_prepared ai))(pr_id p \<mapsto> next_counters p)"
    using get by (simp add: p(4) save_installation_def sc.get_modify)
  moreover have "ai_tokens ai' = ai_tokens ai" "ai_shadow ai' = ai_shadow ai" by (simp_all add: p(4) save_installation_def)
  ultimately show ?thesis using t(1,2) p(2) k(2) texts unfolding authorized_def by blast
qed

section \<open>A concrete installation server\<close>

definition ai_empty :: ai_state where
  "ai_empty = \<lparr>ai_prepared = [], ai_tokens = [], ai_shadow = Map.empty, ai_installs = [], ai_legacy = No_Legacy\<rparr>"

definition ai_env0 :: ai_env where
  "ai_env0 = \<lparr>ie_now = 100, ie_user = ''root@pam'', ie_uuid = ''u1'', ie_hook_token = ''h1'', ie_token_suffix = ''0f'', ie_secret = ''s1'',
     ie_encrypt = (\<lambda>s. Some (''$'' @ s)), ie_verify = (\<lambda>s h. h = ''$'' @ s), ie_prepared_modified = (\<lambda>_ _. False),
     ie_tokens_modified = (\<lambda>_ _. False), ie_glob = (\<lambda>g. Some (\<lambda>v. v = g)), ie_pointer = (\<lambda>v k. jget v k),
     ie_render = (\<lambda>t _. Some t), ie_is_fqdn = (\<lambda>_. True), ie_is_cidr = (\<lambda>_. True), ie_is_ip = (\<lambda>_. True), ie_fetch_data = Some\<rparr>"

definition config0 :: prepared where
  "config0 = \<lparr>pr_id = ''lab'', pr_authorized_tokens = [], pr_is_default = True, pr_target_filter = [], pr_country = ''at'', pr_fqdn = ''a.b'',
     pr_use_dhcp_fqdn = False, pr_keyboard = ''de'', pr_mailto = ''a@b'', pr_timezone = ''UTC'', pr_root_password_hashed = None,
     pr_reboot_on_error = False, pr_reboot_mode = ''reboot'', pr_root_ssh_keys = [], pr_use_dhcp_network = True, pr_cidr = None,
     pr_gateway = None, pr_dns = None, pr_netdev_filter = [], pr_netif_name_pinning_enabled = False, pr_filesystem = Fs_Ext4 [],
     pr_disk_mode = Disk_Fixed, pr_disk_list = [''sda''], pr_disk_filter = [], pr_disk_filter_match = None,
     pr_post_hook_base_url = Some ''https://pdm'', pr_post_hook_cert_fp = None, pr_template_counters = [(''n'', 1)], pr_subscription_key = None\<rparr>"

definition ai_created :: ai_state where
  "ai_created = snd (create_prepared_answer ai_env0 config0 (Some ''pw'') ai_empty)"

definition ai_answered :: ai_state where
  "ai_answered = snd (api_new_installation ai_env0 ''Bearer lab-0f:s1'' (JObj []) (ai_prepared ai_created) ai_created)"

lemma ai_empty_start: "ai_start ai_empty"
  by (simp add: ai_start_def ai_empty_def legacy_ok_def)

lemma i32_config0: "i32_counters (pr_template_counters config0)"
  by (simp add: i32_counters_def config0_def i32_max_def)

lemma ai_created_step: "ai_step reserved ai_empty ai_created"
  unfolding ai_created_def by (rule ai_step.Create_Prepared [OF i32_config0])

lemma ai_created_inv: "ai_inv ai_created"
  using ai_step_inv [OF ai_created_step ai_start_inv [OF ai_empty_start]] .

lemma ai_answered_inv: "ai_inv ai_answered"
  unfolding ai_answered_def using ai_created_inv by (rule api_new_installation_inv)

lemma lab_created: "\<exists>p. sc_get (ai_prepared ai_created) ''lab'' = Some p"
proof -
  have "sc_get (ai_prepared ai_created) ''lab'' \<noteq> None" by code_simp
  then show ?thesis by blast
qed

theorem installer_reachable_wf_witness:
  "\<exists>p. (ai_step {})\<^sup>*\<^sup>* ai_empty ai_created \<and> sc_get (ai_prepared ai_created) ''lab'' = Some p
     \<and> pr_id p = ''lab'' \<and> pr_authorized_tokens p \<noteq> [] \<and> pr_root_password_hashed p \<noteq> None"
proof -
  have run: "(ai_step {})\<^sup>*\<^sup>* ai_empty ai_created" using ai_created_step by (rule r_into_rtranclp)
  obtain p where p: "sc_get (ai_prepared ai_created) ''lab'' = Some p" using lab_created by blast
  show ?thesis using installer_reachable_wf [OF ai_empty_start run] run p by blast
qed

lemma answer0: "\<exists>answer. api_new_installation ai_env0 ''Bearer lab-0f:s1'' (JObj []) (ai_prepared ai_created) ai_created = (Http_Ok answer, ai_answered)"
proof -
  have "case fst (api_new_installation ai_env0 ''Bearer lab-0f:s1'' (JObj []) (ai_prepared ai_created) ai_created) of Http_Ok _ \<Rightarrow> True | _ \<Rightarrow> False"
    by code_simp
  then show ?thesis unfolding ai_answered_def
    by (cases "api_new_installation ai_env0 ''Bearer lab-0f:s1'' (JObj []) (ai_prepared ai_created) ai_created") (auto split: http_answer.splits)
qed

theorem answer_request_effect_witness:
  "\<exists>answer. api_new_installation ai_env0 ''Bearer lab-0f:s1'' (JObj []) (ai_prepared ai_created) ai_created = (Http_Ok answer, ai_answered)
    \<and> list_all (\<lambda>s. \<not> list_ex is_control s) (rendered_texts answer) \<and> ai_tokens ai_answered = ai_tokens ai_created"
proof -
  obtain answer where a: "api_new_installation ai_env0 ''Bearer lab-0f:s1'' (JObj []) (ai_prepared ai_created) ai_created = (Http_Ok answer, ai_answered)"
    using answer0 by blast
  show ?thesis using answer_request_effect [OF ai_created_inv a] a unfolding list_all_iff by blast
qed

theorem post_hook_once_witness:
  "fst (handle_post_hook ''u1'' ''h1'' JNull ai_answered) = Inr () \<and>
   fst (handle_post_hook ''u1'' ''h1'' JNull (snd (handle_post_hook ''u1'' ''h1'' JNull ai_answered))) = Inl (Ai_Not_Found ''u1'')"
proof -
  have "case fst (handle_post_hook ''u1'' ''h1'' JNull ai_answered) of Inr _ \<Rightarrow> True | Inl _ \<Rightarrow> False" by code_simp
  then have ok: "fst (handle_post_hook ''u1'' ''h1'' JNull ai_answered) = Inr ()" by (auto split: sum.splits)
  then have h: "handle_post_hook ''u1'' ''h1'' JNull ai_answered = (Inr (), snd (handle_post_hook ''u1'' ''h1'' JNull ai_answered))" by (metis prod.collapse)
  show ?thesis using post_hook_once [OF ai_answered_inv h rtranclp.rtrancl_refl] ok by blast
qed

theorem token_secret_exact_witness:
  "verify_answer_authorization_header ai_env0 (''Bearer '' @ ''tok'' @ '':'' @ ''s1'') (snd (create_token ai_env0 ''tok'' None None None ai_empty)) = Some ''tok''"
proof -
  let ?t = "\<lparr>at_id = ''tok'', at_created_by = ''root@pam'', at_comment = None, at_enabled = None, at_expire_at = None\<rparr>"
  have c: "create_token ai_env0 ''tok'' None None None ai_empty = (Inr (?t, ''s1''), snd (create_token ai_env0 ''tok'' None None None ai_empty))"
    by (simp add: create_token_def add_token_def ai_env0_def ai_empty_def sc_get_def Let_def)
  have "\<forall>s h. ie_encrypt ai_env0 s = Some h \<longrightarrow> (\<forall>x. ie_verify ai_env0 x h \<longleftrightarrow> x = s)" by (auto simp: ai_env0_def)
  moreover have "CHR '':'' \<notin> set ''tok''" by simp
  moreover have "tokens_ok (ai_tokens ai_empty)" by (simp add: tokens_ok_def ai_empty_def sc_wf_def sc_get_def)
  ultimately show ?thesis using token_secret_exact [of ai_env0 ai_env0 "''tok''" ai_empty None None None ?t "''s1''"] c
    by (simp add: is_active_def)
qed

end
