(* ===== verification/Remote_Config.thy ===== *)
theory Remote_Config
  imports Section_Config Subscription_Types "HOL-Library.Word"
begin

unbundle bit_operations_syntax

text \<open>
  The configured remotes: the two files behind them with the secrets kept apart (\<open>lib/pdm-config/src/remotes.rs\<close>), the
  filters over them, and the handlers of \<open>server/src/api/remotes/mod.rs\<close> that read or update an entry. Adding and
  removing remotes follows in \<open>Remote_Admin\<close>, after the registry it also changes.
\<close>

section \<open>The files\<close>

record remote_shadow =
  sh_ty :: remote_type
  sh_id :: string
  sh_token :: string

record remote_files =
  rf_config :: "remote section_config"
  rf_shadow :: "remote_shadow section_config"

text \<open>Which of the two writes fails.\<close>

datatype write_fault = No_Fault | Shadow_Fault | Config_Fault

datatype remotes_error =
    Rm_Write_Failed | No_Shadow_Entry string | No_Such_Node string | No_Such_Remote string | No_Such_Entry string
  | Entry_Exists string | Rm_Modified | Node_Not_Configured string | No_Token_Name string | Create_Token_Failed string
  | Delete_Token_Failed string | Not_Pve string | Probe_Failed string

definition new_shadow_entries :: "remote section_config \<Rightarrow> remote_shadow list" where
  "new_shadow_entries config =
     fold (\<lambda>(i, r) entries.
       if r_token r \<noteq> ''-'' then entries @ [\<lparr>sh_ty = r_ty r, sh_id = r_id r, sh_token = r_token r\<rparr>] else entries) config []"

definition drop_leftover_shadow :: "remote section_config \<Rightarrow> remote_shadow section_config \<Rightarrow> remote_shadow section_config" where
  "drop_leftover_shadow config shadow =
     fold (\<lambda>i shadow. if i \<in> set (map fst config) then shadow else sc_remove i shadow) (map fst shadow) shadow"

definition add_shadow_entry ::
  "remote_shadow \<Rightarrow> remote section_config \<times> remote_shadow section_config \<Rightarrow> remote section_config \<times> remote_shadow section_config" where
  "add_shadow_entry e = (\<lambda>(config, shadow). (sc_modify (sh_id e) (r_token_update (\<lambda>_. ''-'')) config, sc_insert (sh_id e) e shadow))"

definition save_config :: "write_fault \<Rightarrow> remote section_config \<Rightarrow> remote_files \<Rightarrow> (remotes_error + unit) \<times> remote_files" where
  "save_config fault config rf =
     (let (config', shadow') = fold add_shadow_entry (new_shadow_entries config) (config, drop_leftover_shadow config (rf_shadow rf))
      in case fault of
           Shadow_Fault \<Rightarrow> (Inl Rm_Write_Failed, rf)
         | Config_Fault \<Rightarrow> (Inl Rm_Write_Failed, rf\<lparr>rf_shadow := shadow'\<rparr>)
         | No_Fault \<Rightarrow> (Inr (), \<lparr>rf_config = config', rf_shadow = shadow'\<rparr>))"

definition get_secret_token :: "remote \<Rightarrow> remote_files \<Rightarrow> remotes_error + string" where
  "get_secret_token r rf =
     (if r_token r \<noteq> ''-'' then Inr (r_token r)
      else case sc_get (rf_shadow rf) (r_id r) of Some e \<Rightarrow> Inr (sh_token e) | None \<Rightarrow> Inl (No_Shadow_Entry (r_id r)))"

section \<open>Filters over the remotes\<close>

type_synonym privs = "64 word"

definition get_remote :: "remote section_config \<Rightarrow> string \<Rightarrow> remotes_error + remote" where
  "get_remote config i = (case sc_get config i of None \<Rightarrow> Inl (No_Such_Node i) | Some r \<Rightarrow> Inr r)"

definition iter_remote_type :: "remote_type \<Rightarrow> (string \<times> remote) list \<Rightarrow> (string \<times> remote) list" where
  "iter_remote_type ty rs = filter (\<lambda>(_, r). r_ty r = ty) rs"

text \<open>\<open>lookup\<close> answers the privileges of the caller on \<open>/resource/{name}\<close>.\<close>

definition iter_any_privs :: "(string \<Rightarrow> privs) \<Rightarrow> privs \<Rightarrow> (string \<times> remote) list \<Rightarrow> (string \<times> remote) list" where
  "iter_any_privs lookup wanted rs = filter (\<lambda>(name, _). lookup name AND wanted \<noteq> 0) rs"

definition iter_all_privs :: "(string \<Rightarrow> privs) \<Rightarrow> privs \<Rightarrow> (string \<times> remote) list \<Rightarrow> (string \<times> remote) list" where
  "iter_all_privs lookup wanted rs = filter (\<lambda>(name, _). lookup name AND wanted = wanted) rs"

definition name_filter :: "string list \<Rightarrow> (string \<times> remote) list \<Rightarrow> (string \<times> remote) list" where
  "name_filter names rs = filter (\<lambda>(_, r). r_id r \<in> set names) rs"

definition into_remotes :: "(string \<times> remote) list \<Rightarrow> remote list" where
  "into_remotes rs = map snd rs"

definition into_names :: "(string \<times> remote) list \<Rightarrow> string list" where
  "into_names rs = map fst rs"

section \<open>Handlers that read or update\<close>

definition list_remotes :: "privs \<Rightarrow> (string \<Rightarrow> privs) \<Rightarrow> remote section_config \<Rightarrow> remote list" where
  "list_remotes top_privs lookup config =
     (let top_level_allowed = (0 \<noteq> top_privs)
      in List.map_filter (\<lambda>(i, r). if top_level_allowed \<or> 0 \<noteq> lookup i then Some (r\<lparr>r_token := []\<rparr>) else None) config)"

definition list_pve_remotes :: "remote section_config \<Rightarrow> string list" where
  "list_pve_remotes config = into_names (iter_remote_type Remote_Pve config)"

definition remote_config :: "string \<Rightarrow> remote_files \<Rightarrow> remotes_error + remote" where
  "remote_config i rf = and_then (get_remote (rf_config rf) i) (\<lambda>r. Inr (r\<lparr>r_token := []\<rparr>))"

definition pve_get_remote :: "remote section_config \<Rightarrow> string \<Rightarrow> remotes_error + remote" where
  "pve_get_remote config i =
     and_then (get_remote config i) (\<lambda>r. if r_ty r \<noteq> Remote_Pve then Inl (Not_Pve i) else Inr r)"

datatype deletable_property = Delete_Web_Url

record remote_updater =
  rup_nodes :: "string list option"
  rup_authid :: "string option"
  rup_token :: "string option"
  rup_web_url :: "string option"

definition apply_updater :: "deletable_property list option \<Rightarrow> remote_updater \<Rightarrow> remote \<Rightarrow> remote" where
  "apply_updater delete u r =
     (let r = (case delete of
                 None \<Rightarrow> r
               | Some ps \<Rightarrow> fold (\<lambda>p r. case p of Delete_Web_Url \<Rightarrow> r\<lparr>r_web_url := None\<rparr>) ps r);
          r = (case rup_nodes u of None \<Rightarrow> r | Some v \<Rightarrow> r\<lparr>r_nodes := v\<rparr>);
          r = (case rup_authid u of None \<Rightarrow> r | Some v \<Rightarrow> r\<lparr>r_authid := v\<rparr>);
          r = (case rup_token u of None \<Rightarrow> r | Some v \<Rightarrow> r\<lparr>r_token := v\<rparr>)
      in if rup_web_url u \<noteq> None then r\<lparr>r_web_url := rup_web_url u\<rparr> else r)"

text \<open>\<open>sha\<close> is the digest of the file's content, \<open>digest\<close> what the caller saw.\<close>

definition update_remote ::
  "(remote section_config \<Rightarrow> string) \<Rightarrow> write_fault \<Rightarrow> string \<Rightarrow> remote_updater \<Rightarrow> deletable_property list option \<Rightarrow> string option \<Rightarrow>
   remote_files \<Rightarrow> (remotes_error + unit) \<times> remote_files" where
  "update_remote sha fault i u delete digest rf =
     (if (case digest of None \<Rightarrow> False | Some d \<Rightarrow> d \<noteq> sha (rf_config rf)) then (Inl Rm_Modified, rf)
      else case sc_get (rf_config rf) i of
             None \<Rightarrow> (Inl (No_Such_Remote i), rf)
           | Some _ \<Rightarrow> save_config fault (sc_modify i (apply_updater delete u) (rf_config rf)) rf)"

text \<open>\<open>hostname\<close> is the host part of a configured node, \<open>probe\<close> the TLS handshake.\<close>

definition probe_remote_certificate ::
  "(string \<Rightarrow> string) \<Rightarrow> (remote_type \<Rightarrow> string \<Rightarrow> string + 'o) \<Rightarrow> string \<Rightarrow> string \<Rightarrow> remote_files \<Rightarrow> remotes_error + 'o" where
  "probe_remote_certificate hostname probe i nod rf =
     and_then (get_remote (rf_config rf) i) (\<lambda>r.
       case List.find (\<lambda>n. hostname n = nod) (r_nodes r) of
         None \<Rightarrow> Inl (Node_Not_Configured nod)
       | Some n \<Rightarrow> (case probe (r_ty r) (hostname n) of Inl err \<Rightarrow> Inl (Probe_Failed err) | Inr v \<Rightarrow> Inr v))"

end
