(* ===== verification/Ceph.thy ===== *)
theory Ceph
  imports Remote_Config Namespaced_Cache Json
begin

text \<open>
  Ceph clusters behind the remotes: the types (\<open>lib/pdm-api-types/src/ceph.rs\<close>), the registry file with its unknown keys
  (\<open>lib/pdm-config/src/ceph.rs\<close>), detection (\<open>server/src/ceph/sweep.rs\<close>), access and dispatch
  (\<open>registry.rs\<close>, \<open>dispatch.rs\<close>), the cached status (\<open>cache.rs\<close>) and the handlers
  (\<open>server/src/api/ceph/clusters.rs\<close>).

  The file is the map of its sections, each with its type and value; hash maps are association lists of which the code
  uses lookups only. What remotes answer and whether a client for a remote can be built are parameters.
\<close>

section \<open>Types\<close>

datatype ceph_member_kind = Kind_Pve | Kind_Standalone

datatype ceph_cluster_state = Ceph_Detected | Ceph_Unreachable | Ceph_Gone | Ceph_Tombstoned

record ceph_cluster =
  cc_id :: string
  cc_display_name :: "string option"
  cc_public_network :: "string option"
  cc_cluster_network :: "string option"
  cc_stretch_mode :: "bool option"
  cc_tiebreaker_mon :: "string option"
  cc_state :: "ceph_cluster_state option"
  cc_last_seen_missing :: "i64 option"
  cc_forgotten :: "i64 option"

record ceph_member =
  cm_id :: string
  cm_cluster :: string
  cm_kind :: ceph_member_kind
  cm_remote :: "string option"
  cm_node :: "string option"
  cm_address :: "string option"
  cm_fingerprint :: "string option"
  cm_authid :: "string option"
  cm_site :: "string option"

record ceph_config =
  cf_clusters :: "ceph_cluster section_config"
  cf_members :: "ceph_member section_config"
  cf_extras :: "(string \<times> json) list section_config"

definition empty_ceph :: ceph_config where
  "empty_ceph = \<lparr>cf_clusters = [], cf_members = [], cf_extras = []\<rparr>"

datatype ceph_error =
    Missing_Field string | Bad_Field string | Unexpected_Section string | Ceph_Write_Failed
  | No_Such_Cluster string | No_Cluster_Access string | No_Member_Access string
  | Ceph_Connect remotes_error | Ceph_No_Client | No_Pve_Member | No_Node | Ceph_Status_Failed string | Ceph_Cache ns_cache_error

section \<open>Values of sections\<close>

definition kind_str :: "ceph_member_kind \<Rightarrow> string" where
  "kind_str k = (case k of Kind_Pve \<Rightarrow> ''pve'' | Kind_Standalone \<Rightarrow> ''standalone'')"

definition kind_from :: "json \<Rightarrow> ceph_member_kind option" where
  "kind_from v = (case as_str v of None \<Rightarrow> None
     | Some s \<Rightarrow> if s = ''pve'' then Some Kind_Pve else if s = ''standalone'' then Some Kind_Standalone else None)"

definition state_str :: "ceph_cluster_state \<Rightarrow> string" where
  "state_str s = (case s of Ceph_Detected \<Rightarrow> ''detected'' | Ceph_Unreachable \<Rightarrow> ''unreachable'' | Ceph_Gone \<Rightarrow> ''gone''
     | Ceph_Tombstoned \<Rightarrow> ''tombstoned'')"

definition state_from :: "json \<Rightarrow> ceph_cluster_state option" where
  "state_from v = (case as_str v of None \<Rightarrow> None
     | Some s \<Rightarrow> if s = ''detected'' then Some Ceph_Detected else if s = ''unreachable'' then Some Ceph_Unreachable
                 else if s = ''gone'' then Some Ceph_Gone else if s = ''tombstoned'' then Some Ceph_Tombstoned else None)"

text \<open>The derived conversions: an absent or null value is \<open>None\<close>, \<open>None\<close> is left out.\<close>

definition req_field :: "(json \<Rightarrow> 'a option) \<Rightarrow> string \<Rightarrow> json \<Rightarrow> ceph_error + 'a" where
  "req_field dec k v =
     (case jget v k of None \<Rightarrow> Inl (Missing_Field k)
      | Some w \<Rightarrow> (case dec w of None \<Rightarrow> Inl (Bad_Field k) | Some x \<Rightarrow> Inr x))"

definition opt_field :: "(json \<Rightarrow> 'a option) \<Rightarrow> string \<Rightarrow> json \<Rightarrow> ceph_error + 'a option" where
  "opt_field dec k v =
     (case jget v k of None \<Rightarrow> Inr None | Some JNull \<Rightarrow> Inr None
      | Some w \<Rightarrow> (case dec w of None \<Rightarrow> Inl (Bad_Field k) | Some x \<Rightarrow> Inr (Some x)))"

definition put_field :: "string \<Rightarrow> ('a \<Rightarrow> json) \<Rightarrow> 'a option \<Rightarrow> (string \<times> json) list" where
  "put_field k enc x = (case x of None \<Rightarrow> [] | Some v \<Rightarrow> [(k, enc v)])"

definition cluster_value :: "ceph_cluster \<Rightarrow> json" where
  "cluster_value c = JObj ([(''id'', JStr (cc_id c))] @ put_field ''display-name'' JStr (cc_display_name c)
     @ put_field ''public-network'' JStr (cc_public_network c) @ put_field ''cluster-network'' JStr (cc_cluster_network c)
     @ put_field ''stretch-mode'' JBool (cc_stretch_mode c) @ put_field ''tiebreaker-mon'' JStr (cc_tiebreaker_mon c)
     @ put_field ''state'' (\<lambda>s. JStr (state_str s)) (cc_state c)
     @ put_field ''last-seen-missing'' JNum (cc_last_seen_missing c) @ put_field ''forgotten'' JNum (cc_forgotten c))"

definition cluster_from :: "json \<Rightarrow> ceph_error + ceph_cluster" where
  "cluster_from v =
     and_then (req_field as_str ''id'' v) (\<lambda>i. and_then (opt_field as_str ''display-name'' v) (\<lambda>dn.
     and_then (opt_field as_str ''public-network'' v) (\<lambda>pn. and_then (opt_field as_str ''cluster-network'' v) (\<lambda>cn.
     and_then (opt_field as_bool ''stretch-mode'' v) (\<lambda>sm. and_then (opt_field as_str ''tiebreaker-mon'' v) (\<lambda>tm.
     and_then (opt_field state_from ''state'' v) (\<lambda>st. and_then (opt_field as_signed ''last-seen-missing'' v) (\<lambda>lm.
     and_then (opt_field as_signed ''forgotten'' v) (\<lambda>fg.
       Inr \<lparr>cc_id = i, cc_display_name = dn, cc_public_network = pn, cc_cluster_network = cn, cc_stretch_mode = sm,
            cc_tiebreaker_mon = tm, cc_state = st, cc_last_seen_missing = lm, cc_forgotten = fg\<rparr>)))))))))"

definition member_value :: "ceph_member \<Rightarrow> json" where
  "member_value m = JObj ([(''id'', JStr (cm_id m)), (''cluster'', JStr (cm_cluster m)), (''kind'', JStr (kind_str (cm_kind m)))]
     @ put_field ''remote'' JStr (cm_remote m) @ put_field ''node'' JStr (cm_node m) @ put_field ''address'' JStr (cm_address m)
     @ put_field ''fingerprint'' JStr (cm_fingerprint m) @ put_field ''authid'' JStr (cm_authid m) @ put_field ''site'' JStr (cm_site m))"

text \<open>\<open>authid\<close> is the parser of auth ids.\<close>

definition member_from :: "(string \<Rightarrow> bool) \<Rightarrow> json \<Rightarrow> ceph_error + ceph_member" where
  "member_from authid v =
     and_then (req_field as_str ''id'' v) (\<lambda>i. and_then (req_field as_str ''cluster'' v) (\<lambda>cl.
     and_then (req_field kind_from ''kind'' v) (\<lambda>kd. and_then (opt_field as_str ''remote'' v) (\<lambda>rm.
     and_then (opt_field as_str ''node'' v) (\<lambda>nd. and_then (opt_field as_str ''address'' v) (\<lambda>ad.
     and_then (opt_field as_str ''fingerprint'' v) (\<lambda>fp.
     and_then (opt_field (\<lambda>w. case as_str w of None \<Rightarrow> None | Some s \<Rightarrow> if authid s then Some s else None) ''authid'' v) (\<lambda>au.
     and_then (opt_field as_str ''site'' v) (\<lambda>si.
       Inr \<lparr>cm_id = i, cm_cluster = cl, cm_kind = kd, cm_remote = rm, cm_node = nd, cm_address = ad, cm_fingerprint = fp,
            cm_authid = au, cm_site = si\<rparr>)))))))))"

section \<open>The registry file\<close>

type_synonym ceph_file = "(string \<times> json) section_config"

definition unknown_keys :: "json \<Rightarrow> json \<Rightarrow> (string \<times> json) list option" where
  "unknown_keys raw typed =
     (case (raw, typed) of
        (JObj kvs, JObj known) \<Rightarrow>
          (let extras = filter (\<lambda>(k, _). k \<notin> set (map fst known)) kvs in if extras = [] then None else Some extras)
      | _ \<Rightarrow> None)"

definition keep_extras :: "string \<Rightarrow> (string \<times> json) list option \<Rightarrow> ceph_config \<Rightarrow> ceph_config" where
  "keep_extras i extras cfg = (case extras of None \<Rightarrow> cfg | Some es \<Rightarrow> cfg\<lparr>cf_extras := sc_insert i es (cf_extras cfg)\<rparr>)"

definition read_section :: "(string \<Rightarrow> bool) \<Rightarrow> string \<times> string \<times> json \<Rightarrow> ceph_config \<Rightarrow> ceph_error + ceph_config" where
  "read_section authid = (\<lambda>(i, ty, v) cfg.
     if ty = ''ceph-cluster'' then
       and_then (cluster_from v) (\<lambda>c.
         let cfg = keep_extras i (unknown_keys v (cluster_value c)) cfg
         in Inr (cfg\<lparr>cf_clusters := sc_insert i c (cf_clusters cfg)\<rparr>))
     else if ty = ''ceph-member'' then
       and_then (member_from authid v) (\<lambda>m.
         let cfg = keep_extras i (unknown_keys v (member_value m)) cfg
         in Inr (cfg\<lparr>cf_members := sc_insert i m (cf_members cfg)\<rparr>))
     else Inl (Unexpected_Section ty))"

fun read_sections :: "(string \<Rightarrow> bool) \<Rightarrow> (string \<times> string \<times> json) list \<Rightarrow> ceph_config \<Rightarrow> ceph_error + ceph_config" where
  "read_sections authid [] cfg = Inr cfg"
| "read_sections authid (s # ss) cfg = and_then (read_section authid s cfg) (read_sections authid ss)"

definition untyped_to_typed :: "(string \<Rightarrow> bool) \<Rightarrow> ceph_file \<Rightarrow> ceph_error + ceph_config" where
  "untyped_to_typed authid f = read_sections authid f empty_ceph"

definition merge_extras :: "ceph_config \<Rightarrow> string \<Rightarrow> json \<Rightarrow> json" where
  "merge_extras cfg i v =
     (case (sc_get (cf_extras cfg) i, v) of
        (Some extras, JObj _) \<Rightarrow> fold (\<lambda>(k, e) v. if jget v k = None then jset k e v else v) extras v
      | _ \<Rightarrow> v)"

definition ceph_write :: "ceph_config \<Rightarrow> ceph_file" where
  "ceph_write cfg =
     (let raw = fold (\<lambda>i raw. sc_insert i (''ceph-cluster'', merge_extras cfg i (cluster_value (the (sc_get (cf_clusters cfg) i)))) raw)
                  (sort (map fst (cf_clusters cfg))) []
      in fold (\<lambda>i raw. sc_insert i (''ceph-member'', merge_extras cfg i (member_value (the (sc_get (cf_members cfg) i)))) raw)
           (sort (map fst (cf_members cfg))) raw)"

text \<open>
  \<open>valid\<close> is the check of all sections against their schemas when the file is written; if it fails nothing is replaced.
\<close>

definition ceph_save :: "(ceph_file \<Rightarrow> bool) \<Rightarrow> ceph_config \<Rightarrow> ceph_file \<Rightarrow> (ceph_error + unit) \<times> ceph_file" where
  "ceph_save valid cfg f = (if valid (ceph_write cfg) then (Inr (), ceph_write cfg) else (Inl Ceph_Write_Failed, f))"

section \<open>The typed view\<close>

definition members_of :: "ceph_config \<Rightarrow> string \<Rightarrow> ceph_member list" where
  "members_of cfg cluster = filter (\<lambda>m. cm_cluster m = cluster) (map snd (cf_members cfg))"

definition drop_pve_members_for_remote :: "string \<Rightarrow> ceph_config \<Rightarrow> bool \<times> ceph_config" where
  "drop_pve_members_for_remote rmt cfg =
     (let kept = filter (\<lambda>(_, m). \<not> (cm_kind m = Kind_Pve \<and> cm_remote m = Some rmt)) (cf_members cfg)
      in (length (cf_members cfg) \<noteq> length kept, cfg\<lparr>cf_members := kept\<rparr>))"

definition drop_clusters_without_members :: "ceph_config \<Rightarrow> string list \<times> ceph_config" where
  "drop_clusters_without_members cfg =
     (let alive = map (\<lambda>(_, m). cm_cluster m) (cf_members cfg);
          dropped = filter (\<lambda>i. i \<notin> set alive) (map fst (cf_clusters cfg))
      in (dropped, cfg\<lparr>cf_clusters := fold sc_remove dropped (cf_clusters cfg)\<rparr>))"

end
