(* ===== verification/Ceph_Sweep.thy ===== *)
theory Ceph_Sweep
  imports Ceph
begin

text \<open>
  Detection of Ceph clusters (\<open>server/src/ceph/sweep.rs\<close>), access to them (\<open>registry.rs\<close>), the member a request goes
  through (\<open>dispatch.rs\<close>), the cached status (\<open>cache.rs\<close>) and the handlers (\<open>api/ceph/clusters.rs\<close>).
\<close>

section \<open>The environment\<close>

text \<open>
  Errors of the client library as the probe tells them apart: the server answered, or the request did not get there.
\<close>

datatype ceph_answer = Answer json | Server_Error string | Transport_Error string

text \<open>A percentage as a floating-point number.\<close>

datatype pool_used = Finite rat | Not_Finite

record ceph_env =
  cn_authid :: "string \<Rightarrow> bool"
  cn_valid :: "ceph_file \<Rightarrow> bool"
  cn_cache :: "json cache_env"
  cn_now :: i64
  cn_client :: "remote \<Rightarrow> bool"
  cn_status :: "string \<Rightarrow> ceph_answer"
  cn_pools :: "string \<Rightarrow> string \<Rightarrow> string + (string \<times> pool_used option) list"
  cn_mon_versions :: "string \<Rightarrow> string \<Rightarrow> string + string option list"

section \<open>Cached status\<close>

definition status_key :: "string \<Rightarrow> string" where
  "status_key fsid = ''ceph-status-'' @ fsid"

definition cached_status :: "ceph_env \<Rightarrow> string \<Rightarrow> i64 \<Rightarrow> files \<Rightarrow> ns_cache_error + json option" where
  "cached_status env fsid max_age fs = ns_get (cn_cache env) fs GLOBAL_NAMESPACE (status_key fsid) (Some max_age) (cn_now env)"

definition store_status :: "ceph_env \<Rightarrow> string \<Rightarrow> json \<Rightarrow> files \<Rightarrow> (ns_cache_error + unit) \<times> files" where
  "store_status env fsid status fs = ns_set (cn_cache env) GLOBAL_NAMESPACE (status_key fsid) status (cn_now env) fs"

definition invalidate_status :: "ceph_env \<Rightarrow> string \<Rightarrow> files \<Rightarrow> (ns_cache_error + unit) \<times> files" where
  "invalidate_status env fsid fs = ns_remove (cn_cache env) GLOBAL_NAMESPACE (status_key fsid) fs"

section \<open>Probing\<close>

datatype probe_outcome = Found string "string list" | Probe_Reachable | Probe_Unreachable

definition quorum_nodes :: "json \<Rightarrow> string list" where
  "quorum_nodes status = (case get_array status ''quorum_names'' of None \<Rightarrow> [] | Some names \<Rightarrow> List.map_filter as_str names)"

definition connects :: "ceph_env \<Rightarrow> remote section_config \<Rightarrow> string \<Rightarrow> ceph_error + unit" where
  "connects env remotes rmt =
     (case pve_get_remote remotes rmt of
        Inl err \<Rightarrow> Inl (Ceph_Connect err)
      | Inr r \<Rightarrow> if cn_client env r then Inr () else Inl Ceph_No_Client)"

definition probe_remote :: "ceph_env \<Rightarrow> remote section_config \<Rightarrow> string \<Rightarrow> files \<Rightarrow> probe_outcome \<times> files" where
  "probe_remote env remotes rmt fs =
     (case connects env remotes rmt of
        Inl _ \<Rightarrow> (Probe_Unreachable, fs)
      | Inr _ \<Rightarrow>
          (case cn_status env rmt of
             Server_Error _ \<Rightarrow> (Probe_Reachable, fs)
           | Transport_Error _ \<Rightarrow> (Probe_Unreachable, fs)
           | Answer status \<Rightarrow>
               (case get_str status ''fsid'' of
                  None \<Rightarrow> (Probe_Reachable, fs)
                | Some fsid \<Rightarrow> (Found fsid (quorum_nodes status), snd (store_status env fsid status fs)))))"

type_synonym ceph_found = "(string \<times> string) list section_config"
type_synonym ceph_outcomes = "probe_outcome section_config"

definition add_found :: "string \<Rightarrow> probe_outcome \<Rightarrow> ceph_found \<Rightarrow> ceph_found" where
  "add_found rmt out found =
     (case out of
        Found fsid nodes \<Rightarrow>
          sc_insert fsid ((case sc_get found fsid of None \<Rightarrow> [] | Some ms \<Rightarrow> ms) @ map (Pair rmt) nodes) found
      | _ \<Rightarrow> found)"

fun probe_all :: "ceph_env \<Rightarrow> remote section_config \<Rightarrow> string list \<Rightarrow> ceph_outcomes \<times> ceph_found \<times> files \<Rightarrow> ceph_outcomes \<times> ceph_found \<times> files" where
  "probe_all env remotes [] acc = acc"
| "probe_all env remotes (rmt # rmts) (outcomes, found, fs) =
     (let (out, fs) = probe_remote env remotes rmt fs
      in probe_all env remotes rmts (sc_insert rmt out outcomes, add_found rmt out found, fs))"

section \<open>Updating the registry\<close>

definition new_cluster :: "string \<Rightarrow> ceph_cluster" where
  "new_cluster fsid = \<lparr>cc_id = fsid, cc_display_name = None, cc_public_network = None, cc_cluster_network = None,
     cc_stretch_mode = None, cc_tiebreaker_mon = None, cc_state = None, cc_last_seen_missing = None, cc_forgotten = None\<rparr>"

definition new_member :: "string \<Rightarrow> string \<times> string \<Rightarrow> ceph_member" where
  "new_member fsid = (\<lambda>(rmt, nod). \<lparr>cm_id = fsid @ ''-'' @ nod, cm_cluster = fsid, cm_kind = Kind_Pve, cm_remote = Some rmt,
     cm_node = Some nod, cm_address = None, cm_fingerprint = None, cm_authid = None, cm_site = None\<rparr>)"

definition upsert_member :: "string \<Rightarrow> string \<times> string \<Rightarrow> bool \<times> ceph_config \<Rightarrow> bool \<times> ceph_config" where
  "upsert_member fsid rn = (\<lambda>(changed, cfg).
     let m = new_member fsid rn
     in if sc_get (cf_members cfg) (cm_id m) = None
        then (True, cfg\<lparr>cf_members := sc_insert (cm_id m) m (cf_members cfg)\<rparr>) else (changed, cfg))"

definition upsert_cluster :: "string \<Rightarrow> (string \<times> string) list \<Rightarrow> ceph_config \<Rightarrow> bool \<times> ceph_config" where
  "upsert_cluster fsid members cfg =
     (let old = sc_get (cf_clusters cfg) fsid
      in if (case old of Some c \<Rightarrow> cc_forgotten c \<noteq> None | None \<Rightarrow> False) then (False, cfg)
         else
           let c = (case old of None \<Rightarrow> new_cluster fsid | Some c \<Rightarrow> c);
               stale = (cc_state c \<noteq> Some Ceph_Detected \<or> cc_last_seen_missing c \<noteq> None);
               c = (if stale then c\<lparr>cc_state := Some Ceph_Detected, cc_last_seen_missing := None\<rparr> else c);
               cfg = cfg\<lparr>cf_clusters := sc_insert fsid c (cf_clusters cfg)\<rparr>
           in fold (upsert_member fsid) members (old = None \<or> stale, cfg))"

text \<open>All found clusters, in the order of their ids.\<close>

definition upsert_found :: "ceph_found \<Rightarrow> bool \<times> ceph_config \<Rightarrow> bool \<times> ceph_config" where
  "upsert_found found =
     fold (\<lambda>(fsid, members) (changed, cfg). let (ch, cfg) = upsert_cluster fsid members cfg in (changed \<or> ch, cfg)) (sort_key fst found)"

definition member_remotes :: "ceph_config \<Rightarrow> string \<Rightarrow> string list" where
  "member_remotes cfg fsid =
     List.map_filter (\<lambda>(_, m). if cm_kind m = Kind_Pve \<and> cm_cluster m = fsid then cm_remote m else None) (cf_members cfg)"

definition demotion :: "ceph_config \<Rightarrow> ceph_found \<Rightarrow> ceph_outcomes \<Rightarrow> string \<times> ceph_cluster \<Rightarrow> (string \<times> ceph_cluster_state) option" where
  "demotion cfg found outcomes = (\<lambda>(fsid, c).
     if sc_get found fsid \<noteq> None \<or> cc_forgotten c \<noteq> None then None
     else
       let probed = List.map_filter (sc_get outcomes) (member_remotes cfg fsid)
       in if probed = [] then None
          else Some (fsid, if Probe_Unreachable \<in> set probed then Ceph_Unreachable else Ceph_Gone))"

definition demote :: "i64 \<Rightarrow> string \<times> ceph_cluster_state \<Rightarrow> bool \<times> ceph_config \<Rightarrow> bool \<times> ceph_config" where
  "demote now = (\<lambda>(fsid, new_state) (changed, cfg).
     case sc_get (cf_clusters cfg) fsid of
       None \<Rightarrow> (changed, cfg)
     | Some c \<Rightarrow>
         (case new_state of
            Ceph_Gone \<Rightarrow>
              let ch1 = (cc_state c \<noteq> Some Ceph_Gone); ch2 = (cc_last_seen_missing c = None);
                  c = (if ch1 then c\<lparr>cc_state := Some Ceph_Gone\<rparr> else c);
                  c = (if ch2 then c\<lparr>cc_last_seen_missing := Some now\<rparr> else c)
              in (changed \<or> ch1 \<or> ch2, cfg\<lparr>cf_clusters := sc_insert fsid c (cf_clusters cfg)\<rparr>)
          | Ceph_Unreachable \<Rightarrow>
              let ch = (cc_state c \<noteq> Some Ceph_Unreachable);
                  c = (if ch then c\<lparr>cc_state := Some Ceph_Unreachable\<rparr> else c)
              in (changed \<or> ch, cfg\<lparr>cf_clusters := sc_insert fsid c (cf_clusters cfg)\<rparr>)
          | _ \<Rightarrow> (changed, cfg)))"

definition reconcile_unfound :: "ceph_found \<Rightarrow> ceph_outcomes \<Rightarrow> i64 \<Rightarrow> ceph_config \<Rightarrow> bool \<times> ceph_config" where
  "reconcile_unfound found outcomes now cfg =
     fold (demote now) (List.map_filter (demotion cfg found outcomes) (cf_clusters cfg)) (False, cfg)"

definition save_changed :: "ceph_env \<Rightarrow> bool \<times> ceph_config \<Rightarrow> ceph_file \<Rightarrow> (ceph_error + unit) \<times> ceph_file" where
  "save_changed env = (\<lambda>(changed, cfg) f. if changed then ceph_save (cn_valid env) cfg f else (Inr (), f))"

text \<open>The parts of \<open>detect_and_upsert\<close> and \<open>sweep\<close> under the lock, after the probes.\<close>

definition commit_found :: "ceph_env \<Rightarrow> ceph_found \<Rightarrow> ceph_file \<Rightarrow> (ceph_error + unit) \<times> ceph_file" where
  "commit_found env found f =
     (if found = [] then (Inr (), f)
      else case untyped_to_typed (cn_authid env) f of
             Inl err \<Rightarrow> (Inl err, f)
           | Inr cfg \<Rightarrow> save_changed env (upsert_found found (False, cfg)) f)"

definition commit_sweep :: "ceph_env \<Rightarrow> ceph_outcomes \<Rightarrow> ceph_found \<Rightarrow> ceph_file \<Rightarrow> (ceph_error + unit) \<times> ceph_file" where
  "commit_sweep env outcomes found f =
     (case untyped_to_typed (cn_authid env) f of
        Inl err \<Rightarrow> (Inl err, f)
      | Inr cfg \<Rightarrow>
          let (changed, cfg) = upsert_found found (False, cfg);
              (ch, cfg) = reconcile_unfound found outcomes (cn_now env) cfg
          in save_changed env (changed \<or> ch, cfg) f)"

text \<open>
  Whole runs; \<open>others\<close> is what happens to the file while the probes are under way.
\<close>

definition detect_and_upsert ::
  "ceph_env \<Rightarrow> remote section_config \<Rightarrow> string list \<Rightarrow> (ceph_file \<Rightarrow> ceph_file) \<Rightarrow> files \<Rightarrow> ceph_file \<Rightarrow> (ceph_error + unit) \<times> files \<times> ceph_file" where
  "detect_and_upsert env remotes rmts others fs f =
     (let (_, found, fs) = probe_all env remotes rmts ([], [], fs); (r, f) = commit_found env found (others f) in (r, fs, f))"

definition sweep :: "ceph_env \<Rightarrow> remote section_config \<Rightarrow> (ceph_file \<Rightarrow> ceph_file) \<Rightarrow> files \<Rightarrow> ceph_file \<Rightarrow> (ceph_error + unit) \<times> files \<times> ceph_file" where
  "sweep env remotes others fs f =
     (let (outcomes, found, fs) = probe_all env remotes (list_pve_remotes remotes) ([], [], fs);
          (r, f) = commit_sweep env outcomes found (others f)
      in (r, fs, f))"

definition on_remote_removed :: "ceph_env \<Rightarrow> string \<Rightarrow> ceph_file \<Rightarrow> (ceph_error + unit) \<times> ceph_file" where
  "on_remote_removed env rmt f =
     (case untyped_to_typed (cn_authid env) f of
        Inl err \<Rightarrow> (Inl err, f)
      | Inr cfg \<Rightarrow>
          let (dropped_members, cfg) = drop_pve_members_for_remote rmt cfg;
              (dropped_clusters, cfg) = drop_clusters_without_members cfg
          in save_changed env (dropped_members \<or> dropped_clusters \<noteq> [], cfg) f)"

end
