(* ===== verification/Ceph_Props.thy ===== *)
theory Ceph_Props
  imports Ceph_Sweep
begin

text \<open>
  Properties of the registry of Ceph clusters: sections with unknown keys, by one contract for both types of sections, and
  reading back what was written.
\<close>

section \<open>Sections with unknown keys\<close>

definition extras_ok :: "string list \<Rightarrow> (string \<times> json) list \<Rightarrow> bool" where
  "extras_ok names es \<longleftrightarrow> es \<noteq> [] \<and> distinct (map fst es) \<and> set (map fst es) \<inter> set names = {}"

text \<open>
  A type of sections: its value holds its own fields only, and is read back whatever other keys follow them.
\<close>

locale typed_section =
  fixes encode :: "'a \<Rightarrow> (string \<times> json) list"
    and decode :: "json \<Rightarrow> ceph_error + 'a"
    and good :: "'a \<Rightarrow> bool"
    and names :: "string list"
  assumes own_fields: "set (map fst (encode x)) \<subseteq> set names"
    and decode_encode: "good x \<Longrightarrow> list_all (\<lambda>k. map_of es k = None) names \<Longrightarrow> decode (JObj (encode x @ es)) = Inr x"
begin

lemma decode_extras: "good x \<Longrightarrow> extras_ok names es \<Longrightarrow> decode (JObj (encode x @ es)) = Inr x"
  by (rule decode_encode) (auto simp: extras_ok_def list_all_iff map_of_eq_None_iff)

lemma decode_plain: "good x \<Longrightarrow> decode (JObj (encode x)) = Inr x"
  using decode_encode [of x "[]"] by (simp add: list_all_iff)

lemma unknown_extras: "extras_ok names es \<Longrightarrow> unknown_keys (JObj (encode x @ es)) (JObj (encode x)) = Some es"
proof -
  assume es: "extras_ok names es"
  have "filter (\<lambda>(k, _). k \<notin> set (map fst (encode x))) (encode x) = []"
    by (rule filter_False) (auto simp: image_iff)
  moreover have "filter (\<lambda>(k, _). k \<notin> set (map fst (encode x))) es = es"
    using es own_fields [of x] by (intro filter_True) (fastforce simp: extras_ok_def)
  ultimately show ?thesis using es by (simp add: unknown_keys_def extras_ok_def)
qed

lemma unknown_plain: "unknown_keys (JObj (encode x)) (JObj (encode x)) = None"
proof -
  have "filter (\<lambda>(k, _). k \<notin> set (map fst (encode x))) (encode x) = []"
    by (rule filter_False) (auto simp: image_iff)
  then show ?thesis by (simp add: unknown_keys_def)
qed

end

lemma kv_set_new: "k \<notin> set (map fst kvs) \<Longrightarrow> kv_set k v kvs = kvs @ [(k, v)]"
  by (induction k v kvs rule: kv_set.induct) auto

lemma fold_extras:
  "distinct (map fst es) \<Longrightarrow> set (map fst es) \<inter> set (map fst kvs) = {} \<Longrightarrow>
     fold (\<lambda>(k, e) v. if jget v k = None then jset k e v else v) es (JObj kvs) = JObj (kvs @ es)"
proof (induction es arbitrary: kvs)
  case (Cons p es)
  obtain k e where p: "p = (k, e)" by (cases p)
  have "k \<notin> set (map fst kvs)" using Cons.prems p by auto
  then have "jget (JObj kvs) k = None" "jset k e (JObj kvs) = JObj (kvs @ [(k, e)])"
    by (simp_all add: map_of_eq_None_iff jset_def kv_set_new)
  then show ?case using Cons.IH [of "kvs @ [(k, e)]"] Cons.prems by (simp add: p)
qed simp

section \<open>Clusters and members\<close>

definition cluster_kvs :: "ceph_cluster \<Rightarrow> (string \<times> json) list" where
  "cluster_kvs c = the (as_object (cluster_value c))"

definition member_kvs :: "ceph_member \<Rightarrow> (string \<times> json) list" where
  "member_kvs m = the (as_object (member_value m))"

lemma value_kvs: "cluster_value c = JObj (cluster_kvs c)" "member_value m = JObj (member_kvs m)"
  by (simp_all add: cluster_kvs_def member_kvs_def cluster_value_def member_value_def as_object_def)

definition cluster_fields :: "string list" where
  "cluster_fields = [''id'', ''display-name'', ''public-network'', ''cluster-network'', ''stretch-mode'', ''tiebreaker-mon'', ''state'',
     ''last-seen-missing'', ''forgotten'']"

definition member_fields :: "string list" where
  "member_fields = [''id'', ''cluster'', ''kind'', ''remote'', ''node'', ''address'', ''fingerprint'', ''authid'', ''site'']"

definition i64_option :: "i64 option \<Rightarrow> bool" where
  "i64_option x \<longleftrightarrow> (case x of None \<Rightarrow> True | Some n \<Rightarrow> i64_range n)"

definition cluster_good :: "ceph_cluster \<Rightarrow> bool" where
  "cluster_good c \<longleftrightarrow> i64_option (cc_last_seen_missing c) \<and> i64_option (cc_forgotten c)"

definition member_good :: "(string \<Rightarrow> bool) \<Rightarrow> ceph_member \<Rightarrow> bool" where
  "member_good authid m \<longleftrightarrow> (case cm_authid m of None \<Rightarrow> True | Some a \<Rightarrow> authid a)"

lemma map_of_put_field: "map_of (put_field k enc x @ rest) k' = (if k' = k then (case x of Some v \<Rightarrow> Some (enc v) | None \<Rightarrow> map_of rest k') else map_of rest k')"
  by (cases x) (simp_all add: put_field_def)

lemma keys_put_field: "fst ` set (put_field k enc x) = (if x = None then {} else {k})"
  by (cases x) (simp_all add: put_field_def)

lemma opt_field_put:
  assumes "jget v k = map_option enc x" and "\<And>y. x = Some y \<Longrightarrow> dec (enc y) = Some y \<and> enc y \<noteq> JNull"
  shows "opt_field dec k v = Inr x"
  using assms by (cases x) (auto simp: opt_field_def split: json.splits)

lemma req_field_put: "jget v k = Some w \<Longrightarrow> dec w = Some x \<Longrightarrow> req_field dec k v = Inr x"
  by (simp add: req_field_def)

lemma state_round: "state_from (JStr (state_str s)) = Some s"
  by (cases s) (simp_all add: state_from_def state_str_def)

lemma kind_round: "kind_from (JStr (kind_str k)) = Some k"
  by (cases k) (simp_all add: kind_from_def kind_str_def)

lemma signed_round: "i64_range n \<Longrightarrow> as_signed (JNum n) = Some n"
  by (simp add: as_signed_def i64_range_def)

lemma cluster_kvs_unfold:
  "cluster_kvs c = (''id'', JStr (cc_id c)) # put_field ''display-name'' JStr (cc_display_name c)
     @ put_field ''public-network'' JStr (cc_public_network c) @ put_field ''cluster-network'' JStr (cc_cluster_network c)
     @ put_field ''stretch-mode'' JBool (cc_stretch_mode c) @ put_field ''tiebreaker-mon'' JStr (cc_tiebreaker_mon c)
     @ put_field ''state'' (\<lambda>s. JStr (state_str s)) (cc_state c)
     @ put_field ''last-seen-missing'' JNum (cc_last_seen_missing c) @ put_field ''forgotten'' JNum (cc_forgotten c)"
  by (simp add: cluster_kvs_def cluster_value_def as_object_def)

lemma member_kvs_unfold:
  "member_kvs m = (''id'', JStr (cm_id m)) # (''cluster'', JStr (cm_cluster m)) # (''kind'', JStr (kind_str (cm_kind m)))
     # put_field ''remote'' JStr (cm_remote m) @ put_field ''node'' JStr (cm_node m) @ put_field ''address'' JStr (cm_address m)
     @ put_field ''fingerprint'' JStr (cm_fingerprint m) @ put_field ''authid'' JStr (cm_authid m) @ put_field ''site'' JStr (cm_site m)"
  by (simp add: member_kvs_def member_value_def as_object_def)

lemma map_option_case: "(case x of Some v \<Rightarrow> Some (f v) | None \<Rightarrow> None) = map_option f x"
  by (cases x) simp_all

lemma cluster_lookups:
  assumes n: "list_all (\<lambda>k. map_of es k = None) cluster_fields"
  shows "map_of (cluster_kvs c @ es) ''id'' = Some (JStr (cc_id c))"
    "map_of (cluster_kvs c @ es) ''display-name'' = map_option JStr (cc_display_name c)"
    "map_of (cluster_kvs c @ es) ''public-network'' = map_option JStr (cc_public_network c)"
    "map_of (cluster_kvs c @ es) ''cluster-network'' = map_option JStr (cc_cluster_network c)"
    "map_of (cluster_kvs c @ es) ''stretch-mode'' = map_option JBool (cc_stretch_mode c)"
    "map_of (cluster_kvs c @ es) ''tiebreaker-mon'' = map_option JStr (cc_tiebreaker_mon c)"
    "map_of (cluster_kvs c @ es) ''state'' = map_option (\<lambda>s. JStr (state_str s)) (cc_state c)"
    "map_of (cluster_kvs c @ es) ''last-seen-missing'' = map_option JNum (cc_last_seen_missing c)"
    "map_of (cluster_kvs c @ es) ''forgotten'' = map_option JNum (cc_forgotten c)"
proof -
  note [simp] = map_of_put_field map_option_case
  show "map_of (cluster_kvs c @ es) ''id'' = Some (JStr (cc_id c))"
    "map_of (cluster_kvs c @ es) ''display-name'' = map_option JStr (cc_display_name c)"
    "map_of (cluster_kvs c @ es) ''public-network'' = map_option JStr (cc_public_network c)"
    "map_of (cluster_kvs c @ es) ''cluster-network'' = map_option JStr (cc_cluster_network c)"
    "map_of (cluster_kvs c @ es) ''stretch-mode'' = map_option JBool (cc_stretch_mode c)"
    "map_of (cluster_kvs c @ es) ''tiebreaker-mon'' = map_option JStr (cc_tiebreaker_mon c)"
    "map_of (cluster_kvs c @ es) ''state'' = map_option (\<lambda>s. JStr (state_str s)) (cc_state c)"
    "map_of (cluster_kvs c @ es) ''last-seen-missing'' = map_option JNum (cc_last_seen_missing c)"
    "map_of (cluster_kvs c @ es) ''forgotten'' = map_option JNum (cc_forgotten c)"
    using n by (simp_all add: cluster_kvs_unfold cluster_fields_def del: map_of_append cong: option.case_cong)
qed

lemma member_lookups:
  assumes n: "list_all (\<lambda>k. map_of es k = None) member_fields"
  shows "map_of (member_kvs m @ es) ''id'' = Some (JStr (cm_id m))"
    "map_of (member_kvs m @ es) ''cluster'' = Some (JStr (cm_cluster m))"
    "map_of (member_kvs m @ es) ''kind'' = Some (JStr (kind_str (cm_kind m)))"
    "map_of (member_kvs m @ es) ''remote'' = map_option JStr (cm_remote m)"
    "map_of (member_kvs m @ es) ''node'' = map_option JStr (cm_node m)"
    "map_of (member_kvs m @ es) ''address'' = map_option JStr (cm_address m)"
    "map_of (member_kvs m @ es) ''fingerprint'' = map_option JStr (cm_fingerprint m)"
    "map_of (member_kvs m @ es) ''authid'' = map_option JStr (cm_authid m)"
    "map_of (member_kvs m @ es) ''site'' = map_option JStr (cm_site m)"
proof -
  note [simp] = map_of_put_field map_option_case
  show "map_of (member_kvs m @ es) ''id'' = Some (JStr (cm_id m))"
    "map_of (member_kvs m @ es) ''cluster'' = Some (JStr (cm_cluster m))"
    "map_of (member_kvs m @ es) ''kind'' = Some (JStr (kind_str (cm_kind m)))"
    "map_of (member_kvs m @ es) ''remote'' = map_option JStr (cm_remote m)"
    "map_of (member_kvs m @ es) ''node'' = map_option JStr (cm_node m)"
    "map_of (member_kvs m @ es) ''address'' = map_option JStr (cm_address m)"
    "map_of (member_kvs m @ es) ''fingerprint'' = map_option JStr (cm_fingerprint m)"
    "map_of (member_kvs m @ es) ''authid'' = map_option JStr (cm_authid m)"
    "map_of (member_kvs m @ es) ''site'' = map_option JStr (cm_site m)"
    using n by (simp_all add: member_kvs_unfold member_fields_def del: map_of_append cong: option.case_cong)
qed

lemma put_field_in: "k \<in> set names \<Longrightarrow> fst ` set (put_field k enc x) \<subseteq> set names"
  by (simp add: keys_put_field)

lemma cluster_names: "set (map fst (cluster_kvs c)) \<subseteq> set cluster_fields"
proof -
  have "list_all (\<lambda>k. k \<in> set cluster_fields) cluster_fields" by (simp add: list_all_iff)
  then show ?thesis unfolding cluster_kvs_unfold by (subst (asm) (2) cluster_fields_def) (simp add: image_Un put_field_in)
qed

lemma member_names: "set (map fst (member_kvs m)) \<subseteq> set member_fields"
proof -
  have "list_all (\<lambda>k. k \<in> set member_fields) member_fields" by (simp add: list_all_iff)
  then show ?thesis unfolding member_kvs_unfold by (subst (asm) (2) member_fields_def) (simp add: image_Un put_field_in)
qed

interpretation clusters: typed_section cluster_kvs cluster_from cluster_good cluster_fields
proof unfold_locales
  show "set (map fst (cluster_kvs c)) \<subseteq> set cluster_fields" for c by (rule cluster_names)
  fix c and es :: "(string \<times> json) list"
  assume good: "cluster_good c" and es: "list_all (\<lambda>k. map_of es k = None) cluster_fields"
  note look = cluster_lookups [OF es]
  have r: "i64_range n" if "cc_last_seen_missing c = Some n \<or> cc_forgotten c = Some n" for n
    using good that by (auto simp: cluster_good_def i64_option_def)
  show "cluster_from (JObj (cluster_kvs c @ es)) = Inr c"
    using r by (simp add: cluster_from_def req_field_def look del: map_of_append add: opt_field_put [where enc = JStr] opt_field_put [where enc = JBool]
        opt_field_put [where enc = "\<lambda>s. JStr (state_str s)"] opt_field_put [where enc = JNum] state_round signed_round)
qed

interpretation members: typed_section member_kvs "member_from authid" "member_good authid" member_fields for authid
proof unfold_locales
  show "set (map fst (member_kvs m)) \<subseteq> set member_fields" for m by (rule member_names)
  fix m and es :: "(string \<times> json) list"
  assume good: "member_good authid m" and es: "list_all (\<lambda>k. map_of es k = None) member_fields"
  note look = member_lookups [OF es]
  have r: "authid a" if "cm_authid m = Some a" for a using good that by (simp add: member_good_def)
  show "member_from authid (JObj (member_kvs m @ es)) = Inr m"
    using r by (simp add: member_from_def req_field_def look del: map_of_append add: opt_field_put [where enc = JStr] kind_round)
qed

section \<open>Reading back what was written\<close>

definition cluster_ok :: "string \<Rightarrow> ceph_cluster \<Rightarrow> bool" where
  "cluster_ok i c \<longleftrightarrow> cc_id c = i \<and> length i = 36 \<and> cluster_good c
     \<and> (cc_last_seen_missing c \<noteq> None \<longrightarrow> cc_state c = Some Ceph_Gone \<or> cc_state c = Some Ceph_Unreachable)"

definition member_ok :: "(string \<Rightarrow> bool) \<Rightarrow> string \<Rightarrow> ceph_member \<Rightarrow> bool" where
  "member_ok authid i m \<longleftrightarrow> cm_id m = i \<and> 36 < length i \<and> member_good authid m
     \<and> (cm_kind m = Kind_Pve \<longrightarrow> (\<exists>rmt nod. cm_remote m = Some rmt \<and> cm_node m = Some nod \<and> i = cm_cluster m @ ''-'' @ nod))"

definition kept_ok :: "string \<Rightarrow> (string \<times> json) list \<Rightarrow> bool" where
  "kept_ok i es \<longleftrightarrow> extras_ok (if length i = 36 then cluster_fields else member_fields) es"

text \<open>
  A registry: ids as the code forms them from cluster ids of 36 characters, every member in a registered cluster, and
  nothing but unknown keys among the keys to preserve.
\<close>

definition ceph_ok :: "(string \<Rightarrow> bool) \<Rightarrow> ceph_config \<Rightarrow> bool" where
  "ceph_ok authid cfg \<longleftrightarrow> sc_wf (cf_clusters cfg) \<and> sc_wf (cf_members cfg)
     \<and> (\<forall>i c. sc_get (cf_clusters cfg) i = Some c \<longrightarrow> cluster_ok i c)
     \<and> (\<forall>i m. sc_get (cf_members cfg) i = Some m \<longrightarrow> member_ok authid i m \<and> sc_get (cf_clusters cfg) (cm_cluster m) \<noteq> None)
     \<and> (\<forall>i es. sc_get (cf_extras cfg) i = Some es \<longrightarrow> kept_ok i es)"

lemma ceph_okD:
  assumes "ceph_ok authid cfg"
  shows "sc_wf (cf_clusters cfg)" "sc_wf (cf_members cfg)" "sc_get (cf_clusters cfg) i = Some c \<Longrightarrow> cluster_ok i c"
    "sc_get (cf_members cfg) i = Some m \<Longrightarrow> member_ok authid i m"
    "sc_get (cf_members cfg) i = Some m \<Longrightarrow> sc_get (cf_clusters cfg) (cm_cluster m) \<noteq> None"
    "sc_get (cf_extras cfg) i = Some es \<Longrightarrow> kept_ok i es"
  using assms by (auto simp: ceph_ok_def)

definition section_for :: "ceph_config \<Rightarrow> string \<Rightarrow> (string \<times> json) option" where
  "section_for cfg i =
     (case sc_get (cf_members cfg) i of
        Some m \<Rightarrow> Some (''ceph-member'', merge_extras cfg i (member_value m))
      | None \<Rightarrow> map_option (\<lambda>c. (''ceph-cluster'', merge_extras cfg i (cluster_value c))) (sc_get (cf_clusters cfg) i))"

lemma get_fold_insert: "sc_get (fold (\<lambda>i raw. sc_insert i (g i) raw) is raw) j = (if j \<in> set is then Some (g j) else sc_get raw j)"
  by (induction "is" arbitrary: raw) (auto simp: sc.get_insert)

lemma wf_fold_insert: "sc_wf raw \<Longrightarrow> sc_wf (fold (\<lambda>i raw. sc_insert i (g i) raw) is raw)"
  by (induction "is" arbitrary: raw) (auto simp: sc.wf_insert)

lemma keys_get: "i \<in> set (map fst m) \<longleftrightarrow> (\<exists>v. sc_get m i = Some v)"
  by (metis map_of_eq_None_iff not_None_eq sc_get_def set_map)

lemma write_get: "sc_get (ceph_write cfg) i = section_for cfg i"
proof -
  have "sc_get [] i = None" for i and z :: "'z" by (simp add: sc_get_def)
  then show ?thesis
    unfolding ceph_write_def Let_def get_fold_insert section_for_def set_sort keys_get
    by (auto simp: sc_get_def split: option.splits)
qed

lemma write_wf: "sc_wf (ceph_write cfg)"
  unfolding ceph_write_def Let_def by (intro wf_fold_insert) (simp add: sc_wf_def)

definition kept :: "ceph_config \<Rightarrow> string \<Rightarrow> (string \<times> json) list" where
  "kept cfg i = (case sc_get (cf_extras cfg) i of None \<Rightarrow> [] | Some es \<Rightarrow> es)"

lemma merge_extras_kept:
  assumes "\<And>es. sc_get (cf_extras cfg) i = Some es \<Longrightarrow> extras_ok names es" and "set (map fst kvs) \<subseteq> set names"
  shows "merge_extras cfg i (JObj kvs) = JObj (kvs @ kept cfg i)"
proof (cases "sc_get (cf_extras cfg) i")
  case (Some es)
  have "extras_ok names es" using assms(1) Some by simp
  then have "distinct (map fst es)" "set (map fst es) \<inter> set (map fst kvs) = {}" using assms(2) by (auto simp: extras_ok_def)
  from fold_extras [OF this] show ?thesis by (simp add: merge_extras_def Some kept_def)
qed (simp add: merge_extras_def kept_def)

definition add_section :: "ceph_config \<Rightarrow> string \<Rightarrow> ceph_config \<Rightarrow> ceph_config" where
  "add_section cfg i acc =
     (let acc = keep_extras i (sc_get (cf_extras cfg) i) acc
      in case sc_get (cf_members cfg) i of
           Some m \<Rightarrow> acc\<lparr>cf_members := sc_insert i m (cf_members acc)\<rparr>
         | None \<Rightarrow> acc\<lparr>cf_clusters := sc_insert i (the (sc_get (cf_clusters cfg) i)) (cf_clusters acc)\<rparr>)"

lemma read_one_cluster:
  assumes ok: "ceph_ok authid cfg" and c: "sc_get (cf_clusters cfg) i = Some c" and "sc_get (cf_members cfg) i = None"
  shows "read_section authid (i, ''ceph-cluster'', merge_extras cfg i (cluster_value c)) acc = Inr (add_section cfg i acc)"
proof -
  have g: "cluster_good c" and l: "length i = 36" using ceph_okD(3) [OF ok c] by (simp_all add: cluster_ok_def)
  have e: "extras_ok cluster_fields es" if "sc_get (cf_extras cfg) i = Some es" for es
    using ceph_okD(6) [OF ok that] l by (simp add: kept_ok_def)
  have "cluster_from (JObj (cluster_kvs c @ kept cfg i)) = Inr c"
    "unknown_keys (JObj (cluster_kvs c @ kept cfg i)) (JObj (cluster_kvs c)) = sc_get (cf_extras cfg) i"
    using clusters.decode_extras [OF g e] clusters.decode_plain [OF g] clusters.unknown_extras [OF e] clusters.unknown_plain
    by (cases "sc_get (cf_extras cfg) i"; simp add: kept_def)+
  then show ?thesis using assms
    by (simp add: read_section_def value_kvs merge_extras_kept [OF e cluster_names] add_section_def Let_def)
qed

lemma read_one_member:
  assumes ok: "ceph_ok authid cfg" and m: "sc_get (cf_members cfg) i = Some m"
  shows "read_section authid (i, ''ceph-member'', merge_extras cfg i (member_value m)) acc = Inr (add_section cfg i acc)"
proof -
  have g: "member_good authid m" and l: "length i \<noteq> 36" using ceph_okD(4) [OF ok m] by (auto simp: member_ok_def)
  have e: "extras_ok member_fields es" if "sc_get (cf_extras cfg) i = Some es" for es
    using ceph_okD(6) [OF ok that] l by (simp add: kept_ok_def)
  have "member_from authid (JObj (member_kvs m @ kept cfg i)) = Inr m"
    "unknown_keys (JObj (member_kvs m @ kept cfg i)) (JObj (member_kvs m)) = sc_get (cf_extras cfg) i"
    using members.decode_extras [OF g e] members.decode_plain [OF g] members.unknown_extras [OF e] members.unknown_plain
    by (cases "sc_get (cf_extras cfg) i"; simp add: kept_def)+
  then show ?thesis using m
    by (simp add: read_section_def value_kvs merge_extras_kept [OF e member_names] add_section_def Let_def)
qed

lemma read_written:
  assumes "ceph_ok authid cfg" and "\<And>i s. (i, s) \<in> set f \<Longrightarrow> section_for cfg i = Some s"
  shows "read_sections authid f acc = Inr (fold (add_section cfg) (map fst f) acc)"
  using assms(2)
proof (induction f arbitrary: acc)
  case (Cons p f)
  obtain i s where p: "p = (i, s)" by (cases p)
  have s: "section_for cfg i = Some s" using Cons.prems p by simp
  have "read_section authid (i, s) acc = Inr (add_section cfg i acc)"
    using s read_one_cluster [OF assms(1)] read_one_member [OF assms(1)]
    by (auto simp: section_for_def split: option.splits)
  then show ?case using Cons p by simp
qed simp

definition registered :: "ceph_config \<Rightarrow> string \<Rightarrow> bool" where
  "registered cfg i \<longleftrightarrow> sc_get (cf_clusters cfg) i \<noteq> None \<or> sc_get (cf_members cfg) i \<noteq> None"

lemma fold_add_section_get:
  "sc_get (cf_members (fold (add_section cfg) is acc)) i
     = (if i \<in> set is \<and> sc_get (cf_members cfg) i \<noteq> None then sc_get (cf_members cfg) i else sc_get (cf_members acc) i)"
  "sc_get (cf_clusters (fold (add_section cfg) is acc)) i
     = (if i \<in> set is \<and> sc_get (cf_members cfg) i = None then Some (the (sc_get (cf_clusters cfg) i)) else sc_get (cf_clusters acc) i)"
  "sc_get (cf_extras (fold (add_section cfg) is acc)) i
     = (if i \<in> set is \<and> sc_get (cf_extras cfg) i \<noteq> None then sc_get (cf_extras cfg) i else sc_get (cf_extras acc) i)"
  by (induction "is" arbitrary: acc)
    (auto simp: add_section_def keep_extras_def Let_def sc.get_insert split: option.splits)

lemma fold_add_section_wf:
  "sc_wf (cf_members acc) \<Longrightarrow> sc_wf (cf_clusters acc) \<Longrightarrow>
     sc_wf (cf_members (fold (add_section cfg) is acc)) \<and> sc_wf (cf_clusters (fold (add_section cfg) is acc))"
  by (induction "is" arbitrary: acc)
    (auto simp: add_section_def keep_extras_def Let_def sc.wf_insert split: option.splits)

lemma cluster_not_member: "ceph_ok authid cfg \<Longrightarrow> sc_get (cf_clusters cfg) i = Some c \<Longrightarrow> sc_get (cf_members cfg) i = None"
  using ceph_okD(3) [of authid cfg i c] ceph_okD(4) [of authid cfg i]
  by (cases "sc_get (cf_members cfg) i") (auto simp: cluster_ok_def member_ok_def)

lemma written_read:
  assumes ok: "ceph_ok authid cfg"
  shows "\<exists>cfg'. untyped_to_typed authid (ceph_write cfg) = Inr cfg' \<and> ceph_ok authid cfg'
    \<and> sc_get (cf_clusters cfg') = sc_get (cf_clusters cfg) \<and> sc_get (cf_members cfg') = sc_get (cf_members cfg)
    \<and> sc_get (cf_extras cfg') = (\<lambda>i. if registered cfg i then sc_get (cf_extras cfg) i else None)"
proof -
  let ?is = "map fst (ceph_write cfg)"
  let ?cfg = "fold (add_section cfg) ?is empty_ceph"
  have sec: "section_for cfg i = Some s" if "(i, s) \<in> set (ceph_write cfg)" for i s
    using that write_get [of cfg i] sc.get_iter [OF write_wf, of cfg i s] by simp
  have r: "untyped_to_typed authid (ceph_write cfg) = Inr ?cfg"
    unfolding untyped_to_typed_def using sec by (rule read_written [OF ok])
  have "i \<in> set ?is \<longleftrightarrow> registered cfg i" for i
    unfolding keys_get write_get by (auto simp: section_for_def registered_def split: option.splits)
  then have k: "i \<in> fst ` set (ceph_write cfg) \<longleftrightarrow> registered cfg i" for i by simp
  have e: "sc_get (cf_members empty_ceph) i = None" "sc_get (cf_clusters empty_ceph) i = None" "sc_get (cf_extras empty_ceph) i = None" for i
    by (simp_all add: empty_ceph_def sc_get_def)
  have cl: "sc_get (cf_clusters ?cfg) = sc_get (cf_clusters cfg)"
  proof
    fix i
    show "sc_get (cf_clusters ?cfg) i = sc_get (cf_clusters cfg) i"
      using cluster_not_member [OF ok, of i] by (cases "sc_get (cf_clusters cfg) i") (auto simp: fold_add_section_get k e registered_def)
  qed
  have me: "sc_get (cf_members ?cfg) = sc_get (cf_members cfg)"
    by (auto simp: fun_eq_iff fold_add_section_get k e registered_def)
  have ex: "sc_get (cf_extras ?cfg) = (\<lambda>i. if registered cfg i then sc_get (cf_extras cfg) i else None)"
    by (auto simp: fun_eq_iff fold_add_section_get k e)
  have "sc_wf (cf_members ?cfg) \<and> sc_wf (cf_clusters ?cfg)"
    by (rule fold_add_section_wf) (simp_all add: empty_ceph_def sc_wf_def)
  then have "ceph_ok authid ?cfg" using ok unfolding ceph_ok_def cl me ex by auto
  then show ?thesis using r cl me ex by blast
qed

text \<open>C34. Reading back the registry of Ceph clusters gives every cluster and member that was written, and for each of them the
  keys of its section that this version does not know.\<close>

theorem ceph_registry_roundtrip:
  assumes "ceph_ok authid cfg"
  shows "\<exists>cfg'. untyped_to_typed authid (ceph_write cfg) = Inr cfg'
    \<and> sc_get (cf_clusters cfg') = sc_get (cf_clusters cfg) \<and> sc_get (cf_members cfg') = sc_get (cf_members cfg)
    \<and> sc_get (cf_extras cfg') = (\<lambda>i. if registered cfg i then sc_get (cf_extras cfg) i else None)"
  using written_read [OF assms] by blast

end
