(* ===== verification/Ceph_Api.thy ===== *)
theory Ceph_Api
  imports Ceph_Sweep
begin

text \<open>
  Reading Ceph clusters: access through the remotes of their members (\<open>server/src/ceph/registry.rs\<close>), the member a request
  goes through (\<open>dispatch.rs\<close>), the summary of a status (\<open>cache.rs\<close>) and the handlers of
  \<open>server/src/api/ceph/clusters.rs\<close>. The handlers for flags, monitors, managers, metadata servers, file systems, pools
  and the OSD tree share one shape, \<open>node_read\<close>.
\<close>

section \<open>Access\<close>

text \<open>\<open>below\<close>: whether the caller holds the wanted privilege on \<open>/resource/{remote}\<close> or below it.\<close>

definition member_accessible :: "(string \<Rightarrow> bool) \<Rightarrow> ceph_member \<Rightarrow> bool" where
  "member_accessible below m =
     (case (cm_kind m, cm_remote m) of (Kind_Pve, Some rmt) \<Rightarrow> below rmt | _ \<Rightarrow> False)"

definition cluster_accessible :: "(string \<Rightarrow> bool) \<Rightarrow> ceph_config \<Rightarrow> string \<Rightarrow> bool" where
  "cluster_accessible below cfg cluster = list_ex (member_accessible below) (members_of cfg cluster)"

definition check_cluster_access :: "(string \<Rightarrow> bool) \<Rightarrow> ceph_config \<Rightarrow> string \<Rightarrow> ceph_error + unit" where
  "check_cluster_access below cfg cluster =
     (if sc_get (cf_clusters cfg) cluster = None then Inl (No_Such_Cluster cluster)
      else if \<not> cluster_accessible below cfg cluster then Inl (No_Cluster_Access cluster) else Inr ())"

definition check_member_access :: "(string \<Rightarrow> bool) \<Rightarrow> ceph_member \<Rightarrow> ceph_error + unit" where
  "check_member_access below m = (if \<not> member_accessible below m then Inl (No_Member_Access (cm_id m)) else Inr ())"

definition sorted_members :: "ceph_config \<Rightarrow> string \<Rightarrow> ceph_member list" where
  "sorted_members cfg cluster = sort_key cm_id (members_of cfg cluster)"

definition accessible_clusters :: "(string \<Rightarrow> bool) \<Rightarrow> ceph_config \<Rightarrow> (ceph_cluster \<times> ceph_member list) list" where
  "accessible_clusters below cfg =
     sort_key (\<lambda>(c, _). cc_id c)
       (map (\<lambda>(i, c). (c, sorted_members cfg i)) (filter (\<lambda>(i, _). cluster_accessible below cfg i) (cf_clusters cfg)))"

definition lookup_cluster :: "(string \<Rightarrow> bool) \<Rightarrow> ceph_config \<Rightarrow> string \<Rightarrow> ceph_error + (ceph_cluster \<times> ceph_member list)" where
  "lookup_cluster below cfg cluster =
     and_then (check_cluster_access below cfg cluster)
       (\<lambda>_. Inr (the (sc_get (cf_clusters cfg) cluster), sorted_members cfg cluster))"

section \<open>Dispatch\<close>

fun connect_from :: "ceph_env \<Rightarrow> remote section_config \<Rightarrow> ceph_error option \<Rightarrow> ceph_member list \<Rightarrow> ceph_error + ceph_member" where
  "connect_from env remotes last_err [] = (case last_err of Some err \<Rightarrow> Inl err | None \<Rightarrow> Inl No_Pve_Member)"
| "connect_from env remotes last_err (m # ms) =
     (if cm_kind m \<noteq> Kind_Pve then connect_from env remotes last_err ms
      else case cm_remote m of
             None \<Rightarrow> connect_from env remotes last_err ms
           | Some rmt \<Rightarrow>
               (case connects env remotes rmt of
                  Inr _ \<Rightarrow> Inr m
                | Inl err \<Rightarrow> connect_from env remotes (Some err) ms))"

definition connect_cluster :: "ceph_env \<Rightarrow> remote section_config \<Rightarrow> ceph_member list \<Rightarrow> ceph_error + ceph_member" where
  "connect_cluster env remotes ms = connect_from env remotes None ms"

section \<open>The summary of a status\<close>

definition health_from_status :: "json \<Rightarrow> string option" where
  "health_from_status status = Option.bind (jget status ''health'') (\<lambda>h. get_str h ''status'')"

definition quorum_count_from_status :: "json \<Rightarrow> i64" where
  "quorum_count_from_status status = (case get_array status ''quorum_names'' of None \<Rightarrow> 0 | Some names \<Rightarrow> int (length names))"

definition value_i64 :: "json \<Rightarrow> i64 option" where
  "value_i64 v =
     (case as_signed v of
        Some n \<Rightarrow> Some n
      | None \<Rightarrow> map_option (\<lambda>u. wrap_i64 (int u)) (as_unsigned v))"

record ceph_health_check =
  hc_code :: string
  hc_severity :: string
  hc_summary :: string

record ceph_pg_state_group =
  pg_state_name :: string
  pg_count :: i64

record ceph_cluster_member =
  vm_kind :: ceph_member_kind
  vm_remote :: "string option"
  vm_node :: "string option"
  vm_site :: "string option"

record ceph_cluster_status =
  ct_fsid :: string
  ct_health :: string
  ct_checks :: "ceph_health_check list"
  ct_bytes_total :: i64
  ct_bytes_used :: i64
  ct_bytes_avail :: i64
  ct_num_pools :: i64
  ct_num_pgs :: i64
  ct_pgs_by_state :: "ceph_pg_state_group list"
  ct_osds_total :: i64
  ct_osds_up :: i64
  ct_osds_in :: i64
  ct_mons_total :: i64
  ct_mons_in_quorum :: i64
  ct_mgr_active :: "string option"
  ct_mgr_standbys :: "string list"
  ct_client_read_bytes_sec :: "i64 option"
  ct_client_write_bytes_sec :: "i64 option"
  ct_client_read_ops_sec :: "i64 option"
  ct_client_write_ops_sec :: "i64 option"
  ct_recovery_bytes_sec :: "i64 option"
  ct_misplaced_ratio :: "rat option"
  ct_degraded_ratio :: "rat option"
  ct_fullest_pool :: "string option"
  ct_fullest_pool_used :: "rat option"
  ct_version :: "string option"
  ct_version_mixed :: bool
  ct_members :: "ceph_cluster_member list"

definition or_empty :: "string option \<Rightarrow> string" where
  "or_empty s = (case s of None \<Rightarrow> [] | Some s \<Rightarrow> s)"

definition or_zero :: "i64 option \<Rightarrow> i64" where
  "or_zero n = (case n of None \<Rightarrow> 0 | Some n \<Rightarrow> n)"

definition health_check :: "string \<times> json \<Rightarrow> ceph_health_check" where
  "health_check = (\<lambda>(code, detail). \<lparr>hc_code = code, hc_severity = or_empty (get_str detail ''severity''),
     hc_summary = or_empty (Option.bind (jget detail ''summary'') (\<lambda>s. get_str s ''message''))\<rparr>)"

definition status_checks :: "json \<Rightarrow> ceph_health_check list" where
  "status_checks raw =
     (case Option.bind (Option.bind (jget raw ''health'') (\<lambda>h. jget h ''checks'')) as_object of
        None \<Rightarrow> [] | Some kvs \<Rightarrow> map health_check kvs)"

definition pg_field :: "json \<Rightarrow> string \<Rightarrow> i64 option" where
  "pg_field raw k = Option.bind (Option.bind (jget raw ''pgmap'') (\<lambda>p. jget p k)) value_i64"

definition pg_float :: "json \<Rightarrow> string \<Rightarrow> rat option" where
  "pg_float raw k = Option.bind (Option.bind (jget raw ''pgmap'') (\<lambda>p. jget p k)) as_float"

definition pg_state_group :: "json \<Rightarrow> ceph_pg_state_group" where
  "pg_state_group e = \<lparr>pg_state_name = or_empty (get_str e ''state_name''), pg_count = or_zero (Option.bind (jget e ''count'') value_i64)\<rparr>"

definition pg_states :: "json \<Rightarrow> ceph_pg_state_group list" where
  "pg_states raw =
     (case Option.bind (jget raw ''pgmap'') (\<lambda>p. get_array p ''pgs_by_state'') of
        None \<Rightarrow> [] | Some es \<Rightarrow> map pg_state_group es)"

definition osd_field :: "json \<Rightarrow> string \<Rightarrow> i64" where
  "osd_field raw k =
     (let osdmap = map_option (\<lambda>m. case jget m ''osdmap'' of None \<Rightarrow> m | Some inner \<Rightarrow> inner) (jget raw ''osdmap'')
      in or_zero (Option.bind (Option.bind osdmap (\<lambda>m. jget m k)) value_i64))"

definition status_mons_total :: "json \<Rightarrow> i64" where
  "status_mons_total raw =
     (let monmap = jget raw ''monmap''
      in case Option.bind (Option.bind monmap (\<lambda>m. jget m ''num_mons'')) value_i64 of
           Some n \<Rightarrow> n
         | None \<Rightarrow> or_zero (map_option (\<lambda>a. int (length a)) (Option.bind monmap (\<lambda>m. get_array m ''mons''))))"

definition status_mgr_active :: "json \<Rightarrow> string option" where
  "status_mgr_active raw =
     (case Option.bind (jget raw ''mgrmap'') (\<lambda>m. get_str m ''active_name'') of
        None \<Rightarrow> None | Some s \<Rightarrow> if s = [] then None else Some s)"

definition status_mgr_standbys :: "json \<Rightarrow> string list" where
  "status_mgr_standbys raw =
     (case Option.bind (jget raw ''mgrmap'') (\<lambda>m. get_array m ''standbys'') of
        None \<Rightarrow> [] | Some es \<Rightarrow> List.map_filter (\<lambda>s. get_str s ''name'') es)"

definition summarize_status :: "string \<Rightarrow> json \<Rightarrow> ceph_cluster_status" where
  "summarize_status fsid raw =
     \<lparr>ct_fsid = fsid,
      ct_health = (case health_from_status raw of None \<Rightarrow> ''HEALTH_UNKNOWN'' | Some h \<Rightarrow> h),
      ct_checks = status_checks raw,
      ct_bytes_total = or_zero (pg_field raw ''bytes_total''),
      ct_bytes_used = or_zero (pg_field raw ''bytes_used''),
      ct_bytes_avail = or_zero (pg_field raw ''bytes_avail''),
      ct_num_pools = or_zero (pg_field raw ''num_pools''),
      ct_num_pgs = or_zero (pg_field raw ''num_pgs''),
      ct_pgs_by_state = pg_states raw,
      ct_osds_total = osd_field raw ''num_osds'',
      ct_osds_up = osd_field raw ''num_up_osds'',
      ct_osds_in = osd_field raw ''num_in_osds'',
      ct_mons_total = status_mons_total raw,
      ct_mons_in_quorum = quorum_count_from_status raw,
      ct_mgr_active = status_mgr_active raw,
      ct_mgr_standbys = status_mgr_standbys raw,
      ct_client_read_bytes_sec = pg_field raw ''read_bytes_sec'',
      ct_client_write_bytes_sec = pg_field raw ''write_bytes_sec'',
      ct_client_read_ops_sec = pg_field raw ''read_op_per_sec'',
      ct_client_write_ops_sec = pg_field raw ''write_op_per_sec'',
      ct_recovery_bytes_sec = pg_field raw ''recovering_bytes_per_sec'',
      ct_misplaced_ratio = pg_float raw ''misplaced_ratio'',
      ct_degraded_ratio = pg_float raw ''degraded_ratio'',
      ct_fullest_pool = None,
      ct_fullest_pool_used = None,
      ct_version = None,
      ct_version_mixed = False,
      ct_members = []\<rparr>"

section \<open>Handlers\<close>

definition DEFAULT_STATUS_MAX_AGE :: nat where "DEFAULT_STATUS_MAX_AGE = 30"
definition LIST_STATUS_MAX_AGE :: i64 where "LIST_STATUS_MAX_AGE = 660"

definition access_checked_members :: "ceph_env \<Rightarrow> (string \<Rightarrow> bool) \<Rightarrow> string \<Rightarrow> ceph_file \<Rightarrow> ceph_error + ceph_member list" where
  "access_checked_members env below cluster f =
     and_then (untyped_to_typed (cn_authid env) f) (\<lambda>cfg. and_then (lookup_cluster below cfg cluster) (\<lambda>(_, ms). Inr ms))"

definition ceph_connect :: "ceph_env \<Rightarrow> remote section_config \<Rightarrow> (string \<Rightarrow> bool) \<Rightarrow> string \<Rightarrow> ceph_file \<Rightarrow> ceph_error + ceph_member" where
  "ceph_connect env remotes below cluster f = and_then (access_checked_members env below cluster f) (connect_cluster env remotes)"

text \<open>\<open>call\<close> is the request to the remote of a member, for one of its nodes.\<close>

definition node_read ::
  "ceph_env \<Rightarrow> remote section_config \<Rightarrow> (string \<Rightarrow> bool) \<Rightarrow> (string \<Rightarrow> string \<Rightarrow> string + 'a) \<Rightarrow> string \<Rightarrow> ceph_file \<Rightarrow> ceph_error + 'a" where
  "node_read env remotes below call cluster f =
     and_then (ceph_connect env remotes below cluster f) (\<lambda>m.
       case cm_node m of
         None \<Rightarrow> Inl No_Node
       | Some nod \<Rightarrow> (case call (or_empty (cm_remote m)) nod of Inl err \<Rightarrow> Inl (Ceph_Status_Failed err) | Inr v \<Rightarrow> Inr v))"

definition cached_or_fetch_status ::
  "ceph_env \<Rightarrow> remote section_config \<Rightarrow> string \<Rightarrow> ceph_member list \<Rightarrow> i64 \<Rightarrow> files \<Rightarrow> (ceph_error + json) \<times> files" where
  "cached_or_fetch_status env remotes cluster ms max_age fs =
     (case cached_status env cluster max_age fs of
        Inl err \<Rightarrow> (Inl (Ceph_Cache err), fs)
      | Inr (Some status) \<Rightarrow> (Inr status, fs)
      | Inr None \<Rightarrow>
          (case connect_cluster env remotes ms of
             Inl err \<Rightarrow> (Inl err, fs)
           | Inr m \<Rightarrow>
               (case cn_status env (or_empty (cm_remote m)) of
                  Server_Error err \<Rightarrow> (Inl (Ceph_Status_Failed err), fs)
                | Transport_Error err \<Rightarrow> (Inl (Ceph_Status_Failed err), fs)
                | Answer status \<Rightarrow>
                    (case store_status env cluster status fs of
                       (Inl err, fs) \<Rightarrow> (Inl (Ceph_Cache err), fs)
                     | (Inr _, fs) \<Rightarrow> (Inr status, fs)))))"

definition request_max_age :: "nat option \<Rightarrow> i64" where
  "request_max_age max_age = wrap_i64 (int (case max_age of None \<Rightarrow> DEFAULT_STATUS_MAX_AGE | Some n \<Rightarrow> n))"

definition get_status :: "ceph_env \<Rightarrow> remote section_config \<Rightarrow> (string \<Rightarrow> bool) \<Rightarrow> string \<Rightarrow> nat option \<Rightarrow> files \<Rightarrow> ceph_file \<Rightarrow> (ceph_error + json) \<times> files" where
  "get_status env remotes below cluster max_age fs f =
     (case access_checked_members env below cluster f of
        Inl err \<Rightarrow> (Inl err, fs)
      | Inr ms \<Rightarrow> cached_or_fetch_status env remotes cluster ms (request_max_age max_age) fs)"

text \<open>The last of the largest entries.\<close>

fun last_max :: "(string \<times> rat) list \<Rightarrow> (string \<times> rat) option" where
  "last_max [] = None"
| "last_max (p # ps) = (case last_max ps of None \<Rightarrow> Some p | Some q \<Rightarrow> if snd q < snd p then Some p else Some q)"

definition finite_usage :: "string \<times> pool_used option \<Rightarrow> (string \<times> rat) option" where
  "finite_usage = (\<lambda>(name, used). case used of Some (Finite u) \<Rightarrow> Some (name, u * 100) | _ \<Rightarrow> None)"

definition add_pools :: "string + (string \<times> pool_used option) list \<Rightarrow> ceph_cluster_status \<Rightarrow> ceph_cluster_status" where
  "add_pools pools s =
     (case pools of
        Inl _ \<Rightarrow> s
      | Inr ps \<Rightarrow>
          (case last_max (List.map_filter finite_usage ps) of
             None \<Rightarrow> s
           | Some (name, used) \<Rightarrow> s\<lparr>ct_fullest_pool := Some name, ct_fullest_pool_used := Some used\<rparr>))"

definition add_versions :: "string + string option list \<Rightarrow> ceph_cluster_status \<Rightarrow> ceph_cluster_status" where
  "add_versions versions s =
     (case versions of
        Inl _ \<Rightarrow> s
      | Inr vs \<Rightarrow>
          (let vs = sort (remdups (List.map_filter id vs))
           in s\<lparr>ct_version_mixed := 1 < length vs, ct_version := (if vs = [] then None else Some (last vs))\<rparr>))"

definition enrich_summary :: "ceph_env \<Rightarrow> remote section_config \<Rightarrow> ceph_member list \<Rightarrow> ceph_cluster_status \<Rightarrow> ceph_cluster_status" where
  "enrich_summary env remotes ms s =
     (case connect_cluster env remotes ms of
        Inl _ \<Rightarrow> s
      | Inr m \<Rightarrow>
          (case cm_node m of
             None \<Rightarrow> s
           | Some nod \<Rightarrow>
               add_versions (cn_mon_versions env (or_empty (cm_remote m)) nod)
                 (add_pools (cn_pools env (or_empty (cm_remote m)) nod) s)))"

definition get_summary :: "ceph_env \<Rightarrow> remote section_config \<Rightarrow> (string \<Rightarrow> bool) \<Rightarrow> string \<Rightarrow> nat option \<Rightarrow> files \<Rightarrow> ceph_file \<Rightarrow> (ceph_error + ceph_cluster_status) \<times> files" where
  "get_summary env remotes below cluster max_age fs f =
     (case access_checked_members env below cluster f of
        Inl err \<Rightarrow> (Inl err, fs)
      | Inr ms \<Rightarrow>
          (case cached_or_fetch_status env remotes cluster ms (request_max_age max_age) fs of
             (Inl err, fs) \<Rightarrow> (Inl err, fs)
           | (Inr raw, fs) \<Rightarrow>
               (Inr ((enrich_summary env remotes ms (summarize_status cluster raw))\<lparr>ct_members :=
                  map (\<lambda>m. \<lparr>vm_kind = cm_kind m, vm_remote = cm_remote m, vm_node = cm_node m, vm_site = cm_site m\<rparr>) ms\<rparr>), fs)))"

section \<open>The list of clusters\<close>

record ceph_cluster_list_entry =
  le_cluster :: string
  le_display_name :: string
  le_state :: ceph_cluster_state
  le_member_count :: i64
  le_health :: "string option"
  le_remote :: "string option"
  le_node :: "string option"
  le_bytes_used :: "i64 option"
  le_bytes_total :: "i64 option"
  le_bytes_avail :: "i64 option"
  le_osds_up :: "i64 option"
  le_osds_in :: "i64 option"
  le_osds_total :: "i64 option"
  le_mons_in_quorum :: "i64 option"
  le_mons_total :: "i64 option"
  le_recovering :: "bool option"
  le_degraded :: "bool option"
  le_nearfull :: "bool option"
  le_problem_count :: "i64 option"

definition positive :: "rat option \<Rightarrow> bool" where
  "positive r = (case r of None \<Rightarrow> False | Some q \<Rightarrow> 0 < q)"

fun contains_str :: "string \<Rightarrow> string \<Rightarrow> bool" where
  "contains_str needle [] = (needle = [])"
| "contains_str needle (c # cs) = (take (length needle) (c # cs) = needle \<or> contains_str needle cs)"

text \<open>The first eight characters; text of one-byte characters has a boundary there.\<close>

definition short_name :: "string \<Rightarrow> string" where
  "short_name i = ''ceph-'' @ (if length i < 8 then i else take 8 i)"

definition list_entry :: "ceph_env \<Rightarrow> files \<Rightarrow> ceph_cluster \<times> ceph_member list \<Rightarrow> ceph_cluster_list_entry" where
  "list_entry env fs = (\<lambda>(c, ms).
     let summary = (case cached_status env (cc_id c) LIST_STATUS_MAX_AGE fs of
                      Inr (Some raw) \<Rightarrow> Some (summarize_status (cc_id c) raw) | _ \<Rightarrow> None);
         rmt = (case List.map_filter cm_remote ms of [] \<Rightarrow> None | r # _ \<Rightarrow> Some r)
     in \<lparr>le_cluster = cc_id c,
         le_display_name = (case cc_display_name c of None \<Rightarrow> short_name (cc_id c) | Some n \<Rightarrow> n),
         le_state = (case cc_state c of None \<Rightarrow> Ceph_Detected | Some s \<Rightarrow> s),
         le_member_count = int (length ms),
         le_health = map_option ct_health summary,
         le_remote = rmt,
         le_node = Option.bind rmt (\<lambda>r. Option.bind (List.find (\<lambda>m. cm_remote m = Some r) ms) cm_node),
         le_bytes_used = map_option ct_bytes_used summary,
         le_bytes_total = map_option ct_bytes_total summary,
         le_bytes_avail = map_option ct_bytes_avail summary,
         le_osds_up = map_option ct_osds_up summary,
         le_osds_in = map_option ct_osds_in summary,
         le_osds_total = map_option ct_osds_total summary,
         le_mons_in_quorum = map_option ct_mons_in_quorum summary,
         le_mons_total = map_option ct_mons_total summary,
         le_recovering = map_option (\<lambda>s. ct_recovery_bytes_sec s \<noteq> None \<or> positive (ct_misplaced_ratio s)) summary,
         le_degraded = map_option (\<lambda>s. positive (ct_degraded_ratio s)) summary,
         le_nearfull = map_option (\<lambda>s. list_ex (\<lambda>c. contains_str ''FULL'' (hc_code c)) (ct_checks s)) summary,
         le_problem_count = map_option (\<lambda>s. int (length (ct_checks s))) summary\<rparr>)"

definition list_clusters :: "ceph_env \<Rightarrow> (string \<Rightarrow> bool) \<Rightarrow> files \<Rightarrow> ceph_file \<Rightarrow> ceph_error + ceph_cluster_list_entry list" where
  "list_clusters env below fs f =
     and_then (untyped_to_typed (cn_authid env) f) (\<lambda>cfg. Inr (map (list_entry env fs) (accessible_clusters below cfg)))"

end
