(* ===== verification/Ceph_Sweep_Props.thy ===== *)
theory Ceph_Sweep_Props
  imports Ceph_Props Ceph_Api
begin

text \<open>
  Properties of detection: what upserts and demotions leave of each entry, the effect of a whole sweep, and that a second
  one with the same results changes nothing.
\<close>

section \<open>Upserts\<close>

text \<open>Lookups after the members of one cluster were added: the first remote that reported a node is kept.\<close>

fun first_member :: "string \<Rightarrow> (string \<times> string) list \<Rightarrow> string \<Rightarrow> ceph_member option" where
  "first_member fsid [] i = None"
| "first_member fsid (rn # rns) i = (if cm_id (new_member fsid rn) = i then Some (new_member fsid rn) else first_member fsid rns i)"

lemma upsert_member_rest:
  "cf_clusters (snd (fold (upsert_member fsid) rns (ch, cfg))) = cf_clusters cfg"
  "cf_extras (snd (fold (upsert_member fsid) rns (ch, cfg))) = cf_extras cfg"
  by (induction rns arbitrary: ch cfg) (auto simp: upsert_member_def Let_def)

lemma upsert_members_get:
  "sc_get (cf_members (snd (fold (upsert_member fsid) rns (ch, cfg)))) i
     = (case sc_get (cf_members cfg) i of Some m \<Rightarrow> Some m | None \<Rightarrow> first_member fsid rns i)"
  by (induction rns arbitrary: ch cfg) (auto simp: upsert_member_def Let_def sc.get_insert split: option.splits)

lemma upsert_members_wf: "sc_wf (cf_members cfg) \<Longrightarrow> sc_wf (cf_members (snd (fold (upsert_member fsid) rns (ch, cfg))))"
  by (induction rns arbitrary: ch cfg) (auto simp: upsert_member_def Let_def sc.wf_insert)

lemma upsert_members_changed:
  "fst (fold (upsert_member fsid) rns (ch, cfg)) \<longleftrightarrow> ch \<or> (\<exists>rn \<in> set rns. sc_get (cf_members cfg) (cm_id (new_member fsid rn)) = None)"
proof (induction rns arbitrary: ch cfg)
  case (Cons rn rns)
  show ?case
  proof (cases "sc_get (cf_members cfg) (cm_id (new_member fsid rn))")
    case None
    then have "fst (fold (upsert_member fsid) rns (True, cfg\<lparr>cf_members := sc_insert (cm_id (new_member fsid rn)) (new_member fsid rn) (cf_members cfg)\<rparr>))"
      using Cons.IH by blast
    moreover have "upsert_member fsid rn (ch, cfg)
        = (True, cfg\<lparr>cf_members := sc_insert (cm_id (new_member fsid rn)) (new_member fsid rn) (cf_members cfg)\<rparr>)"
      using None by (simp add: upsert_member_def Let_def)
    ultimately show ?thesis using None by simp
  next
    case (Some m)
    then have "upsert_member fsid rn (ch, cfg) = (ch, cfg)" by (simp add: upsert_member_def Let_def)
    then show ?thesis using Some by (simp add: Cons.IH)
  qed
qed simp

lemma first_member_Some:
  assumes "first_member fsid rns i = Some m"
  shows "\<exists>rmt nod. (rmt, nod) \<in> set rns \<and> m = new_member fsid (rmt, nod) \<and> i = fsid @ ''-'' @ nod"
  using assms by (induction rns) (auto simp: new_member_def split: if_splits)

definition refreshed :: "string \<Rightarrow> ceph_cluster option \<Rightarrow> ceph_cluster" where
  "refreshed fsid old = (case old of None \<Rightarrow> new_cluster fsid | Some c \<Rightarrow> c)\<lparr>cc_state := Some Ceph_Detected, cc_last_seen_missing := None\<rparr>"

definition tombstoned :: "ceph_config \<Rightarrow> string \<Rightarrow> bool" where
  "tombstoned cfg i \<longleftrightarrow> (\<exists>c. sc_get (cf_clusters cfg) i = Some c \<and> cc_forgotten c \<noteq> None)"

lemma refreshed_eq:
  "(if cc_state c \<noteq> Some Ceph_Detected \<or> cc_last_seen_missing c \<noteq> None
    then c\<lparr>cc_state := Some Ceph_Detected, cc_last_seen_missing := None\<rparr> else c) = c\<lparr>cc_state := Some Ceph_Detected, cc_last_seen_missing := None\<rparr>"
  for c :: ceph_cluster
  by (auto intro: ceph_cluster.equality)

lemma upsert_cluster_get:
  "sc_get (cf_clusters (snd (upsert_cluster fsid rns cfg))) i
     = (if i = fsid \<and> \<not> tombstoned cfg fsid then Some (refreshed fsid (sc_get (cf_clusters cfg) fsid)) else sc_get (cf_clusters cfg) i)"
  "sc_get (cf_members (snd (upsert_cluster fsid rns cfg))) i
     = (case sc_get (cf_members cfg) i of Some m \<Rightarrow> Some m | None \<Rightarrow> if tombstoned cfg fsid then None else first_member fsid rns i)"
  "cf_extras (snd (upsert_cluster fsid rns cfg)) = cf_extras cfg"
  unfolding upsert_cluster_def Let_def refreshed_eq
  by (auto simp: tombstoned_def upsert_member_rest upsert_members_get sc.get_insert refreshed_def split: option.splits)

lemma upsert_cluster_wf:
  "sc_wf (cf_clusters cfg) \<Longrightarrow> sc_wf (cf_members cfg) \<Longrightarrow>
     sc_wf (cf_clusters (snd (upsert_cluster fsid rns cfg))) \<and> sc_wf (cf_members (snd (upsert_cluster fsid rns cfg)))"
  by (auto simp: upsert_cluster_def Let_def upsert_member_rest upsert_members_wf sc.wf_insert)

lemma upsert_cluster_changed:
  "fst (upsert_cluster fsid rns cfg) \<longleftrightarrow> \<not> tombstoned cfg fsid
     \<and> (sc_get (cf_clusters cfg) fsid \<noteq> Some (refreshed fsid (sc_get (cf_clusters cfg) fsid))
        \<or> (\<exists>rn \<in> set rns. sc_get (cf_members cfg) (cm_id (new_member fsid rn)) = None))"
proof -
  have "cc_state c \<noteq> Some Ceph_Detected \<or> cc_last_seen_missing c \<noteq> None \<longleftrightarrow>
      c \<noteq> c\<lparr>cc_state := Some Ceph_Detected, cc_last_seen_missing := None\<rparr>" for c :: ceph_cluster
    by (cases c) auto
  then show ?thesis
    by (auto simp: upsert_cluster_def Let_def tombstoned_def refreshed_def upsert_members_changed split: option.splits)
qed

lemma upsert_cluster_ok:
  assumes ok: "ceph_ok authid cfg" and l: "length fsid = 36"
  shows "ceph_ok authid (snd (upsert_cluster fsid rns cfg))"
proof -
  have c: "cluster_ok fsid (refreshed fsid (sc_get (cf_clusters cfg) fsid))"
    using ceph_okD(3) [OF ok, of fsid] l
    by (auto simp: refreshed_def cluster_ok_def cluster_good_def new_cluster_def i64_option_def split: option.splits)
  have "member_ok authid i m \<and> sc_get (cf_clusters (snd (upsert_cluster fsid rns cfg))) (cm_cluster m) \<noteq> None"
    if m: "sc_get (cf_members (snd (upsert_cluster fsid rns cfg))) i = Some m" for i m
  proof (cases "sc_get (cf_members cfg) i")
    case None
    with m have t: "\<not> tombstoned cfg fsid" and "first_member fsid rns i = Some m" by (auto simp: upsert_cluster_get split: if_splits)
    then obtain rmt nod where "m = new_member fsid (rmt, nod)" "i = fsid @ ''-'' @ nod" using first_member_Some by blast
    then show ?thesis using l t by (simp add: upsert_cluster_get member_ok_def new_member_def member_good_def)
  next
    case (Some m')
    then show ?thesis using ceph_okD(4,5) [OF ok, of i m] m by (auto simp: upsert_cluster_get)
  qed
  then show ?thesis
    using c upsert_cluster_wf [OF ceph_okD(1,2) [OF ok]] ceph_okD(3,6) [OF ok]
    unfolding ceph_ok_def by (auto simp: upsert_cluster_get split: if_splits)
qed

section \<open>Everything a run found\<close>

definition found_ok :: "ceph_found \<Rightarrow> bool" where
  "found_ok found \<longleftrightarrow> sc_wf found \<and> (\<forall>i \<in> set (map fst found). length i = 36)"

text \<open>The upserts one after the other, without the flag.\<close>

definition upserted :: "ceph_found \<Rightarrow> ceph_config \<Rightarrow> ceph_config" where
  "upserted found cfg = fold (\<lambda>(fsid, rns) cfg. snd (upsert_cluster fsid rns cfg)) (sort_key fst found) cfg"

lemma upsert_found_snd: "snd (upsert_found found (ch, cfg)) = upserted found cfg"
proof -
  have "snd (fold (\<lambda>(fsid, rns) (ch, cfg). let (ch', cfg) = upsert_cluster fsid rns cfg in (ch \<or> ch', cfg)) xs (ch, cfg))
      = fold (\<lambda>(fsid, rns) cfg. snd (upsert_cluster fsid rns cfg)) xs cfg" for xs ch cfg
    by (induction xs arbitrary: ch cfg) (simp_all add: case_prod_beta Let_def)
  then show ?thesis by (simp add: upsert_found_def upserted_def)
qed

lemma fold_upsert_ok:
  "ceph_ok authid cfg \<Longrightarrow> (\<forall>p \<in> set xs. length (fst p) = 36) \<Longrightarrow>
     ceph_ok authid (fold (\<lambda>(fsid, rns) cfg. snd (upsert_cluster fsid rns cfg)) xs cfg)"
  by (induction xs arbitrary: cfg) (auto simp: upsert_cluster_ok)

lemma upserted_ok: "ceph_ok authid cfg \<Longrightarrow> found_ok found \<Longrightarrow> ceph_ok authid (upserted found cfg)"
  unfolding upserted_def by (rule fold_upsert_ok) (auto simp: found_ok_def)

lemma tombstoned_upsert: "tombstoned (snd (upsert_cluster fsid rns cfg)) i \<longleftrightarrow> tombstoned cfg i"
  by (auto simp: tombstoned_def upsert_cluster_get refreshed_def new_cluster_def split: option.splits if_splits)

lemma fold_upsert_clusters:
  "distinct (map fst xs) \<Longrightarrow>
     sc_get (cf_clusters (fold (\<lambda>(fsid, rns) cfg. snd (upsert_cluster fsid rns cfg)) xs cfg)) i
       = (if i \<in> fst ` set xs \<and> \<not> tombstoned cfg i then Some (refreshed i (sc_get (cf_clusters cfg) i)) else sc_get (cf_clusters cfg) i)"
proof (induction xs arbitrary: cfg)
  case (Cons p xs)
  obtain fsid rns where p: "p = (fsid, rns)" by (cases p)
  have "fsid \<notin> fst ` set xs" using Cons.prems p by simp
  then show ?case using Cons by (auto simp: p tombstoned_upsert upsert_cluster_get)
qed simp

lemma upserted_clusters:
  assumes "found_ok found"
  shows "sc_get (cf_clusters (upserted found cfg)) i
    = (if sc_get found i \<noteq> None \<and> \<not> tombstoned cfg i then Some (refreshed i (sc_get (cf_clusters cfg) i)) else sc_get (cf_clusters cfg) i)"
proof -
  have "distinct (map fst (sort_key fst found))" using assms by (simp add: found_ok_def sc_wf_def distinct_map inj_on_def)
  moreover have "i \<in> fst ` set (sort_key fst found) \<longleftrightarrow> sc_get found i \<noteq> None" using keys_get [of i found] by simp
  ultimately show ?thesis by (simp add: upserted_def fold_upsert_clusters)
qed

lemma fold_upsert_members:
  "sc_get (cf_members (fold (\<lambda>(fsid, rns) cfg. snd (upsert_cluster fsid rns cfg)) xs cfg)) i = Some m \<Longrightarrow>
     sc_get (cf_members cfg) i = Some m \<or> cm_cluster m \<in> fst ` set xs"
proof (induction xs arbitrary: cfg)
  case (Cons p xs)
  obtain fsid rns where p: "p = (fsid, rns)" by (cases p)
  have "cm_cluster m = fsid" if "first_member fsid rns i = Some m" using first_member_Some [OF that] by (auto simp: new_member_def)
  then show ?case using Cons by (fastforce simp: p upsert_cluster_get split: option.splits if_splits)
qed simp

lemma fold_upsert_keeps:
  "sc_get (cf_members cfg) i = Some m \<Longrightarrow> sc_get (cf_members (fold (\<lambda>(fsid, rns) cfg. snd (upsert_cluster fsid rns cfg)) xs cfg)) i = Some m"
  by (induction xs arbitrary: cfg) (auto simp: upsert_cluster_get)

lemma upserted_members:
  "sc_get (cf_members cfg) i = Some m \<Longrightarrow> sc_get (cf_members (upserted found cfg)) i = Some m"
  "sc_get (cf_members (upserted found cfg)) i = Some m \<Longrightarrow> sc_get (cf_members cfg) i = Some m \<or> sc_get found (cm_cluster m) \<noteq> None"
  using fold_upsert_keeps [of cfg i m "sort_key fst found"] fold_upsert_members [of "sort_key fst found" cfg i m]
    keys_get [of "cm_cluster m" found] by (auto simp: upserted_def)

section \<open>Demotion\<close>

text \<open>The outcomes of the remotes behind a cluster.\<close>

definition probes :: "ceph_config \<Rightarrow> ceph_outcomes \<Rightarrow> string \<Rightarrow> probe_outcome set" where
  "probes cfg outcomes i =
     {out. \<exists>j m rmt. sc_get (cf_members cfg) j = Some m \<and> cm_kind m = Kind_Pve \<and> cm_cluster m = i \<and> cm_remote m = Some rmt
        \<and> sc_get outcomes rmt = Some out}"

lemma set_map_filter': "set (List.map_filter f xs) = {y. \<exists>x \<in> set xs. f x = Some y}"
  by (induction xs) (auto simp: map_filter_simps split: option.splits)

lemma probed_set:
  assumes "sc_wf (cf_members cfg)"
  shows "set (List.map_filter (sc_get outcomes) (member_remotes cfg i)) = probes cfg outcomes i"
  using assms by (force simp: set_map_filter' member_remotes_def probes_def sc.get_iter split: if_splits)

lemma demotion_probes:
  assumes "sc_wf (cf_members cfg)"
  shows "demotion cfg found outcomes (i, c) =
    (if sc_get found i \<noteq> None \<or> cc_forgotten c \<noteq> None \<or> probes cfg outcomes i = {} then None
     else Some (i, if Probe_Unreachable \<in> probes cfg outcomes i then Ceph_Unreachable else Ceph_Gone))"
proof -
  have "List.map_filter (sc_get outcomes) (member_remotes cfg i) = [] \<longleftrightarrow> probes cfg outcomes i = {}"
    using probed_set [OF assms, of outcomes i] by (metis set_empty)
  then show ?thesis using probed_set [OF assms, of outcomes i] by (auto simp: demotion_def Let_def)
qed

definition demoted :: "i64 \<Rightarrow> ceph_cluster_state \<Rightarrow> ceph_cluster \<Rightarrow> ceph_cluster" where
  "demoted now s c =
     (if s = Ceph_Gone then c\<lparr>cc_state := Some Ceph_Gone, cc_last_seen_missing := (case cc_last_seen_missing c of None \<Rightarrow> Some now | Some t \<Rightarrow> Some t)\<rparr>
      else c\<lparr>cc_state := Some Ceph_Unreachable\<rparr>)"

definition demotes :: "ceph_cluster_state \<Rightarrow> bool" where
  "demotes s \<longleftrightarrow> s = Ceph_Gone \<or> s = Ceph_Unreachable"

lemma demote_step:
  assumes "demotes s"
  shows "demote now (i, s) (ch, cfg) =
    (case sc_get (cf_clusters cfg) i of None \<Rightarrow> (ch, cfg)
     | Some c \<Rightarrow> (ch \<or> demoted now s c \<noteq> c, cfg\<lparr>cf_clusters := sc_insert i (demoted now s c) (cf_clusters cfg)\<rparr>))"
proof (cases "sc_get (cf_clusters cfg) i")
  case (Some c)
  obtain i' dn pn cn sm tm st lm fg where c: "c = \<lparr>cc_id = i', cc_display_name = dn, cc_public_network = pn, cc_cluster_network = cn,
      cc_stretch_mode = sm, cc_tiebreaker_mon = tm, cc_state = st, cc_last_seen_missing = lm, cc_forgotten = fg\<rparr>" by (cases c)
  show ?thesis using assms Some
    by (auto simp: demote_def demotes_def demoted_def Let_def c split: option.splits)
qed (simp add: demote_def)

lemma fold_demote_rest:
  "cf_members (snd (fold (demote now) us (ch, cfg))) = cf_members cfg" "cf_extras (snd (fold (demote now) us (ch, cfg))) = cf_extras cfg"
  by (induction us arbitrary: ch cfg) (auto simp: demote_def Let_def split: option.splits ceph_cluster_state.splits)

lemma fold_demote_get:
  "distinct (map fst us) \<Longrightarrow> (\<forall>u \<in> set us. demotes (snd u)) \<Longrightarrow>
     sc_get (cf_clusters (snd (fold (demote now) us (ch, cfg)))) i
       = (case map_of us i of None \<Rightarrow> sc_get (cf_clusters cfg) i | Some s \<Rightarrow> map_option (demoted now s) (sc_get (cf_clusters cfg) i))"
proof (induction us arbitrary: ch cfg)
  case (Cons u us)
  obtain j s where u: "u = (j, s)" by (cases u)
  have "map_of us j = None" using Cons.prems u by (simp add: map_of_eq_None_iff)
  then show ?case using Cons by (auto simp: u demote_step sc.get_insert split: option.splits)
qed simp

lemma fold_demote_changed:
  "distinct (map fst us) \<Longrightarrow> (\<forall>u \<in> set us. demotes (snd u)) \<Longrightarrow>
     fst (fold (demote now) us (ch, cfg)) \<longleftrightarrow> ch \<or> (\<exists>u \<in> set us. \<exists>c. sc_get (cf_clusters cfg) (fst u) = Some c \<and> demoted now (snd u) c \<noteq> c)"
proof (induction us arbitrary: ch cfg)
  case (Cons u us)
  obtain j s where u: "u = (j, s)" by (cases u)
  have d: "demotes s" and n: "j \<notin> fst ` set us" using Cons.prems u by auto
  show ?case
  proof (cases "sc_get (cf_clusters cfg) j")
    case None
    then show ?thesis using Cons d by (simp add: u demote_step)
  next
    case (Some c)
    have "sc_get (sc_insert j c'' (cf_clusters cfg)) (fst u) = sc_get (cf_clusters cfg) (fst u)" if "u \<in> set us" for u c''
      using n that by (auto simp: sc.get_insert)
    then show ?thesis using Cons d Some by (simp add: u demote_step cong: bex_cong)
  qed
qed simp

lemma fold_demote_wf: "sc_wf (cf_clusters cfg) \<Longrightarrow> sc_wf (cf_clusters (snd (fold (demote now) us (ch, cfg))))"
  by (induction us arbitrary: ch cfg)
    (auto simp: demote_def Let_def sc.wf_insert split: option.splits ceph_cluster_state.splits)

lemma map_of_demotions:
  assumes "\<And>i c. (i, c) \<in> set cs \<Longrightarrow> case g (i, c) of None \<Rightarrow> True | Some (j, s) \<Rightarrow> j = i" and "distinct (map fst cs)"
  shows "map_of (List.map_filter g cs) i = Option.bind (map_of cs i) (\<lambda>c. map_option snd (g (i, c)))"
    and "distinct (map fst (List.map_filter g cs))" and "fst ` set (List.map_filter g cs) \<subseteq> fst ` set cs"
  using assms
proof (induction cs)
  case (Cons p cs)
  obtain j c where p: "p = (j, c)" by (cases p)
  {
    case 1
    have n: "map_of cs j = None" using 1(2) p by (simp add: map_of_eq_None_iff)
    have "map_of (List.map_filter g cs) i = Option.bind (map_of cs i) (\<lambda>c. map_option snd (g (i, c)))" using Cons.IH(1) 1 by simp
    then show ?case using 1(1) [of j c] n by (auto simp: p map_filter_simps split: option.splits)
  next
    case 2
    have "j \<notin> fst ` set cs" using 2 p by simp
    then show ?case using Cons.IH(2,3) 2 by (auto simp: p map_filter_simps split: option.splits) (force split: option.splits)
  next
    case 3
    then show ?case using Cons.IH(3) by (auto simp: p map_filter_simps split: option.splits) (force split: option.splits)+
  }
qed (simp_all add: map_filter_simps)

definition verdict :: "ceph_config \<Rightarrow> ceph_found \<Rightarrow> ceph_outcomes \<Rightarrow> string \<Rightarrow> ceph_cluster \<Rightarrow> ceph_cluster_state option" where
  "verdict cfg found outcomes i c =
     (if sc_get found i \<noteq> None \<or> cc_forgotten c \<noteq> None \<or> probes cfg outcomes i = {} then None
      else Some (if Probe_Unreachable \<in> probes cfg outcomes i then Ceph_Unreachable else Ceph_Gone))"

definition judged :: "i64 \<Rightarrow> ceph_cluster_state option \<Rightarrow> ceph_cluster \<Rightarrow> ceph_cluster" where
  "judged now v c = (case v of None \<Rightarrow> c | Some s \<Rightarrow> demoted now s c)"

lemma demotion_verdict: "sc_wf (cf_members cfg) \<Longrightarrow> demotion cfg found outcomes (i, c) = map_option (Pair i) (verdict cfg found outcomes i c)"
  by (simp add: demotion_probes verdict_def)

lemma verdict_demotes: "verdict cfg found outcomes i c = Some s \<Longrightarrow> demotes s"
  by (auto simp: verdict_def demotes_def split: if_splits)

lemma reconcile_updates:
  assumes "sc_wf (cf_clusters cfg)" and "sc_wf (cf_members cfg)"
    and "us = List.map_filter (demotion cfg found outcomes) (cf_clusters cfg)"
  shows "distinct (map fst us)" "\<forall>u \<in> set us. demotes (snd u)"
    "map_of us i = Option.bind (sc_get (cf_clusters cfg) i) (verdict cfg found outcomes i)"
proof -
  note d = demotion_verdict [OF assms(2)]
  note us_def = assms(3)
  show "distinct (map fst us)" unfolding us_def using assms(1) by (intro map_of_demotions(2)) (simp_all add: d sc_wf_def split: option.splits)
  show "\<forall>u \<in> set us. demotes (snd u)" unfolding us_def
    by (auto simp: set_map_filter' d dest!: verdict_demotes)
  have "map_of us i = Option.bind (map_of (cf_clusters cfg) i) (\<lambda>c. map_option snd (demotion cfg found outcomes (i, c)))"
    unfolding us_def using assms(1) by (intro map_of_demotions(1)) (simp_all add: d sc_wf_def split: option.splits)
  then show "map_of us i = Option.bind (sc_get (cf_clusters cfg) i) (verdict cfg found outcomes i)"
    by (simp add: d sc_get_def option.map_comp comp_def option.map_ident)
qed

lemma reconcile_get:
  assumes "sc_wf (cf_clusters cfg)" and "sc_wf (cf_members cfg)"
  shows "sc_get (cf_clusters (snd (reconcile_unfound found outcomes now cfg))) i
      = map_option (\<lambda>c. judged now (verdict cfg found outcomes i c) c) (sc_get (cf_clusters cfg) i)"
    "cf_members (snd (reconcile_unfound found outcomes now cfg)) = cf_members cfg"
    "cf_extras (snd (reconcile_unfound found outcomes now cfg)) = cf_extras cfg"
    "sc_wf (cf_clusters (snd (reconcile_unfound found outcomes now cfg)))"
  using assms unfolding reconcile_unfound_def
  by (cases "sc_get (cf_clusters cfg) i"; simp add: fold_demote_get [OF reconcile_updates(1,2) [OF assms refl]]
      reconcile_updates(3) [OF assms refl] judged_def fold_demote_rest fold_demote_wf split: option.splits)+

lemma reconcile_changed:
  assumes "sc_wf (cf_clusters cfg)" and "sc_wf (cf_members cfg)"
  shows "fst (reconcile_unfound found outcomes now cfg) \<longleftrightarrow>
    (\<exists>i c. sc_get (cf_clusters cfg) i = Some c \<and> judged now (verdict cfg found outcomes i c) c \<noteq> c)"
proof -
  let ?us = "List.map_filter (demotion cfg found outcomes) (cf_clusters cfg)"
  note u = reconcile_updates [OF assms refl, of found outcomes]
  have "u \<in> set ?us \<longleftrightarrow> (\<exists>c. sc_get (cf_clusters cfg) (fst u) = Some c \<and> verdict cfg found outcomes (fst u) c = Some (snd u))" for u
  proof -
    have "u \<in> set ?us \<longleftrightarrow> map_of ?us (fst u) = Some (snd u)" using u(1) by simp
    then show ?thesis by (simp add: u(3) bind_eq_Some_conv)
  qed
  then have "fst (reconcile_unfound found outcomes now cfg) \<longleftrightarrow>
      (\<exists>u. (\<exists>c. sc_get (cf_clusters cfg) (fst u) = Some c \<and> verdict cfg found outcomes (fst u) c = Some (snd u))
         \<and> (\<exists>c. sc_get (cf_clusters cfg) (fst u) = Some c \<and> demoted now (snd u) c \<noteq> c))"
    unfolding reconcile_unfound_def fold_demote_changed [OF u(1,2)] by blast
  also have "\<dots> \<longleftrightarrow> (\<exists>i c. sc_get (cf_clusters cfg) i = Some c \<and> judged now (verdict cfg found outcomes i c) c \<noteq> c)"
    by (fastforce simp: judged_def split: option.splits)
  finally show ?thesis .
qed

lemma judged_ok:
  assumes "cluster_ok i c" and "i64_range now"
  shows "cluster_ok i (judged now (verdict cfg found outcomes i c) c)"
proof (cases "verdict cfg found outcomes i c")
  case (Some s)
  then have "demotes s" by (rule verdict_demotes)
  then show ?thesis using assms Some
    by (auto simp: judged_def demoted_def demotes_def cluster_ok_def cluster_good_def i64_option_def split: option.splits)
qed (use assms in \<open>simp add: judged_def\<close>)

lemma reconcile_ok:
  assumes ok: "ceph_ok authid cfg" and now: "i64_range now"
  shows "ceph_ok authid (snd (reconcile_unfound found outcomes now cfg))"
  using ok judged_ok [OF _ now] unfolding ceph_ok_def by (auto simp: reconcile_get)

section \<open>Whole commits\<close>

definition same_registry :: "ceph_config \<Rightarrow> ceph_config \<Rightarrow> bool" where
  "same_registry cfg cfg' \<longleftrightarrow> sc_get (cf_clusters cfg') = sc_get (cf_clusters cfg) \<and> sc_get (cf_members cfg') = sc_get (cf_members cfg)"

lemma same_registry_trans: "same_registry a b \<Longrightarrow> same_registry b c \<Longrightarrow> same_registry a c"
  by (simp add: same_registry_def)

lemma upsert_same:
  assumes "\<not> fst (upsert_cluster fsid rns cfg)"
  shows "same_registry cfg (snd (upsert_cluster fsid rns cfg))"
proof (cases "tombstoned cfg fsid")
  case True
  then show ?thesis by (auto simp: same_registry_def fun_eq_iff upsert_cluster_get split: option.splits)
next
  case False
  then have c: "sc_get (cf_clusters cfg) fsid = Some (refreshed fsid (sc_get (cf_clusters cfg) fsid))"
    and m: "\<And>rn. rn \<in> set rns \<Longrightarrow> sc_get (cf_members cfg) (cm_id (new_member fsid rn)) \<noteq> None"
    using assms by (auto simp: upsert_cluster_changed)
  have "first_member fsid rns i = None" if "sc_get (cf_members cfg) i = None" for i
    using that m by (cases "first_member fsid rns i") (fastforce dest!: first_member_Some simp: new_member_def)+
  then show ?thesis using c by (auto simp: same_registry_def fun_eq_iff upsert_cluster_get False split: option.splits)
qed

lemma upsert_found_same:
  assumes "\<not> fst (upsert_found found (False, cfg))"
  shows "same_registry cfg (upserted found cfg)"
proof -
  have mono: "ch \<Longrightarrow> fst (fold (\<lambda>(fsid, rns) (ch, cfg). let (ch', cfg) = upsert_cluster fsid rns cfg in (ch \<or> ch', cfg)) xs (ch, cfg))" for xs ch cfg
    by (induction xs arbitrary: ch cfg) (simp_all add: case_prod_beta Let_def)
  have "\<not> fst (fold (\<lambda>(fsid, rns) (ch, cfg). let (ch', cfg) = upsert_cluster fsid rns cfg in (ch \<or> ch', cfg)) xs (False, cfg)) \<Longrightarrow>
      same_registry cfg (fold (\<lambda>(fsid, rns) cfg. snd (upsert_cluster fsid rns cfg)) xs cfg)" for xs
  proof (induction xs arbitrary: cfg)
    case (Cons p xs)
    obtain fsid rns where p: "p = (fsid, rns)" by (cases p)
    obtain ch cfg1 where u: "upsert_cluster fsid rns cfg = (ch, cfg1)" by fastforce
    have "\<not> ch" using Cons.prems mono by (auto simp: p u)
    then show ?case using Cons upsert_same [of fsid rns cfg] by (auto simp: p u intro: same_registry_trans)
  qed (simp add: same_registry_def)
  then show ?thesis using assms by (simp add: upsert_found_def upserted_def)
qed

lemma save_changed_read:
  assumes "untyped_to_typed authid f = Inr cfg" and "ceph_ok authid cfg" and "ceph_ok authid cfg1" and "\<not> ch \<Longrightarrow> same_registry cfg cfg1"
    and "cn_valid env (ceph_write cfg1)"
  shows "fst (save_changed env (ch, cfg1) f) = Inr () \<and>
    (\<exists>cfg'. untyped_to_typed authid (snd (save_changed env (ch, cfg1) f)) = Inr cfg' \<and> ceph_ok authid cfg' \<and> same_registry cfg1 cfg')"
proof (cases ch)
  case True
  then show ?thesis using written_read [OF assms(3)] assms(5) by (auto simp: save_changed_def ceph_save_def same_registry_def)
next
  case False
  then show ?thesis using assms by (auto simp: save_changed_def same_registry_def)
qed

definition file_ok :: "(string \<Rightarrow> bool) \<Rightarrow> ceph_file \<Rightarrow> bool" where
  "file_ok authid f \<longleftrightarrow> (\<exists>cfg. untyped_to_typed authid f = Inr cfg \<and> ceph_ok authid cfg)"

lemma save_changed_ok: "file_ok authid f \<Longrightarrow> ceph_ok authid cfg1 \<Longrightarrow> file_ok authid (snd (save_changed env (ch, cfg1) f))"
  using written_read [of authid cfg1] by (auto simp: save_changed_def ceph_save_def file_ok_def)

definition swept_config :: "ceph_found \<Rightarrow> ceph_outcomes \<Rightarrow> i64 \<Rightarrow> ceph_config \<Rightarrow> ceph_config" where
  "swept_config found outcomes now cfg = snd (reconcile_unfound found outcomes now (upserted found cfg))"

lemma commit_sweep_eq:
  assumes "untyped_to_typed (cn_authid env) f = Inr cfg"
  shows "commit_sweep env outcomes found f =
    save_changed env (fst (upsert_found found (False, cfg)) \<or> fst (reconcile_unfound found outcomes (cn_now env) (upserted found cfg)),
      swept_config found outcomes (cn_now env) cfg) f"
proof -
  obtain ch cfg1 where u: "upsert_found found (False, cfg) = (ch, cfg1)" by fastforce
  then have "cfg1 = upserted found cfg" using upsert_found_snd [of found False cfg] by simp
  then show ?thesis using assms u by (simp add: commit_sweep_def swept_config_def case_prod_beta)
qed

lemma swept_ok: "ceph_ok authid cfg \<Longrightarrow> found_ok found \<Longrightarrow> i64_range now \<Longrightarrow> ceph_ok authid (swept_config found outcomes now cfg)"
  unfolding swept_config_def by (intro reconcile_ok upserted_ok)

lemma commit_sweep_ok:
  assumes "file_ok (cn_authid env) f" and "found_ok found" and "i64_range (cn_now env)"
  shows "file_ok (cn_authid env) (snd (commit_sweep env outcomes found f))"
proof -
  obtain cfg where cfg: "untyped_to_typed (cn_authid env) f = Inr cfg" "ceph_ok (cn_authid env) cfg" using assms(1) by (auto simp: file_ok_def)
  show ?thesis unfolding commit_sweep_eq [OF cfg(1)]
    using assms(1) swept_ok [OF cfg(2) assms(2,3)] by (rule save_changed_ok)
qed

lemma commit_found_ok:
  assumes "file_ok (cn_authid env) f" and "found_ok found"
  shows "file_ok (cn_authid env) (snd (commit_found env found f))"
proof -
  obtain cfg where cfg: "untyped_to_typed (cn_authid env) f = Inr cfg" "ceph_ok (cn_authid env) cfg" using assms(1) by (auto simp: file_ok_def)
  obtain ch where u: "upsert_found found (False, cfg) = (ch, upserted found cfg)" using upsert_found_snd by (metis prod.collapse)
  show ?thesis using assms(1) save_changed_ok [OF assms(1) upserted_ok [OF cfg(2) assms(2)]] by (simp add: commit_found_def cfg(1) u)
qed

lemma fold_remove_get: "sc_get (fold sc_remove is m) j = (if j \<in> set is then None else sc_get m j)"
  by (induction "is" arbitrary: m) (auto simp: sc.get_remove)

lemma fold_remove_wf: "sc_wf m \<Longrightarrow> sc_wf (fold sc_remove is m)"
  by (induction "is" arbitrary: m) (auto simp: sc.wf_remove)

section \<open>The effect of a sweep\<close>

lemma probes_upserted:
  assumes "sc_get found i = None"
  shows "probes (upserted found cfg) outcomes i = probes cfg outcomes i"
  using upserted_members [where cfg = cfg and found = found] assms unfolding probes_def by blast

lemma verdict_upserted: "sc_get found i = None \<Longrightarrow> verdict (upserted found cfg) found outcomes i c = verdict cfg found outcomes i c"
  by (simp add: verdict_def probes_upserted)

text \<open>What a sweep makes of the entry of a cluster.\<close>

definition swept :: "ceph_config \<Rightarrow> ceph_found \<Rightarrow> ceph_outcomes \<Rightarrow> i64 \<Rightarrow> string \<Rightarrow> ceph_cluster option" where
  "swept cfg found outcomes now i =
     (case sc_get (cf_clusters cfg) i of
        None \<Rightarrow> if sc_get found i \<noteq> None then Some ((new_cluster i)\<lparr>cc_state := Some Ceph_Detected\<rparr>) else None
      | Some c \<Rightarrow> Some (
          if cc_forgotten c \<noteq> None then c
          else if sc_get found i \<noteq> None then c\<lparr>cc_state := Some Ceph_Detected, cc_last_seen_missing := None\<rparr>
          else if probes cfg outcomes i = {} then c
          else if Probe_Unreachable \<in> probes cfg outcomes i then c\<lparr>cc_state := Some Ceph_Unreachable\<rparr>
          else c\<lparr>cc_state := Some Ceph_Gone, cc_last_seen_missing := (case cc_last_seen_missing c of None \<Rightarrow> Some now | Some t \<Rightarrow> Some t)\<rparr>))"

lemma swept_config_get:
  assumes ok: "ceph_ok authid cfg" and "found_ok found"
  shows "sc_get (cf_clusters (swept_config found outcomes now cfg)) i = swept cfg found outcomes now i"
proof -
  have u: "ceph_ok authid (upserted found cfg)" using assms by (rule upserted_ok)
  have "sc_get (cf_clusters (swept_config found outcomes now cfg)) i
      = map_option (\<lambda>c. judged now (verdict (upserted found cfg) found outcomes i c) c) (sc_get (cf_clusters (upserted found cfg)) i)"
    unfolding swept_config_def by (rule reconcile_get(1) [OF ceph_okD(1,2) [OF u]])
  also have "\<dots> = swept cfg found outcomes now i"
  proof (cases "sc_get found i")
    case None
    then show ?thesis
      by (cases "sc_get (cf_clusters cfg) i")
        (simp_all add: upserted_clusters [OF assms(2)] probes_upserted swept_def judged_def verdict_def demoted_def)
  next
    case (Some rns)
    then have "verdict (upserted found cfg) found outcomes i c = None" for c by (simp add: verdict_def)
    then show ?thesis using Some
      by (cases "sc_get (cf_clusters cfg) i")
        (auto simp: upserted_clusters [OF assms(2)] swept_def judged_def tombstoned_def refreshed_def new_cluster_def)
  qed
  finally show ?thesis .
qed

lemma unchanged_same:
  assumes ok: "ceph_ok authid cfg" and "found_ok found"
    and "\<not> (fst (upsert_found found (False, cfg)) \<or> fst (reconcile_unfound found outcomes now (upserted found cfg)))"
  shows "same_registry cfg (swept_config found outcomes now cfg)"
proof -
  have u: "ceph_ok authid (upserted found cfg)" using assms(1,2) by (rule upserted_ok)
  note r = reconcile_get [OF ceph_okD(1,2) [OF u], of found outcomes now]
  have "\<forall>i c. sc_get (cf_clusters (upserted found cfg)) i = Some c \<longrightarrow> judged now (verdict (upserted found cfg) found outcomes i c) c = c"
    using assms(3) unfolding reconcile_changed [OF ceph_okD(1,2) [OF u]] by blast
  then have "sc_get (cf_clusters (swept_config found outcomes now cfg)) i = sc_get (cf_clusters (upserted found cfg)) i" for i
    unfolding swept_config_def r(1) by (cases "sc_get (cf_clusters (upserted found cfg)) i") auto
  then have "same_registry (upserted found cfg) (swept_config found outcomes now cfg)"
    by (simp add: same_registry_def fun_eq_iff swept_config_def r(2))
  then show ?thesis using upsert_found_same [of found cfg] assms(3) same_registry_trans by blast
qed

lemma commit_sweep_read:
  assumes "untyped_to_typed (cn_authid env) f = Inr cfg" and "ceph_ok (cn_authid env) cfg" and "found_ok found" and "i64_range (cn_now env)"
    and "\<forall>g. cn_valid env g"
  shows "fst (commit_sweep env outcomes found f) = Inr () \<and>
    (\<exists>cfg'. untyped_to_typed (cn_authid env) (snd (commit_sweep env outcomes found f)) = Inr cfg' \<and> ceph_ok (cn_authid env) cfg'
       \<and> same_registry (swept_config found outcomes (cn_now env) cfg) cfg')"
  unfolding commit_sweep_eq [OF assms(1)]
  using assms(5) by (intro save_changed_read [OF assms(1,2) swept_ok [OF assms(2-4)] unchanged_same [OF assms(2,3)]]) simp_all

text \<open>The effect of a sweep on the registry, for every cluster: one that some remote reported is recorded as detected and no
  longer missing; of those not reported, one with an unreachable remote behind its members becomes unreachable, one whose
  remotes all answered becomes gone and keeps the time it was first missed, and one none of whose remotes was probed stays
  as it is, as does every forgotten cluster. Members are only added, and only to reported clusters.\<close>

theorem ceph_sweep_exact:
  assumes "untyped_to_typed (cn_authid env) f = Inr cfg" and "ceph_ok (cn_authid env) cfg" and "found_ok found" and "i64_range (cn_now env)"
    and "\<forall>g. cn_valid env g"
  shows "fst (commit_sweep env outcomes found f) = Inr () \<and>
    (\<exists>cfg'. untyped_to_typed (cn_authid env) (snd (commit_sweep env outcomes found f)) = Inr cfg'
       \<and> (\<forall>i. sc_get (cf_clusters cfg') i = swept cfg found outcomes (cn_now env) i)
       \<and> (\<forall>i m. sc_get (cf_members cfg) i = Some m \<longrightarrow> sc_get (cf_members cfg') i = Some m)
       \<and> (\<forall>i m. sc_get (cf_members cfg') i = Some m \<longrightarrow> sc_get (cf_members cfg) i = Some m \<or> sc_get found (cm_cluster m) \<noteq> None))"
proof -
  obtain cfg' where c: "fst (commit_sweep env outcomes found f) = Inr ()" "untyped_to_typed (cn_authid env) (snd (commit_sweep env outcomes found f)) = Inr cfg'"
    and s: "same_registry (swept_config found outcomes (cn_now env) cfg) cfg'"
    using commit_sweep_read [OF assms] by blast
  have u: "ceph_ok (cn_authid env) (upserted found cfg)" using assms(2,3) by (rule upserted_ok)
  have "cf_members (swept_config found outcomes (cn_now env) cfg) = cf_members (upserted found cfg)"
    unfolding swept_config_def by (rule reconcile_get(2) [OF ceph_okD(1,2) [OF u]])
  then have "sc_get (cf_members cfg') = sc_get (cf_members (upserted found cfg))" using s by (simp add: same_registry_def)
  moreover have "sc_get (cf_clusters cfg') i = swept cfg found outcomes (cn_now env) i" for i
    using s swept_config_get [OF assms(2,3)] by (simp add: same_registry_def)
  ultimately show ?thesis using c upserted_members [where cfg = cfg and found = found] by auto
qed

text \<open>A cluster with an unreachable remote behind it becomes unreachable even if another remote behind it answered, and one that
  had been gone keeps the time it was missed when it becomes unreachable.\<close>

theorem mixed_probes_unreachable:
  assumes "untyped_to_typed (cn_authid env) f = Inr cfg" and "ceph_ok (cn_authid env) cfg" and "found_ok found" and "i64_range (cn_now env)"
    and "\<forall>g. cn_valid env g" and "sc_get (cf_clusters cfg) i = Some c" and "cc_forgotten c = None" and "sc_get found i = None"
    and "Probe_Unreachable \<in> probes cfg outcomes i"
  shows "\<exists>cfg'. untyped_to_typed (cn_authid env) (snd (commit_sweep env outcomes found f)) = Inr cfg'
     \<and> sc_get (cf_clusters cfg') i = Some (c\<lparr>cc_state := Some Ceph_Unreachable\<rparr>)"
proof -
  have "swept cfg found outcomes (cn_now env) i = Some (c\<lparr>cc_state := Some Ceph_Unreachable\<rparr>)"
    using assms(6-9) by (auto simp: swept_def)
  then show ?thesis using ceph_sweep_exact [OF assms(1-5), of outcomes] by auto
qed


section \<open>Sweeping again\<close>

lemma upserted_present:
  assumes "(fsid, rns) \<in> set found" and "\<not> tombstoned cfg fsid" and "rn \<in> set rns"
  shows "sc_get (cf_members (upserted found cfg)) (cm_id (new_member fsid rn)) \<noteq> None"
proof -
  have first: "rn \<in> set rns \<Longrightarrow> first_member fsid rns (cm_id (new_member fsid rn)) \<noteq> None" for rns by (induction rns) auto
  have "(fsid, rns) \<in> set xs \<Longrightarrow> \<not> tombstoned cfg fsid \<Longrightarrow>
      sc_get (cf_members (fold (\<lambda>(fsid, rns) cfg. snd (upsert_cluster fsid rns cfg)) xs cfg)) (cm_id (new_member fsid rn)) \<noteq> None" for xs cfg
  proof (induction xs arbitrary: cfg)
    case (Cons p xs)
    show ?case
    proof (cases "p = (fsid, rns)")
      case True
      have "sc_get (cf_members (snd (upsert_cluster fsid rns cfg))) (cm_id (new_member fsid rn)) \<noteq> None"
        using Cons.prems(2) first [OF assms(3)] by (simp add: upsert_cluster_get split: option.splits)
      then show ?thesis using True fold_upsert_keeps by fastforce
    next
      case False
      then have "(fsid, rns) \<in> set xs" using Cons.prems by auto
      then show ?thesis using Cons by (cases p) (simp add: tombstoned_upsert)
    qed
  qed simp
  then show ?thesis using assms(1,2) by (simp add: upserted_def)
qed

definition settled :: "ceph_config \<Rightarrow> string \<times> (string \<times> string) list \<Rightarrow> bool" where
  "settled cfg = (\<lambda>(fsid, rns). tombstoned cfg fsid
     \<or> sc_get (cf_clusters cfg) fsid = Some (refreshed fsid (sc_get (cf_clusters cfg) fsid))
       \<and> (\<forall>rn \<in> set rns. sc_get (cf_members cfg) (cm_id (new_member fsid rn)) \<noteq> None))"

lemma settled_unchanged: "settled cfg (fsid, rns) \<Longrightarrow> \<not> fst (upsert_cluster fsid rns cfg)"
  by (auto simp: settled_def upsert_cluster_changed)

lemma settled_same: "same_registry cfg cfg' \<Longrightarrow> settled cfg' = settled cfg"
  by (simp add: settled_def same_registry_def tombstoned_def)

lemma settled_found:
  assumes "\<forall>p \<in> set found. settled cfg p"
  shows "\<not> fst (upsert_found found (False, cfg))"
proof -
  have "\<forall>p \<in> set xs. settled cfg p \<Longrightarrow>
      \<not> fst (fold (\<lambda>(fsid, rns) (ch, cfg). let (ch', cfg) = upsert_cluster fsid rns cfg in (ch \<or> ch', cfg)) xs (False, cfg))" for xs
  proof (induction xs arbitrary: cfg)
    case (Cons p xs)
    obtain fsid rns where p: "p = (fsid, rns)" by (cases p)
    obtain cfg1 where u: "upsert_cluster fsid rns cfg = (False, cfg1)"
      using settled_unchanged [of cfg fsid rns] Cons.prems p by (cases "upsert_cluster fsid rns cfg") auto
    have "same_registry cfg cfg1" using upsert_same [of fsid rns cfg] u by simp
    then have "settled cfg1 = settled cfg" by (rule settled_same)
    then show ?case using Cons by (simp add: p u)
  qed simp
  then show ?thesis using assms by (simp add: upsert_found_def)
qed

lemma judged_again:
  assumes "\<And>s. v = Some s \<Longrightarrow> demotes s"
  shows "judged now' v (judged now v c) = judged now v c"
  using assms by (cases v) (auto simp: judged_def demoted_def demotes_def split: option.splits)

lemma judged_forgotten: "cc_forgotten (judged now v c) = cc_forgotten c"
  by (simp add: judged_def demoted_def split: option.splits)

lemma verdict_judged: "verdict cfg found outcomes i (judged now v c) = verdict cfg found outcomes i c"
  by (simp add: verdict_def judged_forgotten)

lemma verdict_same: "same_registry cfg cfg' \<Longrightarrow> verdict cfg' = verdict cfg"
  by (intro ext) (simp add: verdict_def probes_def same_registry_def)

lemma swept_settled:
  assumes ok: "ceph_ok authid cfg" and f: "found_ok found" and p: "p \<in> set found"
  shows "settled (swept_config found outcomes now cfg) p"
proof -
  obtain fsid rns where p': "p = (fsid, rns)" by (cases p)
  have g: "sc_get found fsid = Some rns" using p f by (simp add: p' found_ok_def sc.get_iter)
  have u: "ceph_ok authid (upserted found cfg)" using ok f by (rule upserted_ok)
  have m: "cf_members (swept_config found outcomes now cfg) = cf_members (upserted found cfg)"
    unfolding swept_config_def by (rule reconcile_get(2) [OF ceph_okD(1,2) [OF u]])
  have c: "sc_get (cf_clusters (swept_config found outcomes now cfg)) fsid = swept cfg found outcomes now fsid"
    by (rule swept_config_get [OF ok f])
  show ?thesis
  proof (cases "tombstoned cfg fsid")
    case True
    then show ?thesis by (auto simp: p' settled_def tombstoned_def c swept_def)
  next
    case False
    have "swept cfg found outcomes now fsid = Some (refreshed fsid (swept cfg found outcomes now fsid))"
      using False g by (auto simp: swept_def refreshed_def tombstoned_def new_cluster_def split: option.splits)
    then show ?thesis using upserted_present [OF p [unfolded p'] False] by (auto simp: p' settled_def c m)
  qed
qed

text \<open>A sweep with the same results as the one before it does not write the registry again, at whatever time it runs.\<close>

theorem ceph_sweep_stable:
  assumes "untyped_to_typed (cn_authid env) f = Inr cfg" and "ceph_ok (cn_authid env) cfg" and "found_ok found" and "i64_range (cn_now env)"
    and "\<forall>g. cn_valid env g" and "cn_authid env' = cn_authid env"
  shows "commit_sweep env' outcomes found (snd (commit_sweep env outcomes found f)) = (Inr (), snd (commit_sweep env outcomes found f))"
proof -
  let ?f = "snd (commit_sweep env outcomes found f)" and ?sw = "swept_config found outcomes (cn_now env) cfg"
  obtain cfg' where r: "untyped_to_typed (cn_authid env) ?f = Inr cfg'" and ok: "ceph_ok (cn_authid env) cfg'" and s: "same_registry ?sw cfg'"
    using commit_sweep_read [OF assms(1-5)] by blast
  have "\<forall>p \<in> set found. settled cfg' p" using swept_settled [OF assms(2,3)] settled_same [OF s] by simp
  then have n: "\<not> fst (upsert_found found (False, cfg'))" by (rule settled_found)
  have s': "same_registry ?sw (upserted found cfg')" using s upsert_found_same [OF n] by (rule same_registry_trans)
  have u: "ceph_ok (cn_authid env) (upserted found cfg')" using ok assms(3) by (rule upserted_ok)
  have u0: "ceph_ok (cn_authid env) (upserted found cfg)" using assms(2,3) by (rule upserted_ok)
  note r0 = reconcile_get [OF ceph_okD(1,2) [OF u0], of found outcomes "cn_now env", folded swept_config_def]
  have v: "verdict ?sw = verdict (upserted found cfg)" by (intro ext) (simp add: verdict_def probes_def r0(2))
  have "judged (cn_now env') (verdict (upserted found cfg') found outcomes i c) c = c" if "sc_get (cf_clusters (upserted found cfg')) i = Some c" for i c
  proof -
    have "sc_get (cf_clusters ?sw) i = Some c" using that s' by (simp add: same_registry_def)
    then obtain c0 where c: "c = judged (cn_now env) (verdict (upserted found cfg) found outcomes i c0) c0" by (auto simp: r0(1))
    have "verdict (upserted found cfg) found outcomes i c = verdict (upserted found cfg) found outcomes i c0" by (simp add: c verdict_judged)
    moreover have "judged (cn_now env') (verdict (upserted found cfg) found outcomes i c0) c = c"
      unfolding c by (rule judged_again) (rule verdict_demotes)
    ultimately show ?thesis by (simp add: verdict_same [OF s'] v)
  qed
  then have "\<not> fst (reconcile_unfound found outcomes (cn_now env') (upserted found cfg'))"
    unfolding reconcile_changed [OF ceph_okD(1,2) [OF u]] by blast
  then show ?thesis using commit_sweep_eq [of env' ?f cfg' outcomes found] n r assms(6) by (simp add: save_changed_def)
qed

end
