(* ===== verification/Remote_Admin.thy ===== *)
theory Remote_Admin
  imports Ceph_Sweep
begin

text \<open>
  Adding and removing remotes, \<open>server/src/api/remotes/mod.rs\<close>: with the tokens created and deleted at the remote
  (\<open>create_admin_token\<close> and \<open>delete_token\<close> of \<open>server/src/pbs_client.rs\<close>), and together with the registry of
  Ceph clusters that both operations change. Detection runs beside them: its probes and its changes to the registry are
  two steps.
\<close>

section \<open>Tokens at the remote\<close>

text \<open>
  The parsers of auth ids and token names, and what the remotes answer.
\<close>

record admin_env =
  ae_user :: "string \<Rightarrow> string"
  ae_tokenname :: "string \<Rightarrow> string option"
  ae_parse_authid :: "string \<Rightarrow> string option"
  ae_valid_tokenname :: "string \<Rightarrow> bool"
  ae_login :: "remote \<Rightarrow> string + unit"
  ae_post_token :: "remote \<Rightarrow> string \<Rightarrow> string \<Rightarrow> string + (string \<times> string)"
  ae_put_acl :: "remote \<Rightarrow> string \<Rightarrow> string \<Rightarrow> string + unit"
  ae_client :: "remote \<Rightarrow> string + unit"
  ae_delete_token :: "remote \<Rightarrow> string \<Rightarrow> string \<Rightarrow> string + unit"

text \<open>Changes made at remotes: user and token name.\<close>

datatype remote_call = Token_Created string string string | Admin_Granted string string string | Token_Deleted string string string

definition create_admin_token ::
  "admin_env \<Rightarrow> remote \<Rightarrow> string \<Rightarrow> string \<Rightarrow> remote_call list \<Rightarrow> (string + (string \<times> string)) \<times> remote_call list" where
  "create_admin_token env r user name calls =
     (case ae_post_token env r user name of
        Inl err \<Rightarrow> (Inl err, calls)
      | Inr token \<Rightarrow>
          let calls = calls @ [Token_Created (r_id r) user name]
          in case ae_put_acl env r user name of
               Inl err \<Rightarrow> (Inl err, calls)
             | Inr _ \<Rightarrow> (Inr token, calls @ [Admin_Granted (r_id r) user name]))"

definition parse_created :: "admin_env \<Rightarrow> string \<times> string \<Rightarrow> remotes_error + (string \<times> string)" where
  "parse_created env = (\<lambda>(tokenid, v).
     case ae_parse_authid env tokenid of None \<Rightarrow> Inl (Create_Token_Failed tokenid) | Some a \<Rightarrow> Inr (a, v))"

definition create_remote_token ::
  "admin_env \<Rightarrow> remote \<Rightarrow> string \<Rightarrow> remote_call list \<Rightarrow> (remotes_error + (string \<times> string)) \<times> remote_call list" where
  "create_remote_token env r name calls =
     (case ae_login env r of
        Inl err \<Rightarrow> (Inl (Create_Token_Failed err), calls)
      | Inr _ \<Rightarrow>
          let user = ae_user env (r_authid r)
          in case r_ty r of
               Remote_Pve \<Rightarrow>
                 (case ae_post_token env r user name of
                    Inl err \<Rightarrow> (Inl (Create_Token_Failed err), calls)
                  | Inr token \<Rightarrow> (parse_created env token, calls @ [Token_Created (r_id r) user name]))
             | Remote_Pbs \<Rightarrow>
                 if \<not> ae_valid_tokenname env name then (Inl (Create_Token_Failed name), calls)
                 else (case create_admin_token env r user name calls of
                         (Inl err, calls) \<Rightarrow> (Inl (Create_Token_Failed err), calls)
                       | (Inr token, calls) \<Rightarrow> (parse_created env token, calls)))"

section \<open>The handlers\<close>

datatype in_flight = Sweep_Result ceph_outcomes ceph_found | Detect_Result ceph_found

record admin_state =
  ad_files :: remote_files
  ad_ceph :: ceph_file
  ad_cache :: files
  ad_calls :: "remote_call list"
  ad_triggered :: "string list"
  ad_spawned :: "string list"
  ad_in_flight :: "in_flight list"

definition entry_with_token ::
  "admin_env \<Rightarrow> remote \<Rightarrow> string option \<Rightarrow> remote_call list \<Rightarrow> (remotes_error + remote) \<times> remote_call list" where
  "entry_with_token env entry create_token calls =
     (case create_token of
        None \<Rightarrow> (Inr entry, calls)
      | Some name \<Rightarrow>
          (case create_remote_token env entry name calls of
             (Inl err, calls) \<Rightarrow> (Inl err, calls)
           | (Inr (a, t), calls) \<Rightarrow> (Inr (entry\<lparr>r_authid := a, r_token := t\<rparr>), calls)))"

definition add_remote :: "admin_env \<Rightarrow> write_fault \<Rightarrow> remote \<Rightarrow> string option \<Rightarrow> admin_state \<Rightarrow> (remotes_error + unit) \<times> admin_state" where
  "add_remote env fault entry create_token ad =
     (let remotes = rf_config (ad_files ad)
      in if sc_get remotes (r_id entry) \<noteq> None then (Inl (Entry_Exists (r_id entry)), ad)
         else case entry_with_token env entry create_token (ad_calls ad) of
                (Inl err, calls) \<Rightarrow> (Inl err, ad\<lparr>ad_calls := calls\<rparr>)
              | (Inr entry, calls) \<Rightarrow>
                  (case save_config fault (sc_insert (r_id entry) entry remotes) (ad_files ad) of
                     (Inl err, rf) \<Rightarrow> (Inl err, ad\<lparr>ad_calls := calls, ad_files := rf\<rparr>)
                   | (Inr _, rf) \<Rightarrow>
                       (Inr (), ad\<lparr>ad_calls := calls, ad_files := rf, ad_triggered := ad_triggered ad @ [r_id entry],
                                  ad_spawned := ad_spawned ad @ (if r_ty entry = Remote_Pve then [r_id entry] else [])\<rparr>)))"

definition delete_remote_token :: "admin_env \<Rightarrow> string \<Rightarrow> remote section_config \<Rightarrow> remote_call list \<Rightarrow> (remotes_error + unit) \<times> remote_call list" where
  "delete_remote_token env i remotes calls =
     (case sc_get remotes i of
        None \<Rightarrow> (Inl (No_Such_Remote i), calls)
      | Some r \<Rightarrow>
          let user = ae_user env (r_authid r)
          in case ae_tokenname env (r_authid r) of
               None \<Rightarrow> (Inl (No_Token_Name i), calls)
             | Some name \<Rightarrow>
                 (case ae_client env r of
                    Inl err \<Rightarrow> (Inl (Delete_Token_Failed err), calls)
                  | Inr _ \<Rightarrow>
                      (case ae_delete_token env r user name of
                         Inl err \<Rightarrow> (Inl (Delete_Token_Failed err), calls)
                       | Inr _ \<Rightarrow> (Inr (), calls @ [Token_Deleted i user name]))))"

definition remove_remote :: "admin_env \<Rightarrow> ceph_env \<Rightarrow> write_fault \<Rightarrow> string \<Rightarrow> bool \<Rightarrow> admin_state \<Rightarrow> (remotes_error + unit) \<times> admin_state" where
  "remove_remote env cenv fault i delete_token ad =
     (let remotes = rf_config (ad_files ad);
          (r, calls) = (if delete_token then delete_remote_token env i remotes (ad_calls ad) else (Inr (), ad_calls ad));
          ad = ad\<lparr>ad_calls := calls\<rparr>
      in case r of
           Inl err \<Rightarrow> (Inl err, ad)
         | Inr _ \<Rightarrow>
             if sc_get remotes i = None then (Inl (No_Such_Entry i), ad)
             else case save_config fault (sc_remove i remotes) (ad_files ad) of
                    (Inl err, rf) \<Rightarrow> (Inl err, ad\<lparr>ad_files := rf\<rparr>)
                  | (Inr _, rf) \<Rightarrow> (Inr (), ad\<lparr>ad_files := rf, ad_ceph := snd (on_remote_removed cenv i (ad_ceph ad))\<rparr>))"

definition admin_update ::
  "(remote section_config \<Rightarrow> string) \<Rightarrow> write_fault \<Rightarrow> string \<Rightarrow> remote_updater \<Rightarrow> deletable_property list option \<Rightarrow> string option \<Rightarrow>
   admin_state \<Rightarrow> (remotes_error + unit) \<times> admin_state" where
  "admin_update sha fault i u delete digest ad =
     (let (r, rf) = update_remote sha fault i u delete digest (ad_files ad) in (r, ad\<lparr>ad_files := rf\<rparr>))"

section \<open>Detection beside the handlers\<close>

text \<open>A sweep reads the configured remotes and probes them; its results are committed later.\<close>

definition start_sweep :: "ceph_env \<Rightarrow> admin_state \<Rightarrow> admin_state" where
  "start_sweep cenv ad =
     (let remotes = rf_config (ad_files ad);
          (outcomes, found, fs) = probe_all cenv remotes (list_pve_remotes remotes) ([], [], ad_cache ad)
      in ad\<lparr>ad_cache := fs, ad_in_flight := ad_in_flight ad @ [Sweep_Result outcomes found]\<rparr>)"

definition start_detect :: "ceph_env \<Rightarrow> string \<Rightarrow> admin_state \<Rightarrow> admin_state" where
  "start_detect cenv name ad =
     (let (_, found, fs) = probe_all cenv (rf_config (ad_files ad)) [name] ([], [], ad_cache ad)
      in ad\<lparr>ad_cache := fs, ad_spawned := remove1 name (ad_spawned ad), ad_in_flight := ad_in_flight ad @ [Detect_Result found]\<rparr>)"

definition commit :: "ceph_env \<Rightarrow> in_flight \<Rightarrow> ceph_file \<Rightarrow> ceph_file" where
  "commit cenv p f =
     (case p of Sweep_Result outcomes found \<Rightarrow> snd (commit_sweep cenv outcomes found f) | Detect_Result found \<Rightarrow> snd (commit_found cenv found f))"

definition finish :: "ceph_env \<Rightarrow> in_flight \<Rightarrow> admin_state \<Rightarrow> admin_state" where
  "finish cenv p ad = ad\<lparr>ad_ceph := commit cenv p (ad_ceph ad), ad_in_flight := remove1 p (ad_in_flight ad)\<rparr>"

end
