(* ===== verification/Remote_Admin_Props.thy ===== *)
theory Remote_Admin_Props
  imports Remote_Admin
begin

text \<open>
  Properties of the configured remotes: what saving leaves in the two files, and their refinement of a map from ids to
  settings and secrets.
\<close>

section \<open>Saving\<close>

definition config_ok :: "remote section_config \<Rightarrow> bool" where
  "config_ok config \<longleftrightarrow> sc_wf config \<and> (\<forall>i r. sc_get config i = Some r \<longrightarrow> r_id r = i)"

definition shadow_of :: "remote \<Rightarrow> remote_shadow" where
  "shadow_of r = \<lparr>sh_ty = r_ty r, sh_id = r_id r, sh_token = r_token r\<rparr>"

lemma new_shadow_entries_filter: "new_shadow_entries config = map shadow_of (filter (\<lambda>r. r_token r \<noteq> ''-'') (map snd config))"
proof -
  have "fold (\<lambda>(i, r) entries. if r_token r \<noteq> ''-'' then entries @ [\<lparr>sh_ty = r_ty r, sh_id = r_id r, sh_token = r_token r\<rparr>] else entries) config acc
      = acc @ map shadow_of (filter (\<lambda>r. r_token r \<noteq> ''-'') (map snd config))" for acc
    by (induction config arbitrary: acc) (auto simp: shadow_of_def)
  then show ?thesis by (simp add: new_shadow_entries_def)
qed

lemma sc_get_fold_remove:
  "sc_get (fold (\<lambda>i m. if P i then m else sc_remove i m) is m) j = (if j \<in> set is \<and> \<not> P j then None else sc_get m j)"
  by (induction "is" arbitrary: m) (auto simp: sc.get_remove)

lemma sc_wf_fold_remove: "sc_wf m \<Longrightarrow> sc_wf (fold (\<lambda>i m. if P i then m else sc_remove i m) is m)"
  by (induction "is" arbitrary: m) (auto simp: sc.wf_remove)

lemma sc_get_keys: "sc_get m i \<noteq> None \<longleftrightarrow> i \<in> set (map fst m)"
  by (auto simp: sc_get_def map_of_eq_None_iff)

lemma drop_leftover_get: "sc_get (drop_leftover_shadow config shadow) i = (if sc_get config i = None then None else sc_get shadow i)"
  using sc_get_keys [of config i] sc_get_keys [of shadow i] by (auto simp: drop_leftover_shadow_def sc_get_fold_remove)

lemma drop_leftover_wf: "sc_wf shadow \<Longrightarrow> sc_wf (drop_leftover_shadow config shadow)"
  by (simp add: drop_leftover_shadow_def sc_wf_fold_remove)

lemma add_entries_config:
  "sc_get (fst (fold add_shadow_entry es (config, shadow))) i
     = map_option (\<lambda>r. if i \<in> sh_id ` set es then r\<lparr>r_token := ''-''\<rparr> else r) (sc_get config i)"
proof (induction es arbitrary: config shadow)
  case (Cons e es)
  have "r\<lparr>r_token := ''-'', r_token := ''-''\<rparr> = r\<lparr>r_token := ''-''\<rparr>" for r :: remote by simp
  then show ?case using Cons by (cases "sc_get config i") (auto simp: add_shadow_entry_def sc.get_modify)
qed (simp add: option.map_ident)

lemma add_entries_shadow:
  "distinct (map sh_id es) \<Longrightarrow>
     sc_get (snd (fold add_shadow_entry es (config, shadow))) i
       = (case List.find (\<lambda>e. sh_id e = i) es of Some e \<Rightarrow> Some e | None \<Rightarrow> sc_get shadow i)"
proof (induction es arbitrary: config shadow)
  case (Cons e es)
  then have "sh_id e \<notin> sh_id ` set es" by simp
  then have "List.find (\<lambda>e. sh_id e = i) es = None" if "sh_id e = i"
    unfolding find_None_iff using that by (metis image_eqI)
  then show ?case using Cons by (auto simp: add_shadow_entry_def sc.get_insert split: option.splits)
qed simp

lemma add_entries_wf:
  "sc_wf config \<Longrightarrow> sc_wf shadow \<Longrightarrow>
     sc_wf (fst (fold add_shadow_entry es (config, shadow))) \<and> sc_wf (snd (fold add_shadow_entry es (config, shadow)))"
  by (induction es arbitrary: config shadow) (simp_all add: add_shadow_entry_def sc.wf_insert sc.wf_modify)

lemma entry_ids:
  assumes "config_ok config"
  shows "map (\<lambda>(i, r). r_id r) config = map fst config"
  using assms by (auto simp: config_ok_def sc.get_iter)

lemma distinct_entry_ids:
  assumes "config_ok config"
  shows "distinct (map sh_id (new_shadow_entries config))"
proof -
  have "map (\<lambda>p. r_id (snd p)) config = map fst config" using entry_ids [OF assms] by (simp add: case_prod_beta)
  then have "distinct (map (\<lambda>p. r_id (snd p)) config)" using assms by (simp only: config_ok_def sc_wf_def)
  then have "distinct (map (\<lambda>p. r_id (snd p)) (filter (\<lambda>p. r_token (snd p) \<noteq> ''-'') config))" by (rule distinct_map_filter)
  then show ?thesis by (simp add: new_shadow_entries_filter filter_map comp_def shadow_of_def)
qed

lemma entry_found:
  assumes "config_ok config"
  shows "List.find (\<lambda>e. sh_id e = i) (new_shadow_entries config)
    = (case sc_get config i of Some r \<Rightarrow> if r_token r \<noteq> ''-'' then Some (shadow_of r) else None | None \<Rightarrow> None)" (is "?f = ?r")
proof (cases ?f)
  case None
  then have "\<not> (\<exists>r. sc_get config i = Some r \<and> r_token r \<noteq> ''-'')"
    using assms by (auto simp: find_None_iff new_shadow_entries_filter shadow_of_def config_ok_def sc.get_iter)
  then show ?thesis using None by (auto split: option.splits)
next
  case (Some e)
  then have "e \<in> set (new_shadow_entries config)" "sh_id e = i" by (auto simp: find_Some_iff)
  then obtain j r where "(j, r) \<in> set config" "r_token r \<noteq> ''-''" "e = shadow_of r" "r_id r = i"
    by (auto simp: new_shadow_entries_filter shadow_of_def)
  moreover from this have "sc_get config j = Some r" using assms by (simp add: config_ok_def sc.get_iter)
  ultimately have "sc_get config i = Some r" using assms by (auto simp: config_ok_def)
  then show ?thesis using Some \<open>e = shadow_of r\<close> \<open>r_token r \<noteq> ''-''\<close> by simp
qed

definition saved_files :: "remote section_config \<Rightarrow> remote_files \<Rightarrow> remote_files" where
  "saved_files config rf = snd (save_config No_Fault config rf)"

lemma save_config_cases:
  "save_config No_Fault config rf = (Inr (), saved_files config rf)"
  "save_config Shadow_Fault config rf = (Inl Rm_Write_Failed, rf)"
  "save_config Config_Fault config rf = (Inl Rm_Write_Failed, rf\<lparr>rf_shadow := rf_shadow (saved_files config rf)\<rparr>)"
  by (simp_all add: saved_files_def save_config_def split: prod.splits)

lemma saved_config:
  assumes "config_ok config"
  shows "sc_get (rf_config (saved_files config rf)) i = map_option (\<lambda>r. r\<lparr>r_token := ''-''\<rparr>) (sc_get config i)"
proof -
  have "i \<in> sh_id ` set (new_shadow_entries config) \<longleftrightarrow> List.find (\<lambda>e. sh_id e = i) (new_shadow_entries config) \<noteq> None"
    by (auto simp: find_None_iff)
  then show ?thesis
    by (auto simp: saved_files_def save_config_def case_prod_beta Let_def add_entries_config entry_found [OF assms] split: option.splits)
qed

lemma saved_shadow:
  assumes "config_ok config"
  shows "sc_get (rf_shadow (saved_files config rf)) i
    = (case sc_get config i of None \<Rightarrow> None | Some r \<Rightarrow> if r_token r \<noteq> ''-'' then Some (shadow_of r) else sc_get (rf_shadow rf) i)"
  by (auto simp: saved_files_def save_config_def case_prod_beta Let_def add_entries_shadow [OF distinct_entry_ids [OF assms]]
      entry_found [OF assms] drop_leftover_get split: option.splits)

lemma saved_wf:
  assumes "config_ok config" and "sc_wf (rf_shadow rf)"
  shows "sc_wf (rf_config (saved_files config rf)) \<and> sc_wf (rf_shadow (saved_files config rf))"
  using add_entries_wf [of config "drop_leftover_shadow config (rf_shadow rf)"] drop_leftover_wf assms
  by (simp add: saved_files_def save_config_def case_prod_beta Let_def config_ok_def)

section \<open>Remotes with their secrets as a map\<close>

type_synonym remotes_view = "string \<rightharpoonup> remote \<times> string option"

definition secret_of :: "remote \<Rightarrow> remote_files \<Rightarrow> string option" where
  "secret_of r rf = (case get_secret_token r rf of Inl _ \<Rightarrow> None | Inr t \<Rightarrow> Some t)"

definition view_of :: "remote_files \<Rightarrow> remotes_view" where
  "view_of rf i = map_option (\<lambda>r. (r\<lparr>r_token := []\<rparr>, secret_of r rf)) (sc_get (rf_config rf) i)"

definition files_ok :: "remote_files \<Rightarrow> bool" where
  "files_ok rf \<longleftrightarrow> config_ok (rf_config rf) \<and> sc_wf (rf_shadow rf)
     \<and> (\<forall>i r. sc_get (rf_config rf) i = Some r \<longrightarrow> r_token r = ''-'')
     \<and> (\<forall>i. sc_get (rf_shadow rf) i \<noteq> None \<longrightarrow> sc_get (rf_config rf) i \<noteq> None)"

lemma saved_config_ok: "config_ok config \<Longrightarrow> sc_wf (rf_shadow rf) \<Longrightarrow> config_ok (rf_config (saved_files config rf))"
  using saved_wf [of config rf] saved_config [of config rf] unfolding config_ok_def by auto

lemma saved_files_ok:
  assumes "config_ok config" and "sc_wf (rf_shadow rf)"
  shows "files_ok (saved_files config rf)"
  using saved_config_ok [OF assms] saved_wf [OF assms] saved_config [OF assms(1)] saved_shadow [OF assms(1)]
  unfolding files_ok_def by (auto split: option.splits)

lemma secret_blank: "r_token r = ''-'' \<Longrightarrow> secret_of r rf = map_option sh_token (sc_get (rf_shadow rf) (r_id r))"
  by (simp add: secret_of_def get_secret_token_def split: option.splits)

text \<open>What a save leaves: each remote with the token it carries, or the secret kept so far.\<close>

lemma saved_view:
  assumes "config_ok config"
  shows "view_of (saved_files config rf) i =
    map_option (\<lambda>r. (r\<lparr>r_token := []\<rparr>, if r_token r \<noteq> ''-'' then Some (r_token r) else map_option sh_token (sc_get (rf_shadow rf) i)))
      (sc_get config i)"
proof (cases "sc_get config i")
  case (Some r)
  have i: "r_id r = i" using assms Some by (simp add: config_ok_def)
  have "view_of (saved_files config rf) i = Some (r\<lparr>r_token := []\<rparr>, secret_of (r\<lparr>r_token := ''-''\<rparr>) (saved_files config rf))"
    by (simp add: view_of_def saved_config [OF assms] Some)
  also have "secret_of (r\<lparr>r_token := ''-''\<rparr>) (saved_files config rf)
      = (if r_token r \<noteq> ''-'' then Some (r_token r) else map_option sh_token (sc_get (rf_shadow rf) i))"
    by (simp add: secret_blank i saved_shadow [OF assms] Some shadow_of_def)
  finally show ?thesis by (simp add: Some)
qed (simp add: view_of_def saved_config [OF assms])

lemma kept_view: "files_ok rf \<Longrightarrow> sc_get (rf_config rf) i = Some r \<Longrightarrow> view_of rf i = Some (r\<lparr>r_token := []\<rparr>, map_option sh_token (sc_get (rf_shadow rf) i))"
  by (simp add: view_of_def files_ok_def secret_blank config_ok_def)

lemma view_kept: "files_ok rf \<Longrightarrow> view_of rf i = map_option (\<lambda>r. (r\<lparr>r_token := []\<rparr>, map_option sh_token (sc_get (rf_shadow rf) i))) (sc_get (rf_config rf) i)"
  using kept_view [of rf i] by (cases "sc_get (rf_config rf) i") (simp_all add: view_of_def)

lemma config_ok_insert: "config_ok config \<Longrightarrow> config_ok (sc_insert (r_id r) r config)"
  by (simp add: config_ok_def sc.wf_insert sc.get_insert)

lemma config_ok_remove: "config_ok config \<Longrightarrow> config_ok (sc_remove i config)"
  by (simp add: config_ok_def sc.wf_remove sc.get_remove)

lemma fold_delete: "fold (\<lambda>p r. case p of Delete_Web_Url \<Rightarrow> r\<lparr>r_web_url := None\<rparr>) ps r = (if ps = [] then r else r\<lparr>r_web_url := None\<rparr>)"
proof (induction ps arbitrary: r)
  case (Cons p ps)
  then show ?case by (cases p) simp
qed simp

lemma updated_id: "r_id (apply_updater delete u r) = r_id r"
  by (simp add: apply_updater_def Let_def fold_delete split: option.splits)

lemma updated_token: "r_token (apply_updater delete u r) = (case rup_token u of None \<Rightarrow> r_token r | Some t \<Rightarrow> t)"
  by (simp add: apply_updater_def Let_def fold_delete split: option.splits)

lemma updated_rest: "(apply_updater delete u r)\<lparr>r_token := t\<rparr> = (apply_updater delete u (r\<lparr>r_token := t'\<rparr>))\<lparr>r_token := t\<rparr>"
proof (rule remote.equality)
  show "r_nodes ((apply_updater delete u r)\<lparr>r_token := t\<rparr>) = r_nodes ((apply_updater delete u (r\<lparr>r_token := t'\<rparr>))\<lparr>r_token := t\<rparr>)"
    by (simp add: apply_updater_def Let_def fold_delete split: option.splits)
  show "r_authid ((apply_updater delete u r)\<lparr>r_token := t\<rparr>) = r_authid ((apply_updater delete u (r\<lparr>r_token := t'\<rparr>))\<lparr>r_token := t\<rparr>)"
    by (simp add: apply_updater_def Let_def fold_delete split: option.splits)
  show "r_web_url ((apply_updater delete u r)\<lparr>r_token := t\<rparr>) = r_web_url ((apply_updater delete u (r\<lparr>r_token := t'\<rparr>))\<lparr>r_token := t\<rparr>)"
    by (simp add: apply_updater_def Let_def fold_delete split: option.splits)
  show "r_ty ((apply_updater delete u r)\<lparr>r_token := t\<rparr>) = r_ty ((apply_updater delete u (r\<lparr>r_token := t'\<rparr>))\<lparr>r_token := t\<rparr>)"
    by (simp add: apply_updater_def Let_def fold_delete split: option.splits)
qed (simp_all add: updated_id)

lemma config_ok_update: "config_ok config \<Longrightarrow> config_ok (sc_modify i (apply_updater delete u) config)"
  by (auto simp: config_ok_def sc.wf_modify sc.get_modify updated_id)

subsection \<open>The operations\<close>

text \<open>The digest that comes with an update: none, that of the file as it is, or any other.\<close>

datatype seen_digest = Not_Given | Up_To_Date | is_stale: Out_Of_Date string

datatype remote_op =
    Add_Op remote "string option"
  | Update_Op string remote_updater "deletable_property list option" seen_digest
  | Remove_Op string bool

fun digest_arg :: "seen_digest \<Rightarrow> string \<Rightarrow> string option" where
  "digest_arg Not_Given current = None"
| "digest_arg Up_To_Date current = Some current"
| "digest_arg (Out_Of_Date d) current = Some (if d = current then d @ ''x'' else d)"

text \<open>Calls whose writes to the two files succeed.\<close>

fun admin_op :: "admin_env \<Rightarrow> ceph_env \<Rightarrow> (remote section_config \<Rightarrow> string) \<Rightarrow> remote_op \<Rightarrow> admin_state \<Rightarrow> (remotes_error + unit) \<times> admin_state" where
  "admin_op env cenv sha (Add_Op entry create_token) ad = add_remote env No_Fault entry create_token ad"
| "admin_op env cenv sha (Update_Op i u delete seen) ad =
     admin_update sha No_Fault i u delete (digest_arg seen (sha (rf_config (ad_files ad)))) ad"
| "admin_op env cenv sha (Remove_Op i delete_token) ad = remove_remote env cenv No_Fault i delete_token ad"

text \<open>The entry to store: as given, or with the id and secret of the token that the remote created for it.\<close>

definition new_entry :: "admin_env \<Rightarrow> remote \<Rightarrow> string option \<Rightarrow> remotes_error + remote" where
  "new_entry env entry create_token =
     (case create_token of
        None \<Rightarrow> Inr entry
      | Some name \<Rightarrow>
          (case fst (create_remote_token env entry name []) of
             Inl err \<Rightarrow> Inl err
           | Inr (authid, secret) \<Rightarrow> Inr (entry\<lparr>r_authid := authid, r_token := secret\<rparr>)))"

text \<open>What the remote answers to the deletion of its token.\<close>

definition token_deletion :: "admin_env \<Rightarrow> string \<Rightarrow> bool \<Rightarrow> remotes_view \<Rightarrow> remotes_error + unit" where
  "token_deletion env i delete_token m =
     (if \<not> delete_token then Inr ()
      else case m i of
             None \<Rightarrow> Inl (No_Such_Remote i)
           | Some (r, _) \<Rightarrow> fst (delete_remote_token env i [(i, r\<lparr>r_token := ''-''\<rparr>)] []))"

fun view_op :: "admin_env \<Rightarrow> remote_op \<Rightarrow> remotes_view \<Rightarrow> (remotes_error + unit) \<times> remotes_view" where
  "view_op env (Add_Op entry create_token) m =
     (if m (r_id entry) \<noteq> None then (Inl (Entry_Exists (r_id entry)), m)
      else case new_entry env entry create_token of
             Inl err \<Rightarrow> (Inl err, m)
           | Inr e \<Rightarrow> (Inr (), m(r_id entry \<mapsto> (e\<lparr>r_token := []\<rparr>, if r_token e = ''-'' then None else Some (r_token e)))))"
| "view_op env (Update_Op i u delete seen) m =
     (if is_stale seen then (Inl Rm_Modified, m)
      else case m i of
        None \<Rightarrow> (Inl (No_Such_Remote i), m)
      | Some (r, secret) \<Rightarrow>
          (Inr (), m(i \<mapsto> ((apply_updater delete u r)\<lparr>r_token := []\<rparr>,
             case rup_token u of None \<Rightarrow> secret | Some t \<Rightarrow> if t = ''-'' then secret else Some t))))"
| "view_op env (Remove_Op i delete_token) m =
     (case token_deletion env i delete_token m of
        Inl err \<Rightarrow> (Inl err, m)
      | Inr _ \<Rightarrow> if m i = None then (Inl (No_Such_Entry i), m) else (Inr (), m(i := None)))"

lemma create_remote_token_answer: "fst (create_remote_token env r name calls) = fst (create_remote_token env r name [])"
  by (simp add: create_remote_token_def create_admin_token_def Let_def split: sum.split remote_type.split)

lemma entry_with_token_new: "fst (entry_with_token env entry create_token calls) = new_entry env entry create_token"
proof (cases create_token)
  case (Some name)
  obtain a calls' where c: "create_remote_token env entry name calls = (a, calls')" by fastforce
  then have "fst (create_remote_token env entry name []) = a" using create_remote_token_answer by (metis fst_conv)
  with Some c show ?thesis by (cases a) (auto simp: entry_with_token_def new_entry_def)
qed (simp add: entry_with_token_def new_entry_def)

lemma new_entry_id: "new_entry env entry create_token = Inr e \<Longrightarrow> r_id e = r_id entry"
  by (auto simp: new_entry_def split: option.splits sum.splits)

lemma delete_remote_token_answer:
  "fst (delete_remote_token env i remotes calls) =
     (case sc_get remotes i of None \<Rightarrow> Inl (No_Such_Remote i) | Some r \<Rightarrow> fst (delete_remote_token env i [(i, r)] []))"
  by (simp add: delete_remote_token_def Let_def sc_get_def split: option.split sum.split)

lemma token_deletion_answer:
  assumes "files_ok rf"
  shows "(if delete_token then fst (delete_remote_token env i (rf_config rf) calls) else Inr ())
    = token_deletion env i delete_token (view_of rf)"
proof (cases "sc_get (rf_config rf) i")
  case (Some r)
  have "r\<lparr>r_token := ''-''\<rparr> = r" using assms Some by (simp add: files_ok_def)
  then show ?thesis using Some
    by (simp add: token_deletion_def delete_remote_token_answer [of env i "rf_config rf"] view_of_def)
qed (simp add: token_deletion_def delete_remote_token_answer [of env i "rf_config rf"] view_of_def)

lemma digest_refused:
  "(case digest_arg seen current of None \<Rightarrow> False | Some d \<Rightarrow> d \<noteq> current) \<longleftrightarrow> is_stale seen"
  by (cases seen) auto

definition views :: "admin_state \<Rightarrow> remotes_view \<Rightarrow> bool" where
  "views ad m \<longleftrightarrow> files_ok (ad_files ad) \<and> view_of (ad_files ad) = m"

lemma view_None: "view_of rf i = None \<longleftrightarrow> sc_get (rf_config rf) i = None"
  by (simp add: view_of_def)

lemma shadow_None: "files_ok rf \<Longrightarrow> sc_get (rf_config rf) i = None \<Longrightarrow> sc_get (rf_shadow rf) i = None"
  by (auto simp: files_ok_def)

lemma view_insert:
  assumes "files_ok rf" and "sc_get (rf_config rf) (r_id entry) = None"
  shows "view_of (saved_files (sc_insert (r_id entry) entry (rf_config rf)) rf)
    = (view_of rf)(r_id entry \<mapsto> (entry\<lparr>r_token := []\<rparr>, if r_token entry = ''-'' then None else Some (r_token entry)))"
proof
  fix i
  have c: "config_ok (sc_insert (r_id entry) entry (rf_config rf))" using assms by (simp add: files_ok_def config_ok_insert)
  show "view_of (saved_files (sc_insert (r_id entry) entry (rf_config rf)) rf) i
    = ((view_of rf)(r_id entry \<mapsto> (entry\<lparr>r_token := []\<rparr>, if r_token entry = ''-'' then None else Some (r_token entry)))) i"
  proof (cases "i = r_id entry")
    case False
    have "r_token r = ''-''" if "sc_get (rf_config rf) i = Some r" for r using assms(1) that by (simp add: files_ok_def)
    with False show ?thesis
      by (cases "sc_get (rf_config rf) i") (auto simp: saved_view [OF c] sc.get_insert view_kept [OF assms(1)])
  qed (simp add: saved_view [OF c] sc.get_insert shadow_None [OF assms])
qed

lemma view_modify:
  assumes "files_ok rf" and "sc_get (rf_config rf) i = Some r"
  shows "view_of (saved_files (sc_modify i (apply_updater delete u) (rf_config rf)) rf)
    = (view_of rf)(i \<mapsto> ((apply_updater delete u r)\<lparr>r_token := []\<rparr>,
        case rup_token u of None \<Rightarrow> map_option sh_token (sc_get (rf_shadow rf) i)
          | Some t \<Rightarrow> if t = ''-'' then map_option sh_token (sc_get (rf_shadow rf) i) else Some t))"
proof
  fix j
  have c: "config_ok (sc_modify i (apply_updater delete u) (rf_config rf))" using assms by (simp add: files_ok_def config_ok_update)
  have t: "r_token r' = ''-''" if "sc_get (rf_config rf) j = Some r'" for j r' using assms(1) that by (simp add: files_ok_def)
  show "view_of (saved_files (sc_modify i (apply_updater delete u) (rf_config rf)) rf) j
    = ((view_of rf)(i \<mapsto> ((apply_updater delete u r)\<lparr>r_token := []\<rparr>,
        case rup_token u of None \<Rightarrow> map_option sh_token (sc_get (rf_shadow rf) i)
          | Some t \<Rightarrow> if t = ''-'' then map_option sh_token (sc_get (rf_shadow rf) i) else Some t))) j"
  proof (cases "j = i")
    case True
    then show ?thesis using t [OF assms(2)] assms(2)
      by (simp add: saved_view [OF c] sc.get_modify updated_token split: option.splits)
  next
    case False
    then show ?thesis using t [of j]
      by (cases "sc_get (rf_config rf) j") (auto simp: saved_view [OF c] sc.get_modify view_kept [OF assms(1)])
  qed
qed

lemma view_remove:
  assumes "files_ok rf"
  shows "view_of (saved_files (sc_remove i (rf_config rf)) rf) = (view_of rf)(i := None)"
proof
  fix j
  have c: "config_ok (sc_remove i (rf_config rf))" using assms by (simp add: files_ok_def config_ok_remove)
  have t: "r_token r' = ''-''" if "sc_get (rf_config rf) j = Some r'" for r' using assms(1) that by (simp add: files_ok_def)
  show "view_of (saved_files (sc_remove i (rf_config rf)) rf) j = ((view_of rf)(i := None)) j"
    using t by (cases "sc_get (rf_config rf) j") (auto simp: saved_view [OF c] sc.get_remove view_kept [OF assms])
qed

lemma add_remote_saved:
  assumes "sc_get (rf_config (ad_files ad)) (r_id entry) = None"
  shows "case new_entry env entry create_token of
      Inl err \<Rightarrow> fst (add_remote env No_Fault entry create_token ad) = Inl err
        \<and> ad_files (snd (add_remote env No_Fault entry create_token ad)) = ad_files ad
    | Inr e \<Rightarrow> fst (add_remote env No_Fault entry create_token ad) = Inr ()
        \<and> ad_files (snd (add_remote env No_Fault entry create_token ad))
            = saved_files (sc_insert (r_id e) e (rf_config (ad_files ad))) (ad_files ad)"
proof -
  obtain a calls where t: "entry_with_token env entry create_token (ad_calls ad) = (a, calls)" by fastforce
  then have "new_entry env entry create_token = a" using entry_with_token_new by (metis fst_conv)
  with assms t show ?thesis by (cases a) (simp_all add: add_remote_def save_config_cases Let_def)
qed

lemma remove_remote_saved:
  assumes "files_ok (ad_files ad)"
  shows "case token_deletion env i delete_token (view_of (ad_files ad)) of
      Inl err \<Rightarrow> fst (remove_remote env cenv No_Fault i delete_token ad) = Inl err
        \<and> ad_files (snd (remove_remote env cenv No_Fault i delete_token ad)) = ad_files ad
    | Inr _ \<Rightarrow>
        if sc_get (rf_config (ad_files ad)) i = None
        then fst (remove_remote env cenv No_Fault i delete_token ad) = Inl (No_Such_Entry i)
          \<and> ad_files (snd (remove_remote env cenv No_Fault i delete_token ad)) = ad_files ad
        else fst (remove_remote env cenv No_Fault i delete_token ad) = Inr ()
          \<and> ad_files (snd (remove_remote env cenv No_Fault i delete_token ad))
              = saved_files (sc_remove i (rf_config (ad_files ad))) (ad_files ad)"
proof -
  obtain a calls where t: "(if delete_token then delete_remote_token env i (rf_config (ad_files ad)) (ad_calls ad)
      else (Inr (), ad_calls ad)) = (a, calls)" by fastforce
  then have "token_deletion env i delete_token (view_of (ad_files ad)) = a"
    using token_deletion_answer [OF assms, of delete_token env i "ad_calls ad"] by (cases delete_token) auto
  with t show ?thesis by (cases a) (simp_all add: remove_remote_def save_config_cases Let_def)
qed

lemma admin_op_result:
  assumes "views ad m"
  shows "fst (admin_op env cenv sha c ad) = fst (view_op env c m)"
proof -
  have ok: "files_ok (ad_files ad)" and v: "m = view_of (ad_files ad)" using assms by (simp_all add: views_def)
  show ?thesis
  proof (cases c)
    case (Add_Op entry create_token)
    show ?thesis
    proof (cases "sc_get (rf_config (ad_files ad)) (r_id entry)")
      case None
      with add_remote_saved [OF None, of env create_token] show ?thesis
        by (cases "new_entry env entry create_token") (simp_all add: v Add_Op view_None)
    qed (simp add: v Add_Op view_None add_remote_def)
  next
    case (Update_Op i u delete seen)
    then show ?thesis
      by (simp add: v view_of_def admin_update_def update_remote_def save_config_cases digest_refused Let_def split: option.splits)
  next
    case (Remove_Op i delete_token)
    with remove_remote_saved [OF ok, where env = env and cenv = cenv and i = i and delete_token = delete_token] show ?thesis
      by (cases "token_deletion env i delete_token (view_of (ad_files ad))") (simp_all add: v view_None split: if_splits)
  qed
qed

lemma admin_op_views:
  assumes "views ad m"
  shows "views (snd (admin_op env cenv sha c ad)) (snd (view_op env c m))"
proof -
  have ok: "files_ok (ad_files ad)" and v: "m = view_of (ad_files ad)" using assms by (simp_all add: views_def)
  then have c: "config_ok (rf_config (ad_files ad))" and w: "sc_wf (rf_shadow (ad_files ad))" by (simp_all add: files_ok_def)
  show ?thesis
  proof (cases c)
    case (Add_Op entry create_token)
    show ?thesis
    proof (cases "sc_get (rf_config (ad_files ad)) (r_id entry)")
      case None
      show ?thesis
      proof (cases "new_entry env entry create_token")
        case (Inr e)
        then have id: "r_id e = r_id entry" by (rule new_entry_id)
        then have "sc_get (rf_config (ad_files ad)) (r_id e) = None" using None by simp
        from view_insert [OF ok this] add_remote_saved [OF None, of env create_token] saved_files_ok [OF config_ok_insert [OF c, of e] w]
        show ?thesis by (simp add: Add_Op Inr views_def v view_None None id)
      qed (use add_remote_saved [OF None, of env create_token] ok in \<open>simp add: Add_Op views_def v view_None None\<close>)
    qed (use ok in \<open>simp add: Add_Op views_def add_remote_def v view_None\<close>)
  next
    case (Update_Op i u delete seen)
    show ?thesis
    proof (cases "sc_get (rf_config (ad_files ad)) i")
      case (Some r)
      have "(apply_updater delete u (r\<lparr>r_token := []\<rparr>))\<lparr>r_token := []\<rparr> = (apply_updater delete u r)\<lparr>r_token := []\<rparr>"
        by (rule updated_rest [symmetric])
      then show ?thesis using view_modify [OF ok Some] saved_files_ok [OF config_ok_update [OF c] w] v ok
        by (simp add: Update_Op Some views_def admin_update_def update_remote_def save_config_cases Let_def kept_view [OF ok Some]
            digest_refused)
    qed (use ok v in \<open>simp add: Update_Op views_def admin_update_def update_remote_def view_of_def digest_refused\<close>)
  next
    case (Remove_Op i delete_token)
    with remove_remote_saved [OF ok, where env = env and cenv = cenv and i = i and delete_token = delete_token] view_remove [OF ok, of i] saved_files_ok [OF config_ok_remove [OF c] w] ok
    show ?thesis
      by (cases "token_deletion env i delete_token (view_of (ad_files ad))") (simp_all add: views_def v view_None split: if_splits)
  qed
qed

interpretation remotes: simulation "admin_op env cenv sha" "view_op env" views for env cenv sha
  by unfold_locales (auto intro: admin_op_result admin_op_views)

definition admin0 :: admin_state where
  "admin0 = \<lparr>ad_files = \<lparr>rf_config = [], rf_shadow = []\<rparr>, ad_ceph = [], ad_cache = Map.empty, ad_calls = [], ad_triggered = [],
     ad_spawned = [], ad_in_flight = []\<rparr>"

lemma views0: "views admin0 Map.empty"
  by (simp add: views_def admin0_def files_ok_def config_ok_def sc_wf_def sc_get_def view_of_def fun_eq_iff)

text \<open>C30. The two files behind the remotes are a map from ids to settings and secrets: every sequence of additions, with or
  without creating a token at the remote, of updates, with or without a digest, and of removals, with or without deleting
  the token at the remote, whose file writes succeed, returns on empty files what the map returns and leaves its content.
  A token that cannot be created or deleted and a digest that is not the current one leave both files as they were; a removed
  remote leaves no secret that a later one could inherit, an update without a token or with the placeholder keeps the
  secret, and no secret is ever in the configuration file itself.\<close>

theorem remotes_refine_map:
  "fst (run_all (admin_op env cenv sha) ops admin0) = fst (run_all (view_op env) ops Map.empty)
   \<and> view_of (ad_files (snd (run_all (admin_op env cenv sha) ops admin0))) = snd (run_all (view_op env) ops Map.empty)
   \<and> list_all (\<lambda>(_, r). r_token r = ''-'') (rf_config (ad_files (snd (run_all (admin_op env cenv sha) ops admin0))))"
proof -
  have r: "views (snd (run_all (admin_op env cenv sha) ops admin0)) (snd (run_all (view_op env) ops Map.empty))"
    using remotes.run_refines [OF views0] by blast
  then have "list_all (\<lambda>(_, r). r_token r = ''-'') (rf_config (ad_files (snd (run_all (admin_op env cenv sha) ops admin0))))"
    by (auto simp: views_def files_ok_def config_ok_def list_all_iff sc.get_iter)
  then show ?thesis using r remotes.run_refines [OF views0, of env cenv sha ops] by (simp add: views_def)
qed

end
