(* ===== verification/Ceph_Runs.thy ===== *)
theory Ceph_Runs
  imports Ceph_Sweep_Props Remote_Admin_Props "HOL-Library.Multiset"
begin

text \<open>
  Properties of the registry together with the configured remotes: removal of a remote, access to clusters, clusters behind
  several remotes, and all interleavings of handlers and detection.
\<close>

section \<open>Removing a remote\<close>

lemma dropped_members_get:
  assumes "sc_wf (cf_members cfg)"
  shows "sc_get (cf_members (snd (drop_pve_members_for_remote rmt cfg))) i =
    (case sc_get (cf_members cfg) i of Some m \<Rightarrow> if cm_kind m = Kind_Pve \<and> cm_remote m = Some rmt then None else Some m | None \<Rightarrow> None)"
proof -
  have "map_of (filter (\<lambda>(_, m). P m) ms) i = (case map_of ms i of Some m \<Rightarrow> if P m then Some m else None | None \<Rightarrow> None)"
    if "distinct (map fst ms)" for P and ms :: "ceph_member section_config"
    using that
  proof (induction ms)
    case (Cons p ms)
    obtain j m where p: "p = (j, m)" by (cases p)
    have "map_of ms j = None" using Cons.prems p by (simp add: map_of_eq_None_iff)
    then show ?case using Cons by (auto simp: p)
  qed simp
  then show ?thesis using assms
    by (auto simp: drop_pve_members_for_remote_def Let_def sc_get_def sc_wf_def split: option.splits)
qed

lemma dropped_rest:
  "cf_clusters (snd (drop_pve_members_for_remote rmt cfg)) = cf_clusters cfg"
  "cf_extras (snd (drop_pve_members_for_remote rmt cfg)) = cf_extras cfg"
  "cf_members (snd (drop_clusters_without_members cfg)) = cf_members cfg"
  "cf_extras (snd (drop_clusters_without_members cfg)) = cf_extras cfg"
  by (simp_all add: drop_pve_members_for_remote_def drop_clusters_without_members_def Let_def)

lemma dropped_members_wf: "sc_wf (cf_members cfg) \<Longrightarrow> sc_wf (cf_members (snd (drop_pve_members_for_remote rmt cfg)))"
  by (simp add: drop_pve_members_for_remote_def Let_def sc_wf_def distinct_map_filter)

definition has_member :: "ceph_config \<Rightarrow> string \<Rightarrow> bool" where
  "has_member cfg i \<longleftrightarrow> (\<exists>j m. sc_get (cf_members cfg) j = Some m \<and> cm_cluster m = i)"

lemma alive_iff:
  assumes "sc_wf (cf_members cfg)"
  shows "i \<in> set (map (\<lambda>(_, m). cm_cluster m) (cf_members cfg)) \<longleftrightarrow> has_member cfg i"
  using assms by (force simp: has_member_def sc.get_iter)

lemma dropped_clusters_get:
  assumes "sc_wf (cf_members cfg)"
  shows "sc_get (cf_clusters (snd (drop_clusters_without_members cfg))) i = (if has_member cfg i then sc_get (cf_clusters cfg) i else None)"
proof -
  have "i \<in> set (filter (\<lambda>i. i \<notin> set (map (\<lambda>(_, m). cm_cluster m) (cf_members cfg))) (map fst (cf_clusters cfg)))
      \<longleftrightarrow> \<not> has_member cfg i \<and> sc_get (cf_clusters cfg) i \<noteq> None"
    using alive_iff [OF assms, of i] keys_get [of i "cf_clusters cfg"] by auto
  then show ?thesis by (auto simp: drop_clusters_without_members_def Let_def fold_remove_get)
qed

lemma dropped_clusters_wf: "sc_wf (cf_clusters cfg) \<Longrightarrow> sc_wf (cf_clusters (snd (drop_clusters_without_members cfg)))"
  by (simp add: drop_clusters_without_members_def Let_def fold_remove_wf)

lemma dropped_clusters_flag:
  assumes "sc_wf (cf_members cfg)"
  shows "fst (drop_clusters_without_members cfg) = [] \<longleftrightarrow> (\<forall>i. sc_get (cf_clusters cfg) i \<noteq> None \<longrightarrow> has_member cfg i)"
proof -
  have "fst (drop_clusters_without_members cfg) = [] \<longleftrightarrow> (\<forall>i \<in> set (map fst (cf_clusters cfg)). has_member cfg i)"
    using alive_iff [OF assms] by (simp add: drop_clusters_without_members_def Let_def filter_empty_conv)
  then show ?thesis unfolding keys_get Ball_def by auto
qed

lemma dropped_members_flag:
  assumes "\<not> fst (drop_pve_members_for_remote rmt cfg)"
  shows "cf_members (snd (drop_pve_members_for_remote rmt cfg)) = cf_members cfg"
  using assms unfolding drop_pve_members_for_remote_def Let_def
  by (simp add: filter_id_conv) (metis (no_types, lifting) length_filter_less nat_neq_iff)

definition without_remote :: "string \<Rightarrow> ceph_config \<Rightarrow> ceph_config" where
  "without_remote rmt cfg = snd (drop_clusters_without_members (snd (drop_pve_members_for_remote rmt cfg)))"

lemma without_remote_get:
  assumes "sc_wf (cf_members cfg)"
  shows "sc_get (cf_members (without_remote rmt cfg)) i =
      (case sc_get (cf_members cfg) i of Some m \<Rightarrow> if cm_kind m = Kind_Pve \<and> cm_remote m = Some rmt then None else Some m | None \<Rightarrow> None)"
    "sc_get (cf_clusters (without_remote rmt cfg)) i =
      (if \<exists>j m. sc_get (cf_members cfg) j = Some m \<and> cm_cluster m = i \<and> \<not> (cm_kind m = Kind_Pve \<and> cm_remote m = Some rmt)
       then sc_get (cf_clusters cfg) i else None)"
proof -
  show m: "sc_get (cf_members (without_remote rmt cfg)) i =
      (case sc_get (cf_members cfg) i of Some m \<Rightarrow> if cm_kind m = Kind_Pve \<and> cm_remote m = Some rmt then None else Some m | None \<Rightarrow> None)" for i
    by (simp add: without_remote_def dropped_rest dropped_members_get [OF assms])
  have "has_member (snd (drop_pve_members_for_remote rmt cfg)) i \<longleftrightarrow>
      (\<exists>j m. sc_get (cf_members cfg) j = Some m \<and> cm_cluster m = i \<and> \<not> (cm_kind m = Kind_Pve \<and> cm_remote m = Some rmt))"
    unfolding has_member_def dropped_members_get [OF assms] by (auto split: option.splits if_splits)
  then show "sc_get (cf_clusters (without_remote rmt cfg)) i =
      (if \<exists>j m. sc_get (cf_members cfg) j = Some m \<and> cm_cluster m = i \<and> \<not> (cm_kind m = Kind_Pve \<and> cm_remote m = Some rmt)
       then sc_get (cf_clusters cfg) i else None)"
    unfolding without_remote_def dropped_clusters_get [OF dropped_members_wf [OF assms]] dropped_rest by presburger
qed

lemma without_remote_ok:
  assumes ok: "ceph_ok authid cfg"
  shows "ceph_ok authid (without_remote rmt cfg)"
proof -
  note g = without_remote_get [OF ceph_okD(2) [OF ok], of rmt]
  have "sc_wf (cf_members (without_remote rmt cfg))" "sc_wf (cf_clusters (without_remote rmt cfg))"
    using ceph_okD(1,2) [OF ok] by (simp_all add: without_remote_def dropped_rest dropped_members_wf dropped_clusters_wf)
  moreover have "cf_extras (without_remote rmt cfg) = cf_extras cfg" by (simp add: without_remote_def dropped_rest)
  moreover have "member_ok authid i m \<and> sc_get (cf_clusters (without_remote rmt cfg)) (cm_cluster m) \<noteq> None"
    if "sc_get (cf_members (without_remote rmt cfg)) i = Some m" for i m
  proof -
    have m: "sc_get (cf_members cfg) i = Some m" "\<not> (cm_kind m = Kind_Pve \<and> cm_remote m = Some rmt)"
      using that by (auto simp: g split: option.splits if_splits)
    then show ?thesis using ceph_okD(4,5) [OF ok m(1)] by (auto simp: g)
  qed
  moreover have "cluster_ok i c" if "sc_get (cf_clusters (without_remote rmt cfg)) i = Some c" for i c
    using that ceph_okD(3) [OF ok, of i c] by (auto simp: g split: if_splits)
  ultimately show ?thesis using ceph_okD(6) [OF ok] unfolding ceph_ok_def by auto
qed

lemma on_remote_removed_eq:
  assumes "untyped_to_typed (cn_authid env) f = Inr cfg"
  shows "on_remote_removed env rmt f = save_changed env
    (fst (drop_pve_members_for_remote rmt cfg) \<or> fst (drop_clusters_without_members (snd (drop_pve_members_for_remote rmt cfg))) \<noteq> [],
     without_remote rmt cfg) f"
  using assms by (simp add: on_remote_removed_def without_remote_def case_prod_beta Let_def)

lemma removed_same:
  assumes ok: "ceph_ok authid cfg"
    and "\<not> (fst (drop_pve_members_for_remote rmt cfg) \<or> fst (drop_clusters_without_members (snd (drop_pve_members_for_remote rmt cfg))) \<noteq> [])"
  shows "same_registry cfg (without_remote rmt cfg)"
proof -
  let ?d = "snd (drop_pve_members_for_remote rmt cfg)"
  have m: "cf_members ?d = cf_members cfg" using assms(2) dropped_members_flag by blast
  have w: "sc_wf (cf_members ?d)" using ceph_okD(2) [OF ok] by (rule dropped_members_wf)
  have "\<forall>i. sc_get (cf_clusters cfg) i \<noteq> None \<longrightarrow> has_member ?d i"
    using assms(2) dropped_clusters_flag [OF w] unfolding dropped_rest by blast
  then have "sc_get (cf_clusters (without_remote rmt cfg)) i = sc_get (cf_clusters cfg) i" for i
    unfolding without_remote_def dropped_clusters_get [OF w] dropped_rest by (cases "sc_get (cf_clusters cfg) i") auto
  then show ?thesis by (simp add: same_registry_def fun_eq_iff without_remote_def dropped_rest m)
qed

lemma on_remote_removed_ok: "file_ok (cn_authid env) f \<Longrightarrow> file_ok (cn_authid env) (snd (on_remote_removed env rmt f))"
  unfolding file_ok_def using on_remote_removed_eq save_changed_ok [unfolded file_ok_def] without_remote_ok by fastforce

text \<open>Removing a remote drops exactly the members it backs and the clusters that are left without any member, forgotten ones
  included; everything else stays.\<close>

theorem removed_remote_cleaned:
  assumes "untyped_to_typed (cn_authid env) f = Inr cfg" and "ceph_ok (cn_authid env) cfg" and "\<forall>g. cn_valid env g"
  shows "\<exists>cfg'. fst (on_remote_removed env rmt f) = Inr () \<and> untyped_to_typed (cn_authid env) (snd (on_remote_removed env rmt f)) = Inr cfg'
    \<and> (\<forall>i. sc_get (cf_members cfg') i =
         (case sc_get (cf_members cfg) i of Some m \<Rightarrow> if cm_kind m = Kind_Pve \<and> cm_remote m = Some rmt then None else Some m | None \<Rightarrow> None))
    \<and> (\<forall>i. sc_get (cf_clusters cfg') i =
         (if \<exists>j m. sc_get (cf_members cfg) j = Some m \<and> cm_cluster m = i \<and> \<not> (cm_kind m = Kind_Pve \<and> cm_remote m = Some rmt)
          then sc_get (cf_clusters cfg) i else None))"
proof -
  obtain cfg' where "fst (on_remote_removed env rmt f) = Inr ()" "untyped_to_typed (cn_authid env) (snd (on_remote_removed env rmt f)) = Inr cfg'"
    and s: "same_registry (without_remote rmt cfg) cfg'"
    unfolding on_remote_removed_eq [OF assms(1)]
    using save_changed_read [OF assms(1,2) without_remote_ok [OF assms(2)] removed_same [OF assms(2)]] assms(3) by blast
  then show ?thesis using without_remote_get [OF ceph_okD(2) [OF assms(2)], of rmt] by (auto simp: same_registry_def)
qed

section \<open>Access\<close>

text \<open>A cluster is visible through a remote behind one of its members.\<close>

definition visible :: "(string \<Rightarrow> bool) \<Rightarrow> ceph_config \<Rightarrow> string \<Rightarrow> bool" where
  "visible below cfg i \<longleftrightarrow> sc_get (cf_clusters cfg) i \<noteq> None
     \<and> (\<exists>j m rmt. sc_get (cf_members cfg) j = Some m \<and> cm_cluster m = i \<and> cm_kind m = Kind_Pve \<and> cm_remote m = Some rmt \<and> below rmt)"

lemma accessible_iff:
  assumes "sc_wf (cf_members cfg)"
  shows "cluster_accessible below cfg i \<longleftrightarrow>
    (\<exists>j m rmt. sc_get (cf_members cfg) j = Some m \<and> cm_cluster m = i \<and> cm_kind m = Kind_Pve \<and> cm_remote m = Some rmt \<and> below rmt)"
proof -
  have "member_accessible below m \<longleftrightarrow> (\<exists>rmt. cm_kind m = Kind_Pve \<and> cm_remote m = Some rmt \<and> below rmt)" for m
    by (auto simp: member_accessible_def split: ceph_member_kind.splits option.splits)
  then show ?thesis using assms by (force simp: cluster_accessible_def members_of_def list_ex_iff sc.get_iter)
qed

lemma visible_iff: "sc_wf (cf_members cfg) \<Longrightarrow> visible below cfg i \<longleftrightarrow> sc_get (cf_clusters cfg) i \<noteq> None \<and> cluster_accessible below cfg i"
  by (simp add: visible_def accessible_iff)

lemma accessible_ids:
  assumes ok: "ceph_ok authid cfg"
  shows "set (map (\<lambda>(c, _). cc_id c) (accessible_clusters below cfg)) = {i. visible below cfg i}"
    "sorted_wrt (<) (map (\<lambda>(c, _). cc_id c) (accessible_clusters below cfg))"
proof -
  let ?cs = "filter (\<lambda>(i, _). cluster_accessible below cfg i) (cf_clusters cfg)"
  let ?l = "map (\<lambda>(i, c). (c, sorted_members cfg i)) ?cs"
  have id: "cc_id c = i" if "(i, c) \<in> set (cf_clusters cfg)" for i c
    using that ceph_okD(1,3) [OF ok] by (auto simp: sc.get_iter cluster_ok_def)
  have ids: "map (\<lambda>(c, _). cc_id c) ?l = map fst ?cs" using id by (auto)
  have d: "distinct (map fst ?cs)" using ceph_okD(1) [OF ok] by (simp add: sc_wf_def distinct_map_filter)
  have "i \<in> set (map fst ?cs) \<longleftrightarrow> i \<in> set (map fst (cf_clusters cfg)) \<and> cluster_accessible below cfg i" for i by force
  then have "i \<in> set (map fst ?cs) \<longleftrightarrow> visible below cfg i" for i
    unfolding keys_get visible_iff [OF ceph_okD(2) [OF ok]] by auto
  then have "set (map fst ?cs) = {i. visible below cfg i}" by blast
  moreover have "set (map (\<lambda>(c, _). cc_id c) (accessible_clusters below cfg)) = set (map (\<lambda>(c, _). cc_id c) ?l)"
    unfolding accessible_clusters_def set_map set_sort ..
  ultimately show "set (map (\<lambda>(c, _). cc_id c) (accessible_clusters below cfg)) = {i. visible below cfg i}" unfolding ids by simp
  have "sorted (map (\<lambda>(c, _). cc_id c) (accessible_clusters below cfg))" by (simp add: accessible_clusters_def)
  moreover have "distinct (map (\<lambda>(c, _). cc_id c) (accessible_clusters below cfg))"
  proof -
    have "mset (map (\<lambda>(c, _). cc_id c) (accessible_clusters below cfg)) = mset (map fst ?cs)"
      unfolding ids [symmetric] by (simp only: accessible_clusters_def mset_map mset_sort)
    then have "distinct (map (\<lambda>(c, _). cc_id c) (accessible_clusters below cfg)) = distinct (map fst ?cs)" by (rule mset_eq_imp_distinct_iff)
    then show ?thesis using d by simp
  qed
  ultimately show "sorted_wrt (<) (map (\<lambda>(c, _). cc_id c) (accessible_clusters below cfg))" by (simp add: strict_sorted_iff)
qed

text \<open>C35. A caller is shown, in order of their ids, exactly the registered clusters of which some member is backed by a remote the
  caller may audit. The same check guards every read of one cluster: with it the members of the cluster are available, and
  without it connecting to the cluster, every request to one of its nodes, its status and its summary are refused, with an
  error that says whether the cluster is registered, whatever the remotes would answer, and the cache of statuses stays
  as it is.\<close>

theorem ceph_access_exact:
  assumes "untyped_to_typed (cn_authid env) f = Inr cfg" and "ceph_ok (cn_authid env) cfg"
  shows "(\<exists>es. list_clusters env below fs f = Inr es \<and> set (map le_cluster es) = {i. visible below cfg i} \<and> sorted_wrt (<) (map le_cluster es))
    \<and> (\<forall>i. visible below cfg i \<longrightarrow> access_checked_members env below i f = Inr (sorted_members cfg i))
    \<and> (\<forall>i max_age call. \<not> visible below cfg i \<longrightarrow>
         (let err = if sc_get (cf_clusters cfg) i = None then No_Such_Cluster i else No_Cluster_Access i
          in access_checked_members env below i f = Inl err
           \<and> ceph_connect env remotes below i f = Inl err
           \<and> node_read env remotes below call i f = Inl err
           \<and> get_status env remotes below i max_age fs f = (Inl err, fs)
           \<and> get_summary env remotes below i max_age fs f = (Inl err, fs)))"
proof -
  let ?es = "map (list_entry env fs) (accessible_clusters below cfg)"
  have "map le_cluster ?es = map (\<lambda>(c, _). cc_id c) (accessible_clusters below cfg)" by (auto simp: list_entry_def Let_def)
  then have l: "set (map le_cluster ?es) = {i. visible below cfg i}" "sorted_wrt (<) (map le_cluster ?es)"
    using accessible_ids [OF assms(2), of below] by (simp_all only:)
  have refused: "access_checked_members env below i f
      = Inl (if sc_get (cf_clusters cfg) i = None then No_Such_Cluster i else No_Cluster_Access i)" if "\<not> visible below cfg i" for i
    using that visible_iff [OF ceph_okD(2) [OF assms(2)], of below i]
    by (cases "sc_get (cf_clusters cfg) i") (simp_all add: access_checked_members_def assms(1) lookup_cluster_def check_cluster_access_def)
  have granted: "access_checked_members env below i f = Inr (sorted_members cfg i)" if "visible below cfg i" for i
    using that visible_iff [OF ceph_okD(2) [OF assms(2)]]
    by (simp add: access_checked_members_def assms(1) lookup_cluster_def check_cluster_access_def)
  have "list_clusters env below fs f = Inr ?es" by (simp add: list_clusters_def assms(1))
  with l have "\<exists>es. list_clusters env below fs f = Inr es \<and> set (map le_cluster es) = {i. visible below cfg i} \<and> sorted_wrt (<) (map le_cluster es)"
    by blast
  then show ?thesis using granted
    by (simp add: refused ceph_connect_def node_read_def get_status_def get_summary_def Let_def)
qed

section \<open>A cluster behind several remotes\<close>

lemma first_member_append:
  "first_member fsid (xs @ ys) i = (case first_member fsid xs i of Some m \<Rightarrow> Some m | None \<Rightarrow> first_member fsid ys i)"
  by (induction xs) auto

lemma first_member_Pair:
  "first_member fsid (map (Pair rmt) ns) i = (if \<exists>n \<in> set ns. fsid @ ''-'' @ n = i then Some (new_member fsid (rmt, drop (Suc (length fsid)) i)) else None)"
  by (induction ns) (auto simp: new_member_def)

lemma both_first:
  "first_member fsid (map (Pair a) ns @ map (Pair b) ns) i = first_member fsid (map (Pair a) ns) i"
  by (auto simp: first_member_append first_member_Pair)

lemma found_twice:
  assumes "connects env remotes a = Inr ()" and "connects env remotes b = Inr ()"
    and "cn_status env a = Answer s" and "cn_status env b = Answer s" and "get_str s ''fsid'' = Some fsid" and "quorum_nodes s = ns"
  shows "fst (snd (probe_all env remotes [a, b] ([], [], fs))) = [(fsid, map (Pair a) ns @ map (Pair b) ns)]"
  using assms by (simp add: probe_remote_def add_found_def sc_get_def Let_def)

lemma upserted_single: "upserted [(fsid, rns)] cfg = snd (upsert_cluster fsid rns cfg)"
  by (simp add: upserted_def)

text \<open>When two remotes report the same new cluster, all its members are recorded for the first of them: a caller sees the cluster
  if and only if they may audit the first remote, whatever they may do on the second.\<close>

theorem spanning_cluster_first_remote:
  assumes read: "untyped_to_typed (cn_authid env) f = Inr cfg" and ok: "ceph_ok (cn_authid env) cfg" and now: "i64_range (cn_now env)"
    and valid: "\<forall>g. cn_valid env g"
    and two: "list_pve_remotes remotes = [a, b]" "connects env remotes a = Inr ()" "connects env remotes b = Inr ()"
    and status: "cn_status env a = Answer s" "cn_status env b = Answer s" "get_str s ''fsid'' = Some fsid" "quorum_nodes s = ns"
    and new: "length fsid = 36" "sc_get (cf_clusters cfg) fsid = None" "\<forall>n \<in> set ns. sc_get (cf_members cfg) (fsid @ ''-'' @ n) = None" "ns \<noteq> []"
  shows "\<exists>cfg'. untyped_to_typed (cn_authid env) (snd (snd (sweep env remotes (\<lambda>f. f) fs f))) = Inr cfg'
    \<and> (visible below cfg' fsid \<longleftrightarrow> below a)"
proof -
  let ?rns = "map (Pair a) ns @ map (Pair b) ns"
  let ?found = "[(fsid, ?rns)]"
  obtain outcomes fs' where p: "probe_all env remotes [a, b] ([], [], fs) = (outcomes, ?found, fs')"
    using found_twice [OF two(2,3) status] by (metis prod.collapse)
  have f: "found_ok ?found" using new(1) by (simp add: found_ok_def sc_wf_def)
  obtain cfg' where r: "untyped_to_typed (cn_authid env) (snd (commit_sweep env outcomes ?found f)) = Inr cfg'"
    and s: "same_registry (swept_config ?found outcomes (cn_now env) cfg) cfg'"
    using commit_sweep_read [OF read ok f now valid] by blast
  have u: "ceph_ok (cn_authid env) (upserted ?found cfg)" using ok f by (rule upserted_ok)
  have m: "cf_members (swept_config ?found outcomes (cn_now env) cfg) = cf_members (upserted ?found cfg)"
    unfolding swept_config_def by (rule reconcile_get(2) [OF ceph_okD(1,2) [OF u]])
  have nt: "\<not> tombstoned cfg fsid" using new(2) by (simp add: tombstoned_def)
  have mem: "sc_get (cf_members cfg') i = (case sc_get (cf_members cfg) i of Some m \<Rightarrow> Some m | None \<Rightarrow> first_member fsid (map (Pair a) ns) i)" for i
    using s nt by (simp add: same_registry_def m upserted_single upsert_cluster_get both_first split: option.splits)
  have c: "sc_get (cf_clusters cfg') fsid \<noteq> None"
    using s swept_config_get [OF ok f] new(2) by (simp add: same_registry_def swept_def sc_get_def)
  have a1: "cm_remote m = Some a" if "sc_get (cf_members cfg') i = Some m" "cm_cluster m = fsid" for i m
  proof -
    have "sc_get (cf_members cfg) i = None" using that mem [of i] ceph_okD(5) [OF ok, of i] new(2) by (cases "sc_get (cf_members cfg) i") auto
    then have "m = new_member fsid (a, drop (Suc (length fsid)) i)" using that(1) mem [of i] by (simp add: first_member_Pair split: if_splits)
    then show ?thesis by (simp add: new_member_def)
  qed
  obtain n where n: "n \<in> set ns" using new(4) by (cases ns) auto
  then have "first_member fsid (map (Pair a) ns) (fsid @ ''-'' @ n) = Some (new_member fsid (a, n))" by (auto simp: first_member_Pair)
  then have a2: "sc_get (cf_members cfg') (fsid @ ''-'' @ n) = Some (new_member fsid (a, n))" using mem [of "fsid @ ''-'' @ n"] new(3) n by simp
  have "visible below cfg' fsid \<longleftrightarrow> below a"
  proof
    assume "visible below cfg' fsid"
    then show "below a" using a1 by (fastforce simp: visible_def)
  next
    assume b: "below a"
    have "cm_cluster (new_member fsid (a, n)) = fsid" "cm_kind (new_member fsid (a, n)) = Kind_Pve" "cm_remote (new_member fsid (a, n)) = Some a"
      by (simp_all add: new_member_def)
    then show "visible below cfg' fsid" unfolding visible_def using c a2 b by blast
  qed
  moreover have "snd (snd (sweep env remotes (\<lambda>f. f) fs f)) = snd (commit_sweep env outcomes ?found f)"
    by (simp add: sweep_def two(1) p case_prod_beta del: probe_all.simps)
  ultimately show ?thesis using r by simp
qed

section \<open>Handlers and detection side by side\<close>

definition fsids_ok :: "ceph_env \<Rightarrow> bool" where
  "fsids_ok cenv \<longleftrightarrow> (\<forall>rmt status fsid. cn_status cenv rmt = Answer status \<longrightarrow> get_str status ''fsid'' = Some fsid \<longrightarrow> length fsid = 36)"

text \<open>
  Cluster ids are UUIDs of 36 characters, clocks fit 64 bits, and the parser of auth ids is the same in all steps.
\<close>

inductive admin_step :: "(string \<Rightarrow> bool) \<Rightarrow> admin_state \<Rightarrow> admin_state \<Rightarrow> bool" for authid where
  Add: "admin_step authid ad (snd (add_remote env fault entry create_token ad))"
| Update: "admin_step authid ad (snd (admin_update sha fault i u delete digest ad))"
| Remove: "cn_authid cenv = authid \<Longrightarrow> admin_step authid ad (snd (remove_remote env cenv fault i delete_token ad))"
| Start_Sweep: "fsids_ok cenv \<Longrightarrow> admin_step authid ad (start_sweep cenv ad)"
| Start_Detect: "fsids_ok cenv \<Longrightarrow> name \<in> set (ad_spawned ad) \<Longrightarrow> admin_step authid ad (start_detect cenv name ad)"
| Finish: "cn_authid cenv = authid \<Longrightarrow> i64_range (cn_now cenv) \<Longrightarrow> p \<in> set (ad_in_flight ad) \<Longrightarrow> admin_step authid ad (finish cenv p ad)"

fun flight_found :: "in_flight \<Rightarrow> ceph_found" where
  "flight_found (Sweep_Result outcomes found) = found"
| "flight_found (Detect_Result found) = found"

definition admin_inv :: "(string \<Rightarrow> bool) \<Rightarrow> admin_state \<Rightarrow> bool" where
  "admin_inv authid ad \<longleftrightarrow> config_ok (rf_config (ad_files ad)) \<and> sc_wf (rf_shadow (ad_files ad))
     \<and> (\<forall>i r. sc_get (rf_config (ad_files ad)) i = Some r \<longrightarrow> r_token r = ''-'')
     \<and> file_ok authid (ad_ceph ad) \<and> (\<forall>p \<in> set (ad_in_flight ad). found_ok (flight_found p))"

lemma files_saved:
  assumes "config_ok config" and "sc_wf (rf_shadow rf)" and "config_ok (rf_config rf)"
    and "\<forall>i r. sc_get (rf_config rf) i = Some r \<longrightarrow> r_token r = ''-''"
  shows "config_ok (rf_config (snd (save_config fault config rf))) \<and> sc_wf (rf_shadow (snd (save_config fault config rf)))
    \<and> (\<forall>i r. sc_get (rf_config (snd (save_config fault config rf))) i = Some r \<longrightarrow> r_token r = ''-'')"
proof (cases fault)
  case No_Fault
  then show ?thesis using saved_files_ok [OF assms(1,2)] by (simp add: save_config_cases files_ok_def)
qed (use assms saved_wf [OF assms(1,2)] in \<open>simp_all add: save_config_cases\<close>)

lemma add_remote_inv: "admin_inv authid ad \<Longrightarrow> admin_inv authid (snd (add_remote env fault entry create_token ad))"
proof -
  assume inv: "admin_inv authid ad"
  show ?thesis
  proof (cases "sc_get (rf_config (ad_files ad)) (r_id entry) \<noteq> None")
    case False
    obtain r calls where e: "entry_with_token env entry create_token (ad_calls ad) = (r, calls)" by fastforce
    show ?thesis
    proof (cases r)
      case (Inr entry')
      have "config_ok (sc_insert (r_id entry') entry' (rf_config (ad_files ad)))" using inv by (simp add: admin_inv_def config_ok_insert)
      from files_saved [OF this, of "ad_files ad" fault] inv show ?thesis using False
        by (auto simp: add_remote_def e Inr Let_def admin_inv_def split: prod.splits sum.splits)
    qed (use inv False in \<open>simp add: add_remote_def e admin_inv_def\<close>)
  qed (use inv in \<open>simp add: add_remote_def admin_inv_def\<close>)
qed

lemma update_inv: "admin_inv authid ad \<Longrightarrow> admin_inv authid (snd (admin_update sha fault i u delete digest ad))"
proof -
  assume inv: "admin_inv authid ad"
  have "config_ok (sc_modify i (apply_updater delete u) (rf_config (ad_files ad)))" using inv by (simp add: admin_inv_def config_ok_update)
  from files_saved [OF this, of "ad_files ad" fault] inv show ?thesis
    by (auto simp: admin_update_def update_remote_def admin_inv_def case_prod_beta Let_def split: option.splits)
qed

lemma remove_inv:
  assumes inv: "admin_inv authid ad" and "cn_authid cenv = authid"
  shows "admin_inv authid (snd (remove_remote env cenv fault i delete_token ad))"
proof -
  have "config_ok (sc_remove i (rf_config (ad_files ad)))" using inv by (simp add: admin_inv_def config_ok_remove)
  moreover have "file_ok authid (snd (on_remote_removed cenv i (ad_ceph ad)))"
    using on_remote_removed_ok [of cenv "ad_ceph ad" i] inv assms(2) by (simp add: admin_inv_def)
  ultimately show ?thesis using files_saved [of "sc_remove i (rf_config (ad_files ad))" "ad_files ad" fault] inv
    by (auto simp: remove_remote_def admin_inv_def case_prod_beta Let_def split: sum.splits)
qed

lemma add_found_ok: "found_ok found \<Longrightarrow> (\<And>fsid ns. out = Found fsid ns \<Longrightarrow> length fsid = 36) \<Longrightarrow> found_ok (add_found rmt out found)"
proof -
  assume f: "found_ok found" and l: "\<And>fsid ns. out = Found fsid ns \<Longrightarrow> length fsid = 36"
  show "found_ok (add_found rmt out found)"
  proof (cases out)
    case (Found fsid ns)
    then show ?thesis using f l by (simp add: add_found_def found_ok_def sc.wf_insert fst_sc_insert [unfolded set_map])
  qed (use f in \<open>simp_all add: add_found_def\<close>)
qed

lemma probe_all_ok:
  "fsids_ok cenv \<Longrightarrow> found_ok found \<Longrightarrow> found_ok (fst (snd (probe_all cenv remotes rmts (outcomes, found, fs))))"
proof (induction rmts arbitrary: outcomes found fs)
  case (Cons rmt rmts)
  obtain out fs1 where p: "probe_remote cenv remotes rmt fs = (out, fs1)" by fastforce
  have "length fsid = 36" if "out = Found fsid ns" for fsid ns
    using p that Cons.prems(1)
    by (auto simp: probe_remote_def fsids_ok_def split: sum.splits ceph_answer.splits option.splits)
  with Cons.prems(2) have "found_ok (add_found rmt out found)" by (rule add_found_ok)
  then show ?case using Cons by (simp add: p)
qed simp

lemma found_ok_Nil: "found_ok []"
  by (simp add: found_ok_def sc_wf_def)

lemma start_inv:
  assumes "admin_inv authid ad" and "fsids_ok cenv"
  shows "admin_inv authid (start_sweep cenv ad)" "admin_inv authid (start_detect cenv name ad)"
  using assms probe_all_ok [OF assms(2) found_ok_Nil]
  by (auto simp: start_sweep_def start_detect_def admin_inv_def case_prod_beta Let_def simp del: probe_all.simps)

lemma finish_inv:
  assumes "admin_inv (cn_authid cenv) ad" and "i64_range (cn_now cenv)" and "p \<in> set (ad_in_flight ad)"
  shows "admin_inv (cn_authid cenv) (finish cenv p ad)"
proof -
  have f: "found_ok (flight_found p)" and o: "file_ok (cn_authid cenv) (ad_ceph ad)" using assms by (auto simp: admin_inv_def)
  have "file_ok (cn_authid cenv) (commit cenv p (ad_ceph ad))"
    using commit_sweep_ok [OF o _ assms(2)] commit_found_ok [OF o] f by (cases p) (simp_all add: commit_def)
  then show ?thesis using assms(1) by (auto simp: finish_def admin_inv_def dest: notin_set_remove1 set_remove1_subset [THEN subsetD])
qed

lemma admin_step_inv: "admin_step authid ad ad' \<Longrightarrow> admin_inv authid ad \<Longrightarrow> admin_inv authid ad'"
  by (induction rule: admin_step.induct) (auto simp: add_remote_inv update_inv remove_inv start_inv finish_inv)

definition admin_start :: "(string \<Rightarrow> bool) \<Rightarrow> admin_state \<Rightarrow> bool" where
  "admin_start authid ad \<longleftrightarrow> ad_files ad = \<lparr>rf_config = [], rf_shadow = []\<rparr> \<and> ad_ceph ad = [] \<and> ad_in_flight ad = []"

lemma admin_start_inv: "admin_start authid ad \<Longrightarrow> admin_inv authid ad"
proof -
  have "untyped_to_typed authid [] = Inr empty_ceph" by (simp add: untyped_to_typed_def)
  moreover have "ceph_ok authid empty_ceph" by (simp add: ceph_ok_def empty_ceph_def sc_wf_def sc_get_def)
  ultimately have "file_ok authid []" unfolding file_ok_def by blast
  then show "admin_start authid ad \<Longrightarrow> admin_inv authid ad"
    by (simp add: admin_start_def admin_inv_def config_ok_def sc_wf_def sc_get_def)
qed

interpretation admin: invariant_system "admin_start authid" "admin_step authid" "admin_inv authid" for authid
  by unfold_locales (auto intro: admin_start_inv admin_step_inv)

text \<open>C31. After every interleaving of additions, updates and removals of remotes, failed writes included, with detection runs that
  probe at one time and commit at another: remotes are filed under their ids and no secret is in the configuration file;
  the registry can be read, every member belongs to a registered cluster, and only clusters that are gone or unreachable
  carry a time since when they are missing.\<close>

theorem remotes_reachable_wf:
  assumes "admin_start authid s" and "(admin_step authid)\<^sup>*\<^sup>* s ad"
  shows "(\<forall>i r. sc_get (rf_config (ad_files ad)) i = Some r \<longrightarrow> r_id r = i \<and> r_token r = ''-'')
    \<and> (\<exists>cfg. untyped_to_typed authid (ad_ceph ad) = Inr cfg
       \<and> (\<forall>i m. sc_get (cf_members cfg) i = Some m \<longrightarrow> cm_id m = i \<and> sc_get (cf_clusters cfg) (cm_cluster m) \<noteq> None)
       \<and> (\<forall>i c. sc_get (cf_clusters cfg) i = Some c \<longrightarrow> cc_id c = i
            \<and> (cc_last_seen_missing c \<noteq> None \<longrightarrow> cc_state c = Some Ceph_Gone \<or> cc_state c = Some Ceph_Unreachable)))"
proof -
  have inv: "admin_inv authid ad" using admin.reachable_inv assms by blast
  then obtain cfg where c: "untyped_to_typed authid (ad_ceph ad) = Inr cfg" "ceph_ok authid cfg" by (auto simp: admin_inv_def file_ok_def)
  show ?thesis using inv c ceph_okD(3-5) [OF c(2)]
    by (intro conjI exI [of _ cfg]) (auto simp: admin_inv_def config_ok_def member_ok_def cluster_ok_def)
qed

section \<open>Failed writes\<close>

text \<open>C32. When one of the two files cannot be written, adding a remote changes no other remote. Removing one
  is refused and the remote stays listed; but when it is the second file that failed its secret is already gone, so that it
  can no longer be used.\<close>

theorem failed_write_effect:
  assumes ok: "files_ok (ad_files ad)" and r: "sc_get (rf_config (ad_files ad)) i = Some r" and secret: "get_secret_token r (ad_files ad) = Inr t"
    and fault: "fault \<noteq> No_Fault" and new: "r_id entry \<noteq> i" "sc_get (rf_config (ad_files ad)) (r_id entry) = None"
  shows "fst (add_remote env fault entry None ad) = Inl Rm_Write_Failed
    \<and> rf_config (ad_files (snd (add_remote env fault entry None ad))) = rf_config (ad_files ad)
    \<and> get_secret_token r (ad_files (snd (add_remote env fault entry None ad))) = Inr t
    \<and> fst (remove_remote env cenv fault i False ad) = Inl Rm_Write_Failed
    \<and> sc_get (rf_config (ad_files (snd (remove_remote env cenv fault i False ad)))) i = Some r
    \<and> get_secret_token r (ad_files (snd (remove_remote env cenv fault i False ad)))
        = (if fault = Config_Fault then Inl (No_Shadow_Entry i) else Inr t)"
proof -
  have c: "config_ok (rf_config (ad_files ad))" and tok: "r_token r = ''-''" and id: "r_id r = i"
    using ok r by (auto simp: files_ok_def config_ok_def)
  have ins: "config_ok (sc_insert (r_id entry) entry (rf_config (ad_files ad)))" using c by (rule config_ok_insert)
  have rem: "config_ok (sc_remove i (rf_config (ad_files ad)))" using c by (rule config_ok_remove)
  show ?thesis
  proof (cases fault)
    case Shadow_Fault
    then show ?thesis using r new secret by (simp add: add_remote_def remove_remote_def entry_with_token_def save_config_cases Let_def)
  next
    case Config_Fault
    have "sc_get (rf_shadow (saved_files (sc_insert (r_id entry) entry (rf_config (ad_files ad))) (ad_files ad))) i = sc_get (rf_shadow (ad_files ad)) i"
      using r tok new(1) by (simp add: saved_shadow [OF ins] sc.get_insert)
    moreover have "sc_get (rf_shadow (saved_files (sc_remove i (rf_config (ad_files ad))) (ad_files ad))) i = None"
      by (simp add: saved_shadow [OF rem] sc.get_remove)
    ultimately show ?thesis using Config_Fault r new secret tok id
      by (simp add: add_remote_def remove_remote_def entry_with_token_def save_config_cases Let_def get_secret_token_def)
  qed (use fault in simp)
qed

section \<open>Concrete runs\<close>

definition fsid0 :: string where "fsid0 = ''4b4f7f8e-1234-5678-abcd-ef0123456789''"

definition status0 :: json where
  "status0 = JObj [(''fsid'', JStr fsid0), (''quorum_names'', JArr [JStr ''n1''])]"

definition cenv0 :: ceph_env where
  "cenv0 = \<lparr>cn_authid = (\<lambda>_. True), cn_valid = (\<lambda>_. True),
     cn_cache = \<lparr>env_base = ''cache'', env_safe_id = (\<lambda>_. True), env_to_json = (\<lambda>_. ''''), env_from_json = (\<lambda>_. None), env_io = (\<lambda>_. None)\<rparr>,
     cn_now = 100, cn_client = (\<lambda>_. True), cn_status = (\<lambda>_. Answer status0), cn_pools = (\<lambda>_ _. Inr []), cn_mon_versions = (\<lambda>_ _. Inr [])\<rparr>"

definition aenv0 :: admin_env where
  "aenv0 = \<lparr>ae_user = (\<lambda>a. a), ae_tokenname = (\<lambda>_. None), ae_parse_authid = Some, ae_valid_tokenname = (\<lambda>_. True), ae_login = (\<lambda>_. Inr ()),
     ae_post_token = (\<lambda>_ _ _. Inl ''no''), ae_put_acl = (\<lambda>_ _ _. Inr ()), ae_client = (\<lambda>_. Inr ()), ae_delete_token = (\<lambda>_ _ _. Inr ())\<rparr>"

definition pve_remote :: "string \<Rightarrow> remote" where
  "pve_remote i = \<lparr>r_ty = Remote_Pve, r_id = i, r_nodes = [''10.0.0.1''], r_authid = ''root@pam'', r_token = ''s'', r_web_url = None\<rparr>"

text \<open>A remote is added, and a sweep has probed it when it is removed; then the sweep commits.\<close>

definition admin_added :: admin_state where
  "admin_added = snd (add_remote aenv0 No_Fault (pve_remote ''a'') None admin0)"

definition admin_removed :: admin_state where
  "admin_removed = snd (remove_remote aenv0 cenv0 No_Fault ''a'' False (start_sweep cenv0 admin_added))"

definition admin_late :: admin_state where
  "admin_late = fold (finish cenv0) (ad_in_flight admin_removed) admin_removed"

definition late_member :: ceph_member where
  "late_member = new_member fsid0 (''a'', ''n1'')"

lemma late_run:
  "rf_config (ad_files admin_late) = []"
  "ad_ceph admin_late = ceph_write \<lparr>cf_clusters = [(fsid0, (new_cluster fsid0)\<lparr>cc_state := Some Ceph_Detected\<rparr>)],
     cf_members = [(cm_id late_member, late_member)], cf_extras = []\<rparr>"
  by code_simp+

lemma cenv0_simps [simp]: "cn_authid cenv0 = (\<lambda>_. True)" "cn_valid cenv0 g" "cn_now cenv0 = 100"
  by (simp_all add: cenv0_def)

lemma length_fsid0 [simp]: "length fsid0 = 36"
  by (simp add: fsid0_def)

lemma cenv0_ok: "fsids_ok cenv0" "i64_range (cn_now cenv0)"
  by (auto simp: fsids_ok_def cenv0_def status0_def get_str_def i64_range_def)

lemma admin0_start: "admin_start authid admin0"
  by (simp add: admin_start_def admin0_def)

lemma in_flight_removed: "ad_in_flight admin_removed = [Sweep_Result [(''a'', Found fsid0 [''n1''])] [(fsid0, [(''a'', ''n1'')])]]"
  by code_simp

lemma late_steps: "(admin_step (\<lambda>_. True))\<^sup>*\<^sup>* admin0 admin_late"
proof -
  let ?p = "Sweep_Result [(''a'', Found fsid0 [''n1''])] [(fsid0, [(''a'', ''n1'')])]"
  have "admin_step (\<lambda>_. True) admin0 admin_added" unfolding admin_added_def by (rule admin_step.Add)
  moreover have "admin_step (\<lambda>_. True) admin_added (start_sweep cenv0 admin_added)" using cenv0_ok(1) by (rule admin_step.Start_Sweep)
  moreover have "admin_step (\<lambda>_. True) (start_sweep cenv0 admin_added) admin_removed"
    unfolding admin_removed_def by (rule admin_step.Remove) simp
  moreover have "admin_step (\<lambda>_. True) admin_removed (finish cenv0 ?p admin_removed)"
    using cenv0_ok(2) by (rule admin_step.Finish [rotated]) (simp_all add: in_flight_removed)
  ultimately show ?thesis unfolding admin_late_def in_flight_removed by simp
qed

lemma late_registry: "\<exists>cfg. untyped_to_typed (\<lambda>_. True) (ad_ceph admin_late) = Inr cfg \<and> ceph_ok (\<lambda>_. True) cfg"
  using admin.reachable_inv [OF admin0_start late_steps] by (auto simp: admin_inv_def file_ok_def)

definition late_config :: ceph_config where
  "late_config = projr (untyped_to_typed (\<lambda>_. True) (ad_ceph admin_late))"

lemma late_config: "untyped_to_typed (\<lambda>_. True) (ad_ceph admin_late) = Inr late_config" "ceph_ok (\<lambda>_. True) late_config"
  using late_registry by (auto simp: late_config_def)

lemma late_values:
  "cf_clusters late_config = [(fsid0, (new_cluster fsid0)\<lparr>cc_state := Some Ceph_Detected\<rparr>)]"
  "cf_members late_config = [(cm_id late_member, late_member)]"
  by code_simp+

text \<open>A sweep that probed a remote before it was removed brings its cluster back: the registry then names a remote
  that is not configured, removing that remote again is refused, and later sweeps leave the cluster recorded as
  detected.\<close>

theorem removed_remote_returns:
  "(admin_step (\<lambda>_. True))\<^sup>*\<^sup>* admin0 admin_late \<and> rf_config (ad_files admin_late) = []
   \<and> cf_clusters late_config = [(fsid0, (new_cluster fsid0)\<lparr>cc_state := Some Ceph_Detected\<rparr>)]
   \<and> map (\<lambda>(_, m). cm_remote m) (cf_members late_config) = [Some ''a'']
   \<and> fst (remove_remote env cenv fault ''a'' False admin_late) = Inl (No_Such_Entry ''a'')
   \<and> commit_sweep (cenv0\<lparr>cn_now := t\<rparr>) [(''b'', Probe_Reachable)] [] (ad_ceph admin_late) = (Inr (), ad_ceph admin_late)"
proof -
  have "fst (remove_remote env cenv fault ''a'' False admin_late) = Inl (No_Such_Entry ''a'')"
    by (simp add: remove_remote_def late_run sc_get_def)
  moreover have "commit_sweep (cenv0\<lparr>cn_now := t\<rparr>) [(''b'', Probe_Reachable)] [] (ad_ceph admin_late) = (Inr (), ad_ceph admin_late)"
  proof -
    have "List.map_filter (demotion late_config [] [(''b'', Probe_Reachable)]) (cf_clusters late_config) = []" by code_simp
    then show ?thesis
      by (simp add: commit_sweep_def late_config upsert_found_def reconcile_unfound_def save_changed_def)
  qed
  ultimately show ?thesis using late_steps late_run(1) late_values by (simp add: late_member_def new_member_def)
qed

section \<open>Witnesses\<close>

theorem remotes_reachable_wf_witness:
  "(admin_step (\<lambda>_. True))\<^sup>*\<^sup>* admin0 admin_late \<and> (\<exists>cfg. untyped_to_typed (\<lambda>_. True) (ad_ceph admin_late) = Inr cfg)"
  using remotes_reachable_wf [OF admin0_start late_steps] late_steps by blast


theorem ceph_sweep_stable_witness:
  "commit_sweep (cenv0\<lparr>cn_now := 200\<rparr>) [(''a'', Probe_Reachable)] [] (snd (commit_sweep cenv0 [(''a'', Probe_Reachable)] [] (ad_ceph admin_late)))
     = (Inr (), snd (commit_sweep cenv0 [(''a'', Probe_Reachable)] [] (ad_ceph admin_late)))"
  using ceph_sweep_stable [of cenv0 "ad_ceph admin_late" late_config "[]" "cenv0\<lparr>cn_now := 200\<rparr>" "[(''a'', Probe_Reachable)]"]
    late_config cenv0_ok(2) found_ok_Nil by simp

definition kept_config :: ceph_config where
  "kept_config = late_config\<lparr>cf_extras := [(fsid0, [(''future-knob'', JStr ''on'')])]\<rparr>"

lemma kept_config_ok: "ceph_ok (\<lambda>_. True) kept_config"
proof -
  have "kept_ok fsid0 [(''future-knob'', JStr ''on'')]" by (simp add: kept_ok_def extras_ok_def cluster_fields_def)
  then show ?thesis using late_config(2) by (simp add: ceph_ok_def kept_config_def) (simp add: sc_get_def)
qed

theorem ceph_registry_roundtrip_witness:
  "\<exists>cfg'. untyped_to_typed (\<lambda>_. True) (ceph_write kept_config) = Inr cfg' \<and> sc_get (cf_extras cfg') fsid0 = Some [(''future-knob'', JStr ''on'')]"
proof -
  have "registered kept_config fsid0" by (simp add: registered_def kept_config_def late_values sc_get_def)
  moreover have "sc_get (cf_extras kept_config) fsid0 = Some [(''future-knob'', JStr ''on'')]" by (simp add: kept_config_def sc_get_def)
  ultimately show ?thesis using ceph_registry_roundtrip [OF kept_config_ok] by auto
qed

theorem removed_remote_cleaned_witness:
  "\<exists>cfg'. untyped_to_typed (\<lambda>_. True) (snd (on_remote_removed cenv0 ''a'' (ad_ceph admin_late))) = Inr cfg'
     \<and> sc_get (cf_members cfg') (cm_id late_member) = None"
proof -
  have "sc_get (cf_members late_config) (cm_id late_member) = Some late_member" by (simp add: late_values sc_get_def)
  moreover have "cm_kind late_member = Kind_Pve \<and> cm_remote late_member = Some ''a''" by (simp add: late_member_def new_member_def)
  ultimately show ?thesis
    using removed_remote_cleaned [of cenv0 "ad_ceph admin_late" late_config "''a''"] late_config by auto
qed

theorem ceph_access_exact_witness:
  "(\<exists>es. list_clusters cenv0 (\<lambda>r. r = ''a'') Map.empty (ad_ceph admin_late) = Inr es \<and> set (map le_cluster es) = {i. visible (\<lambda>r. r = ''a'') late_config i})
   \<and> access_checked_members cenv0 (\<lambda>r. r = ''a'') fsid0 (ad_ceph admin_late) = Inr [late_member]
   \<and> get_summary cenv0 [] (\<lambda>r. r = ''b'') fsid0 None Map.empty (ad_ceph admin_late) = (Inl (No_Cluster_Access fsid0), Map.empty)"
proof -
  have late: "sc_get (cf_clusters late_config) fsid0 \<noteq> None" "sorted_members late_config fsid0 = [late_member]" by code_simp+
  have m: "sc_get (cf_members late_config) j = Some m \<longleftrightarrow> j = cm_id late_member \<and> m = late_member" for j m
    by (auto simp: late_values sc_get_def)
  have v: "visible below late_config fsid0 \<longleftrightarrow> below ''a''" for below
    using late(1) by (simp add: visible_def m late_member_def new_member_def)
  have r: "untyped_to_typed (cn_authid cenv0) (ad_ceph admin_late) = Inr late_config" "ceph_ok (cn_authid cenv0) late_config"
    using late_config by simp_all
  note a = ceph_access_exact [OF r, of "\<lambda>r. r = ''a''" Map.empty "[]"]
  note b = ceph_access_exact [OF r, of "\<lambda>r. r = ''b''" Map.empty "[]", THEN conjunct2, THEN conjunct2, rule_format, where i = fsid0 and max_age = None and call = "\<lambda>_ _. Inr ()"]
  have "\<exists>es. list_clusters cenv0 (\<lambda>r. r = ''a'') Map.empty (ad_ceph admin_late) = Inr es \<and> set (map le_cluster es) = {i. visible (\<lambda>r. r = ''a'') late_config i}"
    using a [THEN conjunct1] by blast
  moreover have "access_checked_members cenv0 (\<lambda>r. r = ''a'') fsid0 (ad_ceph admin_late) = Inr [late_member]"
    using a [THEN conjunct2, THEN conjunct1, rule_format, of fsid0] v [of "\<lambda>r. r = ''a''"] late(2) by simp
  moreover have "get_summary cenv0 [] (\<lambda>r. r = ''b'') fsid0 None Map.empty (ad_ceph admin_late) = (Inl (No_Cluster_Access fsid0), Map.empty)"
    using b v [of "\<lambda>r. r = ''b''"] late(1) by (simp add: Let_def)
  ultimately show ?thesis by blast
qed

theorem failed_write_effect_witness:
  "sc_get (rf_config (ad_files (snd (remove_remote aenv0 cenv0 Config_Fault ''a'' False admin_added)))) ''a'' = Some ((pve_remote ''a'')\<lparr>r_token := ''-''\<rparr>)
   \<and> get_secret_token ((pve_remote ''a'')\<lparr>r_token := ''-''\<rparr>) (ad_files (snd (remove_remote aenv0 cenv0 Config_Fault ''a'' False admin_added)))
       = Inl (No_Shadow_Entry ''a'')"
proof -
  have ok: "files_ok (ad_files admin_added)"
    using admin_op_views [OF views0, of aenv0 cenv0 "\<lambda>_. []" "Add_Op (pve_remote ''a'') None"] by (simp add: views_def admin_added_def)
  have g: "sc_get (rf_config (ad_files admin_added)) ''a'' = Some ((pve_remote ''a'')\<lparr>r_token := ''-''\<rparr>)"
    "get_secret_token ((pve_remote ''a'')\<lparr>r_token := ''-''\<rparr>) (ad_files admin_added) = Inr ''s''"
    "sc_get (rf_config (ad_files admin_added)) (r_id (pve_remote ''b'')) = None" "r_id (pve_remote ''b'') \<noteq> ''a''"
    by code_simp+
  show ?thesis using failed_write_effect [OF ok g(1,2) _ g(4,3), of Config_Fault aenv0 cenv0] by simp
qed

definition remotes_ab :: "remote section_config" where
  "remotes_ab = [(''a'', pve_remote ''a''), (''b'', pve_remote ''b'')]"

theorem spanning_cluster_first_remote_witness:
  "\<exists>cfg'. untyped_to_typed (\<lambda>_. True) (snd (snd (sweep cenv0 remotes_ab (\<lambda>f. f) Map.empty []))) = Inr cfg' \<and> \<not> visible (\<lambda>r. r = ''b'') cfg' fsid0"
proof -
  have e: "untyped_to_typed (\<lambda>_. True) [] = Inr empty_ceph" "ceph_ok (\<lambda>_. True) empty_ceph"
    by (simp_all add: untyped_to_typed_def ceph_ok_def empty_ceph_def sc_wf_def sc_get_def)
  have p: "list_pve_remotes remotes_ab = [''a'', ''b'']" "connects cenv0 remotes_ab ''a'' = Inr ()" "connects cenv0 remotes_ab ''b'' = Inr ()"
    by code_simp+
  have s: "cn_status cenv0 r = Answer status0" for r by (simp add: cenv0_def)
  have q: "get_str status0 ''fsid'' = Some fsid0" "quorum_nodes status0 = [''n1'']" by code_simp+
  show ?thesis
    using spanning_cluster_first_remote [of cenv0 "[]" empty_ceph, OF _ _ cenv0_ok(2) _ p s s q, of Map.empty "\<lambda>r. r = ''b''"] e
    by (simp add: empty_ceph_def sc_get_def)
qed

end
