(* ===== verification/Metric_Store.thy ===== *)
theory Metric_Store
  imports Remote_Config
begin

text \<open>
  The metrics database of the server: the requests of the collection tasks and what the store task writes for each
  (\<open>server/src/metric_collection/rrd_task.rs\<close>), the database with its time frames (\<open>rrd_cache.rs\<close>), and the metrics of
  the server's own host (\<open>local_collection_task.rs\<close>). The database library is outside of the sources: it is represented
  by the sequence of updates it was given, and reading from it is a parameter. Floating point numbers are values of a type
  \<open>'f\<close> that the code only passes on; the few operations it applies to them are the fields of \<open>floats\<close>.
\<close>

record 'f floats =
  fl_zero :: 'f
  fl_of_u64 :: "nat \<Rightarrow> 'f"
  fl_add :: "'f \<Rightarrow> 'f \<Rightarrow> 'f"
  fl_mul :: "'f \<Rightarrow> 'f \<Rightarrow> 'f"
  fl_div :: "'f \<Rightarrow> 'f \<Rightarrow> 'f"
  fl_finite :: "'f \<Rightarrow> bool"
  fl_positive :: "'f \<Rightarrow> bool"
  fl_round_usize :: "'f \<Rightarrow> nat"

definition wrap_u64 :: "nat \<Rightarrow> nat" where
  "wrap_u64 n = n mod 2 ^ 64"

section \<open>The database\<close>

datatype data_source_type = Dst_Gauge | Dst_Counter | Dst_Derive

record 'f rrd_update =
  ru_name :: string
  ru_value :: 'f
  ru_timestamp :: i64
  ru_type :: data_source_type

type_synonym 'f rrd = "'f rrd_update list"

definition update_value :: "string \<Rightarrow> 'f \<Rightarrow> i64 \<Rightarrow> data_source_type \<Rightarrow> 'f rrd \<Rightarrow> 'f rrd" where
  "update_value name v timestamp ty rrd = rrd @ [\<lparr>ru_name = name, ru_value = v, ru_timestamp = timestamp, ru_type = ty\<rparr>]"

datatype aggregation = Agg_Average | Agg_Maximum

text \<open>The archives of a new database: aggregation, seconds of a slot, number of slots.\<close>

definition create_callback :: "data_source_type \<Rightarrow> data_source_type \<times> (aggregation \<times> nat \<times> nat) list" where
  "create_callback dst = (dst,
     [(Agg_Average, 60, 1440), (Agg_Maximum, 60, 1440),
      (Agg_Average, 30 * 60, 1440), (Agg_Maximum, 30 * 60, 1440),
      (Agg_Average, 6 * 3600, 1440), (Agg_Maximum, 6 * 3600, 1440),
      (Agg_Average, 7 * 86400, 570), (Agg_Maximum, 7 * 86400, 570)])"

datatype rrd_timeframe = Tf_Hour | Tf_Day | Tf_Week | Tf_Month | Tf_Year | Tf_Decade

datatype rrd_mode = Mode_Max | Mode_Average

definition frame_start :: "rrd_timeframe \<Rightarrow> 64 word \<Rightarrow> 64 word \<times> nat" where
  "frame_start timeframe end_time = (case timeframe of
     Tf_Hour \<Rightarrow> (end_time - 3600, 60)
   | Tf_Day \<Rightarrow> (end_time - 3600 * 24, 60)
   | Tf_Week \<Rightarrow> (end_time - 3600 * 24 * 7, 30 * 60)
   | Tf_Month \<Rightarrow> (end_time - 3600 * 24 * 30, 30 * 60)
   | Tf_Year \<Rightarrow> (end_time - 3600 * 24 * 365, 6 * 60 * 60)
   | Tf_Decade \<Rightarrow> (end_time - 10 * 3600 * 24 * 366, 7 * 86400))"

definition mode_cf :: "rrd_mode \<Rightarrow> aggregation" where
  "mode_cf mode = (case mode of Mode_Max \<Rightarrow> Agg_Maximum | Mode_Average \<Rightarrow> Agg_Average)"

record 'f rrd_entry =
  re_start :: nat
  re_resolution :: nat
  re_data :: "'f option list"

text \<open>
  How the library reads the slots of one metric: directory, metric, aggregation, resolution, start and end.
\<close>

type_synonym 'f extractor =
  "'f rrd \<Rightarrow> string \<Rightarrow> string \<Rightarrow> aggregation \<Rightarrow> nat \<Rightarrow> 64 word \<Rightarrow> 64 word \<Rightarrow> string + 'f rrd_entry option"

definition extract_data ::
  "'f extractor \<Rightarrow> 64 word \<Rightarrow> 'f rrd \<Rightarrow> string \<Rightarrow> string \<Rightarrow> rrd_timeframe \<Rightarrow> rrd_mode \<Rightarrow> string + 'f rrd_entry option" where
  "extract_data extract now rrd basedir name timeframe mode =
     (let (start, resolution) = frame_start timeframe now
      in extract rrd basedir name (mode_cf mode) resolution start now)"

section \<open>Metrics of the host\<close>

record 'f pressure = pr_average_10 :: 'f

record 'f pressure_data =
  pd_some :: "'f pressure"
  pd_full :: "'f pressure"

record 'f proc_stat =
  ps_cpu :: 'f
  ps_iowait_percent :: 'f

record meminfo =
  mi_memtotal :: nat
  mi_memused :: nat
  mi_swaptotal :: nat
  mi_swapused :: nat

record net_dev_stats =
  nds_netin :: nat
  nds_netout :: nat

record blockdev_stat =
  bds_read_ios :: nat
  bds_write_ios :: nat
  bds_read_sectors :: nat
  bds_write_sectors :: nat
  bds_io_ticks :: nat

record fs_info =
  fsi_total :: nat
  fsi_used :: nat

record 'f host_metrics =
  hm_proc :: "'f proc_stat option"
  hm_meminfo :: "meminfo option"
  hm_load :: "('f \<times> 'f \<times> 'f) option"
  hm_netstats :: "net_dev_stats option"
  hm_root_blockdev_stat :: "blockdev_stat option"
  hm_root_filesystem_info :: "fs_info option"
  hm_cpu_pressure :: "'f pressure_data option"
  hm_memory_pressure :: "'f pressure_data option"
  hm_io_pressure :: "'f pressure_data option"

text \<open>A line of \<open>/proc/net/dev\<close>.\<close>

record net_dev =
  nd_device :: string
  nd_receive :: nat
  nd_send :: nat

text \<open>The cached interfaces: for each whether it is a physical one, and the instant, in nanoseconds, they were read.\<close>

record netdev_cache_entry =
  nc_interfaces :: "string \<Rightarrow> bool option"
  nc_timestamp :: nat

definition NETWORK_INTERFACE_CACHE_MAX_AGE :: nat where
  "NETWORK_INTERFACE_CACHE_MAX_AGE = 300 * 10 ^ 9"

definition netdev_sum :: "(string \<Rightarrow> bool option) \<Rightarrow> net_dev list \<Rightarrow> net_dev_stats" where
  "netdev_sum interfaces devs =
     fold (\<lambda>d s. if interfaces (nd_device d) = Some True
                  then s\<lparr>nds_netin := wrap_u64 (nds_netin s + nd_receive d), nds_netout := wrap_u64 (nds_netout s + nd_send d)\<rparr>
                  else s) devs \<lparr>nds_netin = 0, nds_netout = 0\<rparr>"

text \<open>\<open>net_devs\<close> and \<open>interfaces\<close> are the outcomes of reading the counters and the interfaces.\<close>

definition collect_netdev_metrics ::
  "string + net_dev list \<Rightarrow> string + (string \<Rightarrow> bool option) \<Rightarrow> nat \<Rightarrow> netdev_cache_entry option \<Rightarrow>
   (string + net_dev_stats) \<times> netdev_cache_entry option" where
  "collect_netdev_metrics net_devs interfaces now cache =
     (case net_devs of
        Inl e \<Rightarrow> (Inl e, cache)
      | Inr devs \<Rightarrow>
          (let needs_refresh = (case cache of
                 Some entry \<Rightarrow> now - nc_timestamp entry > NETWORK_INTERFACE_CACHE_MAX_AGE | None \<Rightarrow> True)
           in if needs_refresh
              then (case interfaces of
                      Inl e \<Rightarrow> (Inl e, cache)
                    | Inr is \<Rightarrow> (Inr (netdev_sum is devs), Some \<lparr>nc_interfaces = is, nc_timestamp = now\<rparr>))
              else (case cache of
                      Some entry \<Rightarrow> (Inr (netdev_sum (nc_interfaces entry) devs), cache)
                    | None \<Rightarrow> (Inl ''unreachable'', cache))))"

definition result_ok :: "'e + 'a \<Rightarrow> 'a option" where
  "result_ok r = (case r of Inl _ \<Rightarrow> None | Inr v \<Rightarrow> Some v)"

text \<open>What the reads of the host's files answer.\<close>

record 'f host_reads =
  hr_proc :: "string + 'f proc_stat"
  hr_meminfo :: "string + meminfo"
  hr_load :: "string + ('f \<times> 'f \<times> 'f)"
  hr_net_devs :: "string + net_dev list"
  hr_interfaces :: "string + (string \<Rightarrow> bool option)"
  hr_blockdev :: "string + blockdev_stat"
  hr_fs_info :: "string + fs_info"
  hr_cpu_pressure :: "string + 'f pressure_data"
  hr_memory_pressure :: "string + 'f pressure_data"
  hr_io_pressure :: "string + 'f pressure_data"

definition collect_host_metrics ::
  "'f host_reads \<Rightarrow> nat \<Rightarrow> netdev_cache_entry option \<Rightarrow> 'f host_metrics \<times> netdev_cache_entry option" where
  "collect_host_metrics h now cache =
     (let (netstats, cache') = collect_netdev_metrics (hr_net_devs h) (hr_interfaces h) now cache
      in (\<lparr>hm_proc = result_ok (hr_proc h), hm_meminfo = result_ok (hr_meminfo h), hm_load = result_ok (hr_load h),
           hm_netstats = result_ok netstats, hm_root_blockdev_stat = result_ok (hr_blockdev h),
           hm_root_filesystem_info = result_ok (hr_fs_info h), hm_cpu_pressure = result_ok (hr_cpu_pressure h),
           hm_memory_pressure = result_ok (hr_memory_pressure h), hm_io_pressure = result_ok (hr_io_pressure h)\<rparr>, cache'))"

section \<open>Requests\<close>

datatype metric_type = Mt_Gauge | Mt_Counter | Mt_Derive | Mt_Unknown string

record 'f data_point =
  dp_id :: string
  dp_metric :: string
  dp_timestamp :: i64
  dp_ty :: metric_type
  dp_value :: 'f

datatype 'f rrd_store_request =
    Store_Pve string "'f data_point list" 'f i64
  | Store_Pbs string "'f data_point list" 'f i64
  | Store_Stats i64 'f
  | Store_Host i64 "'f host_metrics"

definition FUTURE_DATAPOINT_TOLERANCE :: i64 where
  "FUTURE_DATAPOINT_TOLERANCE = 60"

text \<open>The most recent timestamp of the points it kept, and the database with them.\<close>

definition store_datapoints ::
  "('f data_point \<Rightarrow> 'f rrd \<Rightarrow> 'f rrd) \<Rightarrow> 'f data_point list \<Rightarrow> i64 \<Rightarrow> 'f rrd \<Rightarrow> i64 \<times> 'f rrd" where
  "store_datapoints store data request_at rrd =
     (let future_cutoff = wrap_i64 (request_at + FUTURE_DATAPOINT_TOLERANCE)
      in fold (\<lambda>p (most_recent, rrd).
           if dp_timestamp p > future_cutoff then (most_recent, rrd)
           else (max most_recent (dp_timestamp p), store p rrd)) data (0, rrd))"

definition source_type :: "metric_type \<Rightarrow> data_source_type option" where
  "source_type ty = (case ty of
     Mt_Gauge \<Rightarrow> Some Dst_Gauge | Mt_Counter \<Rightarrow> Some Dst_Counter | Mt_Derive \<Rightarrow> Some Dst_Derive | Mt_Unknown _ \<Rightarrow> None)"

definition pve_name :: "string \<Rightarrow> 'f data_point \<Rightarrow> string" where
  "pve_name remote p = ''pve/'' @ remote @ ''/'' @ dp_id p @ ''/'' @ dp_metric p"

definition store_metric_pve :: "string \<Rightarrow> 'f data_point \<Rightarrow> 'f rrd \<Rightarrow> 'f rrd" where
  "store_metric_pve remote p rrd = (case source_type (dp_ty p) of
     None \<Rightarrow> rrd | Some ty \<Rightarrow> update_value (pve_name remote p) (dp_value p) (dp_timestamp p) ty rrd)"

definition pbs_name :: "string \<Rightarrow> 'f data_point \<Rightarrow> string" where
  "pbs_name remote p = ''pbs/'' @ remote @ ''/'' @ dp_id p @ ''/'' @ dp_metric p"

definition store_metric_pbs :: "string \<Rightarrow> 'f data_point \<Rightarrow> 'f rrd \<Rightarrow> 'f rrd" where
  "store_metric_pbs remote p rrd = (case source_type (dp_ty p) of
     None \<Rightarrow> rrd | Some ty \<Rightarrow> update_value (pbs_name remote p) (dp_value p) (dp_timestamp p) ty rrd)"

definition response_time_name :: "string \<Rightarrow> string" where
  "response_time_name remote = ''remotes/'' @ remote @ ''/metric-collection-response-time''"

definition store_response_time :: "string \<Rightarrow> 'f \<Rightarrow> i64 \<Rightarrow> 'f rrd \<Rightarrow> 'f rrd" where
  "store_response_time remote response_time timestamp rrd =
     update_value (response_time_name remote) response_time timestamp Dst_Gauge rrd"

definition store_stats :: "'f \<Rightarrow> i64 \<Rightarrow> 'f rrd \<Rightarrow> 'f rrd" where
  "store_stats total_time timestamp rrd =
     update_value ''nodes/localhost/metric-collection-total-time'' total_time timestamp Dst_Gauge rrd"

definition host_values :: "'f floats \<Rightarrow> 'f host_metrics \<Rightarrow> (string \<times> 'f \<times> data_source_type) list" where
  "host_values F m =
     (case hm_proc m of None \<Rightarrow> [] | Some p \<Rightarrow>
        [(''cpu-current'', ps_cpu p, Dst_Gauge), (''cpu-iowait'', ps_iowait_percent p, Dst_Gauge)])
   @ (case hm_load m of None \<Rightarrow> [] | Some (l1, l5, l15) \<Rightarrow>
        [(''cpu-avg1'', l1, Dst_Gauge), (''cpu-avg5'', l5, Dst_Gauge), (''cpu-avg15'', l15, Dst_Gauge)])
   @ (case hm_cpu_pressure m of None \<Rightarrow> [] | Some p \<Rightarrow>
        [(''cpu-pressure-some-avg10'', pr_average_10 (pd_some p), Dst_Gauge)])
   @ (case hm_meminfo m of None \<Rightarrow> [] | Some i \<Rightarrow>
        [(''mem-total'', fl_of_u64 F (mi_memtotal i), Dst_Gauge), (''mem-used'', fl_of_u64 F (mi_memused i), Dst_Gauge),
         (''swap-total'', fl_of_u64 F (mi_swaptotal i), Dst_Gauge), (''swap-used'', fl_of_u64 F (mi_swapused i), Dst_Gauge)])
   @ (case hm_memory_pressure m of None \<Rightarrow> [] | Some p \<Rightarrow>
        [(''mem-pressure-some-avg10'', pr_average_10 (pd_some p), Dst_Gauge),
         (''mem-pressure-full-avg10'', pr_average_10 (pd_full p), Dst_Gauge)])
   @ (case hm_netstats m of None \<Rightarrow> [] | Some s \<Rightarrow>
        [(''net-in'', fl_of_u64 F (nds_netin s), Dst_Derive), (''net-out'', fl_of_u64 F (nds_netout s), Dst_Derive)])
   @ (case hm_root_filesystem_info m of None \<Rightarrow> [] | Some d \<Rightarrow>
        [(''disk-total'', fl_of_u64 F (fsi_total d), Dst_Gauge), (''disk-used'', fl_of_u64 F (fsi_used d), Dst_Gauge)])
   @ (case hm_root_blockdev_stat m of None \<Rightarrow> [] | Some s \<Rightarrow>
        [(''disk-read-iops'', fl_of_u64 F (bds_read_ios s), Dst_Derive),
         (''disk-write-iops'', fl_of_u64 F (bds_write_ios s), Dst_Derive),
         (''disk-read'', fl_of_u64 F (wrap_u64 (bds_read_sectors s * 512)), Dst_Derive),
         (''disk-write'', fl_of_u64 F (wrap_u64 (bds_write_sectors s * 512)), Dst_Derive),
         (''disk-io-ticks'', fl_div F (fl_of_u64 F (bds_io_ticks s)) (fl_of_u64 F 1000), Dst_Derive)])
   @ (case hm_io_pressure m of None \<Rightarrow> [] | Some p \<Rightarrow>
        [(''io-pressure-some-avg10'', pr_average_10 (pd_some p), Dst_Gauge),
         (''io-pressure-full-avg10'', pr_average_10 (pd_full p), Dst_Gauge)])"

definition store_pdm_host_metrics :: "'f floats \<Rightarrow> i64 \<Rightarrow> 'f host_metrics \<Rightarrow> 'f rrd \<Rightarrow> 'f rrd" where
  "store_pdm_host_metrics F timestamp metrics rrd =
     fold (\<lambda>(name, v, ty). update_value (''nodes/localhost/'' @ name) v timestamp ty) (host_values F metrics) rrd"

text \<open>One request of the store task, with the timestamp it answers, if it answers.\<close>

definition store_request :: "'f floats \<Rightarrow> 'f rrd_store_request \<Rightarrow> 'f rrd \<Rightarrow> i64 option \<times> 'f rrd" where
  "store_request F req rrd = (case req of
     Store_Pve remote data response_time request_at \<Rightarrow>
       (let (most_recent, rrd') = store_datapoints (store_metric_pve remote) data request_at rrd
        in (Some most_recent, store_response_time remote response_time request_at rrd'))
   | Store_Pbs remote data response_time request_at \<Rightarrow>
       (let (most_recent, rrd') = store_datapoints (store_metric_pbs remote) data request_at rrd
        in (Some most_recent, store_response_time remote response_time request_at rrd'))
   | Store_Stats timestamp total_time \<Rightarrow> (None, store_stats total_time timestamp rrd)
   | Store_Host timestamp metrics \<Rightarrow> (None, store_pdm_host_metrics F timestamp metrics rrd))"

text \<open>The request of a tick of the host's own collection task.\<close>

definition local_handle_tick ::
  "'f host_reads \<Rightarrow> nat \<Rightarrow> i64 \<Rightarrow> netdev_cache_entry option \<Rightarrow> 'f rrd_store_request \<times> netdev_cache_entry option" where
  "local_handle_tick h instant now cache =
     (let (stats, cache') = collect_host_metrics h instant cache in (Store_Host now stats, cache'))"

definition store_in_rrd_task :: "'f floats \<Rightarrow> 'f rrd_store_request list \<Rightarrow> 'f rrd \<Rightarrow> 'f rrd" where
  "store_in_rrd_task F reqs rrd = fold (\<lambda>req rrd. snd (store_request F req rrd)) reqs rrd"

end
