(* ===== verification/Metric_Points.thy ===== *)
theory Metric_Points
  imports Metric_Store
begin

text \<open>
  Reading the metrics database: the data points of the API (\<open>lib/pdm-api-types/src/rrddata.rs\<close>), how each is filled from
  the fields of the database (\<open>api/pve/rrddata.rs\<close>, \<open>api/pbs/rrddata.rs\<close>, \<open>api/nodes/rrddata.rs\<close>,
  \<open>api/remotes/mod.rs\<close>), and the assembly of the points of a time frame (\<open>api/rrd_common.rs\<close>). What the assembly relies on
  of a kind of data point is the contract \<open>data_point_type\<close>.
\<close>

section \<open>Assembly\<close>

text \<open>The trait \<open>DataPoint\<close>.\<close>

record ('f, 'p) point_ops =
  po_new :: "nat \<Rightarrow> 'p"
  po_fields :: "string list"
  po_set_field :: "string \<Rightarrow> 'f \<Rightarrow> 'p \<Rightarrow> 'p"

text \<open>\<open>timemap.entry(t).or_insert_with(..)\<close> in an ordered map, followed by an update of the entry.\<close>

fun with_entry :: "nat \<Rightarrow> 'p \<Rightarrow> ('p \<Rightarrow> 'p) \<Rightarrow> (nat \<times> 'p) list \<Rightarrow> (nat \<times> 'p) list" where
  "with_entry t new f [] = [(t, f new)]"
| "with_entry t new f ((t', p) # m) =
     (if t < t' then (t, f new) # (t', p) # m
      else if t = t' then (t, f p) # m
      else (t', p) # with_entry t new f m)"

fun add_values :: "('f, 'p) point_ops \<Rightarrow> string \<Rightarrow> nat \<Rightarrow> nat \<Rightarrow> 'f option list \<Rightarrow> (nat \<times> 'p) list \<Rightarrow> (nat \<times> 'p) list" where
  "add_values T name t resolution [] m = m"
| "add_values T name t resolution (v # vs) m =
     add_values T name (wrap_u64 (t + resolution)) resolution vs
       (with_entry t (po_new T t) (case v of None \<Rightarrow> id | Some x \<Rightarrow> po_set_field T name x) m)"

datatype points_error = Pt_Extract string | Pt_Resolution nat nat | Pt_Bad_Node string

fun read_fields ::
  "(string \<Rightarrow> string + 'f rrd_entry option) \<Rightarrow> ('f, 'p) point_ops \<Rightarrow> string list \<Rightarrow> nat option \<Rightarrow> (nat \<times> 'p) list \<Rightarrow>
   points_error + (nat \<times> 'p) list" where
  "read_fields get T [] last_resolution m = Inr m"
| "read_fields get T (name # names) last_resolution m =
     (case get name of
        Inl e \<Rightarrow> Inl (Pt_Extract e)
      | Inr None \<Rightarrow> read_fields get T names last_resolution m
      | Inr (Some e) \<Rightarrow>
          (case last_resolution of
             Some expected \<Rightarrow>
               if re_resolution e \<noteq> expected then Inl (Pt_Resolution (re_resolution e) expected)
               else read_fields get T names last_resolution (add_values T name (re_start e) (re_resolution e) (re_data e) m)
           | None \<Rightarrow>
               read_fields get T names (Some (re_resolution e))
                 (add_values T name (re_start e) (re_resolution e) (re_data e) m)))"

definition create_datapoints_from_rrd ::
  "'f extractor \<Rightarrow> 64 word \<Rightarrow> ('f, 'p) point_ops \<Rightarrow> string \<Rightarrow> rrd_timeframe \<Rightarrow> rrd_mode \<Rightarrow> 'f rrd \<Rightarrow> points_error + 'p list" where
  "create_datapoints_from_rrd extract now T basedir timeframe mode rrd =
     and_then (read_fields (\<lambda>name. extract_data extract now rrd basedir name timeframe mode) T (po_fields T) None [])
       (\<lambda>m. Inr (map snd m))"

text \<open>\<open>trigger\<close> is what a collection of the remote has stored when the reader stops waiting for it.\<close>

definition get_rrd_datapoints ::
  "'f extractor \<Rightarrow> (string \<Rightarrow> 'f rrd \<Rightarrow> 'f rrd) \<Rightarrow> 64 word \<Rightarrow> ('f, 'p) point_ops \<Rightarrow> string \<Rightarrow> string \<Rightarrow> rrd_timeframe \<Rightarrow>
   rrd_mode \<Rightarrow> 'f rrd \<Rightarrow> (points_error + 'p list) \<times> 'f rrd" where
  "get_rrd_datapoints extract trigger now T remote basepath timeframe mode rrd =
     (let rrd' = (if timeframe = Tf_Hour then trigger remote rrd else rrd)
      in (create_datapoints_from_rrd extract now T basepath timeframe mode rrd', rrd'))"

section \<open>Nodes of a virtualization cluster\<close>

record 'f node_point =
  nod_time :: nat
  nod_cpu_current :: "'f option"
  nod_cpu_iowait :: "'f option"
  nod_cpu_avg1 :: "'f option"
  nod_cpu_avg5 :: "'f option"
  nod_cpu_avg15 :: "'f option"
  nod_cpu_max :: "'f option"
  nod_disk_total :: "'f option"
  nod_disk_used :: "'f option"
  nod_swap_total :: "'f option"
  nod_swap_used :: "'f option"
  nod_mem_total :: "'f option"
  nod_mem_used :: "'f option"
  nod_net_in :: "'f option"
  nod_net_out :: "'f option"
  nod_uptime :: "'f option"

definition node_new :: "nat \<Rightarrow> 'f node_point" where
  "node_new time =
     \<lparr>nod_time = time, nod_cpu_current = None, nod_cpu_iowait = None, nod_cpu_avg1 = None, nod_cpu_avg5 = None,
      nod_cpu_avg15 = None, nod_cpu_max = None, nod_disk_total = None, nod_disk_used = None,
      nod_swap_total = None, nod_swap_used = None, nod_mem_total = None, nod_mem_used = None,
      nod_net_in = None, nod_net_out = None, nod_uptime = None\<rparr>"

definition node_fields :: "string list" where
  "node_fields =
     [''cpu_current'', ''cpu_iowait'', ''cpu_max'', ''cpu_avg1'', ''cpu_avg5'', ''cpu_avg15'', ''disk_total'',
      ''disk_used'', ''mem_total'', ''mem_used'', ''swap_total'', ''swap_used'', ''net_in'', ''net_out'',
      ''uptime'']"

definition node_set_field :: "string \<Rightarrow> 'f \<Rightarrow> 'f node_point \<Rightarrow> 'f node_point" where
  "node_set_field name v p =
     (if name = ''cpu_current'' then p\<lparr>nod_cpu_current := Some v\<rparr>
      else if name = ''cpu_iowait'' then p\<lparr>nod_cpu_iowait := Some v\<rparr>
      else if name = ''cpu_max'' then p\<lparr>nod_cpu_max := Some v\<rparr>
      else if name = ''cpu_avg1'' then p\<lparr>nod_cpu_avg1 := Some v\<rparr>
      else if name = ''cpu_avg5'' then p\<lparr>nod_cpu_avg5 := Some v\<rparr>
      else if name = ''cpu_avg15'' then p\<lparr>nod_cpu_avg15 := Some v\<rparr>
      else if name = ''disk_total'' then p\<lparr>nod_disk_total := Some v\<rparr>
      else if name = ''disk_used'' then p\<lparr>nod_disk_used := Some v\<rparr>
      else if name = ''mem_total'' then p\<lparr>nod_mem_total := Some v\<rparr>
      else if name = ''mem_used'' then p\<lparr>nod_mem_used := Some v\<rparr>
      else if name = ''swap_total'' then p\<lparr>nod_swap_total := Some v\<rparr>
      else if name = ''swap_used'' then p\<lparr>nod_swap_used := Some v\<rparr>
      else if name = ''net_in'' then p\<lparr>nod_net_in := Some v\<rparr>
      else if name = ''net_out'' then p\<lparr>nod_net_out := Some v\<rparr>
      else if name = ''uptime'' then p\<lparr>nod_uptime := Some v\<rparr>
      else p)"

definition node_ops :: "('f, 'f node_point) point_ops" where
  "node_ops = \<lparr>po_new = node_new, po_fields = node_fields, po_set_field = node_set_field\<rparr>"

text \<open>The field of a name, read.\<close>

definition node_field :: "string \<Rightarrow> 'f node_point \<Rightarrow> 'f option" where
  "node_field name p =
     (if name = ''cpu_current'' then nod_cpu_current p
      else if name = ''cpu_iowait'' then nod_cpu_iowait p
      else if name = ''cpu_avg1'' then nod_cpu_avg1 p
      else if name = ''cpu_avg5'' then nod_cpu_avg5 p
      else if name = ''cpu_avg15'' then nod_cpu_avg15 p
      else if name = ''cpu_max'' then nod_cpu_max p
      else if name = ''disk_total'' then nod_disk_total p
      else if name = ''disk_used'' then nod_disk_used p
      else if name = ''swap_total'' then nod_swap_total p
      else if name = ''swap_used'' then nod_swap_used p
      else if name = ''mem_total'' then nod_mem_total p
      else if name = ''mem_used'' then nod_mem_used p
      else if name = ''net_in'' then nod_net_in p
      else if name = ''net_out'' then nod_net_out p
      else if name = ''uptime'' then nod_uptime p
      else None)"

section \<open>Virtual machines\<close>

record 'f qemu_point =
  qem_time :: nat
  qem_cpu_current :: "'f option"
  qem_cpu_max :: "'f option"
  qem_disk_read :: "'f option"
  qem_disk_write :: "'f option"
  qem_disk_total :: "'f option"
  qem_mem_total :: "'f option"
  qem_mem_used :: "'f option"
  qem_net_in :: "'f option"
  qem_net_out :: "'f option"
  qem_uptime :: "'f option"

definition qemu_new :: "nat \<Rightarrow> 'f qemu_point" where
  "qemu_new time =
     \<lparr>qem_time = time, qem_cpu_current = None, qem_cpu_max = None, qem_disk_read = None, qem_disk_write = None,
      qem_disk_total = None, qem_mem_total = None, qem_mem_used = None, qem_net_in = None, qem_net_out = None,
      qem_uptime = None\<rparr>"

definition qemu_fields :: "string list" where
  "qemu_fields =
     [''cpu_current'', ''cpu_max'', ''disk_read'', ''disk_write'', ''disk_total'', ''mem_total'', ''mem_used'',
      ''net_in'', ''net_out'', ''uptime'']"

definition qemu_set_field :: "string \<Rightarrow> 'f \<Rightarrow> 'f qemu_point \<Rightarrow> 'f qemu_point" where
  "qemu_set_field name v p =
     (if name = ''cpu_current'' then p\<lparr>qem_cpu_current := Some v\<rparr>
      else if name = ''cpu_max'' then p\<lparr>qem_cpu_max := Some v\<rparr>
      else if name = ''disk_read'' then p\<lparr>qem_disk_read := Some v\<rparr>
      else if name = ''disk_write'' then p\<lparr>qem_disk_write := Some v\<rparr>
      else if name = ''disk_total'' then p\<lparr>qem_disk_total := Some v\<rparr>
      else if name = ''mem_total'' then p\<lparr>qem_mem_total := Some v\<rparr>
      else if name = ''mem_used'' then p\<lparr>qem_mem_used := Some v\<rparr>
      else if name = ''net_in'' then p\<lparr>qem_net_in := Some v\<rparr>
      else if name = ''net_out'' then p\<lparr>qem_net_out := Some v\<rparr>
      else if name = ''uptime'' then p\<lparr>qem_uptime := Some v\<rparr>
      else p)"

definition qemu_ops :: "('f, 'f qemu_point) point_ops" where
  "qemu_ops = \<lparr>po_new = qemu_new, po_fields = qemu_fields, po_set_field = qemu_set_field\<rparr>"

text \<open>The field of a name, read.\<close>

definition qemu_field :: "string \<Rightarrow> 'f qemu_point \<Rightarrow> 'f option" where
  "qemu_field name p =
     (if name = ''cpu_current'' then qem_cpu_current p
      else if name = ''cpu_max'' then qem_cpu_max p
      else if name = ''disk_read'' then qem_disk_read p
      else if name = ''disk_write'' then qem_disk_write p
      else if name = ''disk_total'' then qem_disk_total p
      else if name = ''mem_total'' then qem_mem_total p
      else if name = ''mem_used'' then qem_mem_used p
      else if name = ''net_in'' then qem_net_in p
      else if name = ''net_out'' then qem_net_out p
      else if name = ''uptime'' then qem_uptime p
      else None)"

section \<open>Containers\<close>

record 'f lxc_point =
  lxp_time :: nat
  lxp_cpu_current :: "'f option"
  lxp_cpu_max :: "'f option"
  lxp_disk_read :: "'f option"
  lxp_disk_write :: "'f option"
  lxp_disk_total :: "'f option"
  lxp_disk_used :: "'f option"
  lxp_mem_total :: "'f option"
  lxp_mem_used :: "'f option"
  lxp_net_in :: "'f option"
  lxp_net_out :: "'f option"
  lxp_uptime :: "'f option"

definition lxc_new :: "nat \<Rightarrow> 'f lxc_point" where
  "lxc_new time =
     \<lparr>lxp_time = time, lxp_cpu_current = None, lxp_cpu_max = None, lxp_disk_read = None, lxp_disk_write = None,
      lxp_disk_total = None, lxp_disk_used = None, lxp_mem_total = None, lxp_mem_used = None,
      lxp_net_in = None, lxp_net_out = None, lxp_uptime = None\<rparr>"

definition lxc_fields :: "string list" where
  "lxc_fields =
     [''cpu_current'', ''cpu_max'', ''disk_read'', ''disk_write'', ''disk_total'', ''disk_used'',
      ''mem_total'', ''mem_used'', ''net_in'', ''net_out'', ''uptime'']"

definition lxc_set_field :: "string \<Rightarrow> 'f \<Rightarrow> 'f lxc_point \<Rightarrow> 'f lxc_point" where
  "lxc_set_field name v p =
     (if name = ''cpu_current'' then p\<lparr>lxp_cpu_current := Some v\<rparr>
      else if name = ''cpu_max'' then p\<lparr>lxp_cpu_max := Some v\<rparr>
      else if name = ''disk_read'' then p\<lparr>lxp_disk_read := Some v\<rparr>
      else if name = ''disk_write'' then p\<lparr>lxp_disk_write := Some v\<rparr>
      else if name = ''disk_total'' then p\<lparr>lxp_disk_total := Some v\<rparr>
      else if name = ''disk_used'' then p\<lparr>lxp_disk_used := Some v\<rparr>
      else if name = ''mem_total'' then p\<lparr>lxp_mem_total := Some v\<rparr>
      else if name = ''mem_used'' then p\<lparr>lxp_mem_used := Some v\<rparr>
      else if name = ''net_in'' then p\<lparr>lxp_net_in := Some v\<rparr>
      else if name = ''net_out'' then p\<lparr>lxp_net_out := Some v\<rparr>
      else if name = ''uptime'' then p\<lparr>lxp_uptime := Some v\<rparr>
      else p)"

definition lxc_ops :: "('f, 'f lxc_point) point_ops" where
  "lxc_ops = \<lparr>po_new = lxc_new, po_fields = lxc_fields, po_set_field = lxc_set_field\<rparr>"

text \<open>The field of a name, read.\<close>

definition lxc_field :: "string \<Rightarrow> 'f lxc_point \<Rightarrow> 'f option" where
  "lxc_field name p =
     (if name = ''cpu_current'' then lxp_cpu_current p
      else if name = ''cpu_max'' then lxp_cpu_max p
      else if name = ''disk_read'' then lxp_disk_read p
      else if name = ''disk_write'' then lxp_disk_write p
      else if name = ''disk_total'' then lxp_disk_total p
      else if name = ''disk_used'' then lxp_disk_used p
      else if name = ''mem_total'' then lxp_mem_total p
      else if name = ''mem_used'' then lxp_mem_used p
      else if name = ''net_in'' then lxp_net_in p
      else if name = ''net_out'' then lxp_net_out p
      else if name = ''uptime'' then lxp_uptime p
      else None)"

section \<open>Storages\<close>

record 'f storage_point =
  stp_time :: nat
  stp_disk_total :: "'f option"
  stp_disk_used :: "'f option"

definition storage_new :: "nat \<Rightarrow> 'f storage_point" where
  "storage_new time =
     \<lparr>stp_time = time, stp_disk_total = None, stp_disk_used = None\<rparr>"

definition storage_fields :: "string list" where
  "storage_fields =
     [''disk_total'', ''disk_used'']"

definition storage_set_field :: "string \<Rightarrow> 'f \<Rightarrow> 'f storage_point \<Rightarrow> 'f storage_point" where
  "storage_set_field name v p =
     (if name = ''disk_total'' then p\<lparr>stp_disk_total := Some v\<rparr>
      else if name = ''disk_used'' then p\<lparr>stp_disk_used := Some v\<rparr>
      else p)"

definition storage_ops :: "('f, 'f storage_point) point_ops" where
  "storage_ops = \<lparr>po_new = storage_new, po_fields = storage_fields, po_set_field = storage_set_field\<rparr>"

text \<open>The field of a name, read.\<close>

definition storage_field :: "string \<Rightarrow> 'f storage_point \<Rightarrow> 'f option" where
  "storage_field name p =
     (if name = ''disk_total'' then stp_disk_total p
      else if name = ''disk_used'' then stp_disk_used p
      else None)"

section \<open>Backup servers\<close>

record 'f pbs_node_point =
  pbn_time :: nat
  pbn_cpu_current :: "'f option"
  pbn_cpu_iowait :: "'f option"
  pbn_cpu_avg1 :: "'f option"
  pbn_cpu_avg5 :: "'f option"
  pbn_cpu_avg15 :: "'f option"
  pbn_disk_total :: "'f option"
  pbn_disk_used :: "'f option"
  pbn_disk_available :: "'f option"
  pbn_disk_read :: "'f option"
  pbn_disk_write :: "'f option"
  pbn_swap_total :: "'f option"
  pbn_swap_used :: "'f option"
  pbn_mem_total :: "'f option"
  pbn_mem_used :: "'f option"
  pbn_net_in :: "'f option"
  pbn_net_out :: "'f option"

definition pbs_node_new :: "nat \<Rightarrow> 'f pbs_node_point" where
  "pbs_node_new time =
     \<lparr>pbn_time = time, pbn_cpu_current = None, pbn_cpu_iowait = None, pbn_cpu_avg1 = None, pbn_cpu_avg5 = None,
      pbn_cpu_avg15 = None, pbn_disk_total = None, pbn_disk_used = None, pbn_disk_available = None,
      pbn_disk_read = None, pbn_disk_write = None, pbn_swap_total = None, pbn_swap_used = None,
      pbn_mem_total = None, pbn_mem_used = None, pbn_net_in = None, pbn_net_out = None\<rparr>"

definition pbs_node_fields :: "string list" where
  "pbs_node_fields =
     [''cpu_current'', ''cpu_iowait'', ''cpu_avg1'', ''cpu_avg5'', ''cpu_avg15'', ''disk_total'',
      ''disk_used'', ''disk_read'', ''disk_write'', ''mem_total'', ''mem_used'', ''swap_total'', ''swap_used'',
      ''net_in'', ''net_out'']"

definition pbs_node_set_field :: "string \<Rightarrow> 'f \<Rightarrow> 'f pbs_node_point \<Rightarrow> 'f pbs_node_point" where
  "pbs_node_set_field name v p =
     (if name = ''cpu_current'' then p\<lparr>pbn_cpu_current := Some v\<rparr>
      else if name = ''cpu_iowait'' then p\<lparr>pbn_cpu_iowait := Some v\<rparr>
      else if name = ''cpu_avg1'' then p\<lparr>pbn_cpu_avg1 := Some v\<rparr>
      else if name = ''cpu_avg5'' then p\<lparr>pbn_cpu_avg5 := Some v\<rparr>
      else if name = ''cpu_avg15'' then p\<lparr>pbn_cpu_avg15 := Some v\<rparr>
      else if name = ''disk_total'' then p\<lparr>pbn_disk_total := Some v\<rparr>
      else if name = ''disk_used'' then p\<lparr>pbn_disk_used := Some v\<rparr>
      else if name = ''mem_total'' then p\<lparr>pbn_mem_total := Some v\<rparr>
      else if name = ''mem_used'' then p\<lparr>pbn_mem_used := Some v\<rparr>
      else if name = ''swap_total'' then p\<lparr>pbn_swap_total := Some v\<rparr>
      else if name = ''swap_used'' then p\<lparr>pbn_swap_used := Some v\<rparr>
      else if name = ''net_in'' then p\<lparr>pbn_net_in := Some v\<rparr>
      else if name = ''net_out'' then p\<lparr>pbn_net_out := Some v\<rparr>
      else p)"

definition pbs_node_ops :: "('f, 'f pbs_node_point) point_ops" where
  "pbs_node_ops = \<lparr>po_new = pbs_node_new, po_fields = pbs_node_fields, po_set_field = pbs_node_set_field\<rparr>"

text \<open>The field of a name, read.\<close>

definition pbs_node_field :: "string \<Rightarrow> 'f pbs_node_point \<Rightarrow> 'f option" where
  "pbs_node_field name p =
     (if name = ''cpu_current'' then pbn_cpu_current p
      else if name = ''cpu_iowait'' then pbn_cpu_iowait p
      else if name = ''cpu_avg1'' then pbn_cpu_avg1 p
      else if name = ''cpu_avg5'' then pbn_cpu_avg5 p
      else if name = ''cpu_avg15'' then pbn_cpu_avg15 p
      else if name = ''disk_total'' then pbn_disk_total p
      else if name = ''disk_used'' then pbn_disk_used p
      else if name = ''disk_available'' then pbn_disk_available p
      else if name = ''disk_read'' then pbn_disk_read p
      else if name = ''disk_write'' then pbn_disk_write p
      else if name = ''swap_total'' then pbn_swap_total p
      else if name = ''swap_used'' then pbn_swap_used p
      else if name = ''mem_total'' then pbn_mem_total p
      else if name = ''mem_used'' then pbn_mem_used p
      else if name = ''net_in'' then pbn_net_in p
      else if name = ''net_out'' then pbn_net_out p
      else None)"

section \<open>Datastores\<close>

record 'f datastore_point =
  pds_time :: nat
  pds_disk_total :: "'f option"
  pds_disk_used :: "'f option"
  pds_disk_available :: "'f option"
  pds_disk_read :: "'f option"
  pds_disk_write :: "'f option"

definition datastore_new :: "nat \<Rightarrow> 'f datastore_point" where
  "datastore_new time =
     \<lparr>pds_time = time, pds_disk_total = None, pds_disk_used = None, pds_disk_available = None,
      pds_disk_read = None, pds_disk_write = None\<rparr>"

definition datastore_fields :: "string list" where
  "datastore_fields =
     [''disk_total'', ''disk_used'', ''disk_available'', ''disk_read'', ''disk_write'']"

definition datastore_set_field :: "string \<Rightarrow> 'f \<Rightarrow> 'f datastore_point \<Rightarrow> 'f datastore_point" where
  "datastore_set_field name v p =
     (if name = ''disk_total'' then p\<lparr>pds_disk_total := Some v\<rparr>
      else if name = ''disk_used'' then p\<lparr>pds_disk_used := Some v\<rparr>
      else if name = ''disk_available'' then p\<lparr>pds_disk_available := Some v\<rparr>
      else if name = ''disk_read'' then p\<lparr>pds_disk_read := Some v\<rparr>
      else if name = ''disk_write'' then p\<lparr>pds_disk_write := Some v\<rparr>
      else p)"

definition datastore_ops :: "('f, 'f datastore_point) point_ops" where
  "datastore_ops = \<lparr>po_new = datastore_new, po_fields = datastore_fields, po_set_field = datastore_set_field\<rparr>"

text \<open>The field of a name, read.\<close>

definition datastore_field :: "string \<Rightarrow> 'f datastore_point \<Rightarrow> 'f option" where
  "datastore_field name p =
     (if name = ''disk_total'' then pds_disk_total p
      else if name = ''disk_used'' then pds_disk_used p
      else if name = ''disk_available'' then pds_disk_available p
      else if name = ''disk_read'' then pds_disk_read p
      else if name = ''disk_write'' then pds_disk_write p
      else None)"

section \<open>The host of the server\<close>

record 'f pdm_node_point =
  pdn_time :: nat
  pdn_cpu_current :: "'f option"
  pdn_cpu_iowait :: "'f option"
  pdn_cpu_avg1 :: "'f option"
  pdn_cpu_avg5 :: "'f option"
  pdn_cpu_avg15 :: "'f option"
  pdn_disk_total :: "'f option"
  pdn_disk_used :: "'f option"
  pdn_disk_read_iops :: "'f option"
  pdn_disk_write_iops :: "'f option"
  pdn_disk_read :: "'f option"
  pdn_disk_write :: "'f option"
  pdn_disk_io_ticks :: "'f option"
  pdn_mem_total :: "'f option"
  pdn_mem_used :: "'f option"
  pdn_swap_total :: "'f option"
  pdn_swap_used :: "'f option"
  pdn_net_in :: "'f option"
  pdn_net_out :: "'f option"
  pdn_cpu_pressure_some_avg10 :: "'f option"
  pdn_mem_pressure_some_avg10 :: "'f option"
  pdn_mem_pressure_full_avg10 :: "'f option"
  pdn_io_pressure_some_avg10 :: "'f option"
  pdn_io_pressure_full_avg10 :: "'f option"
  pdn_metric_collection_total_time :: "'f option"

definition pdm_node_new :: "nat \<Rightarrow> 'f pdm_node_point" where
  "pdm_node_new time =
     \<lparr>pdn_time = time, pdn_cpu_current = None, pdn_cpu_iowait = None, pdn_cpu_avg1 = None, pdn_cpu_avg5 = None,
      pdn_cpu_avg15 = None, pdn_disk_total = None, pdn_disk_used = None, pdn_disk_read_iops = None,
      pdn_disk_write_iops = None, pdn_disk_read = None, pdn_disk_write = None, pdn_disk_io_ticks = None,
      pdn_mem_total = None, pdn_mem_used = None, pdn_swap_total = None, pdn_swap_used = None,
      pdn_net_in = None, pdn_net_out = None, pdn_cpu_pressure_some_avg10 = None,
      pdn_mem_pressure_some_avg10 = None, pdn_mem_pressure_full_avg10 = None,
      pdn_io_pressure_some_avg10 = None, pdn_io_pressure_full_avg10 = None,
      pdn_metric_collection_total_time = None\<rparr>"

definition pdm_node_fields :: "string list" where
  "pdm_node_fields =
     [''cpu-current'', ''cpu-iowait'', ''cpu-avg1'', ''cpu-avg5'', ''cpu-avg15'', ''cpu-pressure-some-avg10'',
      ''disk-total'', ''disk-used'', ''disk-read-iops'', ''disk-write-iops'', ''disk-read'', ''disk-write'',
      ''disk-io-ticks'', ''io-pressure-some-avg10'', ''io-pressure-full-avg10'', ''mem-total'', ''mem-used'',
      ''mem-pressure-some-avg10'', ''mem-pressure-full-avg10'', ''swap-total'', ''swap-used'', ''net-in'',
      ''net-out'', ''metric-collection-total-time'']"

definition pdm_node_set_field :: "string \<Rightarrow> 'f \<Rightarrow> 'f pdm_node_point \<Rightarrow> 'f pdm_node_point" where
  "pdm_node_set_field name v p =
     (if name = ''cpu-current'' then p\<lparr>pdn_cpu_current := Some v\<rparr>
      else if name = ''cpu-iowait'' then p\<lparr>pdn_cpu_iowait := Some v\<rparr>
      else if name = ''cpu-avg1'' then p\<lparr>pdn_cpu_avg1 := Some v\<rparr>
      else if name = ''cpu-avg5'' then p\<lparr>pdn_cpu_avg5 := Some v\<rparr>
      else if name = ''cpu-avg15'' then p\<lparr>pdn_cpu_avg15 := Some v\<rparr>
      else if name = ''cpu-pressure-some-avg10'' then p\<lparr>pdn_cpu_pressure_some_avg10 := Some v\<rparr>
      else if name = ''disk-total'' then p\<lparr>pdn_disk_total := Some v\<rparr>
      else if name = ''disk-used'' then p\<lparr>pdn_disk_used := Some v\<rparr>
      else if name = ''disk-read-iops'' then p\<lparr>pdn_disk_read_iops := Some v\<rparr>
      else if name = ''disk-write-iops'' then p\<lparr>pdn_disk_write_iops := Some v\<rparr>
      else if name = ''disk-read'' then p\<lparr>pdn_disk_read := Some v\<rparr>
      else if name = ''disk-write'' then p\<lparr>pdn_disk_write := Some v\<rparr>
      else if name = ''disk-io-ticks'' then p\<lparr>pdn_disk_io_ticks := Some v\<rparr>
      else if name = ''io-pressure-some-avg10'' then p\<lparr>pdn_io_pressure_some_avg10 := Some v\<rparr>
      else if name = ''io-pressure-full-avg10'' then p\<lparr>pdn_io_pressure_full_avg10 := Some v\<rparr>
      else if name = ''mem-total'' then p\<lparr>pdn_mem_total := Some v\<rparr>
      else if name = ''mem-used'' then p\<lparr>pdn_mem_used := Some v\<rparr>
      else if name = ''mem-pressure-some-avg10'' then p\<lparr>pdn_mem_pressure_some_avg10 := Some v\<rparr>
      else if name = ''mem-pressure-full-avg10'' then p\<lparr>pdn_mem_pressure_full_avg10 := Some v\<rparr>
      else if name = ''swap-total'' then p\<lparr>pdn_swap_total := Some v\<rparr>
      else if name = ''swap-used'' then p\<lparr>pdn_swap_used := Some v\<rparr>
      else if name = ''net-in'' then p\<lparr>pdn_net_in := Some v\<rparr>
      else if name = ''net-out'' then p\<lparr>pdn_net_out := Some v\<rparr>
      else if name = ''metric-collection-total-time'' then p\<lparr>pdn_metric_collection_total_time := Some v\<rparr>
      else p)"

definition pdm_node_ops :: "('f, 'f pdm_node_point) point_ops" where
  "pdm_node_ops = \<lparr>po_new = pdm_node_new, po_fields = pdm_node_fields, po_set_field = pdm_node_set_field\<rparr>"

text \<open>The field of a name, read.\<close>

definition pdm_node_field :: "string \<Rightarrow> 'f pdm_node_point \<Rightarrow> 'f option" where
  "pdm_node_field name p =
     (if name = ''cpu-current'' then pdn_cpu_current p
      else if name = ''cpu-iowait'' then pdn_cpu_iowait p
      else if name = ''cpu-avg1'' then pdn_cpu_avg1 p
      else if name = ''cpu-avg5'' then pdn_cpu_avg5 p
      else if name = ''cpu-avg15'' then pdn_cpu_avg15 p
      else if name = ''disk-total'' then pdn_disk_total p
      else if name = ''disk-used'' then pdn_disk_used p
      else if name = ''disk-read-iops'' then pdn_disk_read_iops p
      else if name = ''disk-write-iops'' then pdn_disk_write_iops p
      else if name = ''disk-read'' then pdn_disk_read p
      else if name = ''disk-write'' then pdn_disk_write p
      else if name = ''disk-io-ticks'' then pdn_disk_io_ticks p
      else if name = ''mem-total'' then pdn_mem_total p
      else if name = ''mem-used'' then pdn_mem_used p
      else if name = ''swap-total'' then pdn_swap_total p
      else if name = ''swap-used'' then pdn_swap_used p
      else if name = ''net-in'' then pdn_net_in p
      else if name = ''net-out'' then pdn_net_out p
      else if name = ''cpu-pressure-some-avg10'' then pdn_cpu_pressure_some_avg10 p
      else if name = ''mem-pressure-some-avg10'' then pdn_mem_pressure_some_avg10 p
      else if name = ''mem-pressure-full-avg10'' then pdn_mem_pressure_full_avg10 p
      else if name = ''io-pressure-some-avg10'' then pdn_io_pressure_some_avg10 p
      else if name = ''io-pressure-full-avg10'' then pdn_io_pressure_full_avg10 p
      else if name = ''metric-collection-total-time'' then pdn_metric_collection_total_time p
      else None)"

section \<open>Remotes\<close>

record 'f remote_point =
  rmp_time :: nat
  rmp_metric_collection_response_time :: "'f option"

definition remote_new :: "nat \<Rightarrow> 'f remote_point" where
  "remote_new time =
     \<lparr>rmp_time = time, rmp_metric_collection_response_time = None\<rparr>"

definition remote_fields :: "string list" where
  "remote_fields =
     [''metric-collection-response-time'']"

definition remote_set_field :: "string \<Rightarrow> 'f \<Rightarrow> 'f remote_point \<Rightarrow> 'f remote_point" where
  "remote_set_field name v p =
     (if name = ''metric-collection-response-time'' then p\<lparr>rmp_metric_collection_response_time := Some v\<rparr>
      else p)"

definition remote_ops :: "('f, 'f remote_point) point_ops" where
  "remote_ops = \<lparr>po_new = remote_new, po_fields = remote_fields, po_set_field = remote_set_field\<rparr>"

text \<open>The field of a name, read.\<close>

definition remote_field :: "string \<Rightarrow> 'f remote_point \<Rightarrow> 'f option" where
  "remote_field name p =
     (if name = ''metric-collection-response-time'' then rmp_metric_collection_response_time p
      else None)"

section \<open>Handlers\<close>

definition get_qemu_rrd_data ::
  "'f extractor \<Rightarrow> (string \<Rightarrow> 'f rrd \<Rightarrow> 'f rrd) \<Rightarrow> 64 word \<Rightarrow> string \<Rightarrow> nat \<Rightarrow> rrd_timeframe \<Rightarrow> rrd_mode \<Rightarrow> 'f rrd \<Rightarrow>
   (points_error + 'f qemu_point list) \<times> 'f rrd" where
  "get_qemu_rrd_data extract trigger now remote vmid timeframe cf =
     get_rrd_datapoints extract trigger now qemu_ops remote (''pve/'' @ remote @ ''/qemu/'' @ show_nat vmid) timeframe cf"

definition get_lxc_rrd_data ::
  "'f extractor \<Rightarrow> (string \<Rightarrow> 'f rrd \<Rightarrow> 'f rrd) \<Rightarrow> 64 word \<Rightarrow> string \<Rightarrow> nat \<Rightarrow> rrd_timeframe \<Rightarrow> rrd_mode \<Rightarrow> 'f rrd \<Rightarrow>
   (points_error + 'f lxc_point list) \<times> 'f rrd" where
  "get_lxc_rrd_data extract trigger now remote vmid timeframe cf =
     get_rrd_datapoints extract trigger now lxc_ops remote (''pve/'' @ remote @ ''/lxc/'' @ show_nat vmid) timeframe cf"

definition get_node_rrd_data ::
  "'f extractor \<Rightarrow> (string \<Rightarrow> 'f rrd \<Rightarrow> 'f rrd) \<Rightarrow> 64 word \<Rightarrow> string \<Rightarrow> string \<Rightarrow> rrd_timeframe \<Rightarrow> rrd_mode \<Rightarrow> 'f rrd \<Rightarrow>
   (points_error + 'f node_point list) \<times> 'f rrd" where
  "get_node_rrd_data extract trigger now remote nod timeframe cf =
     get_rrd_datapoints extract trigger now node_ops remote (''pve/'' @ remote @ ''/node/'' @ nod) timeframe cf"

definition get_storage_rrd_data ::
  "'f extractor \<Rightarrow> (string \<Rightarrow> 'f rrd \<Rightarrow> 'f rrd) \<Rightarrow> 64 word \<Rightarrow> string \<Rightarrow> string \<Rightarrow> string \<Rightarrow> rrd_timeframe \<Rightarrow> rrd_mode \<Rightarrow> 'f rrd \<Rightarrow>
   (points_error + 'f storage_point list) \<times> 'f rrd" where
  "get_storage_rrd_data extract trigger now remote nod storage timeframe cf =
     get_rrd_datapoints extract trigger now storage_ops remote (''pve/'' @ remote @ ''/storage/'' @ nod @ ''/'' @ storage) timeframe cf"

definition get_pbs_node_rrd_data ::
  "'f extractor \<Rightarrow> (string \<Rightarrow> 'f rrd \<Rightarrow> 'f rrd) \<Rightarrow> 64 word \<Rightarrow> string \<Rightarrow> rrd_timeframe \<Rightarrow> rrd_mode \<Rightarrow> 'f rrd \<Rightarrow>
   (points_error + 'f pbs_node_point list) \<times> 'f rrd" where
  "get_pbs_node_rrd_data extract trigger now remote timeframe cf =
     get_rrd_datapoints extract trigger now pbs_node_ops remote (''pbs/'' @ remote @ ''/host'') timeframe cf"

definition get_pbs_datastore_rrd_data ::
  "'f extractor \<Rightarrow> (string \<Rightarrow> 'f rrd \<Rightarrow> 'f rrd) \<Rightarrow> 64 word \<Rightarrow> string \<Rightarrow> string \<Rightarrow> rrd_timeframe \<Rightarrow> rrd_mode \<Rightarrow> 'f rrd \<Rightarrow>
   (points_error + 'f datastore_point list) \<times> 'f rrd" where
  "get_pbs_datastore_rrd_data extract trigger now remote datastore timeframe cf =
     get_rrd_datapoints extract trigger now datastore_ops remote (''pbs/'' @ remote @ ''/datastore/'' @ datastore) timeframe cf"

definition get_node_rrddata ::
  "'f extractor \<Rightarrow> 64 word \<Rightarrow> string \<Rightarrow> rrd_timeframe \<Rightarrow> rrd_mode \<Rightarrow> 'f rrd \<Rightarrow> points_error + 'f pdm_node_point list" where
  "get_node_rrddata extract now nod timeframe cf rrd =
     (if nod \<noteq> ''localhost'' then Inl (Pt_Bad_Node nod)
      else create_datapoints_from_rrd extract now pdm_node_ops ''nodes/localhost'' timeframe cf rrd)"

definition get_per_remote_rrd_data ::
  "'f extractor \<Rightarrow> 64 word \<Rightarrow> string \<Rightarrow> rrd_timeframe \<Rightarrow> rrd_mode \<Rightarrow> 'f rrd \<Rightarrow> points_error + 'f remote_point list" where
  "get_per_remote_rrd_data extract now i timeframe cf rrd =
     create_datapoints_from_rrd extract now remote_ops (''remotes/'' @ i) timeframe cf rrd"

end
