(* ===== verification/Metric_Points_Props.thy ===== *)
theory Metric_Points_Props
  imports Metric_Points
begin

text \<open>
  Properties of reading the metrics database: the contract of a kind of data point with one interpretation for each of the
  eight kinds, the assembly of points, and the archives behind the time frames.
\<close>

section \<open>The contract of a kind of data point\<close>

locale data_point_type =
  fixes ops :: "('f, 'p) point_ops"
    and fld :: "string \<Rightarrow> 'p \<Rightarrow> 'f option"
    and time :: "'p \<Rightarrow> nat"
    and known :: "string list"
  assumes field_new: "fld f (po_new ops t) = None"
    and field_set: "fld f (po_set_field ops g v p) = (if f = g \<and> g \<in> set known then Some v else fld f p)"
    and time_new: "time (po_new ops t) = t"
    and time_set: "time (po_set_field ops g v p) = time p"
    and distinct_fields: "distinct (po_fields ops)"

text \<open>The value of a metric at a time: the last one of the slots for that time.\<close>

fun slot_value :: "nat \<Rightarrow> nat \<Rightarrow> nat \<Rightarrow> 'f option list \<Rightarrow> 'f option" where
  "slot_value t s resolution [] = None"
| "slot_value t s resolution (v # vs) =
     (case slot_value t (wrap_u64 (s + resolution)) resolution vs of Some x \<Rightarrow> Some x | None \<Rightarrow> if s = t then v else None)"

fun slot_times :: "nat \<Rightarrow> nat \<Rightarrow> 'f option list \<Rightarrow> nat list" where
  "slot_times s resolution [] = []"
| "slot_times s resolution (v # vs) = s # slot_times (wrap_u64 (s + resolution)) resolution vs"

definition entry_value :: "string + 'f rrd_entry option \<Rightarrow> nat \<Rightarrow> 'f option" where
  "entry_value e t = (case e of Inr (Some e) \<Rightarrow> slot_value t (re_start e) (re_resolution e) (re_data e) | _ \<Rightarrow> None)"

definition entry_times :: "string + 'f rrd_entry option \<Rightarrow> nat set" where
  "entry_times e = (case e of Inr (Some e) \<Rightarrow> set (slot_times (re_start e) (re_resolution e) (re_data e)) | _ \<Rightarrow> {})"

lemma keys_with_entry: "fst ` set (with_entry t new f m) = insert t (fst ` set m)"
  by (induction m rule: with_entry.induct) auto

lemma with_entry_cases:
  "(t', p') \<in> set (with_entry t new f m) \<Longrightarrow>
   (t', p') \<in> set m \<or> t' = t \<and> (p' = f new \<or> (\<exists>p. (t, p) \<in> set m \<and> p' = f p))"
  by (induction t new f m rule: with_entry.induct) (auto split: if_splits)

lemma sorted_with_entry: "sorted_wrt (<) (map fst m) \<Longrightarrow> sorted_wrt (<) (map fst (with_entry t new f m))"
proof (induction t new f m rule: with_entry.induct)
  case (2 t new f t' p m)
  show ?case
  proof (cases "t' < t")
    case True
    then show ?thesis
      using 2 keys_with_entry [of t new f m] by (auto simp: image_iff)
  qed (use 2 in \<open>auto dest: order.strict_trans\<close>)
qed simp

lemma map_of_with_entry:
  "sorted_wrt (<) (map fst m) \<Longrightarrow>
   map_of (with_entry t new f m) = (map_of m)(t \<mapsto> f (case map_of m t of Some p \<Rightarrow> p | None \<Rightarrow> new))"
proof (induction t new f m rule: with_entry.induct)
  case (2 t new f t' p m)
  have "t < t' \<Longrightarrow> map_of m t = None"
    using 2 by (auto simp: map_of_eq_None_iff)
  then show ?case
    using 2 by (auto simp: fun_upd_twist)
qed simp

lemma sorted_add_values: "sorted_wrt (<) (map fst m) \<Longrightarrow> sorted_wrt (<) (map fst (add_values T name t r vs m))"
  by (induction T name t r vs m rule: add_values.induct) (simp_all add: sorted_with_entry)

lemma keys_add_values: "fst ` set (add_values T name t r vs m) = set (slot_times t r vs) \<union> fst ` set m"
  by (induction T name t r vs m rule: add_values.induct) (auto simp: keys_with_entry)

context data_point_type
begin

definition view :: "(nat \<times> 'p) list \<Rightarrow> nat \<Rightarrow> string \<Rightarrow> 'f option" where
  "view m t f = Option.bind (map_of m t) (fld f)"

definition good :: "(nat \<times> 'p) list \<Rightarrow> bool" where
  "good m \<longleftrightarrow> sorted_wrt (<) (map fst m) \<and> (\<forall>(t, p) \<in> set m. time p = t)"

lemma view_Nil: "view [] t f = None"
  by (simp add: view_def)

lemma good_entry:
  "good m \<Longrightarrow> (\<And>p. time (f p) = time p) \<Longrightarrow> good (with_entry t (po_new ops t) f m)"
  using sorted_with_entry [of m t "po_new ops t" f]
  by (auto simp: good_def time_new dest!: with_entry_cases)

lemma good_values: "good m \<Longrightarrow> good (add_values ops name t r vs m)"
proof (induction vs arbitrary: t m)
  case (Cons v vs)
  then show ?case by (simp add: good_entry time_set split: option.split)
qed simp

lemma view_values:
  "good m \<Longrightarrow>
   view (add_values ops name s r vs m) t f =
     (if f = name \<and> name \<in> set known
      then (case slot_value t s r vs of Some x \<Rightarrow> Some x | None \<Rightarrow> view m t f) else view m t f)"
proof (induction vs arbitrary: s m)
  case (Cons v vs)
  let ?u = "case v of None \<Rightarrow> id | Some x \<Rightarrow> po_set_field ops name x"
  let ?m = "with_entry s (po_new ops s) ?u m"
  have good: "good ?m"
    using Cons.prems by (auto intro!: good_entry simp: time_set split: option.split)
  have "view ?m t f =
     (if t = s \<and> f = name \<and> name \<in> set known \<and> v \<noteq> None then v else view m t f)"
    using Cons.prems
    by (auto simp: view_def good_def map_of_with_entry field_set field_new split: option.split)
  then show ?case
    using Cons.IH [OF good, of "wrap_u64 (s + r)"] by (auto split: option.split)
qed simp

lemma read_fields_effect:
  "read_fields get ops names l m = Inr m' \<Longrightarrow> good m \<Longrightarrow> distinct names \<Longrightarrow>
   good m' \<and> fst ` set m' = (\<Union>n \<in> set names. entry_times (get n)) \<union> fst ` set m
   \<and> view m' t f =
       (if f \<in> set names \<and> f \<in> set known
        then (case entry_value (get f) t of Some x \<Rightarrow> Some x | None \<Rightarrow> view m t f) else view m t f)"
proof (induction names arbitrary: l m)
  case (Cons n names)
  show ?case
  proof (cases "get n")
    case (Inr e)
    show ?thesis
    proof (cases e)
      case None
      with Cons Inr have "good m' \<and> fst ` set m' = (\<Union>n \<in> set names. entry_times (get n)) \<union> fst ` set m
         \<and> view m' t f =
         (if f \<in> set names \<and> f \<in> set known
          then (case entry_value (get f) t of Some x \<Rightarrow> Some x | None \<Rightarrow> view m t f) else view m t f)"
        by simp
      then show ?thesis using None Inr Cons.prems(3) by (auto simp: entry_times_def entry_value_def)
    next
      case (Some e')
      let ?m = "add_values ops n (re_start e') (re_resolution e') (re_data e') m"
      obtain l0 where "read_fields get ops names l0 ?m = Inr m'"
        using Cons.prems(1) Inr Some by (auto split: option.splits if_splits)
      then have "good m' \<and> fst ` set m' = (\<Union>n \<in> set names. entry_times (get n)) \<union> fst ` set ?m
         \<and> view m' t f =
         (if f \<in> set names \<and> f \<in> set known
          then (case entry_value (get f) t of Some x \<Rightarrow> Some x | None \<Rightarrow> view ?m t f) else view ?m t f)"
        using Cons.prems(2,3) by (intro Cons.IH) (simp_all add: good_values)
      moreover have "entry_times (get n) = set (slot_times (re_start e') (re_resolution e') (re_data e'))"
        and "entry_value (get n) t = slot_value t (re_start e') (re_resolution e') (re_data e')"
        using Inr Some by (simp_all add: entry_times_def entry_value_def)
      ultimately show ?thesis
        using Cons.prems(2,3) by (auto simp: keys_add_values view_values split: option.split)
    qed
  qed (use Cons in simp)
qed (simp add: view_def)

lemma good_points:
  assumes m: "good m"
  shows "map time (map snd m) = map fst m"
    and "p \<in> set (map snd m) \<Longrightarrow> view m (time p) f = fld f p"
proof -
  have d: "distinct (map fst m)"
    using m by (simp add: good_def strict_sorted_iff)
  show "map time (map snd m) = map fst m"
    using m by (auto simp: good_def)
  show "view m (time p) f = fld f p" if "p \<in> set (map snd m)"
    using that m d by (auto simp: view_def good_def)
qed

lemma create_exact:
  assumes created: "create_datapoints_from_rrd extract now ops basedir timeframe mode rrd = Inr ps"
  defines "get \<equiv> \<lambda>name. extract_data extract now rrd basedir name timeframe mode"
  shows "sorted_wrt (<) (map time ps)"
    and "set (map time ps) = (\<Union>n \<in> set (po_fields ops). entry_times (get n))"
    and "p \<in> set ps \<Longrightarrow>
      fld f p = (if f \<in> set (po_fields ops) \<and> f \<in> set known then entry_value (get f) (time p) else None)"
proof -
  obtain m where m: "read_fields get ops (po_fields ops) None [] = Inr m" and ps: "ps = map snd m"
    using created by (auto simp: create_datapoints_from_rrd_def get_def and_then_Inr_iff)
  have effect: "good m \<and> fst ` set m = (\<Union>n \<in> set (po_fields ops). entry_times (get n)) \<union> fst ` set ([] :: (nat \<times> 'p) list)
     \<and> view m t f = (if f \<in> set (po_fields ops) \<and> f \<in> set known
        then (case entry_value (get f) t of Some x \<Rightarrow> Some x | None \<Rightarrow> view [] t f) else view [] t f)" for t
    by (rule read_fields_effect [OF m _ distinct_fields]) (simp add: good_def)
  then have "good m"
    by simp
  then have times: "map time ps = map fst m"
    and vals: "p \<in> set ps \<Longrightarrow> view m (time p) f = fld f p"
    unfolding ps by (simp_all only: good_points)
  show "sorted_wrt (<) (map time ps)"
    using effect times by (simp add: good_def)
  show "set (map time ps) = (\<Union>n \<in> set (po_fields ops). entry_times (get n))"
    using effect times by simp
  show "p \<in> set ps \<Longrightarrow>
      fld f p = (if f \<in> set (po_fields ops) \<and> f \<in> set known then entry_value (get f) (time p) else None)"
    using effect [of "time p"] vals by (auto simp: view_Nil split: option.splits if_splits)
qed

end

section \<open>The kinds of data points\<close>

text \<open>The fields of a backup server that are read are not all stored in the point.\<close>

definition pbs_node_known :: "string list" where
  "pbs_node_known = filter (\<lambda>f. f \<noteq> ''disk_read'' \<and> f \<noteq> ''disk_write'') pbs_node_fields"

lemma node_set_unknown: "g \<notin> set node_fields \<Longrightarrow> node_set_field g v p = p"
  by (simp add: node_set_field_def node_fields_def)

lemma node_field_set:
  "node_field f (node_set_field g v p) = (if f = g \<and> g \<in> set node_fields then Some v else node_field f p)"
proof (cases "g \<in> set node_fields")
  case True
  then show ?thesis
    by (simp add: node_fields_def, elim disjE) (simp_all add: node_field_def node_set_field_def)
qed (simp add: node_set_unknown)

interpretation nod: data_point_type node_ops node_field nod_time node_fields
  by unfold_locales
    (simp_all add: node_ops_def node_field_set, simp_all add: node_new_def node_field_def node_set_field_def node_fields_def)

lemma qemu_set_unknown: "g \<notin> set qemu_fields \<Longrightarrow> qemu_set_field g v p = p"
  by (simp add: qemu_set_field_def qemu_fields_def)

lemma qemu_field_set:
  "qemu_field f (qemu_set_field g v p) = (if f = g \<and> g \<in> set qemu_fields then Some v else qemu_field f p)"
proof (cases "g \<in> set qemu_fields")
  case True
  then show ?thesis
    by (simp add: qemu_fields_def, elim disjE) (simp_all add: qemu_field_def qemu_set_field_def)
qed (simp add: qemu_set_unknown)

interpretation qem: data_point_type qemu_ops qemu_field qem_time qemu_fields
  by unfold_locales
    (simp_all add: qemu_ops_def qemu_field_set, simp_all add: qemu_new_def qemu_field_def qemu_set_field_def qemu_fields_def)

lemma lxc_set_unknown: "g \<notin> set lxc_fields \<Longrightarrow> lxc_set_field g v p = p"
  by (simp add: lxc_set_field_def lxc_fields_def)

lemma lxc_field_set:
  "lxc_field f (lxc_set_field g v p) = (if f = g \<and> g \<in> set lxc_fields then Some v else lxc_field f p)"
proof (cases "g \<in> set lxc_fields")
  case True
  then show ?thesis
    by (simp add: lxc_fields_def, elim disjE) (simp_all add: lxc_field_def lxc_set_field_def)
qed (simp add: lxc_set_unknown)

interpretation lxp: data_point_type lxc_ops lxc_field lxp_time lxc_fields
  by unfold_locales
    (simp_all add: lxc_ops_def lxc_field_set, simp_all add: lxc_new_def lxc_field_def lxc_set_field_def lxc_fields_def)

lemma storage_set_unknown: "g \<notin> set storage_fields \<Longrightarrow> storage_set_field g v p = p"
  by (simp add: storage_set_field_def storage_fields_def)

lemma storage_field_set:
  "storage_field f (storage_set_field g v p) = (if f = g \<and> g \<in> set storage_fields then Some v else storage_field f p)"
proof (cases "g \<in> set storage_fields")
  case True
  then show ?thesis
    by (simp add: storage_fields_def, elim disjE) (simp_all add: storage_field_def storage_set_field_def)
qed (simp add: storage_set_unknown)

interpretation stp: data_point_type storage_ops storage_field stp_time storage_fields
  by unfold_locales
    (simp_all add: storage_ops_def storage_field_set, simp_all add: storage_new_def storage_field_def storage_set_field_def storage_fields_def)

lemma pbs_node_set_unknown: "g \<notin> set pbs_node_known \<Longrightarrow> pbs_node_set_field g v p = p"
  by (simp add: pbs_node_set_field_def pbs_node_known_def pbs_node_fields_def)

lemma pbs_node_field_set:
  "pbs_node_field f (pbs_node_set_field g v p) = (if f = g \<and> g \<in> set pbs_node_known then Some v else pbs_node_field f p)"
proof (cases "g \<in> set pbs_node_known")
  case True
  then show ?thesis
    by (simp add: pbs_node_known_def pbs_node_fields_def, elim disjE) (simp_all add: pbs_node_field_def pbs_node_set_field_def)
qed (simp add: pbs_node_set_unknown)

interpretation pbn: data_point_type pbs_node_ops pbs_node_field pbn_time pbs_node_known
  by unfold_locales
    (simp_all add: pbs_node_ops_def pbs_node_field_set, simp_all add: pbs_node_new_def pbs_node_field_def pbs_node_set_field_def pbs_node_fields_def)

lemma datastore_set_unknown: "g \<notin> set datastore_fields \<Longrightarrow> datastore_set_field g v p = p"
  by (simp add: datastore_set_field_def datastore_fields_def)

lemma datastore_field_set:
  "datastore_field f (datastore_set_field g v p) = (if f = g \<and> g \<in> set datastore_fields then Some v else datastore_field f p)"
proof (cases "g \<in> set datastore_fields")
  case True
  then show ?thesis
    by (simp add: datastore_fields_def, elim disjE) (simp_all add: datastore_field_def datastore_set_field_def)
qed (simp add: datastore_set_unknown)

interpretation pds: data_point_type datastore_ops datastore_field pds_time datastore_fields
  by unfold_locales
    (simp_all add: datastore_ops_def datastore_field_set, simp_all add: datastore_new_def datastore_field_def datastore_set_field_def datastore_fields_def)

lemma pdm_node_set_unknown: "g \<notin> set pdm_node_fields \<Longrightarrow> pdm_node_set_field g v p = p"
  by (simp add: pdm_node_set_field_def pdm_node_fields_def)

lemma pdm_node_field_set:
  "pdm_node_field f (pdm_node_set_field g v p) = (if f = g \<and> g \<in> set pdm_node_fields then Some v else pdm_node_field f p)"
proof (cases "g \<in> set pdm_node_fields")
  case True
  then show ?thesis
    by (simp add: pdm_node_fields_def, elim disjE) (simp_all add: pdm_node_field_def pdm_node_set_field_def)
qed (simp add: pdm_node_set_unknown)

interpretation pdn: data_point_type pdm_node_ops pdm_node_field pdn_time pdm_node_fields
  by unfold_locales
    (simp_all add: pdm_node_ops_def pdm_node_field_set, simp_all add: pdm_node_new_def pdm_node_field_def pdm_node_set_field_def pdm_node_fields_def)

lemma remote_set_unknown: "g \<notin> set remote_fields \<Longrightarrow> remote_set_field g v p = p"
  by (simp add: remote_set_field_def remote_fields_def)

lemma remote_field_set:
  "remote_field f (remote_set_field g v p) = (if f = g \<and> g \<in> set remote_fields then Some v else remote_field f p)"
  by (simp add: remote_field_def remote_set_field_def remote_fields_def)

interpretation rmp: data_point_type remote_ops remote_field rmp_time remote_fields
  by unfold_locales
    (simp_all add: remote_ops_def remote_field_set, simp_all add: remote_new_def remote_field_def remote_set_field_def remote_fields_def)

section \<open>Reading points\<close>

text \<open>The database answers every request, with slots of the resolution that was asked for.\<close>

definition answers_all :: "'f extractor \<Rightarrow> 'f rrd \<Rightarrow> bool" where
  "answers_all extract rrd \<longleftrightarrow>
     (\<forall>basedir name cf resolution s e. \<exists>x. extract rrd basedir name cf resolution s e = Inr x
        \<and> (\<forall>entry. x = Some entry \<longrightarrow> re_resolution entry = resolution))"

lemma extract_answers:
  assumes "answers_all extract rrd"
  shows "\<exists>x. extract_data extract now rrd basedir name timeframe mode = Inr x
     \<and> (\<forall>entry. x = Some entry \<longrightarrow> re_resolution entry = snd (frame_start timeframe now))"
  using assms unfolding answers_all_def extract_data_def Let_def case_prod_beta by blast

lemma read_fields_succeeds:
  assumes "\<And>name. \<exists>x. get name = Inr x \<and> (\<forall>entry. x = Some entry \<longrightarrow> re_resolution entry = resolution)"
    and "l = None \<or> l = Some resolution"
  shows "\<exists>m'. read_fields get T names l m = Inr m'"
  using assms(2)
proof (induction names arbitrary: l m)
  case (Cons n names)
  obtain x where x: "get n = Inr x" "\<forall>entry. x = Some entry \<longrightarrow> re_resolution entry = resolution"
    using assms(1) by blast
  then show ?case
    using Cons.IH [OF Cons.prems] Cons.IH [of "Some resolution"] Cons.prems by (cases x) auto
qed simp

lemma create_succeeds:
  assumes "answers_all extract rrd"
  shows "\<exists>ps. create_datapoints_from_rrd extract now T basedir timeframe mode rrd = Inr ps"
proof -
  have "\<exists>m. read_fields (\<lambda>name. extract_data extract now rrd basedir name timeframe mode) T (po_fields T) None [] = Inr m"
    by (rule read_fields_succeeds [where resolution = "snd (frame_start timeframe now)"])
      (use extract_answers [OF assms] in simp_all)
  then show ?thesis
    by (auto simp: create_datapoints_from_rrd_def and_then_def)
qed

lemma pdm_node_ops_fields: "po_fields pdm_node_ops = pdm_node_fields"
  by (simp add: pdm_node_ops_def)

text \<open>Reading the metrics of the server's host succeeds whenever the database answers, and gives one point for every slot of
  any metric, in ascending order of time, in which every metric has the value of the database at that time. A node other
  than localhost is refused.\<close>

theorem host_points_exact:
  fixes now :: "64 word" and timeframe :: rrd_timeframe and mode :: rrd_mode
  assumes "answers_all extract rrd"
  defines "read \<equiv> \<lambda>f. extract_data extract now rrd ''nodes/localhost'' f timeframe mode"
  shows "\<exists>ps. get_node_rrddata extract now ''localhost'' timeframe mode rrd = Inr ps
     \<and> sorted_wrt (<) (map pdn_time ps)
     \<and> set (map pdn_time ps) = (\<Union>f \<in> set pdm_node_fields. entry_times (read f))
     \<and> (\<forall>p \<in> set ps. \<forall>f \<in> set pdm_node_fields. pdm_node_field f p = entry_value (read f) (pdn_time p))"
    and "nod \<noteq> ''localhost'' \<Longrightarrow> get_node_rrddata extract now nod timeframe mode rrd = Inl (Pt_Bad_Node nod)"
proof -
  obtain ps where ps: "create_datapoints_from_rrd extract now pdm_node_ops ''nodes/localhost'' timeframe mode rrd = Inr ps"
    using create_succeeds [OF assms(1)] by blast
  show "\<exists>ps. get_node_rrddata extract now ''localhost'' timeframe mode rrd = Inr ps
     \<and> sorted_wrt (<) (map pdn_time ps)
     \<and> set (map pdn_time ps) = (\<Union>f \<in> set pdm_node_fields. entry_times (read f))
     \<and> (\<forall>p \<in> set ps. \<forall>f \<in> set pdm_node_fields. pdm_node_field f p = entry_value (read f) (pdn_time p))"
    using ps pdn.create_exact [OF ps] by (intro exI [of _ ps]) (simp add: get_node_rrddata_def read_def pdm_node_ops_fields)
qed (simp add: get_node_rrddata_def)

text \<open>C39. The points of a backup server have every metric that is read at its value, except for the two disk rates: they are
  read from the database, and no point ever has them.\<close>

theorem pbs_node_rates_lost:
  assumes "get_pbs_node_rrd_data extract trigger now remote timeframe mode rrd = (Inr ps, rrd')" and "p \<in> set ps"
  defines "read \<equiv> \<lambda>f. extract_data extract now rrd' (''pbs/'' @ remote @ ''/host'') f timeframe mode"
  shows "pbn_disk_read p = None \<and> pbn_disk_write p = None
     \<and> (f \<in> set pbs_node_fields \<and> f \<noteq> ''disk_read'' \<and> f \<noteq> ''disk_write'' \<longrightarrow>
         pbs_node_field f p = entry_value (read f) (pbn_time p))"
proof -
  have created: "create_datapoints_from_rrd extract now pbs_node_ops (''pbs/'' @ remote @ ''/host'') timeframe mode rrd' = Inr ps"
    using assms(1) unfolding get_pbs_node_rrd_data_def get_rrd_datapoints_def Let_def by (blast dest: Pair_inject)
  have exact: "pbs_node_field f p =
      (if f \<in> set pbs_node_fields \<and> f \<in> set pbs_node_known then entry_value (read f) (pbn_time p) else None)" for f
    using pbn.create_exact(3) [OF created assms(2)] by (simp add: read_def pbs_node_ops_def)
  have "pbs_node_field ''disk_read'' p = pbn_disk_read p" "pbs_node_field ''disk_write'' p = pbn_disk_write p"
    by (simp_all add: pbs_node_field_def)
  moreover have "pbs_node_field ''disk_read'' p = None" "pbs_node_field ''disk_write'' p = None"
    unfolding exact by (simp_all add: pbs_node_known_def)
  ultimately show ?thesis
    using exact [of f] by (simp add: pbs_node_known_def)
qed

text \<open>For every time frame but the year, the archive that is read has the slots for the whole frame; that of the year holds
  360 of the 365 days it is asked for.\<close>

theorem archives_cover_frames:
  "(\<exists>n. (mode_cf mode, snd (frame_start timeframe now), n) \<in> set (snd (create_callback dst))
     \<and> unat (now - fst (frame_start timeframe now)) \<le> snd (frame_start timeframe now) * n) \<longleftrightarrow> timeframe \<noteq> Tf_Year"
proof -
  have "now - (now - c) = c" for c :: "64 word" by simp
  then show ?thesis
    by (cases timeframe; cases mode) (auto simp: frame_start_def mode_cf_def create_callback_def)
qed

lemma host_values_known: "set (map fst (host_values F m)) \<subseteq> set pdm_node_fields"
  by (auto simp: host_values_def pdm_node_fields_def split: option.splits prod.splits)

section \<open>Concrete points\<close>

definition ex_extract :: "nat extractor" where
  "ex_extract = (\<lambda>rrd basedir name cf resolution s e.
     Inr (if name \<in> {''cpu_current'', ''cpu-current'', ''disk_read'', ''mem_used''}
          then Some \<lparr>re_start = 60, re_resolution = resolution, re_data = [Some 7, None]\<rparr> else None))"

lemma ex_extract_answers: "answers_all ex_extract rrd"
  by (simp add: answers_all_def ex_extract_def)

lemma wrap_small: "wrap_u64 120 = 120"
  by (simp add: wrap_u64_def)

lemma ex_host_times:
  "(\<Union>f \<in> set pdm_node_fields. entry_times (extract_data ex_extract now [] ''nodes/localhost'' f Tf_Hour Mode_Max)) = {60, 120}"
  by (auto simp: pdm_node_fields_def ex_extract_def extract_data_def frame_start_def entry_times_def wrap_small)

theorem host_points_exact_witness:
  "(\<exists>ps. get_node_rrddata ex_extract 5000 ''localhost'' Tf_Hour Mode_Max [] = Inr ps \<and> set (map pdn_time ps) = {60, 120})
   \<and> get_node_rrddata ex_extract 5000 ''pve1'' Tf_Hour Mode_Max [] = Inl (Pt_Bad_Node ''pve1'')"
proof -
  note exact = host_points_exact [OF ex_extract_answers [of "[]"], where now = 5000 and timeframe = Tf_Hour and mode = Mode_Max]
  show ?thesis
    using exact(1) exact(2) [of "''pve1''"] unfolding ex_host_times by auto
qed

definition ex_pbs_point :: "nat pbs_node_point" where
  "ex_pbs_point = (pbs_node_new 60)\<lparr>pbn_cpu_current := Some 7, pbn_mem_used := Some 7\<rparr>"

lemma ex_pbs_read:
  "get_pbs_node_rrd_data ex_extract (\<lambda>_ rrd. rrd) 5000 ''pbs1'' Tf_Hour Mode_Max [] = (Inr [ex_pbs_point, pbs_node_new 120], [])"
  by (simp add: get_pbs_node_rrd_data_def get_rrd_datapoints_def create_datapoints_from_rrd_def pbs_node_ops_def
      pbs_node_fields_def extract_data_def frame_start_def ex_extract_def wrap_small pbs_node_set_field_def and_then_def
      ex_pbs_point_def pbs_node_new_def)

theorem pbs_node_rates_lost_witness:
  "entry_value (extract_data ex_extract 5000 [] ''pbs/pbs1/host'' ''disk_read'' Tf_Hour Mode_Max) 60 = Some 7
   \<and> pbn_disk_read ex_pbs_point = None \<and> pbn_disk_write ex_pbs_point = None
   \<and> pbs_node_field ''mem_used'' ex_pbs_point =
       entry_value (extract_data ex_extract 5000 [] (''pbs/'' @ ''pbs1'' @ ''/host'') ''mem_used'' Tf_Hour Mode_Max) 60"
proof -
  have p: "ex_pbs_point \<in> set [ex_pbs_point, pbs_node_new 120]" by simp
  note lost = pbs_node_rates_lost [OF ex_pbs_read p]
  have "pbn_time ex_pbs_point = 60"
    by (simp add: ex_pbs_point_def pbs_node_new_def)
  moreover have "entry_value (extract_data ex_extract 5000 [] ''pbs/pbs1/host'' ''disk_read'' Tf_Hour Mode_Max) 60 = Some 7"
    by (simp add: entry_value_def extract_data_def frame_start_def ex_extract_def wrap_small)
  moreover have "''mem_used'' \<in> set pbs_node_fields"
    by (simp add: pbs_node_fields_def)
  ultimately show ?thesis
    using lost [of "''mem_used''"] by simp
qed

end
