(* ===== verification/Metric_Collection.thy ===== *)
theory Metric_Collection
  imports Metric_Store Json
begin

text \<open>
  The collection of metrics from remotes: the state per remote and its file (\<open>server/src/metric_collection/state.rs\<close>), the
  collection task with its timer, control messages and startup (\<open>remote_collection_task.rs\<close>) and the status it reports
  (\<open>mod.rs\<close>, \<open>api/remotes/metric_collection.rs\<close>). Fetches of several remotes run concurrently: the order in which their
  requests reach the store task and the order in which they finish are parameters.
\<close>

section \<open>State\<close>

record remote_status =
  rs_most_recent_datapoint :: i64
  rs_last_collection :: "i64 option"
  rs_error :: "string option"

definition default_status :: remote_status where
  "default_status = \<lparr>rs_most_recent_datapoint = 0, rs_last_collection = None, rs_error = None\<rparr>"

type_synonym metric_state = "remote_status section_config"

definition set_status :: "string \<Rightarrow> remote_status \<Rightarrow> metric_state \<Rightarrow> metric_state" where
  "set_status remote s st = sc_insert remote s st"

definition get_remote_status :: "metric_state \<Rightarrow> string \<Rightarrow> remote_status option" where
  "get_remote_status st remote = sc_get st remote"

definition retain_statuses :: "(string \<Rightarrow> bool) \<Rightarrow> metric_state \<Rightarrow> metric_state" where
  "retain_statuses check st = filter (\<lambda>(remote, _). check remote) st"

definition status_to_json :: "remote_status \<Rightarrow> json" where
  "status_to_json s = JObj
     ([(''most-recent-datapoint'', JNum (rs_most_recent_datapoint s)),
       (''last-collection'', case rs_last_collection s of None \<Rightarrow> JNull | Some t \<Rightarrow> JNum t)]
      @ (case rs_error s of None \<Rightarrow> [] | Some e \<Rightarrow> [(''error'', JStr e)]))"

definition state_to_json :: "metric_state \<Rightarrow> json" where
  "state_to_json st = JObj [(''remote-status'', JObj (map (\<lambda>(remote, s). (remote, status_to_json s)) st))]"

text \<open>An optional field: absent, \<open>null\<close> or a value.\<close>

definition optional_field :: "(json \<Rightarrow> 'a option) \<Rightarrow> json \<Rightarrow> string \<Rightarrow> 'a option option" where
  "optional_field read j k = (case jget j k of
     None \<Rightarrow> Some None | Some JNull \<Rightarrow> Some None | Some v \<Rightarrow> map_option Some (read v))"

definition status_from_json :: "json \<Rightarrow> remote_status option" where
  "status_from_json j =
     Option.bind (Option.bind (jget j ''most-recent-datapoint'') as_signed) (\<lambda>most_recent.
     Option.bind (optional_field as_signed j ''last-collection'') (\<lambda>last_collection.
     Option.bind (optional_field as_str j ''error'') (\<lambda>err.
       Some \<lparr>rs_most_recent_datapoint = most_recent, rs_last_collection = last_collection, rs_error = err\<rparr>)))"

fun statuses_from_json :: "(string \<times> json) list \<Rightarrow> metric_state \<Rightarrow> metric_state option" where
  "statuses_from_json [] st = Some st"
| "statuses_from_json ((remote, j) # kvs) st =
     Option.bind (status_from_json j) (\<lambda>s. statuses_from_json kvs (sc_insert remote s st))"

definition state_from_json :: "json \<Rightarrow> metric_state option" where
  "state_from_json j =
     Option.bind (Option.bind (jget j ''remote-status'') as_object) (\<lambda>kvs. statuses_from_json kvs [])"

text \<open>A missing file is the empty state, and so is one that cannot be read.\<close>

definition load_state :: "inv_file \<Rightarrow> metric_state" where
  "load_state f = (case f of
     No_File \<Rightarrow> [] | Unparsable \<Rightarrow> []
   | Parsed j \<Rightarrow> (case state_from_json j of None \<Rightarrow> [] | Some st \<Rightarrow> st))"

section \<open>Fetching\<close>

definition DEFAULT_COLLECTION_INTERVAL :: i64 where
  "DEFAULT_COLLECTION_INTERVAL = 600"

definition MIN_COLLECTION_INTERVAL :: i64 where
  "MIN_COLLECTION_INTERVAL = 10"

text \<open>
  What a run of fetches meets: the clock when the fetch of a remote starts, what the remote answers when asked for
  metrics since a time, how long it took, whether the store task is gone, and the two orders.
\<close>

record 'f metric_env =
  me_now :: "string \<Rightarrow> i64"
  me_metrics :: "remote \<Rightarrow> i64 \<Rightarrow> string + 'f data_point list"
  me_duration :: "string \<Rightarrow> 'f"
  me_store_lost :: "string \<Rightarrow> string option"
  me_sent_rank :: "string \<Rightarrow> nat"
  me_done_rank :: "string \<Rightarrow> nat"

definition status_of :: "metric_state \<Rightarrow> string \<Rightarrow> remote_status" where
  "status_of st name = (case get_remote_status st name of None \<Rightarrow> default_status | Some s \<Rightarrow> s)"

definition recent_enough :: "i64 \<Rightarrow> remote_status \<Rightarrow> bool" where
  "recent_enough now s \<longleftrightarrow>
     wrap_i64 (now - (case rs_last_collection s of None \<Rightarrow> 0 | Some t \<Rightarrow> t)) < MIN_COLLECTION_INTERVAL"

text \<open>The fetches that are spawned, with the status each starts from.\<close>

definition spawned :: "i64 \<Rightarrow> remote section_config \<Rightarrow> metric_state \<Rightarrow> string list \<Rightarrow> (remote \<times> remote_status) list" where
  "spawned now config st names =
     List.map_filter (\<lambda>name.
       if recent_enough now (status_of st name) then None
       else map_option (\<lambda>r. (r, status_of st name)) (sc_get config name)) names"

definition remote_request :: "'f metric_env \<Rightarrow> remote \<Rightarrow> remote_status \<Rightarrow> string + 'f rrd_store_request" where
  "remote_request env r s =
     (case me_metrics env r (rs_most_recent_datapoint s) of
        Inl e \<Rightarrow> Inl e
      | Inr metrics \<Rightarrow>
          (case me_store_lost env (r_id r) of
             Some e \<Rightarrow> Inl e
           | None \<Rightarrow> Inr (case r_ty r of
               Remote_Pve \<Rightarrow> Store_Pve (r_id r) metrics (me_duration env (r_id r)) (me_now env (r_id r))
             | Remote_Pbs \<Rightarrow> Store_Pbs (r_id r) metrics (me_duration env (r_id r)) (me_now env (r_id r)))))"

text \<open>The store task serves the requests of the fetches in the order they arrive and answers each.\<close>

definition serve_requests ::
  "'f floats \<Rightarrow> (string \<times> 'f rrd_store_request) list \<Rightarrow> 'f rrd \<Rightarrow> (string \<Rightarrow> i64 option) \<times> 'f rrd" where
  "serve_requests F reqs rrd =
     fold (\<lambda>(i, req) (replies, rrd). let (reply, rrd') = store_request F req rrd in (replies(i := reply), rrd'))
       reqs (\<lambda>_. None, rrd)"

definition fetch_single_remote ::
  "'f metric_env \<Rightarrow> (string \<Rightarrow> i64 option) \<Rightarrow> remote \<Rightarrow> remote_status \<Rightarrow> string \<times> remote_status" where
  "fetch_single_remote env replies r s =
     (case remote_request env r s of
        Inl e \<Rightarrow> (r_id r, s\<lparr>rs_error := Some e\<rparr>)
      | Inr _ \<Rightarrow>
          (case replies (r_id r) of
             None \<Rightarrow> (r_id r, s\<lparr>rs_error := Some ''channel closed''\<rparr>)
           | Some most_recent \<Rightarrow>
               (r_id r, \<lparr>rs_most_recent_datapoint = most_recent, rs_last_collection = Some (me_now env (r_id r)), rs_error = None\<rparr>)))"

definition arrived_requests :: "'f metric_env \<Rightarrow> (remote \<times> remote_status) list \<Rightarrow> (string \<times> 'f rrd_store_request) list" where
  "arrived_requests env jobs =
     List.map_filter (\<lambda>(r, s). case remote_request env r s of Inl _ \<Rightarrow> None | Inr req \<Rightarrow> Some (r_id r, req))
       (sort_key (\<lambda>(r, s). me_sent_rank env (r_id r)) jobs)"

definition fetch_remotes_metrics ::
  "'f floats \<Rightarrow> 'f metric_env \<Rightarrow> i64 \<Rightarrow> remote section_config \<Rightarrow> string list \<Rightarrow> metric_state \<times> 'f rrd \<Rightarrow> metric_state \<times> 'f rrd" where
  "fetch_remotes_metrics F env now config names = (\<lambda>(st, rrd).
     let jobs = spawned now config st names;
         (replies, rrd') = serve_requests F (arrived_requests env jobs) rrd;
         finished = map (\<lambda>(r, s). fetch_single_remote env replies r s)
                      (sort_key (\<lambda>(r, s). me_done_rank env (r_id r)) jobs)
     in (fold (\<lambda>(name, s). set_status name s) finished st, rrd'))"

text \<open>\<open>left\<close> are the seconds until the timer fires.\<close>

definition overdue_remotes :: "i64 \<Rightarrow> i64 \<Rightarrow> i64 \<Rightarrow> remote section_config \<Rightarrow> metric_state \<Rightarrow> string list" where
  "overdue_remotes now left collection_interval config st =
     filter (\<lambda>remote.
       let last_collection = (case Option.bind (get_remote_status st remote) rs_last_collection of None \<Rightarrow> 0 | Some t \<Rightarrow> t);
           diff = wrap_i64 (now - last_collection)
       in wrap_i64 (diff + left) > collection_interval) (map fst config)"

definition fetch_overdue ::
  "'f floats \<Rightarrow> 'f metric_env \<Rightarrow> i64 \<Rightarrow> i64 \<Rightarrow> i64 \<Rightarrow> remote section_config \<Rightarrow> metric_state \<times> 'f rrd \<Rightarrow> metric_state \<times> 'f rrd" where
  "fetch_overdue F env now left collection_interval config = (\<lambda>(st, rrd).
     fetch_remotes_metrics F env now config (overdue_remotes now left collection_interval config st) (st, rrd))"

section \<open>The task\<close>

definition cleanup_removed_remotes_from_state :: "remote section_config \<Rightarrow> metric_state \<Rightarrow> metric_state" where
  "cleanup_removed_remotes_from_state config st = retain_statuses (\<lambda>remote. sc_get config remote \<noteq> None) st"

text \<open>\<open>config\<close> is \<open>None\<close> when \<open>remotes.cfg\<close> cannot be read; \<open>stats\<close> are the time after the run and its duration.\<close>

definition handle_tick ::
  "'f floats \<Rightarrow> 'f metric_env \<Rightarrow> i64 \<Rightarrow> i64 \<times> 'f \<Rightarrow> remote section_config option \<Rightarrow> metric_state \<times> 'f rrd \<Rightarrow> metric_state \<times> 'f rrd" where
  "handle_tick F env now stats config = (\<lambda>(st, rrd). case config of
     None \<Rightarrow> (st, rrd)
   | Some remotes \<Rightarrow>
       (let (st', rrd') = fetch_remotes_metrics F env now remotes (map fst remotes) (cleanup_removed_remotes_from_state remotes st, rrd)
        in (st', snd (store_request F (Store_Stats (fst stats) (snd stats)) rrd'))))"

text \<open>The answer tells whether the sender of the message is notified.\<close>

definition handle_control_message ::
  "'f floats \<Rightarrow> 'f metric_env \<Rightarrow> i64 \<Rightarrow> remote section_config option \<Rightarrow> string option \<Rightarrow> metric_state \<times> 'f rrd \<Rightarrow>
   bool \<times> metric_state \<times> 'f rrd" where
  "handle_control_message F env now config remote = (\<lambda>(st, rrd). case config of
     None \<Rightarrow> (False, st, rrd)
   | Some remotes \<Rightarrow>
       (True, fetch_remotes_metrics F env now remotes (case remote of Some name \<Rightarrow> [name] | None \<Rightarrow> map fst remotes) (st, rrd)))"

record 'f metric_task =
  mt_state :: metric_state
  mt_file :: inv_file
  mt_rrd :: "'f rrd"

definition save_state :: "bool \<Rightarrow> 'f metric_task \<Rightarrow> 'f metric_task" where
  "save_state written T = (if written then T\<lparr>mt_file := Parsed (state_to_json (mt_state T))\<rparr> else T)"

definition on_state :: "(metric_state \<times> 'f rrd \<Rightarrow> metric_state \<times> 'f rrd) \<Rightarrow> 'f metric_task \<Rightarrow> 'f metric_task" where
  "on_state f T = (let (st, rrd) = f (mt_state T, mt_rrd T) in T\<lparr>mt_state := st, mt_rrd := rrd\<rparr>)"

text \<open>The start of the task, and the two branches of its loop, each followed by writing the state.\<close>

definition start_task :: "'f floats \<Rightarrow> 'f metric_env \<Rightarrow> i64 \<Rightarrow> i64 \<Rightarrow> remote section_config option \<Rightarrow> 'f metric_task \<Rightarrow> 'f metric_task" where
  "start_task F env now left config T =
     (let T = T\<lparr>mt_state := load_state (mt_file T)\<rparr>
      in case config of
           None \<Rightarrow> T
         | Some remotes \<Rightarrow> on_state (fetch_overdue F env now left DEFAULT_COLLECTION_INTERVAL remotes) T)"

definition run_tick ::
  "'f floats \<Rightarrow> 'f metric_env \<Rightarrow> i64 \<Rightarrow> i64 \<times> 'f \<Rightarrow> remote section_config option \<Rightarrow> bool \<Rightarrow> 'f metric_task \<Rightarrow> 'f metric_task" where
  "run_tick F env now stats config written T = save_state written (on_state (handle_tick F env now stats config) T)"

definition run_control ::
  "'f floats \<Rightarrow> 'f metric_env \<Rightarrow> i64 \<Rightarrow> remote section_config option \<Rightarrow> string option \<Rightarrow> bool \<Rightarrow> 'f metric_task \<Rightarrow> 'f metric_task" where
  "run_control F env now config remote written T =
     save_state written (on_state (\<lambda>p. snd (handle_control_message F env now config remote p)) T)"

section \<open>The interface\<close>

datatype trigger_outcome = Trigger_Ok | Trigger_Failed

text \<open>
  \<open>listening\<close> is false before the task exists; \<open>notified\<close> is the task's answer, \<open>None\<close> when the channel is closed.
\<close>

definition trigger_remote_metric_collection :: "bool \<Rightarrow> bool option \<Rightarrow> bool \<Rightarrow> trigger_outcome" where
  "trigger_remote_metric_collection listening notified wait =
     (if \<not> listening then Trigger_Ok
      else case notified of
             None \<Rightarrow> Trigger_Failed
           | Some done \<Rightarrow> if wait \<and> \<not> done then Trigger_Failed else Trigger_Ok)"

record collection_status =
  cs_remote :: string
  cs_error :: "string option"
  cs_last_collection :: "i64 option"

definition remote_metric_collection_status :: "remote section_config \<Rightarrow> inv_file \<Rightarrow> collection_status list" where
  "remote_metric_collection_status config f =
     (let st = load_state f
      in List.map_filter (\<lambda>(remote, _).
           map_option (\<lambda>s. \<lparr>cs_remote = remote, cs_error = rs_error s, cs_last_collection = rs_last_collection s\<rparr>)
             (get_remote_status st remote)) config)"

end
