(* ===== verification/Metric_Collection_Props.thy ===== *)
theory Metric_Collection_Props
  imports Metric_Collection
begin

text \<open>
  Properties of the metric collection: what the store task writes for a request, the effect of a run of concurrent fetches,
  the state file, all reachable states, and whose metrics are written.
\<close>

section \<open>What the store task writes\<close>

definition kept_points :: "i64 \<Rightarrow> 'f data_point list \<Rightarrow> 'f data_point list" where
  "kept_points request_at data = filter (\<lambda>p. dp_timestamp p \<le> wrap_i64 (request_at + FUTURE_DATAPOINT_TOLERANCE)) data"

definition latest :: "i64 \<Rightarrow> 'f data_point list \<Rightarrow> i64" where
  "latest request_at data = Max (insert 0 (dp_timestamp ` set (kept_points request_at data)))"

lemma Max_insert_insert: "finite S \<Longrightarrow> max a (Max (insert b S)) = Max (insert (max a b) S)"
  by (cases "S = {}") (simp_all add: max.assoc)

lemma fold_store:
  assumes store: "\<And>p rrd. store p rrd = rrd @ u p"
  shows "fold (\<lambda>p (m, rrd). if dp_timestamp p > c then (m, rrd) else (max m (dp_timestamp p), store p rrd)) data (m, rrd)
     = (Max (insert m (dp_timestamp ` set (filter (\<lambda>p. dp_timestamp p \<le> c) data))),
        rrd @ concat (map u (filter (\<lambda>p. dp_timestamp p \<le> c) data)))"
proof (induction data arbitrary: m rrd)
  case (Cons p data)
  show ?case
  proof (cases "dp_timestamp p \<le> c")
    case True
    then show ?thesis using Cons.IH by (simp add: store Max_insert_insert)
  qed (use Cons.IH in simp)
qed simp

lemma store_datapoints_eq:
  assumes "\<And>p rrd. store p rrd = rrd @ u p"
  shows "store_datapoints store data request_at rrd = (latest request_at data, rrd @ concat (map u (kept_points request_at data)))"
  unfolding store_datapoints_def Let_def latest_def kept_points_def by (rule fold_store [OF assms])

lemma metric_appends:
  "store_metric_pve remote p rrd = rrd @ store_metric_pve remote p []"
  "store_metric_pbs remote p rrd = rrd @ store_metric_pbs remote p []"
  by (simp_all add: store_metric_pve_def store_metric_pbs_def update_value_def split: option.split)

lemma fold_update:
  "fold (\<lambda>(name, v, ty). update_value (pre @ name) v t ty) vs rrd =
   rrd @ map (\<lambda>(name, v, ty). \<lparr>ru_name = pre @ name, ru_value = v, ru_timestamp = t, ru_type = ty\<rparr>) vs"
  by (induction vs arbitrary: rrd) (auto simp: update_value_def)

lemma store_pve_eq:
  "store_request F (Store_Pve remote data d now) rrd =
     (Some (latest now data),
      rrd @ concat (map (\<lambda>p. store_metric_pve remote p []) (kept_points now data)) @ store_response_time remote d now [])"
  by (simp add: store_request_def store_datapoints_eq [OF metric_appends(1)] store_response_time_def update_value_def)

lemma store_pbs_eq:
  "store_request F (Store_Pbs remote data d now) rrd =
     (Some (latest now data),
      rrd @ concat (map (\<lambda>p. store_metric_pbs remote p []) (kept_points now data)) @ store_response_time remote d now [])"
  by (simp add: store_request_def store_datapoints_eq [OF metric_appends(2)] store_response_time_def update_value_def)

lemma store_host_eq:
  "store_request F (Store_Host t m) rrd =
     (None, rrd @ map (\<lambda>(name, v, ty). \<lparr>ru_name = ''nodes/localhost/'' @ name, ru_value = v, ru_timestamp = t, ru_type = ty\<rparr>)
        (host_values F m))"
  unfolding store_request_def rrd_store_request.case store_pdm_host_metrics_def fold_update by (rule refl)

lemma store_stats_eq:
  "store_request F (Store_Stats t d) rrd =
     (None, rrd @ [\<lparr>ru_name = ''nodes/localhost/metric-collection-total-time'', ru_value = d, ru_timestamp = t, ru_type = Dst_Gauge\<rparr>])"
  unfolding store_request_def rrd_store_request.case store_stats_def update_value_def by (rule refl)

lemmas store_request_eqs = store_pve_eq store_pbs_eq store_host_eq store_stats_eq

lemma store_request_appends:
  "store_request F req rrd = (fst (store_request F req []), rrd @ snd (store_request F req []))"
  by (cases req) (simp_all only: store_request_eqs fst_conv snd_conv append_Nil)

section \<open>What a run of fetches leaves\<close>

lemma serve_fold:
  "fold (\<lambda>(i, req) (replies, rrd). let (reply, rrd') = store_request F req rrd in (replies(i := reply), rrd')) reqs (rs, rrd)
   = (\<lambda>i. case map_of (rev reqs) i of None \<Rightarrow> rs i | Some req \<Rightarrow> fst (store_request F req []),
      rrd @ concat (map (\<lambda>(i, req). snd (store_request F req [])) reqs))"
proof (induction reqs arbitrary: rs rrd)
  case (Cons p reqs)
  obtain i req where p: "p = (i, req)" by (cases p)
  have "(\<lambda>j. case map_of (rev reqs) j of None \<Rightarrow> (rs(i := fst (store_request F req []))) j | Some req \<Rightarrow> fst (store_request F req [])) =
     (\<lambda>j. case map_of (rev (p # reqs)) j of None \<Rightarrow> rs j | Some req \<Rightarrow> fst (store_request F req []))"
    by (auto simp: p map_add_def fun_eq_iff split: option.split)
  then show ?case
    unfolding p fold.simps o_apply prod.case store_request_appends [of F req rrd] Let_def [where s = "(_, _)"] Cons.IH
    by simp
qed simp

lemma map_of_rev_distinct: "distinct (map fst xs) \<Longrightarrow> map_of (rev xs) = map_of xs"
  using map_of_inject_set [of "rev xs" xs] by (simp add: rev_map [symmetric])

lemma serve_requests_eq:
  "distinct (map fst reqs) \<Longrightarrow>
   serve_requests F reqs rrd =
     (\<lambda>i. Option.bind (map_of reqs i) (\<lambda>req. fst (store_request F req [])),
      rrd @ concat (map (\<lambda>(i, req). snd (store_request F req [])) reqs))"
  unfolding serve_requests_def serve_fold 
  by (auto simp: fun_eq_iff map_of_rev_distinct split: option.split)

text \<open>The status a fetch leaves.\<close>

definition collected :: "'f metric_env \<Rightarrow> remote \<Rightarrow> remote_status \<Rightarrow> remote_status" where
  "collected env r s =
     (case me_metrics env r (rs_most_recent_datapoint s) of
        Inl e \<Rightarrow> s\<lparr>rs_error := Some e\<rparr>
      | Inr data \<Rightarrow>
          (case me_store_lost env (r_id r) of
             Some e \<Rightarrow> s\<lparr>rs_error := Some e\<rparr>
           | None \<Rightarrow> \<lparr>rs_most_recent_datapoint = latest (me_now env (r_id r)) data,
                      rs_last_collection = Some (me_now env (r_id r)), rs_error = None\<rparr>))"

abbreviation job_id :: "remote \<times> remote_status \<Rightarrow> string" where
  "job_id \<equiv> \<lambda>(r, s). r_id r"

lemma requests_set:
  "(i, req) \<in> set (arrived_requests env jobs) \<longleftrightarrow> (\<exists>r s. (r, s) \<in> set jobs \<and> i = r_id r \<and> remote_request env r s = Inr req)"
  by (force simp: arrived_requests_def set_map_filter split: sum.splits)

lemma distinct_requests:
  "distinct (map job_id jobs) \<Longrightarrow> distinct (map fst (arrived_requests env jobs))"
  unfolding arrived_requests_def
  by (rule map_filter_keys [where h = job_id])
    (auto split: sum.splits simp: distinct_map)

definition keyed :: "remote section_config \<Rightarrow> bool" where
  "keyed config \<longleftrightarrow> sc_wf config \<and> list_all (\<lambda>(i, r). r_id r = i) config"

lemma keyed_id: "keyed config \<Longrightarrow> sc_get config i = Some r \<Longrightarrow> r_id r = i"
  by (auto simp: keyed_def list_all_iff sc_get_def dest: map_of_SomeD)

lemma spawned_set:
  "(r, s) \<in> set (spawned now config st names) \<longleftrightarrow>
   (\<exists>name \<in> set names. \<not> recent_enough now (status_of st name) \<and> sc_get config name = Some r \<and> s = status_of st name)"
  by (auto simp: spawned_def set_map_filter split: if_splits)

lemma spawned_distinct:
  "keyed config \<Longrightarrow> distinct names \<Longrightarrow> distinct (map job_id (spawned now config st names))"
  unfolding spawned_def
  by (rule map_filter_keys [where h = id]) (auto split: if_splits simp: keyed_id)

lemma get_retain: "sc_get (retain_statuses check st) i = (if check i then sc_get st i else None)"
  by (induction st) (auto simp: retain_statuses_def sc_get_def)

lemma get_set_status: "sc_get (set_status name s st) = (sc_get st)(name \<mapsto> s)"
  by (simp add: set_status_def sc.get_insert)

lemma get_fold_set_status:
  "distinct (map fst kvs) \<Longrightarrow>
   sc_get (fold (\<lambda>(name, s). set_status name s) kvs st) i =
     (case map_of kvs i of Some s \<Rightarrow> Some s | None \<Rightarrow> sc_get st i)"
proof (induction kvs arbitrary: st)
  case (Cons p kvs)
  obtain name s where p: "p = (name, s)" by (cases p)
  have "i = name \<Longrightarrow> map_of kvs i = None"
    using Cons.prems by (auto simp: p map_of_eq_None_iff)
  then show ?case
    using Cons.prems Cons.IH [of "set_status name s st"] by (auto simp: p get_set_status split: option.split)
qed simp

lemma wf_fold_set_status: "sc_wf st \<Longrightarrow> sc_wf (fold (\<lambda>(name, s). set_status name s) kvs st)"
  by (induction kvs arbitrary: st) (auto simp: set_status_def sc.wf_insert)

lemma fetched_status:
  assumes d: "distinct (map job_id jobs)" and job: "(r, s) \<in> set jobs"
  shows "fetch_single_remote env (fst (serve_requests F (arrived_requests env jobs) rrd)) r s = (r_id r, collected env r s)"
proof (cases "remote_request env r s")
  case (Inl e)
  then show ?thesis
    by (auto simp: fetch_single_remote_def collected_def remote_request_def split: sum.splits option.splits)
next
  case (Inr req)
  then have "(r_id r, req) \<in> set (arrived_requests env jobs)"
    using job by (auto simp: requests_set)
  then have "map_of (arrived_requests env jobs) (r_id r) = Some req"
    using distinct_requests [OF d] by (rule map_of_is_SomeI [rotated])
  then show ?thesis
    using Inr
    by (cases "r_ty r")
      (auto simp: fetch_single_remote_def collected_def serve_requests_eq [OF distinct_requests [OF d]]
        remote_request_def store_pve_eq store_pbs_eq split: sum.splits option.splits)
qed

definition fetch_updates ::
  "'f floats \<Rightarrow> 'f metric_env \<Rightarrow> (remote \<times> remote_status) list \<Rightarrow> 'f rrd" where
  "fetch_updates F env jobs = concat (map (\<lambda>(i, req). snd (store_request F req [])) (arrived_requests env jobs))"

lemma fetch_remotes_effect:
  fixes F :: "'f floats"
  assumes k: "keyed config" and n: "distinct names"
  shows "sc_get (fst (fetch_remotes_metrics F env now config names (st, rrd))) i =
     (case sc_get config i of
        Some r \<Rightarrow> if i \<in> set names \<and> \<not> recent_enough now (status_of st i) then Some (collected env r (status_of st i))
                  else sc_get st i
      | None \<Rightarrow> sc_get st i)"
    and "snd (fetch_remotes_metrics F env now config names (st, rrd)) = rrd @ fetch_updates F env (spawned now config st names)"
    and "sc_wf st \<Longrightarrow> sc_wf (fst (fetch_remotes_metrics F env now config names (st, rrd)))"
proof -
  define jobs where "jobs = spawned now config st names"
  have d: "distinct (map job_id jobs)"
    unfolding jobs_def by (rule spawned_distinct [OF k n])
  define sorted where "sorted = sort_key (\<lambda>(r, s). me_done_rank env (r_id r)) jobs"
  define kvs where "kvs = map (\<lambda>(r, s). (r_id r, collected env r s)) sorted"
  have "map (\<lambda>(r, s). fetch_single_remote env (fst (serve_requests F (arrived_requests env jobs) rrd)) r s) sorted = kvs"
    unfolding kvs_def by (rule map_cong) (auto simp: sorted_def fetched_status [OF d])
  then have st': "fst (fetch_remotes_metrics F env now config names (st, rrd)) = fold (\<lambda>(name, s). set_status name s) kvs st"
    and rrd': "snd (fetch_remotes_metrics F env now config names (st, rrd)) = rrd @ fetch_updates F env jobs"
    by (simp_all add: fetch_remotes_metrics_def Let_def case_prod_beta jobs_def [symmetric] sorted_def
        fetch_updates_def serve_requests_eq [OF distinct_requests [OF d]])
  have "map fst kvs = map job_id sorted"
    by (auto simp: kvs_def)
  moreover have "distinct (map job_id sorted)"
    using d by (simp add: sorted_def distinct_map)
  ultimately have dk: "distinct (map fst kvs)" by simp
  have "map_of kvs i = Some s \<longleftrightarrow> (i, s) \<in> set kvs" for s
    using dk by simp
  also have "(i, s) \<in> set kvs \<longleftrightarrow>
      (\<exists>r. sc_get config i = Some r \<and> i \<in> set names \<and> \<not> recent_enough now (status_of st i) \<and> s = collected env r (status_of st i))" for s
    using keyed_id [OF k] by (fastforce simp: kvs_def sorted_def jobs_def spawned_set)
  finally have m: "map_of kvs i =
      (case sc_get config i of
         Some r \<Rightarrow> if i \<in> set names \<and> \<not> recent_enough now (status_of st i) then Some (collected env r (status_of st i)) else None
       | None \<Rightarrow> None)"
    by (cases "map_of kvs i"; cases "sc_get config i") (auto split: if_splits)
  show "sc_get (fst (fetch_remotes_metrics F env now config names (st, rrd))) i =
     (case sc_get config i of
        Some r \<Rightarrow> if i \<in> set names \<and> \<not> recent_enough now (status_of st i) then Some (collected env r (status_of st i))
                  else sc_get st i
      | None \<Rightarrow> sc_get st i)"
    unfolding st' get_fold_set_status [OF dk] m by (auto split: option.split)
  show "snd (fetch_remotes_metrics F env now config names (st, rrd)) = rrd @ fetch_updates F env (spawned now config st names)"
    using rrd' by (simp add: jobs_def)
  show "sc_wf st \<Longrightarrow> sc_wf (fst (fetch_remotes_metrics F env now config names (st, rrd)))"
    unfolding st' by (rule wf_fold_set_status)
qed

text \<open>C37. After a tick of the metric collection the state has one status for every configured remote and no other: the old one
  where the last collection is less than ten seconds ago, and otherwise the outcome of a fetch, whatever the order in which
  the fetches reach the store task and finish. A failed fetch only records its error.\<close>

theorem tick_statuses_exact:
  assumes "keyed config"
  shows "get_remote_status (fst (handle_tick F env now stats (Some config) (st, rrd))) i =
     (case sc_get config i of
        None \<Rightarrow> None
      | Some r \<Rightarrow> if recent_enough now (status_of st i) then get_remote_status st i else Some (collected env r (status_of st i)))"
proof -
  let ?st = "cleanup_removed_remotes_from_state config st"
  have get: "sc_get ?st i = (if sc_get config i = None then None else sc_get st i)" for i
    by (simp add: cleanup_removed_remotes_from_state_def get_retain)
  have status: "status_of ?st i = status_of st i" if "sc_get config i \<noteq> None"
    using that by (auto simp: status_of_def get_remote_status_def get)
  have "distinct (map fst config)"
    using assms by (simp add: keyed_def sc_wf_def)
  moreover have "sc_get config i = Some r \<Longrightarrow> i \<in> fst ` set config" for r
    by (force simp: sc_get_def dest: map_of_SomeD)
  ultimately show ?thesis
    using fetch_remotes_effect(1) [OF assms, of "map fst config" F env now ?st rrd i] status
    by (auto simp: handle_tick_def Let_def case_prod_beta get_remote_status_def get split: option.splits)
qed

section \<open>The state file\<close>

definition status_in_range :: "remote_status \<Rightarrow> bool" where
  "status_in_range s \<longleftrightarrow>
     i64_range (rs_most_recent_datapoint s) \<and> (case rs_last_collection s of None \<Rightarrow> True | Some t \<Rightarrow> i64_range t)"

lemma status_roundtrip: "status_in_range s \<Longrightarrow> status_from_json (status_to_json s) = Some s"
  by (cases "rs_last_collection s"; cases "rs_error s")
    (auto simp: status_from_json_def status_to_json_def optional_field_def as_signed_def status_in_range_def i64_range_def)

lemma sc_insert_new: "k \<notin> set (map fst m) \<Longrightarrow> sc_insert k v m = m @ [(k, v)]"
  by (induction m) auto

lemma statuses_roundtrip:
  "list_all (\<lambda>(_, s). status_in_range s) st \<Longrightarrow> distinct (map fst (acc @ st)) \<Longrightarrow>
   statuses_from_json (map (\<lambda>(remote, s). (remote, status_to_json s)) st) acc = Some (acc @ st)"
proof (induction st arbitrary: acc)
  case (Cons p st)
  obtain remote s where p: "p = (remote, s)" by (cases p)
  have "sc_insert remote s acc = acc @ [(remote, s)]"
    using Cons.prems(2) by (intro sc_insert_new) (simp add: p)
  then show ?case
    using Cons.prems Cons.IH [of "acc @ [(remote, s)]"] by (simp add: p status_roundtrip)
qed simp

text \<open>A state of the metric collection that was written is read back as it was.\<close>

theorem metric_state_roundtrip:
  "sc_wf st \<Longrightarrow> list_all (\<lambda>(_, s). status_in_range s) st \<Longrightarrow> load_state (Parsed (state_to_json st)) = st"
  by (simp add: load_state_def state_from_json_def state_to_json_def as_object_def statuses_roundtrip sc_wf_def)

section \<open>Reachable states\<close>

definition clock_limit :: i64 where
  "clock_limit = 2 ^ 62"

definition status_ok :: "i64 \<Rightarrow> remote_status \<Rightarrow> bool" where
  "status_ok H s \<longleftrightarrow> (case rs_last_collection s of
     None \<Rightarrow> rs_most_recent_datapoint s = 0
   | Some t \<Rightarrow> 0 \<le> t \<and> t \<le> H \<and> 0 \<le> rs_most_recent_datapoint s \<and> rs_most_recent_datapoint s \<le> t + FUTURE_DATAPOINT_TOLERANCE)"

definition state_ok :: "i64 \<Rightarrow> metric_state \<Rightarrow> bool" where
  "state_ok H st \<longleftrightarrow> sc_wf st \<and> list_all (\<lambda>(_, s). status_ok H s) st"

definition metric_inv :: "i64 \<Rightarrow> 'f metric_task \<Rightarrow> bool" where
  "metric_inv H T \<longleftrightarrow>
     state_ok H (mt_state T) \<and> state_ok H (load_state (mt_file T))
     \<and> list_all (\<lambda>u. ru_timestamp u \<le> H + FUTURE_DATAPOINT_TOLERANCE) (mt_rrd T)"

text \<open>The clock stays between the epoch and \<open>H\<close>; what remotes answer is arbitrary.\<close>

definition clock_ok :: "i64 \<Rightarrow> 'f metric_env \<Rightarrow> bool" where
  "clock_ok H env \<longleftrightarrow> (\<forall>i. 0 \<le> me_now env i \<and> me_now env i \<le> H)"

definition config_keyed :: "remote section_config option \<Rightarrow> bool" where
  "config_keyed config \<longleftrightarrow> (case config of None \<Rightarrow> True | Some c \<Rightarrow> keyed c)"

inductive metric_step :: "'f floats \<Rightarrow> i64 \<Rightarrow> 'f metric_task \<Rightarrow> 'f metric_task \<Rightarrow> bool" for F H where
  start: "clock_ok H env \<Longrightarrow> config_keyed config \<Longrightarrow> metric_step F H T (start_task F env now left config T)"
| tick: "clock_ok H env \<Longrightarrow> config_keyed config \<Longrightarrow> fst stats \<le> H \<Longrightarrow>
    metric_step F H T (run_tick F env now stats config written T)"
| control: "clock_ok H env \<Longrightarrow> config_keyed config \<Longrightarrow> metric_step F H T (run_control F env now config remote written T)"
| host: "now \<le> H \<Longrightarrow>
    metric_step F H T (T\<lparr>mt_rrd := snd (store_request F (fst (local_handle_tick h instant now cache)) (mt_rrd T))\<rparr>)"

definition metric_start :: "'f metric_task \<Rightarrow> bool" where
  "metric_start T \<longleftrightarrow> mt_state T = [] \<and> load_state (mt_file T) = [] \<and> mt_rrd T = []"

lemma state_ok_get: "state_ok H st \<longleftrightarrow> sc_wf st \<and> (\<forall>i s. sc_get st i = Some s \<longrightarrow> status_ok H s)"
  by (auto simp: state_ok_def list_all_iff sc.get_iter)

lemma latest_range: "0 \<le> latest t0 data" "latest t0 data \<le> max 0 (wrap_i64 (t0 + FUTURE_DATAPOINT_TOLERANCE))"
  by (auto simp: latest_def kept_points_def)

lemma cutoff: "0 \<le> t0 \<Longrightarrow> t0 < clock_limit \<Longrightarrow> wrap_i64 (t0 + FUTURE_DATAPOINT_TOLERANCE) = t0 + FUTURE_DATAPOINT_TOLERANCE"
  by (intro wrap_i64_id) (simp add: i64_range_def FUTURE_DATAPOINT_TOLERANCE_def clock_limit_def)

lemma status_of_ok: "state_ok H st \<Longrightarrow> status_ok H (status_of st i)"
proof (cases "sc_get st i")
  case None
  then show ?thesis by (simp add: status_of_def get_remote_status_def default_status_def status_ok_def)
qed (simp add: state_ok_get status_of_def get_remote_status_def)

lemma collected_ok:
  assumes "clock_ok H env" and "H < clock_limit" and "status_ok H s"
  shows "status_ok H (collected env r s)"
proof -
  have now: "0 \<le> me_now env (r_id r)" "me_now env (r_id r) \<le> H"
    using assms(1) by (auto simp: clock_ok_def)
  with assms(2) have "latest (me_now env (r_id r)) data \<le> me_now env (r_id r) + FUTURE_DATAPOINT_TOLERANCE" for data :: "'a data_point list"
    using latest_range(2) [of "me_now env (r_id r)" data] cutoff [of "me_now env (r_id r)"]
    by (simp add: FUTURE_DATAPOINT_TOLERANCE_def)
  then show ?thesis
    using assms(3) now by (auto simp: collected_def status_ok_def latest_range split: sum.split option.splits)
qed

lemma points_dated:
  "0 \<le> t0 \<Longrightarrow> t0 \<le> H \<Longrightarrow> H < clock_limit \<Longrightarrow> p \<in> set (kept_points t0 data) \<Longrightarrow> dp_timestamp p \<le> H + FUTURE_DATAPOINT_TOLERANCE"
  by (simp add: kept_points_def cutoff)

lemma metric_dated:
  "u \<in> set (store_metric_pve remote p []) \<Longrightarrow> ru_timestamp u = dp_timestamp p"
  "u \<in> set (store_metric_pbs remote p []) \<Longrightarrow> ru_timestamp u = dp_timestamp p"
  by (auto simp: store_metric_pve_def store_metric_pbs_def update_value_def split: option.splits)

lemma response_dated: "u \<in> set (store_response_time remote d t0 []) \<Longrightarrow> ru_timestamp u = t0"
  by (simp add: store_response_time_def update_value_def)

lemma request_dated:
  assumes "remote_request env r s = Inr req" and "clock_ok H env" and "H < clock_limit" and "u \<in> set (snd (store_request F req []))"
  shows "ru_timestamp u \<le> H + FUTURE_DATAPOINT_TOLERANCE"
proof -
  have now: "0 \<le> me_now env (r_id r)" "me_now env (r_id r) \<le> H"
    using assms(2) by (auto simp: clock_ok_def)
  have "me_now env (r_id r) \<le> H + FUTURE_DATAPOINT_TOLERANCE"
    using now(2) by (simp add: FUTURE_DATAPOINT_TOLERANCE_def)
  then show ?thesis
    using assms(1,4) points_dated [OF now assms(3)]
    by (cases "r_ty r")
      (auto simp: remote_request_def store_pve_eq store_pbs_eq metric_dated response_dated split: sum.splits option.splits)
qed

lemma fetch_updates_dated:
  "clock_ok H env \<Longrightarrow> H < clock_limit \<Longrightarrow> u \<in> set (fetch_updates F env jobs) \<Longrightarrow> ru_timestamp u \<le> H + FUTURE_DATAPOINT_TOLERANCE"
  by (auto simp: fetch_updates_def requests_set dest: request_dated)

definition pair_ok :: "i64 \<Rightarrow> metric_state \<times> 'f rrd \<Rightarrow> bool" where
  "pair_ok H p \<longleftrightarrow> state_ok H (fst p) \<and> list_all (\<lambda>u. ru_timestamp u \<le> H + FUTURE_DATAPOINT_TOLERANCE) (snd p)"

lemma fetch_remotes_ok:
  assumes "pair_ok H p" and "clock_ok H env" and "H < clock_limit" and "keyed config" and "distinct names"
  shows "pair_ok H (fetch_remotes_metrics F env now config names p)"
proof -
  obtain st rrd where p: "p = (st, rrd)" by (cases p)
  note effect = fetch_remotes_effect [OF assms(4,5), where F = F and env = env and now = now and st = st and rrd = rrd]
  have st: "state_ok H st" and rrd: "list_all (\<lambda>u. ru_timestamp u \<le> H + FUTURE_DATAPOINT_TOLERANCE) rrd"
    using assms(1) by (simp_all add: pair_ok_def p)
  have "status_ok H (collected env r (status_of st i))" for r i
    using assms(2,3) by (rule collected_ok) (rule status_of_ok [OF st])
  then have "state_ok H (fst (fetch_remotes_metrics F env now config names p))"
    using st effect(3) by (auto simp: state_ok_get p effect(1) split: option.splits if_splits)
  then show ?thesis
    using rrd fetch_updates_dated [OF assms(2,3)] by (auto simp: pair_ok_def p effect(2) list_all_iff)
qed

lemma fetch_overdue_ok:
  "pair_ok H p \<Longrightarrow> clock_ok H env \<Longrightarrow> H < clock_limit \<Longrightarrow> keyed config \<Longrightarrow> pair_ok H (fetch_overdue F env now left interval config p)"
  by (cases p) (simp add: fetch_overdue_def fetch_remotes_ok overdue_remotes_def keyed_def sc_wf_def)

lemma cleanup_ok: "state_ok H st \<Longrightarrow> state_ok H (cleanup_removed_remotes_from_state config st)"
  by (auto simp: state_ok_def cleanup_removed_remotes_from_state_def retain_statuses_def sc_wf_def list_all_iff
      distinct_map_filter)

lemma handle_tick_ok:
  assumes "pair_ok H p" and "clock_ok H env" and "H < clock_limit" and "config_keyed config" and "fst stats \<le> H"
  shows "pair_ok H (handle_tick F env now stats config p)"
proof (cases config)
  case (Some c)
  have "pair_ok H (cleanup_removed_remotes_from_state c (fst p), snd p)"
    using assms(1) by (simp add: pair_ok_def cleanup_ok)
  then have "pair_ok H (fetch_remotes_metrics F env now c (map fst c) (cleanup_removed_remotes_from_state c (fst p), snd p))"
    using assms by (intro fetch_remotes_ok) (simp_all add: Some config_keyed_def keyed_def sc_wf_def)
  then show ?thesis
    using assms(5) by (simp add: handle_tick_def Some case_prod_beta Let_def pair_ok_def store_stats_eq FUTURE_DATAPOINT_TOLERANCE_def)
qed (use assms(1) in \<open>simp add: handle_tick_def case_prod_beta\<close>)

lemma handle_control_ok:
  "pair_ok H p \<Longrightarrow> clock_ok H env \<Longrightarrow> H < clock_limit \<Longrightarrow> config_keyed config \<Longrightarrow>
   pair_ok H (snd (handle_control_message F env now config remote p))"
  by (cases config; cases remote)
    (auto simp: handle_control_message_def case_prod_beta config_keyed_def keyed_def sc_wf_def intro!: fetch_remotes_ok)

lemma on_state_ok:
  "metric_inv H T \<Longrightarrow> (\<And>p. pair_ok H p \<Longrightarrow> pair_ok H (f p)) \<Longrightarrow> metric_inv H (on_state f T)"
proof -
  assume T: "metric_inv H T" and f: "\<And>p. pair_ok H p \<Longrightarrow> pair_ok H (f p)"
  have "pair_ok H (f (mt_state T, mt_rrd T))"
    using T by (intro f) (simp add: metric_inv_def pair_ok_def)
  with T show ?thesis
    by (simp add: metric_inv_def pair_ok_def on_state_def case_prod_beta Let_def)
qed

lemma status_ok_range: "status_ok H s \<Longrightarrow> H < clock_limit \<Longrightarrow> status_in_range s"
  by (auto simp: status_ok_def status_in_range_def i64_range_def FUTURE_DATAPOINT_TOLERANCE_def clock_limit_def split: option.splits)

lemma save_state_ok: "metric_inv H T \<Longrightarrow> H < clock_limit \<Longrightarrow> metric_inv H (save_state written T)"
proof -
  assume T: "metric_inv H T" and H: "H < clock_limit"
  then have "sc_wf (mt_state T)" and "list_all (\<lambda>(_, s). status_in_range s) (mt_state T)"
    by (auto simp: metric_inv_def state_ok_def list_all_iff dest: status_ok_range)
  then have "load_state (Parsed (state_to_json (mt_state T))) = mt_state T"
    by (simp add: load_state_def state_from_json_def state_to_json_def as_object_def statuses_roundtrip sc_wf_def)
  with T show ?thesis
    by (simp add: save_state_def metric_inv_def)
qed

lemma metric_step_inv: "metric_inv H T \<Longrightarrow> metric_step F H T U \<Longrightarrow> H < clock_limit \<Longrightarrow> metric_inv H U"
proof (erule metric_step.cases)
  assume T: "metric_inv H T" and H: "H < clock_limit"
  fix env :: "'a metric_env" and config and now and left and T'
  assume "clock_ok H env" and "config_keyed config" and U: "T = T'" "U = start_task F env now left config T'"
  moreover have "metric_inv H (T\<lparr>mt_state := load_state (mt_file T)\<rparr>)"
    using T by (simp add: metric_inv_def)
  ultimately show "metric_inv H U"
    using H
    by (cases config) (auto simp: start_task_def config_keyed_def intro!: on_state_ok fetch_overdue_ok)
next
  assume T: "metric_inv H T" and H: "H < clock_limit"
  fix now h instant cache T'
  assume now: "now \<le> H" and "T = T'"
    and U: "U = T'\<lparr>mt_rrd := snd (store_request F (fst (local_handle_tick h instant now cache)) (mt_rrd T'))\<rparr>"
  have "\<exists>m. fst (local_handle_tick h instant now cache) = Store_Host now m"
    by (simp add: local_handle_tick_def case_prod_beta Let_def)
  then show "metric_inv H U"
    using T now \<open>T = T'\<close>
    by (auto simp: U metric_inv_def store_host_eq list_all_iff FUTURE_DATAPOINT_TOLERANCE_def)
qed (auto simp: run_tick_def run_control_def intro!: save_state_ok on_state_ok handle_tick_ok handle_control_ok)

lemma metric_start_inv: "metric_start T \<Longrightarrow> metric_inv H T"
  by (simp add: metric_start_def metric_inv_def state_ok_def sc_wf_def)

interpretation metrics: invariant_system
  "\<lambda>T. H < clock_limit \<and> metric_start T" "metric_step F H" "\<lambda>T. H < clock_limit \<and> metric_inv H T"
  by unfold_locales (auto intro: metric_start_inv metric_step_inv)

section \<open>Whose metrics are written\<close>

text \<open>
  Names of metrics are relative paths of the database: empty and dot components stay in the directory, two dots lead to the
  one above, and above the root there is none.
\<close>

fun resolve :: "string list \<Rightarrow> string list \<Rightarrow> string list option" where
  "resolve dirs [] = Some (rev dirs)"
| "resolve dirs (c # cs) =
     (if c = [] \<or> c = ''.'' then resolve dirs cs
      else if c = ''..'' then (case dirs of [] \<Rightarrow> None | _ # dirs \<Rightarrow> resolve dirs cs)
      else resolve (c # dirs) cs)"

definition path_of :: "string \<Rightarrow> string list option" where
  "path_of name = resolve [] (split_char (CHR ''/'') name)"

text \<open>An update of a metric of remote \<open>i\<close>: its path lies in one of the three directories of the remote.\<close>

definition owned_by :: "string \<Rightarrow> 'f rrd_update \<Rightarrow> bool" where
  "owned_by i u \<longleftrightarrow> (case path_of (ru_name u) of
     Some (kind # j # _) \<Rightarrow> (kind = ''pve'' \<or> kind = ''pbs'' \<or> kind = ''remotes'') \<and> j = i
   | _ \<Rightarrow> False)"

text \<open>A name of a single directory, as the schema of remote ids has them.\<close>

definition directory_name :: "string \<Rightarrow> bool" where
  "directory_name i \<longleftrightarrow> i \<noteq> [] \<and> i \<noteq> ''.'' \<and> i \<noteq> ''..'' \<and> CHR ''/'' \<notin> set i"

definition stays_below :: "string \<Rightarrow> bool" where
  "stays_below name \<longleftrightarrow> ''..'' \<notin> set (split_char (CHR ''/'') name)"

lemma split_char_append: "split_char c (x @ c # y) = split_char c x @ split_char c y"
proof (induction x)
  case (Cons a x)
  then show ?case by (cases "split_char c x") simp_all
qed simp

lemma split_char_single: "c \<notin> set x \<Longrightarrow> split_char c x = [x]"
  by (induction x) auto

lemma resolve_below: "''..'' \<notin> set cs \<Longrightarrow> \<exists>below. resolve dirs cs = Some (rev dirs @ below)"
proof (induction cs arbitrary: dirs)
  case (Cons c cs)
  then have "\<exists>below. resolve dirs' cs = Some (rev dirs' @ below)" for dirs' by simp
  from this [of dirs] this [of "c # dirs"] Cons.prems show ?case by auto
qed simp

lemma path_below:
  assumes "directory_name kind" and "directory_name j" and "stays_below x"
  shows "\<exists>below. path_of (kind @ ''/'' @ j @ ''/'' @ x) = Some (kind # j # below)"
proof -
  have "split_char (CHR ''/'') (kind @ CHR ''/'' # j @ CHR ''/'' # x) = kind # j # split_char (CHR ''/'') x"
    using assms(1,2) by (simp add: split_char_append split_char_single directory_name_def)
  then have "path_of (kind @ ''/'' @ j @ ''/'' @ x) = resolve [j, kind] (split_char (CHR ''/'') x)"
    using assms(1,2) by (simp add: path_of_def directory_name_def)
  then show ?thesis
    using resolve_below [of "split_char (CHR ''/'') x" "[j, kind]"] assms(3) by (simp add: stays_below_def)
qed

lemma stays_below_append: "stays_below (x @ ''/'' @ y) \<longleftrightarrow> stays_below x \<and> stays_below y"
  by (simp add: stays_below_def split_char_append)

lemma owned_names:
  assumes "directory_name j" and "stays_below x"
  shows "ru_name u = ''pve'' @ ''/'' @ j @ ''/'' @ x \<Longrightarrow> owned_by i u \<longleftrightarrow> i = j"
    and "ru_name u = ''pbs'' @ ''/'' @ j @ ''/'' @ x \<Longrightarrow> owned_by i u \<longleftrightarrow> i = j"
    and "ru_name u = ''remotes'' @ ''/'' @ j @ ''/'' @ x \<Longrightarrow> owned_by i u \<longleftrightarrow> i = j"
proof -
  have kind: "directory_name ''pve''" "directory_name ''pbs''" "directory_name ''remotes''" by code_simp+
  show "ru_name u = ''pve'' @ ''/'' @ j @ ''/'' @ x \<Longrightarrow> owned_by i u \<longleftrightarrow> i = j"
    using path_below [OF kind(1) assms] by (auto simp: owned_by_def)
  show "ru_name u = ''pbs'' @ ''/'' @ j @ ''/'' @ x \<Longrightarrow> owned_by i u \<longleftrightarrow> i = j"
    using path_below [OF kind(2) assms] by (auto simp: owned_by_def)
  show "ru_name u = ''remotes'' @ ''/'' @ j @ ''/'' @ x \<Longrightarrow> owned_by i u \<longleftrightarrow> i = j"
    using path_below [OF kind(3) assms] by (auto simp: owned_by_def)
qed

definition kind_dir :: "remote_type \<Rightarrow> string" where
  "kind_dir ty = (case ty of Remote_Pve \<Rightarrow> ''pve'' | Remote_Pbs \<Rightarrow> ''pbs'')"

text \<open>The update for one point: none for a type of metric that is not known.\<close>

definition point_update :: "string \<Rightarrow> 'f data_point \<Rightarrow> 'f rrd_update option" where
  "point_update dir p =
     map_option (\<lambda>ty. \<lparr>ru_name = dir @ ''/'' @ dp_id p @ ''/'' @ dp_metric p, ru_value = dp_value p, ru_timestamp = dp_timestamp p,
         ru_type = ty\<rparr>)
       (case dp_ty p of Mt_Gauge \<Rightarrow> Some Dst_Gauge | Mt_Counter \<Rightarrow> Some Dst_Counter | Mt_Derive \<Rightarrow> Some Dst_Derive | Mt_Unknown _ \<Rightarrow> None)"

text \<open>The updates for an answer: one for each point not dated more than a minute after the request, and the response time.\<close>

definition answer_updates :: "remote_type \<Rightarrow> string \<Rightarrow> 'f data_point list \<Rightarrow> 'f \<Rightarrow> i64 \<Rightarrow> 'f rrd" where
  "answer_updates ty i data duration now =
     List.map_filter (point_update (kind_dir ty @ ''/'' @ i)) (filter (\<lambda>p. dp_timestamp p \<le> now + 60) data)
     @ [\<lparr>ru_name = ''remotes/'' @ i @ ''/metric-collection-response-time'', ru_value = duration, ru_timestamp = now,
         ru_type = Dst_Gauge\<rparr>]"

definition stored_for :: "'f metric_env \<Rightarrow> remote \<Rightarrow> remote_status \<Rightarrow> 'f rrd" where
  "stored_for env r s =
     (case me_metrics env r (rs_most_recent_datapoint s) of
        Inl _ \<Rightarrow> []
      | Inr data \<Rightarrow>
          (case me_store_lost env (r_id r) of
             Some _ \<Rightarrow> []
           | None \<Rightarrow> answer_updates (r_ty r) (r_id r) data (me_duration env (r_id r)) (me_now env (r_id r))))"

lemma metric_point:
  "store_metric_pve j p [] = (case point_update (''pve/'' @ j) p of None \<Rightarrow> [] | Some u \<Rightarrow> [u])"
  "store_metric_pbs j p [] = (case point_update (''pbs/'' @ j) p of None \<Rightarrow> [] | Some u \<Rightarrow> [u])"
  by (simp_all add: store_metric_pve_def store_metric_pbs_def point_update_def source_type_def update_value_def pve_name_def
      pbs_name_def split: metric_type.split)

lemma concat_options: "concat (map (\<lambda>p. case f p of None \<Rightarrow> [] | Some u \<Rightarrow> [u]) ps) = List.map_filter f ps"
  by (induction ps) (simp_all add: map_filter_simps split: option.split)

lemma request_updates:
  assumes "remote_request env r s = Inr req" and "0 \<le> me_now env (r_id r)" and "me_now env (r_id r) < clock_limit"
  shows "snd (store_request F req []) = stored_for env r s"
proof -
  have "kept_points (me_now env (r_id r)) data = filter (\<lambda>p. dp_timestamp p \<le> me_now env (r_id r) + 60) data"
    for data :: "'a data_point list"
    using cutoff [OF assms(2,3)] by (simp add: kept_points_def FUTURE_DATAPOINT_TOLERANCE_def)
  then show ?thesis
    using assms(1)
    by (cases "r_ty r")
      (auto simp: remote_request_def store_pve_eq store_pbs_eq metric_point concat_options stored_for_def answer_updates_def
        kind_dir_def store_response_time_def response_time_name_def update_value_def split: sum.splits option.splits)
qed

text \<open>The names an answer uses stay below the directory of the remote.\<close>

definition plain_answer :: "'f metric_env \<Rightarrow> remote \<Rightarrow> remote_status \<Rightarrow> bool" where
  "plain_answer env r s \<longleftrightarrow>
     (case me_metrics env r (rs_most_recent_datapoint s) of
        Inl _ \<Rightarrow> True | Inr data \<Rightarrow> list_all (\<lambda>p. stays_below (dp_id p) \<and> stays_below (dp_metric p)) data)"

lemma answer_owner:
  assumes "directory_name j" and "list_all (\<lambda>p. stays_below (dp_id p) \<and> stays_below (dp_metric p)) data"
    and "u \<in> set (answer_updates ty j data d now)"
  shows "owned_by i u \<longleftrightarrow> i = j"
proof -
  have r: "stays_below ''metric-collection-response-time''" by code_simp
  consider p where "p \<in> set data" "ru_name u = kind_dir ty @ ''/'' @ j @ ''/'' @ dp_id p @ ''/'' @ dp_metric p"
    | "ru_name u = ''remotes'' @ ''/'' @ j @ ''/'' @ ''metric-collection-response-time''"
    using assms(3) by (auto simp: answer_updates_def set_map_filter point_update_def)
  then show ?thesis
  proof cases
    case 1
    then have "stays_below (dp_id p @ ''/'' @ dp_metric p)"
      using assms(2) unfolding stays_below_append by (simp add: list_all_iff)
    then show ?thesis
      using owned_names(1,2) [OF assms(1)] 1(2) by (cases ty) (simp_all only: kind_dir_def remote_type.case)
  qed (rule owned_names(3) [OF assms(1) r])
qed

lemma stored_owner:
  "directory_name (r_id r) \<Longrightarrow> plain_answer env r s \<Longrightarrow> u \<in> set (stored_for env r s) \<Longrightarrow> owned_by i u \<longleftrightarrow> i = r_id r"
  by (auto simp: stored_for_def plain_answer_def answer_owner split: sum.splits option.splits)

lemma filter_concat_key:
  assumes "distinct (map fst xs)" and "\<And>k x u. (k, x) \<in> set xs \<Longrightarrow> u \<in> set (g x) \<Longrightarrow> P u \<longleftrightarrow> k = i"
  shows "filter P (concat (map (\<lambda>(k, x). g x) xs)) = (case map_of xs i of None \<Rightarrow> [] | Some x \<Rightarrow> g x)"
  using assms
proof (induction xs)
  case (Cons p xs)
  obtain k x where p: "p = (k, x)" by (cases p)
  have IH: "filter P (concat (map (\<lambda>(k, x). g x) xs)) = (case map_of xs i of None \<Rightarrow> [] | Some x \<Rightarrow> g x)"
    by (rule Cons.IH) (use Cons.prems in auto)
  have "filter P (g x) = (if k = i then g x else [])"
    using Cons.prems(2) [of k x] by (auto simp: p filter_id_conv filter_empty_conv)
  moreover have "k = i \<Longrightarrow> map_of xs i = None"
    using Cons.prems(1) by (auto simp: p map_of_eq_None_iff)
  ultimately show ?case by (auto simp: p IH)
qed simp

lemma option_ext: "(\<And>x. a = Some x \<longleftrightarrow> b = Some x) \<Longrightarrow> a = b"
  by (metis not_None_eq)

lemma map_of_arrived:
  assumes "keyed config" and "distinct names"
  shows "map_of (arrived_requests env (spawned now config st names)) i =
     (case sc_get config i of
        Some r \<Rightarrow> if i \<in> set names \<and> \<not> recent_enough now (status_of st i)
                  then result_ok (remote_request env r (status_of st i)) else None
      | None \<Rightarrow> None)" (is "map_of ?reqs i = ?rhs")
proof (rule option_ext)
  fix req
  have "map_of ?reqs i = Some req \<longleftrightarrow> (i, req) \<in> set ?reqs"
    using distinct_requests [OF spawned_distinct [OF assms]] by (rule map_of_eq_Some_iff)
  also have "\<dots> \<longleftrightarrow>
      (\<exists>r. sc_get config i = Some r \<and> i \<in> set names \<and> \<not> recent_enough now (status_of st i)
        \<and> remote_request env r (status_of st i) = Inr req)"
    unfolding requests_set spawned_set using keyed_id [OF assms(1)] by metis
  also have "\<dots> \<longleftrightarrow> ?rhs = Some req"
    by (auto simp: result_ok_def split: option.split sum.split)
  finally show "map_of ?reqs i = Some req \<longleftrightarrow> ?rhs = Some req" .
qed

text \<open>C38. A run of fetches appends to the metrics of a remote, found by the directory that their names lead to, exactly one value
  for every point this remote answered with, except for points dated more than a minute after the request and points of an
  unknown type, and its response time: each under the name of its id and metric, with its value, timestamp and type. It
  appends nothing for a remote that was not asked, did not answer or whose answer could not be handed to the store task,
  and what other remotes answer never lands there. No remote is named twice, remote ids are names of single directories, the clock is between the
  epoch and 2 to the power of 62, and no answered id or metric name has a component of two dots, which the code does not
  check.\<close>

theorem remote_metrics_separate:
  assumes "keyed config" and "distinct names" and "list_all (\<lambda>(j, _). directory_name j) config"
    and "\<And>j. 0 \<le> me_now env j \<and> me_now env j < clock_limit"
    and "list_all (\<lambda>(j, r). plain_answer env r (status_of st j)) config"
  shows "filter (owned_by i) (snd (fetch_remotes_metrics F env now config names (st, rrd))) =
     filter (owned_by i) rrd
     @ (case sc_get config i of
          None \<Rightarrow> []
        | Some r \<Rightarrow>
            if i \<in> set names \<and> \<not> recent_enough now (status_of st i)
            then (case me_metrics env r (rs_most_recent_datapoint (status_of st i)) of
                    Inl _ \<Rightarrow> []
                  | Inr data \<Rightarrow> (case me_store_lost env i of
                      Some _ \<Rightarrow> []
                    | None \<Rightarrow>
                        List.map_filter (point_update (kind_dir (r_ty r) @ ''/'' @ i)) (filter (\<lambda>p. dp_timestamp p \<le> me_now env i + 60) data)
                        @ [\<lparr>ru_name = ''remotes/'' @ i @ ''/metric-collection-response-time'', ru_value = me_duration env i,
                            ru_timestamp = me_now env i, ru_type = Dst_Gauge\<rparr>]))
            else [])"
proof -
  let ?reqs = "arrived_requests env (spawned now config st names)"
  have stored: "snd (store_request F req []) = stored_for env r s" if "remote_request env r s = Inr req" for r s req
    using that assms(4) by (intro request_updates) auto
  have "filter (owned_by i) (fetch_updates F env (spawned now config st names)) =
      (case map_of ?reqs i of None \<Rightarrow> [] | Some req \<Rightarrow> snd (store_request F req []))"
    unfolding fetch_updates_def
  proof (rule filter_concat_key)
    show "distinct (map fst ?reqs)"
      by (rule distinct_requests [OF spawned_distinct [OF assms(1,2)]])
    fix k req u
    assume "(k, req) \<in> set ?reqs" and u: "u \<in> set (snd (store_request F req []))"
    then obtain r s where r: "(r, s) \<in> set (spawned now config st names)" "k = r_id r" "remote_request env r s = Inr req"
      by (auto simp: requests_set)
    then have "sc_get config k = Some r" and s: "s = status_of st k"
      using keyed_id [OF assms(1)] by (auto simp: spawned_set)
    then have "directory_name k" and "plain_answer env r (status_of st k)"
      using assms(3,5) by (auto simp: list_all_iff sc_get_def dest: map_of_SomeD)
    then show "owned_by i u \<longleftrightarrow> k = i"
      using stored_owner [of r env s u i] u r(2) s by (auto simp: stored [OF r(3)])
  qed
  also have "\<dots> = (case sc_get config i of
      Some r \<Rightarrow> if i \<in> set names \<and> \<not> recent_enough now (status_of st i) then stored_for env r (status_of st i) else []
    | None \<Rightarrow> [])"
    unfolding map_of_arrived [OF assms(1,2)]
    by (auto simp: result_ok_def stored_for_def remote_request_def stored split: option.split sum.splits)
  finally show ?thesis
    unfolding fetch_remotes_effect(2) [OF assms(1,2)]
    using keyed_id [OF assms(1), of i] by (auto simp: stored_for_def answer_updates_def split: option.split sum.split)
qed

text \<open>An id with a component of two dots leads out of the directory of the remote that answered with it.\<close>

theorem dotdot_id_lands_elsewhere:
  assumes "directory_name j" and "directory_name i" and "stays_below x" and "dp_id p = ''../'' @ i @ ''/'' @ x" and "stays_below (dp_metric p)"
    and "u \<in> set (store_metric_pve j p [])"
  shows "owned_by i u"
proof -
  have "ru_name u = ''pve/'' @ j @ ''/../'' @ i @ ''/'' @ x @ ''/'' @ dp_metric p"
    using assms(4,6) by (auto simp: metric_point point_update_def split: option.splits)
  moreover have "split_char (CHR ''/'') (''pve'' @ CHR ''/'' # j @ CHR ''/'' # ''..'' @ CHR ''/'' # i @ CHR ''/'' # x @ CHR ''/'' # dp_metric p)
      = ''pve'' # j # ''..'' # i # split_char (CHR ''/'') (x @ ''/'' @ dp_metric p)"
    using assms(1,2) by (simp only: split_char_append) (simp add: split_char_append split_char_single directory_name_def)
  ultimately have "path_of (ru_name u) = resolve [i, ''pve''] (split_char (CHR ''/'') (x @ ''/'' @ dp_metric p))"
    using assms(1,2) by (simp add: path_of_def directory_name_def)
  moreover have "''..'' \<notin> set (split_char (CHR ''/'') (x @ ''/'' @ dp_metric p))"
    using assms(3,5) stays_below_append [of x "dp_metric p"] by (simp add: stays_below_def)
  ultimately show ?thesis
    using resolve_below [of "split_char (CHR ''/'') (x @ ''/'' @ dp_metric p)" "[i, ''pve'']"] by (auto simp: owned_by_def)
qed

section \<open>What remotes are asked\<close>

text \<open>The latest time from which a remote may be asked for metrics: a minute after its last collection, or its whole history.\<close>

definition asked_until :: "metric_state \<Rightarrow> string \<Rightarrow> i64" where
  "asked_until st i = (case rs_last_collection (status_of st i) of None \<Rightarrow> 0 | Some t \<Rightarrow> t + FUTURE_DATAPOINT_TOLERANCE)"

text \<open>Two ways in which remotes may answer that agree on every time from which they may be asked.\<close>

definition agree_when_asked :: "metric_state \<Rightarrow> (remote \<Rightarrow> i64 \<Rightarrow> 'a) \<Rightarrow> (remote \<Rightarrow> i64 \<Rightarrow> 'a) \<Rightarrow> bool" where
  "agree_when_asked st answers answers' \<longleftrightarrow>
     (\<forall>r t. 0 \<le> t \<and> t \<le> asked_until st (r_id r) \<longrightarrow> answers r t = answers' r t)"

lemma remote_request_asks:
  "answers r (rs_most_recent_datapoint s) = me_metrics env r (rs_most_recent_datapoint s) \<Longrightarrow>
   remote_request (env\<lparr>me_metrics := answers\<rparr>) r s = remote_request env r s"
  by (simp add: remote_request_def split: sum.split option.split remote_type.split)

lemma map_filter_cong: "(\<And>x. x \<in> set xs \<Longrightarrow> f x = g x) \<Longrightarrow> List.map_filter f xs = List.map_filter g xs"
  by (induction xs) (simp_all add: map_filter_simps split: option.split)

lemma fetch_asks:
  assumes "\<And>r s. (r, s) \<in> set (spawned now config st names) \<Longrightarrow>
      answers r (rs_most_recent_datapoint s) = me_metrics env r (rs_most_recent_datapoint s)"
  shows "fetch_remotes_metrics F (env\<lparr>me_metrics := answers\<rparr>) now config names (st, rrd)
       = fetch_remotes_metrics F env now config names (st, rrd)"
proof -
  let ?env = "env\<lparr>me_metrics := answers\<rparr>"
  have req: "(r, s) \<in> set (spawned now config st names) \<Longrightarrow> remote_request ?env r s = remote_request env r s" for r s
    using assms by (intro remote_request_asks)
  have arrived: "arrived_requests ?env (spawned now config st names) = arrived_requests env (spawned now config st names)"
    unfolding arrived_requests_def by (simp, rule map_filter_cong) (auto simp: req)
  obtain replies rrd' where serve: "serve_requests F (arrived_requests env (spawned now config st names)) rrd = (replies, rrd')" by fastforce
  have "fetch_single_remote ?env replies r s = fetch_single_remote env replies r s" if "(r, s) \<in> set (spawned now config st names)" for r s
    using req [OF that] by (simp add: fetch_single_remote_def split: sum.split option.split)
  then have "map (\<lambda>(r, s). fetch_single_remote ?env replies r s) (sort_key (\<lambda>(r, s). me_done_rank ?env (r_id r)) (spawned now config st names))
      = map (\<lambda>(r, s). fetch_single_remote env replies r s) (sort_key (\<lambda>(r, s). me_done_rank env (r_id r)) (spawned now config st names))"
    by (intro map_cong) auto
  then show ?thesis
    unfolding fetch_remotes_metrics_def Let_def prod.case arrived serve by (simp only:)
qed

lemma status_asked: "status_ok H (status_of st i) \<Longrightarrow>
    0 \<le> rs_most_recent_datapoint (status_of st i) \<and> rs_most_recent_datapoint (status_of st i) \<le> asked_until st i"
  by (simp add: status_ok_def asked_until_def split: option.splits)

lemma agreeing_fetch:
  assumes "state_ok H st" and "keyed config" and "agree_when_asked st answers (me_metrics env)"
    and "\<And>i. sc_get config i \<noteq> None \<Longrightarrow> status_of st' i = status_of st i"
  shows "fetch_remotes_metrics F (env\<lparr>me_metrics := answers\<rparr>) now config names (st', rrd)
       = fetch_remotes_metrics F env now config names (st', rrd)"
proof (rule fetch_asks)
  fix r s
  assume "(r, s) \<in> set (spawned now config st' names)"
  then obtain i where i: "sc_get config i = Some r" "s = status_of st i"
    using assms(4) by (auto simp: spawned_set)
  then show "answers r (rs_most_recent_datapoint s) = me_metrics env r (rs_most_recent_datapoint s)"
    using assms(3) keyed_id [OF assms(2) i(1)] status_asked [OF status_of_ok [OF assms(1)], of i]
    by (simp add: agree_when_asked_def)
qed

lemma status_after_cleanup:
  "sc_get config i \<noteq> None \<Longrightarrow> status_of (cleanup_removed_remotes_from_state config st) i = status_of st i"
  by (simp add: status_of_def get_remote_status_def cleanup_removed_remotes_from_state_def get_retain)

text \<open>C36. In every reachable state of the metric collection, restarts and failed writes included, every stored value is dated at
  most a minute after the latest reading H of the clock, whatever timestamps the remotes answer. A remote is never asked
  for metrics since a time before the epoch or more than a minute after its last successful collection, and one without a
  successful collection is only asked for its whole history: a tick and a triggered collection give the same statuses, file
  and stored values for any two ways of answering that agree on those times, and so does a restart, with the collections
  that the file records. The clock stays between the epoch and H, below 2 to the power of 62, and remotes are configured
  under their ids.\<close>

theorem metrics_reachable_bounded:
  assumes "H < clock_limit" and "metric_start T" and "(metric_step F H)\<^sup>*\<^sup>* T U" and "config_keyed config"
  shows "list_all (\<lambda>u. ru_timestamp u \<le> H + FUTURE_DATAPOINT_TOLERANCE) (mt_rrd U)
     \<and> (agree_when_asked (mt_state U) answers (me_metrics env) \<longrightarrow>
          run_tick F (env\<lparr>me_metrics := answers\<rparr>) now stats config written U = run_tick F env now stats config written U
        \<and> run_control F (env\<lparr>me_metrics := answers\<rparr>) now config remote written U = run_control F env now config remote written U)
     \<and> (agree_when_asked (load_state (mt_file U)) answers (me_metrics env) \<longrightarrow>
          start_task F (env\<lparr>me_metrics := answers\<rparr>) now left config U = start_task F env now left config U)"
proof (intro conjI impI)
  have "H < clock_limit \<and> metric_inv H U"
    by (rule metrics.reachable_inv [OF _ assms(3)]) (use assms(1,2) in simp)
  then have st: "state_ok H (mt_state U)" and saved: "state_ok H (load_state (mt_file U))"
    and rrd: "list_all (\<lambda>u. ru_timestamp u \<le> H + FUTURE_DATAPOINT_TOLERANCE) (mt_rrd U)" by (simp_all add: metric_inv_def)
  show "list_all (\<lambda>u. ru_timestamp u \<le> H + FUTURE_DATAPOINT_TOLERANCE) (mt_rrd U)" by (rule rrd)
  have keyed: "keyed c" if "config = Some c" for c using assms(4) that by (simp add: config_keyed_def)
  show "run_tick F (env\<lparr>me_metrics := answers\<rparr>) now stats config written U = run_tick F env now stats config written U"
    if "agree_when_asked (mt_state U) answers (me_metrics env)"
    using agreeing_fetch [OF st keyed that status_after_cleanup]
    by (cases config) (simp_all add: run_tick_def on_state_def handle_tick_def)
  show "run_control F (env\<lparr>me_metrics := answers\<rparr>) now config remote written U = run_control F env now config remote written U"
    if "agree_when_asked (mt_state U) answers (me_metrics env)"
    using agreeing_fetch [OF st keyed that]
    by (cases config) (simp_all add: run_control_def on_state_def handle_control_message_def)
  show "start_task F (env\<lparr>me_metrics := answers\<rparr>) now left config U = start_task F env now left config U"
    if "agree_when_asked (load_state (mt_file U)) answers (me_metrics env)"
    using agreeing_fetch [OF saved keyed that]
    by (cases config) (simp_all add: start_task_def on_state_def fetch_overdue_def)
qed

section \<open>Concrete runs\<close>

definition ex_floats :: "nat floats" where
  "ex_floats = \<lparr>fl_zero = 0, fl_of_u64 = id, fl_add = (+), fl_mul = (*), fl_div = (div), fl_finite = (\<lambda>_. True),
     fl_positive = (\<lambda>x. 0 < x), fl_round_usize = id\<rparr>"

definition ex_point :: "i64 \<Rightarrow> nat data_point" where
  "ex_point t = \<lparr>dp_id = ''node/a'', dp_metric = ''cpu_current'', dp_timestamp = t, dp_ty = Mt_Gauge, dp_value = 3\<rparr>"

text \<open>The first remote answers with a point from the future among others, the second is down.\<close>

definition mc_env0 :: "nat metric_env" where
  "mc_env0 = \<lparr>me_now = (\<lambda>_. 1000),
     me_metrics = (\<lambda>r since. if r_id r = ''a'' then Inr [ex_point 900, ex_point 5000, ex_point 990] else Inl ''down''),
     me_duration = (\<lambda>_. 5), me_store_lost = (\<lambda>_. None), me_sent_rank = (\<lambda>_. 0), me_done_rank = (\<lambda>i. length i)\<rparr>"

definition mc_remote0 :: "string \<Rightarrow> remote" where
  "mc_remote0 i = \<lparr>r_ty = Remote_Pve, r_id = i, r_nodes = [], r_authid = [], r_token = [], r_web_url = None\<rparr>"

definition ex_config :: "remote section_config" where
  "ex_config = [(''a'', mc_remote0 ''a''), (''bb'', mc_remote0 ''bb'')]"

definition mc_task0 :: "nat metric_task" where
  "mc_task0 = \<lparr>mt_state = [], mt_file = No_File, mt_rrd = []\<rparr>"

definition mc_state0 :: metric_state where
  "mc_state0 = [(''a'', \<lparr>rs_most_recent_datapoint = 990, rs_last_collection = Some 1000, rs_error = None\<rparr>),
     (''bb'', default_status\<lparr>rs_error := Some ''down''\<rparr>)]"

lemma ex_keyed: "keyed ex_config"
  by code_simp

theorem tick_statuses_exact_witness:
  "get_remote_status (fst (handle_tick ex_floats mc_env0 1000 (1001, 1) (Some ex_config) ([(''old'', default_status)], []))) ''old'' = None
   \<and> get_remote_status (fst (handle_tick ex_floats mc_env0 1000 (1001, 1) (Some ex_config) ([(''old'', default_status)], []))) ''a''
     = Some \<lparr>rs_most_recent_datapoint = 990, rs_last_collection = Some 1000, rs_error = None\<rparr>
   \<and> get_remote_status (fst (handle_tick ex_floats mc_env0 1000 (1001, 1) (Some ex_config) ([(''old'', default_status)], []))) ''bb''
     = Some (default_status\<lparr>rs_error := Some ''down''\<rparr>)"
  unfolding tick_statuses_exact [OF ex_keyed] by code_simp

theorem remote_metrics_separate_witness:
  "filter (owned_by ''a'') (snd (fetch_remotes_metrics ex_floats mc_env0 1000 ex_config [''a'', ''bb''] ([], [])))
     = [\<lparr>ru_name = ''pve/a/node/a/cpu_current'', ru_value = 3, ru_timestamp = 900, ru_type = Dst_Gauge\<rparr>,
        \<lparr>ru_name = ''pve/a/node/a/cpu_current'', ru_value = 3, ru_timestamp = 990, ru_type = Dst_Gauge\<rparr>,
        \<lparr>ru_name = ''remotes/a/metric-collection-response-time'', ru_value = 5, ru_timestamp = 1000, ru_type = Dst_Gauge\<rparr>]
   \<and> filter (owned_by ''bb'') (snd (fetch_remotes_metrics ex_floats mc_env0 1000 ex_config [''a'', ''bb''] ([], []))) = []"
proof -
  have d: "distinct [''a'', ''bb'']" and l: "list_all (\<lambda>(j, _). directory_name j) ex_config"
    and pl: "list_all (\<lambda>(j, r). plain_answer mc_env0 r (status_of [] j)) ex_config"
    by code_simp+
  have n: "0 \<le> me_now mc_env0 j \<and> me_now mc_env0 j < clock_limit" for j
    by (simp add: mc_env0_def clock_limit_def)
  show ?thesis
    unfolding remote_metrics_separate [OF ex_keyed d l n pl] by code_simp
qed

theorem metric_state_roundtrip_witness: "load_state (Parsed (state_to_json mc_state0)) = mc_state0"
  by (rule metric_state_roundtrip) code_simp+

definition ex_ticked :: "nat metric_task" where
  "ex_ticked = run_tick ex_floats mc_env0 1000 (1001, 1) (Some ex_config) True mc_task0"

lemma ex_ticked_reached: "(metric_step ex_floats 2000)\<^sup>*\<^sup>* mc_task0 ex_ticked"
  unfolding ex_ticked_def
  by (rule r_into_rtranclp, rule metric_step.tick) (simp_all add: clock_ok_def mc_env0_def config_keyed_def ex_keyed)

text \<open>After the tick the first remote may be asked for times up to 1060 and the second only for its whole history: what they would
  answer otherwise does not matter to the next tick.\<close>

definition ex_evasive :: "remote \<Rightarrow> i64 \<Rightarrow> string + nat data_point list" where
  "ex_evasive r t = (if t < 0 \<or> (if r_id r = ''a'' then 1060 < t else 0 < t) then Inl ''not asked'' else me_metrics mc_env0 r t)"

theorem metrics_reachable_bounded_witness:
  "list_all (\<lambda>u. ru_timestamp u \<le> 2000 + FUTURE_DATAPOINT_TOLERANCE) (mt_rrd ex_ticked)
   \<and> run_tick ex_floats (mc_env0\<lparr>me_metrics := ex_evasive\<rparr>) 1500 (1501, 1) (Some ex_config) True ex_ticked
     = run_tick ex_floats mc_env0 1500 (1501, 1) (Some ex_config) True ex_ticked"
proof -
  have H: "(2000::i64) < clock_limit" and start: "metric_start mc_task0" and k: "config_keyed (Some ex_config)"
    by (simp_all add: clock_limit_def metric_start_def mc_task0_def load_state_def config_keyed_def ex_keyed)
  have st: "mt_state ex_ticked = mc_state0" by code_simp
  have "asked_until mc_state0 i = (if i = ''a'' then 1060 else 0)" for i
    by (simp add: asked_until_def status_of_def get_remote_status_def mc_state0_def sc_get_def default_status_def
        FUTURE_DATAPOINT_TOLERANCE_def)
  then have "agree_when_asked (mt_state ex_ticked) ex_evasive (me_metrics mc_env0)"
    by (simp add: st agree_when_asked_def ex_evasive_def)
  then show ?thesis
    using metrics_reachable_bounded [OF H start ex_ticked_reached k, of ex_evasive mc_env0 1500 "(1501, 1)" True] by simp
qed

text \<open>A remote that answers with no new point at all is asked for its whole history the next time: its cursor goes back to
  zero, however recent its last point was.\<close>

theorem empty_answer_resets_cursor:
  assumes "keyed config" and "sc_get config i = Some r" and "\<not> recent_enough now (status_of st i)"
    and "me_metrics env r (rs_most_recent_datapoint (status_of st i)) = Inr []" and "me_store_lost env (r_id r) = None"
  shows "map_option rs_most_recent_datapoint (get_remote_status (fst (handle_tick F env now stats (Some config) (st, rrd))) i) = Some 0"
proof -
  let ?p = "(cleanup_removed_remotes_from_state config st, rrd)"
  have i: "i \<in> set (map fst config)" and d: "distinct (map fst config)"
    using assms(1,2) by (force simp: keyed_def sc_wf_def sc_get_def dest: map_of_SomeD)+
  have "status_of (fst ?p) i = status_of st i"
    using assms(2) by (simp add: status_of_def get_remote_status_def cleanup_removed_remotes_from_state_def get_retain)
  then have "sc_get (fst (fetch_remotes_metrics F env now config (map fst config) ?p)) i = Some (collected env r (status_of st i))"
    using fetch_remotes_effect(1) [OF assms(1) d, of F env now "fst ?p" rrd i] assms(2,3) i by simp
  moreover have "rs_most_recent_datapoint (collected env r (status_of st i)) = 0"
    using assms(4,5) by (simp add: collected_def latest_def kept_points_def)
  ultimately show ?thesis
    by (simp add: handle_tick_def Let_def case_prod_beta get_remote_status_def)
qed

theorem empty_answer_resets_cursor_witness:
  "map_option rs_most_recent_datapoint (get_remote_status (fst (handle_tick ex_floats
     (mc_env0\<lparr>me_metrics := \<lambda>_ _. Inr []\<rparr>) 2000 (2001, 1) (Some ex_config) (mc_state0, []))) ''a'') = Some 0"
  by (rule empty_answer_resets_cursor [OF ex_keyed]) code_simp+

end
