(* ===== verification/Top_Entities.thy ===== *)
theory Top_Entities
  imports Metric_Store Resource_List
begin

text \<open>
  The entities with the highest load: \<open>server/src/metric_collection/top_entities.rs\<close> and its handler in
  \<open>server/src/api/resources.rs\<close>. The remotes come in the arbitrary order of a hash map; the cached resources of a remote
  are a parameter.
\<close>

text \<open>\<open>binary_search_by_key\<close> between two bounds: a position of the key, or the one where it is to be inserted.\<close>

function key_index :: "(nat \<times> 'a) list \<Rightarrow> nat \<Rightarrow> nat \<Rightarrow> nat \<Rightarrow> nat" where
  "key_index vec key lo hi =
     (if hi \<le> lo then lo
      else let mid = (lo + hi) div 2
           in if fst (vec ! mid) = key then mid
              else if fst (vec ! mid) < key then key_index vec key (Suc mid) hi
              else key_index vec key lo mid)"
  by pat_completeness auto

termination key_index
  by (relation "measure (\<lambda>(vec, key, lo, hi). hi - lo)") auto

declare key_index.simps [simp del]

definition insert_sorted :: "nat \<Rightarrow> nat \<times> 'a \<Rightarrow> (nat \<times> 'a) list \<Rightarrow> (nat \<times> 'a) list" where
  "insert_sorted limit value vec =
     (let index = key_index vec (fst value) 0 (length vec);
          vec = take index vec @ value # drop index vec
      in if length vec > limit then drop (length vec - limit) vec else vec)"

definition calculate_coefficient :: "'f floats \<Rightarrow> 'f rrd_entry \<Rightarrow> 'f" where
  "calculate_coefficient F entry =
     fold (\<lambda>point coefficient.
       let v = (case point of None \<Rightarrow> fl_zero F | Some v \<Rightarrow> v)
       in if fl_finite F v then fl_add F coefficient v else coefficient) (re_data entry) (fl_zero F)"

record 'f top_entity =
  te_remote :: string
  te_resource :: resource
  te_rrd_data :: "'f rrd_entry"

record 'f top_entities =
  tp_guest_cpu :: "'f top_entity list"
  tp_node_cpu :: "'f top_entity list"
  tp_node_memory :: "'f top_entity list"

text \<open>How a metric is read: directory and name, over the chosen time frame.\<close>

type_synonym 'f metric_reader = "string \<Rightarrow> string \<Rightarrow> string + 'f rrd_entry option"

definition get_entity :: "'f floats \<Rightarrow> 'f metric_reader \<Rightarrow> string \<Rightarrow> resource \<Rightarrow> string \<Rightarrow> string \<Rightarrow> ('f \<times> 'f top_entity) option" where
  "get_entity F read remote_name res name metric =
     (case read name metric of
        Inr (Some values) \<Rightarrow>
          (let coefficient = calculate_coefficient F values
           in if fl_positive F coefficient
              then Some (coefficient, \<lparr>te_remote = remote_name, te_resource = res, te_rrd_data = values\<rparr>) else None)
      | _ \<Rightarrow> None)"

definition percent :: "'f floats \<Rightarrow> 'f \<Rightarrow> nat" where
  "percent F c = fl_round_usize F (fl_mul F c (fl_of_u64 F 100))"

type_synonym 'f ranking = "(nat \<times> 'f top_entity) list"

definition memory_usage :: "'f floats \<Rightarrow> 'f option list \<Rightarrow> 'f option list \<Rightarrow> 'f option list" where
  "memory_usage F mem_rrd mem_total_rrd =
     map2 (\<lambda>m t. case (m, t) of (Some m, Some t) \<Rightarrow> Some (fl_div F m t) | _ \<Rightarrow> None) mem_rrd mem_total_rrd"

definition node_memory_entity ::
  "'f floats \<Rightarrow> 'f metric_reader \<Rightarrow> string \<Rightarrow> resource \<Rightarrow> string \<Rightarrow> (nat \<times> 'f top_entity) option" where
  "node_memory_entity F read remote_name res name =
     (case get_entity F read remote_name res name ''mem_used'' of
        None \<Rightarrow> None
      | Some (mem, entity) \<Rightarrow>
          (case get_entity F read remote_name res name ''mem_total'' of
             None \<Rightarrow> None
           | Some (mem_total, total_entity) \<Rightarrow>
               (let mem_rrd = re_data (te_rrd_data entity); mem_total_rrd = re_data (te_rrd_data total_entity)
                in if length mem_rrd \<noteq> length mem_total_rrd then None
                   else Some (fl_round_usize F (fl_div F (fl_mul F (fl_of_u64 F 100) mem) mem_total),
                          entity\<lparr>te_rrd_data := (te_rrd_data entity)\<lparr>re_data := memory_usage F mem_rrd mem_total_rrd\<rparr>\<rparr>))))"

definition cpu_entity ::
  "'f floats \<Rightarrow> 'f metric_reader \<Rightarrow> string \<Rightarrow> resource \<Rightarrow> string \<Rightarrow> (nat \<times> 'f top_entity) option" where
  "cpu_entity F read remote_name res name =
     map_option (\<lambda>(c, entity). (percent F c, entity)) (get_entity F read remote_name res name ''cpu_current'')"

definition rank :: "nat \<Rightarrow> (nat \<times> 'f top_entity) option \<Rightarrow> 'f ranking \<Rightarrow> 'f ranking" where
  "rank num entity vec = (case entity of None \<Rightarrow> vec | Some e \<Rightarrow> insert_sorted num e vec)"

definition rank_resource ::
  "'f floats \<Rightarrow> 'f metric_reader \<Rightarrow> nat \<Rightarrow> string \<Rightarrow> remote \<Rightarrow> resource \<Rightarrow>
   'f ranking \<times> 'f ranking \<times> 'f ranking \<Rightarrow> 'f ranking \<times> 'f ranking \<times> 'f ranking" where
  "rank_resource F read num remote_name remote res = (\<lambda>(guest_cpu, node_cpu, node_memory).
     let name = ''pve/'' @ remote_name @ ''/'' @ resource_id res;
         node_name = (if r_ty remote = Remote_Pbs then ''pbs/'' @ remote_name @ ''/host'' else name);
         guest = (rank num (cpu_entity F read remote_name res name) guest_cpu, node_cpu, node_memory);
         node = (guest_cpu, rank num (cpu_entity F read remote_name res node_name) node_cpu,
                 rank num (node_memory_entity F read remote_name res node_name) node_memory)
     in case res of
          PveStorage _ \<Rightarrow> (guest_cpu, node_cpu, node_memory)
        | PveQemu _ \<Rightarrow> guest
        | PveLxc _ \<Rightarrow> guest
        | PveNode _ \<Rightarrow> node
        | PbsNode _ \<Rightarrow> node
        | PveNetwork _ \<Rightarrow> (guest_cpu, node_cpu, node_memory)
        | PbsDatastore _ \<Rightarrow> (guest_cpu, node_cpu, node_memory))"

definition calculate_top ::
  "'f floats \<Rightarrow> 'f metric_reader \<Rightarrow> (string \<Rightarrow> resource list option) \<Rightarrow> nat \<Rightarrow> (string \<Rightarrow> bool) \<Rightarrow> (string \<Rightarrow> resource \<Rightarrow> bool) \<Rightarrow>
   (string \<times> remote) list \<Rightarrow> 'f top_entities" where
  "calculate_top F read cached num check_remote_privs is_resource_included remotes =
     (let (guest_cpu, node_cpu, node_memory) =
            fold (\<lambda>(remote_name, remote) acc.
              if \<not> check_remote_privs remote_name then acc
              else case cached remote_name of
                     None \<Rightarrow> acc
                   | Some resources \<Rightarrow>
                       fold (\<lambda>res acc. if \<not> is_resource_included remote_name res then acc
                                        else rank_resource F read num remote_name remote res acc) resources acc)
              remotes ([], [], [])
      in \<lparr>tp_guest_cpu = map snd guest_cpu, tp_node_cpu = map snd node_cpu, tp_node_memory = map snd node_memory\<rparr>)"

definition get_top_entities ::
  "'f floats \<Rightarrow> 'f extractor \<Rightarrow> 64 word \<Rightarrow> 'f rrd \<Rightarrow> (string \<Rightarrow> resource list option) \<Rightarrow> access \<Rightarrow> view_config section_config \<Rightarrow>
   remote section_config \<Rightarrow> rrd_timeframe option \<Rightarrow> string option \<Rightarrow> list_error + 'f top_entities" where
  "get_top_entities F extract now rrd cached ac views remotes_config timeframe view =
     and_then (check_access (Some ac) view) (\<lambda>_.
       case get_optional_view views view of
         Inl err \<Rightarrow> Inl (Unknown_View err)
       | Inr v \<Rightarrow>
           (let timeframe = (case timeframe of None \<Rightarrow> Tf_Day | Some tf \<Rightarrow> tf)
            in Inr (calculate_top F (\<lambda>basedir name. extract_data extract now rrd basedir name timeframe Mode_Average) cached 10
                 (may_see (Some ac) v)
                 (\<lambda>remote res. case v of Some v \<Rightarrow> resource_matches v remote res | None \<Rightarrow> True)
                 remotes_config)))"

end
