(* ===== verification/Top_Entities_Props.thy ===== *)
theory Top_Entities_Props
  imports Top_Entities "HOL-Library.Multiset"
begin

text \<open>
  Properties of the ranking of entities: the insertion into a bounded ascending list, and the ranking as the highest of all
  entities the caller may see.
\<close>

section \<open>The list of the highest\<close>

lemma key_index_range:
  "lo \<le> hi \<Longrightarrow> hi \<le> length vec \<Longrightarrow> sorted (map fst vec) \<Longrightarrow>
   (\<forall>i < lo. fst (vec ! i) \<le> key) \<Longrightarrow> (\<forall>i. hi \<le> i \<and> i < length vec \<longrightarrow> key \<le> fst (vec ! i)) \<Longrightarrow>
   key_index vec key lo hi \<le> length vec
   \<and> (\<forall>i < key_index vec key lo hi. fst (vec ! i) \<le> key)
   \<and> (\<forall>i. key_index vec key lo hi \<le> i \<and> i < length vec \<longrightarrow> key \<le> fst (vec ! i))"
proof (induction vec key lo hi rule: key_index.induct)
  case (1 vec key lo hi)
  show ?case
  proof (cases "hi \<le> lo")
    case True
    then have "key_index vec key lo hi = lo" by (simp add: key_index.simps)
    with True 1 show ?thesis by simp
  next
    case False
    let ?mid = "(lo + hi) div 2"
    have mid: "lo \<le> ?mid" "?mid < hi" "?mid < length vec"
      using False 1(4) by auto
    have le: "i \<le> j \<Longrightarrow> j < length vec \<Longrightarrow> fst (vec ! i) \<le> fst (vec ! j)" for i j
      using sorted_nth_mono [OF 1(5), of i j] by simp
    consider "fst (vec ! ?mid) = key" | "fst (vec ! ?mid) < key" | "key < fst (vec ! ?mid)" by linarith
    then show ?thesis
    proof cases
      case 1
      then have "key_index vec key lo hi = ?mid" using False by (subst key_index.simps) simp
      then show ?thesis using 1 mid le by (auto intro: less_imp_le)
    next
      case 2
      then have eq: "key_index vec key lo hi = key_index vec key (Suc ?mid) hi"
        using False by (subst key_index.simps) simp
      have "\<forall>i < Suc ?mid. fst (vec ! i) \<le> key"
        using le [of _ ?mid] mid(3) 2 by (metis less_Suc_eq_le order.strict_implies_order order.trans)
      then show ?thesis
        unfolding eq using "1.IH"(1) [OF False refl _ 2] 2 mid "1.prems" by auto
    next
      case 3
      then have eq: "key_index vec key lo hi = key_index vec key lo ?mid"
        using False by (subst key_index.simps) simp
      have up: "\<forall>i. ?mid \<le> i \<and> i < length vec \<longrightarrow> key \<le> fst (vec ! i)"
        using le [of ?mid] 3 by (meson less_imp_le order.trans)
      have "fst (vec ! ?mid) \<noteq> key" "\<not> fst (vec ! ?mid) < key"
        using 3 by auto
      note IH = "1.IH"(2) [OF False refl this]
      show ?thesis
        unfolding eq by (rule IH [OF mid(1) less_imp_le [OF mid(3)] "1.prems"(3,4) up])
    qed
  qed
qed

definition last_of :: "nat \<Rightarrow> 'a list \<Rightarrow> 'a list" where
  "last_of n xs = drop (length xs - n) xs"

lemma map_last_of: "map f (last_of n xs) = last_of n (map f xs)"
  by (simp add: last_of_def drop_map)

lemma sorted_mset_eq: "sorted xs \<Longrightarrow> sorted ys \<Longrightarrow> mset xs = mset ys \<Longrightarrow> xs = (ys :: 'a::linorder list)"
  by (metis properties_for_sort sorted_sort_id)

lemma insert_sorted_eq:
  assumes "sorted (map fst vec)"
  shows "map fst (insert_sorted limit e vec) = last_of limit (insort (fst e) (map fst vec))"
    and "mset (insert_sorted limit e vec) \<subseteq># add_mset e (mset vec)"
proof -
  define k where "k = key_index vec (fst e) 0 (length vec)"
  have k: "k \<le> length vec" "\<forall>i < k. fst (vec ! i) \<le> fst e" "\<forall>i. k \<le> i \<and> i < length vec \<longrightarrow> fst e \<le> fst (vec ! i)"
    using key_index_range [of 0 "length vec" vec "fst e"] assms by (auto simp: k_def)
  define new where "new = take k vec @ e # drop k vec"
  have "insert_sorted limit e vec = last_of limit new"
    by (auto simp: insert_sorted_def Let_def k_def [symmetric] new_def last_of_def)
  moreover have "map fst new = insort (fst e) (map fst vec)"
  proof -
    have below: "x \<in> set (take k vec) \<Longrightarrow> fst x \<le> fst e" for x
      using k(2) by (auto simp: in_set_conv_nth)
    have above: "x \<in> set (drop k vec) \<Longrightarrow> fst e \<le> fst x" for x
      using k(3) by (auto simp: in_set_conv_nth)
    have "sorted (map fst (take k vec))" "sorted (map fst (drop k vec))"
      using assms by (simp_all add: take_map [symmetric] drop_map [symmetric] sorted_wrt_take sorted_wrt_drop)
    then have "sorted (map fst new)"
      using below above by (fastforce simp: new_def sorted_append)
    moreover have "mset (map fst new) = mset (insort (fst e) (map fst vec))"
      by (simp add: new_def) (metis append_take_drop_id map_append mset_append mset_map union_mset_add_mset_right)
    ultimately show ?thesis
      using assms by (intro sorted_mset_eq) (simp_all add: sorted_insort)
  qed
  moreover have "mset (last_of limit new) \<subseteq># mset new"
    by (metis append_take_drop_id last_of_def mset_append mset_subset_eq_add_right)
  moreover have "mset new = add_mset e (mset vec)"
    by (simp add: new_def) (metis append_take_drop_id mset_append)
  ultimately show "map fst (insert_sorted limit e vec) = last_of limit (insort (fst e) (map fst vec))"
    and "mset (insert_sorted limit e vec) \<subseteq># add_mset e (mset vec)"
    by (simp_all add: map_last_of)
qed

lemma last_of_insort:
  assumes "sorted xs"
  shows "last_of n (insort x (last_of n xs)) = last_of n (insort x xs)"
proof (cases "length xs \<le> n")
  case False
  define A where "A = take (length xs - n) xs"
  define B where "B = drop (length xs - n) xs"
  have xs: "xs = A @ B" and len: "length B = n"
    using False by (simp_all add: A_def B_def)
  have s: "sorted A" "sorted B" "\<And>a b. a \<in> set A \<Longrightarrow> b \<in> set B \<Longrightarrow> a \<le> b"
    using assms unfolding xs by (auto simp: sorted_append)
  have B: "last_of n xs = B" by (simp add: last_of_def B_def)
  show ?thesis
  proof (cases "\<forall>a \<in> set A. a \<le> x")
    case True
    have "insort x xs = A @ insort x B"
      using s True by (intro sorted_mset_eq) (auto simp: xs sorted_append sorted_insort set_insort_key)
    then show ?thesis
      unfolding B by (simp add: last_of_def [of n "insort x B"] last_of_def [of n "A @ insort x B"] len)
  next
    case False
    then obtain a where a: "a \<in> set A" "x < a" by auto
    then have x: "x \<le> b" if "b \<in> set B" for b
      using s(3) that by (meson less_imp_le order.trans)
    then have "insort x B = x # B"
      by (simp add: insort_is_Cons)
    moreover have "insort x xs = insort x A @ B"
      using s x by (intro sorted_mset_eq) (auto simp: xs sorted_append sorted_insort set_insort_key)
    ultimately show ?thesis
      unfolding B by (simp add: last_of_def [of n "x # B"] last_of_def [of n "insort x A @ B"] len)
  qed
qed (simp add: last_of_def)

lemma ranking_eq:
  "map fst (fold (insert_sorted n) es []) = last_of n (sort (map fst es))"
  "mset (fold (insert_sorted n) es []) \<subseteq># mset es"
proof (induction es rule: rev_induct)
  case (snoc e es)
  have "sorted (map fst (fold (insert_sorted n) es []))"
    unfolding snoc.IH(1) last_of_def by (simp add: sorted_wrt_drop)
  note step = insert_sorted_eq [OF this, of n e]
  {
    case 1
    have "sort (map fst (es @ [e])) = insort (fst e) (sort (map fst es))"
      by (rule sorted_mset_eq) (simp_all add: sorted_insort)
    then show ?case
      by (simp add: step(1) snoc.IH(1) last_of_insort)
  next
    case 2
    show ?case
      using step(2) snoc.IH(2) by (simp) (meson mset_subset_eq_add_mset_cancel subset_mset.trans)
  }
qed (simp_all add: last_of_def)

section \<open>All entities\<close>

definition visible_resources ::
  "(string \<Rightarrow> resource list option) \<Rightarrow> (string \<Rightarrow> bool) \<Rightarrow> (string \<Rightarrow> resource \<Rightarrow> bool) \<Rightarrow> (string \<times> remote) list \<Rightarrow>
   (string \<times> remote \<times> resource) list" where
  "visible_resources cached privs included remotes =
     concat (map (\<lambda>(n, r).
       if privs n then (case cached n of None \<Rightarrow> [] | Some rs \<Rightarrow> map (\<lambda>res. (n, r, res)) (filter (included n) rs)) else []) remotes)"

definition node_dir :: "string \<Rightarrow> remote \<Rightarrow> resource \<Rightarrow> string" where
  "node_dir n r res = (if r_ty r = Remote_Pbs then ''pbs/'' @ n @ ''/host'' else ''pve/'' @ n @ ''/'' @ resource_id res)"

definition guest_entity :: "'f floats \<Rightarrow> 'f metric_reader \<Rightarrow> string \<times> remote \<times> resource \<Rightarrow> (nat \<times> 'f top_entity) option" where
  "guest_entity F read = (\<lambda>(n, r, res).
     if type_of_resource res \<in> {RT_PveQemu, RT_PveLxc} then cpu_entity F read n res (''pve/'' @ n @ ''/'' @ resource_id res) else None)"

definition node_cpu_entity :: "'f floats \<Rightarrow> 'f metric_reader \<Rightarrow> string \<times> remote \<times> resource \<Rightarrow> (nat \<times> 'f top_entity) option" where
  "node_cpu_entity F read = (\<lambda>(n, r, res).
     if type_of_resource res = RT_Node then cpu_entity F read n res (node_dir n r res) else None)"

definition node_mem_entity :: "'f floats \<Rightarrow> 'f metric_reader \<Rightarrow> string \<times> remote \<times> resource \<Rightarrow> (nat \<times> 'f top_entity) option" where
  "node_mem_entity F read = (\<lambda>(n, r, res).
     if type_of_resource res = RT_Node then node_memory_entity F read n res (node_dir n r res) else None)"

lemma rank_resource_eq:
  "rank_resource F read num n r res (g, c, m) =
     (rank num (guest_entity F read (n, r, res)) g, rank num (node_cpu_entity F read (n, r, res)) c,
      rank num (node_mem_entity F read (n, r, res)) m)"
  by (cases res)
    (simp_all add: rank_resource_def Let_def guest_entity_def node_cpu_entity_def node_mem_entity_def node_dir_def
      type_of_resource_def rank_def)

lemma fold_rank: "fold (\<lambda>x. rank num (f x)) xs vec = fold (insert_sorted num) (List.map_filter f xs) vec"
  by (induction xs arbitrary: vec) (simp_all add: rank_def List.map_filter_simps split: option.split)

lemma fold_rank_resource:
  "fold (\<lambda>(n, r, res). rank_resource F read num n r res) xs (g, c, m) =
     (fold (insert_sorted num) (List.map_filter (guest_entity F read) xs) g,
      fold (insert_sorted num) (List.map_filter (node_cpu_entity F read) xs) c,
      fold (insert_sorted num) (List.map_filter (node_mem_entity F read) xs) m)"
  unfolding fold_rank [symmetric]
  by (induction xs arbitrary: g c m) (auto simp: rank_resource_eq)

lemma fold_if: "fold (\<lambda>x acc. if \<not> P x then acc else f x acc) xs acc = fold f (filter P xs) acc"
  by (induction xs arbitrary: acc) simp_all

lemma calculate_top_fold:
  "fold (\<lambda>(n, r) acc.
      if \<not> privs n then acc
      else case cached n of
             None \<Rightarrow> acc
           | Some rs \<Rightarrow> fold (\<lambda>res acc. if \<not> included n res then acc else rank_resource F read num n r res acc) rs acc)
     remotes acc =
   fold (\<lambda>(n, r, res). rank_resource F read num n r res) (visible_resources cached privs included remotes) acc"
  by (induction remotes arbitrary: acc) (auto simp: visible_resources_def fold_if fold_map o_def split: option.split)

lemma calculate_top_eq:
  fixes F :: "'f floats"
  defines "ranked \<equiv> (\<lambda>num f xs. map snd (fold (insert_sorted num) (List.map_filter f xs) []))"
  shows "calculate_top F read cached num privs included remotes =
     \<lparr>tp_guest_cpu = ranked num (guest_entity F read) (visible_resources cached privs included remotes),
      tp_node_cpu = ranked num (node_cpu_entity F read) (visible_resources cached privs included remotes),
      tp_node_memory = ranked num (node_mem_entity F read) (visible_resources cached privs included remotes)\<rparr>"
  unfolding calculate_top_def calculate_top_fold fold_rank_resource ranked_def by simp

definition highest :: "nat \<Rightarrow> (nat \<times> 'a) list \<Rightarrow> 'a list \<Rightarrow> bool" where
  "highest n cands xs \<longleftrightarrow>
     (\<exists>g. xs = map snd g \<and> map fst g = last_of n (sort (map fst cands)) \<and> mset g \<subseteq># mset cands)"

lemma highest_ranking: "highest n (List.map_filter f xs) (map snd (fold (insert_sorted n) (List.map_filter f xs) []))"
  unfolding highest_def using ranking_eq by blast

text \<open>With or without a view, each ranking has the ten highest of the resources the handler considers.\<close>

theorem top_entities_ranked:
  assumes "get_top_entities F extract now rrd cached ac views remotes timeframe view = Inr tp"
    and "get_optional_view views view = Inr v"
  defines "read \<equiv> \<lambda>basedir name. extract_data extract now rrd basedir name (case timeframe of None \<Rightarrow> Tf_Day | Some tf \<Rightarrow> tf) Mode_Average"
    and "cands \<equiv> visible_resources cached (may_see (Some ac) v) (\<lambda>n res. case v of Some v \<Rightarrow> resource_matches v n res | None \<Rightarrow> True) remotes"
  shows "highest 10 (List.map_filter (guest_entity F read) cands) (tp_guest_cpu tp)
     \<and> highest 10 (List.map_filter (node_cpu_entity F read) cands) (tp_node_cpu tp)
     \<and> highest 10 (List.map_filter (node_mem_entity F read) cands) (tp_node_memory tp)"
proof -
  have "tp = calculate_top F read cached 10 (may_see (Some ac) v)
      (\<lambda>n res. case v of Some v \<Rightarrow> resource_matches v n res | None \<Rightarrow> True) remotes"
    using assms(1,2) by (auto simp: get_top_entities_def read_def and_then_Inr_iff Let_def)
  then show ?thesis
    unfolding calculate_top_eq cands_def by (simp add: highest_ranking)
qed

text \<open>A caller who names a view gets the same answer whatever remotes he has the audit privilege on.\<close>

theorem top_entities_view_ignores_remotes:
  "get_top_entities F extract now rrd cached (ac\<lparr>ac_remote_audit := audit\<rparr>) views remotes timeframe (Some view)
     = get_top_entities F extract now rrd cached ac views remotes timeframe (Some view)"
proof -
  have "may_see (Some (ac\<lparr>ac_remote_audit := audit\<rparr>)) (Some v) = may_see (Some ac) (Some v)" for v
    by (simp add: may_see_def fun_eq_iff)
  then show ?thesis
    by (auto simp: get_top_entities_def check_access_def get_optional_view_def get_view_def and_then_def split: option.split)
qed

text \<open>C40. A caller who names no view gets, if there is a resource he may audit, in each of the three rankings at most ten entities in
  ascending order whose loads are the ten highest of all guests (or nodes) of the remotes on which he has the audit
  privilege, over every cached resource of every such remote, in whatever order the remotes come; otherwise he is refused.
  With a view the handler does not look at the audit privilege on the remotes, contrary to its description; that case is
  left out.\<close>

theorem top_entities_highest:
  assumes "ac_any_resource ac"
  shows "\<exists>tp. get_top_entities F extract now rrd cached ac views remotes timeframe None = Inr tp
     \<and> (let read = (\<lambda>basedir name. extract_data extract now rrd basedir name (case timeframe of None \<Rightarrow> Tf_Day | Some tf \<Rightarrow> tf) Mode_Average);
            cands = concat (map (\<lambda>(n, r). case cached n of None \<Rightarrow> [] | Some rs \<Rightarrow> map (\<lambda>res. (n, r, res)) rs)
                      (filter (\<lambda>(n, r). ac_remote_audit ac n) remotes))
        in highest 10 (List.map_filter (guest_entity F read) cands) (tp_guest_cpu tp)
         \<and> highest 10 (List.map_filter (node_cpu_entity F read) cands) (tp_node_cpu tp)
         \<and> highest 10 (List.map_filter (node_mem_entity F read) cands) (tp_node_memory tp))
     \<and> get_top_entities F extract now rrd cached (ac\<lparr>ac_any_resource := False\<rparr>) views remotes timeframe None = Inl Forbidden"
proof -
  have v: "get_optional_view views None = Inr None" by (simp add: get_optional_view_def)
  obtain tp where tp: "get_top_entities F extract now rrd cached ac views remotes timeframe None = Inr tp"
    using assms by (simp add: get_top_entities_def check_access_def v and_then_def)
  have "visible_resources cached (may_see (Some ac) None) (\<lambda>_ _. True) remotes
      = concat (map (\<lambda>(n, r). case cached n of None \<Rightarrow> [] | Some rs \<Rightarrow> map (\<lambda>res. (n, r, res)) rs)
          (filter (\<lambda>(n, r). ac_remote_audit ac n) remotes))"
    by (induction remotes) (auto simp: visible_resources_def may_see_def split: option.split)
  with top_entities_ranked [OF tp v] tp show ?thesis
    by (simp add: Let_def get_top_entities_def check_access_def and_then_def)
qed

section \<open>A concrete ranking\<close>

definition top_floats :: "nat floats" where
  "top_floats = \<lparr>fl_zero = 0, fl_of_u64 = id, fl_add = (+), fl_mul = (*), fl_div = (div), fl_finite = (\<lambda>_. True),
     fl_positive = (\<lambda>x. 0 < x), fl_round_usize = id\<rparr>"

definition top_guest :: "nat \<Rightarrow> resource" where
  "top_guest n = PveQemu \<lparr>g_cpu = 0, g_maxcpu = 0, g_disk = 0, g_maxdisk = 0, g_id = [], g_maxmem = 0, g_mem = 0, g_name = [],
     g_node = [], g_pool = [], g_status = [], g_tags = [], g_template = False, g_uptime = 0, g_vmid = n\<rparr>"

definition top_extract :: "nat extractor" where
  "top_extract = (\<lambda>rrd basedir name cf resolution s e.
     Inr (Some \<lparr>re_start = 0, re_resolution = resolution, re_data = [Some (length basedir), None]\<rparr>))"

definition top_access :: access where
  "top_access = \<lparr>ac_view_audit = (\<lambda>_. False), ac_any_resource = True, ac_all_resources = False,
     ac_remote_audit = (\<lambda>n. n = ''a'')\<rparr>"

definition top_config :: "remote section_config" where
  "top_config = map (\<lambda>i. (i, \<lparr>r_ty = Remote_Pve, r_id = i, r_nodes = [], r_authid = [], r_token = [], r_web_url = None\<rparr>)) [''b'', ''a'']"

definition top_cached :: "string \<Rightarrow> resource list option" where
  "top_cached = (\<lambda>_. Some [top_guest 500, top_guest 7])"

definition top_reader :: "nat metric_reader" where
  "top_reader = (\<lambda>d n. extract_data top_extract 5000 [] d n Tf_Day Mode_Average)"

definition top_cands :: "(string \<times> remote \<times> resource) list" where
  "top_cands = concat (map (\<lambda>(n, r). case top_cached n of None \<Rightarrow> [] | Some rs \<Rightarrow> map (\<lambda>res. (n, r, res)) rs)
     (filter (\<lambda>(n, r). ac_remote_audit top_access n) top_config))"

text \<open>Only the two guests of the remote the caller may audit are ranked.\<close>

theorem top_entities_highest_witness:
  "(\<exists>tp. get_top_entities top_floats top_extract 5000 [] top_cached top_access [] top_config None None = Inr tp
     \<and> highest 10 (List.map_filter (guest_entity top_floats top_reader) top_cands) (tp_guest_cpu tp))
   \<and> map (\<lambda>(load, e). (load, te_remote e)) (List.map_filter (guest_entity top_floats top_reader) top_cands) = [(1400, ''a''), (1200, ''a'')]"
proof -
  have any: "ac_any_resource top_access" by (simp add: top_access_def)
  have "map (\<lambda>(load, e). (load, te_remote e)) (List.map_filter (guest_entity top_floats top_reader) top_cands) = [(1400, ''a''), (1200, ''a'')]"
    by code_simp
  moreover have "\<exists>tp. get_top_entities top_floats top_extract 5000 [] top_cached top_access [] top_config None None = Inr tp
     \<and> highest 10 (List.map_filter (guest_entity top_floats top_reader) top_cands) (tp_guest_cpu tp)"
    using top_entities_highest [OF any, of top_floats top_extract 5000 "[]" top_cached "[]" top_config None]
    unfolding Let_def option.case top_cands_def [symmetric] top_reader_def [symmetric] by blast
  ultimately show ?thesis by blast
qed

end
