(* ===== verification/Spec2Isabelle.thy ===== *)
theory Spec2Isabelle
  imports Subscription_Apply Task_Update Remote_Cache_Props Multi_Client_Props Resource_List_Props Namespaced_Cache_Props Task_List_Props Monitoring_Props Domain_Onboarding_Props Auto_Installer_Runs Ceph_Runs Metric_Points_Props Metric_Collection_Props Top_Entities_Props
begin

text \<open>
  \<^bold>\<open>The program.\<close> The server of the datacenter manager (\<open>server/src\<close>, with the types of
  \<open>lib/pdm-api-types\<close>, the configuration files of \<open>lib/pdm-config\<close> and the search language of
  \<open>lib/pdm-search\<close>) administers \<^emph>\<open>remotes\<close>: clusters of virtualization hosts and backup servers, each
  reachable through one or more hosts. It assigns subscription keys to their nodes, collects their tasks and resources,
  caches what they answer, and adds a control plane of its own for monitored devices, mail domains and automated
  installations. The parts and how they interact:

  \<^item> API handlers read and write configuration files (ordered maps of sections) under a file lock with a digest of
    what the caller saw: subscriptions, installations, remotes, views.
  \<^item> Every call to a remote goes through a client that rotates over the hosts of the remote; failures are recorded in a
    cache of host states shared by all processes, which in turn decides which hosts the next request skips.
  \<^item> Calls to many remotes run through a fetcher with a bound on all connections and on those of one remote. The
    refresh task of the task cache and the resource listing are its users.
  \<^item> Answers of remotes are kept in a cache of files by namespace and key, read by the listing of resources and by the
    subscription plan.
  \<^item> A collection task fetches metrics of all remotes and hands them to a task that owns the metrics database; the API reads
    data points and rankings from it. A sweep over the remotes keeps a registry of the Ceph clusters they report.
  \<^item> The control plane keeps JSON inventories and drives external services through small helper programs.

  \<^bold>\<open>The theories.\<close> One or more theories per part; a theory with definitions is followed by one with its
  properties, called \<open>_Props\<close>. State is passed explicitly, errors are values of a sum type per component,
  machine integers carry their bounds (wrapping and saturating forms in \<open>Prelude\<close>, words where bits matter), and
  what the code obtains from outside (remotes, clocks, random numbers, external programs, parsers of other libraries) is a
  parameter.

  \<^item> \<open>Prelude\<close>: Rust integers and strings, stable sorting, the locales \<open>key_comparator\<close>,
    \<open>simulation\<close> (operations with results that refine others) and \<open>invariant_system\<close> (an invariant that
    every step keeps). \<open>Text\<close>: character classes, trimming and splitting of text. \<open>Json\<close>: JSON values, with
    the locale \<open>json_object\<close>. \<open>Section_Config\<close>: the ordered map of sections, with the locale
    \<open>section_map\<close>; every client of a configuration file uses its laws only.
  \<^item> \<open>Subscription_Types\<close> (\<open>subscription.rs\<close>, \<open>remotes.rs\<close> of the types), \<open>Subscription_Pool\<close>
    and \<open>Subscription_Plan\<close> (\<open>api/subscriptions/mod.rs\<close>): the pool of keys, every handler that changes it,
    the plan of assignments with its digest, and the worker that brings the nodes to the pool's state.
    \<open>Subscription_Inv\<close>: the pool after every sequence of handlers and worker steps. \<open>Subscription_Props\<close>
    and \<open>Subscription_Apply\<close>: classification of keys, soundness of proposals, stale digests, non-interference
    between remotes by permission, and what the worker may write.
  \<^item> \<open>Remote_Upid\<close>: task ids and their textual form. \<open>Task_Cache\<close>, \<open>Task_Journal\<close>,
    \<open>Task_Merge\<close>, \<open>Task_Rotate\<close>, \<open>Task_Update\<close> (\<open>remote_tasks/task_cache.rs\<close>): a
    directory of sorted files with a journal; adding tasks, reading them in order with a lazy merge, applying the
    journal, rotating files and the cut-off of each node. \<open>Task_Refresh\<close> (\<open>refresh_task.rs\<close>) is the
    timer task that fetches and polls tasks of all remotes; \<open>Task_List\<close> (\<open>remote_tasks/mod.rs\<close>,
    \<open>api/remotes/tasks.rs\<close>) lists them with filters, paging and permissions.
  \<^item> \<open>Remote_Cache\<close> (\<open>remote_cache\<close>): host states, back-off and the two indices of a remote.
    \<open>Multi_Client\<close> (\<open>connection.rs\<close>): the rotation over hosts and the request loop with failover.
  \<^item> \<open>Parallel_Fetcher\<close> (\<open>parallel_fetcher.rs\<close>): the tasks of a fetch as a transition system over two
    semaphores.
  \<^item> \<open>Namespaced_Cache\<close> (\<open>namespaced_cache.rs\<close>, \<open>api_cache.rs\<close>): the cache of answers.
  \<^item> \<open>Search_Terms\<close> (\<open>pdm-search\<close>), \<open>Views\<close> (\<open>views\<close>), \<open>Resource_Types\<close>
    (\<open>resource.rs\<close>) and \<open>Resource_List\<close> (\<open>api/resources.rs\<close>): searching and listing resources.
  \<^item> \<open>Monitoring\<close> (\<open>api/nexus/monitoring\<close>), \<open>Domains\<close> (\<open>api/nexus/domains.rs\<close>, with
    \<open>Domain_Onboarding_Props\<close>) and \<open>Auto_Installer\<close> (\<open>api/auto_installer/mod.rs\<close>,
    \<open>pdm-config/src/auto_install.rs\<close>, with \<open>Auto_Installer_Runs\<close>): the control plane.
  \<^item> \<open>Remote_Config\<close> and \<open>Remote_Admin\<close> (\<open>pdm-config/src/remotes.rs\<close>, \<open>api/remotes/mod.rs\<close>): the configured
    remotes with their secrets in a second file, adding, updating and removing them; \<open>Remote_Admin_Props\<close> interprets
    \<open>simulation\<close> on the two files and a map.
  \<^item> \<open>Ceph\<close> (\<open>pdm-config/src/ceph.rs\<close>), \<open>Ceph_Sweep\<close> (\<open>ceph/sweep.rs\<close>) and \<open>Ceph_Api\<close>
    (\<open>ceph/registry.rs\<close>, \<open>dispatch.rs\<close>, \<open>cache.rs\<close>, \<open>api/ceph/clusters.rs\<close>): the registry file with its unknown keys,
    detection, access and status. The contract of both kinds of sections is the locale \<open>typed_section\<close>;
    \<open>Ceph_Props\<close>, \<open>Ceph_Sweep_Props\<close> and \<open>Ceph_Runs\<close> hold the properties, the last one over all interleavings of
    handlers and detection.
  \<^item> \<open>Metric_Store\<close> (\<open>metric_collection/rrd_task.rs\<close>, \<open>rrd_cache.rs\<close>, \<open>local_collection_task.rs\<close>),
    \<open>Metric_Collection\<close> (\<open>remote_collection_task.rs\<close>, \<open>state.rs\<close>, \<open>mod.rs\<close>), \<open>Metric_Points\<close>
    (\<open>api/rrd_common.rs\<close>, the three \<open>rrddata.rs\<close>) and \<open>Top_Entities\<close> (\<open>top_entities.rs\<close>): metrics from the remotes to
    the API. The trait of data points is the locale \<open>data_point_type\<close>, interpreted for each of its eight kinds.

  \<^bold>\<open>What the lemmas show.\<close> For every component with state, an invariant of all reachable states, through an
  interpretation of \<open>invariant_system\<close> on its step relation: the key pool, the cache of hosts, the jobs of a fetch,
  the device inventory, the domain inventory, the installations, the remotes with the registry of clusters, and the metric
  collection. The cache of answers and the files of the remotes refine a map by \<open>simulation\<close>. Optimised routines agree with references: the lazy merge with a merge of all files, journal
  application with adding to the files at once, the resource listing with a listing without shortcuts, binary search with
  lookup. Textual forms and files can be read back (task ids, searches, filter rules, archive names, the registry of clusters,
  the state of the metric collection). The effect of a sweep and of a tick of the collection is given exactly, whatever the
  order in which remotes answer; rankings hold the highest of all entities. Loops end: the request loop, a
  fetch, and each tick of the refresh task. Safety statements follow permissions through the listings, the subscription
  handlers and the worker. Where the code does not do what it intends, the behaviour is proved as it is
  (\<open>running_task_duplicates\<close>, \<open>rename_loses_host\<close>, \<open>skipped_host_never_tried\<close>,
  \<open>search_view_bypasses_acl\<close>, \<open>tick_drops_only_settled\<close>, \<open>stale_schedule_never_silences\<close>,
  \<open>removed_remote_returns\<close>, \<open>spanning_cluster_first_remote\<close>, \<open>failed_write_effect\<close>, \<open>pbs_node_rates_lost\<close>,
  \<open>empty_answer_resets_cursor\<close>, \<open>archives_cover_frames\<close>, \<open>mixed_probes_unreachable\<close>,
  \<open>top_entities_view_ignores_remotes\<close>, \<open>dotdot_id_lands_elsewhere\<close>).

  \<^bold>\<open>Bounds and fuel.\<close> Loops are structural or have a termination proof. The request loop takes fuel; the number
  of hosts plus one is enough (\<open>request_terminates\<close>). The onboarding loop makes at most three attempts, as the code
  does. The back-off shift is bounded by five doublings, so that it does not overflow. Counters and times are kept in the
  range of the integer the code uses.

  \<^bold>\<open>Parameters and hypotheses.\<close> Digests are functions of the content; where a statement needs a digest to identify
  the content, injectivity on the contents at hand is a hypothesis. The password hash is assumed to verify a password
  against its own hash only. The JSON library is assumed to read back what it wrote, regular expressions, template
  rendering, globs and the parsers of addresses are arbitrary functions. Ids of clusters are texts of 36 characters, as the
  identifiers Ceph generates are. The metrics database is the sequence of updates it was given, reading from it and floating
  point arithmetic are parameters; the clock of the collection is assumed to stay between the epoch and a bound far below
  the range of its integer. Steps of one handler under its lock are atomic;
  between a read without lock and the later write, a handler gets the earlier state as an argument of its own.

  \<^bold>\<open>Not modelled.\<close> The web interface (\<open>ui\<close>), the command line tools (\<open>cli\<close>) and the client
  library (\<open>lib/pdm-client\<close>) present or forward what the API answers. Handlers that only forward one call to a
  remote or to a system service (\<open>api/pve\<close>, \<open>api/pbs\<close>, \<open>api/nodes\<close>, \<open>api/sdn\<close>,
  \<open>api/config/access\<close>) have no logic of their own beyond a permission check. Authentication is in the access-control
  library. Lock timeouts, failing system calls other than those the code tells apart, logging and panics are left out.
  The parts still open are listed in the manifest with their sources.
\<close>

end
